(* ===== verification/Prelude.thy ===== *)
theory Prelude
  imports Main "HOL-Library.Word" "HOL-Library.Code_Target_Nat"
begin

text \<open>
  What every component shares: the names of the machine integers, bytes and big-endian
  16-bit fields, and the generic lemmas on lists, options and words.
\<close>

unbundle bit_operations_syntax

section \<open>Machine integers\<close>

type_synonym u8 = "8 word"
type_synonym u16 = "16 word"
type_synonym u32 = "32 word"

text \<open>
  \<open>be16\<close> reads two bytes in network order, as \<open>ntohs\<close> of an unaligned field does;
  \<open>hi8\<close> and \<open>lo8\<close> are the bytes that \<open>htons\<close> stores.
\<close>

definition be16 :: "u8 \<Rightarrow> u8 \<Rightarrow> nat" where
  "be16 h l = 256 * unat h + unat l"

definition hi8 :: "nat \<Rightarrow> u8" where
  "hi8 n = word_of_nat (n div 256)"

definition lo8 :: "nat \<Rightarrow> u8" where
  "lo8 n = word_of_nat n"

text \<open>
  \<open>htons\<close> of a value kept in a 16-bit field as it is stored (and \<open>ntohs\<close>, which is the same);
  \<open>big\<close> is the byte order of the machine.
\<close>

definition htons :: "bool \<Rightarrow> u16 \<Rightarrow> u16" where
  "htons big w = (if big then w else push_bit 8 w OR drop_bit 8 w)"

lemma unat_u8_lt [simp]: "unat (x :: u8) < 256"
  using unsigned_less [of x] by simp

lemma unat_u16_lt [simp]: "unat (x :: u16) < 65536"
  using unsigned_less [of x] by simp

lemma be16_lt [simp]: "be16 h l < 65536"
  using unat_u8_lt [of h] unat_u8_lt [of l] unfolding be16_def by linarith

lemma unat_hi8 [simp]: "n < 65536 \<Longrightarrow> unat (hi8 n) = n div 256"
  by (simp add: hi8_def unat_of_nat)

lemma unat_lo8 [simp]: "unat (lo8 n) = n mod 256"
  by (simp add: lo8_def unat_of_nat)

lemma be16_hi_lo [simp]: "n < 65536 \<Longrightarrow> be16 (hi8 n) (lo8 n) = n"
  by (simp add: be16_def)

lemma hi8_be16 [simp]: "hi8 (be16 h l) = h"
proof -
  have "unat l < 256" by (rule unat_u8_lt)
  then show ?thesis by (simp add: hi8_def be16_def)
qed

lemma lo8_be16 [simp]: "lo8 (be16 h l) = l"
  by (rule word_unat_eq_iff [THEN iffD2]) (simp add: be16_def)

lemma htons_inj: "htons big a = htons big b \<Longrightarrow> a = b"
proof -
  have *: "push_bit 8 (push_bit 8 w OR drop_bit 8 w) OR drop_bit 8 (push_bit 8 w OR drop_bit 8 w) = w" for w :: u16
    by (rule bit_word_eqI) (auto simp: bit_simps)
  show "htons big a = htons big b \<Longrightarrow> a = b"
    by (cases big) (simp_all add: htons_def, metis *)
qed

lemma htons_0 [simp]: "htons big 0 = 0"
  by (simp add: htons_def)

section \<open>Lists\<close>

lemma take_append_drop_length: "n \<le> length xs \<Longrightarrow> length (take n xs) = n"
  by simp

lemma drop_nonempty_nth: "i < length xs \<Longrightarrow> drop i xs = xs ! i # drop (Suc i) xs"
  by (simp add: Cons_nth_drop_Suc)

section \<open>Memory\<close>

text \<open>
  A buffer is the list of the bytes of the object it lies in. \<open>None\<close> is an access outside the
  object, which C leaves undefined.
\<close>

definition rd :: "u8 list \<Rightarrow> nat \<Rightarrow> u8 option" where
  "rd b i = (if i < length b then Some (b ! i) else None)"

definition rd_be16 :: "u8 list \<Rightarrow> nat \<Rightarrow> nat option" where
  "rd_be16 b i = Option.bind (rd b i) (\<lambda>h. Option.bind (rd b (i + 1)) (\<lambda>l. Some (be16 h l)))"

definition rd_bytes :: "u8 list \<Rightarrow> nat \<Rightarrow> nat \<Rightarrow> u8 list option" where
  "rd_bytes b i n = (if i + n \<le> length b then Some (take n (drop i b)) else None)"

definition wr_bytes :: "u8 list \<Rightarrow> nat \<Rightarrow> u8 list \<Rightarrow> u8 list option" where
  "wr_bytes b i d = (if i + length d \<le> length b
     then Some (take i b @ d @ drop (i + length d) b) else None)"

lemma rd_append_left [simp]: "rd (a @ b) (length a + i) = rd b i"
  by (simp add: rd_def nth_append)

lemma rd_append_left0 [simp]: "rd (a @ b) (length a) = rd b 0"
  by (simp add: rd_def nth_append)

lemma rd_Cons_0 [simp]: "rd (x # b) 0 = Some x"
  by (simp add: rd_def)

lemma rd_Cons_Suc [simp]: "rd (x # b) (Suc i) = rd b i"
  by (simp add: rd_def)

lemma rd_eq_None [simp]: "rd b i = None \<longleftrightarrow> length b \<le> i"
  by (simp add: rd_def)

lemma rd_in [simp]: "i < length b \<Longrightarrow> rd b i = Some (b ! i)"
  by (simp add: rd_def)

lemma rd_be16_in: "i + 1 < length b \<Longrightarrow> rd_be16 b i = Some (be16 (b ! i) (b ! (i + 1)))"
  by (simp add: rd_be16_def)

lemma rd_bytes_in [simp]: "i + n \<le> length b \<Longrightarrow> rd_bytes b i n = Some (take n (drop i b))"
  by (simp add: rd_bytes_def)

lemma length_wr_bytes: "wr_bytes b i d = Some c \<Longrightarrow> length c = length b"
  by (auto simp: wr_bytes_def split: if_splits)

lemma be16_eq_0: "be16 h l = 0 \<longleftrightarrow> h = 0 \<and> l = 0"
  by (simp add: be16_def unat_eq_zero)

end
