(* ===== verification/Eapol_SM.thy ===== *)
theory Eapol_SM
  imports Prelude
begin

text \<open>
  The IEEE 802.1X authenticator of the wireless access point
  (\<open>rg/vendor/ralink/8021X/eapol_sm.c\<close> and \<open>eapol_sm.h\<close>): four state machines per station, run
  in rounds until none of the four state variables changes any more, and the one-second port
  timer tick. The C structures are records of the same fields (the four members called
  \<open>state\<close> carry the prefix of their machine; the two back pointers \<open>rtapd\<close> and \<open>sta\<close>, which
  never change, are left out). A timer, an \<open>int\<close> in C, and a counter, an \<open>unsigned int\<close>, are
  32-bit words; the tests \<open>> 0\<close> on the timers are signed. What a state entry asks of
  \<open>ieee802_1x.c\<close> (send a frame, authorise the port) is recorded in order in the field \<open>calls\<close>:
  none of those functions writes to the state machine. The debug prints are left out.
\<close>

section \<open>Data\<close>

datatype PortTypes = ForceUnauthorized | ForceAuthorized | Auto

datatype PortState = Unauthorized | Authorized

datatype auth_pae_state = AUTH_PAE_INITIALIZE | AUTH_PAE_DISCONNECTED | AUTH_PAE_CONNECTING
  | AUTH_PAE_AUTHENTICATING | AUTH_PAE_AUTHENTICATED | AUTH_PAE_ABORTING | AUTH_PAE_HELD
  | AUTH_PAE_FORCE_AUTH | AUTH_PAE_FORCE_UNAUTH

datatype be_auth_state = BE_AUTH_REQUEST | BE_AUTH_RESPONSE | BE_AUTH_SUCCESS | BE_AUTH_FAIL
  | BE_AUTH_TIMEOUT | BE_AUTH_IDLE | BE_AUTH_INITIALIZE

datatype reauth_timer_state = REAUTH_TIMER_INITIALIZE | REAUTH_TIMER_REAUTHENTICATE

datatype auth_key_tx_state = AUTH_KEY_TX_NO_KEY_TRANSMIT | AUTH_KEY_TX_KEY_TRANSMIT

record eapol_auth_pae_sm =
  eapLogoff :: bool
  eapStart :: bool
  portMode :: PortTypes
  reAuthCount :: u32
  rxInitialRsp :: bool
  quietPeriod :: u32
  reAuthMax :: u32
  txPeriod :: u32
  authEntersConnecting :: u32
  authEapLogoffsWhileConnecting :: u32
  authEntersAuthenticating :: u32
  authAuthSuccessesWhileAuthenticating :: u32
  authAuthTimeoutsWhileAuthenticating :: u32
  authAuthFailWhileAuthenticating :: u32
  authAuthReauthsWhileAuthenticating :: u32
  authAuthEapStartsWhileAuthenticating :: u32
  authAuthEapLogoffWhileAuthenticating :: u32
  authAuthReauthsWhileAuthenticated :: u32
  authAuthEapStartsWhileAuthenticated :: u32
  authAuthEapLogoffWhileAuthenticated :: u32
  pae_state :: auth_pae_state

record eapol_backend_auth_sm =
  reqCount :: u32
  rxResp :: bool
  aSuccess :: bool
  aFail :: bool
  aReq :: bool
  idFromServer :: u8
  suppTimeout :: u32
  serverTimeout :: u32
  maxReq :: u32
  backendResponses :: u32
  backendAccessChallenges :: u32
  backendOtherRequestsToSupplicant :: u32
  backendNonNakResponsesFromSupplicant :: u32
  backendAuthSuccesses :: u32
  backendAuthFails :: u32
  be_state :: be_auth_state

record eapol_reauth_timer_sm =
  reAuthPeriod :: u32
  reAuthEnabled :: bool
  reauth_state :: reauth_timer_state

record eapol_auth_key_tx =
  key_state :: auth_key_tx_state

datatype sm_call =
    SetStaAuthorized bool
  | TxCannedEap u8 bool
  | RequestIdentity u8
  | TxReq u8
  | SendRespToServer
  | TxKey u8
  | CancelTick
  | RegisterTick

record eapol_state_machine =
  aWhile :: u32
  quietWhile :: u32
  reAuthWhen :: u32
  txWhen :: u32
  authAbort :: bool
  authFail :: bool
  authStart :: bool
  authTimeout :: bool
  authSuccess :: bool
  currentId :: u8
  initialize :: bool
  keyAvailable :: bool
  keyTxEnabled :: bool
  portControl :: PortTypes
  portEnabled :: bool
  portStatus :: PortState
  portValid :: bool
  reAuthenticate :: bool
  auth_pae :: eapol_auth_pae_sm
  be_auth :: eapol_backend_auth_sm
  reauth_timer :: eapol_reauth_timer_sm
  auth_key_tx :: eapol_auth_key_tx
  calls :: "sm_call list"

definition sm_call :: "sm_call \<Rightarrow> eapol_state_machine \<Rightarrow> eapol_state_machine" where
  "sm_call c sm = sm\<lparr>calls := calls sm @ [c]\<rparr>"

text \<open>One increment of a counter when a condition holds.\<close>

definition inc_if :: "bool \<Rightarrow> u32 \<Rightarrow> u32" where
  "inc_if b n = (if b then n + 1 else n)"

section \<open>The authenticator PAE machine\<close>

definition sm_AUTH_PAE_INITIALIZE_Enter :: "eapol_state_machine \<Rightarrow> eapol_state_machine" where
  "sm_AUTH_PAE_INITIALIZE_Enter sm =
     sm\<lparr>currentId := 1,
        auth_pae := (auth_pae sm)\<lparr>pae_state := AUTH_PAE_INITIALIZE, portMode := Auto\<rparr>\<rparr>"

definition sm_AUTH_PAE_DISCONNECTED_Enter :: "eapol_state_machine \<Rightarrow> eapol_state_machine" where
  "sm_AUTH_PAE_DISCONNECTED_Enter sm =
     (let pae = auth_pae sm;
          from_initialize = (pae_state pae = AUTH_PAE_INITIALIZE);
          pae1 = pae\<lparr>authEapLogoffsWhileConnecting :=
                      inc_if (pae_state pae = AUTH_PAE_CONNECTING \<and> eapLogoff pae)
                        (authEapLogoffsWhileConnecting pae),
                     pae_state := AUTH_PAE_DISCONNECTED,
                     eapLogoff := False, reAuthCount := 0\<rparr>;
          sm1 = sm_call (SetStaAuthorized False) (sm\<lparr>auth_pae := pae1, portStatus := Unauthorized\<rparr>)
      in if from_initialize then sm1
         else (sm_call (TxCannedEap (currentId sm1) False) sm1)\<lparr>currentId := currentId sm1 + 1\<rparr>)"

definition sm_AUTH_PAE_CONNECTING_Enter :: "eapol_state_machine \<Rightarrow> eapol_state_machine" where
  "sm_AUTH_PAE_CONNECTING_Enter sm =
     (let pae = auth_pae sm;
          from_auth = (pae_state pae = AUTH_PAE_AUTHENTICATED);
          pae1 = pae\<lparr>authEntersConnecting :=
                      inc_if (pae_state pae \<noteq> AUTH_PAE_CONNECTING) (authEntersConnecting pae),
                     authAuthReauthsWhileAuthenticated :=
                      inc_if (from_auth \<and> reAuthenticate sm) (authAuthReauthsWhileAuthenticated pae),
                     authAuthEapStartsWhileAuthenticated :=
                      inc_if (from_auth \<and> eapStart pae) (authAuthEapStartsWhileAuthenticated pae),
                     authAuthEapLogoffWhileAuthenticated :=
                      inc_if (from_auth \<and> eapLogoff pae) (authAuthEapLogoffWhileAuthenticated pae),
                     pae_state := AUTH_PAE_CONNECTING,
                     eapStart := False, rxInitialRsp := False,
                     reAuthCount := reAuthCount pae + 1\<rparr>
      in sm_call (RequestIdentity (currentId sm))
           (sm\<lparr>auth_pae := pae1, reAuthenticate := False, txWhen := txPeriod pae\<rparr>))"

definition sm_AUTH_PAE_HELD_Enter :: "eapol_state_machine \<Rightarrow> eapol_state_machine" where
  "sm_AUTH_PAE_HELD_Enter sm =
     (let pae = auth_pae sm;
          pae1 = pae\<lparr>authAuthFailWhileAuthenticating :=
                      inc_if (pae_state pae = AUTH_PAE_AUTHENTICATING \<and> authFail sm)
                        (authAuthFailWhileAuthenticating pae),
                     pae_state := AUTH_PAE_HELD, eapLogoff := False\<rparr>;
          sm1 = sm_call (SetStaAuthorized False) (sm\<lparr>auth_pae := pae1, portStatus := Unauthorized\<rparr>)
      in sm1\<lparr>quietWhile := quietPeriod pae, currentId := currentId sm + 1\<rparr>)"

definition sm_AUTH_PAE_AUTHENTICATED_Enter :: "eapol_state_machine \<Rightarrow> eapol_state_machine" where
  "sm_AUTH_PAE_AUTHENTICATED_Enter sm =
     (let pae = auth_pae sm;
          pae1 = pae\<lparr>authAuthSuccessesWhileAuthenticating :=
                      inc_if (pae_state pae = AUTH_PAE_AUTHENTICATING \<and> authSuccess sm)
                        (authAuthSuccessesWhileAuthenticating pae),
                     pae_state := AUTH_PAE_AUTHENTICATED, reAuthCount := 0\<rparr>;
          sm1 = sm_call (SetStaAuthorized True) (sm\<lparr>auth_pae := pae1, portStatus := Authorized\<rparr>)
      in sm1\<lparr>currentId := currentId sm + 1\<rparr>)"

definition sm_AUTH_PAE_AUTHENTICATING_Enter :: "eapol_state_machine \<Rightarrow> eapol_state_machine" where
  "sm_AUTH_PAE_AUTHENTICATING_Enter sm =
     (let pae = auth_pae sm;
          pae1 = pae\<lparr>authEntersAuthenticating :=
                      inc_if (pae_state pae = AUTH_PAE_CONNECTING \<and> rxInitialRsp pae)
                        (authEntersAuthenticating pae),
                     pae_state := AUTH_PAE_AUTHENTICATING\<rparr>
      in sm\<lparr>auth_pae := pae1, authSuccess := False, authFail := False, authTimeout := False,
            authStart := True\<rparr>)"

definition sm_AUTH_PAE_ABORTING_Enter :: "eapol_state_machine \<Rightarrow> eapol_state_machine" where
  "sm_AUTH_PAE_ABORTING_Enter sm =
     (let pae = auth_pae sm;
          from_auth = (pae_state pae = AUTH_PAE_AUTHENTICATING);
          pae1 = pae\<lparr>authAuthTimeoutsWhileAuthenticating :=
                      inc_if (from_auth \<and> authTimeout sm) (authAuthTimeoutsWhileAuthenticating pae),
                     authAuthReauthsWhileAuthenticating :=
                      inc_if (from_auth \<and> reAuthenticate sm) (authAuthReauthsWhileAuthenticating pae),
                     authAuthEapStartsWhileAuthenticating :=
                      inc_if (from_auth \<and> eapStart pae) (authAuthEapStartsWhileAuthenticating pae),
                     authAuthEapLogoffWhileAuthenticating :=
                      inc_if (from_auth \<and> eapLogoff pae) (authAuthEapLogoffWhileAuthenticating pae),
                     pae_state := AUTH_PAE_ABORTING\<rparr>
      in sm\<lparr>auth_pae := pae1, authAbort := True, currentId := currentId sm + 1\<rparr>)"

definition sm_AUTH_PAE_FORCE_AUTH_Enter :: "eapol_state_machine \<Rightarrow> eapol_state_machine" where
  "sm_AUTH_PAE_FORCE_AUTH_Enter sm =
     (let sm1 = sm_call (SetStaAuthorized True)
                  (sm\<lparr>portStatus := Authorized,
                      auth_pae := (auth_pae sm)\<lparr>pae_state := AUTH_PAE_FORCE_AUTH,
                                    portMode := ForceAuthorized, eapStart := False\<rparr>\<rparr>)
      in (sm_call (TxCannedEap (currentId sm) True) sm1)\<lparr>currentId := currentId sm + 1\<rparr>)"

definition sm_AUTH_PAE_FORCE_UNAUTH_Enter :: "eapol_state_machine \<Rightarrow> eapol_state_machine" where
  "sm_AUTH_PAE_FORCE_UNAUTH_Enter sm =
     (let sm1 = sm_call (SetStaAuthorized False)
                  (sm\<lparr>portStatus := Unauthorized,
                      auth_pae := (auth_pae sm)\<lparr>pae_state := AUTH_PAE_FORCE_UNAUTH,
                                    portMode := ForceUnauthorized, eapStart := False\<rparr>\<rparr>)
      in (sm_call (TxCannedEap (currentId sm) False) sm1)\<lparr>currentId := currentId sm + 1\<rparr>)"

definition sm_AUTH_PAE_Step :: "eapol_state_machine \<Rightarrow> eapol_state_machine" where
  "sm_AUTH_PAE_Step sm =
     (let pae = auth_pae sm in
      if (portControl sm = Auto \<and> portMode pae \<noteq> portControl sm) \<or> initialize sm \<or> \<not> portEnabled sm
      then sm_AUTH_PAE_INITIALIZE_Enter sm
      else if portControl sm = ForceAuthorized \<and> portMode pae \<noteq> portControl sm \<and>
              \<not> (initialize sm \<or> \<not> portEnabled sm)
      then sm_AUTH_PAE_FORCE_AUTH_Enter sm
      else if portControl sm = ForceUnauthorized \<and> portMode pae \<noteq> portControl sm \<and>
              \<not> (initialize sm \<or> \<not> portEnabled sm)
      then sm_AUTH_PAE_FORCE_UNAUTH_Enter sm
      else (case pae_state pae of
          AUTH_PAE_INITIALIZE \<Rightarrow> sm_AUTH_PAE_DISCONNECTED_Enter sm
        | AUTH_PAE_DISCONNECTED \<Rightarrow> sm_AUTH_PAE_CONNECTING_Enter sm
        | AUTH_PAE_HELD \<Rightarrow> if quietWhile sm = 0 then sm_AUTH_PAE_CONNECTING_Enter sm else sm
        | AUTH_PAE_CONNECTING \<Rightarrow>
            if eapLogoff pae \<or> reAuthCount pae > reAuthMax pae then sm_AUTH_PAE_DISCONNECTED_Enter sm
            else if rxInitialRsp pae \<and> reAuthCount pae \<le> reAuthMax pae
            then sm_AUTH_PAE_AUTHENTICATING_Enter sm
            else if (txWhen sm = 0 \<or> eapStart pae \<or> reAuthenticate sm) \<and>
                    reAuthCount pae \<le> reAuthMax pae
            then sm_AUTH_PAE_CONNECTING_Enter sm
            else sm
        | AUTH_PAE_AUTHENTICATED \<Rightarrow>
            if eapStart pae \<or> reAuthenticate sm then sm_AUTH_PAE_CONNECTING_Enter sm
            else if eapLogoff pae \<or> \<not> portValid sm then sm_AUTH_PAE_DISCONNECTED_Enter sm
            else sm
        | AUTH_PAE_AUTHENTICATING \<Rightarrow>
            if authSuccess sm \<and> portValid sm then sm_AUTH_PAE_AUTHENTICATED_Enter sm
            else if authFail sm then sm_AUTH_PAE_HELD_Enter sm
            else if reAuthenticate sm \<or> eapStart pae \<or> eapLogoff pae \<or> authTimeout sm
            then sm_AUTH_PAE_ABORTING_Enter sm
            else sm
        | AUTH_PAE_ABORTING \<Rightarrow>
            if eapLogoff pae \<and> \<not> authAbort sm then sm_AUTH_PAE_DISCONNECTED_Enter sm
            else if \<not> eapLogoff pae \<and> \<not> authAbort sm then sm_AUTH_PAE_CONNECTING_Enter sm
            else sm
        | AUTH_PAE_FORCE_AUTH \<Rightarrow> if eapStart pae then sm_AUTH_PAE_FORCE_AUTH_Enter sm else sm
        | AUTH_PAE_FORCE_UNAUTH \<Rightarrow> if eapStart pae then sm_AUTH_PAE_FORCE_UNAUTH_Enter sm else sm))"

section \<open>The backend authentication machine\<close>

definition sm_BE_AUTH_INITIALIZE_Enter :: "eapol_state_machine \<Rightarrow> eapol_state_machine" where
  "sm_BE_AUTH_INITIALIZE_Enter sm =
     sm\<lparr>be_auth := (be_auth sm)\<lparr>be_state := BE_AUTH_INITIALIZE\<rparr>, authAbort := False\<rparr>"

definition sm_BE_AUTH_REQUEST_Enter :: "eapol_state_machine \<Rightarrow> eapol_state_machine" where
  "sm_BE_AUTH_REQUEST_Enter sm =
     (let be = be_auth sm;
          sm1 = sm_call (TxReq (idFromServer be)) (sm\<lparr>currentId := idFromServer be\<rparr>)
      in sm1\<lparr>aWhile := suppTimeout be,
             be_auth := be\<lparr>be_state := BE_AUTH_REQUEST,
                          backendOtherRequestsToSupplicant := backendOtherRequestsToSupplicant be + 1,
                          reqCount := reqCount be + 1\<rparr>\<rparr>)"

definition sm_BE_AUTH_RESPONSE_Enter :: "eapol_state_machine \<Rightarrow> eapol_state_machine" where
  "sm_BE_AUTH_RESPONSE_Enter sm =
     (let be = be_auth sm
      in sm_call SendRespToServer
           (sm\<lparr>authTimeout := False, aWhile := serverTimeout be,
               be_auth := be\<lparr>be_state := BE_AUTH_RESPONSE, aReq := False, aSuccess := False,
                            rxResp := False, aFail := False, reqCount := 0,
                            backendResponses := backendResponses be + 1\<rparr>\<rparr>))"

definition sm_BE_AUTH_SUCCESS_Enter :: "eapol_state_machine \<Rightarrow> eapol_state_machine" where
  "sm_BE_AUTH_SUCCESS_Enter sm =
     (let be = be_auth sm
      in (sm_call (TxReq (idFromServer be))
           (sm\<lparr>currentId := idFromServer be, be_auth := be\<lparr>be_state := BE_AUTH_SUCCESS\<rparr>\<rparr>))
         \<lparr>authSuccess := True\<rparr>)"

definition sm_BE_AUTH_FAIL_Enter :: "eapol_state_machine \<Rightarrow> eapol_state_machine" where
  "sm_BE_AUTH_FAIL_Enter sm =
     (let be = be_auth sm
      in (sm_call (TxReq (idFromServer be))
           (sm\<lparr>currentId := idFromServer be, be_auth := be\<lparr>be_state := BE_AUTH_FAIL\<rparr>\<rparr>))
         \<lparr>authFail := True\<rparr>)"

definition sm_BE_AUTH_TIMEOUT_Enter :: "eapol_state_machine \<Rightarrow> eapol_state_machine" where
  "sm_BE_AUTH_TIMEOUT_Enter sm =
     (let sm1 = sm\<lparr>be_auth := (be_auth sm)\<lparr>be_state := BE_AUTH_TIMEOUT\<rparr>\<rparr>;
          sm2 = (if portStatus sm1 = Unauthorized
                 then sm_call (TxCannedEap (currentId sm1) False) sm1 else sm1)
      in sm2\<lparr>authTimeout := True\<rparr>)"

definition sm_BE_AUTH_IDLE_Enter :: "eapol_state_machine \<Rightarrow> eapol_state_machine" where
  "sm_BE_AUTH_IDLE_Enter sm =
     sm\<lparr>be_auth := (be_auth sm)\<lparr>be_state := BE_AUTH_IDLE, reqCount := 0\<rparr>, authStart := False\<rparr>"

definition sm_BE_AUTH_Step :: "eapol_state_machine \<Rightarrow> eapol_state_machine" where
  "sm_BE_AUTH_Step sm =
     (let be = be_auth sm in
      if portControl sm \<noteq> Auto \<or> initialize sm \<or> authAbort sm then sm_BE_AUTH_INITIALIZE_Enter sm
      else (case be_state be of
          BE_AUTH_INITIALIZE \<Rightarrow> sm_BE_AUTH_IDLE_Enter sm
        | BE_AUTH_REQUEST \<Rightarrow>
            if aWhile sm = 0 \<and> reqCount be \<noteq> maxReq be then sm_BE_AUTH_REQUEST_Enter sm
            else if rxResp be then sm_BE_AUTH_RESPONSE_Enter sm
            else if aWhile sm = 0 \<and> reqCount be \<ge> maxReq be then sm_BE_AUTH_TIMEOUT_Enter sm
            else sm
        | BE_AUTH_RESPONSE \<Rightarrow>
            if aReq be
            then sm_BE_AUTH_REQUEST_Enter
                   (sm\<lparr>be_auth := be\<lparr>backendAccessChallenges := backendAccessChallenges be + 1\<rparr>\<rparr>)
            else if aWhile sm = 0 then sm_BE_AUTH_TIMEOUT_Enter sm
            else if aFail be
            then sm_BE_AUTH_FAIL_Enter
                   (sm\<lparr>be_auth := be\<lparr>backendAuthFails := backendAuthFails be + 1\<rparr>\<rparr>)
            else if aSuccess be
            then sm_BE_AUTH_SUCCESS_Enter
                   (sm\<lparr>be_auth := be\<lparr>backendAuthSuccesses := backendAuthSuccesses be + 1\<rparr>\<rparr>)
            else sm
        | BE_AUTH_SUCCESS \<Rightarrow> sm_BE_AUTH_IDLE_Enter sm
        | BE_AUTH_FAIL \<Rightarrow> sm_BE_AUTH_IDLE_Enter sm
        | BE_AUTH_TIMEOUT \<Rightarrow> sm_BE_AUTH_IDLE_Enter sm
        | BE_AUTH_IDLE \<Rightarrow> if authStart sm then sm_BE_AUTH_RESPONSE_Enter sm else sm))"

section \<open>The reauthentication timer and key transmit machines\<close>

definition sm_REAUTH_TIMER_INITIALIZE_Enter :: "eapol_state_machine \<Rightarrow> eapol_state_machine" where
  "sm_REAUTH_TIMER_INITIALIZE_Enter sm =
     sm\<lparr>reauth_timer := (reauth_timer sm)\<lparr>reauth_state := REAUTH_TIMER_INITIALIZE\<rparr>,
        reAuthWhen := reAuthPeriod (reauth_timer sm)\<rparr>"

definition sm_REAUTH_TIMER_REAUTHENTICATE_Enter :: "eapol_state_machine \<Rightarrow> eapol_state_machine" where
  "sm_REAUTH_TIMER_REAUTHENTICATE_Enter sm =
     sm\<lparr>reauth_timer := (reauth_timer sm)\<lparr>reauth_state := REAUTH_TIMER_REAUTHENTICATE\<rparr>,
        reAuthenticate := True\<rparr>"

definition sm_REAUTH_TIMER_Step :: "eapol_state_machine \<Rightarrow> eapol_state_machine" where
  "sm_REAUTH_TIMER_Step sm =
     (if portControl sm \<noteq> Auto \<or> initialize sm \<or> portStatus sm = Unauthorized \<or>
         \<not> reAuthEnabled (reauth_timer sm)
      then sm_REAUTH_TIMER_INITIALIZE_Enter sm
      else (case reauth_state (reauth_timer sm) of
          REAUTH_TIMER_INITIALIZE \<Rightarrow>
            if reAuthWhen sm = 0 then sm_REAUTH_TIMER_REAUTHENTICATE_Enter sm else sm
        | REAUTH_TIMER_REAUTHENTICATE \<Rightarrow> sm_REAUTH_TIMER_INITIALIZE_Enter sm))"

definition sm_AUTH_KEY_TX_NO_KEY_TRANSMIT_Enter :: "eapol_state_machine \<Rightarrow> eapol_state_machine" where
  "sm_AUTH_KEY_TX_NO_KEY_TRANSMIT_Enter sm =
     sm\<lparr>auth_key_tx := (auth_key_tx sm)\<lparr>key_state := AUTH_KEY_TX_NO_KEY_TRANSMIT\<rparr>\<rparr>"

definition sm_AUTH_KEY_TX_KEY_TRANSMIT_Enter :: "eapol_state_machine \<Rightarrow> eapol_state_machine" where
  "sm_AUTH_KEY_TX_KEY_TRANSMIT_Enter sm =
     (sm_call (TxKey (currentId sm))
        (sm\<lparr>auth_key_tx := (auth_key_tx sm)\<lparr>key_state := AUTH_KEY_TX_KEY_TRANSMIT\<rparr>\<rparr>))
     \<lparr>keyAvailable := False\<rparr>"

definition sm_AUTH_KEY_TX_Step :: "eapol_state_machine \<Rightarrow> eapol_state_machine" where
  "sm_AUTH_KEY_TX_Step sm =
     (if initialize sm \<or> portControl sm \<noteq> Auto then sm_AUTH_KEY_TX_NO_KEY_TRANSMIT_Enter sm
      else (case key_state (auth_key_tx sm) of
          AUTH_KEY_TX_NO_KEY_TRANSMIT \<Rightarrow>
            if keyTxEnabled sm \<and> keyAvailable sm \<and> authSuccess sm
            then sm_AUTH_KEY_TX_KEY_TRANSMIT_Enter sm else sm
        | AUTH_KEY_TX_KEY_TRANSMIT \<Rightarrow>
            if \<not> keyTxEnabled sm \<or> authFail sm \<or> eapLogoff (auth_pae sm)
            then sm_AUTH_KEY_TX_NO_KEY_TRANSMIT_Enter sm
            else if keyAvailable sm then sm_AUTH_KEY_TX_KEY_TRANSMIT_Enter sm
            else sm))"

section \<open>Running the machines\<close>

text \<open>
  \<open>eapol_sm_step\<close> repeats a round of the four machines until no state variable changes. The loop
  is not bounded in the source, so the model is a partial function: \<open>None\<close> is a run that never
  returns.
\<close>

definition sm_round :: "eapol_state_machine \<Rightarrow> eapol_state_machine" where
  "sm_round sm = sm_AUTH_KEY_TX_Step (sm_REAUTH_TIMER_Step (sm_BE_AUTH_Step (sm_AUTH_PAE_Step sm)))"

definition sm_states ::
  "eapol_state_machine \<Rightarrow> auth_pae_state \<times> be_auth_state \<times> reauth_timer_state \<times> auth_key_tx_state"
where
  "sm_states sm = (pae_state (auth_pae sm), be_state (be_auth sm),
                   reauth_state (reauth_timer sm), key_state (auth_key_tx sm))"

partial_function (option) eapol_sm_step :: "eapol_state_machine \<Rightarrow> eapol_state_machine option" where
  "eapol_sm_step sm =
     (if sm_states (sm_round sm) \<noteq> sm_states sm then eapol_sm_step (sm_round sm)
      else Some (sm_round sm))"

definition eapol_sm_initialize :: "eapol_state_machine \<Rightarrow> eapol_state_machine option" where
  "eapol_sm_initialize sm =
     Option.bind (eapol_sm_step (sm\<lparr>initialize := True\<rparr>)) (\<lambda>sm1.
     Option.bind (eapol_sm_step (sm1\<lparr>initialize := False\<rparr>)) (\<lambda>sm2.
     Some (sm_call RegisterTick (sm_call CancelTick sm2))))"

definition dec_timer :: "u32 \<Rightarrow> u32" where
  "dec_timer t = (if 0 <s t then t - 1 else t)"

definition eapol_port_timers_tick :: "eapol_state_machine \<Rightarrow> eapol_state_machine option" where
  "eapol_port_timers_tick sm =
     Option.bind
       (eapol_sm_step (sm\<lparr>aWhile := dec_timer (aWhile sm), quietWhile := dec_timer (quietWhile sm),
                          reAuthWhen := dec_timer (reAuthWhen sm), txWhen := dec_timer (txWhen sm)\<rparr>))
       (\<lambda>sm1. Some (sm_call RegisterTick sm1))"

text \<open>The part of the daemon's configuration that \<open>eapol_sm_alloc\<close> reads.\<close>

record sm_conf =
  session_timeout_set :: bool
  session_timeout_interval :: u32

definition REAUTH_TIMER_DEFAULT_reAuthPeriod :: u32 where
  "REAUTH_TIMER_DEFAULT_reAuthPeriod = 3600"

definition sm_zero :: eapol_state_machine where
  "sm_zero =
    \<lparr>aWhile = 0, quietWhile = 0, reAuthWhen = 0, txWhen = 0, authAbort = False, authFail = False,
     authStart = False, authTimeout = False, authSuccess = False, currentId = 0,
     initialize = False, keyAvailable = False, keyTxEnabled = False,
     portControl = ForceUnauthorized, portEnabled = False, portStatus = Unauthorized,
     portValid = False, reAuthenticate = False,
     auth_pae = \<lparr>eapLogoff = False, eapStart = False, portMode = ForceUnauthorized, reAuthCount = 0,
       rxInitialRsp = False, quietPeriod = 0, reAuthMax = 0, txPeriod = 0,
       authEntersConnecting = 0, authEapLogoffsWhileConnecting = 0, authEntersAuthenticating = 0,
       authAuthSuccessesWhileAuthenticating = 0, authAuthTimeoutsWhileAuthenticating = 0,
       authAuthFailWhileAuthenticating = 0, authAuthReauthsWhileAuthenticating = 0,
       authAuthEapStartsWhileAuthenticating = 0, authAuthEapLogoffWhileAuthenticating = 0,
       authAuthReauthsWhileAuthenticated = 0, authAuthEapStartsWhileAuthenticated = 0,
       authAuthEapLogoffWhileAuthenticated = 0, pae_state = AUTH_PAE_INITIALIZE\<rparr>,
     be_auth = \<lparr>reqCount = 0, rxResp = False, aSuccess = False, aFail = False, aReq = False,
       idFromServer = 0, suppTimeout = 0, serverTimeout = 0, maxReq = 0, backendResponses = 0,
       backendAccessChallenges = 0, backendOtherRequestsToSupplicant = 0,
       backendNonNakResponsesFromSupplicant = 0, backendAuthSuccesses = 0, backendAuthFails = 0,
       be_state = BE_AUTH_REQUEST\<rparr>,
     reauth_timer = \<lparr>reAuthPeriod = 0, reAuthEnabled = False, reauth_state = REAUTH_TIMER_INITIALIZE\<rparr>,
     auth_key_tx = \<lparr>key_state = AUTH_KEY_TX_NO_KEY_TRANSMIT\<rparr>,
     calls = []\<rparr>"

text \<open>
  \<open>sm_defaults\<close> is the state \<open>eapol_sm_alloc\<close> has built when it calls \<open>eapol_sm_initialize\<close>;
  \<open>malloc_ok\<close> is whether the allocation succeeds. The outer \<open>None\<close> of \<open>eapol_sm_alloc\<close> is a run
  that does not return, the inner one the NULL pointer.
\<close>

definition sm_defaults :: "sm_conf \<Rightarrow> eapol_state_machine" where
  "sm_defaults conf = sm_zero
    \<lparr>auth_pae := (auth_pae sm_zero)\<lparr>pae_state := AUTH_PAE_INITIALIZE, quietPeriod := 60,
                   reAuthMax := 2, txPeriod := 30\<rparr>,
     be_auth := (be_auth sm_zero)\<lparr>be_state := BE_AUTH_INITIALIZE, suppTimeout := 30,
                  serverTimeout := 30, maxReq := 2\<rparr>,
     reauth_timer := (reauth_timer sm_zero)\<lparr>reauth_state := REAUTH_TIMER_INITIALIZE,
        reAuthEnabled := True,
        reAuthPeriod := (if session_timeout_set conf then session_timeout_interval conf
                         else REAUTH_TIMER_DEFAULT_reAuthPeriod)\<rparr>,
     portEnabled := False, portControl := Auto, currentId := 1, keyAvailable := False,
     keyTxEnabled := True, portValid := True\<rparr>"

definition eapol_sm_alloc :: "bool \<Rightarrow> sm_conf \<Rightarrow> eapol_state_machine option option" where
  "eapol_sm_alloc malloc_ok conf =
     (if \<not> malloc_ok then Some None
      else Option.bind (eapol_sm_initialize (sm_defaults conf)) (\<lambda>sm. Some (Some sm)))"

end
