(* ===== verification/Eapol_Env.thy ===== *)
theory Eapol_Env
  imports Eapol_SM
begin

text \<open>
  The environment of a station's state machines: the writes that
  \<open>rg/vendor/ralink/8021X/ieee802_1x.c\<close> makes to them, followed by \<open>eapol_sm_step\<close>, and the
  states reachable from \<open>eapol_sm_alloc\<close>. Termination of every step, the states a step can
  rest in, and authorisation only after an Access-Accept are proved over these states.
\<close>

section \<open>Events\<close>

text \<open>
  A frame from the station: EAPOL-Start and EAPOL-Logoff set their flag and step, and the common
  tail of \<open>ieee802_1x_receive\<close> steps again; an EAP response of type Identity, an EAP response of
  another type (Nak or not) and any other EAPOL frame step once. The RADIUS handler sets the
  result flag, on an Access-Accept perhaps the reauthentication period and the key flag, on an
  Access-Challenge perhaps the supplicant timeout, and perhaps the identifier of the
  encapsulated EAP packet.
\<close>

datatype sm_event =
    Tick
  | NewStation
  | EapolStart
  | EapolLogoff
  | ResponseIdentity
  | ResponseOther bool
  | OtherFrame
  | ServerAccept "u32 option" bool "u8 option"
  | ServerReject "u8 option"
  | ServerChallenge "u32 option" "u8 option"

definition set_server_id :: "u8 option \<Rightarrow> eapol_state_machine \<Rightarrow> eapol_state_machine" where
  "set_server_id i sm =
     (case i of None \<Rightarrow> sm | Some x \<Rightarrow> sm\<lparr>be_auth := (be_auth sm)\<lparr>idFromServer := x\<rparr>\<rparr>)"

fun sm_event_write :: "sm_event \<Rightarrow> eapol_state_machine \<Rightarrow> eapol_state_machine" where
  "sm_event_write Tick sm = sm"
| "sm_event_write NewStation sm = sm\<lparr>portEnabled := True\<rparr>"
| "sm_event_write EapolStart sm = sm\<lparr>auth_pae := (auth_pae sm)\<lparr>eapStart := True\<rparr>\<rparr>"
| "sm_event_write EapolLogoff sm = sm\<lparr>auth_pae := (auth_pae sm)\<lparr>eapLogoff := True\<rparr>\<rparr>"
| "sm_event_write ResponseIdentity sm = sm\<lparr>auth_pae := (auth_pae sm)\<lparr>rxInitialRsp := True\<rparr>\<rparr>"
| "sm_event_write (ResponseOther nak) sm =
     sm\<lparr>be_auth := (be_auth sm)\<lparr>backendNonNakResponsesFromSupplicant :=
                     inc_if (\<not> nak) (backendNonNakResponsesFromSupplicant (be_auth sm)),
                   rxResp := True\<rparr>\<rparr>"
| "sm_event_write OtherFrame sm = sm"
| "sm_event_write (ServerAccept period keys i) sm =
     (let sm1 = (case period of None \<Rightarrow> sm
                 | Some p \<Rightarrow> sm\<lparr>reauth_timer := (reauth_timer sm)\<lparr>reAuthPeriod := p\<rparr>\<rparr>);
          sm2 = sm1\<lparr>be_auth := (be_auth sm1)\<lparr>aSuccess := True\<rparr>\<rparr>;
          sm3 = (if keys then sm2\<lparr>keyAvailable := True\<rparr> else sm2)
      in set_server_id i sm3)"
| "sm_event_write (ServerReject i) sm =
     set_server_id i (sm\<lparr>be_auth := (be_auth sm)\<lparr>aFail := True\<rparr>\<rparr>)"
| "sm_event_write (ServerChallenge timeout i) sm =
     (let be1 = (case timeout of None \<Rightarrow> be_auth sm
                 | Some t \<Rightarrow> (be_auth sm)\<lparr>suppTimeout := t\<rparr>)
      in set_server_id i (sm\<lparr>be_auth := be1\<lparr>aReq := True\<rparr>\<rparr>))"

fun sm_handle :: "sm_event \<Rightarrow> eapol_state_machine \<Rightarrow> eapol_state_machine option" where
  "sm_handle Tick sm = eapol_port_timers_tick sm"
| "sm_handle EapolStart sm =
     Option.bind (eapol_sm_step (sm_event_write EapolStart sm)) eapol_sm_step"
| "sm_handle EapolLogoff sm =
     Option.bind (eapol_sm_step (sm_event_write EapolLogoff sm)) eapol_sm_step"
| "sm_handle e sm = eapol_sm_step (sm_event_write e sm)"

declare eapol_sm_step.simps [code]

text \<open>
  The states reachable when only events of \<open>A\<close> happen. \<open>ieee802_1x_new_station\<close> enables the port of
  the machine it has allocated without a step.
\<close>

inductive sm_reach :: "sm_event set \<Rightarrow> sm_conf \<Rightarrow> eapol_state_machine \<Rightarrow> bool" for A conf where
  alloc: "eapol_sm_alloc True conf = Some (Some sm) \<Longrightarrow> sm_reach A conf sm"
| enable: "eapol_sm_alloc True conf = Some (Some sm) \<Longrightarrow> sm_reach A conf (sm\<lparr>portEnabled := True\<rparr>)"
| event: "sm_reach A conf sm \<Longrightarrow> e \<in> A \<Longrightarrow> sm_handle e sm = Some sm' \<Longrightarrow> sm_reach A conf sm'"

fun sm_events :: "sm_event list \<Rightarrow> eapol_state_machine \<Rightarrow> eapol_state_machine option" where
  "sm_events [] sm = Some sm"
| "sm_events (e # es) sm = Option.bind (sm_handle e sm) (sm_events es)"

definition sm_run :: "sm_conf \<Rightarrow> sm_event list \<Rightarrow> eapol_state_machine option" where
  "sm_run conf es = (case eapol_sm_alloc True conf of Some (Some sm) \<Rightarrow> sm_events es sm | _ \<Rightarrow> None)"

lemma sm_events_reach:
  "sm_events es sm = Some sm' \<Longrightarrow> set es \<subseteq> A \<Longrightarrow> sm_reach A conf sm \<Longrightarrow> sm_reach A conf sm'"
  by (induction es arbitrary: sm) (auto simp: bind_eq_Some_conv intro: sm_reach.event)

lemma sm_run_reach: "sm_run conf es = Some sm \<Longrightarrow> set es \<subseteq> A \<Longrightarrow> sm_reach A conf sm"
  by (auto simp: sm_run_def split: option.splits intro: sm_events_reach sm_reach.alloc)

section \<open>Invariant\<close>

lemmas pae_enter_defs =
  sm_AUTH_PAE_INITIALIZE_Enter_def sm_AUTH_PAE_DISCONNECTED_Enter_def
  sm_AUTH_PAE_CONNECTING_Enter_def sm_AUTH_PAE_HELD_Enter_def
  sm_AUTH_PAE_AUTHENTICATED_Enter_def sm_AUTH_PAE_AUTHENTICATING_Enter_def
  sm_AUTH_PAE_ABORTING_Enter_def sm_AUTH_PAE_FORCE_AUTH_Enter_def
  sm_AUTH_PAE_FORCE_UNAUTH_Enter_def Let_def sm_call_def

lemmas be_enter_defs =
  sm_BE_AUTH_INITIALIZE_Enter_def sm_BE_AUTH_REQUEST_Enter_def sm_BE_AUTH_RESPONSE_Enter_def
  sm_BE_AUTH_SUCCESS_Enter_def sm_BE_AUTH_FAIL_Enter_def sm_BE_AUTH_TIMEOUT_Enter_def
  sm_BE_AUTH_IDLE_Enter_def Let_def sm_call_def

lemmas re_enter_defs =
  sm_REAUTH_TIMER_INITIALIZE_Enter_def sm_REAUTH_TIMER_REAUTHENTICATE_Enter_def

lemmas key_enter_defs =
  sm_AUTH_KEY_TX_NO_KEY_TRANSMIT_Enter_def sm_AUTH_KEY_TX_KEY_TRANSMIT_Enter_def sm_call_def

text \<open>
  What holds at the start of every round: the constants of \<open>eapol_sm_alloc\<close>, automatic port
  control, no pending abort, and an authorised port only where the machines can clear it.
\<close>

definition sm_const :: "eapol_state_machine \<Rightarrow> bool" where
  "sm_const sm \<longleftrightarrow>
     portControl sm = Auto \<and> portMode (auth_pae sm) = Auto \<and> \<not> initialize sm \<and> keyTxEnabled sm \<and>
     portValid sm \<and> reAuthMax (auth_pae sm) = 2 \<and> txPeriod (auth_pae sm) = 30 \<and>
     quietPeriod (auth_pae sm) = 60 \<and> serverTimeout (be_auth sm) = 30 \<and>
     maxReq (be_auth sm) = 2 \<and> reAuthEnabled (reauth_timer sm) \<and>
     pae_state (auth_pae sm) \<noteq> AUTH_PAE_FORCE_AUTH \<and>
     pae_state (auth_pae sm) \<noteq> AUTH_PAE_FORCE_UNAUTH"

definition sm_port :: "eapol_state_machine \<Rightarrow> bool" where
  "sm_port sm \<longleftrightarrow>
     (portStatus sm = Authorized \<longrightarrow> portEnabled sm \<and>
        pae_state (auth_pae sm) \<in> {AUTH_PAE_CONNECTING, AUTH_PAE_AUTHENTICATING,
          AUTH_PAE_ABORTING, AUTH_PAE_AUTHENTICATED}) \<and>
     (pae_state (auth_pae sm) = AUTH_PAE_AUTHENTICATED \<longrightarrow> portStatus sm = Authorized)"

definition sm_inv :: "eapol_state_machine \<Rightarrow> bool" where
  "sm_inv sm \<longleftrightarrow> sm_const sm \<and> sm_port sm \<and> \<not> authAbort sm \<and>
     (portStatus sm = Authorized \<and>
      reauth_state (reauth_timer sm) = REAUTH_TIMER_REAUTHENTICATE \<longrightarrow> reAuthenticate sm)"

definition pae_rank :: "eapol_state_machine \<Rightarrow> nat" where
  "pae_rank sm =
     (let pae = auth_pae sm in
      if \<not> portEnabled sm then (if pae_state pae = AUTH_PAE_INITIALIZE then 0 else 1)
      else (case pae_state pae of
          AUTH_PAE_INITIALIZE \<Rightarrow> 2
        | AUTH_PAE_DISCONNECTED \<Rightarrow> if eapLogoff pae \<or> reAuthCount pae \<noteq> 0 then 3 else 1
        | AUTH_PAE_CONNECTING \<Rightarrow>
            if rxInitialRsp pae then 10
            else if portStatus sm = Authorized then 2 + (3 - unat (reAuthCount pae))
            else if eapLogoff pae \<or> reAuthCount pae > 2 then 2
            else if txWhen sm = 0 \<or> eapStart pae \<or> reAuthenticate sm then 3
            else 0
        | AUTH_PAE_AUTHENTICATING \<Rightarrow> 9
        | AUTH_PAE_HELD \<Rightarrow> if quietWhile sm = 0 then 6 else 0
        | _ \<Rightarrow> 8))"

definition be_rank :: "eapol_state_machine \<Rightarrow> nat" where
  "be_rank sm =
     (let be = be_auth sm in
      case be_state be of
        BE_AUTH_INITIALIZE \<Rightarrow> 1
      | BE_AUTH_IDLE \<Rightarrow> if authStart sm then 1 else 0
      | BE_AUTH_RESPONSE \<Rightarrow> if aReq be \<or> aWhile sm = 0 \<or> aFail be \<or> aSuccess be then 5 else 0
      | BE_AUTH_REQUEST \<Rightarrow> 4
      | _ \<Rightarrow> 2)"

definition re_rank :: "eapol_state_machine \<Rightarrow> nat" where
  "re_rank sm =
     (if (portStatus sm = Authorized) =
         (reauth_state (reauth_timer sm) = REAUTH_TIMER_INITIALIZE) then 1 else 0)"

definition key_rank :: "eapol_state_machine \<Rightarrow> nat" where
  "key_rank sm = (if keyAvailable sm then 2 else 0) +
     (if key_state (auth_key_tx sm) = AUTH_KEY_TX_KEY_TRANSMIT then 1 else 0)"

lemma PortState_neq [simp]: "p \<noteq> Authorized \<longleftrightarrow> p = Unauthorized" "p \<noteq> Unauthorized \<longleftrightarrow> p = Authorized"
  by (cases p; simp)+

lemma word_le_2_cases: "(n :: u32) \<le> 2 \<Longrightarrow> n = 0 \<or> n = 1 \<or> n = 2"
proof -
  assume "n \<le> 2"
  then have "unat n \<le> 2" by (simp add: word_le_nat_alt)
  then have "unat n = unat (0 :: u32) \<or> unat n = unat (1 :: u32) \<or> unat n = unat (2 :: u32)" by auto
  then show ?thesis by (simp only: word_unat_eq_iff)
qed


lemma rank_INITIALIZE: "pae_rank (sm_AUTH_PAE_INITIALIZE_Enter s) = (if portEnabled s then 2 else 0)"
  by (simp add: sm_AUTH_PAE_INITIALIZE_Enter_def pae_rank_def)

lemma rank_DISCONNECTED: "portEnabled s \<Longrightarrow> pae_rank (sm_AUTH_PAE_DISCONNECTED_Enter s) = 1"
  by (simp add: sm_AUTH_PAE_DISCONNECTED_Enter_def pae_rank_def Let_def sm_call_def)

lemma rank_CONNECTING:
  "portEnabled s \<Longrightarrow> txPeriod (auth_pae s) \<noteq> 0 \<Longrightarrow> pae_rank (sm_AUTH_PAE_CONNECTING_Enter s) =
     (if portStatus s = Authorized then 2 + (3 - unat (reAuthCount (auth_pae s) + 1))
      else if eapLogoff (auth_pae s) \<or> reAuthCount (auth_pae s) + 1 > 2 then 2 else 0)"
  by (simp add: sm_AUTH_PAE_CONNECTING_Enter_def pae_rank_def Let_def sm_call_def)

lemma rank_CONNECTING_le:
  "portEnabled s \<Longrightarrow> txPeriod (auth_pae s) \<noteq> 0 \<Longrightarrow> pae_rank (sm_AUTH_PAE_CONNECTING_Enter s) \<le> 5"
  by (simp add: rank_CONNECTING)

lemma rank_HELD: "portEnabled s \<Longrightarrow> quietPeriod (auth_pae s) \<noteq> 0 \<Longrightarrow> pae_rank (sm_AUTH_PAE_HELD_Enter s) = 0"
  by (simp add: sm_AUTH_PAE_HELD_Enter_def pae_rank_def Let_def sm_call_def)

lemma rank_AUTHENTICATED: "portEnabled s \<Longrightarrow> pae_rank (sm_AUTH_PAE_AUTHENTICATED_Enter s) = 8"
  by (simp add: sm_AUTH_PAE_AUTHENTICATED_Enter_def pae_rank_def Let_def sm_call_def)

lemma rank_AUTHENTICATING: "portEnabled s \<Longrightarrow> pae_rank (sm_AUTH_PAE_AUTHENTICATING_Enter s) = 9"
  by (simp add: sm_AUTH_PAE_AUTHENTICATING_Enter_def pae_rank_def Let_def)

lemma rank_ABORTING: "portEnabled s \<Longrightarrow> pae_rank (sm_AUTH_PAE_ABORTING_Enter s) = 8"
  by (simp add: sm_AUTH_PAE_ABORTING_Enter_def pae_rank_def Let_def)

lemmas rank_enter = rank_INITIALIZE rank_DISCONNECTED rank_CONNECTING rank_HELD rank_AUTHENTICATED
  rank_AUTHENTICATING rank_ABORTING

text \<open>A PAE step either lowers the rank or changes nothing but the identifier.\<close>

definition pae_progress :: "eapol_state_machine \<Rightarrow> eapol_state_machine \<Rightarrow> bool" where
  "pae_progress s t \<longleftrightarrow> pae_rank t < pae_rank s \<or>
     (t = s\<lparr>currentId := currentId t\<rparr> \<and> (portStatus s = Unauthorized \<or> \<not> reAuthenticate s))"

lemma pae_progress_rank: "pae_rank t < pae_rank s \<Longrightarrow> pae_progress s t"
  by (simp add: pae_progress_def)

lemma pae_progress_CONNECTING:
  "pae_rank s > 5 \<Longrightarrow> portEnabled s \<Longrightarrow> txPeriod (auth_pae s) \<noteq> 0 \<Longrightarrow>
     pae_progress s (sm_AUTH_PAE_CONNECTING_Enter s)"
  using rank_CONNECTING_le [of s] by (simp add: pae_progress_def)

lemma pae_progress_refl: "portStatus s = Unauthorized \<or> \<not> reAuthenticate s \<Longrightarrow> pae_progress s s"
  by (simp add: pae_progress_def)

lemma pae_step_rank_connecting:
  assumes c: "portControl s = Auto" "portMode (auth_pae s) = Auto" "\<not> initialize s"
    "reAuthMax (auth_pae s) = 2" "txPeriod (auth_pae s) = 30"
    and en: "portEnabled s" and st: "pae_state (auth_pae s) = AUTH_PAE_CONNECTING"
  shows "pae_progress s (sm_AUTH_PAE_Step s)"
proof -
  let ?p = "auth_pae s" and ?again = "txWhen s = 0 \<or> eapStart (auth_pae s) \<or> reAuthenticate s"
  consider (disc) "eapLogoff ?p \<or> reAuthCount ?p > 2"
    | (rx) "\<not> eapLogoff ?p" "reAuthCount ?p \<le> 2" "rxInitialRsp ?p"
    | (again) "\<not> eapLogoff ?p" "reAuthCount ?p \<le> 2" "\<not> rxInitialRsp ?p" "?again"
    | (rest) "\<not> eapLogoff ?p" "reAuthCount ?p \<le> 2" "\<not> rxInitialRsp ?p" "\<not> ?again"
    by (meson not_le)
  then show ?thesis
  proof cases
    case disc
    have "sm_AUTH_PAE_Step s = sm_AUTH_PAE_DISCONNECTED_Enter s"
      using disc c en st by (auto simp: sm_AUTH_PAE_Step_def)
    moreover have "pae_rank s > 1" using disc en st by (auto simp: pae_rank_def Let_def)
    ultimately show ?thesis using en by (simp add: rank_DISCONNECTED pae_progress_rank)
  next
    case rx
    then have "sm_AUTH_PAE_Step s = sm_AUTH_PAE_AUTHENTICATING_Enter s"
      using c en st by (simp add: sm_AUTH_PAE_Step_def Let_def not_less)
    moreover have "pae_rank s = 10" using rx en st by (simp add: pae_rank_def Let_def)
    ultimately show ?thesis using en by (simp add: rank_AUTHENTICATING pae_progress_rank)
  next
    case again
    have "sm_AUTH_PAE_Step s = sm_AUTH_PAE_CONNECTING_Enter s"
      using again(1-3) c en st by (simp add: sm_AUTH_PAE_Step_def Let_def not_less) (use again(4) in blast)
    moreover have "pae_rank s = (if portStatus s = Authorized
        then 2 + (3 - unat (reAuthCount (auth_pae s))) else 3)"
      using again leD [OF again(2)] en st by (simp add: pae_rank_def Let_def)
    moreover have "pae_rank (sm_AUTH_PAE_CONNECTING_Enter s) =
        (if portStatus s = Authorized then 2 + (3 - unat (reAuthCount (auth_pae s) + 1))
         else if reAuthCount (auth_pae s) + 1 > 2 then 2 else 0)"
      using again(1) en c by (simp add: rank_CONNECTING)
    moreover have "unat (reAuthCount (auth_pae s) + 1) = unat (reAuthCount (auth_pae s)) + 1"
      "unat (reAuthCount (auth_pae s)) \<le> 2"
      using word_le_2_cases [OF again(2)] by auto
    ultimately have "pae_rank (sm_AUTH_PAE_Step s) < pae_rank s" by simp arith
    then show ?thesis by (rule pae_progress_rank)
  next
    case rest
    then show ?thesis using leD [OF rest(2)] c en st
      by (simp add: sm_AUTH_PAE_Step_def Let_def pae_progress_refl)
  qed
qed

lemma pae_step_rank:
  assumes "sm_inv s"
  shows "pae_progress s (sm_AUTH_PAE_Step s)"
proof (cases "portEnabled s")
  case False
  then show ?thesis using assms
    by (cases s, cases "auth_pae s")
      (auto simp: sm_AUTH_PAE_Step_def pae_enter_defs pae_rank_def sm_inv_def sm_const_def sm_port_def pae_progress_def)
next
  case True
  have c: "portControl s = Auto" "portMode (auth_pae s) = Auto" "\<not> initialize s"
    "reAuthMax (auth_pae s) = 2" "txPeriod (auth_pae s) = 30" "quietPeriod (auth_pae s) = 60"
    "\<not> authAbort s" using assms by (simp_all add: sm_inv_def sm_const_def)
  note prog = sm_AUTH_PAE_Step_def Let_def pae_progress_rank pae_progress_CONNECTING pae_progress_refl rank_enter
  have r: "pae_rank s = (case pae_state (auth_pae s) of
      AUTH_PAE_INITIALIZE \<Rightarrow> 2
    | AUTH_PAE_HELD \<Rightarrow> if quietWhile s = 0 then 6 else 0
    | AUTH_PAE_AUTHENTICATING \<Rightarrow> 9
    | AUTH_PAE_DISCONNECTED \<Rightarrow> pae_rank s
    | AUTH_PAE_CONNECTING \<Rightarrow> pae_rank s
    | _ \<Rightarrow> 8)"
    using True by (simp add: pae_rank_def Let_def split: auth_pae_state.split)
  show ?thesis
  proof (cases "pae_state (auth_pae s)")
    case AUTH_PAE_INITIALIZE
    then show ?thesis using c True r by (simp add: prog)
  next
    case AUTH_PAE_DISCONNECTED
    have "portStatus s = Unauthorized" using AUTH_PAE_DISCONNECTED assms by (auto simp: sm_inv_def sm_port_def)
    moreover have "pae_rank s = (if eapLogoff (auth_pae s) \<or> reAuthCount (auth_pae s) \<noteq> 0 then 3 else 1)"
      using True AUTH_PAE_DISCONNECTED by (simp add: pae_rank_def Let_def)
    ultimately show ?thesis using c True AUTH_PAE_DISCONNECTED by (simp add: prog)
  next
    case AUTH_PAE_CONNECTING
    then show ?thesis using pae_step_rank_connecting c True by blast
  next
    case AUTH_PAE_AUTHENTICATING
    then show ?thesis using c True r by (simp add: prog)
  next
    case AUTH_PAE_AUTHENTICATED
    then show ?thesis using c True r by (simp add: prog)
  next
    case AUTH_PAE_ABORTING
    then show ?thesis using c True r by (simp add: prog)
  next
    case AUTH_PAE_HELD
    moreover have "portStatus s = Unauthorized" using AUTH_PAE_HELD assms by (auto simp: sm_inv_def sm_port_def)
    ultimately show ?thesis using c True r by (simp add: prog)
  qed (use assms in \<open>simp_all add: sm_inv_def sm_const_def\<close>)
qed

lemma pae_step_rule:
  assumes "P s" "P (sm_AUTH_PAE_INITIALIZE_Enter s)" "P (sm_AUTH_PAE_DISCONNECTED_Enter s)"
    "P (sm_AUTH_PAE_CONNECTING_Enter s)" "P (sm_AUTH_PAE_HELD_Enter s)"
    "authSuccess s \<Longrightarrow> P (sm_AUTH_PAE_AUTHENTICATED_Enter s)"
    "P (sm_AUTH_PAE_AUTHENTICATING_Enter s)" "P (sm_AUTH_PAE_ABORTING_Enter s)"
    "portControl s = ForceAuthorized \<or> pae_state (auth_pae s) = AUTH_PAE_FORCE_AUTH \<Longrightarrow> P (sm_AUTH_PAE_FORCE_AUTH_Enter s)"
    "portControl s = ForceUnauthorized \<or> pae_state (auth_pae s) = AUTH_PAE_FORCE_UNAUTH \<Longrightarrow> P (sm_AUTH_PAE_FORCE_UNAUTH_Enter s)"
  shows "P (sm_AUTH_PAE_Step s)"
  using assms by (cases "pae_state (auth_pae s)") (simp_all add: sm_AUTH_PAE_Step_def Let_def)

lemma be_step_rule:
  assumes "P s" "P (sm_BE_AUTH_INITIALIZE_Enter s)" "P (sm_BE_AUTH_IDLE_Enter s)"
    "P (sm_BE_AUTH_RESPONSE_Enter s)" "P (sm_BE_AUTH_TIMEOUT_Enter s)" "P (sm_BE_AUTH_REQUEST_Enter s)"
    "\<And>b. P (sm_BE_AUTH_REQUEST_Enter (s\<lparr>be_auth := (be_auth s)\<lparr>backendAccessChallenges := b\<rparr>\<rparr>))"
    "\<And>b. P (sm_BE_AUTH_FAIL_Enter (s\<lparr>be_auth := (be_auth s)\<lparr>backendAuthFails := b\<rparr>\<rparr>))"
    "\<And>b. P (sm_BE_AUTH_SUCCESS_Enter (s\<lparr>be_auth := (be_auth s)\<lparr>backendAuthSuccesses := b\<rparr>\<rparr>))"
  shows "P (sm_BE_AUTH_Step s)"
  using assms by (simp add: sm_BE_AUTH_Step_def Let_def split: be_auth_state.split)

lemma re_step_rule:
  assumes "P s" "P (sm_REAUTH_TIMER_INITIALIZE_Enter s)"
    "portStatus s = Authorized \<Longrightarrow> P (sm_REAUTH_TIMER_REAUTHENTICATE_Enter s)"
  shows "P (sm_REAUTH_TIMER_Step s)"
  using assms by (simp add: sm_REAUTH_TIMER_Step_def split: reauth_timer_state.split)

lemma key_step_rule:
  assumes "P s" "P (sm_AUTH_KEY_TX_NO_KEY_TRANSMIT_Enter s)" "P (sm_AUTH_KEY_TX_KEY_TRANSMIT_Enter s)"
  shows "P (sm_AUTH_KEY_TX_Step s)"
  using assms by (simp add: sm_AUTH_KEY_TX_Step_def split: auth_key_tx_state.split)

lemma be_step_frame [simp]:
  "auth_pae (sm_BE_AUTH_Step s) = auth_pae s" "portStatus (sm_BE_AUTH_Step s) = portStatus s"
  "txWhen (sm_BE_AUTH_Step s) = txWhen s" "quietWhile (sm_BE_AUTH_Step s) = quietWhile s"
  "reAuthWhen (sm_BE_AUTH_Step s) = reAuthWhen s" "portEnabled (sm_BE_AUTH_Step s) = portEnabled s"
  "reAuthenticate (sm_BE_AUTH_Step s) = reAuthenticate s"
  "reauth_timer (sm_BE_AUTH_Step s) = reauth_timer s"
  "auth_key_tx (sm_BE_AUTH_Step s) = auth_key_tx s" "keyAvailable (sm_BE_AUTH_Step s) = keyAvailable s"
  "portControl (sm_BE_AUTH_Step s) = portControl s" "initialize (sm_BE_AUTH_Step s) = initialize s"
  "portValid (sm_BE_AUTH_Step s) = portValid s" "keyTxEnabled (sm_BE_AUTH_Step s) = keyTxEnabled s"
  by (rule be_step_rule; simp add: be_enter_defs)+

lemma pae_step_frame [simp]:
  "be_auth (sm_AUTH_PAE_Step s) = be_auth s" "reauth_timer (sm_AUTH_PAE_Step s) = reauth_timer s"
  "auth_key_tx (sm_AUTH_PAE_Step s) = auth_key_tx s" "keyAvailable (sm_AUTH_PAE_Step s) = keyAvailable s"
  "reAuthWhen (sm_AUTH_PAE_Step s) = reAuthWhen s" "aWhile (sm_AUTH_PAE_Step s) = aWhile s"
  "portEnabled (sm_AUTH_PAE_Step s) = portEnabled s" "portControl (sm_AUTH_PAE_Step s) = portControl s"
  "initialize (sm_AUTH_PAE_Step s) = initialize s" "portValid (sm_AUTH_PAE_Step s) = portValid s"
  "keyTxEnabled (sm_AUTH_PAE_Step s) = keyTxEnabled s"
  by (rule pae_step_rule; simp add: pae_enter_defs)+

lemma re_step_frame [simp]:
  "auth_pae (sm_REAUTH_TIMER_Step s) = auth_pae s" "be_auth (sm_REAUTH_TIMER_Step s) = be_auth s"
  "auth_key_tx (sm_REAUTH_TIMER_Step s) = auth_key_tx s"
  "portStatus (sm_REAUTH_TIMER_Step s) = portStatus s" "txWhen (sm_REAUTH_TIMER_Step s) = txWhen s"
  "quietWhile (sm_REAUTH_TIMER_Step s) = quietWhile s" "aWhile (sm_REAUTH_TIMER_Step s) = aWhile s"
  "portEnabled (sm_REAUTH_TIMER_Step s) = portEnabled s" "keyAvailable (sm_REAUTH_TIMER_Step s) = keyAvailable s"
  "authStart (sm_REAUTH_TIMER_Step s) = authStart s" "authAbort (sm_REAUTH_TIMER_Step s) = authAbort s"
  "authTimeout (sm_REAUTH_TIMER_Step s) = authTimeout s"
  "authFail (sm_REAUTH_TIMER_Step s) = authFail s" "authSuccess (sm_REAUTH_TIMER_Step s) = authSuccess s"
  "portControl (sm_REAUTH_TIMER_Step s) = portControl s" "initialize (sm_REAUTH_TIMER_Step s) = initialize s"
  "portValid (sm_REAUTH_TIMER_Step s) = portValid s" "keyTxEnabled (sm_REAUTH_TIMER_Step s) = keyTxEnabled s"
  "calls (sm_REAUTH_TIMER_Step s) = calls s"
  by (rule re_step_rule; simp add: re_enter_defs)+

lemma key_step_frame [simp]:
  "auth_pae (sm_AUTH_KEY_TX_Step s) = auth_pae s" "be_auth (sm_AUTH_KEY_TX_Step s) = be_auth s"
  "reauth_timer (sm_AUTH_KEY_TX_Step s) = reauth_timer s"
  "portStatus (sm_AUTH_KEY_TX_Step s) = portStatus s" "txWhen (sm_AUTH_KEY_TX_Step s) = txWhen s"
  "quietWhile (sm_AUTH_KEY_TX_Step s) = quietWhile s" "aWhile (sm_AUTH_KEY_TX_Step s) = aWhile s"
  "reAuthWhen (sm_AUTH_KEY_TX_Step s) = reAuthWhen s"
  "portEnabled (sm_AUTH_KEY_TX_Step s) = portEnabled s" "reAuthenticate (sm_AUTH_KEY_TX_Step s) = reAuthenticate s"
  "authStart (sm_AUTH_KEY_TX_Step s) = authStart s" "authAbort (sm_AUTH_KEY_TX_Step s) = authAbort s"
  "authTimeout (sm_AUTH_KEY_TX_Step s) = authTimeout s"
  "authFail (sm_AUTH_KEY_TX_Step s) = authFail s" "authSuccess (sm_AUTH_KEY_TX_Step s) = authSuccess s"
  "portControl (sm_AUTH_KEY_TX_Step s) = portControl s" "initialize (sm_AUTH_KEY_TX_Step s) = initialize s"
  "portValid (sm_AUTH_KEY_TX_Step s) = portValid s" "keyTxEnabled (sm_AUTH_KEY_TX_Step s) = keyTxEnabled s"
  by (rule key_step_rule; simp add: key_enter_defs)+


lemma pae_rank_cong:
  "auth_pae t = auth_pae s \<Longrightarrow> portStatus t = portStatus s \<Longrightarrow> txWhen t = txWhen s \<Longrightarrow>
   quietWhile t = quietWhile s \<Longrightarrow> portEnabled t = portEnabled s \<Longrightarrow>
   portStatus s = Authorized \<or> reAuthenticate t = reAuthenticate s \<Longrightarrow> pae_rank t = pae_rank s"
  by (auto simp: pae_rank_def Let_def split: auth_pae_state.split)

lemma be_step_pae_rank [simp]: "pae_rank (sm_BE_AUTH_Step s) = pae_rank s"
  by (rule pae_rank_cong) simp_all

lemma re_step_pae_rank [simp]: "pae_rank (sm_REAUTH_TIMER_Step s) = pae_rank s"
proof (rule pae_rank_cong)
  show "portStatus s = Authorized \<or> reAuthenticate (sm_REAUTH_TIMER_Step s) = reAuthenticate s"
    by (rule re_step_rule; simp add: re_enter_defs)
qed simp_all

lemma key_step_pae_rank [simp]: "pae_rank (sm_AUTH_KEY_TX_Step s) = pae_rank s"
  by (rule pae_rank_cong) simp_all

text \<open>The three other machines: the rank of the machine falls, or its state stays.\<close>

definition falls :: "('a \<Rightarrow> 'b) \<Rightarrow> ('a \<Rightarrow> nat) \<Rightarrow> 'a \<Rightarrow> 'a \<Rightarrow> bool" where
  "falls st rk s t \<longleftrightarrow> rk t < rk s \<or> (st t = st s \<and> rk t = rk s)"

lemma be_step_rank:
  assumes "sm_const s" "\<not> authAbort s"
  shows "falls (be_state \<circ> be_auth) be_rank s (sm_BE_AUTH_Step s)"
  using assms
  by (cases "be_state (be_auth s)")
    (simp_all add: sm_BE_AUTH_Step_def be_enter_defs be_rank_def sm_const_def falls_def)

lemma re_step_rank:
  assumes "sm_const s"
    "portStatus s = Authorized \<Longrightarrow> reauth_state (reauth_timer s) = REAUTH_TIMER_INITIALIZE"
  shows "falls (reauth_state \<circ> reauth_timer) re_rank s (sm_REAUTH_TIMER_Step s)"
  using assms
  by (cases "portStatus s"; cases "reauth_state (reauth_timer s)")
    (simp_all add: sm_REAUTH_TIMER_Step_def re_enter_defs re_rank_def sm_const_def falls_def)

lemma key_step_rank:
  assumes "sm_const s"
  shows "falls (key_state \<circ> auth_key_tx) key_rank s (sm_AUTH_KEY_TX_Step s)"
  using assms
  by (cases "key_state (auth_key_tx s)")
    (simp_all add: sm_AUTH_KEY_TX_Step_def key_enter_defs key_rank_def sm_const_def falls_def)

lemma sm_const_step [simp]:
  "sm_const s \<Longrightarrow> sm_const (sm_AUTH_PAE_Step s)"
  "sm_const s \<Longrightarrow> sm_const (sm_BE_AUTH_Step s)"
  "sm_const s \<Longrightarrow> sm_const (sm_REAUTH_TIMER_Step s)"
  "sm_const s \<Longrightarrow> sm_const (sm_AUTH_KEY_TX_Step s)"
  subgoal by (rule pae_step_rule) (simp_all add: pae_enter_defs sm_const_def)
  subgoal by (rule be_step_rule; simp add: be_enter_defs sm_const_def)
  subgoal by (rule re_step_rule; simp add: re_enter_defs sm_const_def)
  subgoal by (rule key_step_rule; simp add: key_enter_defs sm_const_def)
  done


section \<open>Rounds\<close>

lemma sm_port_enter:
  "portStatus s = Unauthorized \<Longrightarrow> sm_port (sm_AUTH_PAE_INITIALIZE_Enter s)"
  "sm_port (sm_AUTH_PAE_DISCONNECTED_Enter s)"
  "portEnabled s \<Longrightarrow> sm_port (sm_AUTH_PAE_CONNECTING_Enter s)"
  "sm_port (sm_AUTH_PAE_HELD_Enter s)"
  "portEnabled s \<Longrightarrow> sm_port (sm_AUTH_PAE_AUTHENTICATED_Enter s)"
  "portEnabled s \<Longrightarrow> sm_port (sm_AUTH_PAE_AUTHENTICATING_Enter s)"
  "portEnabled s \<Longrightarrow> sm_port (sm_AUTH_PAE_ABORTING_Enter s)"
  by (simp_all add: sm_port_def pae_enter_defs)

lemma sm_port_pae_step:
  assumes "sm_const s" "sm_port s"
  shows "sm_port (sm_AUTH_PAE_Step s)"
proof (cases "portEnabled s")
  case True
  then show ?thesis using assms
    by (cases "pae_state (auth_pae s)")
      (simp_all add: sm_AUTH_PAE_Step_def Let_def sm_port_enter sm_const_def)
next
  case False
  then have "portStatus s = Unauthorized" using assms by (auto simp: sm_port_def)
  then show ?thesis using False by (simp add: sm_AUTH_PAE_Step_def Let_def sm_port_enter)
qed

lemma sm_port_cong:
  "auth_pae t = auth_pae s \<Longrightarrow> portStatus t = portStatus s \<Longrightarrow> portEnabled t = portEnabled s \<Longrightarrow>
   sm_port t = sm_port s"
  by (simp add: sm_port_def)

lemma be_step_clears_abort: "sm_const s \<Longrightarrow> \<not> authAbort (sm_BE_AUTH_Step s)"
  by (simp add: sm_const_def sm_BE_AUTH_Step_def be_enter_defs split: be_auth_state.split)

lemma re_step_asks:
  "sm_const s \<Longrightarrow> portStatus s = Authorized \<Longrightarrow>
   reauth_state (reauth_timer (sm_REAUTH_TIMER_Step s)) = REAUTH_TIMER_REAUTHENTICATE \<Longrightarrow>
   reAuthenticate (sm_REAUTH_TIMER_Step s)"
  by (cases "reauth_state (reauth_timer s)")
    (auto simp: sm_const_def sm_REAUTH_TIMER_Step_def re_enter_defs split: if_splits)

lemma sm_round_inv:
  assumes "sm_inv s"
  shows "sm_inv (sm_round s)"
proof -
  let ?s1 = "sm_AUTH_PAE_Step s" let ?s2 = "sm_BE_AUTH_Step ?s1"
  let ?s3 = "sm_REAUTH_TIMER_Step ?s2" let ?s4 = "sm_AUTH_KEY_TX_Step ?s3"
  have c: "sm_const ?s1" and p: "sm_port ?s1"
    using assms sm_port_pae_step by (simp_all add: sm_inv_def)
  have "sm_port ?s4 = sm_port ?s1" by (rule sm_port_cong) simp_all
  moreover have "\<not> authAbort ?s4" using be_step_clears_abort [OF c] by simp
  moreover have "portStatus ?s2 = Authorized \<Longrightarrow>
      reauth_state (reauth_timer ?s3) = REAUTH_TIMER_REAUTHENTICATE \<Longrightarrow> reAuthenticate ?s3"
    using re_step_asks [of ?s2] c by simp
  ultimately show ?thesis using c p by (simp add: sm_inv_def sm_round_def)
qed

text \<open>The termination order: the PAE rank first, then the sum of the other ranks.\<close>

definition sub_rank :: "eapol_state_machine \<Rightarrow> nat" where
  "sub_rank s = be_rank s + re_rank s + key_rank s"

definition sm_less :: "(eapol_state_machine \<times> eapol_state_machine) set" where
  "sm_less = measures [pae_rank, sub_rank]"

lemma sub_ranks_cong:
  "be_auth t = be_auth s \<Longrightarrow> authStart t = authStart s \<Longrightarrow> aWhile t = aWhile s \<Longrightarrow> be_rank t = be_rank s"
  "portStatus t = portStatus s \<Longrightarrow> reauth_timer t = reauth_timer s \<Longrightarrow> re_rank t = re_rank s"
  "keyAvailable t = keyAvailable s \<Longrightarrow> auth_key_tx t = auth_key_tx s \<Longrightarrow> key_rank t = key_rank s"
  by (simp_all add: be_rank_def re_rank_def key_rank_def Let_def)

lemma round_idle_pae:
  assumes inv: "sm_inv s" and pae: "sm_AUTH_PAE_Step s = s\<lparr>currentId := i\<rparr>"
    and re: "portStatus s = Unauthorized \<or> \<not> reAuthenticate s"
    and changed: "sm_states (sm_round s) \<noteq> sm_states s"
  shows "pae_rank (sm_round s) = pae_rank s \<and> sub_rank (sm_round s) < sub_rank s"
proof -
  let ?s1 = "s\<lparr>currentId := i\<rparr>" let ?s2 = "sm_BE_AUTH_Step ?s1"
  let ?s3 = "sm_REAUTH_TIMER_Step ?s2" let ?s4 = "sm_AUTH_KEY_TX_Step ?s3"
  have r: "sm_round s = ?s4" by (simp add: sm_round_def pae)
  have c: "sm_const ?s1" "\<not> authAbort ?s1" using inv by (simp_all add: sm_inv_def sm_const_def)
  have "falls (be_state \<circ> be_auth) be_rank ?s1 ?s2" using be_step_rank c by blast
  moreover have "falls (reauth_state \<circ> reauth_timer) re_rank ?s2 ?s3"
    using re_step_rank [of ?s2] c re inv by (cases "reauth_state (reauth_timer s)") (auto simp: sm_inv_def)
  moreover have "falls (key_state \<circ> auth_key_tx) key_rank ?s3 ?s4" using key_step_rank c by simp
  moreover have "be_rank ?s4 = be_rank ?s3" "be_rank ?s3 = be_rank ?s2" "be_rank ?s1 = be_rank s"
    by (rule sub_ranks_cong; simp)+
  moreover have "re_rank ?s4 = re_rank ?s3" "re_rank ?s2 = re_rank ?s1" "re_rank ?s1 = re_rank s"
    by (rule sub_ranks_cong; simp)+
  moreover have "key_rank ?s3 = key_rank ?s2" "key_rank ?s2 = key_rank ?s1" "key_rank ?s1 = key_rank s"
    by (rule sub_ranks_cong; simp)+
  moreover have "pae_rank ?s4 = pae_rank s"
    using pae_rank_cong [of ?s1 s] by simp
  moreover have "be_state (be_auth ?s2) \<noteq> be_state (be_auth s) \<or>
      reauth_state (reauth_timer ?s3) \<noteq> reauth_state (reauth_timer ?s2) \<or>
      key_state (auth_key_tx ?s4) \<noteq> key_state (auth_key_tx ?s3)"
    using changed by (auto simp: r sm_states_def)
  ultimately show ?thesis by (auto simp: r falls_def sub_rank_def)
qed

lemma round_decreases:
  assumes "sm_inv s" "sm_states (sm_round s) \<noteq> sm_states s"
  shows "(sm_round s, s) \<in> sm_less"
proof -
  have "pae_progress s (sm_AUTH_PAE_Step s)" using assms(1) by (rule pae_step_rank)
  then consider "pae_rank (sm_AUTH_PAE_Step s) < pae_rank s"
    | "sm_AUTH_PAE_Step s = s\<lparr>currentId := currentId (sm_AUTH_PAE_Step s)\<rparr>"
      "portStatus s = Unauthorized \<or> \<not> reAuthenticate s"
    by (auto simp: pae_progress_def)
  then show ?thesis
  proof cases
    case 1
    then show ?thesis by (simp add: sm_less_def sm_round_def)
  next
    case 2
    then show ?thesis using round_idle_pae assms by (auto simp: sm_less_def)
  qed
qed

lemma wf_sm_less: "wf sm_less"
  by (simp add: sm_less_def)

text \<open>
  A run of \<open>eapol_sm_step\<close> ends with a round that changed no state variable; every property
  that rounds preserve holds before and after that last round.
\<close>

lemma eapol_sm_step_last_round:
  assumes "sm_inv s" "Q s" "\<And>u. sm_inv u \<Longrightarrow> Q u \<Longrightarrow> Q (sm_round u)"
  shows "\<exists>t u. eapol_sm_step s = Some t \<and> sm_inv u \<and> Q u \<and> t = sm_round u \<and> sm_states t = sm_states u"
  using assms(1,2)
proof (induction s rule: wf_induct_rule [OF wf_sm_less])
  case (1 s)
  show ?case
  proof (cases "sm_states (sm_round s) = sm_states s")
    case True
    then have "eapol_sm_step s = Some (sm_round s)" by (simp add: eapol_sm_step.simps)
    then show ?thesis using 1(2,3) True by blast
  next
    case False
    then have "eapol_sm_step s = eapol_sm_step (sm_round s)" by (subst eapol_sm_step.simps) simp
    then show ?thesis using 1 False sm_round_inv round_decreases assms(3) by simp
  qed
qed

lemma eapol_sm_step_terminates: "sm_inv s \<Longrightarrow> \<exists>t. eapol_sm_step s = Some t"
  using eapol_sm_step_last_round [of s "\<lambda>_. True"] by auto

lemma eapol_sm_step_preserves:
  assumes "eapol_sm_step s = Some t" "sm_inv s" "Q s" "\<And>u. sm_inv u \<Longrightarrow> Q u \<Longrightarrow> Q (sm_round u)"
  shows "sm_inv t \<and> Q t"
  using eapol_sm_step_last_round [of s Q] assms sm_round_inv by fastforce

lemma eapol_sm_step_keeps:
  assumes "eapol_sm_step s = Some t" "Q s" "\<And>u. Q u \<Longrightarrow> Q (sm_round u)"
  shows "Q t"
proof -
  have "Q s \<longrightarrow> Q t"
    by (rule eapol_sm_step.raw_induct [OF _ assms(1), where P = "\<lambda>s t. Q s \<longrightarrow> Q t"])
      (use assms(3) in \<open>auto split: if_splits\<close>)
  then show ?thesis using assms(2) by blast
qed

section \<open>States at rest\<close>

definition sm_rest :: "eapol_state_machine \<Rightarrow> bool" where
  "sm_rest sm \<longleftrightarrow>
     (case pae_state (auth_pae sm) of
        AUTH_PAE_INITIALIZE \<Rightarrow> \<not> portEnabled sm
      | AUTH_PAE_CONNECTING \<Rightarrow> portEnabled sm
      | AUTH_PAE_AUTHENTICATING \<Rightarrow> portEnabled sm \<and> \<not> authSuccess sm
      | AUTH_PAE_AUTHENTICATED \<Rightarrow> portEnabled sm \<and> \<not> eapStart (auth_pae sm) \<and> \<not> reAuthenticate sm
      | AUTH_PAE_HELD \<Rightarrow> portEnabled sm \<and> quietWhile sm \<noteq> 0
      | _ \<Rightarrow> False) \<and>
     be_state (be_auth sm) \<in> {BE_AUTH_REQUEST, BE_AUTH_RESPONSE, BE_AUTH_IDLE} \<and>
     reauth_state (reauth_timer sm) = REAUTH_TIMER_INITIALIZE \<and>
     (portStatus sm = Authorized \<longrightarrow> reAuthWhen sm \<noteq> 0)"

lemma pae_stays:
  assumes inv: "sm_inv u" and same: "pae_state (auth_pae (sm_AUTH_PAE_Step u)) = pae_state (auth_pae u)"
  shows "(case pae_state (auth_pae u) of
        AUTH_PAE_INITIALIZE \<Rightarrow> \<not> portEnabled u
      | AUTH_PAE_CONNECTING \<Rightarrow> portEnabled u
      | AUTH_PAE_AUTHENTICATING \<Rightarrow> portEnabled u \<and> \<not> authSuccess u \<and> sm_AUTH_PAE_Step u = u
      | AUTH_PAE_AUTHENTICATED \<Rightarrow> portEnabled u \<and> \<not> eapStart (auth_pae u) \<and> \<not> reAuthenticate u \<and>
          sm_AUTH_PAE_Step u = u
      | AUTH_PAE_HELD \<Rightarrow> portEnabled u \<and> quietWhile u \<noteq> 0 \<and> sm_AUTH_PAE_Step u = u
      | _ \<Rightarrow> False)"
proof (cases "portEnabled u")
  case False
  then show ?thesis using same
    by (simp add: sm_AUTH_PAE_Step_def Let_def pae_enter_defs split: auth_pae_state.split)
next
  case True
  have enters: "pae_state (auth_pae (sm_AUTH_PAE_DISCONNECTED_Enter u)) = AUTH_PAE_DISCONNECTED"
    "pae_state (auth_pae (sm_AUTH_PAE_CONNECTING_Enter u)) = AUTH_PAE_CONNECTING"
    "pae_state (auth_pae (sm_AUTH_PAE_HELD_Enter u)) = AUTH_PAE_HELD"
    "pae_state (auth_pae (sm_AUTH_PAE_AUTHENTICATED_Enter u)) = AUTH_PAE_AUTHENTICATED"
    "pae_state (auth_pae (sm_AUTH_PAE_ABORTING_Enter u)) = AUTH_PAE_ABORTING"
    by (simp_all add: pae_enter_defs)
  have c: "portControl u = Auto" "portMode (auth_pae u) = Auto" "\<not> initialize u" "\<not> authAbort u"
    "portValid u" "pae_state (auth_pae u) \<noteq> AUTH_PAE_FORCE_AUTH"
    "pae_state (auth_pae u) \<noteq> AUTH_PAE_FORCE_UNAUTH"
    using inv by (simp_all add: sm_inv_def sm_const_def)
  then show ?thesis using True same
    by (cases "pae_state (auth_pae u)")
      (auto simp: sm_AUTH_PAE_Step_def Let_def enters split: if_splits)
qed

lemma be_stays:
  "sm_const s \<Longrightarrow> \<not> authAbort s \<Longrightarrow> be_state (be_auth (sm_BE_AUTH_Step s)) = be_state (be_auth s) \<Longrightarrow>
   be_state (be_auth s) \<in> {BE_AUTH_REQUEST, BE_AUTH_RESPONSE, BE_AUTH_IDLE} \<and>
   authSuccess (sm_BE_AUTH_Step s) = authSuccess s"
  by (cases "be_state (be_auth s)")
    (simp_all add: sm_BE_AUTH_Step_def be_enter_defs sm_const_def split: if_splits)

lemma re_stays:
  "sm_const s \<Longrightarrow>
   reauth_state (reauth_timer (sm_REAUTH_TIMER_Step s)) = reauth_state (reauth_timer s) \<Longrightarrow>
   reauth_state (reauth_timer s) = REAUTH_TIMER_INITIALIZE \<and>
   reAuthenticate (sm_REAUTH_TIMER_Step s) = reAuthenticate s \<and>
   (portStatus s = Authorized \<longrightarrow> reAuthWhen (sm_REAUTH_TIMER_Step s) \<noteq> 0)"
  by (cases "reauth_state (reauth_timer s)"; cases "portStatus s")
    (auto simp: sm_REAUTH_TIMER_Step_def re_enter_defs sm_const_def split: if_splits)

lemma last_round_rest:
  assumes inv: "sm_inv u" and same: "sm_states (sm_round u) = sm_states u"
  shows "sm_rest (sm_round u)"
proof -
  let ?s1 = "sm_AUTH_PAE_Step u" let ?s2 = "sm_BE_AUTH_Step ?s1"
  let ?s3 = "sm_REAUTH_TIMER_Step ?s2" let ?s4 = "sm_AUTH_KEY_TX_Step ?s3"
  have r: "sm_round u = ?s4" by (simp add: sm_round_def)
  have st: "pae_state (auth_pae ?s1) = pae_state (auth_pae u)"
    "be_state (be_auth ?s2) = be_state (be_auth ?s1)"
    "reauth_state (reauth_timer ?s3) = reauth_state (reauth_timer ?s2)"
    using same by (simp_all add: r sm_states_def)
  have c: "sm_const ?s1" "sm_const ?s2" using inv by (simp_all add: sm_inv_def)
  note pae = pae_stays [OF inv st(1)] and re = re_stays [OF c(2) st(3)]
  have na: "\<not> authAbort ?s1"
  proof -
    have "\<not> authAbort u" using inv by (simp add: sm_inv_def)
    moreover have "authAbort t = authAbort u \<or> pae_state (auth_pae t) = AUTH_PAE_ABORTING"
      if "t = ?s1" for t
      unfolding that by (rule pae_step_rule; simp add: pae_enter_defs)
    ultimately show ?thesis using pae st(1) by (cases "pae_state (auth_pae u)") auto
  qed
  note be = be_stays [OF c(1) na st(2)]
  show ?thesis using pae be re st
    by (simp add: r sm_rest_def) (auto split: auth_pae_state.splits)
qed

lemma sm_step_rest:
  assumes "sm_inv s" "eapol_sm_step s = Some t"
  shows "sm_inv t \<and> sm_rest t"
proof -
  obtain u where "sm_inv u" "t = sm_round u" "sm_states t = sm_states u"
    using eapol_sm_step_last_round [of s "\<lambda>_. True"] assms by auto
  then show ?thesis using sm_round_inv last_round_rest by auto
qed

lemma sm_calls_inv [simp]:
  "sm_inv (sm_call c s) = sm_inv s" "sm_rest (sm_call c s) = sm_rest s"
  by (simp_all add: sm_inv_def sm_const_def sm_port_def sm_rest_def sm_call_def
      split: auth_pae_state.split)

lemma sm_event_write_inv:
  "sm_inv s \<Longrightarrow> sm_inv (sm_event_write e s)"
  by (cases e)
    (auto simp: sm_inv_def sm_const_def sm_port_def set_server_id_def Let_def split: option.splits)

lemma tick_write_inv:
  "sm_inv s \<Longrightarrow> sm_inv (s\<lparr>aWhile := a, quietWhile := b, reAuthWhen := c, txWhen := d\<rparr>)"
  by (simp add: sm_inv_def sm_const_def sm_port_def)

lemma sm_handle_inv:
  assumes "sm_inv s"
  shows "\<exists>t. sm_handle e s = Some t \<and> sm_inv t \<and> sm_rest t"
proof -
  have one: "\<exists>t. eapol_sm_step u = Some t \<and> sm_inv t \<and> sm_rest t" if "sm_inv u" for u
    using eapol_sm_step_terminates [OF that] sm_step_rest [OF that] by blast
  have two: "\<exists>t. Option.bind (eapol_sm_step u) eapol_sm_step = Some t \<and> sm_inv t \<and> sm_rest t"
    if "sm_inv u" for u
    using one [OF that] one by fastforce
  have tick: "\<exists>t. eapol_port_timers_tick s = Some t \<and> sm_inv t \<and> sm_rest t"
    using one [OF tick_write_inv [OF assms, where a = "dec_timer (aWhile s)" and b = "dec_timer (quietWhile s)"
          and c = "dec_timer (reAuthWhen s)" and d = "dec_timer (txWhen s)"]]
    by (auto simp: eapol_port_timers_tick_def)
  show ?thesis
    by (cases e) (simp_all add: tick one two sm_event_write_inv assms del: sm_event_write.simps)
qed

lemma sm_alloc_start:
  "\<exists>s. eapol_sm_step ((sm_defaults conf)\<lparr>initialize := True\<rparr>) = Some s \<and> sm_inv (s\<lparr>initialize := False\<rparr>)"
proof -
  let ?s = "(sm_defaults conf)\<lparr>initialize := True\<rparr>"
  have "sm_states (sm_round ?s) = sm_states ?s"
    by (simp add: sm_states_def sm_round_def sm_AUTH_PAE_Step_def sm_BE_AUTH_Step_def
        sm_REAUTH_TIMER_Step_def sm_AUTH_KEY_TX_Step_def pae_enter_defs be_enter_defs
        re_enter_defs key_enter_defs sm_defaults_def sm_zero_def)
  then have "eapol_sm_step ?s = Some (sm_round ?s)" by (simp add: eapol_sm_step.simps)
  moreover have "sm_inv ((sm_round ?s)\<lparr>initialize := False\<rparr>)"
    by (simp add: sm_round_def sm_AUTH_PAE_Step_def sm_BE_AUTH_Step_def
        sm_REAUTH_TIMER_Step_def sm_AUTH_KEY_TX_Step_def pae_enter_defs be_enter_defs
        re_enter_defs key_enter_defs sm_defaults_def sm_zero_def sm_inv_def sm_const_def sm_port_def)
  ultimately show ?thesis by blast
qed

lemma sm_alloc_inv: "\<exists>s. eapol_sm_alloc True conf = Some (Some s) \<and> sm_inv s \<and> sm_rest s"
proof -
  obtain s where s: "eapol_sm_step ((sm_defaults conf)\<lparr>initialize := True\<rparr>) = Some s"
    "sm_inv (s\<lparr>initialize := False\<rparr>)" using sm_alloc_start by blast
  obtain t where "eapol_sm_step (s\<lparr>initialize := False\<rparr>) = Some t" "sm_inv t" "sm_rest t"
    using eapol_sm_step_terminates [OF s(2)] sm_step_rest [OF s(2)] by blast
  then show ?thesis using s by (simp add: eapol_sm_alloc_def eapol_sm_initialize_def)
qed

lemma step_portEnabled: "eapol_sm_step s = Some t \<Longrightarrow> portEnabled t = portEnabled s"
proof (erule eapol_sm_step.raw_induct [where P = "\<lambda>s t. portEnabled t = portEnabled s", rotated])
  fix step :: "eapol_state_machine \<Rightarrow> eapol_state_machine option" and s t
  assume ih: "\<And>s t. step s = Some t \<Longrightarrow> portEnabled t = portEnabled s"
    and r: "(if sm_states (sm_round s) \<noteq> sm_states s then step (sm_round s) else Some (sm_round s)) = Some t"
  have "portEnabled (sm_round s) = portEnabled s" by (simp add: sm_round_def)
  then show "portEnabled t = portEnabled s" using ih r by (auto split: if_splits)
qed

text \<open>A machine whose port has been enabled and that has not made a step.\<close>

definition sm_fresh :: "eapol_state_machine \<Rightarrow> bool" where
  "sm_fresh s \<longleftrightarrow> pae_state (auth_pae s) = AUTH_PAE_INITIALIZE \<and> sm_rest (s\<lparr>portEnabled := False\<rparr>)"

lemma sm_alloc_fresh:
  assumes "eapol_sm_alloc True conf = Some (Some s)"
  shows "sm_inv (s\<lparr>portEnabled := True\<rparr>) \<and> sm_fresh (s\<lparr>portEnabled := True\<rparr>)"
proof -
  have s: "sm_inv s" "sm_rest s" using sm_alloc_inv [of conf] assms by auto
  obtain t u where t: "eapol_sm_step ((sm_defaults conf)\<lparr>initialize := True\<rparr>) = Some t"
    and u: "eapol_sm_step (t\<lparr>initialize := False\<rparr>) = Some u"
    and su: "s = sm_call RegisterTick (sm_call CancelTick u)"
    using assms by (auto simp: eapol_sm_alloc_def eapol_sm_initialize_def bind_eq_Some_conv)
  have "\<not> portEnabled s"
    using step_portEnabled [OF t] step_portEnabled [OF u] by (simp add: su sm_call_def sm_defaults_def)
  then have "pae_state (auth_pae s) = AUTH_PAE_INITIALIZE"
    using s(2) by (cases "pae_state (auth_pae s)") (simp_all add: sm_rest_def)
  moreover have "s\<lparr>portEnabled := False\<rparr> = s" using \<open>\<not> portEnabled s\<close> by (cases s) simp
  ultimately show ?thesis using s sm_event_write_inv [of s NewStation] by (simp add: sm_fresh_def)
qed

lemma sm_reach_inv: "sm_reach A conf s \<Longrightarrow> sm_inv s \<and> (sm_rest s \<or> sm_fresh s)"
proof (induction rule: sm_reach.induct)
  case (alloc sm)
  then show ?case using sm_alloc_inv [of conf] by auto
next
  case (enable sm)
  then show ?case using sm_alloc_fresh by blast
next
  case (event sm e sm')
  then show ?case using sm_handle_inv [of sm e] by auto
qed


section \<open>No authorisation without an Access-Accept\<close>

definition sm_locked :: "eapol_state_machine \<Rightarrow> bool" where
  "sm_locked s \<longleftrightarrow> portControl s = Auto \<and> portStatus s = Unauthorized \<and> \<not> aSuccess (be_auth s) \<and> \<not> authSuccess s \<and>
     pae_state (auth_pae s) \<noteq> AUTH_PAE_FORCE_AUTH \<and>
     pae_state (auth_pae s) \<noteq> AUTH_PAE_FORCE_UNAUTH \<and>
     key_state (auth_key_tx s) = AUTH_KEY_TX_NO_KEY_TRANSMIT \<and>
     (\<forall>c \<in> set (calls s). c \<noteq> SetStaAuthorized True \<and> (\<forall>i. c \<noteq> TxKey i) \<and> (\<forall>i. c \<noteq> TxCannedEap i True))"

lemma sm_locked_be_step: "sm_locked s \<Longrightarrow> sm_locked (sm_BE_AUTH_Step s)"
  by (cases "be_state (be_auth s)")
    (simp_all add: sm_BE_AUTH_Step_def be_enter_defs sm_locked_def)

lemma sm_locked_round: "sm_locked s \<Longrightarrow> sm_locked (sm_round s)"
proof -
  assume s: "sm_locked s"
  have 1: "sm_locked (sm_AUTH_PAE_Step s)"
    using s by - (rule pae_step_rule, simp_all add: pae_enter_defs sm_locked_def)
  have 3: "sm_locked (sm_REAUTH_TIMER_Step t)" if "sm_locked t" for t
    using that by - (rule re_step_rule, simp_all add: re_enter_defs sm_locked_def)
  have 4: "sm_locked (sm_AUTH_KEY_TX_Step t)" if "sm_locked t" for t
    using that by (simp add: sm_AUTH_KEY_TX_Step_def key_enter_defs sm_locked_def)
  show ?thesis unfolding sm_round_def using 1 3 4 sm_locked_be_step by blast
qed

lemma sm_step_locked: "eapol_sm_step s = Some t \<Longrightarrow> sm_locked s \<Longrightarrow> sm_locked t"
  by (erule eapol_sm_step_keeps [where Q = sm_locked]) (assumption, rule sm_locked_round)

fun is_accept :: "sm_event \<Rightarrow> bool" where
  "is_accept (ServerAccept p k i) = True"
| "is_accept e = False"

lemma sm_handle_locked:
  assumes "sm_locked s" "\<not> is_accept e" "sm_handle e s = Some t"
  shows "sm_locked t"
proof -
  have w: "sm_locked (sm_event_write e s)"
    using assms(1,2) by (cases e) (auto simp: sm_locked_def set_server_id_def Let_def split: option.splits)
  have tick: "sm_locked (s\<lparr>aWhile := a, quietWhile := b, reAuthWhen := c, txWhen := d\<rparr>)" for a b c d
    using assms(1) by (simp add: sm_locked_def)
  have call: "sm_locked (sm_call RegisterTick u) = sm_locked u" for u
    by (auto simp add: sm_locked_def sm_call_def)
  have "eapol_port_timers_tick s = Some t \<Longrightarrow> sm_locked t"
    using tick sm_step_locked by (auto simp: eapol_port_timers_tick_def bind_eq_Some_conv call)
  moreover have "Option.bind (eapol_sm_step (sm_event_write e s)) eapol_sm_step = Some t \<Longrightarrow> sm_locked t"
    using w sm_step_locked by (auto simp: bind_eq_Some_conv)
  moreover have "eapol_sm_step (sm_event_write e s) = Some t \<Longrightarrow> sm_locked t"
    using w sm_step_locked by blast
  ultimately show ?thesis using assms(3) by (cases e) simp_all
qed

lemma sm_alloc_locked: "eapol_sm_alloc True conf = Some (Some s) \<Longrightarrow> sm_locked s"
proof -
  assume "eapol_sm_alloc True conf = Some (Some s)"
  then obtain t u where t: "eapol_sm_step ((sm_defaults conf)\<lparr>initialize := True\<rparr>) = Some t"
    and u: "eapol_sm_step (t\<lparr>initialize := False\<rparr>) = Some u"
    and s: "s = sm_call RegisterTick (sm_call CancelTick u)"
    by (auto simp: eapol_sm_alloc_def eapol_sm_initialize_def bind_eq_Some_conv)
  have "sm_locked ((sm_defaults conf)\<lparr>initialize := True\<rparr>)"
    by (simp add: sm_locked_def sm_defaults_def sm_zero_def)
  then have "sm_locked t" using sm_step_locked t by blast
  then have "sm_locked (t\<lparr>initialize := False\<rparr>)" by (simp add: sm_locked_def)
  then have "sm_locked u" using sm_step_locked u by blast
  then show ?thesis by (auto simp: s sm_locked_def sm_call_def)
qed

lemma sm_reach_locked: "sm_reach {e. \<not> is_accept e} conf s \<Longrightarrow> sm_locked s"
proof (induction rule: sm_reach.induct)
  case (enable sm)
  have "sm_locked sm" using enable by (rule sm_alloc_locked)
  then show ?case by (simp add: sm_locked_def)
qed (auto intro: sm_alloc_locked sm_handle_locked)

section \<open>Logoff\<close>

text \<open>Unauthorised, with no authentication under way.\<close>

definition sm_closed :: "eapol_state_machine \<Rightarrow> bool" where
  "sm_closed s \<longleftrightarrow> portStatus s = Unauthorized \<and>
     pae_state (auth_pae s) \<in> {AUTH_PAE_INITIALIZE, AUTH_PAE_DISCONNECTED, AUTH_PAE_CONNECTING, AUTH_PAE_HELD} \<and>
     (pae_state (auth_pae s) = AUTH_PAE_CONNECTING \<longrightarrow> \<not> rxInitialRsp (auth_pae s))"

lemma sm_closed_pae_step: "sm_const s \<Longrightarrow> sm_closed s \<Longrightarrow> sm_closed (sm_AUTH_PAE_Step s)"
proof -
  assume a: "sm_const s" "sm_closed s"
  then have c: "portControl s = Auto" "portMode (auth_pae s) = Auto" "\<not> initialize s"
    by (simp_all add: sm_const_def)
  have e: "sm_closed (sm_AUTH_PAE_INITIALIZE_Enter s)" "sm_closed (sm_AUTH_PAE_DISCONNECTED_Enter s)"
    "sm_closed (sm_AUTH_PAE_CONNECTING_Enter s)" "sm_closed (sm_AUTH_PAE_HELD_Enter s)"
    using a by (simp_all add: sm_closed_def pae_enter_defs)
  show ?thesis
  proof (cases "portEnabled s")
    case False
    then show ?thesis using c e by (simp add: sm_AUTH_PAE_Step_def Let_def)
  next
    case True
    then show ?thesis using a c e
      by (cases "pae_state (auth_pae s)") (simp_all add: sm_AUTH_PAE_Step_def Let_def, auto simp: sm_closed_def)
  qed
qed

lemma sm_closed_round: "sm_inv s \<Longrightarrow> sm_closed s \<Longrightarrow> sm_closed (sm_round s)"
  using sm_closed_pae_step [of s] by (simp add: sm_closed_def sm_round_def sm_inv_def)

lemma sm_rest_pae_cases:
  assumes "sm_rest s"
  obtains "pae_state (auth_pae s) = AUTH_PAE_INITIALIZE" "\<not> portEnabled s"
  | "pae_state (auth_pae s) = AUTH_PAE_CONNECTING" "portEnabled s"
  | "pae_state (auth_pae s) = AUTH_PAE_AUTHENTICATING" "portEnabled s" "\<not> authSuccess s"
  | "pae_state (auth_pae s) = AUTH_PAE_AUTHENTICATED" "portEnabled s" "\<not> eapStart (auth_pae s)" "\<not> reAuthenticate s"
  | "pae_state (auth_pae s) = AUTH_PAE_HELD" "portEnabled s" "quietWhile s \<noteq> 0"
  using assms by (cases "pae_state (auth_pae s)") (simp_all add: sm_rest_def)

definition logoff_pending :: "eapol_state_machine \<Rightarrow> bool" where
  "logoff_pending s \<longleftrightarrow> portEnabled s \<and> pae_state (auth_pae s) = AUTH_PAE_ABORTING \<and> eapLogoff (auth_pae s)"

lemma sm_logoff_first_step:
  assumes "sm_inv s" "sm_rest s" "eapLogoff (auth_pae s)"
  shows "sm_closed (sm_AUTH_PAE_Step s) \<or> logoff_pending (sm_AUTH_PAE_Step s)"
proof -
  have c: "portControl s = Auto" "portMode (auth_pae s) = Auto" "\<not> initialize s"
    and p: "sm_port s" using assms(1) by (simp_all add: sm_inv_def sm_const_def)
  have e: "sm_closed (sm_AUTH_PAE_DISCONNECTED_Enter s)" "sm_closed (sm_AUTH_PAE_HELD_Enter s)"
    "portEnabled s \<Longrightarrow> logoff_pending (sm_AUTH_PAE_ABORTING_Enter s)"
    using assms(3) by (simp_all add: sm_closed_def logoff_pending_def pae_enter_defs)
  from assms(2) show ?thesis
  proof (cases rule: sm_rest_pae_cases)
    case 1
    then show ?thesis using p
      by (auto simp: sm_AUTH_PAE_Step_def Let_def sm_closed_def sm_port_def pae_enter_defs)
  next
    case 5
    then show ?thesis using p c by (auto simp: sm_AUTH_PAE_Step_def Let_def sm_closed_def sm_port_def)
  qed (use c e assms(3) in \<open>simp_all add: sm_AUTH_PAE_Step_def Let_def\<close>)
qed

lemma sm_logoff_first_round:
  assumes "sm_inv s" "sm_rest s" "eapLogoff (auth_pae s)"
  shows "sm_closed (sm_round s) \<or> logoff_pending (sm_round s)"
  using sm_logoff_first_step [OF assms] by (simp add: sm_closed_def logoff_pending_def sm_round_def)

lemma sm_logoff_second_round:
  assumes "sm_inv s" "logoff_pending s"
  shows "sm_closed (sm_round s)"
proof -
  have "sm_closed (sm_AUTH_PAE_DISCONNECTED_Enter s)" by (simp add: sm_closed_def pae_enter_defs)
  moreover have "sm_AUTH_PAE_Step s = sm_AUTH_PAE_DISCONNECTED_Enter s"
    using assms by (simp add: sm_inv_def sm_const_def logoff_pending_def sm_AUTH_PAE_Step_def Let_def)
  ultimately show ?thesis by (simp add: sm_closed_def sm_round_def)
qed

lemma sm_step_logoff:
  assumes "sm_inv s" "sm_rest s" "eapLogoff (auth_pae s)" "eapol_sm_step s = Some t"
  shows "sm_closed t"
proof -
  have closed: "sm_closed v" if "sm_inv u" "sm_closed u" "eapol_sm_step u = Some v" for u v
    using eapol_sm_step_preserves [of u v sm_closed] that sm_closed_round by blast
  have unfold: "eapol_sm_step s = (if sm_states (sm_round s) \<noteq> sm_states s then eapol_sm_step (sm_round s)
      else Some (sm_round s))" for s by (rule eapol_sm_step.simps)
  have inv1: "sm_inv (sm_round s)" using assms(1) by (rule sm_round_inv)
  from sm_logoff_first_round [OF assms(1-3)] show ?thesis
  proof
    assume "sm_closed (sm_round s)"
    then show ?thesis using assms(4) closed inv1 by (auto simp: unfold [of s] split: if_splits)
  next
    assume l: "logoff_pending (sm_round s)"
    then have "sm_states (sm_round s) \<noteq> sm_states s"
      using assms(2) by (auto simp: logoff_pending_def sm_states_def sm_rest_def)
    then have 2: "eapol_sm_step (sm_round s) = Some t" using assms(4) by (simp add: unfold [of s])
    have "sm_closed (sm_round (sm_round s))" using sm_logoff_second_round inv1 l by blast
    then show ?thesis using 2 closed sm_round_inv [OF inv1] by (auto simp: unfold [of "sm_round s"] split: if_splits)
  qed
qed


section \<open>Session timeout zero\<close>

definition zero_period :: "eapol_state_machine \<Rightarrow> bool" where
  "zero_period s \<longleftrightarrow> reAuthPeriod (reauth_timer s) = 0 \<and> reAuthWhen s = 0"

lemma zero_period_round: "zero_period s \<Longrightarrow> zero_period (sm_round s)"
proof -
  assume "zero_period s"
  then have "zero_period (sm_REAUTH_TIMER_Step (sm_BE_AUTH_Step (sm_AUTH_PAE_Step s)))"
    by - (rule re_step_rule; simp add: zero_period_def re_enter_defs)
  then show ?thesis by (simp add: sm_round_def zero_period_def)
qed

lemma zero_period_first_round:
  assumes "sm_inv s" "portStatus s = Unauthorized" "\<not> authSuccess s" "reAuthPeriod (reauth_timer s) = 0"
  shows "zero_period (sm_round s)"
proof -
  have "portStatus (sm_AUTH_PAE_Step s) = Unauthorized"
    using assms(2,3) assms(1)
    by - (rule pae_step_rule; simp add: pae_enter_defs sm_inv_def sm_const_def)
  then show ?thesis using assms(4)
    by (simp add: sm_round_def zero_period_def sm_REAUTH_TIMER_Step_def re_enter_defs)
qed

lemma zero_period_rest: "zero_period s \<Longrightarrow> sm_rest s \<Longrightarrow> portStatus s = Unauthorized"
  by (cases "portStatus s") (auto simp: zero_period_def sm_rest_def)

lemma sm_step_zero_period:
  assumes "sm_inv s" "portStatus s = Unauthorized" "\<not> authSuccess s"
    "reAuthPeriod (reauth_timer s) = 0" "eapol_sm_step s = Some t"
  shows "portStatus t = Unauthorized \<and> zero_period t"
proof -
  have 1: "zero_period (sm_round s)" "sm_inv (sm_round s)"
    using zero_period_first_round sm_round_inv assms by blast+
  have "zero_period t"
    using assms(5) 1 eapol_sm_step_keeps [of "sm_round s" t zero_period] zero_period_round
    by (auto simp: eapol_sm_step.simps [of s] split: if_splits)
  then show ?thesis using sm_step_rest [OF assms(1,5)] zero_period_rest by blast
qed

section \<open>Success\<close>

text \<open>
  The states between an Access-Accept that answers the station's last response and the
  authorised port.
\<close>

definition sm_accepting :: "eapol_state_machine \<Rightarrow> bool" where
  "sm_accepting s \<longleftrightarrow>
     portEnabled s \<and> \<not> eapStart (auth_pae s) \<and> \<not> eapLogoff (auth_pae s) \<and> \<not> reAuthenticate s \<and>
     reAuthPeriod (reauth_timer s) \<noteq> 0 \<and>
     reauth_state (reauth_timer s) = REAUTH_TIMER_INITIALIZE \<and>
     (portStatus s = Authorized \<or> authSuccess s \<longrightarrow> reAuthWhen s \<noteq> 0) \<and>
     (pae_state (auth_pae s) = AUTH_PAE_AUTHENTICATING \<and>
      (authSuccess s \<or>
       \<not> authFail s \<and> \<not> authTimeout s \<and> be_state (be_auth s) = BE_AUTH_RESPONSE \<and>
       \<not> aReq (be_auth s) \<and> aWhile s \<noteq> 0 \<and> \<not> aFail (be_auth s) \<and> aSuccess (be_auth s)) \<or>
      pae_state (auth_pae s) = AUTH_PAE_AUTHENTICATED \<and> portStatus s = Authorized)"

lemma accepting_pae_step:
  assumes "sm_const s" "sm_accepting s"
  shows "sm_accepting (sm_AUTH_PAE_Step s)" "authAbort (sm_AUTH_PAE_Step s) = authAbort s"
proof -
  have c: "portControl s = Auto" "portMode (auth_pae s) = Auto" "\<not> initialize s" "portValid s" "portEnabled s"
    using assms by (simp_all add: sm_const_def sm_accepting_def)
  have "sm_AUTH_PAE_Step s = (if pae_state (auth_pae s) = AUTH_PAE_AUTHENTICATING \<and> authSuccess s
      then sm_AUTH_PAE_AUTHENTICATED_Enter s else s)"
  proof (cases "pae_state (auth_pae s)")
    case AUTH_PAE_AUTHENTICATING
    then show ?thesis using c assms(2)
      by (simp add: sm_AUTH_PAE_Step_def Let_def sm_accepting_def) blast
  next
    case AUTH_PAE_AUTHENTICATED
    then show ?thesis using c assms(2) by (simp add: sm_AUTH_PAE_Step_def Let_def sm_accepting_def)
  qed (use assms(2) in \<open>simp_all add: sm_accepting_def\<close>)
  then show "sm_accepting (sm_AUTH_PAE_Step s)" "authAbort (sm_AUTH_PAE_Step s) = authAbort s"
    using assms(2) by (simp_all add: sm_accepting_def pae_enter_defs)
qed

lemma accepting_be_re_step:
  assumes "sm_const s" "sm_accepting s" "\<not> authAbort s"
  shows "sm_accepting (sm_REAUTH_TIMER_Step (sm_BE_AUTH_Step s)) \<and>
    (pae_state (auth_pae s) = AUTH_PAE_AUTHENTICATING \<longrightarrow> authSuccess (sm_BE_AUTH_Step s))"
proof -
  let ?t = "sm_BE_AUTH_Step s"
  have c: "portControl s = Auto" "\<not> initialize s" "reAuthEnabled (reauth_timer s)"
    using assms(1) by (simp_all add: sm_const_def)
  have t: "pae_state (auth_pae s) = AUTH_PAE_AUTHENTICATING \<and> authSuccess ?t \<or>
      pae_state (auth_pae s) = AUTH_PAE_AUTHENTICATED \<and> portStatus s = Authorized"
    using assms(2,3) c
    by (cases "be_state (be_auth s)")
      (auto simp: sm_accepting_def sm_BE_AUTH_Step_def Let_def be_enter_defs split: if_splits)
  show ?thesis
  proof (cases "portStatus s")
    case Unauthorized
    then have "sm_REAUTH_TIMER_Step ?t = sm_REAUTH_TIMER_INITIALIZE_Enter ?t"
      by (simp add: sm_REAUTH_TIMER_Step_def)
    then show ?thesis using assms(2) t by (auto simp: sm_accepting_def re_enter_defs)
  next
    case Authorized
    then have "sm_REAUTH_TIMER_Step ?t = ?t" using c assms(2)
      by (simp add: sm_REAUTH_TIMER_Step_def sm_accepting_def)
    then show ?thesis using assms(2) t Authorized by (auto simp: sm_accepting_def)
  qed
qed

lemma accepting_round:
  "sm_inv s \<Longrightarrow> sm_accepting s \<Longrightarrow> sm_accepting (sm_round s) \<and>
     (pae_state (auth_pae (sm_round s)) = AUTH_PAE_AUTHENTICATING \<longrightarrow> authSuccess (sm_round s))"
proof -
  assume a: "sm_inv s" "sm_accepting s"
  then have "sm_const s" "\<not> authAbort s" by (simp_all add: sm_inv_def)
  then have "sm_accepting (sm_REAUTH_TIMER_Step (sm_BE_AUTH_Step (sm_AUTH_PAE_Step s)))"
    "pae_state (auth_pae (sm_AUTH_PAE_Step s)) = AUTH_PAE_AUTHENTICATING \<longrightarrow>
       authSuccess (sm_BE_AUTH_Step (sm_AUTH_PAE_Step s))"
    using accepting_be_re_step [of "sm_AUTH_PAE_Step s"] accepting_pae_step [of s] a(2) by simp_all
  then show ?thesis by (simp add: sm_accepting_def sm_round_def)
qed

lemma accepting_rest:
  assumes "sm_inv s" "sm_accepting s" "eapol_sm_step s = Some t"
  shows "pae_state (auth_pae t) = AUTH_PAE_AUTHENTICATED \<and> portStatus t = Authorized"
proof -
  obtain u where u: "sm_inv u" "sm_accepting u" "t = sm_round u"
    using eapol_sm_step_last_round [of s sm_accepting] accepting_round assms by auto
  have "sm_accepting t" "pae_state (auth_pae t) = AUTH_PAE_AUTHENTICATING \<longrightarrow> authSuccess t"
    using accepting_round [OF u(1,2)] u(3) by simp_all
  moreover have "sm_rest t" using assms sm_step_rest by blast
  ultimately show ?thesis
    by (cases "pae_state (auth_pae t)") (auto simp: sm_accepting_def sm_rest_def)
qed

section \<open>Properties\<close>

text \<open>
  C2: no event can hang the daemon in \<open>eapol_sm_step\<close>. Whatever sequence of station frames,
  RADIUS answers (with arbitrary timeouts) and ticks has happened, handling the next event
  returns.
\<close>

theorem eapol_sm_step_always_returns:
  assumes "sm_reach UNIV conf sm"
  shows "\<exists>sm'. sm_handle e sm = Some sm'"
  using sm_handle_inv sm_reach_inv assms by blast

theorem eapol_sm_step_always_returns_witness:
  "\<exists>sm. sm_run \<lparr>session_timeout_set = False, session_timeout_interval = 0\<rparr>
            [NewStation, ResponseIdentity, ServerChallenge (Some 0) (Some 7)] = Some sm \<and>
         pae_state (auth_pae sm) = AUTH_PAE_AUTHENTICATING \<and>
         (\<exists>sm'. sm_handle (ServerAccept (Some 0) True None) sm = Some sm')"
proof -
  let ?es = "[NewStation, ResponseIdentity, ServerChallenge (Some 0) (Some 7)]"
  let ?c = "\<lparr>session_timeout_set = False, session_timeout_interval = 0\<rparr>"
  have "map_option (\<lambda>sm. pae_state (auth_pae sm)) (sm_run ?c ?es) = Some AUTH_PAE_AUTHENTICATING"
    by code_simp
  then obtain sm where sm: "sm_run ?c ?es = Some sm" "pae_state (auth_pae sm) = AUTH_PAE_AUTHENTICATING"
    by blast
  have "sm_reach UNIV ?c sm" using sm_run_reach [OF sm(1)] by simp
  then show ?thesis using sm eapol_sm_step_always_returns by blast
qed


text \<open>
  The port is authorised, a success is sent or a key is transmitted only if the RADIUS server
  has accepted: in every run without an Access-Accept the port is unauthorised and the calls
  the machines made contain none of the three.
\<close>

lemma no_access_without_accept:
  assumes "sm_reach {e. \<not> is_accept e} conf sm"
  shows "portStatus sm = Unauthorized \<and> SetStaAuthorized True \<notin> set (calls sm) \<and>
    (\<forall>i. TxKey i \<notin> set (calls sm) \<and> TxCannedEap i True \<notin> set (calls sm))"
  using sm_reach_locked [OF assms] by (auto simp: sm_locked_def)

definition demo_conf :: sm_conf where
  "demo_conf = \<lparr>session_timeout_set = False, session_timeout_interval = 0\<rparr>"

lemma sm_run_Some:
  "map_option f (sm_run conf es) = Some x \<Longrightarrow>
   \<exists>sm. sm_run conf es = Some sm \<and> f sm = x \<and> sm_reach (set es) conf sm"
  using sm_run_reach [of conf es _ "set es"] by auto

lemma sm_reach_mono: "sm_reach A conf sm \<Longrightarrow> A \<subseteq> B \<Longrightarrow> sm_reach B conf sm"
  by (induction rule: sm_reach.induct) (auto intro: sm_reach.intros)

text \<open>
  C13: a logoff closes the port. After an EAPOL-Logoff is handled, in whatever reachable state it
  arrives, the port is unauthorised and no authentication is under way.
\<close>

theorem logoff_closes_port:
  assumes "sm_reach UNIV conf sm" "sm_handle EapolLogoff sm = Some sm'"
  shows "portStatus sm' = Unauthorized \<and>
    pae_state (auth_pae sm') \<in> {AUTH_PAE_INITIALIZE, AUTH_PAE_CONNECTING, AUTH_PAE_HELD}"
proof -
  let ?w = "sm_event_write EapolLogoff sm"
  have r: "sm_inv sm" "sm_rest sm \<or> sm_fresh sm" using sm_reach_inv [OF assms(1)] by blast+
  have i: "sm_inv ?w" "eapLogoff (auth_pae ?w)" using r sm_event_write_inv by (blast, simp)
  obtain t where t: "eapol_sm_step ?w = Some t" "eapol_sm_step t = Some sm'"
    using assms(2) by (auto simp: bind_eq_Some_conv)
  have "sm_closed t"
    using r(2)
  proof
    assume "sm_rest sm"
    then have "sm_rest ?w" by (cases "pae_state (auth_pae sm)") (simp_all add: sm_rest_def)
    then show ?thesis using i sm_step_logoff t(1) by blast
  next
    assume "sm_fresh sm"
    then have "sm_closed ?w"
      using r(1) by (auto simp: sm_fresh_def sm_closed_def sm_inv_def sm_port_def)
    then show ?thesis using eapol_sm_step_preserves [OF t(1) i(1), of sm_closed] sm_closed_round by blast
  qed
  moreover have "sm_inv t" using sm_step_rest [OF i(1) t(1)] by blast
  ultimately
  have "sm_closed sm'" "sm_rest sm'"
    using eapol_sm_step_preserves [OF t(2), of sm_closed] sm_closed_round sm_step_rest [OF _ t(2)] by blast+
  then show ?thesis by (cases "pae_state (auth_pae sm')") (auto simp: sm_closed_def sm_rest_def)
qed

definition demo_login :: "sm_event list" where
  "demo_login = [NewStation, ResponseIdentity, ServerChallenge None (Some 3), ResponseOther True,
     ServerAccept None True (Some 4)]"

theorem logoff_closes_port_witness:
  "\<exists>sm sm'. sm_run demo_conf demo_login = Some sm \<and> portStatus sm = Authorized \<and>
     sm_handle EapolLogoff sm = Some sm' \<and> portStatus sm' = Unauthorized"
proof -
  have "map_option portStatus (sm_run demo_conf demo_login) = Some Authorized" by code_simp
  from sm_run_Some [OF this] obtain sm where sm: "sm_run demo_conf demo_login = Some sm"
    "portStatus sm = Authorized" "sm_reach (set demo_login) demo_conf sm" by blast
  have r: "sm_reach UNIV demo_conf sm" by (rule sm_reach_mono [OF sm(3)]) simp
  then obtain sm' where "sm_handle EapolLogoff sm = Some sm'"
    using sm_handle_inv sm_reach_inv by blast
  then show ?thesis using sm(1,2) logoff_closes_port [OF r] by blast
qed

text \<open>
  C14: an Access-Accept that answers the station's last response, when no EAPOL-Start, Logoff,
  reauthentication or failure is pending, is decided by the reauthentication period: the Session-Timeout
  of the answer, or the configured one when the answer has none. With a period that is not zero the
  port is authorised. With the period zero a station whose port was not authorised stays locked out:
  the port is authorised and torn down again within the one call of \<open>eapol_sm_step\<close>.
\<close>

theorem accept_authorises:
  assumes "sm_reach UNIV conf sm" "pae_state (auth_pae sm) = AUTH_PAE_AUTHENTICATING"
    "be_state (be_auth sm) = BE_AUTH_RESPONSE" "aWhile sm \<noteq> 0"
    "\<not> eapStart (auth_pae sm)" "\<not> eapLogoff (auth_pae sm)" "\<not> reAuthenticate sm"
    "\<not> authFail sm" "\<not> authTimeout sm" "\<not> aReq (be_auth sm)" "\<not> aFail (be_auth sm)"
    "per = (case period of None \<Rightarrow> reAuthPeriod (reauth_timer sm) | Some p \<Rightarrow> p)"
    "sm_handle (ServerAccept period keys i) sm = Some sm'"
  shows "if per \<noteq> 0 then portStatus sm' = Authorized \<and> pae_state (auth_pae sm') = AUTH_PAE_AUTHENTICATED
    else portStatus sm = Unauthorized \<and> \<not> authSuccess sm \<longrightarrow> portStatus sm' = Unauthorized \<and> reAuthWhen sm' = 0"
proof -
  let ?w = "sm_event_write (ServerAccept period keys i) sm"
  have inv: "sm_inv ?w" using sm_event_write_inv sm_reach_inv assms(1) by blast
  have step: "eapol_sm_step ?w = Some sm'" using assms(13) by simp
  have "portStatus sm' = Authorized \<and> pae_state (auth_pae sm') = AUTH_PAE_AUTHENTICATED" if "per \<noteq> 0"
  proof -
    have "sm_accepting ?w"
      using sm_reach_inv [OF assms(1)] assms(2-12) that
      by (cases period; cases keys; cases i)
        (simp_all add: sm_accepting_def set_server_id_def Let_def sm_rest_def sm_fresh_def)
    then show ?thesis using accepting_rest inv step by blast
  qed
  moreover have "portStatus sm' = Unauthorized \<and> reAuthWhen sm' = 0"
    if "per = 0" "portStatus sm = Unauthorized" "\<not> authSuccess sm"
  proof -
    have "portStatus ?w = Unauthorized" "\<not> authSuccess ?w" "reAuthPeriod (reauth_timer ?w) = 0"
      using that assms(12) by (simp_all add: Let_def set_server_id_def split: option.splits)
    then show ?thesis using sm_step_zero_period inv step by (auto simp: zero_period_def)
  qed
  ultimately show ?thesis by simp
qed

theorem accept_authorises_witness:
  "\<exists>sm sm' sm''. sm_run demo_conf [NewStation, ResponseIdentity] = Some sm \<and>
     sm_handle (ServerAccept (Some 60) True (Some 9)) sm = Some sm' \<and> portStatus sm' = Authorized \<and>
     sm_handle (ServerAccept (Some 0) True (Some 9)) sm = Some sm'' \<and> portStatus sm'' = Unauthorized"
proof -
  let ?f = "\<lambda>sm. (pae_state (auth_pae sm), be_state (be_auth sm), aWhile sm, eapStart (auth_pae sm),
    eapLogoff (auth_pae sm), reAuthenticate sm, authFail sm, authTimeout sm, aReq (be_auth sm), aFail (be_auth sm), portStatus sm, authSuccess sm)"
  have "map_option ?f (sm_run demo_conf [NewStation, ResponseIdentity]) =
      Some (AUTH_PAE_AUTHENTICATING, BE_AUTH_RESPONSE, 30, False, False, False, False, False, False, False, Unauthorized, False)"
    by code_simp
  from sm_run_Some [OF this] obtain sm where sm: "sm_run demo_conf [NewStation, ResponseIdentity] = Some sm"
    "?f sm = (AUTH_PAE_AUTHENTICATING, BE_AUTH_RESPONSE, 30, False, False, False, False, False, False, False, Unauthorized, False)"
    "sm_reach (set [NewStation, ResponseIdentity]) demo_conf sm" by blast
  have r: "sm_reach UNIV demo_conf sm" by (rule sm_reach_mono [OF sm(3)]) simp
  then obtain sm' where s': "sm_handle (ServerAccept (Some 60) True (Some 9)) sm = Some sm'"
    using sm_handle_inv sm_reach_inv by blast
  obtain sm'' where s'': "sm_handle (ServerAccept (Some 0) True (Some 9)) sm = Some sm''"
    using r sm_handle_inv sm_reach_inv by blast
  have flags: "pae_state (auth_pae sm) = AUTH_PAE_AUTHENTICATING" "be_state (be_auth sm) = BE_AUTH_RESPONSE" "aWhile sm \<noteq> 0"
    "\<not> eapStart (auth_pae sm)" "\<not> eapLogoff (auth_pae sm)" "\<not> reAuthenticate sm"
    "\<not> authFail sm" "\<not> authTimeout sm" "\<not> aReq (be_auth sm)" "\<not> aFail (be_auth sm)" "portStatus sm = Unauthorized" "\<not> authSuccess sm"
    using sm(2) by simp_all
  have "portStatus sm' = Authorized" using accept_authorises [OF r flags(1-10) refl s'] by simp
  moreover have "portStatus sm'' = Unauthorized" using accept_authorises [OF r flags(1-10) refl s''] flags(11,12) by simp
  ultimately show ?thesis using sm(1) s' s'' by blast
qed

text \<open>
  The states in which a step can come to rest. Between events the machines are never in a
  transient state (disconnecting, aborting, success, failure,
  timeout or reauthenticate), an authorised port has a running reauthentication timer, and a
  station that is authenticated has no pending EAPOL-Start.
\<close>

lemma eapol_sm_rests:
  assumes "sm_reach UNIV conf sm"
  shows "(pae_state (auth_pae sm) = AUTH_PAE_INITIALIZE \<or>
      pae_state (auth_pae sm) \<in> {AUTH_PAE_CONNECTING, AUTH_PAE_AUTHENTICATING,
        AUTH_PAE_AUTHENTICATED, AUTH_PAE_HELD} \<and> portEnabled sm) \<and>
    be_state (be_auth sm) \<in> {BE_AUTH_REQUEST, BE_AUTH_RESPONSE, BE_AUTH_IDLE} \<and>
    reauth_state (reauth_timer sm) = REAUTH_TIMER_INITIALIZE \<and>
    (portStatus sm = Authorized \<longrightarrow> reAuthWhen sm \<noteq> 0 \<and>
      pae_state (auth_pae sm) \<in> {AUTH_PAE_CONNECTING, AUTH_PAE_AUTHENTICATING, AUTH_PAE_AUTHENTICATED}) \<and>
    (pae_state (auth_pae sm) = AUTH_PAE_AUTHENTICATED \<longrightarrow>
      portStatus sm = Authorized \<and> \<not> eapStart (auth_pae sm) \<and> \<not> authAbort sm)"
proof -
  have "sm_inv sm" "sm_rest sm \<or> sm_fresh sm" using sm_reach_inv assms by blast+
  then show ?thesis
    by (cases "pae_state (auth_pae sm)") (auto simp: sm_inv_def sm_port_def sm_rest_def sm_fresh_def)
qed

end
