(* ===== verification/Linked_Lists.thy ===== *)
theory Linked_Lists
  imports Prelude
begin

text \<open>
  Linked lists in a store: the \<open>next\<close> and \<open>prev\<close> fields of the nodes are functions from node
  numbers, \<open>None\<close> is NULL. \<open>lseg\<close> says that following \<open>next\<close> from a head gives a list,
  \<open>plinks\<close> that the \<open>prev\<close> fields point back along it. The operations below are the pointer
  updates that the session tables of the PPPoE relay and server, the event loop and the hash
  tables share.
\<close>

primrec lseg :: "(nat \<Rightarrow> nat option) \<Rightarrow> nat option \<Rightarrow> nat list \<Rightarrow> bool" where
  "lseg nxt p [] \<longleftrightarrow> p = None"
| "lseg nxt p (x # xs) \<longleftrightarrow> p = Some x \<and> lseg nxt (nxt x) xs"

primrec plinks :: "(nat \<Rightarrow> nat option) \<Rightarrow> nat option \<Rightarrow> nat list \<Rightarrow> bool" where
  "plinks prv q [] \<longleftrightarrow> True"
| "plinks prv q (x # xs) \<longleftrightarrow> prv x = q \<and> plinks prv (Some x) xs"

text \<open>The search along a chain. It does not return on a cycle that has no match.\<close>

partial_function (option) chain_find ::
  "(nat \<Rightarrow> nat option) \<Rightarrow> (nat \<Rightarrow> bool) \<Rightarrow> nat option \<Rightarrow> nat option option" where
  "chain_find nxt P p =
     (case p of None \<Rightarrow> Some None
      | Some x \<Rightarrow> if P x then Some (Some x) else chain_find nxt P (nxt x))"

declare chain_find.simps [code]

lemma chain_find_lseg: "lseg nxt p xs \<Longrightarrow> chain_find nxt P p = Some (List.find P xs)"
  by (induction xs arbitrary: p) (subst chain_find.simps, simp)+

lemma lseg_cong: "(\<And>x. x \<in> set xs \<Longrightarrow> nxt' x = nxt x) \<Longrightarrow> lseg nxt' p xs = lseg nxt p xs"
  by (induction xs arbitrary: p) auto

lemma plinks_cong: "(\<And>x. x \<in> set xs \<Longrightarrow> prv' x = prv x) \<Longrightarrow> plinks prv' q xs = plinks prv q xs"
  by (induction xs arbitrary: q) auto

lemma lseg_upd_notin [simp]: "x \<notin> set xs \<Longrightarrow> lseg (nxt(x := v)) p xs = lseg nxt p xs"
  by (rule lseg_cong) auto

lemma plinks_upd_notin [simp]: "x \<notin> set xs \<Longrightarrow> plinks (prv(x := v)) q xs = plinks prv q xs"
  by (rule plinks_cong) auto

lemma lseg_if_notin [simp]: "x \<notin> set xs \<Longrightarrow> lseg (\<lambda>b. if b = x then v else nxt b) p xs = lseg nxt p xs"
  by (rule lseg_cong) auto

lemma plinks_if_notin [simp]: "x \<notin> set xs \<Longrightarrow> plinks (\<lambda>b. if b = x then v else prv b) q xs = plinks prv q xs"
  by (rule plinks_cong) auto

lemma lseg_unique: "lseg nxt p xs \<Longrightarrow> lseg nxt p ys \<Longrightarrow> xs = ys"
proof (induction xs arbitrary: p ys)
  case Nil
  then show ?case by (cases ys) auto
next
  case (Cons x xs)
  then show ?case by (cases ys) auto
qed

text \<open>The nodes of a chain, for at most \<open>n\<close> steps.\<close>

fun chain_nodes :: "nat \<Rightarrow> (nat \<Rightarrow> nat option) \<Rightarrow> nat option \<Rightarrow> nat list" where
  "chain_nodes 0 nxt p = []"
| "chain_nodes (Suc n) nxt p = (case p of None \<Rightarrow> [] | Some x \<Rightarrow> x # chain_nodes n nxt (nxt x))"

lemma chain_nodes_lseg: "lseg nxt p xs \<Longrightarrow> length xs \<le> n \<Longrightarrow> chain_nodes n nxt p = xs"
proof (induction xs arbitrary: p n)
  case Nil
  then show ?case by (cases n) auto
next
  case (Cons x xs)
  then show ?case by (cases n) auto
qed

text \<open>Putting a node in front of a doubly-linked list.\<close>

lemma plinks_front:
  assumes "plinks prv None xs" "x \<notin> set xs" "distinct xs"
  shows "plinks (case xs of [] \<Rightarrow> prv(x := None) | y # _ \<Rightarrow> prv(x := None, y := Some x)) None (x # xs)"
  using assms by (cases xs) auto

text \<open>
  Taking a node out: the field or head that pointed to it points to its successor, and the
  successor points back to its predecessor.
\<close>

definition unlink_next :: "(nat \<Rightarrow> nat option) \<Rightarrow> (nat \<Rightarrow> nat option) \<Rightarrow> nat \<Rightarrow> nat \<Rightarrow> nat option" where
  "unlink_next nxt prv x = (case prv x of None \<Rightarrow> nxt | Some q \<Rightarrow> nxt(q := nxt x))"

definition unlink_prev :: "(nat \<Rightarrow> nat option) \<Rightarrow> (nat \<Rightarrow> nat option) \<Rightarrow> nat \<Rightarrow> nat \<Rightarrow> nat option" where
  "unlink_prev nxt prv x = (case nxt x of None \<Rightarrow> prv | Some r \<Rightarrow> prv(r := prv x))"

definition unlink_head :: "nat option \<Rightarrow> (nat \<Rightarrow> nat option) \<Rightarrow> (nat \<Rightarrow> nat option) \<Rightarrow> nat \<Rightarrow> nat option" where
  "unlink_head h nxt prv x = (case prv x of None \<Rightarrow> nxt x | Some q \<Rightarrow> h)"

lemma lseg_split:
  "lseg nxt p (xs @ x # ys) \<Longrightarrow> distinct (xs @ x # ys) \<Longrightarrow>
   lseg nxt (nxt x) ys \<and>
   (xs = [] \<longrightarrow> p = Some x) \<and>
   (xs \<noteq> [] \<longrightarrow> lseg (nxt(last xs := nxt x)) p (xs @ ys))"
proof (induction xs arbitrary: p)
  case Nil
  then show ?case by simp
next
  case (Cons a xs)
  then show ?case by (cases "xs = []") auto
qed

lemma plinks_split:
  "plinks prv q (xs @ x # ys) \<Longrightarrow> distinct (xs @ x # ys) \<Longrightarrow>
   prv x = (if xs = [] then q else Some (last xs)) \<and>
   plinks (case ys of [] \<Rightarrow> prv | y # _ \<Rightarrow> prv(y := prv x)) q (xs @ ys)"
proof (induction xs arbitrary: q)
  case Nil
  then show ?case by (cases ys) auto
next
  case (Cons a xs)
  then have "prv x = (if xs = [] then Some a else Some (last xs)) \<and>
     plinks (case ys of [] \<Rightarrow> prv | y # _ \<Rightarrow> prv(y := prv x)) (Some a) (xs @ ys)" by simp
  moreover have "(case ys of [] \<Rightarrow> prv | y # _ \<Rightarrow> prv(y := prv x)) a = q"
    using Cons.prems by (cases ys) simp_all
  ultimately show ?case by simp
qed

lemma lseg_head: "lseg nxt p ys \<Longrightarrow> p = (case ys of [] \<Rightarrow> None | y # _ \<Rightarrow> Some y)"
  by (cases ys) auto

lemma unlink_dlist:
  assumes "lseg nxt h xs" "plinks prv None xs" "distinct xs" "x \<in> set xs"
  shows "lseg (unlink_next nxt prv x) (unlink_head h nxt prv x) (remove1 x xs)"
    "plinks (unlink_prev nxt prv x) None (remove1 x xs)"
    "prv x = None \<longleftrightarrow> h = Some x"
    "\<And>q. prv x = Some q \<Longrightarrow> q \<in> set xs \<and> q \<noteq> x" "\<And>q. nxt x = Some q \<Longrightarrow> q \<in> set xs \<and> q \<noteq> x"
proof -
  obtain as bs where xs: "xs = as @ x # bs" using assms(4) by (meson split_list)
  have l: "lseg nxt (nxt x) bs" "as = [] \<longrightarrow> h = Some x"
    "as \<noteq> [] \<longrightarrow> lseg (nxt(last as := nxt x)) h (as @ bs)"
    using lseg_split [of nxt h as x bs] assms(1,3) xs by auto
  have p: "prv x = (if as = [] then None else Some (last as))"
    "plinks (case bs of [] \<Rightarrow> prv | y # _ \<Rightarrow> prv(y := prv x)) None (as @ bs)"
    using plinks_split [of prv None as x bs] assms(2,3) xs by auto
  have r: "remove1 x xs = as @ bs" using assms(3) xs by (simp add: remove1_append)
  show "lseg (unlink_next nxt prv x) (unlink_head h nxt prv x) (remove1 x xs)"
    using l p(1) r by (cases "as = []") (auto simp: unlink_next_def unlink_head_def)
  have "unlink_prev nxt prv x = (case bs of [] \<Rightarrow> prv | y # _ \<Rightarrow> prv(y := prv x))"
    using lseg_head [OF l(1)] by (cases bs) (auto simp: unlink_prev_def)
  then show "plinks (unlink_prev nxt prv x) None (remove1 x xs)" using p(2) r by simp
  show "prv x = None \<longleftrightarrow> h = Some x"
    using p(1) l(2) assms(1,3) xs by (cases as) auto
  show "q \<in> set xs \<and> q \<noteq> x" if "prv x = Some q" for q
    using that p(1) assms(3) xs by (auto split: if_splits)
  show "q \<in> set xs \<and> q \<noteq> x" if "nxt x = Some q" for q
    using that lseg_head [OF l(1)] assms(3) xs by (cases bs) auto
qed

end
