(* ===== verification/Tlv.thy ===== *)
theory Tlv
  imports Prelude
begin

text \<open>
  The interface of a type-length-value encoding, shared by the PPPoE tags and the RADIUS
  attributes: what one encoder and one decoder step promise each other, and what follows for
  whole lists of elements.
\<close>

function decs :: "(u8 list \<Rightarrow> ('a \<times> u8 list) option) \<Rightarrow> u8 list \<Rightarrow> 'a list option" where
  "decs dec bs =
     (if bs = [] then Some []
      else case dec bs of
          None \<Rightarrow> None
        | Some (a, r) \<Rightarrow> if length r < length bs then map_option (Cons a) (decs dec r) else None)"
  by pat_completeness auto

termination
  by (relation "measure (length \<circ> snd)") auto

declare decs.simps [simp del]

lemma decs_Nil [simp]: "decs dec [] = Some []"
  by (simp add: decs.simps)

definition encs :: "('a \<Rightarrow> u8 list) \<Rightarrow> 'a list \<Rightarrow> u8 list" where
  "encs enc xs = concat (map enc xs)"

lemma encs_simps [simp]:
  "encs enc [] = []" "encs enc (x # xs) = enc x @ encs enc xs"
  "encs enc (xs @ ys) = encs enc xs @ encs enc ys"
  by (simp_all add: encs_def)

locale tlv_codec =
  fixes enc :: "'a \<Rightarrow> u8 list"
    and dec :: "u8 list \<Rightarrow> ('a \<times> u8 list) option"
    and ok :: "'a \<Rightarrow> bool"
  assumes dec_enc: "ok a \<Longrightarrow> dec (enc a @ r) = Some (a, r)"
    and enc_nonempty: "enc a \<noteq> []"
    and dec_sound: "dec bs = Some (a, r) \<Longrightarrow> ok a \<and> bs = enc a @ r"
begin

lemma decs_encs: "\<forall>a \<in> set as. ok a \<Longrightarrow> decs dec (encs enc as) = Some as"
proof (induction as)
  case (Cons a as)
  have "length (encs enc as) < length (enc a @ encs enc as)" using enc_nonempty by simp
  then show ?case using Cons enc_nonempty
    by (subst decs.simps) (simp add: dec_enc)
qed simp

lemma decs_sound: "decs dec bs = Some as \<Longrightarrow> bs = encs enc as \<and> (\<forall>a \<in> set as. ok a)"
proof (induction bs arbitrary: as rule: measure_induct_rule [where f = length])
  case (less bs)
  show ?case
  proof (cases "bs = []")
    case True
    then show ?thesis using less.prems by simp
  next
    case False
    then obtain a r as' where "dec bs = Some (a, r)" "length r < length bs"
      "decs dec r = Some as'" "as = a # as'"
      using less.prems by (subst (asm) decs.simps) (auto split: option.splits if_splits)
    then show ?thesis using less.IH dec_sound by fastforce
  qed
qed

text \<open>Decoding and encoding are inverse to each other on well-formed elements.\<close>

lemma decs_iff: "decs dec bs = Some as \<longleftrightarrow> bs = encs enc as \<and> (\<forall>a \<in> set as. ok a)"
  using decs_encs decs_sound by blast

end

end
