(* ===== verification/Pppoe_Packet.thy ===== *)
theory Pppoe_Packet
  imports Tlv
begin

text \<open>
  PPPoE packets and what the client, the server and the relay share
  (\<open>rg/pkg/pppoe-server/src/common.c\<close> and \<open>pppoe.h\<close>): stepping through the tags of a discovery
  packet, the TCP checksum and the clamping of the MSS option, and the PADT packet.
  A packet is the C structure with \<open>length\<close> read by \<open>ntohs\<close>; the payload is the buffer behind the
  header, the session number is the 16-bit field as it is stored. Log messages are left out.
\<close>

section \<open>Packets and tags\<close>

definition ETH_DATA_LEN :: nat where "ETH_DATA_LEN = 1500"
definition TAG_HDR_SIZE :: nat where "TAG_HDR_SIZE = 4"
definition HDR_SIZE :: nat where "HDR_SIZE = 20"
definition MAX_PPPOE_PAYLOAD :: nat where "MAX_PPPOE_PAYLOAD = 1494"

definition TAG_END_OF_LIST :: nat where "TAG_END_OF_LIST = 0x0000"
definition TAG_SERVICE_NAME :: nat where "TAG_SERVICE_NAME = 0x0101"
definition TAG_AC_NAME :: nat where "TAG_AC_NAME = 0x0102"
definition TAG_HOST_UNIQ :: nat where "TAG_HOST_UNIQ = 0x0103"
definition TAG_AC_COOKIE :: nat where "TAG_AC_COOKIE = 0x0104"
definition TAG_RELAY_SESSION_ID :: nat where "TAG_RELAY_SESSION_ID = 0x0110"
definition TAG_HURL :: nat where "TAG_HURL = 0x0111"
definition TAG_MOTM :: nat where "TAG_MOTM = 0x0112"
definition TAG_SERVICE_NAME_ERROR :: nat where "TAG_SERVICE_NAME_ERROR = 0x0201"
definition TAG_AC_SYSTEM_ERROR :: nat where "TAG_AC_SYSTEM_ERROR = 0x0202"
definition TAG_GENERIC_ERROR :: nat where "TAG_GENERIC_ERROR = 0x0203"

lemmas pppoe_consts = ETH_DATA_LEN_def TAG_HDR_SIZE_def HDR_SIZE_def MAX_PPPOE_PAYLOAD_def

lemmas tag_consts = TAG_END_OF_LIST_def TAG_SERVICE_NAME_def TAG_AC_NAME_def TAG_HOST_UNIQ_def
  TAG_AC_COOKIE_def TAG_RELAY_SESSION_ID_def TAG_HURL_def TAG_MOTM_def TAG_SERVICE_NAME_ERROR_def
  TAG_AC_SYSTEM_ERROR_def TAG_GENERIC_ERROR_def

definition CODE_PADI :: u8 where "CODE_PADI = 0x09"
definition CODE_PADO :: u8 where "CODE_PADO = 0x07"
definition CODE_PADR :: u8 where "CODE_PADR = 0x19"
definition CODE_PADS :: u8 where "CODE_PADS = 0x65"
definition CODE_PADT :: u8 where "CODE_PADT = 0xA7"
definition CODE_PADM :: u8 where "CODE_PADM = 0xD3"
definition CODE_SESS :: u8 where "CODE_SESS = 0x00"

type_synonym mac = "u8 list"

record PPPoEPacket =
  h_dest :: mac
  h_source :: mac
  h_proto :: nat
  ver :: u8
  ptype :: u8
  code :: u8
  session :: u16
  plen :: nat
  payload :: "u8 list"

text \<open>A tag: its type and its payload, whose length is the length field.\<close>

record PPPoETag =
  tag_type :: nat
  tag_data :: "u8 list"

definition tag_bytes :: "PPPoETag \<Rightarrow> u8 list" where
  "tag_bytes t = [hi8 (tag_type t), lo8 (tag_type t),
     hi8 (length (tag_data t)), lo8 (length (tag_data t))] @ tag_data t"

definition NOT_UNICAST :: "mac \<Rightarrow> bool" where
  "NOT_UNICAST e = (e ! 0 AND 1 \<noteq> 0)"

definition NOT_BROADCAST :: "mac \<Rightarrow> bool" where
  "NOT_BROADCAST e = ((e ! 0 AND e ! 1 AND e ! 2 AND e ! 3 AND e ! 4 AND e ! 5) \<noteq> 0xFF)"

section \<open>parsePacket and findTag\<close>

text \<open>
  The loops over the tags. Four bytes are read at the cursor before anything is checked. The
  callback of \<open>parsePacket\<close> is a function on the state behind \<open>extra\<close>; it gets the type and the
  \<open>tagLen\<close> bytes of the tag.
\<close>

function parsePacket_loop ::
  "(nat \<Rightarrow> u8 list \<Rightarrow> 's \<Rightarrow> 's) \<Rightarrow> u8 list \<Rightarrow> nat \<Rightarrow> nat \<Rightarrow> 's \<Rightarrow> (int \<times> 's) option" where
  "parsePacket_loop func buf len cur s =
     (if cur < len then
        Option.bind (rd_be16 buf cur) (\<lambda>tagType.
        Option.bind (rd_be16 buf (cur + 2)) (\<lambda>tagLen.
          if tagType = TAG_END_OF_LIST then Some (0, s)
          else if cur + tagLen + TAG_HDR_SIZE > len then Some (- 1, s)
          else Option.bind (rd_bytes buf (cur + TAG_HDR_SIZE) tagLen) (\<lambda>d.
            parsePacket_loop func buf len (cur + TAG_HDR_SIZE + tagLen) (func tagType d s))))
      else Some (0, s))"
  by pat_completeness auto

termination
  by (relation "measure (\<lambda>(f, b, len, cur, s). len - cur)") (auto simp: TAG_HDR_SIZE_def)

definition parsePacket ::
  "PPPoEPacket \<Rightarrow> (nat \<Rightarrow> u8 list \<Rightarrow> 's \<Rightarrow> 's) \<Rightarrow> 's \<Rightarrow> (int \<times> 's) option" where
  "parsePacket packet func extra =
     (if ver packet \<noteq> 1 then Some (- 1, extra)
      else if ptype packet \<noteq> 1 then Some (- 1, extra)
      else if plen packet > ETH_DATA_LEN - 6 then Some (- 1, extra)
      else parsePacket_loop func (payload packet) (plen packet) 0 extra)"

text \<open>
  \<open>findTag\<close> returns the offset of the tag in the payload and the copy it makes of the tag;
  the inner \<open>None\<close> is the NULL pointer.
\<close>

function findTag_loop :: "u8 list \<Rightarrow> nat \<Rightarrow> nat \<Rightarrow> nat \<Rightarrow> (nat \<times> PPPoETag) option option" where
  "findTag_loop buf len type cur =
     (if cur < len then
        Option.bind (rd_be16 buf cur) (\<lambda>tagType.
        Option.bind (rd_be16 buf (cur + 2)) (\<lambda>tagLen.
          if tagType = TAG_END_OF_LIST then Some None
          else if cur + tagLen + TAG_HDR_SIZE > len then Some None
          else if tagType = type then
            Option.bind (rd_bytes buf (cur + TAG_HDR_SIZE) tagLen) (\<lambda>d.
              Some (Some (cur, \<lparr>tag_type = tagType, tag_data = d\<rparr>)))
          else findTag_loop buf len type (cur + TAG_HDR_SIZE + tagLen)))
      else Some None)"
  by pat_completeness auto

termination
  by (relation "measure (\<lambda>(b, len, t, cur). len - cur)") (auto simp: TAG_HDR_SIZE_def)

definition findTag :: "PPPoEPacket \<Rightarrow> nat \<Rightarrow> (nat \<times> PPPoETag) option option" where
  "findTag packet type =
     (if ver packet \<noteq> 1 then Some None
      else if ptype packet \<noteq> 1 then Some None
      else if plen packet > ETH_DATA_LEN - 6 then Some None
      else findTag_loop (payload packet) (plen packet) type 0)"

declare parsePacket_loop.simps [simp del] findTag_loop.simps [simp del]

section \<open>The tag list of a packet\<close>

definition tag_ok :: "PPPoETag \<Rightarrow> bool" where
  "tag_ok t \<longleftrightarrow> 0 < tag_type t \<and> tag_type t < 65536 \<and> length (tag_data t) < 65536"

definition dec_tag :: "u8 list \<Rightarrow> (PPPoETag \<times> u8 list) option" where
  "dec_tag bs =
     (case bs of
        a # b # c # d # r \<Rightarrow>
          if be16 a b = TAG_END_OF_LIST \<or> length r < be16 c d then None
          else Some (\<lparr>tag_type = be16 a b, tag_data = take (be16 c d) r\<rparr>, drop (be16 c d) r)
      | _ \<Rightarrow> None)"

interpretation pppoe: tlv_codec tag_bytes dec_tag tag_ok
proof
  fix a r assume "tag_ok a"
  then show "dec_tag (tag_bytes a @ r) = Some (a, r)"
    by (auto simp: tag_ok_def tag_bytes_def dec_tag_def TAG_END_OF_LIST_def)
next
  fix a show "tag_bytes a \<noteq> []" by (simp add: tag_bytes_def)
next
  fix bs a r assume "dec_tag bs = Some (a, r)"
  then show "tag_ok a \<and> bs = tag_bytes a @ r"
    by (auto simp: dec_tag_def tag_ok_def tag_bytes_def TAG_END_OF_LIST_def
        min_absorb2 not_less split: list.splits if_splits)
qed


definition tags_of :: "PPPoEPacket \<Rightarrow> PPPoETag list option" where
  "tags_of p = decs dec_tag (take (plen p) (payload p))"

definition pkt_ok :: "PPPoEPacket \<Rightarrow> bool" where
  "pkt_ok p \<longleftrightarrow> ver p = 1 \<and> ptype p = 1 \<and> plen p \<le> MAX_PPPOE_PAYLOAD \<and> plen p \<le> length (payload p)"

lemma rd_tag_bytes:
  assumes "tag_ok t"
  shows "rd_be16 (pre @ tag_bytes t @ post) (length pre) = Some (tag_type t)"
    "rd_be16 (pre @ tag_bytes t @ post) (length pre + 2) = Some (length (tag_data t))"
    "rd_bytes (pre @ tag_bytes t @ post) (length pre + TAG_HDR_SIZE) (length (tag_data t)) = Some (tag_data t)"
  using assms
  by (simp_all add: tag_bytes_def tag_ok_def rd_be16_def rd_bytes_def TAG_HDR_SIZE_def nth_append)

lemma parsePacket_loop_tags:
  "\<forall>t \<in> set ts. tag_ok t \<Longrightarrow>
   parsePacket_loop func (pre @ encs tag_bytes ts @ post) (length pre + length (encs tag_bytes ts)) (length pre) s =
   Some (0, fold (\<lambda>t. func (tag_type t) (tag_data t)) ts s)"
proof (induction ts arbitrary: pre s)
  case Nil
  then show ?case by (simp add: parsePacket_loop.simps)
next
  case (Cons t ts)
  have ok: "tag_ok t" "tag_type t \<noteq> TAG_END_OF_LIST" using Cons.prems by (auto simp: tag_ok_def TAG_END_OF_LIST_def)
  have l: "length (tag_bytes t) = TAG_HDR_SIZE + length (tag_data t)" by (simp add: tag_bytes_def TAG_HDR_SIZE_def)
  have "parsePacket_loop func ((pre @ tag_bytes t) @ encs tag_bytes ts @ post)
      (length (pre @ tag_bytes t) + length (encs tag_bytes ts)) (length (pre @ tag_bytes t))
      (func (tag_type t) (tag_data t) s) =
      Some (0, fold (\<lambda>t. func (tag_type t) (tag_data t)) ts (func (tag_type t) (tag_data t) s))"
    by (rule Cons.IH) (use Cons.prems in simp)
  moreover have "0 < TAG_HDR_SIZE" by (simp add: TAG_HDR_SIZE_def)
  ultimately show ?case
    using rd_tag_bytes [OF ok(1), of pre "encs tag_bytes ts @ post"] ok
    by (subst parsePacket_loop.simps) (simp add: l algebra_simps)
qed

lemma findTag_loop_tags:
  "\<forall>t \<in> set ts. tag_ok t \<Longrightarrow>
   findTag_loop (pre @ encs tag_bytes ts @ post) (length pre + length (encs tag_bytes ts)) type (length pre) =
   Some (case List.find (\<lambda>t. tag_type t = type) ts of
       None \<Rightarrow> None
     | Some t \<Rightarrow> Some (length pre + length (encs tag_bytes (takeWhile (\<lambda>t. tag_type t \<noteq> type) ts)), t))"
proof (induction ts arbitrary: pre)
  case Nil
  then show ?case by (simp add: findTag_loop.simps)
next
  case (Cons t ts)
  have ok: "tag_ok t" "tag_type t \<noteq> TAG_END_OF_LIST" using Cons.prems by (auto simp: tag_ok_def TAG_END_OF_LIST_def)
  have l: "length (tag_bytes t) = TAG_HDR_SIZE + length (tag_data t)" by (simp add: tag_bytes_def TAG_HDR_SIZE_def)
  have "findTag_loop ((pre @ tag_bytes t) @ encs tag_bytes ts @ post)
      (length (pre @ tag_bytes t) + length (encs tag_bytes ts)) type (length (pre @ tag_bytes t)) =
      Some (case List.find (\<lambda>t. tag_type t = type) ts of
       None \<Rightarrow> None
     | Some u \<Rightarrow> Some (length (pre @ tag_bytes t) + length (encs tag_bytes (takeWhile (\<lambda>t. tag_type t \<noteq> type) ts)), u))"
    by (rule Cons.IH) (use Cons.prems in simp)
  moreover have "0 < TAG_HDR_SIZE" by (simp add: TAG_HDR_SIZE_def)
  ultimately show ?case
    using rd_tag_bytes [OF ok(1), of pre "encs tag_bytes ts @ post"] ok
    by (subst findTag_loop.simps) (simp add: l algebra_simps split: option.split)
qed

lemma tags_of_split:
  assumes "tags_of p = Some ts" "plen p \<le> length (payload p)"
  shows "payload p = [] @ encs tag_bytes ts @ drop (plen p) (payload p)"
    "plen p = length [] + length (encs tag_bytes ts)" "\<forall>t \<in> set ts. tag_ok t"
proof -
  have d: "take (plen p) (payload p) = encs tag_bytes ts \<and> (\<forall>t \<in> set ts. tag_ok t)"
    using assms(1) pppoe.decs_iff unfolding tags_of_def by blast
  then show "\<forall>t \<in> set ts. tag_ok t" by blast
  have e: "encs tag_bytes ts = take (plen p) (payload p)" using d by simp
  show "payload p = [] @ encs tag_bytes ts @ drop (plen p) (payload p)"
    "plen p = length [] + length (encs tag_bytes ts)"
    using assms(2) unfolding e by simp_all
qed

lemma parsePacket_tags:
  assumes "pkt_ok p" "tags_of p = Some ts"
  shows "parsePacket p func s = Some (0, fold (\<lambda>t. func (tag_type t) (tag_data t)) ts s)"
proof -
  have l: "plen p \<le> length (payload p)" using assms(1) by (simp add: pkt_ok_def)
  note s = tags_of_split [OF assms(2) l]
  have "parsePacket_loop func (payload p) (plen p) 0 s =
      Some (0, fold (\<lambda>t. func (tag_type t) (tag_data t)) ts s)"
    using parsePacket_loop_tags [OF s(3), of func "[]" "drop (plen p) (payload p)" s] s(1,2) by simp
  then show ?thesis using assms(1)
    by (simp add: parsePacket_def pkt_ok_def pppoe_consts)
qed

lemma findTag_tags:
  assumes "pkt_ok p" "tags_of p = Some ts"
  shows "findTag p type = Some (case List.find (\<lambda>t. tag_type t = type) ts of
       None \<Rightarrow> None
     | Some t \<Rightarrow> Some (length (encs tag_bytes (takeWhile (\<lambda>t. tag_type t \<noteq> type) ts)), t))"
proof -
  have l: "plen p \<le> length (payload p)" using assms(1) by (simp add: pkt_ok_def)
  note s = tags_of_split [OF assms(2) l]
  have "findTag_loop (payload p) (plen p) type 0 = Some (case List.find (\<lambda>t. tag_type t = type) ts of
       None \<Rightarrow> None
     | Some t \<Rightarrow> Some (length (encs tag_bytes (takeWhile (\<lambda>t. tag_type t \<noteq> type) ts)), t))"
    using findTag_loop_tags [OF s(3), of "[]" "drop (plen p) (payload p)" type] s(1,2)
    by (cases "List.find (\<lambda>t. tag_type t = type) ts") simp_all
  then show ?thesis using assms(1)
    by (simp add: findTag_def pkt_ok_def pppoe_consts)
qed

text \<open>
  No access outside the buffer: the loops read at most three bytes behind the tags, which the
  1500-byte payload of the structure always has.
\<close>

lemma parsePacket_loop_safe:
  "len + 3 \<le> length buf \<Longrightarrow> parsePacket_loop func buf len cur s \<noteq> None"
proof (induction func buf len cur s rule: parsePacket_loop.induct)
  case (1 func buf len cur s)
  show ?case
  proof (cases "cur < len")
    case True
    then have r: "rd_be16 buf cur = Some (be16 (buf ! cur) (buf ! (cur + 1)))"
      "rd_be16 buf (cur + 2) = Some (be16 (buf ! (cur + 2)) (buf ! (cur + 3)))"
      using "1.prems" rd_be16_in [of cur buf] rd_be16_in [of "cur + 2" buf] by (simp_all add: numeral_3_eq_3)
    show ?thesis
      using 1 True r by (subst parsePacket_loop.simps) (simp add: TAG_HDR_SIZE_def)
  qed (simp add: parsePacket_loop.simps)
qed

lemma findTag_loop_safe:
  "len + 3 \<le> length buf \<Longrightarrow> findTag_loop buf len type cur \<noteq> None"
proof (induction buf len type cur rule: findTag_loop.induct)
  case (1 buf len type cur)
  show ?case
  proof (cases "cur < len")
    case True
    then have r: "rd_be16 buf cur = Some (be16 (buf ! cur) (buf ! (cur + 1)))"
      "rd_be16 buf (cur + 2) = Some (be16 (buf ! (cur + 2)) (buf ! (cur + 3)))"
      using "1.prems" rd_be16_in [of cur buf] rd_be16_in [of "cur + 2" buf] by (simp_all add: numeral_3_eq_3)
    show ?thesis
      using 1 True r by (subst findTag_loop.simps) (simp add: TAG_HDR_SIZE_def)
  qed (simp add: findTag_loop.simps)
qed

lemma findTag_safe:
  "plen p + 3 \<le> length (payload p) \<or> length (payload p) = ETH_DATA_LEN \<Longrightarrow> findTag p type \<noteq> None"
  using findTag_loop_safe [of "plen p" "payload p"] by (auto simp: findTag_def pppoe_consts)

lemma parsePacket_safe:
  "plen p + 3 \<le> length (payload p) \<or> length (payload p) = ETH_DATA_LEN \<Longrightarrow> parsePacket p func s \<noteq> None"
  using parsePacket_loop_safe [of "plen p" "payload p"] by (auto simp: parsePacket_def pppoe_consts)

text \<open>What \<open>findTag\<close> returns lies inside the payload and has the type asked for.\<close>

lemma findTag_loop_sound:
  "findTag_loop buf len type cur = Some (Some (loc, t)) \<Longrightarrow>
   cur \<le> loc \<and> loc + TAG_HDR_SIZE + length (tag_data t) \<le> len \<and> tag_type t = type \<and>
   loc + TAG_HDR_SIZE + length (tag_data t) \<le> length buf \<and>
   tag_data t = take (length (tag_data t)) (drop (loc + TAG_HDR_SIZE) buf)"
proof (induction buf len type cur rule: findTag_loop.induct)
  case (1 buf len type cur)
  from "1.prems" obtain ty l where c: "cur < len" "rd_be16 buf cur = Some ty" "rd_be16 buf (cur + 2) = Some l"
    "ty \<noteq> TAG_END_OF_LIST" "\<not> len < cur + l + TAG_HDR_SIZE"
    by (subst (asm) findTag_loop.simps) (auto simp: bind_eq_Some_conv split: if_splits)
  show ?case
  proof (cases "ty = type")
    case True
    then show ?thesis using "1.prems" c
      by (subst (asm) findTag_loop.simps) (auto simp: bind_eq_Some_conv rd_bytes_def split: if_splits)
  next
    case False
    then have "findTag_loop buf len type (cur + TAG_HDR_SIZE + l) = Some (Some (loc, t))"
      using "1.prems" c by (subst (asm) findTag_loop.simps) simp
    then show ?thesis using "1.IH" [OF c] False by fastforce
  qed
qed


section \<open>The TCP checksum\<close>

text \<open>
  A 16-bit load, in the byte order of the machine: \<open>big\<close> is whether it is big-endian. The sum is
  kept in 32 bits.
\<close>

definition ld16 :: "bool \<Rightarrow> u8 \<Rightarrow> u8 \<Rightarrow> nat" where
  "ld16 big a b = (if big then be16 a b else be16 b a)"

definition st16 :: "bool \<Rightarrow> nat \<Rightarrow> u8 list" where
  "st16 big n = (if big then [hi8 n, lo8 n] else [lo8 n, hi8 n])"

definition add32 :: "nat \<Rightarrow> nat \<Rightarrow> nat" where
  "add32 a b = (a + b) mod 4294967296"

function sum_words :: "bool \<Rightarrow> u8 list \<Rightarrow> nat \<Rightarrow> nat \<Rightarrow> nat \<Rightarrow> nat option" where
  "sum_words big buf addr count acc =
     (if count > 1 then
        Option.bind (rd buf addr) (\<lambda>a.
        Option.bind (rd buf (addr + 1)) (\<lambda>b.
          sum_words big buf (addr + 2) (count - 2) (add32 acc (ld16 big a b))))
      else if count > 0 then
        Option.bind (rd buf addr) (\<lambda>a. Some (add32 acc (unat a)))
      else Some acc)"
  by pat_completeness auto

termination
  by (relation "measure (\<lambda>(big, b, addr, count, acc). count)") auto

declare sum_words.simps [simp del]

lemma fold_sum_less: "acc div 65536 \<noteq> (0::nat) \<Longrightarrow> acc mod 65536 + acc div 65536 < acc"
  using div_mult_mod_eq [of acc 65536] by linarith

function fold_sum :: "nat \<Rightarrow> nat" where
  "fold_sum acc = (if acc div 65536 \<noteq> 0 then fold_sum (acc mod 65536 + acc div 65536) else acc)"
  by pat_completeness auto

termination
  by (relation "measure id") (use fold_sum_less in auto)

declare fold_sum.simps [simp del]

definition pseudoHeader :: "u8 list \<Rightarrow> nat \<Rightarrow> nat \<Rightarrow> u8 list option" where
  "pseudoHeader buf ipHdr count =
     Option.bind (rd_bytes buf (ipHdr + 12) 8) (\<lambda>addrs.
     Option.bind (rd buf (ipHdr + 9)) (\<lambda>proto.
       Some (addrs @ [0, proto, word_of_nat (count div 256), word_of_nat count])))"

definition computeTCPChecksum :: "bool \<Rightarrow> u8 list \<Rightarrow> nat \<Rightarrow> nat \<Rightarrow> nat option" where
  "computeTCPChecksum big buf ipHdr tcpHdr =
     Option.bind (rd_be16 buf (ipHdr + 2)) (\<lambda>total.
     Option.bind (rd buf ipHdr) (\<lambda>vihl.
       let count = unat ((word_of_nat total :: u16) - word_of_nat (unat (vihl AND 0x0F) * 4)) in
     Option.bind (pseudoHeader buf ipHdr count) (\<lambda>ps.
     Option.bind (sum_words big ps 0 12 0) (\<lambda>acc.
     Option.bind (sum_words big buf tcpHdr count acc) (\<lambda>acc.
       Some (65535 - fold_sum acc))))))"

section \<open>Clamping the maximum segment size\<close>

datatype mss_search = Mss_at nat | No_mss | Bogus_option

function find_mss :: "u8 list \<Rightarrow> nat \<Rightarrow> nat \<Rightarrow> mss_search option" where
  "find_mss buf opt endHdr =
     (if opt < endHdr then
        Option.bind (rd buf opt) (\<lambda>kind.
          if kind = 0 then Some No_mss
          else if kind = 1 then find_mss buf (opt + 1) endHdr
          else Option.bind (rd buf (opt + 1)) (\<lambda>l.
            if kind = 2 then (if l \<noteq> 4 then Some Bogus_option else Some (Mss_at opt))
            else if l < 2 then Some Bogus_option
            else find_mss buf (opt + unat l) endHdr))
      else Some No_mss)"
  by pat_completeness auto

termination
  by (relation "measure (\<lambda>(b, opt, e). e - opt)") (auto simp: word_less_nat_alt)

declare find_mss.simps [simp del]

text \<open>
  \<open>clampMss\<close> is an \<open>int\<close> that the comparison converts to \<open>unsigned\<close>. The result is the payload
  after the call.
\<close>

definition ppp_ipv4_start :: "u8 list \<Rightarrow> nat option option" where
  "ppp_ipv4_start buf =
     Option.bind (rd buf 0) (\<lambda>p0.
       if p0 AND 0x01 \<noteq> 0 then Some (if p0 \<noteq> 0x21 then None else Some 1)
       else if p0 \<noteq> 0x00 then Some None
       else Option.bind (rd buf 1) (\<lambda>p1. Some (if p1 \<noteq> 0x21 then None else Some 2)))"

definition clampMSS :: "bool \<Rightarrow> PPPoEPacket \<Rightarrow> u32 \<Rightarrow> u8 list option" where
  "clampMSS big packet clampMss =
     (let buf = payload packet in
      Option.bind (ppp_ipv4_start buf) (\<lambda>start. case start of None \<Rightarrow> Some buf | Some ipHdr \<Rightarrow>
      if plen packet < 40 + ipHdr then Some buf else
      Option.bind (rd buf ipHdr) (\<lambda>vihl. if vihl AND 0xF0 \<noteq> 0x40 then Some buf else
      Option.bind (rd buf (ipHdr + 6)) (\<lambda>frag_hi. if frag_hi AND 0x1F \<noteq> 0 then Some buf else
      Option.bind (rd buf (ipHdr + 7)) (\<lambda>frag_lo. if frag_lo \<noteq> 0 then Some buf else
      Option.bind (rd buf (ipHdr + 9)) (\<lambda>proto. if proto \<noteq> 0x06 then Some buf else
      let tcpHdr = ipHdr + unat (vihl AND 0x0F) * 4 in
      Option.bind (rd buf (tcpHdr + 13)) (\<lambda>flags. if flags AND 0x02 = 0 then Some buf else
      Option.bind (computeTCPChecksum big buf ipHdr tcpHdr) (\<lambda>csum. if csum \<noteq> 0 then Some buf else
      Option.bind (rd buf (tcpHdr + 12)) (\<lambda>off.
      Option.bind (find_mss buf (tcpHdr + 20) (tcpHdr + unat (drop_bit 2 (off AND 0xF0)))) (\<lambda>r.
      case r of No_mss \<Rightarrow> Some buf | Bogus_option \<Rightarrow> Some buf | Mss_at mssopt \<Rightarrow>
      Option.bind (rd_be16 buf (mssopt + 2)) (\<lambda>mss. if mss \<le> unat clampMss then Some buf else
      Option.bind (wr_bytes buf (mssopt + 2) [ucast (drop_bit 8 clampMss), ucast clampMss]) (\<lambda>buf1.
      Option.bind (wr_bytes buf1 (tcpHdr + 16) [0, 0]) (\<lambda>buf2.
      Option.bind (computeTCPChecksum big buf2 ipHdr tcpHdr) (\<lambda>csum2.
      wr_bytes buf2 (tcpHdr + 16) (st16 big csum2)))))))))))))))"

section \<open>The sum of the words\<close>

lemma fold_sum_bound: "fold_sum n < 65536"
  by (induction n rule: fold_sum.induct) (subst fold_sum.simps, auto)

lemma fold_sum_mod: "fold_sum n mod 65535 = n mod 65535"
proof (induction n rule: fold_sum.induct)
  case (1 n)
  have "(n mod 65536 + n div 65536) mod 65535 = n mod 65535"
  proof -
    have "n = n mod 65536 + n div 65536 + 65535 * (n div 65536)" using div_mult_mod_eq [of n 65536] by linarith
    then show ?thesis by (metis mod_mult_self2)
  qed
  then show ?case using 1 by (subst fold_sum.simps) auto
qed

lemma fold_sum_eq_0: "fold_sum n = 0 \<longleftrightarrow> n = 0"
proof (induction n rule: fold_sum.induct)
  case (1 n)
  then show ?case by (subst fold_sum.simps) (use div_mult_mod_eq [of n 65536] in auto)
qed

text \<open>The weight of byte \<open>i\<close> of \<open>n\<close> bytes in the sum.\<close>

definition byte_weight :: "bool \<Rightarrow> nat \<Rightarrow> nat \<Rightarrow> nat" where
  "byte_weight big n i = (if i + 1 = n \<and> even i then 1 else if even i = big then 256 else 1)"

definition byte_sum :: "bool \<Rightarrow> u8 list \<Rightarrow> nat" where
  "byte_sum big bs = (\<Sum>i < length bs. byte_weight big (length bs) i * unat (bs ! i))"

lemma byte_weight_shift: "byte_weight big (n + 2) (i + 2) = byte_weight big n i"
  by (auto simp: byte_weight_def)

lemma byte_sum_Nil [simp]: "byte_sum big [] = 0"
  by (simp add: byte_sum_def)

lemma byte_sum_single [simp]: "byte_sum big [a] = unat a"
  by (simp add: byte_sum_def byte_weight_def)

lemma byte_sum_Cons2 [simp]: "byte_sum big (a # b # bs) = ld16 big a b + byte_sum big bs"
proof -
  have "byte_sum big (a # b # bs) =
      (\<Sum>i < Suc (Suc (length bs)). byte_weight big (length bs + 2) i * unat ((a # b # bs) ! i))"
    by (simp add: byte_sum_def)
  also have "\<dots> = byte_weight big (length bs + 2) 0 * unat a + byte_weight big (length bs + 2) 1 * unat b +
      (\<Sum>i < length bs. byte_weight big (length bs + 2) (i + 2) * unat (bs ! i))"
    by (simp add: sum.lessThan_Suc_shift del: sum.lessThan_Suc)
  also have "(\<Sum>i < length bs. byte_weight big (length bs + 2) (i + 2) * unat (bs ! i)) = byte_sum big bs"
    unfolding byte_sum_def byte_weight_shift ..
  finally show ?thesis by (simp add: byte_weight_def ld16_def be16_def)
qed

lemma byte_sum_bound: "byte_sum big bs \<le> 32768 * (length bs + 1)"
proof (induction bs rule: induct_list012)
  case (2 x)
  then show ?case using unat_u8_lt [of x] by (simp del: unat_u8_lt)
next
  case (3 x y zs)
  have "ld16 big x y < 65536" by (simp add: ld16_def)
  then show ?case using 3 by simp
qed simp

lemma sum_words_byte_sum:
  assumes "addr + count \<le> length buf" "acc + 32768 * (count + 1) < 4294967296"
  shows "sum_words big buf addr count acc = Some (acc + byte_sum big (take count (drop addr buf)))"
  using assms
proof (induction big buf addr count acc rule: sum_words.induct)
  case (1 big buf addr count acc)
  consider "count = 0" | "count = 1" | "count \<ge> 2" by linarith
  then show ?case
  proof cases
    case 1
    then show ?thesis by (simp add: sum_words.simps)
  next
    case 2
    then have "take 1 (drop addr buf) = [buf ! addr]"
      using "1.prems" by (simp add: take_Suc hd_drop_conv_nth del: One_nat_def) (simp add: take_Suc hd_drop_conv_nth)
    then show ?thesis using 2 "1.prems" unat_u8_lt [of "buf ! addr"]
      by (simp add: sum_words.simps add32_def del: unat_u8_lt)
  next
    case 3
    let ?a = "buf ! addr" and ?b = "buf ! (addr + 1)"
    have l: "ld16 big ?a ?b < 65536" by (simp add: ld16_def)
    have d: "drop addr buf = ?a # ?b # drop (addr + 2) buf"
      using 3 "1.prems" by (simp add: Cons_nth_drop_Suc)
    obtain c where c: "count = c + 2" using 3 by (metis le_Suc_ex add.commute)
    have "sum_words big buf (addr + 2) (count - 2) (add32 acc (ld16 big ?a ?b)) =
        Some (add32 acc (ld16 big ?a ?b) + byte_sum big (take (count - 2) (drop (addr + 2) buf)))"
      by (rule "1.IH" [of ?a ?b]) (use 3 "1.prems" l in \<open>auto simp: add32_def c\<close>)
    then show ?thesis using 3 "1.prems" l
      by (subst sum_words.simps) (simp add: d c add32_def)
  qed
qed


text \<open>Changing two bytes at an even offset that is not the odd last byte changes one word.\<close>

lemma byte_sum_update:
  assumes "even k" "k + 1 < length bs"
  shows "byte_sum big (bs[k := a, k + 1 := b]) + ld16 big (bs ! k) (bs ! (k + 1)) =
    byte_sum big bs + ld16 big a b"
  using assms
proof (induction bs arbitrary: k rule: induct_list012)
  case (3 x y zs)
  show ?case
  proof (cases k)
    case 0
    then show ?thesis by simp
  next
    case (Suc m)
    then obtain j where j: "k = j + 2" using 3 by (cases m) auto
    then show ?thesis using "3.IH"(1) [of j] "3.prems" by simp
  qed
qed simp_all

lemma ld16_st16: "n < 65536 \<Longrightarrow> ld16 big (st16 big n ! 0) (st16 big n ! 1) = n"
  by (simp add: ld16_def st16_def)

lemma length_st16 [simp]: "length (st16 big n) = 2"
  by (simp add: st16_def)

text \<open>Storing the complement of the folded sum makes the sum fold to all ones.\<close>

lemma fold_sum_complement:
  assumes "0 < s"
  shows "fold_sum (s + (65535 - fold_sum s)) = 65535"
proof -
  let ?t = "s + (65535 - fold_sum s)"
  have b: "fold_sum s \<le> 65535" using fold_sum_bound [of s] by simp
  have "?t mod 65535 = (fold_sum s + (65535 - fold_sum s)) mod 65535"
    using fold_sum_mod [of s] by (metis mod_add_left_eq)
  then have "?t mod 65535 = 0" using b by simp
  then have "fold_sum ?t mod 65535 = 0" by (simp add: fold_sum_mod)
  moreover have "fold_sum ?t \<noteq> 0" using assms by (simp add: fold_sum_eq_0)
  moreover have "fold_sum ?t \<le> 65535" using fold_sum_bound [of ?t] by simp
  ultimately show ?thesis by (metis dvd_imp_le le_antisym mod_0_imp_dvd neq0_conv)
qed

lemma pseudoHeader_length: "pseudoHeader buf ipHdr count = Some ps \<Longrightarrow> length ps = 12"
  by (auto simp: pseudoHeader_def bind_eq_Some_conv rd_bytes_def split: if_splits)

definition tcp_count :: "u8 list \<Rightarrow> nat \<Rightarrow> nat" where
  "tcp_count buf ipHdr = unat ((word_of_nat (be16 (buf ! (ipHdr + 2)) (buf ! (ipHdr + 3))) :: u16) -
     word_of_nat (unat (buf ! ipHdr AND 0x0F) * 4))"

lemma tcp_count_lt: "tcp_count buf ipHdr < 65536"
  by (simp add: tcp_count_def)

text \<open>The checksum as a function of the bytes, where they all are in the buffer.\<close>

lemma computeTCPChecksum_eq:
  assumes "ipHdr + 20 \<le> length buf" "tcpHdr + tcp_count buf ipHdr \<le> length buf"
    "pseudoHeader buf ipHdr (tcp_count buf ipHdr) = Some ps"
  shows "computeTCPChecksum big buf ipHdr tcpHdr =
    Some (65535 - fold_sum (byte_sum big ps + byte_sum big (take (tcp_count buf ipHdr) (drop tcpHdr buf))))"
proof -
  have l: "length ps = 12" using assms(3) by (rule pseudoHeader_length)
  have 1: "sum_words big ps 0 12 0 = Some (byte_sum big ps)"
    using sum_words_byte_sum [of 0 12 ps 0 big] l by simp
  have "byte_sum big ps \<le> 32768 * 13" using byte_sum_bound [of big ps] l by simp
  then have 2: "sum_words big buf tcpHdr (tcp_count buf ipHdr) (byte_sum big ps) =
      Some (byte_sum big ps + byte_sum big (take (tcp_count buf ipHdr) (drop tcpHdr buf)))"
    using sum_words_byte_sum [OF assms(2), of "byte_sum big ps" big] tcp_count_lt [of buf ipHdr] by simp
  have "computeTCPChecksum big buf ipHdr tcpHdr =
      Option.bind (pseudoHeader buf ipHdr (tcp_count buf ipHdr)) (\<lambda>ps.
      Option.bind (sum_words big ps 0 12 0) (\<lambda>acc.
      Option.bind (sum_words big buf tcpHdr (tcp_count buf ipHdr) acc) (\<lambda>acc.
       Some (65535 - fold_sum acc))))"
    using assms(1) by (simp add: computeTCPChecksum_def rd_be16_in tcp_count_def numeral_3_eq_3 numeral_2_eq_2 Let_def)
  then show ?thesis using assms(3) 1 2 by simp
qed


lemma sum_words_in:
  "sum_words big buf addr count acc = Some s \<Longrightarrow> count = 0 \<or> addr + count \<le> length buf"
proof (induction big buf addr count acc rule: sum_words.induct)
  case (1 big buf addr count acc)
  consider "count = 0" | "count = 1" | "count \<ge> 2" by linarith
  then show ?case
  proof cases
    case 2
    then show ?thesis using "1.prems"
      by (subst (asm) sum_words.simps) (auto simp: bind_eq_Some_conv rd_def split: if_splits)
  next
    case 3
    then obtain a b where r: "rd buf addr = Some a" "rd buf (addr + 1) = Some b"
      "sum_words big buf (addr + 2) (count - 2) (add32 acc (ld16 big a b)) = Some s"
      using "1.prems" by (subst (asm) sum_words.simps) (auto simp: bind_eq_Some_conv split: if_splits)
    have "count - 2 = 0 \<or> addr + 2 + (count - 2) \<le> length buf"
      by (rule "1.IH" [OF _ r]) (use 3 in simp)
    moreover have "addr + 1 < length buf" using r(2) by (auto simp: rd_def split: if_splits)
    ultimately show ?thesis using 3 by linarith
  qed simp
qed

lemma computeTCPChecksum_in:
  assumes "computeTCPChecksum big buf ipHdr tcpHdr = Some c"
  shows "ipHdr + 20 \<le> length buf" "tcp_count buf ipHdr = 0 \<or> tcpHdr + tcp_count buf ipHdr \<le> length buf"
    "\<exists>ps. pseudoHeader buf ipHdr (tcp_count buf ipHdr) = Some ps"
proof -
  obtain ps acc s where "rd_be16 buf (ipHdr + 2) \<noteq> None" and r: "ipHdr + 3 < length buf"
    and ps: "pseudoHeader buf ipHdr (tcp_count buf ipHdr) = Some ps"
    and s: "sum_words big buf tcpHdr (tcp_count buf ipHdr) acc = Some s"
    using assms
    by (auto simp: computeTCPChecksum_def bind_eq_Some_conv rd_be16_def tcp_count_def Let_def rd_def
        numeral_3_eq_3 numeral_2_eq_2 split: if_splits)
  show "ipHdr + 20 \<le> length buf"
    using ps by (auto simp: pseudoHeader_def bind_eq_Some_conv rd_bytes_def split: if_splits)
  show "tcp_count buf ipHdr = 0 \<or> tcpHdr + tcp_count buf ipHdr \<le> length buf"
    using s by (rule sum_words_in)
  show "\<exists>ps. pseudoHeader buf ipHdr (tcp_count buf ipHdr) = Some ps" using ps by blast
qed

lemma wr_bytes2:
  "wr_bytes buf i [x, y] = (if i + 2 \<le> length buf then Some (buf[i := x, i + 1 := y]) else None)"
proof (cases "i + 2 \<le> length buf")
  case True
  then have "buf = take i buf @ buf ! i # buf ! (i + 1) # drop (i + 2) buf"
    by (simp add: Cons_nth_drop_Suc)
  then obtain p a b q where b: "buf = p @ a # b # q" "length p = i" using True by (metis length_take min_absorb2 add_leD1)
  show ?thesis by (simp add: b wr_bytes_def) (simp add: b(2) [symmetric] list_update_append)
qed (simp add: wr_bytes_def)

lemma find_mss_ge: "find_mss buf opt e = Some (Mss_at m) \<Longrightarrow> opt \<le> m \<and> m < e"
proof (induction buf opt e rule: find_mss.induct)
  case (1 buf opt e)
  show ?case using "1.prems" 1
    by (subst (asm) find_mss.simps) (fastforce simp: bind_eq_Some_conv split: if_splits)
qed

text \<open>The header fields the checksum depends on lie in the 20 bytes of the IP header.\<close>

lemma ip_header_cong:
  assumes "take (ip + 20) buf' = take (ip + 20) buf" "ip + 20 \<le> length buf" "ip + 20 \<le> length buf'"
  shows "tcp_count buf' ip = tcp_count buf ip" "pseudoHeader buf' ip c = pseudoHeader buf ip c"
proof -
  have n: "buf' ! j = buf ! j" if "j < ip + 20" for j
    using assms that by (metis nth_take)
  show "tcp_count buf' ip = tcp_count buf ip" by (simp add: tcp_count_def n)
  have "take 8 (drop (ip + 12) buf') = take 8 (drop (ip + 12) buf)"
    by (rule nth_equalityI) (use assms n in auto)
  then show "pseudoHeader buf' ip c = pseudoHeader buf ip c"
    using assms(2,3) n [of "ip + 9"] by (simp add: pseudoHeader_def)
qed

lemma pseudoHeader_positive:
  assumes "pseudoHeader buf ip c = Some ps" "buf ! (ip + 9) = 6" "ip + 20 \<le> length buf"
  shows "0 < byte_sum big ps"
proof -
  have p: "length ps = 12" "ps ! 9 = 6"
    using assms by (auto simp: pseudoHeader_def bind_eq_Some_conv rd_bytes_def nth_append split: if_splits)
  have "0 < byte_weight big 12 9 * unat (ps ! 9)" by (simp add: p byte_weight_def)
  also have "\<dots> \<le> byte_sum big ps"
    unfolding byte_sum_def p(1) by (rule member_le_sum) auto
  finally show ?thesis .
qed


lemma st16_pair: "st16 big n = [st16 big n ! 0, st16 big n ! 1]"
  by (simp add: st16_def)

lemma rd_Some_iff: "rd b i = Some x \<longleftrightarrow> i < length b \<and> b ! i = x"
  by (auto simp: rd_def)

lemma rd_be16_Some: "rd_be16 b i = Some x \<Longrightarrow> i + 1 < length b \<and> x = be16 (b ! i) (b ! (i + 1))"
  by (auto simp: rd_be16_def bind_eq_Some_conv rd_Some_iff)

lemma bind_SomeE: "Option.bind a f = Some y \<Longrightarrow> (\<And>x. a = Some x \<Longrightarrow> f x = Some y \<Longrightarrow> R) \<Longrightarrow> R"
  by (auto simp: bind_eq_Some_conv)

text \<open>The buffer that \<open>clampMSS\<close> writes, when it writes.\<close>

definition clamped :: "u8 list \<Rightarrow> nat \<Rightarrow> nat \<Rightarrow> u32 \<Rightarrow> u8 list" where
  "clamped buf m tcp clamp = buf[m + 2 := ucast (drop_bit 8 clamp), m + 3 := ucast clamp,
     tcp + 16 := 0, tcp + 17 := 0]"

lemma length_clamped [simp]: "length (clamped buf m tcp clamp) = length buf"
  by (simp add: clamped_def)

lemma clampMSS_rewrites:
  assumes "clampMSS big p clamp = Some buf'" "buf' \<noteq> payload p"
  obtains ip tcp m csum2 where "ppp_ipv4_start (payload p) = Some (Some ip)"
    "tcp = ip + unat (payload p ! ip AND 0x0F) * 4" "payload p ! (ip + 9) = 6"
    "computeTCPChecksum big (payload p) ip tcp = Some 0" "tcp + 20 \<le> m" "m + 4 \<le> length (payload p)"
    "unat clamp < be16 (payload p ! (m + 2)) (payload p ! (m + 3))"
    "computeTCPChecksum big (clamped (payload p) m tcp clamp) ip tcp = Some csum2"
    "buf' = (clamped (payload p) m tcp clamp)[tcp + 16 := st16 big csum2 ! 0, tcp + 17 := st16 big csum2 ! 1]"
proof -
  have guard: R if "(if c then Some (payload p) else t) = Some buf'" "\<not> c \<Longrightarrow> t = Some buf' \<Longrightarrow> R" for c t R
    using that assms(2) by (simp split: if_splits)
  have start: R if "(case s of None \<Rightarrow> Some (payload p) | Some x \<Rightarrow> t x) = Some buf'"
    "\<And>x. s = Some x \<Longrightarrow> t x = Some buf' \<Longrightarrow> R" for s :: "nat option" and t R
    using that assms(2) by (cases s) simp_all
  have mss_at: R if "(case s of Mss_at x \<Rightarrow> t x | No_mss \<Rightarrow> Some (payload p) | Bogus_option \<Rightarrow> Some (payload p)) = Some buf'"
    "\<And>x. s = Mss_at x \<Longrightarrow> t x = Some buf' \<Longrightarrow> R" for s t R
    using that assms(2) by (cases s) simp_all
  from assms(1) obtain ip m off mss csum2 buf1 buf2 where
    s: "ppp_ipv4_start (payload p) = Some (Some ip)" "payload p ! (ip + 9) = 6" and
    c: "computeTCPChecksum big (payload p) ip (ip + unat (payload p ! ip AND 0x0F) * 4) = Some 0" and
    f: "find_mss (payload p) (ip + unat (payload p ! ip AND 0x0F) * 4 + 20)
        (ip + unat (payload p ! ip AND 0x0F) * 4 + off) = Some (Mss_at m)" and
    mss: "rd_be16 (payload p) (m + 2) = Some mss" "\<not> mss \<le> unat clamp" and
    w1: "wr_bytes (payload p) (m + 2) [ucast (drop_bit 8 clamp), ucast clamp] = Some buf1" and
    w2: "wr_bytes buf1 (ip + unat (payload p ! ip AND 0x0F) * 4 + 16) [0, 0] = Some buf2" and
    c2: "computeTCPChecksum big buf2 ip (ip + unat (payload p ! ip AND 0x0F) * 4) = Some csum2" and
    w3: "wr_bytes buf2 (ip + unat (payload p ! ip AND 0x0F) * 4 + 16) (st16 big csum2) = Some buf'"
    unfolding clampMSS_def Let_def
    by (elim bind_SomeE guard start mss_at) (simp only: rd_Some_iff not_not simp_thms)
  define tcp where "tcp = ip + unat (payload p ! ip AND 0x0F) * 4"
  note d = tcp_def [symmetric]
  have b2: "buf2 = clamped (payload p) m tcp clamp"
    using w1 w2 unfolding d by (auto simp: wr_bytes2 clamped_def numeral_3_eq_3 add.commute [of tcp] split: if_splits)
  have l: "m + 4 \<le> length (payload p)" using w1 by (auto simp: wr_bytes2 split: if_splits)
  have "wr_bytes buf2 (tcp + 16) [st16 big csum2 ! 0, st16 big csum2 ! 1] = Some buf'"
    using w3 unfolding d by (simp only: st16_pair [symmetric])
  then have b': "buf' = buf2[tcp + 16 := st16 big csum2 ! 0, tcp + 17 := st16 big csum2 ! 1]"
    by (auto simp: wr_bytes2 add.commute [of tcp] split: if_splits)
  have g: "unat clamp < be16 (payload p ! (m + 2)) (payload p ! (m + 3))"
    using rd_be16_Some [OF mss(1)] mss(2) by (simp add: numeral_3_eq_3)
  show thesis
    by (rule that [OF s(1) tcp_def s(2) c [unfolded d] _ l g c2 [unfolded d b2] b' [unfolded b2]])
      (use find_mss_ge [OF f [unfolded d]] in simp)
qed

text \<open>
  C12: clamping keeps the checksum right. Whenever \<open>clampMSS\<close> changes a packet with a full IP header
  and a TCP header that covers its checksum field, the packet it leaves has a TCP checksum that
  verifies, in either byte order.
\<close>

theorem clampMSS_checksum_valid:
  assumes "clampMSS big p clamp = Some buf'" "buf' \<noteq> payload p"
    and "ppp_ipv4_start (payload p) = Some (Some ip)"
    and "5 \<le> unat (payload p ! ip AND 0x0F)" "18 \<le> tcp_count (payload p) ip"
  shows "length buf' = length (payload p) \<and>
    computeTCPChecksum big buf' ip (ip + unat (payload p ! ip AND 0x0F) * 4) = Some 0"
proof -
  let ?buf = "payload p"
  let ?n = "tcp_count ?buf ip"
  obtain ip' tcp m csum2 where r: "ppp_ipv4_start ?buf = Some (Some ip')"
    "tcp = ip' + unat (?buf ! ip' AND 0x0F) * 4" and p6': "?buf ! (ip' + 9) = 6"
    and c0': "computeTCPChecksum big ?buf ip' tcp = Some 0"
    and m: "tcp + 20 \<le> m" "m + 4 \<le> length ?buf"
    and c2': "computeTCPChecksum big (clamped ?buf m tcp clamp) ip' tcp = Some csum2"
    and b': "buf' = (clamped ?buf m tcp clamp)[tcp + 16 := st16 big csum2 ! 0, tcp + 17 := st16 big csum2 ! 1]"
    by (rule clampMSS_rewrites [OF assms(1,2)])
  have ip: "ip' = ip" using r(1) assms(3) by simp
  have t: "ip + 20 \<le> tcp" using assms(4) r(2) unfolding ip by linarith
  have e: "ip + unat (?buf ! ip AND 0x0F) * 4 = tcp" using r(2) unfolding ip by simp
  note p6 = p6' [unfolded ip] and c0 = c0' [unfolded ip] and c2 = c2' [unfolded ip]
  let ?b2 = "clamped ?buf m tcp clamp"
  have in0: "ip + 20 \<le> length ?buf" "tcp + ?n \<le> length ?buf"
    using computeTCPChecksum_in [OF c0] assms(5) by auto
  have k2: "take (ip + 20) ?b2 = take (ip + 20) ?buf" using t m by (simp add: clamped_def)
  have k3: "take (ip + 20) buf' = take (ip + 20) ?buf" using t m by (simp add: b' clamped_def)
  have len: "length buf' = length ?buf" by (simp add: b')
  note cong2 = ip_header_cong [OF k2 in0(1)] and cong3 = ip_header_cong [OF k3 in0(1)]
  obtain ps where ps: "pseudoHeader ?buf ip ?n = Some ps" using computeTCPChecksum_in(3) [OF c0] by blast
  let ?r2 = "take ?n (drop tcp ?b2)"
  let ?s2 = "byte_sum big ps + byte_sum big ?r2"
  have csum2: "csum2 = 65535 - fold_sum ?s2"
    using computeTCPChecksum_eq [of ip ?b2 tcp ps big] c2 in0 ps cong2 by simp
  have lr: "length ?r2 = ?n" using in0 by simp
  have z: "?r2 ! 16 = 0" "?r2 ! 17 = 0" using assms(5) in0 m by (simp_all add: clamped_def nth_list_update)
  have r3: "take ?n (drop tcp buf') = ?r2[16 := st16 big csum2 ! 0, 17 := st16 big csum2 ! 1]"
    using in0 by (simp add: b' drop_update_swap take_update_swap)
  have "byte_sum big (?r2[16 := st16 big csum2 ! 0, 16 + 1 := st16 big csum2 ! 1]) +
      ld16 big (?r2 ! 16) (?r2 ! (16 + 1)) =
      byte_sum big ?r2 + ld16 big (st16 big csum2 ! 0) (st16 big csum2 ! 1)"
    by (rule byte_sum_update) (use assms(5) lr in auto)
  moreover have u: "ld16 big (st16 big csum2 ! 0) (st16 big csum2 ! 1) = csum2"
    by (rule ld16_st16) (simp add: csum2)
  moreover have z0: "ld16 big 0 0 = 0" by (simp add: ld16_def be16_def)
  ultimately have s3: "byte_sum big (take ?n (drop tcp buf')) = byte_sum big ?r2 + csum2"
    using z u z0 unfolding r3 by simp
  have "0 < byte_sum big ps" using pseudoHeader_positive [OF ps p6 in0(1)] .
  then have "fold_sum (?s2 + csum2) = 65535" unfolding csum2 by (intro fold_sum_complement) simp
  then have "computeTCPChecksum big buf' ip tcp = Some 0"
    using computeTCPChecksum_eq [of ip buf' tcp ps big] in0 len ps cong3 by (simp add: s3 add.assoc)
  then show ?thesis using len unfolding e by simp
qed


definition demo_syn :: PPPoEPacket where
  "demo_syn = \<lparr>h_dest = [0, 1, 2, 3, 4, 5], h_source = [6, 7, 8, 9, 10, 11], h_proto = 0x8864,
     ver = 1, ptype = 1, code = CODE_SESS, session = 1, plen = 46,
     payload = [0, 33, 69, 0, 0, 44, 0, 1, 0, 0, 64, 6, 0, 0, 10, 0, 0, 1, 10, 0, 0, 2, 4, 210, 0, 80, 0, 0, 0, 1, 0, 0, 0, 0, 96, 2, 32, 0, 95, 1, 0, 0, 2, 4, 5, 180]\<rparr>"

theorem clampMSS_checksum_valid_witness:
  "\<exists>buf'. clampMSS False demo_syn 1412 = Some buf' \<and> buf' \<noteq> payload demo_syn \<and>
     computeTCPChecksum False buf' 2 22 = Some 0"
proof -
  have "map_option (\<lambda>b. b \<noteq> payload demo_syn) (clampMSS False demo_syn 1412) = Some True" by code_simp
  then obtain b where b: "clampMSS False demo_syn 1412 = Some b" "b \<noteq> payload demo_syn" by auto
  have h: "ppp_ipv4_start (payload demo_syn) = Some (Some 2)" "5 \<le> unat (payload demo_syn ! 2 AND 0x0F)"
    "18 \<le> tcp_count (payload demo_syn) 2" by code_simp+
  have "2 + unat (payload demo_syn ! 2 AND 0x0F) * 4 = 22" by code_simp
  then show ?thesis using clampMSS_checksum_valid [OF b h] b by metis
qed

text \<open>
  C15: the parser reads back what the senders write. The payload that is the concatenation of the
  tags \<open>ts\<close>, followed by anything, is parsed by calling the callback once for each tag, in order,
  and \<open>findTag\<close> finds the first tag of the type asked for.
\<close>

theorem parse_written_tags:
  assumes "ver p = 1" "ptype p = 1" "\<forall>t \<in> set ts. tag_ok t"
    and "payload p = encs tag_bytes ts @ rest" "plen p = length (encs tag_bytes ts)"
    and "plen p \<le> MAX_PPPOE_PAYLOAD"
  shows "parsePacket p func s = Some (0, fold (\<lambda>t. func (tag_type t) (tag_data t)) ts s) \<and>
    map_option (map_option snd) (findTag p ty) = Some (List.find (\<lambda>t. tag_type t = ty) ts)"
proof
  have ok: "pkt_ok p" using assms by (simp add: pkt_ok_def)
  have ts: "tags_of p = Some ts" using assms pppoe.decs_encs by (simp add: tags_of_def)
  show "parsePacket p func s = Some (0, fold (\<lambda>t. func (tag_type t) (tag_data t)) ts s)"
    using parsePacket_tags [OF ok ts] .
  show "map_option (map_option snd) (findTag p ty) = Some (List.find (\<lambda>t. tag_type t = ty) ts)"
    using findTag_tags [OF ok ts, of ty] by (cases "List.find (\<lambda>t. tag_type t = ty) ts") simp_all
qed

definition demo_tags :: "PPPoETag list" where
  "demo_tags = [\<lparr>tag_type = TAG_SERVICE_NAME, tag_data = []\<rparr>,
     \<lparr>tag_type = TAG_HOST_UNIQ, tag_data = [1, 2, 3, 4]\<rparr>]"

definition demo_padi :: PPPoEPacket where
  "demo_padi = \<lparr>h_dest = replicate 6 255, h_source = [6, 7, 8, 9, 10, 11], h_proto = 0x8863,
     ver = 1, ptype = 1, code = CODE_PADI, session = 0, plen = length (encs tag_bytes demo_tags),
     payload = encs tag_bytes demo_tags @ replicate 30 0\<rparr>"

theorem parse_written_tags_witness:
  "parsePacket demo_padi (\<lambda>ty d acc. (ty, d) # acc) [] =
     Some (0, [(TAG_HOST_UNIQ, [1, 2, 3, 4]), (TAG_SERVICE_NAME, [])])"
proof -
  have "parsePacket demo_padi (\<lambda>ty d acc. (ty, d) # acc) [] =
      Some (0, fold (\<lambda>t acc. (tag_type t, tag_data t) # acc) demo_tags [])"
    by (rule parse_written_tags [where rest = "replicate 30 0", THEN conjunct1])
      (auto simp: demo_padi_def demo_tags_def tag_ok_def tag_bytes_def pppoe_consts tag_consts)
  then show ?thesis by (simp add: demo_tags_def)
qed

text \<open>
  C16: parsing any received discovery packet stays inside the packet structure: whatever the bytes
  and the length field are, \<open>parsePacket\<close> and \<open>findTag\<close> never read outside the 1500-byte payload,
  and the tag that \<open>findTag\<close> returns lies within the length field.
\<close>

theorem parse_memory_safe:
  assumes "length (payload p) = ETH_DATA_LEN"
  shows "parsePacket p func s \<noteq> None \<and> findTag p ty \<noteq> None \<and>
    (\<forall>loc t. findTag p ty = Some (Some (loc, t)) \<longrightarrow>
       tag_type t = ty \<and> loc + TAG_HDR_SIZE + length (tag_data t) \<le> plen p \<and> plen p \<le> MAX_PPPOE_PAYLOAD)"
proof -
  have "tag_type t = ty \<and> loc + TAG_HDR_SIZE + length (tag_data t) \<le> plen p \<and> plen p \<le> MAX_PPPOE_PAYLOAD"
    if "findTag p ty = Some (Some (loc, t))" for loc t
  proof -
    have l: "findTag_loop (payload p) (plen p) ty 0 = Some (Some (loc, t))" "plen p \<le> MAX_PPPOE_PAYLOAD"
      using that by (simp_all add: findTag_def pppoe_consts split: if_splits)
    then show ?thesis using findTag_loop_sound [OF l(1)] by blast
  qed
  moreover have "parsePacket p func s \<noteq> None" by (rule parsePacket_safe) (simp add: assms)
  moreover have "findTag p ty \<noteq> None" by (rule findTag_safe) (simp add: assms)
  ultimately show ?thesis by blast
qed

theorem parse_memory_safe_witness:
  "findTag (demo_padi\<lparr>plen := 1494, payload := replicate 1493 0 @ replicate 7 255\<rparr>) TAG_HURL \<noteq> None"
  by (rule parse_memory_safe [THEN conjunct2, THEN conjunct1]) (simp add: ETH_DATA_LEN_def)

end
