(* ===== verification/Pppoe_Relay.thy ===== *)
theory Pppoe_Relay
  imports Linked_Lists Pppoe_Packet
begin

text \<open>
  The PPPoE relay of the kernel (\<open>rg/pkg/pppoe-server/src/relay.c\<close> and \<open>relay.h\<close>). The session
  and hash arrays are functions from indices, their \<open>next\<close>, \<open>prev\<close> and \<open>peer\<close> pointers are indices
  (\<open>None\<close> is NULL), the interface list is a list of nodes with an identity. A received \<open>sk_buff\<close>
  is the packet whose \<open>payload\<close> holds everything behind the PPPoE header up to \<open>m->len\<close>. Frames
  handed to \<open>dev_queue_xmit\<close> are appended to \<open>sent\<close>. The clock and the results of the kernel's
  allocators are in the environment. A result \<open>None\<close> is a run that reads behind the packet or
  does not return. Log messages, freeing of packets and the interface statistics are left out.
\<close>

section \<open>State\<close>

record net_device =
  dev_id :: nat
  ifindex :: u32
  dev_addr :: mac
  if_up :: bool

record pppoe_if_t =
  if_id :: nat
  dev :: net_device
  acOK :: bool
  clientOK :: bool

record PPPoESession =
  ses_next :: "nat option"
  ses_prev :: "nat option"
  acHash :: nat
  clientHash :: nat
  epoch :: u32
  ses_sesNum :: u16

record SessionHash =
  h_next :: "nat option"
  h_prev :: "nat option"
  peer :: nat
  interface :: net_device
  peerMac :: mac
  h_sesNum :: u16
  ses :: nat

record relay =
  if_head :: "pppoe_if_t list"
  NumSessions :: nat
  MaxSessions :: nat
  AllSessions :: "nat \<Rightarrow> PPPoESession"
  FreeSessions :: "nat option"
  ActiveSessions :: "nat option"
  AllHashes :: "nat \<Rightarrow> SessionHash"
  FreeHashes :: "nat option"
  Buckets :: "nat \<Rightarrow> nat option"
  sent :: "(net_device \<times> PPPoEPacket) list"

record relay_env =
  jiffies :: u32
  big_endian :: bool
  padto_ok :: bool
  copy_ok :: "nat \<Rightarrow> bool"
  skb_ok :: bool

definition HASHTAB_SIZE :: nat where "HASHTAB_SIZE = 18917"
definition MY_RELAY_TAG_LEN :: nat where "MY_RELAY_TAG_LEN = 14"
definition JUNGO_RELAY_MAGIC :: u32 where "JUNGO_RELAY_MAGIC = 0xA0C00C1E"

text \<open>How an \<open>int\<close> lies in memory.\<close>

definition int_bytes :: "bool \<Rightarrow> u32 \<Rightarrow> u8 list" where
  "int_bytes big w =
     (let b = [ucast (drop_bit 24 w), ucast (drop_bit 16 w), ucast (drop_bit 8 w), ucast w]
      in if big then b else rev b)"

definition bytes_int :: "bool \<Rightarrow> u8 list \<Rightarrow> u32" where
  "bytes_int big bs =
     (let b = (if big then bs else rev bs)
      in push_bit 24 (ucast (b ! 0)) OR push_bit 16 (ucast (b ! 1)) OR
         push_bit 8 (ucast (b ! 2)) OR ucast (b ! 3))"

definition upd_ses :: "nat \<Rightarrow> (PPPoESession \<Rightarrow> PPPoESession) \<Rightarrow> relay \<Rightarrow> relay" where
  "upd_ses i f st = st\<lparr>AllSessions := (AllSessions st)(i := f (AllSessions st i))\<rparr>"

definition upd_hash :: "nat \<Rightarrow> (SessionHash \<Rightarrow> SessionHash) \<Rightarrow> relay \<Rightarrow> relay" where
  "upd_hash i f st = st\<lparr>AllHashes := (AllHashes st)(i := f (AllHashes st i))\<rparr>"

definition relay_enqueue :: "net_device \<Rightarrow> PPPoEPacket \<Rightarrow> relay \<Rightarrow> relay" where
  "relay_enqueue dst m st = st\<lparr>sent := sent st @ [(dst, m)]\<rparr>"

section \<open>Tags and packet bytes\<close>

definition relay_findTag :: "PPPoEPacket \<Rightarrow> nat \<Rightarrow> (nat \<times> PPPoETag) option option" where
  "relay_findTag packet type = findTag packet type"

text \<open>\<open>addTag\<close> appends the tag behind the PPPoE payload; \<open>None\<close> is the return value -1.\<close>

definition addTag :: "relay_env \<Rightarrow> PPPoEPacket \<Rightarrow> PPPoETag \<Rightarrow> PPPoEPacket option" where
  "addTag env m tag =
     (let len = length (tag_data tag) + TAG_HDR_SIZE in
      if len + plen m > MAX_PPPOE_PAYLOAD then None
      else if \<not> padto_ok env then None
      else
        let data = payload m @ replicate (plen m + len - length (payload m)) 0 in
        Some (m\<lparr>payload := take (plen m) data @ tag_bytes tag @ drop (plen m + len) data,
               plen := (plen m + len) mod 65536\<rparr>))"

definition insertBytes :: "PPPoEPacket \<Rightarrow> nat \<Rightarrow> u8 list \<Rightarrow> (int \<times> PPPoEPacket) option" where
  "insertBytes packet loc bytes =
     (if loc > plen packet \<or> length bytes + plen packet > MAX_PPPOE_PAYLOAD then Some (- 1, packet)
      else
        Option.bind (rd_bytes (payload packet) loc (plen packet - loc)) (\<lambda>moved.
        Option.bind (wr_bytes (payload packet) loc (bytes @ moved)) (\<lambda>p.
          Some (int (length bytes),
                packet\<lparr>payload := p, plen := (plen packet + length bytes) mod 65536\<rparr>))))"

definition removeBytes :: "PPPoEPacket \<Rightarrow> nat \<Rightarrow> nat \<Rightarrow> (int \<times> PPPoEPacket) option" where
  "removeBytes packet loc len =
     (if len > plen packet \<or> loc + len > plen packet then Some (- 1, packet)
      else
        Option.bind (rd_bytes (payload packet) (loc + len) (plen packet - loc - len)) (\<lambda>moved.
        Option.bind (wr_bytes (payload packet) loc moved) (\<lambda>p.
          Some (int len, packet\<lparr>payload := p, plen := (plen packet - len) mod 65536\<rparr>))))"

section \<open>Interfaces\<close>

text \<open>The node that \<open>kmalloc\<close> returns is an argument.\<close>

definition relayAddInterface ::
  "nat option \<Rightarrow> net_device \<Rightarrow> bool \<Rightarrow> bool \<Rightarrow> relay \<Rightarrow> int \<times> relay" where
  "relayAddInterface node d client ac st =
     (case node of
        None \<Rightarrow> (- 1, st)
      | Some i \<Rightarrow>
          (0, st\<lparr>if_head := \<lparr>if_id = i, dev = d, acOK = ac, clientOK = client\<rparr> # if_head st\<rparr>))"

fun remove_if :: "nat \<Rightarrow> pppoe_if_t list \<Rightarrow> pppoe_if_t list" where
  "remove_if d [] = []"
| "remove_if d (n # ns) = (if dev_id (dev n) \<noteq> d then n # remove_if d ns else ns)"

definition relayRemoveInterface :: "net_device \<Rightarrow> relay \<Rightarrow> relay" where
  "relayRemoveInterface d st = st\<lparr>if_head := remove_if (dev_id d) (if_head st)\<rparr>"

definition pppoe_relay_dev_get :: "net_device \<Rightarrow> relay \<Rightarrow> pppoe_if_t option" where
  "pppoe_relay_dev_get d st = List.find (\<lambda>n. dev_id (dev n) = dev_id d) (if_head st)"

definition relayInterfacesClear :: "relay \<Rightarrow> relay" where
  "relayInterfacesClear st = st\<lparr>if_head := []\<rparr>"

text \<open>The lookup by interface index that the PADO, PADR and PADS handlers share.\<close>

definition if_by_index :: "u32 \<Rightarrow> relay \<Rightarrow> pppoe_if_t option" where
  "if_by_index i st = List.find (\<lambda>n. ifindex (dev n) = i) (if_head st)"

section \<open>Sessions\<close>

text \<open>
  \<open>initRelay\<close> fills arrays that \<open>kmalloc\<close> has returned with arbitrary contents, which are those of
  \<open>st\<close>.
\<close>

definition initRelay :: "bool \<Rightarrow> bool \<Rightarrow> bool \<Rightarrow> nat \<Rightarrow> relay \<Rightarrow> int \<times> relay" where
  "initRelay big ses_ok hash_ok nsess st =
     (let st = st\<lparr>NumSessions := 0, MaxSessions := nsess\<rparr> in
      if \<not> ses_ok then (- 1, st)
      else if \<not> hash_ok then (- 1, st)
      else
        (0, st\<lparr>AllSessions := (\<lambda>i. if i < nsess then (AllSessions st i)
                 \<lparr>ses_prev := (if i = 0 then None else Some (i - 1)),
                  ses_next := (if i + 1 < nsess then Some (i + 1) else None),
                  ses_sesNum := htons big (word_of_nat (i + 1))\<rparr> else AllSessions st i),
               FreeSessions := Some 0, ActiveSessions := None,
               AllHashes := (\<lambda>i. if i < 2 * nsess then (AllHashes st i)
                 \<lparr>h_prev := (if i = 0 then None else Some (i - 1)),
                  h_next := (if i + 1 < 2 * nsess then Some (i + 1) else None)\<rparr> else AllHashes st i),
               FreeHashes := Some 0\<rparr>))"

definition hash :: "mac \<Rightarrow> u16 \<Rightarrow> u32" where
  "hash m sesNum =
     (let ans1 = ucast (m ! 0) OR push_bit 8 (ucast (m ! 1)) OR push_bit 16 (ucast (m ! 2)) OR
                 push_bit 24 (ucast (m ! 3));
          ans2 = ucast sesNum OR push_bit 16 (ucast (m ! 4)) OR push_bit 24 (ucast (m ! 5))
      in ans1 XOR ans2)"

definition bucket :: "mac \<Rightarrow> u16 \<Rightarrow> nat" where
  "bucket m n = unat (hash m n) mod HASHTAB_SIZE"

definition addHash :: "nat \<Rightarrow> relay \<Rightarrow> relay" where
  "addHash sh st =
     (let b = bucket (peerMac (AllHashes st sh)) (h_sesNum (AllHashes st sh));
          st1 = upd_hash sh (\<lambda>h. h\<lparr>h_next := Buckets st b, h_prev := None\<rparr>) st;
          st2 = (case Buckets st b of None \<Rightarrow> st1
                 | Some n \<Rightarrow> upd_hash n (\<lambda>h. h\<lparr>h_prev := Some sh\<rparr>) st1)
      in st2\<lparr>Buckets := (Buckets st2)(b := Some sh)\<rparr>)"

definition unhash :: "nat \<Rightarrow> relay \<Rightarrow> relay" where
  "unhash sh st =
     (let b = bucket (peerMac (AllHashes st sh)) (h_sesNum (AllHashes st sh));
          st1 = (case h_prev (AllHashes st sh) of
              Some p \<Rightarrow> upd_hash p (\<lambda>h. h\<lparr>h_next := h_next (AllHashes st sh)\<rparr>) st
            | None \<Rightarrow> st\<lparr>Buckets := (Buckets st)(b := h_next (AllHashes st sh))\<rparr>);
          st2 = (case h_next (AllHashes st1 sh) of
              Some n \<Rightarrow> upd_hash n (\<lambda>h. h\<lparr>h_prev := h_prev (AllHashes st1 sh)\<rparr>) st1
            | None \<Rightarrow> st1)
      in (upd_hash sh (\<lambda>h. h\<lparr>h_next := FreeHashes st2\<rparr>) st2)\<lparr>FreeHashes := Some sh\<rparr>)"

definition findSession :: "mac \<Rightarrow> u16 \<Rightarrow> bool \<Rightarrow> relay \<Rightarrow> nat option option" where
  "findSession m sesNum ignore_peer st =
     chain_find (\<lambda>h. h_next (AllHashes st h))
       (\<lambda>h. sesNum = h_sesNum (AllHashes st h) \<and> (ignore_peer \<or> m = peerMac (AllHashes st h)))
       (Buckets st (bucket m sesNum))"

text \<open>
  \<open>createSession\<close> in the steps of the source: take a session off the free list and put it in front
  of the active list, take two hash entries off their free list, fill them, enter them in the
  table. The inner \<open>None\<close> of the result is the NULL pointer; the outer \<open>None\<close> is a NULL pointer
  dereferenced.
\<close>

definition take_session :: "u32 \<Rightarrow> nat \<Rightarrow> relay \<Rightarrow> relay" where
  "take_session now s st =
     (let st1 = st\<lparr>FreeSessions := ses_next (AllSessions st s), NumSessions := NumSessions st + 1\<rparr>;
          st2 = upd_ses s (\<lambda>x. x\<lparr>ses_next := ActiveSessions st1\<rparr>) st1;
          st3 = (case ActiveSessions st1 of None \<Rightarrow> st2
                 | Some n \<Rightarrow> upd_ses n (\<lambda>x. x\<lparr>ses_prev := Some s\<rparr>) st2)
      in upd_ses s (\<lambda>x. x\<lparr>ses_prev := None, epoch := now\<rparr>) (st3\<lparr>ActiveSessions := Some s\<rparr>))"

definition fill_hashes ::
  "nat \<Rightarrow> nat \<Rightarrow> nat \<Rightarrow> net_device \<Rightarrow> net_device \<Rightarrow> mac \<Rightarrow> mac \<Rightarrow> u16 \<Rightarrow> relay \<Rightarrow> relay" where
  "fill_hashes s a c ac cli acMac cliMac acSes st =
     (let st1 = upd_ses s (\<lambda>x. x\<lparr>acHash := a, clientHash := c\<rparr>) st;
          st2 = upd_hash a (\<lambda>h. h\<lparr>peer := c, interface := ac, peerMac := acMac, h_sesNum := acSes, ses := s\<rparr>) st1
      in upd_hash c (\<lambda>h. h\<lparr>peer := a, interface := cli, peerMac := cliMac,
                            h_sesNum := ses_sesNum (AllSessions st s), ses := s\<rparr>) st2)"

definition createSession ::
  "relay_env \<Rightarrow> net_device \<Rightarrow> net_device \<Rightarrow> mac \<Rightarrow> mac \<Rightarrow> u16 \<Rightarrow> relay \<Rightarrow> (nat option \<times> relay) option" where
  "createSession env ac cli acMac cliMac acSes st =
     (if NumSessions st \<ge> MaxSessions st then Some (None, st)
      else
        Option.bind (FreeSessions st) (\<lambda>s.
        Option.bind (FreeHashes st) (\<lambda>a.
        Option.bind (h_next (AllHashes st a)) (\<lambda>c.
          let st1 = take_session (jiffies env) s st;
              st2 = st1\<lparr>FreeHashes := h_next (AllHashes st c)\<rparr>;
              st3 = fill_hashes s a c ac cli acMac cliMac acSes st2
          in Some (Some s, addHash c (addHash a st3))))))"

definition unlink_session :: "nat \<Rightarrow> relay \<Rightarrow> relay" where
  "unlink_session s st =
     (let st1 = (case ses_prev (AllSessions st s) of
              Some p \<Rightarrow> upd_ses p (\<lambda>x. x\<lparr>ses_next := ses_next (AllSessions st s)\<rparr>) st
            | None \<Rightarrow> st\<lparr>ActiveSessions := ses_next (AllSessions st s)\<rparr>);
          st2 = (case ses_next (AllSessions st1 s) of
              Some n \<Rightarrow> upd_ses n (\<lambda>x. x\<lparr>ses_prev := ses_prev (AllSessions st1 s)\<rparr>) st1
            | None \<Rightarrow> st1)
      in (upd_ses s (\<lambda>x. x\<lparr>ses_next := FreeSessions st2\<rparr>) st2)\<lparr>FreeSessions := Some s\<rparr>)"

definition freeSession :: "nat \<Rightarrow> relay \<Rightarrow> relay" where
  "freeSession s st =
     (let st1 = unlink_session s st;
          st2 = unhash (acHash (AllSessions st s)) st1;
          st3 = unhash (clientHash (AllSessions st s)) st2
      in st3\<lparr>NumSessions := NumSessions st3 - 1\<rparr>)"


section \<open>Sending\<close>

fun broadcast_loop :: "relay_env \<Rightarrow> nat \<Rightarrow> PPPoEPacket \<Rightarrow> pppoe_if_t list \<Rightarrow> relay \<Rightarrow> relay" where
  "broadcast_loop env src m [] st = st"
| "broadcast_loop env src m (n # ns) st =
     (if if_id n = src \<or> \<not> acOK n \<or> \<not> if_up (dev n) then broadcast_loop env src m ns st
      else if ns \<noteq> [] \<and> \<not> copy_ok env (dev_id (dev n)) then broadcast_loop env src m ns st
      else broadcast_loop env src m ns
             (relay_enqueue (dev n) (m\<lparr>h_source := dev_addr (dev n)\<rparr>) st))"

definition pppoe_relay_broadcast :: "relay_env \<Rightarrow> pppoe_if_t \<Rightarrow> PPPoEPacket \<Rightarrow> relay \<Rightarrow> relay" where
  "pppoe_relay_broadcast env src m st = broadcast_loop env (if_id src) m (if_head st) st"

definition relay_send_packet :: "relay_env \<Rightarrow> net_device \<Rightarrow> PPPoEPacket \<Rightarrow> relay \<Rightarrow> relay" where
  "relay_send_packet env d m st =
     (if skb_ok env then relay_enqueue d (m\<lparr>payload := take (plen m) (payload m)\<rparr>) st else st)"

text \<open>The packet is built in a local structure, whose payload is not initialised (\<open>junk\<close>).\<close>

definition relaySendError ::
  "relay_env \<Rightarrow> u8 \<Rightarrow> u16 \<Rightarrow> net_device \<Rightarrow> mac \<Rightarrow> PPPoETag option \<Rightarrow> u8 list \<Rightarrow> relay \<Rightarrow> relay option" where
  "relaySendError env c sess iface m hostUniq errMsg st =
     (let packet = \<lparr>h_dest = m, h_source = dev_addr iface, h_proto = 0x8863, ver = 1, ptype = 1,
                    code = c, session = sess, plen = 0, payload = replicate ETH_DATA_LEN 0\<rparr> in
      Option.bind (case hostUniq of None \<Rightarrow> Some (0, packet)
                   | Some hu \<Rightarrow> insertBytes packet 0 (tag_bytes hu)) (\<lambda>(r, packet).
        if r < 0 then Some st
        else
          Option.bind (insertBytes packet 0
              (tag_bytes \<lparr>tag_type = TAG_GENERIC_ERROR, tag_data = errMsg\<rparr>)) (\<lambda>(r, packet).
            if r < 0 then Some st
            else Some (relay_send_packet env iface packet st))))"

section \<open>Discovery packets\<close>

definition relayHandlePADT :: "relay_env \<Rightarrow> pppoe_if_t \<Rightarrow> PPPoEPacket \<Rightarrow> relay \<Rightarrow> (int \<times> relay) option" where
  "relayHandlePADT env iface packet st =
     Option.bind (findSession (h_source packet) (session packet) False st) (\<lambda>sh.
       case sh of
         None \<Rightarrow> Some (- 1, st)
       | Some sh \<Rightarrow>
           let sh = peer (AllHashes st sh);
               h = AllHashes st sh;
               m = packet\<lparr>session := h_sesNum h, h_source := dev_addr (interface h), h_dest := peerMac h\<rparr>
           in Some (0, freeSession (ses h) (relay_enqueue (interface h) m st)))"

definition relay_tag :: "relay_env \<Rightarrow> u32 \<Rightarrow> mac \<Rightarrow> PPPoETag" where
  "relay_tag env i m =
     \<lparr>tag_type = TAG_RELAY_SESSION_ID,
      tag_data = int_bytes (big_endian env) i @ m @ int_bytes (big_endian env) JUNGO_RELAY_MAGIC\<rparr>"

definition relayHandlePADI :: "relay_env \<Rightarrow> pppoe_if_t \<Rightarrow> PPPoEPacket \<Rightarrow> relay \<Rightarrow> (int \<times> relay) option" where
  "relayHandlePADI env iface packet st =
     (if \<not> clientOK iface then Some (- 1, st)
      else if NOT_UNICAST (h_source packet) then Some (- 1, st)
      else if NOT_BROADCAST (h_dest packet) then Some (- 1, st)
      else
        Option.bind (relay_findTag packet TAG_RELAY_SESSION_ID) (\<lambda>loc.
          case loc of
            Some _ \<Rightarrow> Some (- 1, st)
          | None \<Rightarrow>
              (case addTag env packet (relay_tag env (ifindex (dev iface)) (h_source packet)) of
                 None \<Rightarrow> Some (- 1, st)
               | Some m \<Rightarrow> Some (0, pppoe_relay_broadcast env iface m st))))"

text \<open>
  The checks on the relay tag of a PADO, PADR or PADS: its length, the magic number, and the
  interface it names. The result is the position of the tag, the tag and the interface node.
\<close>

definition relay_tag_lookup ::
  "relay_env \<Rightarrow> (pppoe_if_t \<Rightarrow> bool) \<Rightarrow> pppoe_if_t \<Rightarrow> PPPoEPacket \<Rightarrow> relay \<Rightarrow>
   (nat \<times> PPPoETag \<times> pppoe_if_t) option option" where
  "relay_tag_lookup env ok iface packet st =
     Option.bind (relay_findTag packet TAG_RELAY_SESSION_ID) (\<lambda>r.
       case r of
         None \<Rightarrow> Some None
       | Some (loc, tag) \<Rightarrow>
           if length (tag_data tag) \<noteq> MY_RELAY_TAG_LEN then Some None
           else if bytes_int (big_endian env) (take 4 (drop 10 (tag_data tag))) \<noteq> JUNGO_RELAY_MAGIC then Some None
           else
             let ifIndex = bytes_int (big_endian env) (take 4 (tag_data tag)) in
             case if_by_index ifIndex st of
               None \<Rightarrow> Some None
             | Some n \<Rightarrow>
                 if ifIndex <s 0 \<or> \<not> ok n \<or> if_id iface = if_id n then Some None
                 else Some (Some (loc, tag, n)))"

text \<open>The tag is overwritten with the one for the opposite direction; the magic number stays.\<close>

definition reverse_relay_tag :: "relay_env \<Rightarrow> nat \<Rightarrow> u32 \<Rightarrow> PPPoEPacket \<Rightarrow> u8 list option" where
  "reverse_relay_tag env loc i packet =
     Option.bind (wr_bytes (payload packet) (loc + TAG_HDR_SIZE) (int_bytes (big_endian env) i)) (\<lambda>p.
       wr_bytes p (loc + TAG_HDR_SIZE + 4) (h_source packet))"

definition relayHandlePADO :: "relay_env \<Rightarrow> pppoe_if_t \<Rightarrow> PPPoEPacket \<Rightarrow> relay \<Rightarrow> (int \<times> relay) option" where
  "relayHandlePADO env iface packet st =
     (if \<not> acOK iface then Some (- 1, st)
      else if NOT_UNICAST (h_source packet) then Some (- 1, st)
      else if h_dest packet \<noteq> dev_addr (dev iface) then Some (- 1, st)
      else
        Option.bind (relay_tag_lookup env clientOK iface packet st) (\<lambda>r.
          case r of
            None \<Rightarrow> Some (- 1, st)
          | Some (loc, tag, n) \<Rightarrow>
              Option.bind (reverse_relay_tag env loc (ifindex (dev iface)) packet) (\<lambda>p.
                let m = packet\<lparr>payload := p, h_dest := take 6 (drop 4 (tag_data tag)),
                               h_source := dev_addr (dev n)\<rparr>
                in Some (0, relay_enqueue (dev n) m st))))"

definition relayHandlePADR :: "relay_env \<Rightarrow> pppoe_if_t \<Rightarrow> PPPoEPacket \<Rightarrow> relay \<Rightarrow> (int \<times> relay) option" where
  "relayHandlePADR env iface packet st =
     (if \<not> clientOK iface then Some (- 1, st)
      else if NOT_UNICAST (h_source packet) then Some (- 1, st)
      else if h_dest packet \<noteq> dev_addr (dev iface) then Some (- 1, st)
      else
        Option.bind (relay_tag_lookup env acOK iface packet st) (\<lambda>r.
          case r of
            None \<Rightarrow> Some (- 1, st)
          | Some (loc, tag, n) \<Rightarrow>
              Option.bind (reverse_relay_tag env loc (ifindex (dev iface)) packet) (\<lambda>p.
                let m = packet\<lparr>payload := p, h_dest := take 6 (drop 4 (tag_data tag)),
                               h_source := dev_addr (dev n)\<rparr>
                in Some (0, relay_enqueue (dev n) m st))))"

definition err_no_session :: "u8 list" where
  "err_no_session = map (\<lambda>c. word_of_nat (of_char c)) ''RP-PPPoE: Relay: Unable to allocate session''"

definition err_idle :: "u8 list" where
  "err_idle = map (\<lambda>c. word_of_nat (of_char c)) ''RP-PPPoE: Relay: Session exceeded idle timeout''"

text \<open>
  The session part of \<open>relayHandlePADS\<close>: the number that replaces the one of the packet, or
  \<open>None\<close> when no session could be made (the errors have then been sent).
\<close>

definition pads_session ::
  "relay_env \<Rightarrow> pppoe_if_t \<Rightarrow> pppoe_if_t \<Rightarrow> nat \<Rightarrow> PPPoEPacket \<Rightarrow> relay \<Rightarrow> (u16 option \<times> relay) option" where
  "pads_session env iface n loc packet st =
     (if session packet = htons (big_endian env) 0 then Some (Some (session packet), st)
      else
        Option.bind (findSession (h_source packet) (session packet) False st) (\<lambda>sh.
          case sh of
            Some sh \<Rightarrow> Some (Some (ses_sesNum (AllSessions st (ses (AllHashes st sh)))), st)
          | None \<Rightarrow>
              Option.bind (rd_bytes (payload packet) (loc + TAG_HDR_SIZE + 4) 6) (\<lambda>cliMac.
              Option.bind (createSession env (dev iface) (dev n) (h_source packet) cliMac (session packet) st)
                (\<lambda>(s, st1).
                  case s of
                    Some s \<Rightarrow> Some (Some (ses_sesNum (AllSessions st1 s)), st1)
                  | None \<Rightarrow>
                      Option.bind (relay_findTag packet TAG_HOST_UNIQ) (\<lambda>hu.
                      Option.bind (relaySendError env CODE_PADS (htons (big_endian env) 0) (dev n) cliMac
                          (map_option snd hu) err_no_session st1) (\<lambda>st2.
                      Option.bind (relaySendError env CODE_PADT (session packet) (dev iface)
                          (h_source packet) None err_no_session st2) (\<lambda>st3.
                        Some (None, st3))))))))"

definition relayHandlePADS :: "relay_env \<Rightarrow> pppoe_if_t \<Rightarrow> PPPoEPacket \<Rightarrow> relay \<Rightarrow> (int \<times> relay) option" where
  "relayHandlePADS env iface packet st =
     (if \<not> acOK iface then Some (- 1, st)
      else if NOT_UNICAST (h_source packet) then Some (- 1, st)
      else if h_dest packet \<noteq> dev_addr (dev iface) then Some (- 1, st)
      else
        Option.bind (relay_tag_lookup env clientOK iface packet st) (\<lambda>r.
          case r of
            None \<Rightarrow> Some (- 1, st)
          | Some (loc, tag, n) \<Rightarrow>
              Option.bind (pads_session env iface n loc packet st) (\<lambda>(num, st1).
                case num of
                  None \<Rightarrow> Some (- 1, st1)
                | Some num \<Rightarrow>
                    Option.bind (removeBytes (packet\<lparr>session := num\<rparr>) loc (MY_RELAY_TAG_LEN + TAG_HDR_SIZE))
                      (\<lambda>(_, m).
                        let m = m\<lparr>h_dest := take 6 (drop 4 (tag_data tag)), h_source := dev_addr (dev n)\<rparr>
                        in Some (0, relay_enqueue (dev n) m st1)))))"

definition relayGotDiscoveryPacket :: "relay_env \<Rightarrow> pppoe_if_t \<Rightarrow> PPPoEPacket \<Rightarrow> relay \<Rightarrow> (int \<times> relay) option" where
  "relayGotDiscoveryPacket env iface m st =
     (if ver m \<noteq> 1 \<or> ptype m \<noteq> 1 then Some (- 1, st)
      else if plen m > length (payload m) then Some (- 1, st)
      else if code m = CODE_PADT then relayHandlePADT env iface m st
      else if code m = CODE_PADI then relayHandlePADI env iface m st
      else if code m = CODE_PADO then relayHandlePADO env iface m st
      else if code m = CODE_PADR then relayHandlePADR env iface m st
      else if code m = CODE_PADS then relayHandlePADS env iface m st
      else Some (- 1, st))"

section \<open>Session packets and the idle timer\<close>

definition relayGotSessionPacket :: "relay_env \<Rightarrow> pppoe_if_t \<Rightarrow> PPPoEPacket \<Rightarrow> relay \<Rightarrow> (int \<times> relay) option" where
  "relayGotSessionPacket env iface packet st =
     (if ver packet \<noteq> 1 \<or> ptype packet \<noteq> 1 then Some (- 1, st)
      else if code packet \<noteq> CODE_SESS then Some (- 1, st)
      else if h_dest packet \<noteq> dev_addr (dev iface) then Some (- 1, st)
      else if plen packet > length (payload packet) then Some (- 1, st)
      else
        Option.bind (findSession (h_source packet) (session packet) False st) (\<lambda>sh.
          case sh of
            None \<Rightarrow> Some (- 1, st)
          | Some sh \<Rightarrow>
              let st1 = upd_ses (ses (AllHashes st sh)) (\<lambda>x. x\<lparr>epoch := jiffies env\<rparr>) st;
                  h = AllHashes st1 (peer (AllHashes st sh));
                  m = packet\<lparr>session := h_sesNum h, h_source := dev_addr (interface h), h_dest := peerMac h\<rparr>
              in Some (0, relay_enqueue (interface h) m st1)))"

definition pppoe_relay_session_exists :: "PPPoEPacket \<Rightarrow> relay \<Rightarrow> int option" where
  "pppoe_relay_session_exists packet st =
     map_option (\<lambda>r. if r \<noteq> None then 1 else 0) (findSession (h_source packet) (session packet) True st)"

text \<open>
  \<open>cleanSessions\<close> walks the active list; the link of a node is read before the node is freed.
\<close>

definition expired :: "u32 \<Rightarrow> u32 \<Rightarrow> u32 \<Rightarrow> bool" where
  "expired now timeout ep \<longleftrightarrow> ep + timeout - now \<le>s 0"

definition clean_one :: "relay_env \<Rightarrow> nat \<Rightarrow> relay \<Rightarrow> relay option" where
  "clean_one env s st =
     (let a = AllHashes st (acHash (AllSessions st s)); c = AllHashes st (clientHash (AllSessions st s)) in
      Option.bind (relaySendError env CODE_PADT (h_sesNum a) (interface a) (peerMac a) None err_idle st) (\<lambda>st1.
      Option.bind (relaySendError env CODE_PADT (h_sesNum c) (interface c) (peerMac c) None err_idle st1) (\<lambda>st2.
        Some (freeSession s st2))))"

partial_function (option) clean_loop ::
  "relay_env \<Rightarrow> u32 \<Rightarrow> nat option \<Rightarrow> u32 \<Rightarrow> relay \<Rightarrow> (u32 \<times> relay) option" where
  "clean_loop env timeout cur mn st =
     (case cur of None \<Rightarrow> Some (mn, st)
      | Some s \<Rightarrow>
          let nxt = ses_next (AllSessions st s); ep = epoch (AllSessions st s) in
          if expired (jiffies env) timeout ep
          then Option.bind (clean_one env s st) (\<lambda>st1. clean_loop env timeout nxt mn st1)
          else clean_loop env timeout nxt (if ep < mn then ep else mn) st)"

definition cleanSessions :: "relay_env \<Rightarrow> u32 \<Rightarrow> relay \<Rightarrow> (u32 \<times> relay) option" where
  "cleanSessions env timeout st =
     Option.bind (clean_loop env timeout (ActiveSessions st) 0xFFFFFFFF st) (\<lambda>(mn, st1).
       Some (if mn = 0xFFFFFFFF then timeout else timeout - (jiffies env - mn), st1))"

definition pppoe_relay_init :: "bool \<Rightarrow> bool \<Rightarrow> bool \<Rightarrow> relay \<Rightarrow> int \<times> relay" where
  "pppoe_relay_init big ses_ok hash_ok st =
     (let (r, st1) = initRelay big ses_ok hash_ok 100 st in (if r \<noteq> 0 then - 12 else 0, st1))"

end
