(* ===== verification/Relay_Sessions.thy ===== *)
theory Relay_Sessions
  imports Pppoe_Relay
begin

text \<open>
  The session tables of the relay: the lists behind the pointers, that every operation keeps
  them, and what the lookup returns.
\<close>

section \<open>The lists behind the pointers\<close>

abbreviation "sn st \<equiv> \<lambda>i. ses_next (AllSessions st i)"
abbreviation "sp st \<equiv> \<lambda>i. ses_prev (AllSessions st i)"
abbreviation "hn st \<equiv> \<lambda>i. h_next (AllHashes st i)"
abbreviation "hp st \<equiv> \<lambda>i. h_prev (AllHashes st i)"

definition hbucket :: "relay \<Rightarrow> nat \<Rightarrow> nat" where
  "hbucket st h = bucket (peerMac (AllHashes st h)) (h_sesNum (AllHashes st h))"

definition ses_lists :: "relay \<Rightarrow> nat list \<Rightarrow> nat list \<Rightarrow> bool" where
  "ses_lists st fs as \<longleftrightarrow>
     lseg (sn st) (FreeSessions st) fs \<and> lseg (sn st) (ActiveSessions st) as \<and>
     plinks (sp st) None as \<and> distinct (fs @ as)"

definition hash_lists :: "relay \<Rightarrow> nat list \<Rightarrow> (nat \<Rightarrow> nat list) \<Rightarrow> bool" where
  "hash_lists st fh bl \<longleftrightarrow>
     lseg (hn st) (FreeHashes st) fh \<and> distinct fh \<and>
     (\<forall>b. lseg (hn st) (Buckets st b) (bl b) \<and> plinks (hp st) None (bl b) \<and> distinct (bl b) \<and>
          set (bl b) \<inter> set fh = {} \<and> (\<forall>h \<in> set (bl b). hbucket st h = b))"

lemma upd_simps [simp]:
  "AllSessions (upd_ses i f st) = (AllSessions st)(i := f (AllSessions st i))"
  "AllHashes (upd_ses i f st) = AllHashes st" "FreeSessions (upd_ses i f st) = FreeSessions st"
  "ActiveSessions (upd_ses i f st) = ActiveSessions st" "FreeHashes (upd_ses i f st) = FreeHashes st"
  "Buckets (upd_ses i f st) = Buckets st" "NumSessions (upd_ses i f st) = NumSessions st"
  "MaxSessions (upd_ses i f st) = MaxSessions st" "if_head (upd_ses i f st) = if_head st"
  "sent (upd_ses i f st) = sent st"
  "AllHashes (upd_hash i g st) = (AllHashes st)(i := g (AllHashes st i))"
  "AllSessions (upd_hash i g st) = AllSessions st" "FreeSessions (upd_hash i g st) = FreeSessions st"
  "ActiveSessions (upd_hash i g st) = ActiveSessions st" "FreeHashes (upd_hash i g st) = FreeHashes st"
  "Buckets (upd_hash i g st) = Buckets st" "NumSessions (upd_hash i g st) = NumSessions st"
  "MaxSessions (upd_hash i g st) = MaxSessions st" "if_head (upd_hash i g st) = if_head st"
  "sent (upd_hash i g st) = sent st"
  by (simp_all add: upd_ses_def upd_hash_def)

lemma enqueue_simps [simp]:
  "AllSessions (relay_enqueue d m st) = AllSessions st" "AllHashes (relay_enqueue d m st) = AllHashes st"
  "FreeSessions (relay_enqueue d m st) = FreeSessions st" "ActiveSessions (relay_enqueue d m st) = ActiveSessions st"
  "FreeHashes (relay_enqueue d m st) = FreeHashes st" "Buckets (relay_enqueue d m st) = Buckets st"
  "NumSessions (relay_enqueue d m st) = NumSessions st" "MaxSessions (relay_enqueue d m st) = MaxSessions st"
  "if_head (relay_enqueue d m st) = if_head st" "sent (relay_enqueue d m st) = sent st @ [(d, m)]"
  by (simp_all add: relay_enqueue_def)

section \<open>The hash table\<close>

lemma addHash_frame [simp]:
  "AllSessions (addHash h st) = AllSessions st" "FreeSessions (addHash h st) = FreeSessions st"
  "ActiveSessions (addHash h st) = ActiveSessions st" "FreeHashes (addHash h st) = FreeHashes st"
  "NumSessions (addHash h st) = NumSessions st" "MaxSessions (addHash h st) = MaxSessions st"
  "if_head (addHash h st) = if_head st" "sent (addHash h st) = sent st"
  "peer (AllHashes (addHash h st) i) = peer (AllHashes st i)"
  "interface (AllHashes (addHash h st) i) = interface (AllHashes st i)"
  "peerMac (AllHashes (addHash h st) i) = peerMac (AllHashes st i)"
  "h_sesNum (AllHashes (addHash h st) i) = h_sesNum (AllHashes st i)"
  "ses (AllHashes (addHash h st) i) = ses (AllHashes st i)"
  by (auto simp: addHash_def Let_def split: option.split)

lemma addHash_links:
  "Buckets (addHash h st) = (Buckets st)(hbucket st h := Some h)"
  "hn (addHash h st) = (hn st)(h := Buckets st (hbucket st h))"
  by (auto simp: addHash_def Let_def hbucket_def fun_eq_iff split: option.split)

lemma addHash_prev:
  "Buckets st (hbucket st h) = None \<Longrightarrow> hp (addHash h st) = (hp st)(h := None)"
  "Buckets st (hbucket st h) = Some n \<Longrightarrow> n \<noteq> h \<Longrightarrow> hp (addHash h st) = (hp st)(h := None, n := Some h)"
  by (auto simp: addHash_def Let_def hbucket_def fun_eq_iff split: option.split)

lemma hbucket_addHash [simp]: "hbucket (addHash h st) i = hbucket st i"
  by (simp add: hbucket_def)

lemma hash_lists_disjoint:
  "hash_lists st fh bl \<Longrightarrow> h \<in> set (bl b) \<Longrightarrow> h \<in> set (bl b') \<Longrightarrow> b = b'"
proof -
  assume a: "hash_lists st fh bl" "h \<in> set (bl b)" "h \<in> set (bl b')"
  have "hbucket st h = c" if "h \<in> set (bl c)" for c using a(1) that by (simp add: hash_lists_def)
  then show "b = b'" using a(2,3) by metis
qed

lemma addHash_lists:
  assumes "hash_lists st fh bl" "h \<notin> set fh" "\<And>b. h \<notin> set (bl b)"
  shows "hash_lists (addHash h st) fh (bl(hbucket st h := h # bl (hbucket st h)))"
proof -
  let ?b0 = "hbucket st h" and ?st = "addHash h st"
  have b0: "lseg (hn st) (Buckets st ?b0) (bl ?b0)" "plinks (hp st) None (bl ?b0)" "distinct (bl ?b0)"
    using assms(1) by (auto simp: hash_lists_def)
  have hd: "Buckets st ?b0 = (case bl ?b0 of [] \<Rightarrow> None | n # _ \<Rightarrow> Some n)" using lseg_head [OF b0(1)] .
  have p: "hp ?st = (case bl ?b0 of [] \<Rightarrow> (hp st)(h := None) | n # _ \<Rightarrow> (hp st)(h := None, n := Some h))"
    using addHash_prev [of st h] hd assms(3) [of ?b0] by (cases "bl ?b0") auto
  have new: "plinks (hp ?st) None (h # bl ?b0)"
    unfolding p using plinks_front [OF b0(2) assms(3) b0(3)] by (cases "bl ?b0") auto
  have other: "plinks (hp ?st) None (bl b)" if "b \<noteq> ?b0" for b
  proof -
    have "hp ?st x = hp st x" if "x \<in> set (bl b)" for x
    proof -
      have "x \<notin> set (bl ?b0)" using that \<open>b \<noteq> ?b0\<close> hash_lists_disjoint assms(1) by blast
      then show ?thesis using that assms(3) [of b] fun_cong [OF p, of x] by (cases "bl ?b0") auto
    qed
    then show ?thesis using assms(1) plinks_cong [of "bl b" "hp ?st" "hp st"] by (auto simp: hash_lists_def)
  qed
  show ?thesis
    unfolding hash_lists_def addHash_links
    using assms b0 new other by (auto simp: hash_lists_def)
qed


lemma unhash_frame [simp]:
  "AllSessions (unhash h st) = AllSessions st" "FreeSessions (unhash h st) = FreeSessions st"
  "ActiveSessions (unhash h st) = ActiveSessions st" "FreeHashes (unhash h st) = Some h"
  "NumSessions (unhash h st) = NumSessions st" "MaxSessions (unhash h st) = MaxSessions st"
  "if_head (unhash h st) = if_head st" "sent (unhash h st) = sent st"
  "peer (AllHashes (unhash h st) i) = peer (AllHashes st i)"
  "interface (AllHashes (unhash h st) i) = interface (AllHashes st i)"
  "peerMac (AllHashes (unhash h st) i) = peerMac (AllHashes st i)"
  "h_sesNum (AllHashes (unhash h st) i) = h_sesNum (AllHashes st i)"
  "ses (AllHashes (unhash h st) i) = ses (AllHashes st i)"
  by (auto simp: unhash_def Let_def split: option.split)

lemma hbucket_unhash [simp]: "hbucket (unhash h st) i = hbucket st i"
  by (simp add: hbucket_def)

lemma unhash_links:
  assumes "hp st h \<noteq> Some h" "hn st h \<noteq> Some h"
  shows "hn (unhash h st) = (unlink_next (hn st) (hp st) h)(h := FreeHashes st)"
    "hp (unhash h st) = unlink_prev (hn st) (hp st) h"
    "Buckets (unhash h st) = (Buckets st)(hbucket st h := unlink_head (Buckets st (hbucket st h)) (hn st) (hp st) h)"
  using assms
  by (auto simp: unhash_def Let_def hbucket_def unlink_next_def unlink_prev_def unlink_head_def fun_eq_iff
      split: option.split)

lemma unhash_lists:
  assumes "hash_lists st fh bl" "h \<in> set (bl b0)"
  shows "hash_lists (unhash h st) (h # fh) (bl(b0 := remove1 h (bl b0)))"
proof -
  let ?st = "unhash h st"
  have hb: "hbucket st h = b0" and l0: "lseg (hn st) (Buckets st b0) (bl b0)"
    and p0: "plinks (hp st) None (bl b0)" and d0: "distinct (bl b0)" "set (bl b0) \<inter> set fh = {}"
    using assms by (auto simp: hash_lists_def)
  note u = unlink_dlist [OF l0 p0 d0(1) assms(2)]
  note links = unhash_links [of st h, unfolded hb]
  have ne: "hp st h \<noteq> Some h" "hn st h \<noteq> Some h" using u(4,5) by blast+
  have r: "set (remove1 h (bl b0)) = set (bl b0) - {h}" using d0(1) by simp
  have nx: "hn ?st x = hn st x" if "x \<notin> set (bl b0)" for x
    using that assms(2) u(4) fun_cong [OF links(1) [OF ne], of x]
    by (cases "hp st h") (auto simp: unlink_next_def)
  have pv: "hp ?st x = hp st x" if "x \<notin> set (bl b0)" for x
    using that u(5) fun_cong [OF links(2) [OF ne], of x]
    by (cases "hn st h") (auto simp: unlink_prev_def)
  have free: "lseg (hn ?st) (Some h) (h # fh)"
  proof -
    have "lseg (hn ?st) (FreeHashes st) fh = lseg (hn st) (FreeHashes st) fh"
      by (rule lseg_cong) (use nx d0(2) in blast)
    moreover have "hn ?st h = FreeHashes st" using fun_cong [OF links(1) [OF ne], of h] by simp
    ultimately show ?thesis using assms(1) by (simp add: hash_lists_def)
  qed
  have b: "lseg (hn ?st) (Buckets ?st b0) (remove1 h (bl b0))" "plinks (hp ?st) None (remove1 h (bl b0))"
    unfolding links [OF ne] using u(1,2) r by simp_all
  have other: "lseg (hn ?st) (Buckets ?st b) (bl b) \<and> plinks (hp ?st) None (bl b)" if "b \<noteq> b0" for b
  proof -
    have disj: "x \<notin> set (bl b0)" if "x \<in> set (bl b)" for x
      using that \<open>b \<noteq> b0\<close> hash_lists_disjoint assms(1) by blast
    have "lseg (hn ?st) (Buckets st b) (bl b) = lseg (hn st) (Buckets st b) (bl b)"
      "plinks (hp ?st) None (bl b) = plinks (hp st) None (bl b)"
      by (rule lseg_cong, use nx disj in blast) (rule plinks_cong, use pv disj in blast)
    then show ?thesis using assms(1) that links(3) [OF ne] by (simp add: hash_lists_def)
  qed
  have dist: "distinct (h # fh)" using assms d0(2) by (auto simp: hash_lists_def)
  have "lseg (hn ?st) (Buckets ?st c) ((bl(b0 := remove1 h (bl b0))) c) \<and>
      plinks (hp ?st) None ((bl(b0 := remove1 h (bl b0))) c) \<and>
      distinct ((bl(b0 := remove1 h (bl b0))) c) \<and>
      set ((bl(b0 := remove1 h (bl b0))) c) \<inter> set (h # fh) = {} \<and>
      (\<forall>x \<in> set ((bl(b0 := remove1 h (bl b0))) c). hbucket ?st x = c)" for c
  proof (cases "c = b0")
    case True
    then show ?thesis using b r d0 hb assms by (auto simp: hash_lists_def)
  next
    case False
    have "h \<notin> set (bl c)" using False hash_lists_disjoint assms by metis
    then show ?thesis using other [OF False] False assms(1) by (auto simp: hash_lists_def)
  qed
  then show ?thesis unfolding hash_lists_def using free dist by auto
qed

section \<open>The session lists\<close>

lemma take_session_frame [simp]:
  "AllHashes (take_session now s st) = AllHashes st" "FreeHashes (take_session now s st) = FreeHashes st"
  "Buckets (take_session now s st) = Buckets st" "MaxSessions (take_session now s st) = MaxSessions st"
  "if_head (take_session now s st) = if_head st" "sent (take_session now s st) = sent st"
  "NumSessions (take_session now s st) = NumSessions st + 1"
  "FreeSessions (take_session now s st) = ses_next (AllSessions st s)"
  "ActiveSessions (take_session now s st) = Some s"
  "acHash (AllSessions (take_session now s st) i) = acHash (AllSessions st i)"
  "clientHash (AllSessions (take_session now s st) i) = clientHash (AllSessions st i)"
  "ses_sesNum (AllSessions (take_session now s st) i) = ses_sesNum (AllSessions st i)"
  by (auto simp: take_session_def Let_def split: option.split)

lemma take_session_links:
  "sn (take_session now s st) = (sn st)(s := ActiveSessions st)"
  "ActiveSessions st = None \<Longrightarrow> sp (take_session now s st) = (sp st)(s := None)"
  "ActiveSessions st = Some n \<Longrightarrow> n \<noteq> s \<Longrightarrow> sp (take_session now s st) = (sp st)(s := None, n := Some s)"
  by (auto simp: take_session_def Let_def fun_eq_iff split: option.split)

lemma take_session_lists:
  assumes "ses_lists st (s # fs) as"
  shows "ses_lists (take_session now s st) fs (s # as)"
proof -
  let ?st = "take_session now s st"
  have f: "lseg (sn st) (ses_next (AllSessions st s)) fs" "lseg (sn st) (ActiveSessions st) as"
    "plinks (sp st) None as" "distinct (s # fs @ as)"
    using assms by (auto simp: ses_lists_def)
  have hd: "ActiveSessions st = (case as of [] \<Rightarrow> None | n # _ \<Rightarrow> Some n)" using lseg_head [OF f(2)] .
  have p: "sp ?st = (case as of [] \<Rightarrow> (sp st)(s := None) | n # _ \<Rightarrow> (sp st)(s := None, n := Some s))"
    using take_session_links(2,3) [of st] hd f(4) by (cases as) auto
  have "plinks (sp ?st) None (s # as)"
    unfolding p using plinks_front [OF f(3), of s] f(4) by (cases as) auto
  moreover have "lseg (sn ?st) (FreeSessions ?st) fs" "lseg (sn ?st) (ActiveSessions ?st) (s # as)"
    unfolding take_session_links(1) using f by simp_all
  ultimately show ?thesis using f(4) by (auto simp: ses_lists_def)
qed

lemma unlink_session_frame [simp]:
  "AllHashes (unlink_session s st) = AllHashes st" "FreeHashes (unlink_session s st) = FreeHashes st"
  "Buckets (unlink_session s st) = Buckets st" "MaxSessions (unlink_session s st) = MaxSessions st"
  "if_head (unlink_session s st) = if_head st" "sent (unlink_session s st) = sent st"
  "NumSessions (unlink_session s st) = NumSessions st"
  "FreeSessions (unlink_session s st) = Some s"
  "acHash (AllSessions (unlink_session s st) i) = acHash (AllSessions st i)"
  "clientHash (AllSessions (unlink_session s st) i) = clientHash (AllSessions st i)"
  "ses_sesNum (AllSessions (unlink_session s st) i) = ses_sesNum (AllSessions st i)"
  "epoch (AllSessions (unlink_session s st) i) = epoch (AllSessions st i)"
  by (auto simp: unlink_session_def Let_def split: option.split)

lemma unlink_session_links:
  assumes "sp st s \<noteq> Some s" "sn st s \<noteq> Some s"
  shows "sn (unlink_session s st) = (unlink_next (sn st) (sp st) s)(s := FreeSessions st)"
    "sp (unlink_session s st) = unlink_prev (sn st) (sp st) s"
    "ActiveSessions (unlink_session s st) = unlink_head (ActiveSessions st) (sn st) (sp st) s"
  using assms
  by (auto simp: unlink_session_def Let_def unlink_next_def unlink_prev_def unlink_head_def fun_eq_iff
      split: option.split)

lemma unlink_session_lists:
  assumes "ses_lists st fs as" "s \<in> set as"
  shows "ses_lists (unlink_session s st) (s # fs) (remove1 s as)"
proof -
  let ?st = "unlink_session s st"
  have l: "lseg (sn st) (FreeSessions st) fs" "lseg (sn st) (ActiveSessions st) as"
    "plinks (sp st) None as" "distinct (fs @ as)" "distinct as" "s \<notin> set fs"
    using assms by (auto simp: ses_lists_def)
  note u = unlink_dlist [OF l(2,3,5) assms(2)]
  have ne: "sp st s \<noteq> Some s" "sn st s \<noteq> Some s" using u(4,5) by blast+
  note links = unlink_session_links [of st s, OF ne]
  have r: "set (remove1 s as) = set as - {s}" using l(5) by simp
  have nx: "sn ?st x = sn st x" if "x \<notin> set as" for x
    using that assms(2) u(4) fun_cong [OF links(1), of x] by (cases "sp st s") (auto simp: unlink_next_def)
  have "lseg (sn ?st) (FreeSessions st) fs = lseg (sn st) (FreeSessions st) fs"
    by (rule lseg_cong) (use nx l(4) in auto)
  moreover have "sn ?st s = FreeSessions st" using fun_cong [OF links(1), of s] by simp
  ultimately have "lseg (sn ?st) (FreeSessions ?st) (s # fs)" using l(1) by simp
  moreover have "lseg (sn ?st) (ActiveSessions ?st) (remove1 s as)" "plinks (sp ?st) None (remove1 s as)"
    unfolding links using u(1,2) r by simp_all
  ultimately show ?thesis using l r by (auto simp: ses_lists_def)
qed

text \<open>A node behind the freed one keeps its link; \<open>cleanSessions\<close> depends on it.\<close>

lemma lseg_tail_unlink:
  assumes "lseg nxt h (xs @ x # ys)" "plinks prv None (xs @ x # ys)" "distinct (xs @ x # ys)"
  shows "lseg ((unlink_next nxt prv x)(x := v)) (nxt x) ys"
proof -
  have l: "lseg nxt (nxt x) ys" and p: "prv x = (if xs = [] then None else Some (last xs))"
    using lseg_split [OF assms(1,3)] plinks_split [OF assms(2,3)] by auto
  have "lseg (unlink_next nxt prv x) (nxt x) ys"
  proof (cases "xs = []")
    case False
    then have "last xs \<notin> set ys"
      using assms(3) last_in_set [OF False] by (simp add: disjoint_iff)
    then show ?thesis using l p False by (simp add: unlink_next_def)
  qed (use l p in \<open>simp add: unlink_next_def\<close>)
  then show ?thesis using assms(3) by simp
qed

section \<open>The invariant\<close>

definition session_ok :: "relay \<Rightarrow> nat \<Rightarrow> bool" where
  "session_ok st s \<longleftrightarrow>
     (let a = acHash (AllSessions st s); c = clientHash (AllSessions st s) in
      a \<noteq> c \<and> ses (AllHashes st a) = s \<and> ses (AllHashes st c) = s \<and>
      peer (AllHashes st a) = c \<and> peer (AllHashes st c) = a \<and>
      h_sesNum (AllHashes st c) = ses_sesNum (AllSessions st s))"

definition hash_of :: "relay \<Rightarrow> nat \<Rightarrow> nat \<Rightarrow> bool" where
  "hash_of st s h \<longleftrightarrow> h = acHash (AllSessions st s) \<or> h = clientHash (AllSessions st s)"

definition relay_wf :: "bool \<Rightarrow> relay \<Rightarrow> nat list \<Rightarrow> nat list \<Rightarrow> nat list \<Rightarrow> (nat \<Rightarrow> nat list) \<Rightarrow> bool" where
  "relay_wf big st fs as fh bl \<longleftrightarrow>
     ses_lists st fs as \<and> hash_lists st fh bl \<and>
     set (fs @ as) = {..<MaxSessions st} \<and> NumSessions st = length as \<and>
     length fh = 2 * length fs \<and>
     (\<forall>h. (\<exists>b. h \<in> set (bl b)) \<longleftrightarrow> (\<exists>s \<in> set as. hash_of st s h)) \<and>
     (\<forall>s \<in> set as. session_ok st s) \<and>
     (\<forall>s < MaxSessions st. ses_sesNum (AllSessions st s) = htons big (word_of_nat (s + 1)))"

definition relay_inv :: "bool \<Rightarrow> relay \<Rightarrow> bool" where
  "relay_inv big st \<longleftrightarrow> (\<exists>fs as fh bl. relay_wf big st fs as fh bl)"

lemma relay_wf_counts:
  assumes "relay_wf big st fs as fh bl"
  shows "length fs + length as = MaxSessions st" "NumSessions st \<le> MaxSessions st"
    "NumSessions st < MaxSessions st \<longleftrightarrow> fs \<noteq> []"
proof -
  have "distinct (fs @ as)" "set (fs @ as) = {..<MaxSessions st}" "NumSessions st = length as"
    using assms by (auto simp: relay_wf_def ses_lists_def)
  then have "length (fs @ as) = MaxSessions st" using distinct_card [of "fs @ as"] by simp
  then show "length fs + length as = MaxSessions st" by simp
  then show "NumSessions st \<le> MaxSessions st" "NumSessions st < MaxSessions st \<longleftrightarrow> fs \<noteq> []"
    using \<open>NumSessions st = length as\<close> by (cases fs; auto)+
qed

lemma hash_of_session:
  "session_ok st s \<Longrightarrow> hash_of st s h \<Longrightarrow>
   ses (AllHashes st h) = s \<and> hash_of st s (peer (AllHashes st h)) \<and> peer (AllHashes st h) \<noteq> h \<and>
   peer (AllHashes st (peer (AllHashes st h))) = h"
  by (auto simp: session_ok_def hash_of_def Let_def)

section \<open>Creating a session\<close>

lemma fill_hashes_simps:
  assumes "a \<noteq> c"
  shows "AllHashes (fill_hashes s a c ac cli am cm n st) =
      (AllHashes st)(a := (AllHashes st a)\<lparr>peer := c, interface := ac, peerMac := am, h_sesNum := n, ses := s\<rparr>,
        c := (AllHashes st c)\<lparr>peer := a, interface := cli, peerMac := cm,
               h_sesNum := ses_sesNum (AllSessions st s), ses := s\<rparr>)"
    "AllSessions (fill_hashes s a c ac cli am cm n st) =
      (AllSessions st)(s := (AllSessions st s)\<lparr>acHash := a, clientHash := c\<rparr>)"
    "FreeSessions (fill_hashes s a c ac cli am cm n st) = FreeSessions st"
    "ActiveSessions (fill_hashes s a c ac cli am cm n st) = ActiveSessions st"
    "FreeHashes (fill_hashes s a c ac cli am cm n st) = FreeHashes st"
    "Buckets (fill_hashes s a c ac cli am cm n st) = Buckets st"
    "NumSessions (fill_hashes s a c ac cli am cm n st) = NumSessions st"
    "MaxSessions (fill_hashes s a c ac cli am cm n st) = MaxSessions st"
    "if_head (fill_hashes s a c ac cli am cm n st) = if_head st"
    "sent (fill_hashes s a c ac cli am cm n st) = sent st"
  using assms by (simp_all add: fill_hashes_def Let_def)

lemma ses_lists_cong:
  "(\<And>i. sn st' i = sn st i) \<Longrightarrow> (\<And>i. sp st' i = sp st i) \<Longrightarrow> FreeSessions st' = FreeSessions st \<Longrightarrow>
   ActiveSessions st' = ActiveSessions st \<Longrightarrow> ses_lists st' fs as = ses_lists st fs as"
  by (simp add: ses_lists_def)

lemma hash_lists_cong:
  "(\<And>i. hn st' i = hn st i) \<Longrightarrow> (\<And>i. hp st' i = hp st i) \<Longrightarrow> FreeHashes st' = FreeHashes st \<Longrightarrow>
   Buckets st' = Buckets st \<Longrightarrow> (\<And>b h. h \<in> set (bl b) \<Longrightarrow> hbucket st' h = hbucket st h) \<Longrightarrow>
   hash_lists st fh bl \<Longrightarrow> hash_lists st' fh bl"
  by (simp add: hash_lists_def)

lemma createSession_steps:
  assumes "NumSessions st < MaxSessions st" "FreeSessions st = Some s" "FreeHashes st = Some a" "hn st a = Some c"
  shows "createSession env ac cli am cm n st = Some (Some s,
    addHash c (addHash a (fill_hashes s a c ac cli am cm n
      ((take_session (jiffies env) s st)\<lparr>FreeHashes := hn st c\<rparr>))))"
  using assms by (simp add: createSession_def Let_def)

lemma bucket_add_members:
  "(\<exists>b. h \<in> set ((bl(k := x # bl k)) b)) \<longleftrightarrow> h = x \<or> (\<exists>b. h \<in> set (bl b))"
proof
  assume "h = x \<or> (\<exists>b. h \<in> set (bl b))"
  then show "\<exists>b. h \<in> set ((bl(k := x # bl k)) b)"
  proof
    assume "h = x"
    then show ?thesis by (intro exI [of _ k]) simp
  next
    assume "\<exists>b. h \<in> set (bl b)"
    then obtain b where "h \<in> set (bl b)" by blast
    then show ?thesis by (intro exI [of _ b]) (cases "b = k", simp_all)
  qed
qed (auto split: if_splits)

lemma bucket_remove_members:
  assumes "distinct (bl k)" "\<And>b. x \<in> set (bl b) \<Longrightarrow> b = k"
  shows "(\<exists>b. h \<in> set ((bl(k := remove1 x (bl k))) b)) \<longleftrightarrow> h \<noteq> x \<and> (\<exists>b. h \<in> set (bl b))"
proof
  assume "h \<noteq> x \<and> (\<exists>b. h \<in> set (bl b))"
  then obtain b where "h \<noteq> x" "h \<in> set (bl b)" by blast
  then show "\<exists>b. h \<in> set ((bl(k := remove1 x (bl k))) b)"
    by (intro exI [of _ b]) (cases "b = k", simp_all)
next
  assume "\<exists>b. h \<in> set ((bl(k := remove1 x (bl k))) b)"
  then obtain b where b: "h \<in> set ((bl(k := remove1 x (bl k))) b)" by blast
  show "h \<noteq> x \<and> (\<exists>b. h \<in> set (bl b))"
  proof (cases "b = k")
    case True
    then show ?thesis using b assms(1) by auto
  next
    case False
    then show ?thesis using b assms(2) [of b] by auto
  qed
qed

lemma created_hash_lists:
  assumes hl: "hash_lists st (a # c # fh) bl"
    and st3: "st3 = fill_hashes s a c ac cli am cm n ((take_session now s st)\<lparr>FreeHashes := hn st c\<rparr>)"
  obtains bl' where "hash_lists (addHash c (addHash a st3)) fh bl'"
    "\<And>h. (\<exists>b. h \<in> set (bl' b)) \<longleftrightarrow> h = a \<or> h = c \<or> (\<exists>b. h \<in> set (bl b))"
proof -
  have d: "a \<noteq> c" "a \<notin> set fh" "c \<notin> set fh" using hl by (auto simp: hash_lists_def)
  have nin: "a \<notin> set (bl b)" "c \<notin> set (bl b)" for b using hl by (auto simp: hash_lists_def)
  have "hash_lists (st\<lparr>FreeHashes := hn st c\<rparr>) fh bl"
    using hl by (auto simp: hash_lists_def hbucket_def)
  then have h3: "hash_lists st3 fh bl"
    unfolding st3
    by (rule hash_lists_cong [rotated -1])
      (use d nin in \<open>auto simp: fill_hashes_simps hbucket_def\<close>)
  let ?bl1 = "bl(hbucket st3 a := a # bl (hbucket st3 a))"
  have 4: "hash_lists (addHash a st3) fh ?bl1" using addHash_lists [OF h3 d(2) nin(1)] .
  have nin1: "c \<notin> set (?bl1 b)" for b using nin(2) d(1) by auto
  show thesis
    by (rule that [OF addHash_lists [OF 4 d(3) nin1]]) (simp only: bucket_add_members, blast)
qed

lemma createSession_wf:
  assumes wf: "relay_wf big st fs as fh bl" and free: "NumSessions st < MaxSessions st"
  obtains s a c fs' fh' bl' st' where
    "createSession env ac cli am cm n st = Some (Some s, st')"
    "fs = s # fs'" "fh = a # c # fh'" "relay_wf big st' fs' (s # as) fh' bl'"
    "acHash (AllSessions st' s) = a" "clientHash (AllSessions st' s) = c"
    "peerMac (AllHashes st' a) = am" "h_sesNum (AllHashes st' a) = n" "interface (AllHashes st' a) = ac"
    "peerMac (AllHashes st' c) = cm" "h_sesNum (AllHashes st' c) = ses_sesNum (AllSessions st' s)"
    "interface (AllHashes st' c) = cli"
    "\<And>h. h \<noteq> a \<Longrightarrow> h \<noteq> c \<Longrightarrow> peerMac (AllHashes st' h) = peerMac (AllHashes st h) \<and>
       h_sesNum (AllHashes st' h) = h_sesNum (AllHashes st h) \<and> interface (AllHashes st' h) = interface (AllHashes st h)"
    "\<And>x. x \<noteq> s \<Longrightarrow> acHash (AllSessions st' x) = acHash (AllSessions st x) \<and>
       clientHash (AllSessions st' x) = clientHash (AllSessions st x)"
    "sent st' = sent st" "if_head st' = if_head st" "MaxSessions st' = MaxSessions st"
proof -
  obtain s fs' where fs: "fs = s # fs'" using relay_wf_counts(3) [OF wf] free by (cases fs) auto
  have "length fh = 2 + 2 * length fs'" using wf fs by (simp add: relay_wf_def)
  then obtain a fh1 where "fh = a # fh1" "length fh1 = 1 + 2 * length fs'" by (cases fh) auto
  then obtain c fh' where fh: "fh = a # c # fh'" by (cases fh1) auto
  have sl: "ses_lists st (s # fs') as" and hl: "hash_lists st (a # c # fh') bl"
    using wf fs fh by (simp_all add: relay_wf_def)
  define st3 where "st3 = fill_hashes s a c ac cli am cm n ((take_session (jiffies env) s st)\<lparr>FreeHashes := hn st c\<rparr>)"
  define st' where "st' = addHash c (addHash a st3)"
  have ne: "a \<noteq> c" and ns: "s \<notin> set as" using sl hl by (auto simp: ses_lists_def hash_lists_def)
  have ptrs: "FreeSessions st = Some s" "FreeHashes st = Some a" "hn st a = Some c"
    using sl hl by (auto simp: ses_lists_def hash_lists_def)
  have eq: "createSession env ac cli am cm n st = Some (Some s, st')"
    using createSession_steps [OF free ptrs, of env ac cli am cm n] unfolding st'_def st3_def by blast
  obtain bl' where bl': "hash_lists st' fh' bl'"
    "\<And>h. (\<exists>b. h \<in> set (bl' b)) \<longleftrightarrow> h = a \<or> h = c \<or> (\<exists>b. h \<in> set (bl b))"
    using created_hash_lists [OF hl st3_def] unfolding st'_def by blast
  have S: "AllSessions st' = (AllSessions (take_session (jiffies env) s st))
      (s := (AllSessions (take_session (jiffies env) s st) s)\<lparr>acHash := a, clientHash := c\<rparr>)"
    by (simp add: st'_def st3_def fill_hashes_simps [OF ne])
  have H: "peer (AllHashes st' h) = (if h = c then a else if h = a then c else peer (AllHashes st h))"
    "peerMac (AllHashes st' h) = (if h = c then cm else if h = a then am else peerMac (AllHashes st h))"
    "h_sesNum (AllHashes st' h) = (if h = c then ses_sesNum (AllSessions st s) else if h = a then n else h_sesNum (AllHashes st h))"
    "ses (AllHashes st' h) = (if h = c \<or> h = a then s else ses (AllHashes st h))"
    "interface (AllHashes st' h) = (if h = c then cli else if h = a then ac else interface (AllHashes st h))" for h
    using ne by (simp_all add: st'_def st3_def fill_hashes_simps)
  have fields: "acHash (AllSessions st' x) = (if x = s then a else acHash (AllSessions st x))"
    "clientHash (AllSessions st' x) = (if x = s then c else clientHash (AllSessions st x))"
    "ses_sesNum (AllSessions st' x) = ses_sesNum (AllSessions st x)" for x
    by (simp_all add: S)
  have sl': "ses_lists st' fs' (s # as)"
  proof -
    have "ses_lists st' fs' (s # as) = ses_lists (take_session (jiffies env) s st) fs' (s # as)"
      by (rule ses_lists_cong) (simp_all add: S, simp_all add: st'_def st3_def fill_hashes_simps [OF ne])
    then show ?thesis using take_session_lists [OF sl] by simp
  qed
  have old: "session_ok st x" "\<exists>b. acHash (AllSessions st x) \<in> set (bl b)" "\<exists>b. clientHash (AllSessions st x) \<in> set (bl b)"
    if "x \<in> set as" for x
    using wf that by (auto simp: relay_wf_def hash_of_def)
  have notfree: "h \<noteq> a \<and> h \<noteq> c" if "\<exists>b. h \<in> set (bl b)" for h
    using that hl by (auto simp: hash_lists_def)
  have ok: "session_ok st' x" if "x \<in> set (s # as)" for x
  proof (cases "x = s")
    case True
    then show ?thesis using ne by (simp add: session_ok_def fields H)
  next
    case False
    then have x: "x \<in> set as" using that by simp
    show ?thesis
      using old(1) [OF x] notfree [OF old(2) [OF x]] notfree [OF old(3) [OF x]] False
      by (simp add: session_ok_def fields H Let_def)
  qed
  have members: "(\<exists>b. h \<in> set (bl' b)) \<longleftrightarrow> (\<exists>x \<in> set (s # as). hash_of st' x h)" for h
  proof -
    have "hash_of st' x h = hash_of st x h" if "x \<in> set as" for x
      using that ns by (auto simp: hash_of_def fields)
    then have "(\<exists>x \<in> set as. hash_of st' x h) \<longleftrightarrow> (\<exists>b. h \<in> set (bl b))"
      using wf by (auto simp: relay_wf_def)
    then show ?thesis unfolding bl'(2) by (auto simp: hash_of_def fields)
  qed
  have mx: "MaxSessions st' = MaxSessions st" "NumSessions st' = NumSessions st + 1" "sent st' = sent st"
    "if_head st' = if_head st"
    by (simp_all add: st'_def st3_def fill_hashes_simps [OF ne])
  have "relay_wf big st' fs' (s # as) fh' bl'"
    unfolding relay_wf_def using sl' bl'(1) members ok wf fs fh
    by (auto simp: mx fields relay_wf_def)
  then show thesis
    by (rule that [OF eq fs fh]) (simp_all add: fields H ne mx)
qed


section \<open>Freeing a session\<close>

lemma freeSession_frame [simp]:
  "MaxSessions (freeSession s st) = MaxSessions st" "if_head (freeSession s st) = if_head st"
  "sent (freeSession s st) = sent st" "NumSessions (freeSession s st) = NumSessions st - 1"
  "peer (AllHashes (freeSession s st) i) = peer (AllHashes st i)"
  "interface (AllHashes (freeSession s st) i) = interface (AllHashes st i)"
  "peerMac (AllHashes (freeSession s st) i) = peerMac (AllHashes st i)"
  "h_sesNum (AllHashes (freeSession s st) i) = h_sesNum (AllHashes st i)"
  "ses (AllHashes (freeSession s st) i) = ses (AllHashes st i)"
  "acHash (AllSessions (freeSession s st) i) = acHash (AllSessions st i)"
  "clientHash (AllSessions (freeSession s st) i) = clientHash (AllSessions st i)"
  "ses_sesNum (AllSessions (freeSession s st) i) = ses_sesNum (AllSessions st i)"
  "epoch (AllSessions (freeSession s st) i) = epoch (AllSessions st i)"
  by (simp_all add: freeSession_def Let_def)

lemma unhash_members:
  assumes "hash_lists st fh bl" "h \<in> set (bl b0)"
  shows "(\<exists>b. x \<in> set ((bl(b0 := remove1 h (bl b0))) b)) \<longleftrightarrow> x \<noteq> h \<and> (\<exists>b. x \<in> set (bl b))"
proof (rule bucket_remove_members)
  show "distinct (bl b0)" using assms(1) by (simp add: hash_lists_def)
  show "b = b0" if "h \<in> set (bl b)" for b using hash_lists_disjoint [OF assms(1) that assms(2)] .
qed

lemma hash_of_inj:
  "session_ok st s \<Longrightarrow> session_ok st t \<Longrightarrow> hash_of st s h \<Longrightarrow> hash_of st t h \<Longrightarrow> s = t"
  using hash_of_session by metis

lemma freeSession_wf:
  assumes wf: "relay_wf big st fs as fh bl" and s: "s \<in> set as"
  obtains fh' bl' where "relay_wf big (freeSession s st) (s # fs) (remove1 s as) fh' bl'"
proof -
  let ?a = "acHash (AllSessions st s)" and ?c = "clientHash (AllSessions st s)"
  let ?st1 = "unlink_session s st" let ?st2 = "unhash ?a ?st1" let ?st3 = "unhash ?c ?st2"
  have sl: "ses_lists st fs as" and hl: "hash_lists st fh bl" and ok: "\<forall>x \<in> set as. session_ok st x"
    and mem: "\<And>h. (\<exists>b. h \<in> set (bl b)) \<longleftrightarrow> (\<exists>x \<in> set as. hash_of st x h)"
    using wf by (auto simp: relay_wf_def)
  have ne: "?a \<noteq> ?c" using ok s by (auto simp: session_ok_def Let_def)
  obtain ba bc where ba: "?a \<in> set (bl ba)" and bc: "?c \<in> set (bl bc)"
    using mem [of ?a] mem [of ?c] s hash_of_def by blast
  have h1: "hash_lists ?st1 fh bl" using hl by (rule hash_lists_cong [rotated -1]) (simp_all add: hbucket_def)
  let ?bl2 = "bl(ba := remove1 ?a (bl ba))"
  have h2: "hash_lists ?st2 (?a # fh) ?bl2" using unhash_lists [OF h1 ba] .
  have bc2: "?c \<in> set (?bl2 bc)" using bc ne by auto
  let ?bl3 = "?bl2(bc := remove1 ?c (?bl2 bc))"
  have h3: "hash_lists ?st3 (?c # ?a # fh) ?bl3" using unhash_lists [OF h2 bc2] .
  have F: "freeSession s st = ?st3\<lparr>NumSessions := NumSessions ?st3 - 1\<rparr>" by (simp add: freeSession_def Let_def)
  have hl': "hash_lists (freeSession s st) (?c # ?a # fh) ?bl3"
    unfolding F by (rule hash_lists_cong [OF _ _ _ _ _ h3]) (simp_all add: hbucket_def)
  have sl': "ses_lists (freeSession s st) (s # fs) (remove1 s as)"
  proof -
    have "ses_lists (freeSession s st) (s # fs) (remove1 s as) = ses_lists ?st1 (s # fs) (remove1 s as)"
      unfolding F by (rule ses_lists_cong) simp_all
    then show ?thesis using unlink_session_lists [OF sl s] by simp
  qed
  have d: "distinct as" "s \<notin> set fs" using sl s by (auto simp: ses_lists_def)
  have so: "session_ok (freeSession s st) x = session_ok st x" "hash_of (freeSession s st) x h = hash_of st x h" for x h
    by (simp_all add: session_ok_def hash_of_def)
  have "(\<exists>b. h \<in> set (?bl3 b)) \<longleftrightarrow> h \<noteq> ?c \<and> h \<noteq> ?a \<and> (\<exists>x \<in> set as. hash_of st x h)" for h
    unfolding unhash_members [OF h2 bc2] unhash_members [OF h1 ba] mem ..
  moreover have "h \<noteq> ?c \<and> h \<noteq> ?a \<and> (\<exists>x \<in> set as. hash_of st x h) \<longleftrightarrow>
      (\<exists>x \<in> set as - {s}. hash_of st x h)" for h
  proof
    assume "h \<noteq> ?c \<and> h \<noteq> ?a \<and> (\<exists>x \<in> set as. hash_of st x h)"
    then obtain x where "x \<in> set as" "hash_of st x h" "\<not> hash_of st s h" by (auto simp: hash_of_def)
    then show "\<exists>x \<in> set as - {s}. hash_of st x h" by (intro bexI [of _ x]) auto
  next
    assume "\<exists>x \<in> set as - {s}. hash_of st x h"
    then obtain x where x: "x \<in> set as" "x \<noteq> s" "hash_of st x h" by blast
    have "\<not> hash_of st s h" using hash_of_inj [of st x s h] ok s x by blast
    then show "h \<noteq> ?c \<and> h \<noteq> ?a \<and> (\<exists>x \<in> set as. hash_of st x h)" using x by (auto simp: hash_of_def)
  qed
  ultimately have mem': "(\<exists>b. h \<in> set (?bl3 b)) \<longleftrightarrow> (\<exists>x \<in> set (remove1 s as). hash_of (freeSession s st) x h)" for h
    unfolding so using d(1) by simp
  have "relay_wf big (freeSession s st) (s # fs) (remove1 s as) (?c # ?a # fh) ?bl3"
    unfolding relay_wf_def using sl' hl' mem' wf d s
    by (auto simp: relay_wf_def so length_remove1)
  then show thesis by (rule that)
qed

section \<open>Looking up a session\<close>

lemma findSession_wf:
  assumes wf: "relay_wf big st fs as fh bl"
  obtains r where "findSession m n False st = Some r"
    "\<And>h. r = Some h \<Longrightarrow> (\<exists>s \<in> set as. hash_of st s h) \<and> peerMac (AllHashes st h) = m \<and> h_sesNum (AllHashes st h) = n"
    "r = None \<Longrightarrow> \<forall>s \<in> set as. \<forall>h. hash_of st s h \<longrightarrow> \<not> (peerMac (AllHashes st h) = m \<and> h_sesNum (AllHashes st h) = n)"
proof -
  let ?P = "\<lambda>h. n = h_sesNum (AllHashes st h) \<and> (False \<or> m = peerMac (AllHashes st h))"
  let ?b = "bucket m n"
  have l: "lseg (hn st) (Buckets st ?b) (bl ?b)" and hb: "\<And>h b. h \<in> set (bl b) \<Longrightarrow> hbucket st h = b"
    and mem: "\<And>h. (\<exists>b. h \<in> set (bl b)) \<longleftrightarrow> (\<exists>x \<in> set as. hash_of st x h)"
    using wf by (auto simp: relay_wf_def hash_lists_def)
  have "findSession m n False st = Some (List.find ?P (bl ?b))"
    unfolding findSession_def by (rule chain_find_lseg [OF l])
  then show thesis
  proof (rule that)
    fix h assume "List.find ?P (bl ?b) = Some h"
    then have "h \<in> set (bl ?b)" "?P h" by (auto simp: find_Some_iff)
    then show "(\<exists>s \<in> set as. hash_of st s h) \<and> peerMac (AllHashes st h) = m \<and> h_sesNum (AllHashes st h) = n"
      using mem by blast
  next
    assume "List.find ?P (bl ?b) = None"
    then have none: "\<forall>h \<in> set (bl ?b). \<not> ?P h" by (auto simp: find_None_iff)
    show "\<forall>s \<in> set as. \<forall>h. hash_of st s h \<longrightarrow> \<not> (peerMac (AllHashes st h) = m \<and> h_sesNum (AllHashes st h) = n)"
    proof (intro ballI allI impI notI)
      fix s h assume a: "s \<in> set as" "hash_of st s h" "peerMac (AllHashes st h) = m \<and> h_sesNum (AllHashes st h) = n"
      then obtain b where b: "h \<in> set (bl b)" using mem by blast
      have "b = ?b" using hb [OF b] a(3) by (simp add: hbucket_def)
      then show False using none b a(3) by blast
    qed
  qed
qed

end
