(* ===== verification/Relay_Props.thy ===== *)
theory Relay_Props
  imports Relay_Sessions
begin

text \<open>
  What the relay's packet handlers and its idle timer do, over the session tables of
  \<open>Relay_Sessions\<close>: they keep the invariant, always return, route discovery packets by the relay
  tag and session packets by the session tables.
\<close>

section \<open>What does not touch the tables\<close>

lemma relay_wf_cong:
  assumes "AllHashes st' = AllHashes st" "FreeSessions st' = FreeSessions st"
    "ActiveSessions st' = ActiveSessions st" "FreeHashes st' = FreeHashes st" "Buckets st' = Buckets st"
    "NumSessions st' = NumSessions st" "MaxSessions st' = MaxSessions st"
    "\<And>i. sn st' i = sn st i" "\<And>i. sp st' i = sp st i"
    "\<And>i. acHash (AllSessions st' i) = acHash (AllSessions st i)"
    "\<And>i. clientHash (AllSessions st' i) = clientHash (AllSessions st i)"
    "\<And>i. ses_sesNum (AllSessions st' i) = ses_sesNum (AllSessions st i)"
  shows "relay_wf big st' fs as fh bl = relay_wf big st fs as fh bl"
proof -
  have "session_ok st' = session_ok st" "hash_of st' = hash_of st" "hbucket st' = hbucket st"
    by (simp_all add: fun_eq_iff session_ok_def hash_of_def hbucket_def assms)
  then show ?thesis by (simp add: relay_wf_def ses_lists_def hash_lists_def assms)
qed

lemma relay_wf_sent [simp]:
  "relay_wf big (st\<lparr>sent := x\<rparr>) fs as fh bl = relay_wf big st fs as fh bl"
  "relay_wf big (relay_enqueue d m st) fs as fh bl = relay_wf big st fs as fh bl"
  "relay_wf big (st\<lparr>if_head := y\<rparr>) fs as fh bl = relay_wf big st fs as fh bl"
  by (rule relay_wf_cong; simp add: relay_enqueue_def)+

lemma relay_wf_epoch [simp]:
  "relay_wf big (upd_ses s (\<lambda>x. x\<lparr>epoch := e\<rparr>) st) fs as fh bl = relay_wf big st fs as fh bl"
  by (rule relay_wf_cong) simp_all

lemma insertBytes_local:
  assumes "length (payload p) = ETH_DATA_LEN" "plen p \<le> MAX_PPPOE_PAYLOAD"
  shows "\<exists>r q. insertBytes p 0 bs = Some (r, q) \<and> length (payload q) = ETH_DATA_LEN \<and> plen q \<le> MAX_PPPOE_PAYLOAD"
proof (cases "length bs + plen p > MAX_PPPOE_PAYLOAD")
  case False
  then obtain b where b: "wr_bytes (payload p) 0 (bs @ take (plen p) (payload p)) = Some b"
    using assms by (simp add: wr_bytes_def pppoe_consts)
  have "length b = length (payload p)" using length_wr_bytes [OF b] .
  then show ?thesis using b False assms by (simp add: insertBytes_def pppoe_consts)
qed (use assms in \<open>simp add: insertBytes_def\<close>)

lemma relaySendError_returns:
  "\<exists>x. relaySendError env c sess iface m hu msg st = Some (st\<lparr>sent := x\<rparr>)"
proof -
  define p0 where "p0 = \<lparr>h_dest = m, h_source = dev_addr iface, h_proto = 0x8863, ver = 1, ptype = 1,
                    code = c, session = sess, plen = 0, payload = replicate ETH_DATA_LEN 0\<rparr>"
  obtain r q where 1: "(case hu of None \<Rightarrow> Some (0, p0) | Some hu \<Rightarrow> insertBytes p0 0 (tag_bytes hu)) = Some (r, q)"
    "length (payload q) = ETH_DATA_LEN" "plen q \<le> MAX_PPPOE_PAYLOAD"
  proof (cases hu)
    case None
    then show thesis using that [of 0 p0] by (simp add: p0_def)
  next
    case (Some h)
    then show thesis using that insertBytes_local [of p0 "tag_bytes h"] by (auto simp: p0_def)
  qed
  obtain r' q' where 2: "insertBytes q 0 (tag_bytes \<lparr>tag_type = TAG_GENERIC_ERROR, tag_data = msg\<rparr>) = Some (r', q')"
    using insertBytes_local [OF 1(2,3)] by blast
  have "relaySendError env c sess iface m hu msg st =
      (if r < 0 then Some st else if r' < 0 then Some st else Some (relay_send_packet env iface q' st))"
    using 1(1) 2 unfolding relaySendError_def Let_def p0_def [symmetric] by simp
  moreover have "\<exists>x. relay_send_packet env iface q' st = st\<lparr>sent := x\<rparr>"
    by (auto simp: relay_send_packet_def relay_enqueue_def intro: exI [of _ "sent st"])
  ultimately show ?thesis by (auto intro: exI [of _ "sent st"])
qed

lemma broadcast_loop_sent: "\<exists>x. broadcast_loop env src m ns st = st\<lparr>sent := x\<rparr>"
proof (induction ns arbitrary: st)
  case Nil
  show ?case by (intro exI [of _ "sent st"]) simp
next
  case (Cons n ns)
  have "\<exists>x. broadcast_loop env src m ns (relay_enqueue d p st) = st\<lparr>sent := x\<rparr>" for d p
    using Cons [of "relay_enqueue d p st"] by (auto simp: relay_enqueue_def)
  then show ?case using Cons by simp
qed

section \<open>The handlers keep the invariant\<close>

lemma relay_inv_I: "relay_wf big st fs as fh bl \<Longrightarrow> relay_inv big st"
  by (auto simp: relay_inv_def)

lemma relay_inv_sent [simp]:
  "relay_inv big (st\<lparr>sent := x\<rparr>) = relay_inv big st"
  "relay_inv big (relay_enqueue d m st) = relay_inv big st"
  "relay_inv big (st\<lparr>if_head := y\<rparr>) = relay_inv big st"
  "relay_inv big (upd_ses s (\<lambda>x. x\<lparr>epoch := e\<rparr>) st) = relay_inv big st"
  by (simp_all add: relay_inv_def)

abbreviation relay_keeps :: "bool \<Rightarrow> relay \<Rightarrow> relay \<Rightarrow> bool" where
  "relay_keeps big st st' \<equiv> relay_inv big st' \<and> MaxSessions st' = MaxSessions st"

lemma createSession_inv:
  assumes "relay_inv big st"
  shows "\<exists>s st'. createSession env ac cli am cm n st = Some (s, st') \<and> relay_inv big st' \<and>
    (s = None \<longleftrightarrow> NumSessions st = MaxSessions st) \<and> if_head st' = if_head st \<and> MaxSessions st' = MaxSessions st"
proof -
  obtain fs as fh bl where wf: "relay_wf big st fs as fh bl" using assms by (auto simp: relay_inv_def)
  show ?thesis
  proof (cases "NumSessions st < MaxSessions st")
    case True
    show ?thesis
      by (rule createSession_wf [OF wf True, of env ac cli am cm n]) (use True in \<open>auto intro: relay_inv_I\<close>)
  next
    case False
    then show ?thesis using relay_wf_counts(2) [OF wf] assms by (auto simp: createSession_def)
  qed
qed

lemma findSession_returns: "relay_inv big st \<Longrightarrow> \<exists>r. findSession m n False st = Some r"
  by (auto simp: relay_inv_def elim: findSession_wf)

lemma found_session:
  assumes "relay_wf big st fs as fh bl" "findSession m n False st = Some (Some h)"
  shows "ses (AllHashes st h) \<in> set as" "ses (AllHashes st (peer (AllHashes st h))) = ses (AllHashes st h)"
    "hash_of st (ses (AllHashes st h)) h" "peerMac (AllHashes st h) = m" "h_sesNum (AllHashes st h) = n"
proof -
  obtain r where r: "findSession m n False st = Some r"
    "\<And>h. r = Some h \<Longrightarrow> (\<exists>s \<in> set as. hash_of st s h) \<and> peerMac (AllHashes st h) = m \<and> h_sesNum (AllHashes st h) = n"
    using findSession_wf [OF assms(1), of m n] by metis
  then obtain s where s: "s \<in> set as" "hash_of st s h" "peerMac (AllHashes st h) = m" "h_sesNum (AllHashes st h) = n"
    using assms(2) by fastforce
  have ok: "session_ok st s" using assms(1) s(1) by (auto simp: relay_wf_def)
  note h = hash_of_session [OF ok s(2)]
  have "ses (AllHashes st (peer (AllHashes st h))) = s" using hash_of_session [OF ok] h by blast
  then show "ses (AllHashes st h) \<in> set as" "ses (AllHashes st (peer (AllHashes st h))) = ses (AllHashes st h)"
    "hash_of st (ses (AllHashes st h)) h" "peerMac (AllHashes st h) = m" "h_sesNum (AllHashes st h) = n"
    using h s by simp_all
qed

lemma freeSession_inv:
  assumes "relay_wf big st fs as fh bl" "s \<in> set as"
  shows "relay_inv big (freeSession s st)"
  using freeSession_wf [OF assms] relay_inv_I by metis

lemma PADT_inv:
  assumes "relay_inv big st"
  shows "\<exists>r st'. relayHandlePADT env iface m st = Some (r, st') \<and> relay_keeps big st st'"
proof -
  obtain fs as fh bl where wf: "relay_wf big st fs as fh bl" using assms by (auto simp: relay_inv_def)
  obtain r where r: "findSession (h_source m) (session m) False st = Some r" using findSession_returns assms by blast
  show ?thesis
  proof (cases r)
    case None
    then show ?thesis using r assms by (simp add: relayHandlePADT_def)
  next
    case (Some h)
    note f = found_session [OF wf r [unfolded Some]]
    have "relay_inv big (freeSession (ses (AllHashes st h)) (relay_enqueue d p st))" for d p
      by (rule freeSession_inv [of _ _ fs as fh bl]) (use wf f in simp_all)
    then show ?thesis using r Some f(2) by (simp add: relayHandlePADT_def Let_def)
  qed
qed


text \<open>A handler that only sends.\<close>

definition only_sent :: "relay \<Rightarrow> relay \<Rightarrow> bool" where
  "only_sent st st' \<longleftrightarrow> (\<exists>x. st' = st\<lparr>sent := x\<rparr>)"

lemma only_sent_refl [simp, intro]: "only_sent st st"
  unfolding only_sent_def by (intro exI [of _ "sent st"]) simp

lemma only_sent_enqueue [simp, intro]: "only_sent st (relay_enqueue d m st)"
  unfolding only_sent_def relay_enqueue_def by blast

lemma only_sent_inv: "only_sent st st' \<Longrightarrow> relay_inv big st \<Longrightarrow> relay_keeps big st st'"
  by (auto simp: only_sent_def)

lemma only_sent_broadcast [simp, intro]: "only_sent st (pppoe_relay_broadcast env n m st)"
  unfolding only_sent_def pppoe_relay_broadcast_def by (rule broadcast_loop_sent)

lemma PADI_sent:
  assumes "relayHandlePADI env iface m st = Some (r, st')"
  shows "only_sent st st'"
proof (cases "relay_findTag m TAG_RELAY_SESSION_ID")
  case None
  then show ?thesis using assms by (auto simp: relayHandlePADI_def split: if_splits)
next
  case (Some q)
  then show ?thesis using assms
    by (cases q; cases "addTag env m (relay_tag env (ifindex (dev iface)) (h_source m))")
      (auto simp: relayHandlePADI_def split: if_splits)
qed

lemma PADO_sent:
  assumes "relayHandlePADO env iface m st = Some (r, st')"
  shows "only_sent st st'"
proof (cases "relay_tag_lookup env clientOK iface m st")
  case None
  then show ?thesis using assms by (auto simp: relayHandlePADO_def split: if_splits)
next
  case (Some q)
  show ?thesis
  proof (cases q)
    case None
    then show ?thesis using assms Some by (auto simp: relayHandlePADO_def split: if_splits)
  next
    case q: (Some l)
    obtain loc tag n where l: "l = (loc, tag, n)" by (cases l) auto
    show ?thesis using assms Some
      by (cases "reverse_relay_tag env loc (ifindex (dev iface)) m")
        (auto simp: relayHandlePADO_def q l Let_def split: if_splits)
  qed
qed

lemma PADR_sent:
  assumes "relayHandlePADR env iface m st = Some (r, st')"
  shows "only_sent st st'"
proof (cases "relay_tag_lookup env acOK iface m st")
  case None
  then show ?thesis using assms by (auto simp: relayHandlePADR_def split: if_splits)
next
  case (Some q)
  show ?thesis
  proof (cases q)
    case None
    then show ?thesis using assms Some by (auto simp: relayHandlePADR_def split: if_splits)
  next
    case q: (Some l)
    obtain loc tag n where l: "l = (loc, tag, n)" by (cases l) auto
    show ?thesis using assms Some
      by (cases "reverse_relay_tag env loc (ifindex (dev iface)) m")
        (auto simp: relayHandlePADR_def q l Let_def split: if_splits)
  qed
qed

lemma relaySendError_inv:
  "relaySendError env c sess iface m hu msg st = Some st' \<Longrightarrow> relay_inv big st \<Longrightarrow> relay_keeps big st st'"
  using relaySendError_returns [of env c sess iface m hu msg st] by auto

lemma pads_session_inv:
  assumes "relay_inv big st" "pads_session env iface n loc p st = Some (r, st')"
  shows "relay_keeps big st st'"
proof (cases "session p = htons (big_endian env) 0")
  case True
  then show ?thesis using assms by (simp add: pads_session_def)
next
  case False
  obtain f where f: "findSession (h_source p) (session p) False st = Some f" using findSession_returns assms(1) by blast
  show ?thesis
  proof (cases f)
    case (Some h)
    then show ?thesis using assms f False by (simp add: pads_session_def)
  next
    case None
    obtain cm where cm: "rd_bytes (payload p) (loc + TAG_HDR_SIZE + 4) 6 = Some cm"
      using assms(2) f None False by (auto simp: pads_session_def bind_eq_Some_conv)
    obtain s st1 where c: "createSession env (dev iface) (dev n) (h_source p) cm (session p) st = Some (s, st1)"
      "relay_keeps big st st1" using createSession_inv [OF assms(1)] by blast
    show ?thesis
    proof (cases s)
      case (Some x)
      then show ?thesis using assms f None False cm c by (simp add: pads_session_def)
    next
      case none: None
      obtain hu where "relay_findTag p TAG_HOST_UNIQ = Some hu"
        using assms(2) f None False cm c none by (auto simp: pads_session_def bind_eq_Some_conv)
      then show ?thesis
        using assms(2) f None False cm c none relaySendError_inv
        by (simp add: pads_session_def bind_eq_Some_conv) metis
    qed
  qed
qed

lemma PADS_inv:
  assumes "relay_inv big st" "relayHandlePADS env iface m st = Some (r, st')"
  shows "relay_keeps big st st'"
  using assms pads_session_inv [OF assms(1)]
  by (auto simp: relayHandlePADS_def bind_eq_Some_conv Let_def split: if_splits option.splits prod.splits)

lemma discovery_inv:
  assumes "relay_inv big st" "relayGotDiscoveryPacket env iface m st = Some (r, st')"
  shows "relay_keeps big st st'"
proof -
  have "relay_keeps big st u" if "relayHandlePADT env iface m st = Some (r, u)" for u
    using PADT_inv [OF assms(1), of env iface m] that by auto
  moreover have "relay_keeps big st u" if "relayHandlePADI env iface m st = Some (r, u)" for u
    using only_sent_inv [OF PADI_sent [OF that] assms(1)] .
  moreover have "relay_keeps big st u" if "relayHandlePADO env iface m st = Some (r, u)" for u
    using only_sent_inv [OF PADO_sent [OF that] assms(1)] .
  moreover have "relay_keeps big st u" if "relayHandlePADR env iface m st = Some (r, u)" for u
    using only_sent_inv [OF PADR_sent [OF that] assms(1)] .
  moreover have "relay_keeps big st u" if "relayHandlePADS env iface m st = Some (r, u)" for u
    using PADS_inv [OF assms(1) that] .
  ultimately show ?thesis using assms unfolding relayGotDiscoveryPacket_def by (auto split: if_splits)
qed

lemma session_packet_inv:
  assumes "relay_inv big st"
  shows "\<exists>r st'. relayGotSessionPacket env iface m st = Some (r, st') \<and> relay_keeps big st st'"
  using findSession_returns [OF assms, of "h_source m" "session m"] assms
  by (auto simp: relayGotSessionPacket_def Let_def split: option.split)

section \<open>The idle timer\<close>

lemma clean_one_wf:
  assumes wf: "relay_wf big st fs as fh bl" and s: "s \<in> set as"
  obtains st' fh' bl' where "clean_one env s st = Some st'" "relay_wf big st' (s # fs) (remove1 s as) fh' bl'"
    "\<And>x. sn st' x = sn (freeSession s st) x" "\<And>x. epoch (AllSessions st' x) = epoch (AllSessions st x)"
    "MaxSessions st' = MaxSessions st"
proof -
  let ?a = "AllHashes st (acHash (AllSessions st s))" and ?c = "AllHashes st (clientHash (AllSessions st s))"
  obtain x where x: "relaySendError env CODE_PADT (h_sesNum ?a) (interface ?a) (peerMac ?a) None err_idle st =
      Some (st\<lparr>sent := x\<rparr>)" using relaySendError_returns by blast
  obtain y where y: "relaySendError env CODE_PADT (h_sesNum ?c) (interface ?c) (peerMac ?c) None err_idle (st\<lparr>sent := x\<rparr>) =
      Some (st\<lparr>sent := y\<rparr>)"
    using relaySendError_returns [of env CODE_PADT "h_sesNum ?c" "interface ?c" "peerMac ?c" None err_idle "st\<lparr>sent := x\<rparr>"]
    by auto
  have eq: "clean_one env s st = Some (freeSession s (st\<lparr>sent := y\<rparr>))" using x y by (simp add: clean_one_def Let_def)
  have "relay_wf big (st\<lparr>sent := y\<rparr>) fs as fh bl" using wf by simp
  then obtain fh' bl' where w: "relay_wf big (freeSession s (st\<lparr>sent := y\<rparr>)) (s # fs) (remove1 s as) fh' bl'"
    using freeSession_wf s by metis
  have "sn (freeSession s (st\<lparr>sent := y\<rparr>)) x = sn (freeSession s st) x" for x
    by (simp add: freeSession_def Let_def unlink_session_def upd_ses_def split: option.split)
  then show thesis using that [OF eq w] by simp
qed

lemma clean_loop_wf:
  assumes "relay_wf big st fs (pre @ suf) fh bl" "cur = (case suf of [] \<Rightarrow> None | s # _ \<Rightarrow> Some s)"
  shows "\<exists>st' fs' fh' bl'. clean_loop env timeout cur mn st =
      Some (fold (\<lambda>s m. min (epoch (AllSessions st s)) m) (filter (\<lambda>s. \<not> expired (jiffies env) timeout (epoch (AllSessions st s))) suf) mn, st') \<and>
    relay_wf big st' fs' (pre @ filter (\<lambda>s. \<not> expired (jiffies env) timeout (epoch (AllSessions st s))) suf) fh' bl' \<and>
    (\<forall>x. epoch (AllSessions st' x) = epoch (AllSessions st x)) \<and> MaxSessions st' = MaxSessions st"
  using assms
proof (induction suf arbitrary: st fs fh bl pre cur mn)
  case Nil
  then show ?case by (subst clean_loop.simps) auto
next
  case (Cons s suf)
  have cur: "cur = Some s" using Cons.prems by simp
  have l: "lseg (sn st) (ActiveSessions st) (pre @ s # suf)" "plinks (sp st) None (pre @ s # suf)"
    "distinct (pre @ s # suf)"
    using Cons.prems(1) by (auto simp: relay_wf_def ses_lists_def)
  have nxt: "sn st s = (case suf of [] \<Rightarrow> None | s # _ \<Rightarrow> Some s)"
    using lseg_split [OF l(1,3)] lseg_head by blast
  show ?case
  proof (cases "expired (jiffies env) timeout (epoch (AllSessions st s))")
    case True
    obtain st1 fh1 bl1 where c: "clean_one env s st = Some st1"
      "relay_wf big st1 (s # fs) (remove1 s (pre @ s # suf)) fh1 bl1"
      "\<And>x. epoch (AllSessions st1 x) = epoch (AllSessions st x)" "MaxSessions st1 = MaxSessions st"
      by (rule clean_one_wf [OF Cons.prems(1)]) auto
    have r: "remove1 s (pre @ s # suf) = pre @ suf" using l(3) by (simp add: remove1_append)
    obtain st' fs' fh' bl' where i: "clean_loop env timeout (sn st s) mn st1 =
        Some (fold (\<lambda>s m. min (epoch (AllSessions st1 s)) m)
          (filter (\<lambda>s. \<not> expired (jiffies env) timeout (epoch (AllSessions st1 s))) suf) mn, st')"
      "relay_wf big st' fs' (pre @ filter (\<lambda>s. \<not> expired (jiffies env) timeout (epoch (AllSessions st1 s))) suf) fh' bl'"
      "\<forall>x. epoch (AllSessions st' x) = epoch (AllSessions st1 x)" "MaxSessions st' = MaxSessions st1"
      using Cons.IH [OF c(2) [unfolded r] nxt, of mn] by blast
    then show ?thesis using True c
      by (subst clean_loop.simps) (auto simp: cur Let_def)
  next
    case False
    obtain st' fs' fh' bl' where i: "clean_loop env timeout (sn st s) (min (epoch (AllSessions st s)) mn) st =
        Some (fold (\<lambda>s m. min (epoch (AllSessions st s)) m)
          (filter (\<lambda>s. \<not> expired (jiffies env) timeout (epoch (AllSessions st s))) suf) (min (epoch (AllSessions st s)) mn), st')"
      "relay_wf big st' fs' ((pre @ [s]) @ filter (\<lambda>s. \<not> expired (jiffies env) timeout (epoch (AllSessions st s))) suf) fh' bl'"
      "\<forall>x. epoch (AllSessions st' x) = epoch (AllSessions st x)" "MaxSessions st' = MaxSessions st"
      using Cons.IH [of st fs "pre @ [s]" fh bl "sn st s" "min (epoch (AllSessions st s)) mn"] Cons.prems(1) nxt by auto
    moreover have "min (epoch (AllSessions st s)) mn = (if epoch (AllSessions st s) < mn then epoch (AllSessions st s) else mn)"
      by (auto simp: min_def)
    ultimately show ?thesis using False
      by (subst clean_loop.simps) (auto simp: cur Let_def)
  qed
qed


section \<open>Every state the relay can reach\<close>

datatype relay_event =
    Discovery pppoe_if_t PPPoEPacket
  | Session_data pppoe_if_t PPPoEPacket
  | Idle_timer u32
  | Add_interface "nat option" net_device bool bool
  | Remove_interface net_device
  | Clear_interfaces

definition relay_handle :: "relay_env \<Rightarrow> relay_event \<Rightarrow> relay \<Rightarrow> relay option" where
  "relay_handle env e st =
     (case e of
        Discovery i m \<Rightarrow> map_option snd (relayGotDiscoveryPacket env i m st)
      | Session_data i m \<Rightarrow> map_option snd (relayGotSessionPacket env i m st)
      | Idle_timer t \<Rightarrow> map_option snd (cleanSessions env t st)
      | Add_interface i d cl ac \<Rightarrow> Some (snd (relayAddInterface i d cl ac st))
      | Remove_interface d \<Rightarrow> Some (relayRemoveInterface d st)
      | Clear_interfaces \<Rightarrow> Some (relayInterfacesClear st))"

text \<open>
  The module starts with an empty hash table (it is a static array); the two \<open>kmalloc\<close>ed arrays
  hold anything. \<open>big\<close> is the byte order of the machine.
\<close>

inductive relay_reach :: "bool \<Rightarrow> relay \<Rightarrow> bool" for big where
  start: "\<forall>b. Buckets st b = None \<Longrightarrow> pppoe_relay_init big True True st = (0, st') \<Longrightarrow> relay_reach big st'"
| step: "relay_reach big st \<Longrightarrow> big_endian env = big \<Longrightarrow> relay_handle env e st = Some st' \<Longrightarrow> relay_reach big st'"

lemma lseg_upt:
  "(\<And>i. i < n \<Longrightarrow> nxt i = (if i + 1 < n then Some (i + 1) else None)) \<Longrightarrow> k < n \<Longrightarrow>
   lseg nxt (Some k) [k..<n]"
proof (induction "n - k" arbitrary: k)
  case (Suc d)
  then have "lseg nxt (nxt k) [Suc k..<n]"
    by (cases "Suc k < n") auto
  then show ?case using Suc.prems by (simp add: upt_conv_Cons)
qed simp

lemma initRelay_inv:
  assumes "0 < n" "\<forall>b. Buckets st b = None"
  shows "relay_inv big (snd (initRelay big True True n st))"
proof -
  let ?st = "snd (initRelay big True True n st)"
  have s: "ses_lists ?st [0..<n] []"
    using assms by (auto simp: ses_lists_def initRelay_def Let_def intro!: lseg_upt)
  have h: "hash_lists ?st [0..<2 * n] (\<lambda>_. [])"
    using assms by (auto simp: hash_lists_def initRelay_def Let_def intro!: lseg_upt)
  have "relay_wf big ?st [0..<n] [] [0..<2 * n] (\<lambda>_. [])"
    using s h by (auto simp: relay_wf_def) (auto simp: initRelay_def Let_def lessThan_atLeast0)
  then show ?thesis by (rule relay_inv_I)
qed

lemma cleanSessions_wf:
  assumes "relay_wf big st fs as fh bl"
  shows "\<exists>st' fs' fh' bl'. cleanSessions env timeout st =
      Some (let mn = fold (\<lambda>s m. min (epoch (AllSessions st s)) m)
                       (filter (\<lambda>s. \<not> expired (jiffies env) timeout (epoch (AllSessions st s))) as) 0xFFFFFFFF
            in if mn = 0xFFFFFFFF then timeout else timeout - (jiffies env - mn), st') \<and>
    relay_wf big st' fs' (filter (\<lambda>s. \<not> expired (jiffies env) timeout (epoch (AllSessions st s))) as) fh' bl' \<and>
    (\<forall>x. epoch (AllSessions st' x) = epoch (AllSessions st x)) \<and> MaxSessions st' = MaxSessions st"
proof -
  have "lseg (sn st) (ActiveSessions st) as" using assms by (simp add: relay_wf_def ses_lists_def)
  then have hd: "ActiveSessions st = (case as of [] \<Rightarrow> None | s # _ \<Rightarrow> Some s)" by (rule lseg_head)
  obtain st' fs' fh' bl' where c: "clean_loop env timeout (ActiveSessions st) 0xFFFFFFFF st =
      Some (fold (\<lambda>s m. min (epoch (AllSessions st s)) m)
        (filter (\<lambda>s. \<not> expired (jiffies env) timeout (epoch (AllSessions st s))) as) 0xFFFFFFFF, st')"
    "relay_wf big st' fs' (filter (\<lambda>s. \<not> expired (jiffies env) timeout (epoch (AllSessions st s))) as) fh' bl'"
    "\<forall>x. epoch (AllSessions st' x) = epoch (AllSessions st x)" "MaxSessions st' = MaxSessions st"
    using clean_loop_wf [of big st fs "[]" as fh bl "ActiveSessions st" env timeout "0xFFFFFFFF"] assms hd
    by auto
  then have "cleanSessions env timeout st =
      Some (let mn = fold (\<lambda>s m. min (epoch (AllSessions st s)) m)
                       (filter (\<lambda>s. \<not> expired (jiffies env) timeout (epoch (AllSessions st s))) as) 0xFFFFFFFF
            in if mn = 0xFFFFFFFF then timeout else timeout - (jiffies env - mn), st')"
    by (simp add: cleanSessions_def Let_def)
  then show ?thesis using c(2-4) by blast
qed

lemma relay_handle_inv:
  assumes "relay_inv big st" "relay_handle env e st = Some st'"
  shows "relay_keeps big st st'"
proof (cases e)
  case (Discovery i m)
  then obtain r where "relayGotDiscoveryPacket env i m st = Some (r, st')" using assms(2) by (auto simp: relay_handle_def)
  then show ?thesis using discovery_inv assms(1) by blast
next
  case (Session_data i m)
  then obtain r where "relayGotSessionPacket env i m st = Some (r, st')" using assms(2) by (auto simp: relay_handle_def)
  then show ?thesis using session_packet_inv [OF assms(1), of env i m] by auto
next
  case (Idle_timer t)
  obtain fs as fh bl where wf: "relay_wf big st fs as fh bl" using assms(1) by (auto simp: relay_inv_def)
  show ?thesis using cleanSessions_wf [OF wf, of env t] assms(2) Idle_timer relay_inv_I
    by (auto simp: relay_handle_def Let_def)
next
  case (Add_interface i d cl ac)
  then show ?thesis using assms by (auto simp: relay_handle_def relayAddInterface_def split: option.splits)
next
  case (Remove_interface d)
  then show ?thesis using assms by (auto simp: relay_handle_def relayRemoveInterface_def)
next
  case Clear_interfaces
  then show ?thesis using assms by (auto simp: relay_handle_def relayInterfacesClear_def)
qed

lemma relay_reach_inv: "relay_reach big st \<Longrightarrow> relay_inv big st"
proof (induction rule: relay_reach.induct)
  case (start st st')
  then have "st' = snd (initRelay big True True 100 st)"
    by (auto simp: pppoe_relay_init_def Let_def split: prod.splits)
  then show ?case using initRelay_inv [of 100 st big] start by simp
next
  case (step st env e st')
  then show ?case using relay_handle_inv by blast
qed

section \<open>The handlers return\<close>

lemma dec_at:
  assumes "rd_be16 buf cur = Some ty" "rd_be16 buf (cur + 2) = Some l" "ty \<noteq> TAG_END_OF_LIST" "cur + l + TAG_HDR_SIZE \<le> length buf"
  shows "\<exists>t. tag_ok t \<and> tag_type t = ty \<and> length (tag_data t) = l \<and> drop cur buf = tag_bytes t @ drop (cur + TAG_HDR_SIZE + l) buf"
proof -
  have "cur + 3 < length buf" using assms(4) by (simp add: TAG_HDR_SIZE_def)
  then have r: "ty = be16 (buf ! cur) (buf ! (cur + 1))" "l = be16 (buf ! (cur + 2)) (buf ! (cur + 3))"
    using assms(1,2) rd_be16_in [of cur buf] rd_be16_in [of "cur + 2" buf] by (simp_all add: numeral_3_eq_3)
  have d: "drop cur buf = buf ! cur # buf ! (cur + 1) # buf ! (cur + 2) # buf ! (cur + 3) # drop (cur + 4) buf"
    using \<open>cur + 3 < length buf\<close> by (simp add: Cons_nth_drop_Suc numeral_eq_Suc)
  let ?t = "\<lparr>tag_type = ty, tag_data = take l (drop (cur + 4) buf)\<rparr>"
  have "dec_tag (drop cur buf) = Some (?t, drop l (drop (cur + 4) buf))"
    using assms(3,4) r unfolding d by (simp add: dec_tag_def TAG_HDR_SIZE_def)
  from pppoe.dec_sound [OF this] show ?thesis
    using assms(4) by (intro exI [of _ ?t]) (simp add: TAG_HDR_SIZE_def add.commute add.left_commute)
qed

lemma findTag_loop_NoneD:
  "findTag_loop buf len ty cur = None \<Longrightarrow> len \<le> length buf \<Longrightarrow>
   \<exists>ts rest. drop cur buf = encs tag_bytes ts @ rest \<and> (\<forall>t \<in> set ts. tag_ok t \<and> tag_type t \<noteq> ty) \<and>
     cur + length (encs tag_bytes ts) < len \<and> length rest \<le> 3"
proof (induction buf len ty cur rule: findTag_loop.induct)
  case (1 buf len ty cur)
  have cur: "cur < len" using "1.prems"(1) by (subst (asm) findTag_loop.simps) (simp split: if_splits)
  show ?case
  proof (cases "cur + 3 < length buf")
    case False
    then have "length (drop cur buf) \<le> 3" by simp
    then show ?thesis using cur by (intro exI [of _ "[]"] exI [of _ "drop cur buf"]) simp
  next
    case True
    then have "\<exists>x l. rd_be16 buf cur = Some x \<and> rd_be16 buf (cur + 2) = Some l"
      using rd_be16_in [of cur buf] rd_be16_in [of "cur + 2" buf] by (simp add: numeral_3_eq_3)
    then obtain x l where r: "rd_be16 buf cur = Some x" "rd_be16 buf (cur + 2) = Some l" by blast
    have c: "x \<noteq> TAG_END_OF_LIST" "\<not> cur + l + TAG_HDR_SIZE > len"
      using "1.prems"(1) cur r by (subst (asm) findTag_loop.simps, simp split: if_splits)+
    then have rb: "rd_bytes buf (cur + TAG_HDR_SIZE) l \<noteq> None" using "1.prems"(2) by (simp add: rd_bytes_def)
    then have n: "x \<noteq> ty" "findTag_loop buf len ty (cur + TAG_HDR_SIZE + l) = None"
      using "1.prems"(1) cur r c by (subst (asm) findTag_loop.simps, auto split: if_splits)+
    obtain t where t: "tag_ok t" "tag_type t = x" "drop cur buf = tag_bytes t @ drop (cur + TAG_HDR_SIZE + l) buf" "length (tag_data t) = l"
      using dec_at [OF r c(1)] c(2) "1.prems"(2) by auto
    obtain ts rest where ts: "drop (cur + TAG_HDR_SIZE + l) buf = encs tag_bytes ts @ rest"
      "\<forall>t \<in> set ts. tag_ok t \<and> tag_type t \<noteq> ty" "cur + TAG_HDR_SIZE + l + length (encs tag_bytes ts) < len" "length rest \<le> 3"
      using "1.IH" [OF cur r c n(1) n(2) "1.prems"(2)] by auto
    have "length (tag_bytes t) = TAG_HDR_SIZE + l" using t(4) by (simp add: tag_bytes_def TAG_HDR_SIZE_def)
    then show ?thesis using t ts n(1) by (intro exI [of _ "t # ts"] exI [of _ rest]) simp
  qed
qed

lemma findTag_loop_NoneI:
  "\<forall>t \<in> set ts. tag_ok t \<and> tag_type t \<noteq> ty \<Longrightarrow> length rest \<le> 3 \<Longrightarrow> length (pre @ encs tag_bytes ts) < len \<Longrightarrow>
   len \<le> length (pre @ encs tag_bytes ts @ rest) \<Longrightarrow> findTag_loop (pre @ encs tag_bytes ts @ rest) len ty (length pre) = None"
proof (induction ts arbitrary: pre)
  case Nil
  have "rd_be16 (pre @ rest) (length pre + 2) = None" using Nil.prems(2) by (auto simp: rd_be16_def bind_eq_None_conv rd_def)
  then show ?case using Nil.prems(3) by (subst findTag_loop.simps) (auto simp: bind_eq_None_conv)
next
  case (Cons t ts)
  have ok: "tag_ok t" "tag_type t \<noteq> TAG_END_OF_LIST" "tag_type t \<noteq> ty" using Cons.prems(1) by (auto simp: tag_ok_def TAG_END_OF_LIST_def)
  have l: "length (tag_bytes t) = TAG_HDR_SIZE + length (tag_data t)" by (simp add: tag_bytes_def TAG_HDR_SIZE_def)
  have "findTag_loop ((pre @ tag_bytes t) @ encs tag_bytes ts @ rest) len ty (length (pre @ tag_bytes t)) = None"
    by (rule Cons.IH) (use Cons.prems in auto)
  moreover have "length pre < len" "length pre + length (tag_bytes t) \<le> len" using Cons.prems(3) by simp_all
  ultimately show ?case
    using rd_tag_bytes [OF ok(1), of pre "encs tag_bytes ts @ rest"] ok
    by (subst findTag_loop.simps) (simp add: l algebra_simps)
qed

text \<open>
  The tags before the end of the length field are not of the type \<open>ty\<close>, and at most three bytes of the
  packet follow them: the header that the loop reads next is not whole.
\<close>

definition cut_off :: "nat \<Rightarrow> PPPoEPacket \<Rightarrow> bool" where
  "cut_off ty m \<longleftrightarrow> plen m \<le> MAX_PPPOE_PAYLOAD \<and>
     (\<exists>ts rest. payload m = encs tag_bytes ts @ rest \<and> (\<forall>t \<in> set ts. tag_ok t \<and> tag_type t \<noteq> ty) \<and>
        length (encs tag_bytes ts) < plen m \<and> length rest \<le> 3)"

lemma relay_findTag_None:
  assumes "plen m \<le> length (payload m)" "ver m = 1" "ptype m = 1"
  shows "relay_findTag m ty = None \<longleftrightarrow> cut_off ty m"
proof
  assume "relay_findTag m ty = None"
  then have "plen m \<le> MAX_PPPOE_PAYLOAD" "findTag_loop (payload m) (plen m) ty 0 = None"
    using assms(2,3) by (simp_all add: relay_findTag_def findTag_def pppoe_consts split: if_splits)
  then show "cut_off ty m" using findTag_loop_NoneD [of "payload m" "plen m" ty 0] assms(1) by (auto simp: cut_off_def)
next
  assume "cut_off ty m"
  then obtain ts rest where c: "plen m \<le> MAX_PPPOE_PAYLOAD" "payload m = encs tag_bytes ts @ rest"
    "\<forall>t \<in> set ts. tag_ok t \<and> tag_type t \<noteq> ty" "length (encs tag_bytes ts) < plen m" "length rest \<le> 3"
    by (auto simp: cut_off_def)
  then show "relay_findTag m ty = None"
    using findTag_loop_NoneI [of ts ty rest "[]" "plen m"] assms by (simp add: relay_findTag_def findTag_def pppoe_consts)
qed

text \<open>What the handlers need of a packet.\<close>

definition readable :: "PPPoEPacket \<Rightarrow> bool" where
  "readable m \<longleftrightarrow> plen m \<le> length (payload m) \<and> relay_findTag m TAG_RELAY_SESSION_ID \<noteq> None \<and>
     (code m = CODE_PADS \<longrightarrow> relay_findTag m TAG_HOST_UNIQ \<noteq> None)"

lemma readable_room: "plen m + 3 \<le> length (payload m) \<Longrightarrow> readable m"
  using findTag_safe by (auto simp: readable_def relay_findTag_def)

lemma relay_tag_lookup_returns:
  assumes "readable m"
  obtains r where "relay_tag_lookup env ok iface m st = Some r"
    "\<And>loc tag n. r = Some (loc, tag, n) \<Longrightarrow> loc + TAG_HDR_SIZE + MY_RELAY_TAG_LEN \<le> plen m"
proof -
  obtain q where q: "relay_findTag m TAG_RELAY_SESSION_ID = Some q"
    using assms by (auto simp: readable_def)
  show thesis
  proof (cases q)
    case None
    then show ?thesis using that [of None] q by (simp add: relay_tag_lookup_def)
  next
    case (Some lt)
    obtain loc tag where lt: "lt = (loc, tag)" by (cases lt)
    have "findTag m TAG_RELAY_SESSION_ID = Some (Some (loc, tag))" using q Some lt by (simp add: relay_findTag_def)
    then have "loc + TAG_HDR_SIZE + length (tag_data tag) \<le> plen m"
      using findTag_loop_sound [of "payload m" "plen m" TAG_RELAY_SESSION_ID 0 loc tag]
      by (auto simp: findTag_def split: if_splits)
    then show ?thesis
      by (cases "relay_tag_lookup env ok iface m st")
        (use q Some lt that in \<open>auto simp: relay_tag_lookup_def Let_def split: if_splits option.splits\<close>)
  qed
qed

lemma wr_bytes_fits: "n + length bs \<le> length buf \<Longrightarrow> \<exists>p. wr_bytes buf n bs = Some p"
  by (simp add: wr_bytes_def)

lemma reverse_relay_tag_returns:
  assumes "loc + TAG_HDR_SIZE + MY_RELAY_TAG_LEN \<le> plen m" "plen m \<le> length (payload m)" "length (h_source m) = 6"
  shows "reverse_relay_tag env loc i m \<noteq> None"
proof -
  have l: "length (int_bytes (big_endian env) i) = 4" by (simp add: int_bytes_def Let_def)
  obtain p where p: "wr_bytes (payload m) (loc + TAG_HDR_SIZE) (int_bytes (big_endian env) i) = Some p"
    using wr_bytes_fits [of "loc + TAG_HDR_SIZE" "int_bytes (big_endian env) i" "payload m"] assms l
    by (auto simp: MY_RELAY_TAG_LEN_def)
  obtain p' where "wr_bytes p (loc + TAG_HDR_SIZE + 4) (h_source m) = Some p'"
    using wr_bytes_fits [of "loc + TAG_HDR_SIZE + 4" "h_source m" p] length_wr_bytes [OF p] assms
    by (auto simp: MY_RELAY_TAG_LEN_def)
  then show ?thesis using p by (simp add: reverse_relay_tag_def)
qed

lemma pads_session_returns:
  assumes "relay_inv big st" "readable m" "code m = CODE_PADS" "loc + TAG_HDR_SIZE + MY_RELAY_TAG_LEN \<le> plen m"
  shows "pads_session env iface n loc m st \<noteq> None"
proof -
  obtain f where f: "findSession (h_source m) (session m) False st = Some f" using findSession_returns assms(1) by blast
  obtain cm where cm: "rd_bytes (payload m) (loc + TAG_HDR_SIZE + 4) 6 = Some cm"
    using assms(2,4) by (simp add: rd_bytes_def readable_def MY_RELAY_TAG_LEN_def)
  obtain s st1 where c: "createSession env (dev iface) (dev n) (h_source m) cm (session m) st = Some (s, st1)"
    using createSession_inv [OF assms(1)] by blast
  obtain hu where hu: "relay_findTag m TAG_HOST_UNIQ = Some hu"
    using assms(2,3) by (auto simp: readable_def)
  obtain x where x: "relaySendError env CODE_PADS (htons (big_endian env) 0) (dev n) cm
      (map_option snd hu) err_no_session st1 = Some (st1\<lparr>sent := x\<rparr>)" using relaySendError_returns by blast
  obtain y where "relaySendError env CODE_PADT (session m) (dev iface) (h_source m) None err_no_session
      (st1\<lparr>sent := x\<rparr>) = Some y" using relaySendError_returns by blast
  then show ?thesis using f cm c hu x by (simp add: pads_session_def split: option.split)
qed

lemma removeBytes_returns:
  "plen m \<le> length (payload m) \<Longrightarrow> removeBytes m loc len \<noteq> None"
  by (auto simp: removeBytes_def rd_bytes_def wr_bytes_def)

lemma bind_returns: "x \<noteq> None \<Longrightarrow> (\<And>a. x = Some a \<Longrightarrow> f a \<noteq> None) \<Longrightarrow> Option.bind x f \<noteq> None"
  by (cases x) auto

lemma discovery_returns:
  assumes inv: "relay_inv big st" and m: "readable m" "length (h_source m) = 6"
  shows "relayGotDiscoveryPacket env iface m st \<noteq> None"
proof -
  have l: "plen m \<le> length (payload m)" using m(1) by (simp add: readable_def)
  have "relayHandlePADT env iface m st \<noteq> None" using PADT_inv [OF inv, of env iface m] by auto
  moreover have "relayHandlePADI env iface m st \<noteq> None"
    using m(1) by (auto simp: relayHandlePADI_def readable_def split: option.split)
  moreover have "relayHandlePADO env iface m st \<noteq> None"
  proof (rule relay_tag_lookup_returns [OF m(1), of env clientOK iface st])
    fix r assume r: "relay_tag_lookup env clientOK iface m st = Some r"
      "\<And>loc tag n. r = Some (loc, tag, n) \<Longrightarrow> loc + TAG_HDR_SIZE + MY_RELAY_TAG_LEN \<le> plen m"
    show ?thesis
    proof (cases r)
      case (Some x)
      obtain loc tag n where x: "x = (loc, tag, n)" by (cases x)
      obtain p where "reverse_relay_tag env loc (ifindex (dev iface)) m = Some p"
        using reverse_relay_tag_returns [OF _ l m(2)] r(2) Some x by blast
      then show ?thesis using r(1) Some x by (auto simp: relayHandlePADO_def Let_def)
    qed (use r(1) in \<open>simp add: relayHandlePADO_def\<close>)
  qed
  moreover have "relayHandlePADR env iface m st \<noteq> None"
  proof (rule relay_tag_lookup_returns [OF m(1), of env acOK iface st])
    fix r assume r: "relay_tag_lookup env acOK iface m st = Some r"
      "\<And>loc tag n. r = Some (loc, tag, n) \<Longrightarrow> loc + TAG_HDR_SIZE + MY_RELAY_TAG_LEN \<le> plen m"
    show ?thesis
    proof (cases r)
      case (Some x)
      obtain loc tag n where x: "x = (loc, tag, n)" by (cases x)
      obtain p where "reverse_relay_tag env loc (ifindex (dev iface)) m = Some p"
        using reverse_relay_tag_returns [OF _ l m(2)] r(2) Some x by blast
      then show ?thesis using r(1) Some x by (auto simp: relayHandlePADR_def Let_def)
    qed (use r(1) in \<open>simp add: relayHandlePADR_def\<close>)
  qed
  moreover have "relayHandlePADS env iface m st \<noteq> None" if pads: "code m = CODE_PADS"
  proof (rule relay_tag_lookup_returns [OF m(1), of env clientOK iface st])
    fix r assume r: "relay_tag_lookup env clientOK iface m st = Some r"
      "\<And>loc tag n. r = Some (loc, tag, n) \<Longrightarrow> loc + TAG_HDR_SIZE + MY_RELAY_TAG_LEN \<le> plen m"
    show ?thesis
    proof (cases r)
      case (Some x)
      obtain loc tag n where x: "x = (loc, tag, n)" by (cases x)
      obtain p where p: "pads_session env iface n loc m st = Some p"
        using pads_session_returns [OF inv m(1) pads] r(2) Some x by blast
      show ?thesis
      proof (cases "fst p")
        case None
        then show ?thesis using p r(1) Some x by (cases p) (auto simp: relayHandlePADS_def)
      next
        case k: (Some k)
        obtain q where "removeBytes (m\<lparr>session := k\<rparr>) loc (MY_RELAY_TAG_LEN + TAG_HDR_SIZE) = Some q"
          using removeBytes_returns [of "m\<lparr>session := k\<rparr>"] l by fastforce
        then show ?thesis using k p r(1) Some x by (cases p; cases q) (auto simp: relayHandlePADS_def Let_def)
      qed
    qed (use r(1) in \<open>simp add: relayHandlePADS_def\<close>)
  qed
  ultimately show ?thesis unfolding relayGotDiscoveryPacket_def by simp
qed


lemma relay_handle_returns:
  assumes inv: "relay_inv big st"
    and m: "\<And>i m. e = Discovery i m \<Longrightarrow> readable m \<and> length (h_source m) = 6"
  shows "\<exists>st'. relay_handle env e st = Some st'"
proof (cases e)
  case (Discovery i m)
  then show ?thesis using discovery_returns [OF inv, of m env i] assms(2) by (auto simp: relay_handle_def)
next
  case (Session_data i m)
  then show ?thesis using session_packet_inv [OF inv, of env i m] by (auto simp: relay_handle_def)
next
  case (Idle_timer t)
  obtain fs as fh bl where wf: "relay_wf big st fs as fh bl" using inv by (auto simp: relay_inv_def)
  show ?thesis using cleanSessions_wf [OF wf, of env t] Idle_timer by (auto simp: relay_handle_def)
qed (simp_all add: relay_handle_def)

text \<open>The active sessions, as the list is linked.\<close>

definition active_sessions :: "relay \<Rightarrow> nat list" where
  "active_sessions st = chain_nodes (MaxSessions st) (\<lambda>i. ses_next (AllSessions st i)) (ActiveSessions st)"

lemma active_sessions_wf: "relay_wf big st fs as fh bl \<Longrightarrow> active_sessions st = as"
  unfolding active_sessions_def
  by (rule chain_nodes_lseg) (use relay_wf_counts [of big st fs as fh bl] in \<open>auto simp: relay_wf_def ses_lists_def\<close>)

section \<open>A running relay\<close>

text \<open>
  A little-endian relay with a client on interface 2 and an access concentrator on interface 3;
  the concentrator answers a PADR with a PADS for its session 0x0700.
\<close>

definition demo_env :: relay_env where
  "demo_env = \<lparr>jiffies = 1000, big_endian = False, padto_ok = True, copy_ok = (\<lambda>_. True), skb_ok = True\<rparr>"

definition demo_client_if :: net_device where
  "demo_client_if = \<lparr>dev_id = 2, ifindex = 2, dev_addr = [2, 0, 0, 0, 0, 2], if_up = True\<rparr>"

definition demo_ac_if :: net_device where
  "demo_ac_if = \<lparr>dev_id = 3, ifindex = 3, dev_addr = [2, 0, 0, 0, 0, 3], if_up = True\<rparr>"

definition demo_boot :: relay where
  "demo_boot = \<lparr>if_head = [], NumSessions = 0, MaxSessions = 0,
     AllSessions = (\<lambda>_. \<lparr>ses_next = None, ses_prev = None, acHash = 0, clientHash = 0, epoch = 0, ses_sesNum = 0\<rparr>),
     FreeSessions = None, ActiveSessions = None,
     AllHashes = (\<lambda>_. \<lparr>h_next = None, h_prev = None, peer = 0, interface = demo_ac_if, peerMac = [], h_sesNum = 0, ses = 0\<rparr>),
     FreeHashes = None, Buckets = (\<lambda>_. None), sent = []\<rparr>"

definition demo_idle :: relay where
  "demo_idle = snd (relayAddInterface (Some 3) demo_ac_if False True
     (snd (relayAddInterface (Some 2) demo_client_if True False (snd (pppoe_relay_init False True True demo_boot)))))"

definition demo_client :: pppoe_if_t where "demo_client = \<lparr>if_id = 2, dev = demo_client_if, acOK = False, clientOK = True\<rparr>"
definition demo_ac :: pppoe_if_t where "demo_ac = \<lparr>if_id = 3, dev = demo_ac_if, acOK = True, clientOK = False\<rparr>"

definition demo_pads :: PPPoEPacket where
  "demo_pads = (let t = tag_bytes \<lparr>tag_type = TAG_SERVICE_NAME, tag_data = []\<rparr> @
                        tag_bytes (relay_tag demo_env 2 [0, 1, 2, 3, 4, 5]) in
     \<lparr>h_dest = [2, 0, 0, 0, 0, 3], h_source = [0, 9, 9, 9, 9, 9], h_proto = 0x8863, ver = 1, ptype = 1,
      code = CODE_PADS, session = 0x0700, plen = length t, payload = t @ replicate 40 0\<rparr>)"

definition demo_running :: relay where
  "demo_running = the (relay_handle demo_env (Discovery demo_ac demo_pads) demo_idle)"

lemma demo_idle_reach: "relay_reach False demo_idle"
proof -
  have "relay_reach False (snd (pppoe_relay_init False True True demo_boot))"
    by (rule relay_reach.start [of demo_boot]) (simp_all add: demo_boot_def pppoe_relay_init_def initRelay_def Let_def)
  then have "relay_reach False (snd (relayAddInterface (Some 2) demo_client_if True False
      (snd (pppoe_relay_init False True True demo_boot))))"
    by (rule relay_reach.step [of _ _ demo_env "Add_interface (Some 2) demo_client_if True False"])
      (simp_all add: relay_handle_def demo_env_def)
  then show ?thesis unfolding demo_idle_def
    by (rule relay_reach.step [of _ _ demo_env "Add_interface (Some 3) demo_ac_if False True"])
      (simp_all add: relay_handle_def demo_env_def)
qed

lemma demo_pads_ok: "readable demo_pads \<and> length (h_source demo_pads) = 6"
  by (intro conjI readable_room) (simp_all add: demo_pads_def Let_def tag_bytes_def relay_tag_def int_bytes_def)

lemma demo_running_reach: "relay_reach False demo_running"
proof (rule relay_reach.step [OF demo_idle_reach])
  show "relay_handle demo_env (Discovery demo_ac demo_pads) demo_idle = Some demo_running"
    using relay_handle_returns [OF relay_reach_inv [OF demo_idle_reach], of "Discovery demo_ac demo_pads" demo_env]
      demo_pads_ok by (auto simp: demo_running_def)
qed (simp add: demo_env_def)

end
