(* ===== verification/Relay_Routing.thy ===== *)
theory Relay_Routing
  imports Relay_Props
begin

text \<open>
  Where the relay sends what: the relay tag written into discovery packets and read back from
  them, the opening of a session by a PADS, session data in both directions, the refusal of a
  full table; and the properties of the relay.
\<close>

section \<open>The bytes of a relay tag\<close>

lemma int_bytes_length [simp]: "length (int_bytes big w) = 4"
  by (simp add: int_bytes_def Let_def)

lemma bytes_int_bytes [simp]: "bytes_int big (int_bytes big w) = w"
proof -
  let ?w = "push_bit 24 (ucast (ucast (drop_bit 24 w) :: u8)) OR push_bit 16 (ucast (ucast (drop_bit 16 w) :: u8)) OR
      push_bit 8 (ucast (ucast (drop_bit 8 w) :: u8)) OR ucast (ucast w :: u8) :: u32"
  have "?w = w"
  proof (rule bit_word_eqI)
    fix n assume n: "n < LENGTH(32)"
    consider "n < 8" | "8 \<le> n \<and> n < 16" | "16 \<le> n \<and> n < 24" | "24 \<le> n" by linarith
    then show "bit ?w n = bit w n"
      by cases (use n in \<open>auto simp: bit_simps\<close>)
  qed
  then show ?thesis by (simp add: bytes_int_def int_bytes_def Let_def numeral_3_eq_3 numeral_2_eq_2)
qed

lemma relay_tag_fields:
  assumes "length m = 6"
  shows "length (tag_data (relay_tag env i m)) = MY_RELAY_TAG_LEN"
    "bytes_int (big_endian env) (take 4 (tag_data (relay_tag env i m))) = i"
    "bytes_int (big_endian env) (take 4 (drop 10 (tag_data (relay_tag env i m)))) = JUNGO_RELAY_MAGIC"
    "take 6 (drop 4 (tag_data (relay_tag env i m))) = m"
    "tag_type (relay_tag env i m) = TAG_RELAY_SESSION_ID"
    "tag_ok (relay_tag env i m)"
  using assms by (simp_all add: relay_tag_def MY_RELAY_TAG_LEN_def tag_ok_def TAG_RELAY_SESSION_ID_def)

text \<open>The position of the relay tag.\<close>

lemma findTag_split:
  assumes "pkt_ok p" "tags_of p = Some (ts @ t # us)" "tag_type t = ty" "\<forall>u \<in> set ts. tag_type u \<noteq> ty"
  shows "findTag p ty = Some (Some (length (encs tag_bytes ts), t))"
proof -
  have "List.find (\<lambda>t. tag_type t = ty) (ts @ t # us) = Some t" "takeWhile (\<lambda>t. tag_type t \<noteq> ty) (ts @ t # us) = ts"
    using assms(3,4) by (induction ts) auto
  then show ?thesis using findTag_tags [OF assms(1,2), of ty] by simp
qed

lemma relay_tag_lookup_tags:
  assumes "pkt_ok p" "tags_of p = Some (ts @ relay_tag env i m # us)" "length m = 6"
    "\<forall>u \<in> set ts. tag_type u \<noteq> TAG_RELAY_SESSION_ID"
    "if_by_index i st = Some n" "\<not> i <s 0" "ok n" "if_id iface \<noteq> if_id n"
  shows "relay_tag_lookup env ok iface p st = Some (Some (length (encs tag_bytes ts), relay_tag env i m, n))"
proof -
  note f = findTag_split [OF assms(1,2) relay_tag_fields(5) [OF assms(3)] assms(4)]
  then show ?thesis using assms relay_tag_fields(1-4) [OF assms(3), of env i]
    by (simp add: relay_tag_lookup_def relay_findTag_def Let_def)
qed

text \<open>What the tag and packet operations do to the tag list.\<close>

lemma addTag_tags:
  assumes "tags_of p = Some ts" "plen p \<le> length (payload p)" "tag_ok t" "addTag env p t = Some q"
  shows "tags_of q = Some (ts @ [t])" "pkt_ok p \<Longrightarrow> pkt_ok q"
    "q = p\<lparr>payload := payload q, plen := plen q\<rparr>" "plen q \<le> length (payload q)"
proof -
  note s = tags_of_split [OF assms(1,2)]
  have l: "length (tag_bytes t) = length (tag_data t) + TAG_HDR_SIZE" by (simp add: tag_bytes_def TAG_HDR_SIZE_def)
  have q: "take (plen q) (payload q) = take (plen p) (payload p) @ tag_bytes t"
    "plen q = plen p + length (tag_bytes t)" "plen q \<le> length (payload q)" "plen q \<le> MAX_PPPOE_PAYLOAD"
    "q = p\<lparr>payload := payload q, plen := plen q\<rparr>"
    using assms(2,4) l by (auto simp: addTag_def Let_def pppoe_consts split: if_splits)
  have e: "take (plen p) (payload p) = encs tag_bytes ts" using s(1,2) by (metis append_Nil append_take_drop_id assms(2) append_eq_append_conv length_take min_absorb2 list.size(3) add_0)
  have "decs dec_tag (encs tag_bytes (ts @ [t])) = Some (ts @ [t])"
    by (rule pppoe.decs_encs) (use s(3) assms(3) in auto)
  then show "tags_of q = Some (ts @ [t])" unfolding tags_of_def q(1) e by simp
  show "plen q \<le> length (payload q)" "q = p\<lparr>payload := payload q, plen := plen q\<rparr>" by fact+
  show "pkt_ok p \<Longrightarrow> pkt_ok q" using q(3,4) by (subst q(5)) (simp add: pkt_ok_def)
qed


lemma reverse_relay_tag_tags:
  assumes "pkt_ok p" "tags_of p = Some (ts @ relay_tag env i m # us)" "length m = 6" "length (h_source p) = 6"
  shows "\<exists>b. reverse_relay_tag env (length (encs tag_bytes ts)) j p = Some b \<and> length b = length (payload p) \<and>
    tags_of (p\<lparr>payload := b\<rparr>) = Some (ts @ relay_tag env j (h_source p) # us)"
proof -
  let ?n = "length (encs tag_bytes ts)"
  have l: "plen p \<le> length (payload p)" using assms(1) by (simp add: pkt_ok_def)
  note s = tags_of_split [OF assms(2) l]
  define rest where "rest = drop (plen p) (payload p)"
  have tb: "tag_bytes (relay_tag env k x) = [hi8 TAG_RELAY_SESSION_ID, lo8 TAG_RELAY_SESSION_ID, hi8 MY_RELAY_TAG_LEN, lo8 MY_RELAY_TAG_LEN] @
      int_bytes (big_endian env) k @ x @ int_bytes (big_endian env) JUNGO_RELAY_MAGIC" if "length x = 6" for k x
    using that by (simp add: tag_bytes_def relay_tag_def MY_RELAY_TAG_LEN_def)
  have p: "payload p = encs tag_bytes ts @ tag_bytes (relay_tag env i m) @ encs tag_bytes us @ rest"
    using s(1) by (simp add: rest_def)
  have len: "length (tag_bytes (relay_tag env k x)) = 18" if "length x = 6" for k x
    using that by (simp add: tag_bytes_def relay_tag_def)
  define b where "b = encs tag_bytes ts @ tag_bytes (relay_tag env j (h_source p)) @ encs tag_bytes us @ rest"
  have "reverse_relay_tag env ?n j p = Some b"
    unfolding reverse_relay_tag_def p b_def
    using assms(3,4) by (simp add: tb wr_bytes_def TAG_HDR_SIZE_def)
  moreover have "length b = length (payload p)" using assms(3,4) by (simp add: b_def p len)
  moreover have "tags_of (p\<lparr>payload := b\<rparr>) = Some (ts @ relay_tag env j (h_source p) # us)"
  proof -
    have "take (plen p) b = encs tag_bytes (ts @ relay_tag env j (h_source p) # us)"
      using s(2) assms(3,4) by (simp add: b_def len)
    moreover have "decs dec_tag (encs tag_bytes (ts @ relay_tag env j (h_source p) # us)) =
        Some (ts @ relay_tag env j (h_source p) # us)"
      by (rule pppoe.decs_encs) (use s(3) relay_tag_fields(6) [OF assms(4)] in auto)
    ultimately show ?thesis by (simp add: tags_of_def)
  qed
  ultimately show ?thesis by blast
qed

lemma removeBytes_tags:
  assumes "pkt_ok p" "tags_of p = Some (ts @ relay_tag env i m # us)" "length m = 6"
  shows "\<exists>q. removeBytes p (length (encs tag_bytes ts)) (MY_RELAY_TAG_LEN + TAG_HDR_SIZE) = Some (18, q) \<and>
    tags_of q = Some (ts @ us) \<and> q = p\<lparr>payload := payload q, plen := plen q\<rparr> \<and> plen q = plen p - 18 \<and>
    length (payload q) = length (payload p)"
proof -
  let ?n = "length (encs tag_bytes ts)"
  have l: "plen p \<le> length (payload p)" "plen p \<le> MAX_PPPOE_PAYLOAD" using assms(1) by (simp_all add: pkt_ok_def)
  note s = tags_of_split [OF assms(2) l(1)]
  define rest where "rest = drop (plen p) (payload p)"
  have p: "payload p = encs tag_bytes ts @ tag_bytes (relay_tag env i m) @ encs tag_bytes us @ rest"
    using s(1) by (simp add: rest_def)
  have len: "length (tag_bytes (relay_tag env i m)) = 18" using assms(3) by (simp add: tag_bytes_def relay_tag_def)
  have pl: "plen p = ?n + 18 + length (encs tag_bytes us)" using s(2) len by simp
  have rd: "rd_bytes (payload p) (?n + 18) (plen p - ?n - 18) = Some (encs tag_bytes us)"
    using pl len by (simp add: p rd_bytes_def)
  have n: "MY_RELAY_TAG_LEN + TAG_HDR_SIZE = 18" by (simp add: MY_RELAY_TAG_LEN_def TAG_HDR_SIZE_def)
  obtain b where b: "wr_bytes (payload p) ?n (encs tag_bytes us) = Some b"
    using wr_bytes_fits [of ?n "encs tag_bytes us" "payload p"] by (auto simp: p)
  have tb: "take (plen p - 18) b = encs tag_bytes (ts @ us)" using b pl by (auto simp: wr_bytes_def p split: if_splits)
  have r: "removeBytes p ?n (MY_RELAY_TAG_LEN + TAG_HDR_SIZE) = Some (18, p\<lparr>payload := b, plen := plen p - 18\<rparr>)"
    unfolding n using rd b pl l by (simp add: removeBytes_def pppoe_consts)
  have "decs dec_tag (encs tag_bytes (ts @ us)) = Some (ts @ us)" by (rule pppoe.decs_encs) (use s(3) in auto)
  then have "tags_of (p\<lparr>payload := b, plen := plen p - 18\<rparr>) = Some (ts @ us)" by (simp add: tags_of_def tb)
  then show ?thesis using r length_wr_bytes [OF b] by (intro exI [of _ "p\<lparr>payload := b, plen := plen p - 18\<rparr>"]) simp
qed

section \<open>Session packets after a PADS\<close>

lemma findSession_unique:
  assumes wf: "relay_wf big st fs as fh bl" and s: "s \<in> set as" "hash_of st s h"
    and h: "peerMac (AllHashes st h) = m" "h_sesNum (AllHashes st h) = n"
    and u: "\<And>x g. x \<in> set as \<Longrightarrow> hash_of st x g \<Longrightarrow> peerMac (AllHashes st g) = m \<Longrightarrow>
      h_sesNum (AllHashes st g) = n \<Longrightarrow> g = h"
  shows "findSession m n False st = Some (Some h)"
proof (rule findSession_wf [OF wf, of m n])
  fix r assume r: "findSession m n False st = Some r"
    "\<And>h. r = Some h \<Longrightarrow> (\<exists>s \<in> set as. hash_of st s h) \<and> peerMac (AllHashes st h) = m \<and> h_sesNum (AllHashes st h) = n"
    "r = None \<Longrightarrow> \<forall>s \<in> set as. \<forall>h. hash_of st s h \<longrightarrow> \<not> (peerMac (AllHashes st h) = m \<and> h_sesNum (AllHashes st h) = n)"
  show ?thesis
  proof (cases r)
    case None
    then show ?thesis using r(3) s h by blast
  next
    case (Some g)
    then have "g = h" using r(2) u by blast
    then show ?thesis using r(1) Some by simp
  qed
qed

lemma session_number: "x < 65535 \<Longrightarrow> unat (word_of_nat (x + 1) :: u16) = x + 1"
  by (simp only: unat_of_nat) simp

lemma session_number_inj:
  assumes "x < 65535" "y < 65535" "(word_of_nat (x + 1) :: u16) = word_of_nat (y + 1)"
  shows "x = y"
proof -
  have "x + 1 = unat (word_of_nat (x + 1) :: u16)" by (rule session_number [OF assms(1), symmetric])
  also have "\<dots> = unat (word_of_nat (y + 1) :: u16)" by (rule arg_cong [OF assms(3)])
  also have "\<dots> = y + 1" by (rule session_number [OF assms(2)])
  finally show ?thesis by simp
qed

definition data_ok :: "PPPoEPacket \<Rightarrow> pppoe_if_t \<Rightarrow> bool" where
  "data_ok d i \<longleftrightarrow> ver d = 1 \<and> ptype d = 1 \<and> code d = CODE_SESS \<and> h_dest d = dev_addr (dev i) \<and>
     plen d \<le> length (payload d)"

lemma session_data_sent:
  assumes "data_ok d i" "findSession (h_source d) (session d) False st = Some (Some h)"
  shows "\<exists>st'. relayGotSessionPacket env i d st = Some (0, st') \<and>
    sent st' = sent st @ [(interface (AllHashes st (peer (AllHashes st h))),
      d\<lparr>session := h_sesNum (AllHashes st (peer (AllHashes st h))),
        h_source := dev_addr (interface (AllHashes st (peer (AllHashes st h)))),
        h_dest := peerMac (AllHashes st (peer (AllHashes st h)))\<rparr>)]"
  using assms by (simp add: relayGotSessionPacket_def data_ok_def Let_def)

text \<open>
  \<open>sessions_linked st s ai A n ci C\<close>: data from the client \<open>C\<close> under the number of session
  \<open>s\<close> goes to the concentrator \<open>A\<close> on \<open>ai\<close> under its number \<open>n\<close>, and back.
\<close>

definition sessions_linked :: "relay \<Rightarrow> u16 \<Rightarrow> net_device \<Rightarrow> mac \<Rightarrow> u16 \<Rightarrow> net_device \<Rightarrow> mac \<Rightarrow> bool" where
  "sessions_linked st k ai A n ci C \<longleftrightarrow>
     (\<forall>env i d. data_ok d i \<longrightarrow> h_source d = C \<longrightarrow> session d = k \<longrightarrow>
        (\<exists>st'. relayGotSessionPacket env i d st = Some (0, st') \<and>
          sent st' = sent st @ [(ai, d\<lparr>session := n, h_source := dev_addr ai, h_dest := A\<rparr>)])) \<and>
     (\<forall>env i d. data_ok d i \<longrightarrow> h_source d = A \<longrightarrow> session d = n \<longrightarrow>
        (\<exists>st'. relayGotSessionPacket env i d st = Some (0, st') \<and>
          sent st' = sent st @ [(ci, d\<lparr>session := k, h_source := dev_addr ci, h_dest := C\<rparr>)]))"

lemma relaySendError_sends:
  assumes "skb_ok env" "length msg \<le> 1400"
  shows "\<exists>m. relaySendError env c n d mac None msg st = Some (relay_enqueue d m st) \<and>
    code m = c \<and> session m = n \<and> h_dest m = mac \<and> h_source m = dev_addr d \<and>
    tags_of m = Some [\<lparr>tag_type = TAG_GENERIC_ERROR, tag_data = msg\<rparr>]"
proof -
  let ?t = "\<lparr>tag_type = TAG_GENERIC_ERROR, tag_data = msg\<rparr>"
  define p0 where "p0 = \<lparr>h_dest = mac, h_source = dev_addr d, h_proto = 0x8863, ver = 1, ptype = 1,
                    code = c, session = n, plen = 0, payload = replicate ETH_DATA_LEN 0\<rparr>"
  have l: "length (tag_bytes ?t) = 4 + length msg" by (simp add: tag_bytes_def)
  define q where "q = p0\<lparr>payload := tag_bytes ?t @ drop (4 + length msg) (payload p0), plen := 4 + length msg\<rparr>"
  have i: "insertBytes p0 0 (tag_bytes ?t) = Some (int (4 + length msg), q)"
    using assms(2) l by (simp add: insertBytes_def p0_def q_def pppoe_consts rd_bytes_def wr_bytes_def)
  have "relaySendError env c n d mac None msg st = Some (relay_send_packet env d q st)"
    unfolding relaySendError_def Let_def p0_def [symmetric] using i by simp
  then have "relaySendError env c n d mac None msg st = Some (relay_enqueue d (q\<lparr>payload := tag_bytes ?t\<rparr>) st)"
    using assms(1) l by (simp add: relay_send_packet_def q_def)
  moreover have "decs dec_tag (encs tag_bytes [?t]) = Some [?t]"
    by (rule pppoe.decs_encs) (use assms(2) in \<open>simp add: tag_ok_def TAG_GENERIC_ERROR_def\<close>)
  then have "tags_of (q\<lparr>payload := tag_bytes ?t\<rparr>) = Some [?t]" using l by (simp add: tags_of_def q_def)
  ultimately show ?thesis by (intro exI [of _ "q\<lparr>payload := tag_bytes ?t\<rparr>"]) (simp add: q_def p0_def)
qed

lemma session_packet_enqueue:
  assumes "relayGotSessionPacket env i d st = Some (0, st')" "sent st' = sent st @ xs"
  shows "\<exists>u. relayGotSessionPacket env i d (relay_enqueue e m st) = Some (0, u) \<and>
    sent u = sent (relay_enqueue e m st) @ xs"
proof -
  have f: "findSession a b False (relay_enqueue e m st) = findSession a b False st" for a b
    by (simp add: findSession_def)
  show ?thesis
  proof (cases "findSession (h_source d) (session d) False st")
    case None
    then show ?thesis using assms(1) by (auto simp: relayGotSessionPacket_def split: if_splits)
  next
    case (Some r)
    then show ?thesis using assms
      by (cases r) (auto simp: relayGotSessionPacket_def f Let_def split: if_splits)
  qed
qed

lemma sessions_linked_enqueue:
  assumes "sessions_linked st k ai A n ci C"
  shows "sessions_linked (relay_enqueue e m st) k ai A n ci C"
  unfolding sessions_linked_def
proof (intro conjI allI impI)
  fix env i d assume d: "data_ok d i" "h_source d = C" "session d = k"
  obtain st' where "relayGotSessionPacket env i d st = Some (0, st')"
    "sent st' = sent st @ [(ai, d\<lparr>session := n, h_source := dev_addr ai, h_dest := A\<rparr>)]"
    using assms d unfolding sessions_linked_def by blast
  then show "\<exists>st'. relayGotSessionPacket env i d (relay_enqueue e m st) = Some (0, st') \<and>
      sent st' = sent (relay_enqueue e m st) @ [(ai, d\<lparr>session := n, h_source := dev_addr ai, h_dest := A\<rparr>)]"
    by (rule session_packet_enqueue)
next
  fix env i d assume d: "data_ok d i" "h_source d = A" "session d = n"
  obtain st' where "relayGotSessionPacket env i d st = Some (0, st')"
    "sent st' = sent st @ [(ci, d\<lparr>session := k, h_source := dev_addr ci, h_dest := C\<rparr>)]"
    using assms d unfolding sessions_linked_def by blast
  then show "\<exists>st'. relayGotSessionPacket env i d (relay_enqueue e m st) = Some (0, st') \<and>
      sent st' = sent (relay_enqueue e m st) @ [(ci, d\<lparr>session := k, h_source := dev_addr ci, h_dest := C\<rparr>)]"
    by (rule session_packet_enqueue)
qed

lemma createSession_links:
  assumes wf: "relay_wf big st fs as fh bl" and free: "NumSessions st < MaxSessions st"
    and max: "MaxSessions st \<le> 65535" and AC: "A \<noteq> C"
    and new: "findSession A n False st = Some None"
    and client: "\<forall>x \<in> set as. peerMac (AllHashes st (acHash (AllSessions st x))) \<noteq> C"
  shows "\<exists>s st'. createSession env ai ci A C n st = Some (Some s, st') \<and> relay_inv big st' \<and>
    active_sessions st' = s # as \<and> ses_sesNum (AllSessions st' s) \<noteq> 0 \<and> sent st' = sent st \<and>
    sessions_linked st' (ses_sesNum (AllSessions st' s)) ai A n ci C"
proof -
  obtain s a c fs' fh' bl' st' where cr:
    "createSession env ai ci A C n st = Some (Some s, st')"
    "fs = s # fs'" "fh = a # c # fh'" and wf': "relay_wf big st' fs' (s # as) fh' bl'"
    and ha: "acHash (AllSessions st' s) = a" "clientHash (AllSessions st' s) = c"
    "peerMac (AllHashes st' a) = A" "h_sesNum (AllHashes st' a) = n" "interface (AllHashes st' a) = ai"
    and hc: "peerMac (AllHashes st' c) = C" "h_sesNum (AllHashes st' c) = ses_sesNum (AllSessions st' s)"
    "interface (AllHashes st' c) = ci"
    and other: "\<And>h. h \<noteq> a \<Longrightarrow> h \<noteq> c \<Longrightarrow> peerMac (AllHashes st' h) = peerMac (AllHashes st h) \<and>
       h_sesNum (AllHashes st' h) = h_sesNum (AllHashes st h) \<and> interface (AllHashes st' h) = interface (AllHashes st h)"
    and oses: "\<And>x. x \<noteq> s \<Longrightarrow> acHash (AllSessions st' x) = acHash (AllSessions st x) \<and>
       clientHash (AllSessions st' x) = clientHash (AllSessions st x)"
    and rest: "sent st' = sent st" "MaxSessions st' = MaxSessions st"
    by (rule createSession_wf [OF wf free, of env ai ci A C n]) metis
  have ok: "session_ok st' x" if "x \<in> set (s # as)" for x
    using wf' that unfolding relay_wf_def by blast
  have sok: "a \<noteq> c" "peer (AllHashes st' a) = c" "peer (AllHashes st' c) = a"
    using ok [of s] ha hc by (auto simp: session_ok_def Let_def)
  have ns: "s \<notin> set as" using wf' by (auto simp: relay_wf_def ses_lists_def)
  have old: "hash_of st x g" "g \<noteq> a" "g \<noteq> c" if "x \<in> set as" "hash_of st' x g" for x g
  proof -
    show "hash_of st x g" using that oses [of x] ns by (auto simp: hash_of_def)
    have "ses (AllHashes st' g) = x" using hash_of_session [OF ok [of x] that(2)] that(1) by simp
    moreover have "ses (AllHashes st' a) = s" "ses (AllHashes st' c) = s"
      using ok [of s] ha by (auto simp: session_ok_def Let_def)
    ultimately show "g \<noteq> a" "g \<noteq> c" using that(1) ns by auto
  qed
  have num: "ses_sesNum (AllSessions st' x) = htons big (word_of_nat (x + 1)) \<and> x < MaxSessions st" if "x \<in> set (s # as)" for x
    using wf' that rest by (auto simp: relay_wf_def)
  have num_inj: "x = y" if "x \<in> set (s # as)" "y \<in> set (s # as)"
    "ses_sesNum (AllSessions st' x) = ses_sesNum (AllSessions st' y)" for x y
  proof -
    have "(word_of_nat (x + 1) :: u16) = word_of_nat (y + 1)" using num that htons_inj by metis
    moreover have "x < 65535" "y < 65535" using num [of x] num [of y] that max by auto
    ultimately show ?thesis by (rule session_number_inj [rotated -1])
  qed
  have nz: "ses_sesNum (AllSessions st' s) \<noteq> 0"
  proof
    assume "ses_sesNum (AllSessions st' s) = 0"
    then have "(word_of_nat (s + 1) :: u16) = 0" using num [of s] htons_inj [of big _ 0] by simp
    moreover have "s < 65535" using num [of s] max by simp
    ultimately show False using session_number [of s] by simp
  qed
  have fc: "findSession C (ses_sesNum (AllSessions st' s)) False st' = Some (Some c)"
  proof (rule findSession_unique [OF wf', of s])
    fix x g assume x: "x \<in> set (s # as)" "hash_of st' x g" "peerMac (AllHashes st' g) = C"
      "h_sesNum (AllHashes st' g) = ses_sesNum (AllSessions st' s)"
    show "g = c"
    proof (cases "x = s")
      case True
      then show ?thesis using x(2,3) ha AC by (auto simp: hash_of_def)
    next
      case False
      then have xa: "x \<in> set as" using x(1) by simp
      note o = old [OF xa x(2)]
      have "g \<noteq> acHash (AllSessions st x)" using client xa other [OF o(2,3)] x(3) by auto
      then have "g = clientHash (AllSessions st' x)" using o(1) oses [OF False] by (simp add: hash_of_def)
      then have "ses_sesNum (AllSessions st' x) = ses_sesNum (AllSessions st' s)"
        using ok [OF x(1)] x(4) by (auto simp: session_ok_def Let_def)
      then show ?thesis using num_inj [OF x(1)] False by simp
    qed
  qed (use ha hc in \<open>auto simp: hash_of_def\<close>)
  have fa: "findSession A n False st' = Some (Some a)"
  proof (rule findSession_unique [OF wf', of s])
    fix x g assume x: "x \<in> set (s # as)" "hash_of st' x g" "peerMac (AllHashes st' g) = A" "h_sesNum (AllHashes st' g) = n"
    show "g = a"
    proof (cases "x = s")
      case True
      then show ?thesis using x(2,3) ha hc AC by (auto simp: hash_of_def)
    next
      case False
      then have xa: "x \<in> set as" using x(1) by simp
      note o = old [OF xa x(2)]
      obtain r where "findSession A n False st = Some r"
        "r = None \<Longrightarrow> \<forall>s \<in> set as. \<forall>h. hash_of st s h \<longrightarrow> \<not> (peerMac (AllHashes st h) = A \<and> h_sesNum (AllHashes st h) = n)"
        by (rule findSession_wf [OF wf, of A n]) blast
      then show ?thesis using new xa o(1) other [OF o(2,3)] x(3,4) by auto
    qed
  qed (use ha hc in \<open>auto simp: hash_of_def\<close>)
  have "sessions_linked st' (ses_sesNum (AllSessions st' s)) ai A n ci C"
    unfolding sessions_linked_def
    using session_data_sent [where h = c and st = st'] session_data_sent [where h = a and st = st'] fa fc sok ha hc by auto
  then show ?thesis using cr(1) relay_inv_I [OF wf'] nz rest(1) active_sessions_wf [OF wf'] by blast
qed


section \<open>The earliest time\<close>

lemma fold_min_attained:
  fixes f :: "nat \<Rightarrow> u32"
  assumes "xs \<noteq> []" "\<forall>x \<in> set xs. f x \<le> m"
  shows "\<exists>x \<in> set xs. fold (\<lambda>x m. min (f x) m) xs m = f x \<and> (\<forall>y \<in> set xs. f x \<le> f y)"
proof -
  have "fold (\<lambda>x m. min (f x) m) xs m = Min (insert m (f ` set xs))" for m
  proof (induction xs arbitrary: m)
    case (Cons a xs)
    have "Min (insert (min (f a) m) (f ` set xs)) = Min (insert m (insert (f a) (f ` set xs)))"
      by (cases "xs = []") (simp_all add: ac_simps)
    then show ?case using Cons [of "min (f a) m"] by simp
  qed simp
  moreover have "Min (insert m (f ` set xs)) = Min (f ` set xs)"
  proof -
    have in_xs: "Min (f ` set xs) \<in> f ` set xs" using assms(1) by simp
    then have "Min (f ` set xs) \<le> m" using assms(2) by auto
    then show ?thesis using assms(1) by (simp add: min_absorb2)
  qed
  ultimately have eq: "fold (\<lambda>x m. min (f x) m) xs m = Min (f ` set xs)" by simp
  have "Min (f ` set xs) \<in> f ` set xs" using assms(1) by simp
  then obtain x where x: "x \<in> set xs" "Min (f ` set xs) = f x" by auto
  have "f x \<le> f y" if "y \<in> set xs" for y using Min_le [of "f ` set xs" "f y"] that unfolding x(2) by simp
  then show ?thesis unfolding eq x(2) using x(1) by blast
qed


section \<open>Properties\<close>

lemma relay_reach_max: "relay_reach big st \<Longrightarrow> MaxSessions st = 100"
proof (induction rule: relay_reach.induct)
  case (start st st')
  then show ?case by (auto simp: pppoe_relay_init_def initRelay_def Let_def)
next
  case (step st env e st')
  then show ?case using relay_handle_inv [OF relay_reach_inv [OF step.hyps(1)] step.hyps(3)] by simp
qed

text \<open>
  C6: the relay's tables stay sound. In every state that packets, the idle timer and changes of the
  interface list can lead to, the free and the active list are disjoint and hold exactly the
  allocated sessions, every hash chain is a well-linked list of entries that belong to it, the
  entries in the chains are exactly the two of each active session, each points to its partner,
  and \<open>NumSessions\<close> counts the active list.
\<close>

theorem relay_tables_sound:
  assumes "relay_reach big st"
  shows "relay_inv big st \<and> MaxSessions st = 100 \<and> NumSessions st = length (active_sessions st)"
proof -
  obtain fs as fh bl where wf: "relay_wf big st fs as fh bl"
    using relay_reach_inv [OF assms] by (auto simp: relay_inv_def)
  then have "NumSessions st = length as" by (simp add: relay_wf_def)
  then show ?thesis using relay_reach_inv [OF assms] relay_reach_max [OF assms] active_sessions_wf [OF wf] by simp
qed

theorem relay_tables_sound_witness: "relay_inv False demo_running"
  using relay_tables_sound [OF demo_running_reach] by simp









text \<open>
  C18: the idle timer. \<open>cleanSessions\<close> returns, frees exactly the sessions whose time is up and
  keeps the order of the others. With none left it asks for the full timeout; otherwise for the time
  until the session with the numerically smallest epoch expires. As long as \<open>jiffies\<close> has not wrapped
  since the last activity of the sessions that are left that is the next expiry; after a wrap it is
  the expiry of a session that was used later, and the timer fires late for the older ones.
\<close>

theorem cleanSessions_frees_expired:
  assumes "relay_reach big st"
  shows "\<exists>r st'. cleanSessions env timeout st = Some (r, st') \<and> relay_inv big st' \<and>
    active_sessions st' =
      filter (\<lambda>s. \<not> expired (jiffies env) timeout (epoch (AllSessions st s))) (active_sessions st) \<and>
    (active_sessions st' = [] \<longrightarrow> r = timeout) \<and>
    (active_sessions st' \<noteq> [] \<longrightarrow>
       (\<exists>s \<in> set (active_sessions st'). (\<forall>s' \<in> set (active_sessions st'). epoch (AllSessions st s) \<le> epoch (AllSessions st s')) \<and>
          r = (if epoch (AllSessions st s) = 0xFFFFFFFF then timeout else epoch (AllSessions st s) + timeout - jiffies env)))"
proof -
  obtain fs as fh bl where wf: "relay_wf big st fs as fh bl"
    using relay_reach_inv [OF assms] by (auto simp: relay_inv_def)
  define rest where "rest = filter (\<lambda>s. \<not> expired (jiffies env) timeout (epoch (AllSessions st s))) as"
  define mn where "mn = fold (\<lambda>s m. min (epoch (AllSessions st s)) m) rest 0xFFFFFFFF"
  obtain st' fs' fh' bl' where c: "cleanSessions env timeout st =
      Some (if mn = 0xFFFFFFFF then timeout else timeout - (jiffies env - mn), st')"
    "relay_wf big st' fs' rest fh' bl'"
    using cleanSessions_wf [OF wf, of env timeout] unfolding rest_def mn_def Let_def by blast
  have next_expiry: "\<exists>s \<in> set rest. (\<forall>s' \<in> set rest. epoch (AllSessions st s) \<le> epoch (AllSessions st s')) \<and>
      (if mn = 0xFFFFFFFF then timeout else timeout - (jiffies env - mn)) =
      (if epoch (AllSessions st s) = 0xFFFFFFFF then timeout else epoch (AllSessions st s) + timeout - jiffies env)"
    if "rest \<noteq> []"
  proof -
    have "(0xFFFFFFFF :: u32) = - 1" by simp
    then have "x \<le> 0xFFFFFFFF" for x :: u32 using word_order.extremum [of x] by metis
    then have "\<exists>s \<in> set rest. mn = epoch (AllSessions st s) \<and> (\<forall>s' \<in> set rest. epoch (AllSessions st s) \<le> epoch (AllSessions st s'))"
      unfolding mn_def by (intro fold_min_attained) (use that in auto)
    then show ?thesis by (auto simp: algebra_simps)
  qed
  show ?thesis
    using c(1) relay_inv_I [OF c(2)] active_sessions_wf [OF c(2)] active_sessions_wf [OF wf] next_expiry
    by (auto simp: rest_def mn_def)
qed

theorem cleanSessions_frees_expired_witness:
  "\<exists>r st'. cleanSessions demo_env 600 demo_running = Some (r, st') \<and> relay_inv False st'"
  using cleanSessions_frees_expired [OF demo_running_reach, of demo_env 600] by blast


text \<open>
  C19: a discovery packet with a relay tag goes where the tag says. A PADO from a concentrator,
  or a PADR from a client, that carries the tag with which the relay named the interface \<open>to\<close>
  and the address \<open>C\<close> is sent once, on that interface and to that address, with the source
  address of the interface; the relay tag it then carries names the interface and the address
  it came from, so that the answer comes back, and every other tag is as it was.
\<close>

theorem relay_tag_routes:
  assumes "(code p = CODE_PADO \<and> acOK from \<and> clientOK to) \<or> (code p = CODE_PADR \<and> clientOK from \<and> acOK to)"
    and "pkt_ok p" "\<not> NOT_UNICAST (h_source p)" "h_dest p = dev_addr (dev from)"
    and "length (h_source p) = 6" "length C = 6"
    and "tags_of p = Some (ts @ relay_tag env (ifindex (dev to)) C # us)"
    and "\<forall>u \<in> set ts. tag_type u \<noteq> TAG_RELAY_SESSION_ID"
    and "if_by_index (ifindex (dev to)) st = Some to" "\<not> ifindex (dev to) <s 0" "if_id from \<noteq> if_id to"
  shows "\<exists>m. relayGotDiscoveryPacket env from p st = Some (0, relay_enqueue (dev to) m st) \<and>
    h_dest m = C \<and> h_source m = dev_addr (dev to) \<and> code m = code p \<and> session m = session p \<and> pkt_ok m \<and>
    tags_of m = Some (ts @ relay_tag env (ifindex (dev from)) (h_source p) # us)"
proof -
  let ?n = "length (encs tag_bytes ts)"
  obtain b where b: "reverse_relay_tag env ?n (ifindex (dev from)) p = Some b" "length b = length (payload p)"
    "tags_of (p\<lparr>payload := b\<rparr>) = Some (ts @ relay_tag env (ifindex (dev from)) (h_source p) # us)"
    using reverse_relay_tag_tags [OF assms(2,7,6,5)] by blast
  define m where "m = p\<lparr>payload := b, h_dest := C, h_source := dev_addr (dev to)\<rparr>"
  have look: "relay_tag_lookup env ok from p st = Some (Some (?n, relay_tag env (ifindex (dev to)) C, to))" if "ok to" for ok
    by (rule relay_tag_lookup_tags [OF assms(2,7,6,8,9,10)]) (use that assms(11) in simp_all)
  have c: "ver p = 1" "ptype p = 1" "plen p \<le> length (payload p)" using assms(2) by (simp_all add: pkt_ok_def)
  have "relayGotDiscoveryPacket env from p st = Some (0, relay_enqueue (dev to) m st)"
    using assms(1)
  proof
    assume r: "code p = CODE_PADO \<and> acOK from \<and> clientOK to"
    then have "relayHandlePADO env from p st = Some (0, relay_enqueue (dev to) m st)"
      using assms(3,4) look [of clientOK] b(1) relay_tag_fields(4) [OF assms(6)]
      by (simp add: relayHandlePADO_def m_def Let_def)
    then show ?thesis using r c by (simp add: relayGotDiscoveryPacket_def CODE_PADO_def CODE_PADI_def CODE_PADT_def)
  next
    assume r: "code p = CODE_PADR \<and> clientOK from \<and> acOK to"
    then have "relayHandlePADR env from p st = Some (0, relay_enqueue (dev to) m st)"
      using assms(3,4) look [of acOK] b(1) relay_tag_fields(4) [OF assms(6)]
      by (simp add: relayHandlePADR_def m_def Let_def)
    then show ?thesis using r c
      by (simp add: relayGotDiscoveryPacket_def CODE_PADO_def CODE_PADR_def CODE_PADI_def CODE_PADT_def)
  qed
  moreover have "tags_of m = Some (ts @ relay_tag env (ifindex (dev from)) (h_source p) # us)" "pkt_ok m"
    using b(2,3) assms(2) by (simp_all add: m_def tags_of_def pkt_ok_def)
  ultimately show ?thesis by (intro exI [of _ m]) (simp add: m_def)
qed

definition demo_pado :: PPPoEPacket where "demo_pado = demo_pads\<lparr>code := CODE_PADO, session := 0\<rparr>"

lemma demo_tags: "tags_of demo_pads = Some ([\<lparr>tag_type = TAG_SERVICE_NAME, tag_data = []\<rparr>] @
    relay_tag demo_env 2 [0, 1, 2, 3, 4, 5] # [])"
proof -
  let ?ts = "[\<lparr>tag_type = TAG_SERVICE_NAME, tag_data = []\<rparr>, relay_tag demo_env 2 [0, 1, 2, 3, 4, 5]]"
  have "decs dec_tag (encs tag_bytes ?ts) = Some ?ts"
    by (rule pppoe.decs_encs) (simp add: relay_tag_def tag_ok_def TAG_SERVICE_NAME_def TAG_RELAY_SESSION_ID_def)
  moreover have "take (plen demo_pads) (payload demo_pads) = encs tag_bytes ?ts" by (simp add: demo_pads_def Let_def)
  ultimately show ?thesis by (simp add: tags_of_def)
qed

lemma demo_pkt: "pkt_ok demo_pads"
  by (simp add: pkt_ok_def demo_pads_def Let_def tag_bytes_def relay_tag_def pppoe_consts)

lemma demo_idle_simps [simp]:
  "if_head demo_idle = [demo_ac, demo_client]" "MaxSessions demo_idle = 100" "NumSessions demo_idle = 0"
  by (simp_all add: demo_idle_def relayAddInterface_def pppoe_relay_init_def initRelay_def Let_def
      demo_boot_def demo_ac_def demo_client_def)

theorem relay_tag_routes_witness:
  "\<exists>m. relayGotDiscoveryPacket demo_env demo_ac demo_pado demo_idle =
      Some (0, relay_enqueue (dev demo_client) m demo_idle) \<and> h_dest m = [0, 1, 2, 3, 4, 5]"
proof -
  have t: "tags_of demo_pado = Some ([\<lparr>tag_type = TAG_SERVICE_NAME, tag_data = []\<rparr>] @
      relay_tag demo_env (ifindex (dev demo_client)) [0, 1, 2, 3, 4, 5] # [])"
    using demo_tags by (simp add: demo_pado_def tags_of_def demo_client_def demo_client_if_def)
  have p: "pkt_ok demo_pado" using demo_pkt by (simp add: demo_pado_def pkt_ok_def)
  have f: "code demo_pado = CODE_PADO" "h_source demo_pado = [0, 9, 9, 9, 9, 9]" "h_dest demo_pado = dev_addr (dev demo_ac)"
    "if_by_index (ifindex (dev demo_client)) demo_idle = Some demo_client" "\<not> ifindex (dev demo_client) <s 0"
    "if_id demo_ac \<noteq> if_id demo_client" "acOK demo_ac" "clientOK demo_client"
    by (simp_all add: demo_pado_def demo_pads_def Let_def demo_ac_def demo_client_def demo_ac_if_def
        demo_client_if_def if_by_index_def word_sless_alt)
  have "\<exists>m. relayGotDiscoveryPacket demo_env demo_ac demo_pado demo_idle =
      Some (0, relay_enqueue (dev demo_client) m demo_idle) \<and> h_dest m = [0, 1, 2, 3, 4, 5] \<and>
      h_source m = dev_addr (dev demo_client) \<and> code m = code demo_pado \<and> session m = session demo_pado \<and> pkt_ok m \<and>
      tags_of m = Some ([\<lparr>tag_type = TAG_SERVICE_NAME, tag_data = []\<rparr>] @
        relay_tag demo_env (ifindex (dev demo_ac)) (h_source demo_pado) # [])"
    by (rule relay_tag_routes [OF _ p _ _ _ _ t])
      (use f in \<open>simp_all add: NOT_UNICAST_def TAG_SERVICE_NAME_def TAG_RELAY_SESSION_ID_def\<close>)
  then show ?thesis by blast
qed


lemma broadcast_loop_copies:
  assumes "\<And>i. copy_ok env i"
  shows "broadcast_loop env src m ns st = st\<lparr>sent := sent st @
    map (\<lambda>n. (dev n, m\<lparr>h_source := dev_addr (dev n)\<rparr>))
      (filter (\<lambda>n. if_id n \<noteq> src \<and> acOK n \<and> if_up (dev n)) ns)\<rparr>"
  using assms by (induction ns arbitrary: st) (auto simp: relay_enqueue_def)

text \<open>
  A PADI is offered to every concentrator. Received from a client, without a relay tag and
  with room for one, it is sent on each interface that is up and may have concentrators, except
  the one it came from, with the source address of that interface; behind its own tags it
  carries the relay tag that names the client's interface and address.
\<close>

theorem PADI_offered_to_all:
  assumes "code p = CODE_PADI" "clientOK from" "pkt_ok p" "\<not> NOT_UNICAST (h_source p)" "\<not> NOT_BROADCAST (h_dest p)"
    and "length (h_source p) = 6" "tags_of p = Some ts" "\<forall>u \<in> set ts. tag_type u \<noteq> TAG_RELAY_SESSION_ID"
    and "plen p + 18 \<le> MAX_PPPOE_PAYLOAD" "padto_ok env" "\<forall>i. copy_ok env i"
  shows "\<exists>m st'. relayGotDiscoveryPacket env from p st = Some (0, st') \<and>
    sent st' = sent st @ map (\<lambda>n. (dev n, m\<lparr>h_source := dev_addr (dev n)\<rparr>))
      (filter (\<lambda>n. if_id n \<noteq> if_id from \<and> acOK n \<and> if_up (dev n)) (if_head st)) \<and>
    h_dest m = h_dest p \<and> code m = CODE_PADI \<and>
    tags_of m = Some (ts @ [relay_tag env (ifindex (dev from)) (h_source p)])"
proof -
  let ?t = "relay_tag env (ifindex (dev from)) (h_source p)"
  have c: "ver p = 1" "ptype p = 1" "plen p \<le> length (payload p)" using assms(3) by (simp_all add: pkt_ok_def)
  have "List.find (\<lambda>t. tag_type t = TAG_RELAY_SESSION_ID) ts = None" using assms(8) by (auto simp: find_None_iff)
  then have none: "relay_findTag p TAG_RELAY_SESSION_ID = Some None"
    using findTag_tags [OF assms(3,7), of TAG_RELAY_SESSION_ID] by (simp add: relay_findTag_def)
  have "length (tag_data ?t) + TAG_HDR_SIZE = 18" using assms(6) by (simp add: relay_tag_def TAG_HDR_SIZE_def)
  then obtain m where m: "addTag env p ?t = Some m" using assms(9,10) by (simp add: addTag_def Let_def)
  note t = addTag_tags [OF assms(7) c(3) relay_tag_fields(6) [OF assms(6)] m]
  have "h_dest m = h_dest p" "code m = CODE_PADI" by (subst t(3), use assms(1) in simp)+
  moreover have "relayGotDiscoveryPacket env from p st = Some (0, pppoe_relay_broadcast env from m st)"
    using assms(1,2,4,5) c none m
    by (simp add: relayGotDiscoveryPacket_def relayHandlePADI_def CODE_PADI_def CODE_PADT_def)
  ultimately show ?thesis
    using t(1) broadcast_loop_copies [of env "if_id from" m "if_head st" st] assms(11)
    by (intro exI [of _ m] exI [of _ "pppoe_relay_broadcast env from m st"]) (simp add: pppoe_relay_broadcast_def)
qed

definition demo_relay_padi :: PPPoEPacket where
  "demo_relay_padi = (let t = tag_bytes \<lparr>tag_type = TAG_SERVICE_NAME, tag_data = []\<rparr> in
     \<lparr>h_dest = replicate 6 0xFF, h_source = [0, 1, 2, 3, 4, 5], h_proto = 0x8863, ver = 1, ptype = 1,
      code = CODE_PADI, session = 0, plen = length t, payload = t @ replicate 42 0\<rparr>)"

theorem PADI_offered_to_all_witness:
  "\<exists>m st'. relayGotDiscoveryPacket demo_env demo_client demo_relay_padi demo_idle = Some (0, st') \<and>
    sent st' = [(dev demo_ac, m)] \<and>
    tags_of m = Some ([\<lparr>tag_type = TAG_SERVICE_NAME, tag_data = []\<rparr>] @ [relay_tag demo_env 2 [0, 1, 2, 3, 4, 5]])"
proof -
  let ?ts = "[\<lparr>tag_type = TAG_SERVICE_NAME, tag_data = []\<rparr>]"
  have "decs dec_tag (encs tag_bytes ?ts) = Some ?ts"
    by (rule pppoe.decs_encs) (simp add: tag_ok_def TAG_SERVICE_NAME_def)
  then have t: "tags_of demo_relay_padi = Some ?ts" by (simp add: tags_of_def demo_relay_padi_def Let_def)
  have p: "pkt_ok demo_relay_padi" by (simp add: pkt_ok_def demo_relay_padi_def Let_def tag_bytes_def pppoe_consts)
  have f: "code demo_relay_padi = CODE_PADI" "h_source demo_relay_padi = [0, 1, 2, 3, 4, 5]"
    "h_dest demo_relay_padi = replicate 6 0xFF" "plen demo_relay_padi = 4"
    by (simp_all add: demo_relay_padi_def Let_def tag_bytes_def)
  have i: "clientOK demo_client" "ifindex (dev demo_client) = 2" "if_id demo_client = 2" "if_id demo_ac = 3"
    "acOK demo_ac" "if_up (dev demo_ac)"
    by (simp_all add: demo_client_def demo_client_if_def demo_ac_def demo_ac_if_def)
  have e: "padto_ok demo_env" "\<forall>i. copy_ok demo_env i" by (simp_all add: demo_env_def)
  have s: "sent demo_idle = []"
    by (simp add: demo_idle_def relayAddInterface_def pppoe_relay_init_def initRelay_def Let_def demo_boot_def)
  obtain m st' where "relayGotDiscoveryPacket demo_env demo_client demo_relay_padi demo_idle = Some (0, st')"
    "sent st' = sent demo_idle @ map (\<lambda>n. (dev n, m\<lparr>h_source := dev_addr (dev n)\<rparr>))
      (filter (\<lambda>n. if_id n \<noteq> if_id demo_client \<and> acOK n \<and> if_up (dev n)) (if_head demo_idle))"
    "tags_of m = Some (?ts @ [relay_tag demo_env (ifindex (dev demo_client)) (h_source demo_relay_padi)])"
    using PADI_offered_to_all [OF f(1) i(1) p _ _ _ t _ _ e, of demo_idle]
    by (auto simp: f NOT_UNICAST_def NOT_BROADCAST_def TAG_SERVICE_NAME_def TAG_RELAY_SESSION_ID_def MAX_PPPOE_PAYLOAD_def
        eval_nat_numeral)
  then show ?thesis using i f s by (intro exI [of _ "m\<lparr>h_source := dev_addr (dev demo_ac)\<rparr>"] exI [of _ st']) (simp add: tags_of_def)
qed

text \<open>
  C17: a PADS opens the session, and both directions then flow. When a concentrator confirms a
  session that is new to the relay and the table has room, the client gets the PADS without
  the relay tag and with the relay's own non-zero session number. From then on session data
  from the client under that number is sent to the concentrator under the concentrator's
  number, and data from the concentrator is sent back under the relay's number, each with the
  addresses of the outgoing side, and otherwise unchanged. The client must not share its
  address with the concentrator of an active session.
\<close>

theorem PADS_opens_session:
  assumes "relay_reach big st" "big_endian env = big"
    and "code p = CODE_PADS" "acOK from" "clientOK to" "pkt_ok p" "\<not> NOT_UNICAST (h_source p)"
    and "h_dest p = dev_addr (dev from)" "session p \<noteq> 0" "length C = 6" "h_source p \<noteq> C"
    and "tags_of p = Some (ts @ relay_tag env (ifindex (dev to)) C # us)"
    and "\<forall>u \<in> set ts. tag_type u \<noteq> TAG_RELAY_SESSION_ID"
    and "if_by_index (ifindex (dev to)) st = Some to" "\<not> ifindex (dev to) <s 0" "if_id from \<noteq> if_id to"
    and "findSession (h_source p) (session p) False st = Some None" "NumSessions st < 100"
    and "\<forall>x \<in> set (active_sessions st). peerMac (AllHashes st (acHash (AllSessions st x))) \<noteq> C"
  shows "\<exists>m st' s. relayGotDiscoveryPacket env from p st = Some (0, st') \<and>
    sent st' = sent st @ [(dev to, m)] \<and> active_sessions st' = s # active_sessions st \<and>
    h_dest m = C \<and> h_source m = dev_addr (dev to) \<and> tags_of m = Some (ts @ us) \<and> session m \<noteq> 0 \<and>
    sessions_linked st' (session m) (dev from) (h_source p) (session p) (dev to) C"
proof -
  let ?n = "length (encs tag_bytes ts)"
  obtain fs as fh bl where wf: "relay_wf big st fs as fh bl"
    using relay_reach_inv [OF assms(1)] by (auto simp: relay_inv_def)
  have act: "active_sessions st = as" by (rule active_sessions_wf [OF wf])
  have max: "MaxSessions st = 100" by (rule relay_reach_max [OF assms(1)])
  obtain s st1 where c: "createSession env (dev from) (dev to) (h_source p) C (session p) st = Some (Some s, st1)"
    "relay_inv big st1" "active_sessions st1 = s # as" "ses_sesNum (AllSessions st1 s) \<noteq> 0" "sent st1 = sent st"
    "sessions_linked st1 (ses_sesNum (AllSessions st1 s)) (dev from) (h_source p) (session p) (dev to) C"
    using createSession_links [OF wf, of "h_source p" C "session p" env "dev from" "dev to"] assms(11,17,18,19) max act by auto
  let ?k = "ses_sesNum (AllSessions st1 s)"
  have pl: "ver p = 1" "ptype p = 1" "plen p \<le> length (payload p)" using assms(6) by (simp_all add: pkt_ok_def)
  have rd: "rd_bytes (payload p) (?n + TAG_HDR_SIZE + 4) 6 = Some C"
  proof -
    note t = tags_of_split [OF assms(12) pl(3)]
    show ?thesis using assms(10) by (subst t(1)) (simp add: rd_bytes_def tag_bytes_def relay_tag_def TAG_HDR_SIZE_def)
  qed
  have ps: "pads_session env from to ?n p st = Some (Some ?k, st1)"
    using assms(9,17) rd c(1) by (simp add: pads_session_def)
  have look: "relay_tag_lookup env clientOK from p st = Some (Some (?n, relay_tag env (ifindex (dev to)) C, to))"
    by (rule relay_tag_lookup_tags [OF assms(6,12,10,13,14,15)]) (use assms(5,16) in simp_all)
  have pk: "pkt_ok (p\<lparr>session := ?k\<rparr>)" "tags_of (p\<lparr>session := ?k\<rparr>) = tags_of p"
    using assms(6) by (simp_all add: pkt_ok_def tags_of_def)
  obtain q where q: "removeBytes (p\<lparr>session := ?k\<rparr>) ?n (MY_RELAY_TAG_LEN + TAG_HDR_SIZE) = Some (18, q)"
    "tags_of q = Some (ts @ us)" "q = p\<lparr>session := ?k, payload := payload q, plen := plen q\<rparr>"
    using removeBytes_tags [OF pk(1) _ assms(10), of ts env "ifindex (dev to)" us] pk(2) assms(12) by auto
  define m where "m = q\<lparr>h_dest := C, h_source := dev_addr (dev to)\<rparr>"
  have "relayHandlePADS env from p st = Some (0, relay_enqueue (dev to) m st1)"
    using assms(4,7,8) look ps q(1) relay_tag_fields(4) [OF assms(10)]
    by (simp add: relayHandlePADS_def Let_def m_def)
  then have "relayGotDiscoveryPacket env from p st = Some (0, relay_enqueue (dev to) m st1)"
    using assms(3) pl by (simp add: relayGotDiscoveryPacket_def CODE_PADO_def CODE_PADR_def CODE_PADI_def CODE_PADT_def CODE_PADS_def)
  moreover have "session m = ?k" unfolding m_def by (subst q(3)) simp
  moreover have "tags_of m = Some (ts @ us)" using q(2) by (simp add: m_def tags_of_def)
  moreover have "sessions_linked (relay_enqueue (dev to) m st1) ?k (dev from) (h_source p) (session p) (dev to) C"
    by (rule sessions_linked_enqueue [OF c(6)])
  moreover have "active_sessions (relay_enqueue (dev to) m st1) = s # active_sessions st"
    using c(3) act by (simp add: active_sessions_def)
  ultimately show ?thesis using c(4,5)
    by (intro exI [of _ m] exI [of _ "relay_enqueue (dev to) m st1"] exI [of _ s]) (simp add: m_def)
qed


lemma demo_idle_find: "findSession m n False demo_idle = Some None"
proof -
  have "Buckets demo_idle b = None" for b
    by (simp add: demo_idle_def relayAddInterface_def pppoe_relay_init_def initRelay_def Let_def demo_boot_def)
  then show ?thesis unfolding findSession_def by (subst chain_find.simps) simp
qed

theorem PADS_opens_session_witness:
  "\<exists>(m :: PPPoEPacket) st' s. relayGotDiscoveryPacket demo_env demo_ac demo_pads demo_idle = Some (0, st') \<and>
    active_sessions st' = [s] \<and> session m \<noteq> 0 \<and> h_dest m = [0, 1, 2, 3, 4, 5] \<and>
    sessions_linked st' (session m) (dev demo_ac) [0, 9, 9, 9, 9, 9] 0x0700 (dev demo_client) [0, 1, 2, 3, 4, 5]"
proof -
  have t: "tags_of demo_pads = Some ([\<lparr>tag_type = TAG_SERVICE_NAME, tag_data = []\<rparr>] @
      relay_tag demo_env (ifindex (dev demo_client)) [0, 1, 2, 3, 4, 5] # [])"
    using demo_tags by (simp add: demo_client_def demo_client_if_def)
  have f: "code demo_pads = CODE_PADS" "h_source demo_pads = [0, 9, 9, 9, 9, 9]" "h_dest demo_pads = dev_addr (dev demo_ac)"
    "session demo_pads = 0x0700"
    "if_by_index (ifindex (dev demo_client)) demo_idle = Some demo_client" "\<not> ifindex (dev demo_client) <s 0"
    "if_id demo_ac \<noteq> if_id demo_client" "acOK demo_ac" "clientOK demo_client" "big_endian demo_env = False"
    by (simp_all add: demo_pads_def Let_def demo_ac_def demo_client_def demo_ac_if_def
        demo_client_if_def if_by_index_def word_sless_alt demo_env_def)
  have act: "active_sessions demo_idle = []"
    by (simp add: active_sessions_def demo_idle_def relayAddInterface_def pppoe_relay_init_def initRelay_def Let_def
        demo_boot_def eval_nat_numeral)
  have "\<exists>m st' s. relayGotDiscoveryPacket demo_env demo_ac demo_pads demo_idle = Some (0, st') \<and>
    sent st' = sent demo_idle @ [(dev demo_client, m)] \<and> active_sessions st' = s # active_sessions demo_idle \<and>
    h_dest m = [0, 1, 2, 3, 4, 5] \<and> h_source m = dev_addr (dev demo_client) \<and>
    tags_of m = Some ([\<lparr>tag_type = TAG_SERVICE_NAME, tag_data = []\<rparr>] @ []) \<and> session m \<noteq> 0 \<and>
    sessions_linked st' (session m) (dev demo_ac) (h_source demo_pads) (session demo_pads) (dev demo_client) [0, 1, 2, 3, 4, 5]"
    by (rule PADS_opens_session [OF demo_idle_reach f(10) f(1) f(8) f(9) demo_pkt _ f(3) _ _ _ t])
      (use f act demo_idle_find in \<open>simp_all add: NOT_UNICAST_def TAG_SERVICE_NAME_def TAG_RELAY_SESSION_ID_def\<close>)
  then show ?thesis unfolding f act by (elim exE conjE) (intro exI conjI; assumption)
qed

text \<open>
  A full table refuses. When all sessions are taken, a PADS for a new session changes no
  table: the client gets a PADS with session number zero and the concentrator a PADT for its
  session, each with a Generic-Error tag, and the handler returns -1.
\<close>

lemma full_table_refuses:
  assumes "relay_inv big st" "NumSessions st = MaxSessions st"
    and "code p = CODE_PADS" "acOK from" "clientOK to" "pkt_ok p" "\<not> NOT_UNICAST (h_source p)"
    and "h_dest p = dev_addr (dev from)" "session p \<noteq> 0" "length C = 6"
    and "tags_of p = Some (ts @ relay_tag env (ifindex (dev to)) C # us)"
    and "\<forall>u \<in> set ts. tag_type u \<noteq> TAG_RELAY_SESSION_ID" "\<forall>u \<in> set (ts @ us). tag_type u \<noteq> TAG_HOST_UNIQ"
    and "if_by_index (ifindex (dev to)) st = Some to" "\<not> ifindex (dev to) <s 0" "if_id from \<noteq> if_id to"
    and "findSession (h_source p) (session p) False st = Some None" "skb_ok env"
  shows "\<exists>m1 m2. relayGotDiscoveryPacket env from p st =
      Some (- 1, st\<lparr>sent := sent st @ [(dev to, m1), (dev from, m2)]\<rparr>) \<and>
    code m1 = CODE_PADS \<and> session m1 = 0 \<and> h_dest m1 = C \<and> h_source m1 = dev_addr (dev to) \<and>
    code m2 = CODE_PADT \<and> session m2 = session p \<and> h_dest m2 = h_source p \<and> h_source m2 = dev_addr (dev from) \<and>
    tags_of m1 = Some [\<lparr>tag_type = TAG_GENERIC_ERROR, tag_data = err_no_session\<rparr>] \<and>
    tags_of m2 = Some [\<lparr>tag_type = TAG_GENERIC_ERROR, tag_data = err_no_session\<rparr>]"
proof -
  let ?n = "length (encs tag_bytes ts)"
  have full: "MaxSessions st \<le> NumSessions st" using assms(2) by simp
  have pl: "ver p = 1" "ptype p = 1" "plen p \<le> length (payload p)" using assms(6) by (simp_all add: pkt_ok_def)
  have rd: "rd_bytes (payload p) (?n + TAG_HDR_SIZE + 4) 6 = Some C"
  proof -
    note t = tags_of_split [OF assms(11) pl(3)]
    show ?thesis using assms(10) by (subst t(1)) (simp add: rd_bytes_def tag_bytes_def relay_tag_def TAG_HDR_SIZE_def)
  qed
  have "List.find (\<lambda>t. tag_type t = TAG_HOST_UNIQ) (ts @ relay_tag env (ifindex (dev to)) C # us) = None"
    using assms(13) by (auto simp: find_None_iff relay_tag_def TAG_RELAY_SESSION_ID_def TAG_HOST_UNIQ_def)
  then have hu: "relay_findTag p TAG_HOST_UNIQ = Some None"
    using findTag_tags [OF assms(6,11), of TAG_HOST_UNIQ] by (simp add: relay_findTag_def)
  obtain m1 where m1: "relaySendError env CODE_PADS 0 (dev to) C None err_no_session st = Some (relay_enqueue (dev to) m1 st)"
    "code m1 = CODE_PADS" "session m1 = 0" "h_dest m1 = C" "h_source m1 = dev_addr (dev to)"
    "tags_of m1 = Some [\<lparr>tag_type = TAG_GENERIC_ERROR, tag_data = err_no_session\<rparr>]"
    using relaySendError_sends [OF assms(18), of err_no_session CODE_PADS 0 "dev to" C st] by (auto simp: err_no_session_def)
  obtain m2 where m2: "relaySendError env CODE_PADT (session p) (dev from) (h_source p) None err_no_session
      (relay_enqueue (dev to) m1 st) = Some (relay_enqueue (dev from) m2 (relay_enqueue (dev to) m1 st))"
    "code m2 = CODE_PADT" "session m2 = session p" "h_dest m2 = h_source p" "h_source m2 = dev_addr (dev from)"
    "tags_of m2 = Some [\<lparr>tag_type = TAG_GENERIC_ERROR, tag_data = err_no_session\<rparr>]"
    using relaySendError_sends [OF assms(18), of err_no_session CODE_PADT "session p" "dev from" "h_source p" "relay_enqueue (dev to) m1 st"]
    by (auto simp: err_no_session_def)
  have ps: "pads_session env from to ?n p st = Some (None, relay_enqueue (dev from) m2 (relay_enqueue (dev to) m1 st))"
    using assms(9,17) rd full hu m1(1) m2(1) by (simp add: pads_session_def createSession_def)
  have look: "relay_tag_lookup env clientOK from p st = Some (Some (?n, relay_tag env (ifindex (dev to)) C, to))"
    by (rule relay_tag_lookup_tags [OF assms(6,11,10,12,14,15)]) (use assms(5,16) in simp_all)
  have "relayHandlePADS env from p st = Some (- 1, relay_enqueue (dev from) m2 (relay_enqueue (dev to) m1 st))"
    using assms(4,7,8) look ps by (simp add: relayHandlePADS_def)
  then have "relayGotDiscoveryPacket env from p st = Some (- 1, relay_enqueue (dev from) m2 (relay_enqueue (dev to) m1 st))"
    using assms(3) pl by (simp add: relayGotDiscoveryPacket_def CODE_PADO_def CODE_PADR_def CODE_PADI_def CODE_PADT_def CODE_PADS_def)
  then show ?thesis using m1 m2 by (intro exI [of _ m1] exI [of _ m2]) (simp add: relay_enqueue_def)
qed


end
