(* ===== verification/Ppp_Frame.thy ===== *)
theory Ppp_Frame
  imports Prelude
begin

text \<open>
  The framing of PPP packets on the asynchronous side (\<open>rg/pkg/pppoe-server/src/ppp.c\<close> and
  \<open>asyncReadFromEth\<close> of \<open>pppoe.c\<close>): the 16-bit frame check sequence, which the code computes
  with a table, and the escaping of bytes.
\<close>

section \<open>The frame check sequence\<close>

definition PPPINITFCS16 :: u16 where "PPPINITFCS16 = 0xffff"

definition fcstab :: "u16 list" where
  "fcstab = [
     0x0000, 0x1189, 0x2312, 0x329b, 0x4624, 0x57ad, 0x6536, 0x74bf,
     0x8c48, 0x9dc1, 0xaf5a, 0xbed3, 0xca6c, 0xdbe5, 0xe97e, 0xf8f7,
     0x1081, 0x0108, 0x3393, 0x221a, 0x56a5, 0x472c, 0x75b7, 0x643e,
     0x9cc9, 0x8d40, 0xbfdb, 0xae52, 0xdaed, 0xcb64, 0xf9ff, 0xe876,
     0x2102, 0x308b, 0x0210, 0x1399, 0x6726, 0x76af, 0x4434, 0x55bd,
     0xad4a, 0xbcc3, 0x8e58, 0x9fd1, 0xeb6e, 0xfae7, 0xc87c, 0xd9f5,
     0x3183, 0x200a, 0x1291, 0x0318, 0x77a7, 0x662e, 0x54b5, 0x453c,
     0xbdcb, 0xac42, 0x9ed9, 0x8f50, 0xfbef, 0xea66, 0xd8fd, 0xc974,
     0x4204, 0x538d, 0x6116, 0x709f, 0x0420, 0x15a9, 0x2732, 0x36bb,
     0xce4c, 0xdfc5, 0xed5e, 0xfcd7, 0x8868, 0x99e1, 0xab7a, 0xbaf3,
     0x5285, 0x430c, 0x7197, 0x601e, 0x14a1, 0x0528, 0x37b3, 0x263a,
     0xdecd, 0xcf44, 0xfddf, 0xec56, 0x98e9, 0x8960, 0xbbfb, 0xaa72,
     0x6306, 0x728f, 0x4014, 0x519d, 0x2522, 0x34ab, 0x0630, 0x17b9,
     0xef4e, 0xfec7, 0xcc5c, 0xddd5, 0xa96a, 0xb8e3, 0x8a78, 0x9bf1,
     0x7387, 0x620e, 0x5095, 0x411c, 0x35a3, 0x242a, 0x16b1, 0x0738,
     0xffcf, 0xee46, 0xdcdd, 0xcd54, 0xb9eb, 0xa862, 0x9af9, 0x8b70,
     0x8408, 0x9581, 0xa71a, 0xb693, 0xc22c, 0xd3a5, 0xe13e, 0xf0b7,
     0x0840, 0x19c9, 0x2b52, 0x3adb, 0x4e64, 0x5fed, 0x6d76, 0x7cff,
     0x9489, 0x8500, 0xb79b, 0xa612, 0xd2ad, 0xc324, 0xf1bf, 0xe036,
     0x18c1, 0x0948, 0x3bd3, 0x2a5a, 0x5ee5, 0x4f6c, 0x7df7, 0x6c7e,
     0xa50a, 0xb483, 0x8618, 0x9791, 0xe32e, 0xf2a7, 0xc03c, 0xd1b5,
     0x2942, 0x38cb, 0x0a50, 0x1bd9, 0x6f66, 0x7eef, 0x4c74, 0x5dfd,
     0xb58b, 0xa402, 0x9699, 0x8710, 0xf3af, 0xe226, 0xd0bd, 0xc134,
     0x39c3, 0x284a, 0x1ad1, 0x0b58, 0x7fe7, 0x6e6e, 0x5cf5, 0x4d7c,
     0xc60c, 0xd785, 0xe51e, 0xf497, 0x8028, 0x91a1, 0xa33a, 0xb2b3,
     0x4a44, 0x5bcd, 0x6956, 0x78df, 0x0c60, 0x1de9, 0x2f72, 0x3efb,
     0xd68d, 0xc704, 0xf59f, 0xe416, 0x90a9, 0x8120, 0xb3bb, 0xa232,
     0x5ac5, 0x4b4c, 0x79d7, 0x685e, 0x1ce1, 0x0d68, 0x3ff3, 0x2e7a,
     0xe70e, 0xf687, 0xc41c, 0xd595, 0xa12a, 0xb0a3, 0x8238, 0x93b1,
     0x6b46, 0x7acf, 0x4854, 0x59dd, 0x2d62, 0x3ceb, 0x0e70, 0x1ff9,
     0xf78f, 0xe606, 0xd49d, 0xc514, 0xb1ab, 0xa022, 0x92b9, 0x8330,
     0x7bc7, 0x6a4e, 0x58d5, 0x495c, 0x3de3, 0x2c6a, 0x1ef1, 0x0f78]"

primrec pppFCS16 :: "u16 \<Rightarrow> u8 list \<Rightarrow> u16" where
  "pppFCS16 fcs [] = fcs"
| "pppFCS16 fcs (c # cs) =
     pppFCS16 (drop_bit 8 fcs XOR fcstab ! unat ((fcs XOR ucast c) AND 0xff)) cs"

text \<open>
  The specification of RFC 1662: division by the polynomial \<open>x^16 + x^12 + x^5 + 1\<close>, one bit at a
  time, the least significant bit first.
\<close>

definition fcs_bit :: "u16 \<Rightarrow> u16" where
  "fcs_bit w = (if w AND 1 = 0 then drop_bit 1 w else drop_bit 1 w XOR 0x8408)"

definition fcs_byte :: "u16 \<Rightarrow> u8 \<Rightarrow> u16" where
  "fcs_byte fcs c = (fcs_bit ^^ 8) (fcs XOR ucast c)"

definition fcs_spec :: "u16 \<Rightarrow> u8 list \<Rightarrow> u16" where
  "fcs_spec fcs bs = fold (\<lambda>c f. fcs_byte f c) bs fcs"

lemma fcs_bit_xor: "fcs_bit (a XOR b) = fcs_bit a XOR fcs_bit b"
proof -
  have parity: "w AND 1 = 0 \<longleftrightarrow> \<not> bit w 0" for w :: u16
    by (simp add: and_one_eq even_iff_mod_2_eq_zero bit_0)
  have "drop_bit 1 (a XOR b) = drop_bit 1 a XOR drop_bit 1 b" by simp
  moreover have "bit (a XOR b) 0 \<longleftrightarrow> bit a 0 \<noteq> bit b 0" by (simp add: bit_xor_iff)
  ultimately show ?thesis unfolding fcs_bit_def parity
    by (simp add: ac_simps)
qed

lemma fcs_bits_xor: "(fcs_bit ^^ n) (a XOR b) = (fcs_bit ^^ n) a XOR (fcs_bit ^^ n) b"
  by (induction n) (simp_all add: fcs_bit_xor)

lemma fcs_bits_8: "(fcs_bit ^^ 8) w = fcs_bit (fcs_bit (fcs_bit (fcs_bit (fcs_bit (fcs_bit (fcs_bit (fcs_bit w)))))))"
  by (simp add: eval_nat_numeral)

lemma word_odd_bit: "w AND 1 = 0 \<longleftrightarrow> \<not> bit (w :: u16) 0"
  by (simp add: and_one_eq even_iff_mod_2_eq_zero bit_0)

lemma fcs_bits_shift: "\<forall>i < n. \<not> bit w i \<Longrightarrow> (fcs_bit ^^ n) w = drop_bit n w"
proof (induction n)
  case (Suc n)
  have "\<not> bit (drop_bit n w) 0" using Suc.prems by (simp add: bit_drop_bit_eq)
  then have "fcs_bit (drop_bit n w) = drop_bit (Suc n) w"
    unfolding fcs_bit_def word_odd_bit by simp
  then show ?case using Suc by simp
qed simp

lemma fcs_bits_high: "(fcs_bit ^^ 8) (w AND 0xff00) = drop_bit 8 w"
proof -
  have high: "(0xff00 :: u16) = push_bit 8 (mask 8)" by (simp add: mask_eq_exp_minus_1)
  have "drop_bit 8 (w AND 0xff00) = drop_bit 8 w"
    unfolding high by (rule bit_word_eqI) (auto simp: bit_simps dest: bit_imp_le_length)
  moreover have "\<forall>i < 8. \<not> bit (w AND 0xff00) i" unfolding high by (auto simp: bit_simps)
  ultimately show ?thesis using fcs_bits_shift [of 8 "w AND 0xff00"] by simp
qed

lemma fcs_bit_ground:
  "fcs_bit 0 = 0" "fcs_bit 1 = 0x8408"
  "fcs_bit (numeral k) = (if (numeral k :: u16) AND 1 = 0 then drop_bit 1 (numeral k) else drop_bit 1 (numeral k) XOR 0x8408)"
  by (simp_all add: fcs_bit_def)

lemma fcstab_spec: "fcstab = map (\<lambda>i. (fcs_bit ^^ 8) (word_of_nat i)) [0..<256]"
proof -
  have "[0..<256] = 0 # 1 # [2..<256]" by (simp add: upt_rec)
  then show ?thesis by (simp add: fcstab_def fcs_bits_8 fcs_bit_ground upt_rec_numeral)
qed

lemma fcs_split: "f XOR g = (f AND 0xff00) XOR ((f XOR g) AND (0xff :: u16))" if "g AND 0xff00 = 0"
proof -
  have m: "(0xff00 :: u16) = push_bit 8 (mask 8)" "(0xff :: u16) = mask 8" by (simp_all add: mask_eq_exp_minus_1)
  have z: "\<not> bit g i" if "8 \<le> i" "i < 16" for i
  proof -
    have "bit (g AND 0xff00) i = False" using \<open>g AND 0xff00 = 0\<close> by simp
    then show ?thesis using that unfolding m by (auto simp: bit_simps)
  qed
  show ?thesis unfolding m
  proof (rule bit_word_eqI)
    fix i assume "i < LENGTH(16)"
    then show "bit (f XOR g) i = bit (f AND push_bit 8 (mask 8) XOR (f XOR g) AND mask 8) i"
      using z [of i] by (cases "i < 8") (auto simp: bit_simps)
  qed
qed

lemma fcs_table_byte: "fcs_byte f c = drop_bit 8 f XOR fcstab ! unat ((f XOR ucast c) AND 0xff)"
proof -
  let ?l = "(f XOR ucast c) AND (0xff :: u16)"
  have m: "(0xff00 :: u16) = push_bit 8 (mask 8)" "(0xff :: u16) = mask 8" by (simp_all add: mask_eq_exp_minus_1)
  have c: "ucast c AND (0xff00 :: u16) = 0"
  proof (rule bit_word_eqI)
    fix n show "bit (ucast c AND (0xff00 :: u16)) n = bit (0 :: u16) n"
      unfolding m using bit_imp_le_length [of c n] by (auto simp: bit_simps)
  qed
  have "?l \<le> 0xff" by (rule word_and_le1)
  then have l: "unat ?l < 256" by (simp add: word_le_nat_alt)
  then have "fcstab ! unat ?l = (fcs_bit ^^ 8) ?l" unfolding fcstab_spec by simp
  moreover have "fcs_byte f c = (fcs_bit ^^ 8) (f AND 0xff00) XOR (fcs_bit ^^ 8) ?l"
    unfolding fcs_byte_def fcs_bits_xor [symmetric] by (rule arg_cong [OF fcs_split [OF c]])
  ultimately show ?thesis by (simp only: fcs_bits_high)
qed

text \<open>
  C22: the table-driven frame check sequence is the one of RFC 1662. For every initial value and
  all bytes, \<open>pppFCS16\<close> with its table of 256 constants computes what the bit-by-bit division by
  the polynomial computes.
\<close>

theorem pppFCS16_is_crc: "pppFCS16 fcs bs = fcs_spec fcs bs"
  by (induction bs arbitrary: fcs) (simp_all add: fcs_spec_def fcs_table_byte)

lemma pppFCS16_append: "pppFCS16 f (as @ bs) = pppFCS16 (pppFCS16 f as) bs"
  by (induction as arbitrary: f) simp_all

text \<open>The two bytes behind the data: the complement of the check sequence, low byte first.\<close>

definition fcs_tail :: "u16 \<Rightarrow> u8 list" where
  "fcs_tail fcs = (let f = fcs XOR 0xffff in [ucast (f AND 0x00ff), ucast (drop_bit 8 f AND 0x00ff)])"

text \<open>
  A receiver recognises an intact frame. Whatever the data is, running the check over the data
  and the two bytes that \<open>asyncReadFromEth\<close> appends gives the constant 0xf0b8 of RFC 1662.
\<close>

lemma fcs_tail_is_good: "pppFCS16 (pppFCS16 f bs) (fcs_tail (pppFCS16 f bs)) = 0xf0b8"
proof -
  let ?g = "pppFCS16 f bs"
  have m: "(0xffff :: u16) = mask 16" "(0xff :: u16) = mask 8" by (simp_all add: mask_eq_exp_minus_1)
  have lo: "(?g XOR ucast (ucast ((?g XOR 0xffff) AND 0xff) :: u8)) AND 0xff = 0xff"
    unfolding m by (rule bit_word_eqI) (auto simp: bit_simps)
  have hi: "ucast (ucast ((drop_bit 8 ?g XOR 0xff) AND 0xff) :: u8) = drop_bit 8 ?g XOR (0xff :: u16)"
    unfolding m by (rule bit_word_eqI) (auto simp: bit_simps dest: bit_imp_le_length)
  have cancel: "(d XOR a) XOR (d XOR b) = a XOR b" for a b d :: u16
    by (simp add: xor.assoc xor.left_commute)
  have x: "((drop_bit 8 ?g XOR 0x0f78) XOR (drop_bit 8 ?g XOR 0xff)) AND 0xff = (0x87 :: u16)" unfolding cancel by simp
  have "drop_bit 8 (drop_bit 8 ?g) = 0"
    by (rule bit_word_eqI) (auto simp: bit_simps dest: bit_imp_le_length)
  then have d: "drop_bit 8 (drop_bit 8 ?g XOR 0x0f78) = (0x0f :: u16)" by simp
  have tab: "fcstab ! 255 = 0x0f78" "fcstab ! 135 = 0xf0b7" by (simp_all add: fcstab_def)
  show ?thesis
    by (simp add: fcs_tail_def Let_def lo hi x d tab)
qed

section \<open>Escaping\<close>

definition FRAME_ESC :: u8 where "FRAME_ESC = 0x7D"
definition FRAME_FLAG :: u8 where "FRAME_FLAG = 0x7E"
definition FRAME_ADDR :: u8 where "FRAME_ADDR = 0xFF"
definition FRAME_CTRL :: u8 where "FRAME_CTRL = 0x03"
definition FRAME_ENC :: u8 where "FRAME_ENC = 0x20"

lemmas frame_consts = FRAME_ESC_def FRAME_FLAG_def FRAME_ADDR_def FRAME_CTRL_def FRAME_ENC_def

text \<open>The loop of \<open>asyncReadFromEth\<close> over the bytes of a frame, and the whole frame it writes.\<close>

primrec stuff :: "u8 list \<Rightarrow> u8 list" where
  "stuff [] = []"
| "stuff (c # cs) =
     (if c = FRAME_FLAG \<or> c = FRAME_ADDR \<or> c = FRAME_ESC \<or> c < 0x20
      then [FRAME_ESC, c XOR FRAME_ENC] else [c]) @ stuff cs"

definition ppp_frame :: "u8 list \<Rightarrow> u8 list" where
  "ppp_frame data =
     (let fcs = pppFCS16 (pppFCS16 PPPINITFCS16 [FRAME_ADDR, FRAME_CTRL]) data in
      [FRAME_FLAG, FRAME_ADDR, FRAME_ESC, FRAME_CTRL XOR FRAME_ENC] @ stuff data @
      stuff (fcs_tail fcs) @ [FRAME_FLAG])"

lemma stuff_append: "stuff (as @ bs) = stuff as @ stuff bs"
  by (induction as) simp_all

lemma length_stuff: "length (stuff bs) \<le> 2 * length bs"
  by (induction bs) auto

text \<open>No escaped byte ends a frame or starts one.\<close>

lemma stuff_no_flag: "FRAME_FLAG \<notin> set (stuff bs) \<and> FRAME_ADDR \<notin> set (stuff bs)"
proof (induction bs)
  case (Cons c cs)
  have "c XOR FRAME_ENC \<noteq> FRAME_FLAG \<and> c XOR FRAME_ENC \<noteq> FRAME_ADDR" 
    if "c = FRAME_FLAG \<or> c = FRAME_ADDR \<or> c = FRAME_ESC \<or> c < 0x20"
  proof -
    have "c \<noteq> 0x5E \<and> c \<noteq> 0xDF" using that by (auto simp: frame_consts)
    moreover have "c = (c XOR FRAME_ENC) XOR FRAME_ENC" by (simp add: xor.assoc)
    ultimately show ?thesis by (auto simp: frame_consts)
  qed
  then show ?case using Cons by (auto simp: frame_consts)
qed simp

end
