(* ===== verification/Pppoe_Send.thy ===== *)
theory Pppoe_Send
  imports Pppoe_Packet
begin

text \<open>
  What the PPPoE client and the server share of sending (\<open>rg/pkg/pppoe-server/src/common.c\<close> and
  \<open>pppoe.h\<close>): the connection structure, a discovery frame under construction, and the PADT.
\<close>

section \<open>The connection\<close>

datatype discovery_state =
    STATE_SENT_PADI | STATE_RECEIVED_PADO | STATE_SENT_PADR | STATE_SESSION | STATE_TERMINATED

text \<open>Names are byte strings without the final NUL; a tag of type 0 is one that was not received.\<close>

record PPPoEConnection =
  discoveryState :: discovery_state
  discoverySocket :: int
  sessionSocket :: int
  myEth :: mac
  peerEth :: mac
  conn_session :: u16
  serviceName :: "u8 list option"
  acName :: "u8 list option"
  synchronous :: bool
  useHostUniq :: bool
  printACNames :: bool
  skipDiscovery :: bool
  noDiscoverySocket :: bool
  killSession :: bool
  numPADOs :: nat
  cookie :: PPPoETag
  relayId :: PPPoETag

definition no_tag :: PPPoETag where
  "no_tag = \<lparr>tag_type = 0, tag_data = []\<rparr>"

definition ascii :: "string \<Rightarrow> u8 list" where
  "ascii s = map (\<lambda>c. word_of_nat (of_char c)) s"

lemma length_ascii [simp]: "length (ascii s) = length s"
  by (simp add: ascii_def)

fun decimal :: "nat \<Rightarrow> u8 list" where
  "decimal n = (if n < 10 then [word_of_nat (48 + n)] else decimal (n div 10) @ [word_of_nat (48 + n mod 10)])"

declare decimal.simps [simp del]

section \<open>Receiving\<close>

text \<open>
  What \<open>receivePacket\<close> gives on a socket that is ready: the buffer and the \<open>int\<close> length. The
  comparison with the length is unsigned.
\<close>

datatype recv = Recv_error | Recv PPPoEPacket u32

definition bogus_length :: "PPPoEPacket \<Rightarrow> u32 \<Rightarrow> bool" where
  "bogus_length p len \<longleftrightarrow> plen p + HDR_SIZE > unat len"

section \<open>A frame under construction\<close>

text \<open>
  The payload under construction and its length, at which the cursor stands. The buffer is a local
  variable; its first contents are not initialised. \<open>CHECK_ROOM\<close> leaves the function when a tag
  does not fit.
\<close>

type_synonym tag_buf = "u8 list \<times> nat"

definition empty_buf :: tag_buf where
  "empty_buf = (replicate ETH_DATA_LEN 0, 0)"

definition copy_tag :: "PPPoETag \<Rightarrow> tag_buf \<Rightarrow> tag_buf option" where
  "copy_tag t b =
     map_option (\<lambda>p. (p, (snd b + length (tag_data t) + TAG_HDR_SIZE) mod 65536))
       (wr_bytes (fst b) (snd b) (tag_bytes t))"

definition CHECK_ROOM :: "tag_buf \<Rightarrow> nat \<Rightarrow> bool" where
  "CHECK_ROOM b len \<longleftrightarrow> snd b + len \<le> MAX_PPPOE_PAYLOAD"

definition hostUniq :: "u8 list \<Rightarrow> PPPoETag" where
  "hostUniq pid = \<lparr>tag_type = TAG_HOST_UNIQ, tag_data = pid\<rparr>"

text \<open>The copy of a tag after \<open>CHECK_ROOM\<close>; the inner \<open>None\<close> is its return.\<close>

definition copy_checked :: "PPPoETag \<Rightarrow> tag_buf \<Rightarrow> tag_buf option option" where
  "copy_checked t b =
     (if \<not> CHECK_ROOM b (length (tag_data t) + TAG_HDR_SIZE) then Some None
      else map_option Some (copy_tag t b))"

text \<open>The copy of a tag that may have been received; the inner \<open>None\<close> is the return of \<open>CHECK_ROOM\<close>.\<close>

definition copy_saved :: "PPPoETag \<Rightarrow> tag_buf \<Rightarrow> tag_buf option option" where
  "copy_saved t b =
     (if tag_type t = 0 then Some (Some b) else copy_checked t b)"

definition discovery_frame :: "nat \<Rightarrow> mac \<Rightarrow> mac \<Rightarrow> u8 \<Rightarrow> u16 \<Rightarrow> tag_buf \<Rightarrow> PPPoEPacket" where
  "discovery_frame proto src dest cd ses b =
     \<lparr>h_dest = dest, h_source = src, h_proto = proto, ver = 1, ptype = 1,
      code = cd, session = ses, plen = snd b, payload = fst b\<rparr>"

section \<open>The PADT\<close>

text \<open>
  \<open>sendPADT\<close> up to the call of \<open>sendPacket\<close>: the frame to send, if any, and the connection
  afterwards. \<open>pid\<close> are the bytes of \<open>getpid()\<close>, \<open>proto\<close> is \<open>Eth_PPPOE_Discovery\<close>.
\<close>

definition padt ::
  "u8 list \<Rightarrow> nat \<Rightarrow> u8 list option \<Rightarrow> PPPoEConnection \<Rightarrow> (PPPoEPacket option \<times> PPPoEConnection) option" where
  "padt pid proto msg k =
     (if conn_session k = 0 then Some (None, k)
      else if discoverySocket k < 0 then Some (None, k)
      else
        let k1 = k\<lparr>conn_session := 0\<rparr> in
        Option.bind (if useHostUniq k then copy_tag (hostUniq pid) empty_buf else Some empty_buf) (\<lambda>b.
        Option.bind (case msg of None \<Rightarrow> Some b
                     | Some m \<Rightarrow> if length m \<ge> ETH_DATA_LEN then None
                                 else copy_tag \<lparr>tag_type = TAG_GENERIC_ERROR, tag_data = m\<rparr> b) (\<lambda>b.
        Option.bind (copy_saved (cookie k) b) (\<lambda>r. case r of None \<Rightarrow> Some (None, k1) | Some b \<Rightarrow>
        Option.bind (copy_saved (relayId k) b) (\<lambda>r. case r of None \<Rightarrow> Some (None, k1) | Some b \<Rightarrow>
          Some (Some (discovery_frame proto (myEth k) (peerEth k) CODE_PADT (conn_session k) b), k1))))))"

section \<open>The tags a buffer holds\<close>

definition buf_holds :: "tag_buf \<Rightarrow> PPPoETag list \<Rightarrow> bool" where
  "buf_holds b ts \<longleftrightarrow> length (fst b) = ETH_DATA_LEN \<and> snd b = length (encs tag_bytes ts) \<and>
     take (length (encs tag_bytes ts)) (fst b) = encs tag_bytes ts"

lemma empty_holds [simp]: "buf_holds empty_buf []"
  by (simp add: buf_holds_def empty_buf_def)

lemma buf_holds_len: "buf_holds b ts \<Longrightarrow> snd b = length (encs tag_bytes ts)"
  by (simp add: buf_holds_def)

lemma length_tag_bytes [simp]: "length (tag_bytes t) = TAG_HDR_SIZE + length (tag_data t)"
  by (simp add: tag_bytes_def TAG_HDR_SIZE_def)

lemma copy_tag_holds:
  assumes "buf_holds b ts" "snd b + length (tag_data t) + TAG_HDR_SIZE \<le> ETH_DATA_LEN"
  obtains b' where "copy_tag t b = Some b'" "buf_holds b' (ts @ [t])"
proof -
  have fits: "snd b + length (tag_bytes t) \<le> length (fst b)" using assms by (simp add: buf_holds_def)
  define p where "p = take (snd b) (fst b) @ tag_bytes t @ drop (snd b + length (tag_bytes t)) (fst b)"
  have len: "length (take (snd b) (fst b)) = snd b" using fits by simp
  have "copy_tag t b = Some (p, snd b + length (tag_data t) + TAG_HDR_SIZE)"
    using fits assms(2) by (simp add: copy_tag_def wr_bytes_def p_def pppoe_consts)
  moreover have "length p = ETH_DATA_LEN" using assms fits by (simp add: p_def buf_holds_def)
  moreover have "take (length (encs tag_bytes (ts @ [t]))) p = encs tag_bytes (ts @ [t])"
    using len assms(1) by (simp add: p_def buf_holds_def)
  ultimately show thesis using that [of "(p, snd b + length (tag_data t) + TAG_HDR_SIZE)"] assms(1)
    by (simp add: buf_holds_def ac_simps)
qed

text \<open>The tags a tag that may be missing contributes.\<close>

definition saved :: "PPPoETag \<Rightarrow> PPPoETag list" where
  "saved t = (if tag_type t = 0 then [] else [t])"

lemma copy_checked_cases:
  assumes "buf_holds b ts"
  obtains "copy_checked t b = Some None" "length (encs tag_bytes (ts @ [t])) > MAX_PPPOE_PAYLOAD"
  | b' where "copy_checked t b = Some (Some b')" "buf_holds b' (ts @ [t])"
      "length (encs tag_bytes (ts @ [t])) \<le> MAX_PPPOE_PAYLOAD"
proof -
  note len = buf_holds_len [OF assms]
  show thesis
  proof (cases "CHECK_ROOM b (length (tag_data t) + TAG_HDR_SIZE)")
    case True
    then have "snd b + length (tag_data t) + TAG_HDR_SIZE \<le> ETH_DATA_LEN" by (simp add: CHECK_ROOM_def pppoe_consts)
    then obtain b' where "copy_tag t b = Some b'" "buf_holds b' (ts @ [t])" by (rule copy_tag_holds [OF assms])
    then show thesis using that(2) [of b'] True len by (simp add: copy_checked_def CHECK_ROOM_def ac_simps)
  next
    case no: False
    then show thesis using that(1) len by (simp add: copy_checked_def CHECK_ROOM_def not_le ac_simps)
  qed
qed

lemma copy_saved_cases:
  assumes "buf_holds b ts"
  obtains "copy_saved t b = Some None" "length (encs tag_bytes (ts @ saved t)) > MAX_PPPOE_PAYLOAD"
  | b' where "copy_saved t b = Some (Some b')" "buf_holds b' (ts @ saved t)"
      "tag_type t \<noteq> 0 \<longrightarrow> length (encs tag_bytes (ts @ saved t)) \<le> MAX_PPPOE_PAYLOAD"
proof (cases "tag_type t = 0")
  case True
  then show thesis using that(2) [of b] assms by (simp add: copy_saved_def saved_def)
next
  case False
  then have "copy_saved t b = copy_checked t b" "saved t = [t]" by (simp_all add: copy_saved_def saved_def)
  then show thesis using that by (cases rule: copy_checked_cases [OF assms, of t]) simp_all
qed

lemma frame_tags:
  assumes "buf_holds b ts" "\<forall>t \<in> set ts. tag_ok t" "snd b \<le> MAX_PPPOE_PAYLOAD"
  shows "pkt_ok (discovery_frame proto src dest cd ses b)" "tags_of (discovery_frame proto src dest cd ses b) = Some ts"
  using assms pppoe.decs_encs
  by (simp_all add: pkt_ok_def tags_of_def discovery_frame_def buf_holds_def pppoe_consts)

lemma discovery_frame_simps [simp]:
  "h_dest (discovery_frame proto src dest cd ses b) = dest" "h_source (discovery_frame proto src dest cd ses b) = src"
  "h_proto (discovery_frame proto src dest cd ses b) = proto" "code (discovery_frame proto src dest cd ses b) = cd"
  "session (discovery_frame proto src dest cd ses b) = ses" "plen (discovery_frame proto src dest cd ses b) = snd b"
  by (simp_all add: discovery_frame_def)

section \<open>What a PADT says\<close>

definition padt_tags :: "u8 list \<Rightarrow> u8 list option \<Rightarrow> PPPoEConnection \<Rightarrow> PPPoETag list" where
  "padt_tags pid msg k = (if useHostUniq k then [hostUniq pid] else []) @
     (case msg of None \<Rightarrow> [] | Some m \<Rightarrow> [\<lparr>tag_type = TAG_GENERIC_ERROR, tag_data = m\<rparr>]) @
     saved (cookie k) @ saved (relayId k)"

lemma padt_idle: "conn_session k = 0 \<or> discoverySocket k < 0 \<Longrightarrow> padt pid proto msg k = Some (None, k)"
  by (auto simp: padt_def)

text \<open>
  On an open session a PADT with these tags goes out if they fit, and the session is forgotten in
  any case; nothing is written outside the frame.
\<close>

lemma padt_open:
  assumes "conn_session k \<noteq> 0" "0 \<le> discoverySocket k" "length pid \<le> 16" "\<And>m. msg = Some m \<Longrightarrow> length m \<le> 511"
  obtains "padt pid proto msg k = Some (None, k\<lparr>conn_session := 0\<rparr>)"
    "length (encs tag_bytes (padt_tags pid msg k)) > MAX_PPPOE_PAYLOAD"
  | b where "padt pid proto msg k =
        Some (Some (discovery_frame proto (myEth k) (peerEth k) CODE_PADT (conn_session k) b), k\<lparr>conn_session := 0\<rparr>)"
      "buf_holds b (padt_tags pid msg k)" "snd b \<le> MAX_PPPOE_PAYLOAD"
proof -
  obtain b1 where b1: "(if useHostUniq k then copy_tag (hostUniq pid) empty_buf else Some empty_buf) = Some b1"
    "buf_holds b1 (if useHostUniq k then [hostUniq pid] else [])"
  proof (cases "useHostUniq k")
    case True
    have "snd empty_buf + length (tag_data (hostUniq pid)) + TAG_HDR_SIZE \<le> ETH_DATA_LEN"
      using assms(3) by (simp add: empty_buf_def hostUniq_def pppoe_consts)
    then obtain b where "copy_tag (hostUniq pid) empty_buf = Some b" "buf_holds b ([] @ [hostUniq pid])"
      by (rule copy_tag_holds [OF empty_holds])
    then show thesis using True that by simp
  qed (use that [of empty_buf] in simp)
  have l1: "snd b1 \<le> 20" using buf_holds_len [OF b1(2)] assms(3) by (auto simp: hostUniq_def TAG_HDR_SIZE_def)
  define ts2 where "ts2 = (if useHostUniq k then [hostUniq pid] else []) @
     (case msg of None \<Rightarrow> [] | Some m \<Rightarrow> [\<lparr>tag_type = TAG_GENERIC_ERROR, tag_data = m\<rparr>])"
  obtain b2 where b2: "(case msg of None \<Rightarrow> Some b1
        | Some m \<Rightarrow> if length m \<ge> ETH_DATA_LEN then None
                    else copy_tag \<lparr>tag_type = TAG_GENERIC_ERROR, tag_data = m\<rparr> b1) = Some b2" "buf_holds b2 ts2"
  proof (cases msg)
    case (Some m)
    have m: "length m \<le> 511" using assms(4) Some by simp
    then have "snd b1 + length (tag_data \<lparr>tag_type = TAG_GENERIC_ERROR, tag_data = m\<rparr>) + TAG_HDR_SIZE \<le> ETH_DATA_LEN"
      using l1 by (simp add: pppoe_consts)
    then obtain b where "copy_tag \<lparr>tag_type = TAG_GENERIC_ERROR, tag_data = m\<rparr> b1 = Some b"
      "buf_holds b ((if useHostUniq k then [hostUniq pid] else []) @ [\<lparr>tag_type = TAG_GENERIC_ERROR, tag_data = m\<rparr>])"
      by (rule copy_tag_holds [OF b1(2)])
    then show thesis using Some m that by (simp add: ts2_def ETH_DATA_LEN_def)
  qed (use that [of b1] b1 in \<open>simp add: ts2_def\<close>)
  have l2: "snd b2 \<le> 535" using buf_holds_len [OF b2(2)] assms(3,4)
    by (auto simp: ts2_def hostUniq_def TAG_HDR_SIZE_def split: option.split)
  have ts: "padt_tags pid msg k = (ts2 @ saved (cookie k)) @ saved (relayId k)"
    by (simp add: padt_tags_def ts2_def)
  have step: "padt pid proto msg k =
      Option.bind (copy_saved (cookie k) b2) (\<lambda>r. case r of None \<Rightarrow> Some (None, k\<lparr>conn_session := 0\<rparr>) | Some b \<Rightarrow>
      Option.bind (copy_saved (relayId k) b) (\<lambda>r. case r of None \<Rightarrow> Some (None, k\<lparr>conn_session := 0\<rparr>) | Some b \<Rightarrow>
        Some (Some (discovery_frame proto (myEth k) (peerEth k) CODE_PADT (conn_session k) b), k\<lparr>conn_session := 0\<rparr>)))"
    using assms(1,2) by (simp add: padt_def Let_def b1(1) b2(1) del: option.case_cong)
  show thesis
  proof (cases rule: copy_saved_cases [OF b2(2), of "cookie k"])
    case 1
    then show thesis using that(1) step by (simp add: ts)
  next
    case (2 b3)
    have l3: "snd b3 \<le> MAX_PPPOE_PAYLOAD" using buf_holds_len [OF 2(2)] buf_holds_len [OF b2(2)] 2(3) l2
      by (cases "tag_type (cookie k) = 0") (simp_all add: saved_def pppoe_consts)
    show thesis
    proof (cases rule: copy_saved_cases [OF 2(2), of "relayId k"])
      case 1
      then show thesis using that(1) step 2(1) by (simp add: ts)
    next
      case b4: (2 b4)
      have "snd b4 \<le> MAX_PPPOE_PAYLOAD" using buf_holds_len [OF b4(2)] buf_holds_len [OF 2(2)] b4(3) l3
        by (cases "tag_type (relayId k) = 0") (simp_all add: saved_def)
      then show thesis using that(2) [of b4] step 2(1) b4 by (simp add: ts)
    qed
  qed
qed

lemma padt_no_fault:
  assumes "length pid \<le> 16" "\<And>m. msg = Some m \<Longrightarrow> length m \<le> 511"
  shows "padt pid proto msg k \<noteq> None"
proof (cases "conn_session k = 0 \<or> discoverySocket k < 0")
  case False
  then have k: "conn_session k \<noteq> 0" "0 \<le> discoverySocket k" by auto
  show ?thesis by (rule padt_open [OF k assms, where msg = msg and proto = proto]) simp_all
qed (simp add: padt_idle)

end
