(* ===== verification/Pppoe_Client.thy ===== *)
theory Pppoe_Client
  imports Ppp_Frame Pppoe_Send
begin

text \<open>
  The PPPoE client (\<open>rg/pkg/pppoe-server/src/discovery.c\<close>, \<open>ppp.c\<close>, \<open>pppoe.c\<close> and the senders of
  \<open>common.c\<close>): discovery with its retries, the session between the PPP daemon and the network, and
  termination. The globals and the connection structure are one record. Input arrives as lists of
  events; frames sent and buffers written to the PPP daemon are kept in order. \<open>select\<close> restarted
  after a signal, log messages and debug dumps are left out.
\<close>

section \<open>State\<close>

datatype ppp_state = STATE_WAITFOR_FRAME_ADDR | STATE_DROP_PROTO | STATE_BUILDING_PACKET

text \<open>
  \<open>packet\<close> is the frame that \<open>session\<close> keeps for sending; \<open>frames\<close> are the successful calls of
  \<open>sendPacket\<close> (socket, frame, size), \<open>attempts\<close> counts all calls; \<open>ppp_out\<close> is what went to
  descriptor 1; \<open>waits\<close> are the timeouts asked for in discovery.
\<close>

record client =
  conn :: PPPoEConnection
  Eth_PPPOE_Discovery :: nat
  Eth_PPPOE_Session :: nat
  optClampMSS :: u32
  PPPState :: ppp_state
  PPPPacketSize :: nat
  PPPXorValue :: u8
  packet :: PPPoEPacket
  frames :: "(int \<times> PPPoEPacket \<times> nat) list"
  attempts :: nat
  ppp_out :: "u8 list list"
  waits :: "nat list"

text \<open>The system: what \<open>send\<close>, \<open>write\<close>, \<open>openInterface\<close>, \<open>getpid\<close> and \<open>strerror\<close> give.\<close>

datatype send_result = Sent | No_buffers | Send_failed

record client_env =
  pid :: "u8 list"
  c_big :: bool
  send_result :: "nat \<Rightarrow> send_result"
  write_ok :: "nat \<Rightarrow> bool"
  open_if :: "nat \<Rightarrow> int \<times> mac"
  strerror :: "u8 list"

text \<open>
  How a function ends: it returns, it has called \<open>exit\<close>, it waits for input that has not come, or
  it has accessed memory outside an object.
\<close>

datatype run = Run client | Exit int client | Wait client | Fault

fun run_bind :: "run \<Rightarrow> (client \<Rightarrow> run) \<Rightarrow> run" where
  "run_bind (Run c) f = f c"
| "run_bind (Exit r c) f = Exit r c"
| "run_bind (Wait c) f = Wait c"
| "run_bind Fault f = Fault"

definition or_fault :: "'a option \<Rightarrow> ('a \<Rightarrow> run) \<Rightarrow> run" where
  "or_fault x f = (case x of None \<Rightarrow> Fault | Some y \<Rightarrow> f y)"

lemma or_fault_simps [simp]: "or_fault None f = Fault" "or_fault (Some y) f = f y"
  by (simp_all add: or_fault_def)

definition EXIT_SUCCESS :: int where "EXIT_SUCCESS = 0"
definition EXIT_FAILURE :: int where "EXIT_FAILURE = 1"

definition upd_conn :: "(PPPoEConnection \<Rightarrow> PPPoEConnection) \<Rightarrow> client \<Rightarrow> client" where
  "upd_conn f c = c\<lparr>conn := f (conn c)\<rparr>"

section \<open>Building and sending discovery frames\<close>

definition sendPacket :: "client_env \<Rightarrow> int \<Rightarrow> PPPoEPacket \<Rightarrow> nat \<Rightarrow> client \<Rightarrow> send_result \<times> client" where
  "sendPacket env sock pkt sz c =
     (let r = send_result env (attempts c); c1 = c\<lparr>attempts := attempts c + 1\<rparr> in
      (r, if r = Sent then c1\<lparr>frames := frames c1 @ [(sock, pkt, sz)]\<rparr> else c1))"

definition send_discovery :: "client_env \<Rightarrow> PPPoEPacket \<Rightarrow> client \<Rightarrow> run" where
  "send_discovery env p c =
     Run (snd (sendPacket env (discoverySocket (conn c)) p (plen p + HDR_SIZE) c))"

definition sendPADT :: "client_env \<Rightarrow> u8 list option \<Rightarrow> client \<Rightarrow> run" where
  "sendPADT env msg c =
     or_fault (padt (pid env) (Eth_PPPOE_Discovery c) msg (conn c)) (\<lambda>(frame, k).
       let c1 = c\<lparr>conn := k\<rparr> in case frame of None \<Rightarrow> Run c1 | Some p \<Rightarrow> send_discovery env p c1)"

text \<open>The formatted message is an argument; \<open>vsnprintf\<close> cuts it to the 512-byte buffer.\<close>

definition sendPADTf :: "client_env \<Rightarrow> u8 list \<Rightarrow> client \<Rightarrow> run" where
  "sendPADTf env msg c = sendPADT env (Some (take 511 msg)) c"

definition rp_fatal :: "client_env \<Rightarrow> string \<Rightarrow> client \<Rightarrow> run" where
  "rp_fatal env str c =
     run_bind (sendPADTf env (ascii ''RP-PPPoE: Session '' @
         decimal (unat (htons (c_big env) (conn_session (conn c)))) @ ascii '': '' @ take 256 (ascii str)) c)
       (Exit EXIT_FAILURE)"

definition fatalSys :: "client_env \<Rightarrow> client \<Rightarrow> run" where
  "fatalSys env c =
     run_bind (sendPADTf env (ascii ''RP-PPPoE: System call error: '' @ strerror env) c) (Exit EXIT_FAILURE)"

definition sigPADT :: "client_env \<Rightarrow> nat \<Rightarrow> client \<Rightarrow> run" where
  "sigPADT env src c =
     run_bind (sendPADTf env (ascii ''RP-PPPoE: Received signal '' @ decimal src) c) (Exit EXIT_SUCCESS)"

text \<open>
  The Service-Name tag is filled in place. \<open>sendPADI\<close> copies \<open>strlen\<close> bytes of the name, although
  the length it has checked is cut to 16 bits; \<open>sendPADR\<close> copies the checked length.
\<close>

definition service_buf :: "u8 list option \<Rightarrow> nat \<Rightarrow> tag_buf option" where
  "service_buf name copied =
     (let n = (case name of None \<Rightarrow> [] | Some s \<Rightarrow> s); namelen = length n mod 65536 in
      map_option (\<lambda>p. (p, (TAG_HDR_SIZE + namelen) mod 65536))
        (wr_bytes (fst empty_buf) 0
          ([hi8 TAG_SERVICE_NAME, lo8 TAG_SERVICE_NAME, hi8 namelen, lo8 namelen] @ take copied n)))"

definition namelen :: "u8 list option \<Rightarrow> nat" where
  "namelen name = (case name of None \<Rightarrow> 0 | Some s \<Rightarrow> length s mod 65536)"

definition sendPADI :: "client_env \<Rightarrow> client \<Rightarrow> run" where
  "sendPADI env c =
     (if \<not> CHECK_ROOM empty_buf ((TAG_HDR_SIZE + namelen (serviceName (conn c))) mod 65536) then Run c
      else if \<not> CHECK_ROOM empty_buf (namelen (serviceName (conn c)) + TAG_HDR_SIZE) then Run c
      else
        or_fault (service_buf (serviceName (conn c)) (case serviceName (conn c) of None \<Rightarrow> 0 | Some s \<Rightarrow> length s)) (\<lambda>b.
          if useHostUniq (conn c) \<and> \<not> CHECK_ROOM b (length (pid env) + TAG_HDR_SIZE) then Run c
          else or_fault (if useHostUniq (conn c) then copy_tag (hostUniq (pid env)) b else Some b) (\<lambda>b.
            send_discovery env (discovery_frame (Eth_PPPOE_Discovery c) (myEth (conn c)) (replicate 6 0xFF) CODE_PADI 0 b) c)))"

definition sendPADR :: "client_env \<Rightarrow> client \<Rightarrow> run" where
  "sendPADR env c =
     (if \<not> CHECK_ROOM empty_buf ((TAG_HDR_SIZE + namelen (serviceName (conn c))) mod 65536) then Run c
      else
        or_fault (service_buf (serviceName (conn c)) (namelen (serviceName (conn c)))) (\<lambda>b.
          if useHostUniq (conn c) \<and> \<not> CHECK_ROOM b (length (pid env) + TAG_HDR_SIZE) then Run c
          else or_fault (if useHostUniq (conn c) then copy_tag (hostUniq (pid env)) b else Some b) (\<lambda>b.
            or_fault (copy_saved (cookie (conn c)) b) (\<lambda>r. case r of None \<Rightarrow> Run c | Some b \<Rightarrow>
            or_fault (copy_saved (relayId (conn c)) b) (\<lambda>r. case r of None \<Rightarrow> Run c | Some b \<Rightarrow>
              send_discovery env (discovery_frame (Eth_PPPOE_Discovery c) (myEth (conn c)) (peerEth (conn c)) CODE_PADR 0 b) c)))))"

section \<open>Receiving in discovery\<close>

definition parseForHostUniq :: "client_env \<Rightarrow> nat \<Rightarrow> u8 list \<Rightarrow> bool \<Rightarrow> bool" where
  "parseForHostUniq env type data val =
     (if type = TAG_HOST_UNIQ \<and> length data = length (pid env) then (if data = pid env then True else val)
      else val)"

definition packetIsForMe :: "client_env \<Rightarrow> PPPoEConnection \<Rightarrow> PPPoEPacket \<Rightarrow> bool option" where
  "packetIsForMe env k p =
     (if h_dest p \<noteq> myEth k then Some False
      else if \<not> useHostUniq k then Some True
      else map_option snd (parsePacket p (parseForHostUniq env) False))"

text \<open>The criteria of a PADO; \<open>pc_exit\<close> is that the callback has called \<open>exit(1)\<close>.\<close>

record PacketCriteria =
  pc_conn :: PPPoEConnection
  acNameOK :: bool
  serviceNameOK :: bool
  seenACName :: bool
  seenServiceName :: bool
  pc_exit :: bool

definition parsePADOTags :: "nat \<Rightarrow> u8 list \<Rightarrow> PacketCriteria \<Rightarrow> PacketCriteria" where
  "parsePADOTags type data pc =
     (if pc_exit pc then pc
      else if type = TAG_AC_NAME then
        (let pc = pc\<lparr>seenACName := True\<rparr> in
         if acName (pc_conn pc) = Some data then pc\<lparr>acNameOK := True\<rparr> else pc)
      else if type = TAG_SERVICE_NAME then
        (let pc = pc\<lparr>seenServiceName := True\<rparr> in
         if serviceName (pc_conn pc) = Some data then pc\<lparr>serviceNameOK := True\<rparr> else pc)
      else if type = TAG_AC_COOKIE then
        pc\<lparr>pc_conn := (pc_conn pc)\<lparr>cookie := \<lparr>tag_type = type, tag_data = data\<rparr>\<rparr>\<rparr>
      else if type = TAG_RELAY_SESSION_ID then
        pc\<lparr>pc_conn := (pc_conn pc)\<lparr>relayId := \<lparr>tag_type = type, tag_data = data\<rparr>\<rparr>\<rparr>
      else if type = TAG_SERVICE_NAME_ERROR \<or> type = TAG_AC_SYSTEM_ERROR \<or> type = TAG_GENERIC_ERROR then
        (if printACNames (pc_conn pc) then pc else pc\<lparr>pc_exit := True\<rparr>)
      else pc)"

definition parsePADSTags :: "nat \<Rightarrow> u8 list \<Rightarrow> PPPoEConnection \<times> bool \<Rightarrow> PPPoEConnection \<times> bool" where
  "parsePADSTags type data s =
     (if snd s then s
      else if type = TAG_SERVICE_NAME_ERROR \<or> type = TAG_AC_SYSTEM_ERROR \<or> type = TAG_GENERIC_ERROR then
        (fst s, True)
      else if type = TAG_RELAY_SESSION_ID then
        ((fst s)\<lparr>relayId := \<lparr>tag_type = type, tag_data = data\<rparr>\<rparr>, False)
      else s)"

text \<open>
  What \<open>select\<close> and \<open>receivePacket\<close> give in discovery. The result of \<open>receivePacket\<close> is not looked
  at: \<open>Received p len\<close> is the buffer and the \<open>int\<close> length after the call, whether it succeeded or
  not. The comparison with the length is unsigned.
\<close>

datatype disc_input = Select_timeout | Select_error | Received PPPoEPacket u32

fun waitForPADO_loop ::
  "client_env \<Rightarrow> disc_input list \<Rightarrow> PacketCriteria \<Rightarrow> client \<Rightarrow> run \<times> disc_input list" where
  "waitForPADO_loop env [] pc c = (Wait c, [])"
| "waitForPADO_loop env (i # inp) pc c =
     (let again = (\<lambda>pc c. if discoveryState (conn c) = STATE_RECEIVED_PADO then (Run c, inp)
                           else waitForPADO_loop env inp pc c) in
      case i of
        Select_timeout \<Rightarrow> (Run c, inp)
      | Select_error \<Rightarrow> (fatalSys env c, inp)
      | Received p len \<Rightarrow>
          if bogus_length p len then again pc c
          else case packetIsForMe env (conn c) p of
            None \<Rightarrow> (Fault, inp)
          | Some forMe \<Rightarrow>
              if \<not> forMe then again pc c
              else if code p \<noteq> CODE_PADO then again pc c
              else if NOT_UNICAST (h_source p) then again pc c
              else case parsePacket p parsePADOTags (pc\<lparr>pc_conn := conn c\<rparr>) of
                None \<Rightarrow> (Fault, inp)
              | Some (r, pc) \<Rightarrow>
                  let c = c\<lparr>conn := pc_conn pc\<rparr> in
                  if pc_exit pc then (Exit 1 c, inp)
                  else if \<not> seenACName pc then again pc c
                  else if \<not> seenServiceName pc then again pc c
                  else
                    let c = upd_conn (\<lambda>k. k\<lparr>numPADOs := numPADOs k + 1\<rparr>) c in
                    if acNameOK pc \<and> serviceNameOK pc then
                      let c = upd_conn (\<lambda>k. k\<lparr>peerEth := h_source p\<rparr>) c in
                      if printACNames (conn c) then again pc c
                      else (Run (upd_conn (\<lambda>k. k\<lparr>discoveryState := STATE_RECEIVED_PADO\<rparr>) c), inp)
                    else again pc c)"

definition waitForPADO :: "client_env \<Rightarrow> nat \<Rightarrow> disc_input list \<Rightarrow> client \<Rightarrow> run \<times> disc_input list" where
  "waitForPADO env timeout inp c =
     waitForPADO_loop env inp
       \<lparr>pc_conn = conn c, acNameOK = (acName (conn c) = None), serviceNameOK = (serviceName (conn c) = None),
        seenACName = False, seenServiceName = False, pc_exit = False\<rparr>
       (c\<lparr>waits := waits c @ [timeout]\<rparr>)"

fun waitForPADS_loop :: "client_env \<Rightarrow> disc_input list \<Rightarrow> client \<Rightarrow> run \<times> disc_input list" where
  "waitForPADS_loop env [] c = (Wait c, [])"
| "waitForPADS_loop env (i # inp) c =
     (case i of
        Select_timeout \<Rightarrow> (Run c, inp)
      | Select_error \<Rightarrow> (fatalSys env c, inp)
      | Received p len \<Rightarrow>
          let leave = (\<lambda>c. (Run (upd_conn (\<lambda>k. k\<lparr>conn_session := session p\<rparr>) c), inp));
              again = (\<lambda>c. if discoveryState (conn c) = STATE_SESSION then leave c
                            else waitForPADS_loop env inp c) in
          if bogus_length p len then again c
          else if h_source p \<noteq> peerEth (conn c) then again c
          else case packetIsForMe env (conn c) p of
            None \<Rightarrow> (Fault, inp)
          | Some forMe \<Rightarrow>
              if \<not> forMe then again c
              else if code p \<noteq> CODE_PADS then again c
              else case parsePacket p parsePADSTags (conn c, False) of
                None \<Rightarrow> (Fault, inp)
              | Some (r, k, ex) \<Rightarrow>
                  let c = c\<lparr>conn := k\<rparr> in
                  if ex then (Exit 1 c, inp)
                  else leave (upd_conn (\<lambda>k. k\<lparr>discoveryState := STATE_SESSION\<rparr>) c))"

definition waitForPADS :: "client_env \<Rightarrow> nat \<Rightarrow> disc_input list \<Rightarrow> client \<Rightarrow> run \<times> disc_input list" where
  "waitForPADS env timeout inp c = waitForPADS_loop env inp (c\<lparr>waits := waits c @ [timeout]\<rparr>)"

section \<open>Discovery\<close>

definition MAX_PADI_ATTEMPTS :: nat where "MAX_PADI_ATTEMPTS = 3"
definition PADI_TIMEOUT :: nat where "PADI_TIMEOUT = 5"

definition run_inputs :: "run \<Rightarrow> disc_input list \<Rightarrow> (client \<Rightarrow> run \<times> disc_input list) \<Rightarrow> run \<times> disc_input list" where
  "run_inputs r inp f = (case r of Run c \<Rightarrow> f c | _ \<Rightarrow> (r, inp))"

function padi_loop :: "client_env \<Rightarrow> nat \<Rightarrow> nat \<Rightarrow> disc_input list \<Rightarrow> client \<Rightarrow> run \<times> disc_input list" where
  "padi_loop env padiAttempts timeout inp c =
     (if padiAttempts + 1 > MAX_PADI_ATTEMPTS then (rp_fatal env ''Timeout waiting for PADO packets'' c, inp)
      else
        run_inputs (sendPADI env c) inp (\<lambda>c.
        case waitForPADO env timeout inp (upd_conn (\<lambda>k. k\<lparr>discoveryState := STATE_SENT_PADI\<rparr>) c) of
          (r, inp) \<Rightarrow> run_inputs r inp (\<lambda>c.
            let timeout = (if printACNames (conn c) then timeout else 2 * timeout) in
            if printACNames (conn c) \<and> numPADOs (conn c) \<noteq> 0 then (Run c, inp)
            else if discoveryState (conn c) = STATE_SENT_PADI
            then padi_loop env (padiAttempts + 1) timeout inp c
            else (Run c, inp))))"
  by pat_completeness auto

termination
  by (relation "measure (\<lambda>(env, n, t, i, c). MAX_PADI_ATTEMPTS - n)") (auto simp: MAX_PADI_ATTEMPTS_def)

function padr_loop :: "client_env \<Rightarrow> nat \<Rightarrow> nat \<Rightarrow> disc_input list \<Rightarrow> client \<Rightarrow> run \<times> disc_input list" where
  "padr_loop env padrAttempts timeout inp c =
     (if padrAttempts + 1 > MAX_PADI_ATTEMPTS then (rp_fatal env ''Timeout waiting for PADS packets'' c, inp)
      else
        run_inputs (sendPADR env c) inp (\<lambda>c.
        case waitForPADS env timeout inp (upd_conn (\<lambda>k. k\<lparr>discoveryState := STATE_SENT_PADR\<rparr>) c) of
          (r, inp) \<Rightarrow> run_inputs r inp (\<lambda>c.
            if discoveryState (conn c) = STATE_SENT_PADR
            then padr_loop env (padrAttempts + 1) (2 * timeout) inp c
            else (Run c, inp))))"
  by pat_completeness auto

termination
  by (relation "measure (\<lambda>(env, n, t, i, c). MAX_PADI_ATTEMPTS - n)") (auto simp: MAX_PADI_ATTEMPTS_def)

declare padi_loop.simps [simp del] padr_loop.simps [simp del] waitForPADO_loop.simps(2) [simp del]
  waitForPADS_loop.simps(2) [simp del]

definition open_discovery :: "client_env \<Rightarrow> client \<Rightarrow> client" where
  "open_discovery env c =
     upd_conn (\<lambda>k. k\<lparr>discoverySocket := fst (open_if env (Eth_PPPOE_Discovery c)),
                     myEth := snd (open_if env (Eth_PPPOE_Discovery c))\<rparr>) c"

definition discovery :: "client_env \<Rightarrow> disc_input list \<Rightarrow> client \<Rightarrow> run \<times> disc_input list" where
  "discovery env inp c =
     (if skipDiscovery (conn c) \<and> noDiscoverySocket (conn c)
      then (Run (upd_conn (\<lambda>k. k\<lparr>discoveryState := STATE_SESSION\<rparr>) c), inp)
      else
        let c = open_discovery env c in
        if skipDiscovery (conn c) then
          let c = upd_conn (\<lambda>k. k\<lparr>discoveryState := STATE_SESSION\<rparr>) c in
          if killSession (conn c)
          then (run_bind (sendPADT env (Some (ascii ''RP-PPPoE: Session killed manually'')) c) (Exit 0), inp)
          else (Run c, inp)
        else
          case padi_loop env 0 PADI_TIMEOUT inp c of
            (r, inp) \<Rightarrow> run_inputs r inp (\<lambda>c.
              if printACNames (conn c) then (Exit 0 c, inp)
              else case padr_loop env 0 PADI_TIMEOUT inp c of
                (r, inp) \<Rightarrow> run_inputs r inp (\<lambda>c.
                  (Run (upd_conn (\<lambda>k. k\<lparr>discoveryState := STATE_SESSION\<rparr>) c), inp))))"

section \<open>Session frames\<close>

definition sendSessionPacket :: "client_env \<Rightarrow> nat \<Rightarrow> client \<Rightarrow> run" where
  "sendSessionPacket env len c =
     (let p = (packet c)\<lparr>plen := len mod 65536\<rparr> in
      or_fault (if optClampMSS c \<noteq> 0 then clampMSS (c_big env) p (optClampMSS c) else Some (payload p)) (\<lambda>pl.
        let p = p\<lparr>payload := pl\<rparr> in
        case sendPacket env (sessionSocket (conn c)) p (len + HDR_SIZE) (c\<lparr>packet := p\<rparr>) of
          (r, c) \<Rightarrow> (case r of Sent \<Rightarrow> Run c | No_buffers \<Rightarrow> Run c | Send_failed \<Rightarrow> Exit EXIT_FAILURE c)))"

text \<open>What \<open>read\<close> gives on descriptor 0.\<close>

datatype ppp_read = Read_error bool | Read "u8 list"

definition sessionDiscoveryPacket :: "client_env \<Rightarrow> recv \<Rightarrow> client \<Rightarrow> run" where
  "sessionDiscoveryPacket env rx c =
     (case rx of
        Recv_error \<Rightarrow> Run c
      | Recv p len \<Rightarrow>
          if bogus_length p len then Run c
          else if code p \<noteq> CODE_PADT then Run c
          else if session p \<noteq> conn_session (conn c) then Run c
          else if h_dest p \<noteq> myEth (conn c) then Run c
          else if h_source p \<noteq> peerEth (conn c) then Run c
          else or_fault (parsePacket p (\<lambda>_ _ s. s) ()) (\<lambda>_.
            run_bind (sendPADT env (Some (ascii ''Received PADT from peer'')) c) (Exit EXIT_SUCCESS)))"

text \<open>
  The bytes the PPP daemon wrote, when descriptor 0 is ready. \<open>readv\<close> puts the two bytes of
  address and control aside and the rest into the payload; \<open>Read_error again\<close> is a failure, with
  \<open>again\<close> whether \<open>errno\<close> is \<open>EAGAIN\<close>.
\<close>

definition syncReadFromPPP :: "client_env \<Rightarrow> ppp_read \<Rightarrow> client \<Rightarrow> run" where
  "syncReadFromPPP env input c =
     (case input of
        Read_error again \<Rightarrow>
          if again then rp_fatal env ''Linux select bug hit!  This message is harmless, but please ask the Linux kernel developers to fix it.'' c
          else fatalSys env c
      | Read bs \<Rightarrow>
          if bs = [] then
            run_bind (sendPADT env (Some (ascii ''RP-PPPoE: EOF in syncReadFromPPP'')) c) (Exit 0)
          else
            or_fault (wr_bytes (payload (packet c)) 0 (drop 2 bs)) (\<lambda>pl.
              let c = c\<lparr>packet := (packet c)\<lparr>payload := pl\<rparr>\<rparr> in
              if length bs < 2 then rp_fatal env ''too few characters read from PPP (syncReadFromPPP)'' c
              else sendSessionPacket env (length bs - 2) c))"

definition initPPP :: "client \<Rightarrow> client" where
  "initPPP c = c\<lparr>PPPState := STATE_WAITFOR_FRAME_ADDR, PPPPacketSize := 0, PPPXorValue := 0\<rparr>"

text \<open>
  The three inner loops of \<open>asyncReadFromPPP\<close> over the bytes that are left: each stops when the
  state changes or the bytes run out, and gives back what is left.
\<close>

fun wait_addr :: "u8 list \<Rightarrow> client \<Rightarrow> u8 list \<times> client" where
  "wait_addr [] c = ([], c)"
| "wait_addr (x # ptr) c =
     (if x = FRAME_ADDR then (ptr, c\<lparr>PPPState := STATE_DROP_PROTO\<rparr>) else wait_addr ptr c)"

fun drop_proto :: "u8 list \<Rightarrow> client \<Rightarrow> u8 list \<times> client" where
  "drop_proto [] c = ([], c)"
| "drop_proto (x # ptr) c =
     (if PPPState c = STATE_DROP_PROTO then
        drop_proto ptr (if x = FRAME_CTRL XOR FRAME_ENC then c\<lparr>PPPState := STATE_BUILDING_PACKET\<rparr> else c)
      else (x # ptr, c))"

definition build_char :: "client_env \<Rightarrow> u8 \<Rightarrow> client \<Rightarrow> run" where
  "build_char env x c =
     (if x = FRAME_ESC then Run (c\<lparr>PPPXorValue := FRAME_ENC\<rparr>)
      else if x = FRAME_FLAG then
        run_bind (if PPPPacketSize c < 2 then rp_fatal env ''Packet too short from PPP (asyncReadFromPPP)'' c else Run c) (\<lambda>c.
        run_bind (sendSessionPacket env (PPPPacketSize c - 2) c) (\<lambda>c.
          Run (c\<lparr>PPPPacketSize := 0, PPPXorValue := 0, PPPState := STATE_WAITFOR_FRAME_ADDR\<rparr>)))
      else if PPPPacketSize c \<ge> ETH_DATA_LEN - 4 then
        Run (c\<lparr>PPPPacketSize := 0, PPPXorValue := 0, PPPState := STATE_WAITFOR_FRAME_ADDR\<rparr>)
      else
        or_fault (wr_bytes (payload (packet c)) (PPPPacketSize c) [x XOR PPPXorValue c]) (\<lambda>pl.
          Run (c\<lparr>packet := (packet c)\<lparr>payload := pl\<rparr>, PPPPacketSize := PPPPacketSize c + 1, PPPXorValue := 0\<rparr>)))"

fun build :: "client_env \<Rightarrow> u8 list \<Rightarrow> client \<Rightarrow> u8 list \<times> run" where
  "build env [] c = ([], Run c)"
| "build env (x # ptr) c =
     (if PPPState c = STATE_BUILDING_PACKET then
        (case build_char env x c of Run c \<Rightarrow> build env ptr c | r \<Rightarrow> (ptr, r))
      else (x # ptr, Run c))"

lemma wait_addr_length: "length (fst (wait_addr ptr c)) \<le> length ptr - 1"
  by (induction ptr c rule: wait_addr.induct) auto

lemma drop_proto_length:
  "length (fst (drop_proto ptr c)) \<le> length ptr"
  "PPPState c = STATE_DROP_PROTO \<Longrightarrow> ptr \<noteq> [] \<Longrightarrow> length (fst (drop_proto ptr c)) < length ptr"
proof -
  show l: "length (fst (drop_proto ptr c)) \<le> length ptr" for ptr c
    by (induction ptr c rule: drop_proto.induct) auto
  show "PPPState c = STATE_DROP_PROTO \<Longrightarrow> ptr \<noteq> [] \<Longrightarrow> length (fst (drop_proto ptr c)) < length ptr"
    by (cases ptr) (auto simp: less_Suc_eq_le l)
qed

lemma build_length:
  "length (fst (build env ptr c)) \<le> length ptr"
  "PPPState c = STATE_BUILDING_PACKET \<Longrightarrow> ptr \<noteq> [] \<Longrightarrow> length (fst (build env ptr c)) < length ptr"
proof -
  show l: "length (fst (build env ptr c)) \<le> length ptr" for ptr c
  proof (induction env ptr c rule: build.induct)
    case (2 env x ptr c)
    then show ?case by (cases "build_char env x c") (auto intro: le_SucI)
  qed simp
  show "PPPState c = STATE_BUILDING_PACKET \<Longrightarrow> ptr \<noteq> [] \<Longrightarrow> length (fst (build env ptr c)) < length ptr"
    by (cases ptr) (auto simp: less_Suc_eq_le l split: run.split)
qed

function async_loop :: "client_env \<Rightarrow> u8 list \<Rightarrow> client \<Rightarrow> run" where
  "async_loop env ptr c =
     (if ptr = [] then Run c
      else
        case (if PPPState c = STATE_WAITFOR_FRAME_ADDR then wait_addr ptr c else (ptr, c)) of (ptr1, c1) \<Rightarrow>
          if PPPState c1 = STATE_WAITFOR_FRAME_ADDR then Run c1
          else case drop_proto ptr1 c1 of (ptr2, c2) \<Rightarrow>
            if PPPState c2 = STATE_DROP_PROTO then Run c2
            else case build env ptr2 c2 of (ptr3, r) \<Rightarrow>
              (case r of Run c3 \<Rightarrow> async_loop env ptr3 c3 | _ \<Rightarrow> r))"
  by pat_completeness auto

termination
proof (relation "measure (\<lambda>(env, ptr, c). length ptr)", simp)
  fix env :: client_env and ptr :: "u8 list" and c ptr1 c1 ptr2 c2 ptr3 r c3
  assume ne: "ptr \<noteq> []"
    and 1: "(ptr1, c1) = (if PPPState c = STATE_WAITFOR_FRAME_ADDR then wait_addr ptr c else (ptr, c))"
    and s1: "PPPState c1 \<noteq> STATE_WAITFOR_FRAME_ADDR"
    and 2: "(ptr2, c2) = drop_proto ptr1 c1" and s2: "PPPState c2 \<noteq> STATE_DROP_PROTO"
    and 3: "(ptr3, r) = build env ptr2 c2"
  have e: "ptr1 = fst (if PPPState c = STATE_WAITFOR_FRAME_ADDR then wait_addr ptr c else (ptr, c))"
    "ptr2 = fst (drop_proto ptr1 c1)" "ptr3 = fst (build env ptr2 c2)"
    using 1 2 3 by (metis fst_conv)+
  have "length ptr3 < length ptr"
  proof (cases "PPPState c")
    case STATE_WAITFOR_FRAME_ADDR
    have "length ptr - 1 < length ptr" using ne by (cases ptr) simp_all
    then show ?thesis
      using build_length(1) [of env ptr2 c2] drop_proto_length(1) [of ptr1 c1] wait_addr_length [of ptr c]
        STATE_WAITFOR_FRAME_ADDR e by (simp del: One_nat_def)
  next
    case STATE_DROP_PROTO
    then have "ptr1 = ptr" "c1 = c" using 1 by auto
    then show ?thesis
      using build_length(1) [of env ptr2 c2] drop_proto_length(2) [of c ptr] STATE_DROP_PROTO ne e by simp
  next
    case STATE_BUILDING_PACKET
    then have "ptr1 = ptr" "c1 = c" using 1 by auto
    moreover have "drop_proto ptr c = (ptr, c)" using STATE_BUILDING_PACKET by (cases ptr) auto
    ultimately have "ptr2 = ptr" "c2 = c" using 2 by auto
    then show ?thesis using build_length(2) [of c ptr env] STATE_BUILDING_PACKET ne e by simp
  qed
  then show "((env, ptr3, c3), env, ptr, c) \<in> measure (\<lambda>(env, ptr, c). length ptr)" by simp
qed

declare async_loop.simps [simp del]

definition READ_CHUNK :: nat where "READ_CHUNK = 4096"

definition asyncReadFromPPP :: "client_env \<Rightarrow> ppp_read \<Rightarrow> client \<Rightarrow> run" where
  "asyncReadFromPPP env input c =
     (case input of
        Read_error again \<Rightarrow> fatalSys env c
      | Read bs \<Rightarrow>
          if bs = [] then
            run_bind (sendPADT env (Some (ascii ''RP-PPPoE: EOF in asyncReadFromPPP'')) c) (Exit 0)
          else async_loop env bs c)"

text \<open>
  The checks that \<open>asyncReadFromEth\<close> and \<open>syncReadFromEth\<close> share: the payload to deliver, after
  clamping, or nothing.
\<close>

definition session_payload :: "client_env \<Rightarrow> recv \<Rightarrow> client \<Rightarrow> u8 list option option" where
  "session_payload env rx c =
     (case rx of
        Recv_error \<Rightarrow> Some None
      | Recv p len \<Rightarrow>
          if bogus_length p len then Some None
          else if code p \<noteq> CODE_SESS then Some None
          else if ver p \<noteq> 1 then Some None
          else if ptype p \<noteq> 1 then Some None
          else if h_dest p \<noteq> myEth (conn c) then Some None
          else if h_source p \<noteq> peerEth (conn c) then Some None
          else if session p \<noteq> conn_session (conn c) then Some None
          else if plen p + HDR_SIZE > unat len then Some None
          else
            Option.bind (if optClampMSS c \<noteq> 0 then clampMSS (c_big env) p (optClampMSS c) else Some (payload p)) (\<lambda>pl.
              map_option Some (rd_bytes pl 0 (plen p))))"

definition write_ppp :: "client_env \<Rightarrow> u8 list \<Rightarrow> client \<Rightarrow> run" where
  "write_ppp env bs c =
     (if write_ok env (length (ppp_out c)) then Run (c\<lparr>ppp_out := ppp_out c @ [bs]\<rparr>) else fatalSys env c)"

definition asyncReadFromEth :: "client_env \<Rightarrow> recv \<Rightarrow> client \<Rightarrow> run" where
  "asyncReadFromEth env rx c =
     or_fault (session_payload env rx c) (\<lambda>r. case r of None \<Rightarrow> Run c | Some data \<Rightarrow>
       if length (ppp_frame data) > 4096 then Fault else write_ppp env (ppp_frame data) c)"

definition syncReadFromEth :: "client_env \<Rightarrow> recv \<Rightarrow> client \<Rightarrow> run" where
  "syncReadFromEth env rx c =
     or_fault (session_payload env rx c) (\<lambda>r. case r of None \<Rightarrow> Run c | Some data \<Rightarrow>
       write_ppp env ([FRAME_ADDR, FRAME_CTRL] @ data) c)"

section \<open>The session\<close>

text \<open>One return of \<open>select\<close>, with what the descriptors that are ready give; or the signal SIGHUP.\<close>

datatype session_event =
    Inactivity
  | Session_select_error
  | Ready "ppp_read option" "recv option" "recv option"
  | Signal nat

definition session_step :: "client_env \<Rightarrow> session_event \<Rightarrow> client \<Rightarrow> run" where
  "session_step env ev c =
     (case ev of
        Signal n \<Rightarrow> sigPADT env n c
      | Session_select_error \<Rightarrow> fatalSys env c
      | Inactivity \<Rightarrow>
          run_bind (sendPADT env (Some (ascii ''RP-PPPoE: Inactivity timeout'')) c) (Exit EXIT_FAILURE)
      | Ready ppp eth disc \<Rightarrow>
          run_bind (case ppp of None \<Rightarrow> Run c
                    | Some r \<Rightarrow> if synchronous (conn c) then syncReadFromPPP env r c else asyncReadFromPPP env r c) (\<lambda>c.
          run_bind (case eth of None \<Rightarrow> Run c
                    | Some r \<Rightarrow> if synchronous (conn c) then syncReadFromEth env r c else asyncReadFromEth env r c) (\<lambda>c.
          if discoverySocket (conn c) \<ge> 0
          then (case disc of None \<Rightarrow> Run c | Some r \<Rightarrow> sessionDiscoveryPacket env r c)
          else Run c)))"

fun session_loop :: "client_env \<Rightarrow> session_event list \<Rightarrow> client \<Rightarrow> run" where
  "session_loop env [] c = Wait c"
| "session_loop env (e # evs) c = run_bind (session_step env e c) (session_loop env evs)"

text \<open>The payload of the frame that \<open>session\<close> keeps is not initialised: it is the one of \<open>packet c\<close>.\<close>

definition session_start :: "client_env \<Rightarrow> client \<Rightarrow> client" where
  "session_start env c =
     (let (sock, mac) = open_if env (Eth_PPPOE_Session c);
          c = upd_conn (\<lambda>k. k\<lparr>sessionSocket := sock, myEth := mac\<rparr>) c
      in initPPP (c\<lparr>packet := (packet c)\<lparr>h_dest := peerEth (conn c), h_source := myEth (conn c),
           h_proto := Eth_PPPOE_Session c, ver := 1, ptype := 1, code := CODE_SESS,
           session := conn_session (conn c)\<rparr>\<rparr>))"

definition session_run :: "client_env \<Rightarrow> session_event list \<Rightarrow> client \<Rightarrow> run" where
  "session_run env evs c = session_loop env evs (session_start env c)"

text \<open>The end of \<open>main\<close>: discovery, then the session (\<open>optSkipSession\<close> prints it and exits).\<close>

definition pppoe_main :: "client_env \<Rightarrow> bool \<Rightarrow> disc_input list \<Rightarrow> session_event list \<Rightarrow> client \<Rightarrow> run" where
  "pppoe_main env optSkipSession inp evs c =
     (case discovery env inp c of
        (r, _) \<Rightarrow> run_bind r (\<lambda>c.
          if optSkipSession then Exit EXIT_SUCCESS c else session_run env evs c))"

end
