(* ===== verification/Client_Async.thy ===== *)
theory Client_Async
  imports Pppoe_Client
begin

text \<open>
  The asynchronous PPP side of the client: the decoder of \<open>asyncReadFromPPP\<close> as a machine that
  takes one byte at a time, that it stays inside its buffer, and that it reads back the frames that
  \<open>asyncReadFromEth\<close> writes.
\<close>

lemma fatal_not_Run: "rp_fatal env s c \<noteq> Run c'" "fatalSys env c \<noteq> Run c'"
  unfolding rp_fatal_def fatalSys_def by (auto elim: run_bind.elims)

section \<open>A client for the examples\<close>

definition demo_client_env :: client_env where
  "demo_client_env = \<lparr>pid = [1, 2, 3, 4], c_big = False, send_result = (\<lambda>_. Sent), write_ok = (\<lambda>_. True),
     open_if = (\<lambda>_. (3, [2, 0, 0, 0, 0, 1])), strerror = []\<rparr>"

definition demo_conn :: PPPoEConnection where
  "demo_conn = \<lparr>discoveryState = STATE_SENT_PADI, discoverySocket = 3, sessionSocket = 4, myEth = [2, 0, 0, 0, 0, 1],
     peerEth = [2, 0, 0, 0, 0, 2], conn_session = 7, serviceName = None, acName = None, synchronous = False,
     useHostUniq = False, printACNames = False, skipDiscovery = False, noDiscoverySocket = False, killSession = False,
     numPADOs = 0, cookie = \<lparr>tag_type = 0, tag_data = []\<rparr>, relayId = \<lparr>tag_type = 0, tag_data = []\<rparr>\<rparr>"

definition demo_frame :: "u8 \<Rightarrow> u8 list \<Rightarrow> PPPoEPacket" where
  "demo_frame cd bs = \<lparr>h_dest = [2, 0, 0, 0, 0, 1], h_source = [2, 0, 0, 0, 0, 2], h_proto = 0x8864, ver = 1, ptype = 1,
     code = cd, session = 7, plen = length bs, payload = bs @ replicate (1500 - length bs) 0\<rparr>"

definition demo_client :: client where
  "demo_client = \<lparr>conn = demo_conn, Eth_PPPOE_Discovery = 0x8863, Eth_PPPOE_Session = 0x8864, optClampMSS = 0,
     PPPState = STATE_WAITFOR_FRAME_ADDR, PPPPacketSize = 0, PPPXorValue = 0, packet = demo_frame 0 [],
     frames = [], attempts = 0, ppp_out = [], waits = []\<rparr>"

lemmas demo_client_defs = demo_client_env_def demo_conn_def demo_frame_def demo_client_def

section \<open>One byte at a time\<close>

definition ppp_byte :: "client_env \<Rightarrow> u8 \<Rightarrow> client \<Rightarrow> run" where
  "ppp_byte env x c =
     (case PPPState c of
        STATE_WAITFOR_FRAME_ADDR \<Rightarrow> Run (if x = FRAME_ADDR then c\<lparr>PPPState := STATE_DROP_PROTO\<rparr> else c)
      | STATE_DROP_PROTO \<Rightarrow>
          Run (if x = FRAME_CTRL XOR FRAME_ENC then c\<lparr>PPPState := STATE_BUILDING_PACKET\<rparr> else c)
      | STATE_BUILDING_PACKET \<Rightarrow> build_char env x c)"

fun ppp_bytes :: "client_env \<Rightarrow> u8 list \<Rightarrow> client \<Rightarrow> run" where
  "ppp_bytes env [] c = Run c"
| "ppp_bytes env (x # xs) c = run_bind (ppp_byte env x c) (ppp_bytes env xs)"

lemma run_bind_assoc: "run_bind (run_bind r f) g = run_bind r (\<lambda>c. run_bind (f c) g)"
  by (cases r) simp_all

lemma run_bind_Run [simp]: "run_bind r Run = r"
  by (cases r) simp_all

lemma ppp_bytes_Nil [simp]: "ppp_bytes env [] = Run"
  by (simp add: fun_eq_iff)

lemma ppp_bytes_append: "ppp_bytes env (xs @ ys) c = run_bind (ppp_bytes env xs c) (ppp_bytes env ys)"
proof (induction xs arbitrary: c)
  case (Cons x xs)
  then show ?case by (cases "ppp_byte env x c") simp_all
qed simp

text \<open>Each inner loop of the source is the byte machine on a prefix.\<close>

lemma wait_addr_bytes:
  "PPPState c = STATE_WAITFOR_FRAME_ADDR \<Longrightarrow> ppp_bytes env ptr c = ppp_bytes env (fst (wait_addr ptr c)) (snd (wait_addr ptr c))"
  by (induction ptr c rule: wait_addr.induct) (simp_all add: ppp_byte_def)

lemma drop_proto_bytes:
  "PPPState c \<noteq> STATE_WAITFOR_FRAME_ADDR \<Longrightarrow> ppp_bytes env ptr c = ppp_bytes env (fst (drop_proto ptr c)) (snd (drop_proto ptr c))"
  by (induction ptr c rule: drop_proto.induct) (auto simp: ppp_byte_def)

lemma build_bytes:
  "ppp_bytes env ptr c = run_bind (snd (build env ptr c)) (ppp_bytes env (fst (build env ptr c)))"
proof (induction env ptr c rule: build.induct)
  case (2 env x ptr c)
  show ?case
  proof (cases "PPPState c = STATE_BUILDING_PACKET")
    case True
    then show ?thesis using 2 by (cases "build_char env x c") (simp_all add: ppp_byte_def)
  qed simp
qed simp

text \<open>What the loops leave when they stop.\<close>

lemma wait_addr_stop:
  "PPPState c = STATE_WAITFOR_FRAME_ADDR \<Longrightarrow>
   PPPState (snd (wait_addr ptr c)) = STATE_DROP_PROTO \<or>
   (fst (wait_addr ptr c) = [] \<and> PPPState (snd (wait_addr ptr c)) = STATE_WAITFOR_FRAME_ADDR)"
  by (induction ptr c rule: wait_addr.induct) simp_all

lemma drop_proto_other: "PPPState c \<noteq> STATE_DROP_PROTO \<Longrightarrow> drop_proto ptr c = (ptr, c)"
  by (cases ptr) simp_all

lemma drop_proto_stop:
  "PPPState c = STATE_DROP_PROTO \<Longrightarrow>
   PPPState (snd (drop_proto ptr c)) = STATE_BUILDING_PACKET \<or>
   (fst (drop_proto ptr c) = [] \<and> PPPState (snd (drop_proto ptr c)) = STATE_DROP_PROTO)"
  by (induction ptr c rule: drop_proto.induct) (auto simp: drop_proto_other)

lemma async_loop_bytes: "async_loop env ptr c = ppp_bytes env ptr c"
proof (induction env ptr c rule: async_loop.induct)
  case (1 env ptr c)
  show ?case
  proof (cases "ptr = []")
    case True
    then show ?thesis by (simp add: async_loop.simps)
  next
    case False
    define q1 where "q1 = (if PPPState c = STATE_WAITFOR_FRAME_ADDR then wait_addr ptr c else (ptr, c))"
    define q2 where "q2 = drop_proto (fst q1) (snd q1)"
    define q3 where "q3 = build env (fst q2) (snd q2)"
    have e1: "ppp_bytes env ptr c = ppp_bytes env (fst q1) (snd q1)"
      using wait_addr_bytes [of c env ptr] by (simp add: q1_def)
    have s1: "PPPState (snd q1) = STATE_WAITFOR_FRAME_ADDR \<Longrightarrow> fst q1 = []"
      using wait_addr_stop [of c ptr] by (auto simp: q1_def split: if_splits)
    have e2: "ppp_bytes env (fst q1) (snd q1) = ppp_bytes env (fst q2) (snd q2)"
      if "PPPState (snd q1) \<noteq> STATE_WAITFOR_FRAME_ADDR"
      using drop_proto_bytes [OF that] by (simp add: q2_def)
    have s2: "PPPState (snd q2) = STATE_DROP_PROTO \<Longrightarrow> fst q2 = []"
      using drop_proto_stop [of "snd q1" "fst q1"] drop_proto_other [of "snd q1" "fst q1"]
      by (cases "PPPState (snd q1) = STATE_DROP_PROTO") (auto simp: q2_def)
    have IH: "async_loop env (fst q3) c3 = ppp_bytes env (fst q3) c3"
      if "PPPState (snd q1) \<noteq> STATE_WAITFOR_FRAME_ADDR" "PPPState (snd q2) \<noteq> STATE_DROP_PROTO" "snd q3 = Run c3" for c3
    proof -
      have q: "(fst q1, snd q1) = (if PPPState c = STATE_WAITFOR_FRAME_ADDR then wait_addr ptr c else (ptr, c))"
        "(fst q2, snd q2) = drop_proto (fst q1) (snd q1)" "(fst q3, Run c3) = build env (fst q2) (snd q2)"
        using that(3) by (simp_all add: q1_def q2_def q3_def prod_eq_iff)
      show ?thesis using "1.IH" [OF False q(1) that(1) q(2) that(2) q(3) refl] by blast
    qed
    have "async_loop env ptr c =
        (if PPPState (snd q1) = STATE_WAITFOR_FRAME_ADDR then Run (snd q1)
         else if PPPState (snd q2) = STATE_DROP_PROTO then Run (snd q2)
         else case snd q3 of Run c3 \<Rightarrow> async_loop env (fst q3) c3 | _ \<Rightarrow> snd q3)"
      using False by (subst async_loop.simps) (simp add: q1_def [symmetric] q2_def [symmetric] q3_def [symmetric] split_beta)
    then show ?thesis
      using e1 e2 s1 s2 IH build_bytes [of env "fst q2" "snd q2"]
      by (cases "snd q3") (auto simp: q3_def)
  qed
qed

text \<open>
  C21: how the PPP daemon's bytes are cut into reads does not matter. Reading two non-empty chunks
  one after the other has the same effect as reading them at once: the same frames, the same
  state, the same exit.
\<close>

theorem async_chunks:
  assumes "a \<noteq> []" "b \<noteq> []"
  shows "asyncReadFromPPP env (Read (a @ b)) c =
    run_bind (asyncReadFromPPP env (Read a) c) (asyncReadFromPPP env (Read b))"
proof -
  have "asyncReadFromPPP env (Read b) = ppp_bytes env b"
    using assms(2) by (simp add: fun_eq_iff asyncReadFromPPP_def async_loop_bytes)
  then show ?thesis using assms by (simp add: asyncReadFromPPP_def async_loop_bytes ppp_bytes_append)
qed

theorem async_chunks_witness:
  "[FRAME_FLAG, FRAME_ADDR] \<noteq> [] \<and> [FRAME_ESC] \<noteq> [] \<and>
   asyncReadFromPPP demo_client_env (Read ([FRAME_FLAG, FRAME_ADDR] @ [FRAME_ESC])) demo_client =
     run_bind (asyncReadFromPPP demo_client_env (Read [FRAME_FLAG, FRAME_ADDR]) demo_client)
       (asyncReadFromPPP demo_client_env (Read [FRAME_ESC]))"
  using async_chunks [of "[FRAME_FLAG, FRAME_ADDR]" "[FRAME_ESC]" demo_client_env demo_client] by simp

section \<open>Reading back a frame\<close>

text \<open>The bytes \<open>bs\<close> stored behind those of the frame so far.\<close>

definition put_data :: "u8 list \<Rightarrow> client \<Rightarrow> client" where
  "put_data bs c =
     c\<lparr>packet := (packet c)\<lparr>payload := take (PPPPacketSize c) (payload (packet c)) @ bs @
           drop (PPPPacketSize c + length bs) (payload (packet c))\<rparr>,
       PPPPacketSize := PPPPacketSize c + length bs, PPPXorValue := 0\<rparr>"

lemma put_data_simps [simp]:
  "PPPState (put_data bs c) = PPPState c" "PPPPacketSize (put_data bs c) = PPPPacketSize c + length bs"
  "PPPXorValue (put_data bs c) = 0" "conn (put_data bs c) = conn c" "optClampMSS (put_data bs c) = optClampMSS c"
  "frames (put_data bs c) = frames c" "attempts (put_data bs c) = attempts c"
  "PPPPacketSize c + length bs \<le> length (payload (packet c)) \<Longrightarrow>
   length (payload (packet (put_data bs c))) = length (payload (packet c))"
  by (simp_all add: put_data_def)

lemma put_data_put_data:
  assumes "PPPPacketSize c + length (as @ bs) \<le> length (payload (packet c))"
  shows "put_data bs (put_data as c) = put_data (as @ bs) c"
  using assms by (simp add: put_data_def min_absorb2 ac_simps)

lemma build_data:
  assumes "x \<noteq> FRAME_ESC" "x \<noteq> FRAME_FLAG" "PPPPacketSize c < ETH_DATA_LEN - 4" "length (payload (packet c)) = ETH_DATA_LEN"
  shows "build_char env x c = Run (put_data [x XOR PPPXorValue c] c)"
  using assms by (simp add: build_char_def wr_bytes_def put_data_def ETH_DATA_LEN_def)

lemma escaped_char:
  "b = FRAME_FLAG \<or> b = FRAME_ADDR \<or> b = FRAME_ESC \<or> b < 0x20 \<Longrightarrow>
   b XOR FRAME_ENC \<noteq> FRAME_ESC \<and> b XOR FRAME_ENC \<noteq> FRAME_FLAG"
proof -
  assume a: "b = FRAME_FLAG \<or> b = FRAME_ADDR \<or> b = FRAME_ESC \<or> b < 0x20"
  have "b \<noteq> 0x5D \<and> b \<noteq> 0x5E" using a by (auto simp: frame_consts)
  moreover have "b = (b XOR FRAME_ENC) XOR FRAME_ENC" by (simp add: xor.assoc)
  ultimately show ?thesis by (auto simp: frame_consts)
qed

lemma stuff_bytes:
  assumes "PPPState c = STATE_BUILDING_PACKET" "PPPXorValue c = 0" "length (payload (packet c)) = ETH_DATA_LEN"
    and "PPPPacketSize c + length bs \<le> ETH_DATA_LEN - 4"
  shows "ppp_bytes env (stuff bs) c = Run (put_data bs c)"
  using assms
proof (induction bs arbitrary: c)
  case Nil
  then show ?case by (simp add: put_data_def)
next
  case (Cons b bs)
  have room: "PPPPacketSize c < ETH_DATA_LEN - 4" "PPPPacketSize c + length (b # bs) \<le> length (payload (packet c))"
    using Cons.prems(3,4) by (auto simp: ETH_DATA_LEN_def)
  have one: "ppp_bytes env (if b = FRAME_FLAG \<or> b = FRAME_ADDR \<or> b = FRAME_ESC \<or> b < 0x20
      then [FRAME_ESC, b XOR FRAME_ENC] else [b]) c = Run (put_data [b] c)"
  proof (cases "b = FRAME_FLAG \<or> b = FRAME_ADDR \<or> b = FRAME_ESC \<or> b < 0x20")
    case True
    note e = escaped_char [OF True]
    have "build_char env (b XOR FRAME_ENC) (c\<lparr>PPPXorValue := FRAME_ENC\<rparr>) =
        Run (put_data [b] c)"
      using build_data [of "b XOR FRAME_ENC" "c\<lparr>PPPXorValue := FRAME_ENC\<rparr>" env] e room Cons.prems(3)
      by (simp add: put_data_def xor.assoc)
    moreover have "build_char env FRAME_ESC c = Run (c\<lparr>PPPXorValue := FRAME_ENC\<rparr>)" by (simp add: build_char_def)
    ultimately show ?thesis using True Cons.prems(1) by (simp add: ppp_byte_def)
  next
    case False
    then show ?thesis using build_data [of b c env] room Cons.prems by (simp add: ppp_byte_def)
  qed
  have "ppp_bytes env (stuff bs) (put_data [b] c) = Run (put_data bs (put_data [b] c))"
    by (rule Cons.IH) (use Cons.prems room in simp_all)
  also have "put_data bs (put_data [b] c) = put_data (b # bs) c"
    using put_data_put_data [of c "[b]" bs] room by simp
  finally show ?case using one by (simp only: stuff.simps ppp_bytes_append run_bind.simps)
qed

lemma frame_bytes:
  assumes "PPPState c = STATE_WAITFOR_FRAME_ADDR" "PPPPacketSize c = 0" "PPPXorValue c = 0"
    and "length (payload (packet c)) = ETH_DATA_LEN" "length data \<le> MAX_PPPOE_PAYLOAD"
  shows "\<exists>tail. length tail = 2 \<and> ppp_bytes env (ppp_frame data) c =
    run_bind (sendSessionPacket env (length data) (put_data (data @ tail) (c\<lparr>PPPState := STATE_BUILDING_PACKET\<rparr>)))
      (\<lambda>c. Run (initPPP c))"
proof -
  define tail where "tail = fcs_tail (pppFCS16 (pppFCS16 PPPINITFCS16 [FRAME_ADDR, FRAME_CTRL]) data)"
  have l: "length tail = 2" by (simp add: tail_def fcs_tail_def Let_def)
  let ?c = "c\<lparr>PPPState := STATE_BUILDING_PACKET\<rparr>"
  have "ppp_frame data = [FRAME_FLAG, FRAME_ADDR, FRAME_ESC, FRAME_CTRL XOR FRAME_ENC] @ stuff (data @ tail) @ [FRAME_FLAG]"
    by (simp add: ppp_frame_def tail_def Let_def stuff_append)
  moreover have "ppp_bytes env [FRAME_FLAG, FRAME_ADDR, FRAME_ESC, FRAME_CTRL XOR FRAME_ENC] c = Run ?c"
    using assms(1) by (simp add: ppp_byte_def frame_consts)
  moreover have "ppp_bytes env (stuff (data @ tail)) ?c = Run (put_data (data @ tail) ?c)"
    by (rule stuff_bytes) (use assms l in \<open>simp_all add: pppoe_consts\<close>)
  moreover have "ppp_bytes env [FRAME_FLAG] (put_data (data @ tail) ?c) =
      run_bind (sendSessionPacket env (length data) (put_data (data @ tail) ?c)) (\<lambda>c. Run (initPPP c))"
  proof -
    have "initPPP d = d\<lparr>PPPPacketSize := 0, PPPXorValue := 0, PPPState := STATE_WAITFOR_FRAME_ADDR\<rparr>" for d
      by (simp add: initPPP_def)
    then show ?thesis using assms(2) l by (simp add: ppp_byte_def build_char_def frame_consts)
  qed
  ultimately have "ppp_bytes env (ppp_frame data) c =
      run_bind (sendSessionPacket env (length data) (put_data (data @ tail) ?c)) (\<lambda>c. Run (initPPP c))"
    by (simp only: ppp_bytes_append run_bind.simps)
  then show ?thesis using l by blast
qed

text \<open>
  C20: what one end writes to its PPP daemon's side, the other end reads. When \<open>asyncReadFromEth\<close>
  delivers a received session packet, its bytes, fed to \<open>asyncReadFromPPP\<close> of a client between two
  frames, make it send exactly one session packet, with the same payload, its own session number
  and addresses, and leave it between two frames again; whatever bytes the payload holds.
\<close>

theorem async_frame_round_trip:
  assumes "asyncReadFromEth env1 (Recv p len) c1 = Run c2" "ppp_out c2 = ppp_out c1 @ [w]"
    and "optClampMSS c1 = 0" "plen p \<le> MAX_PPPOE_PAYLOAD"
    and "PPPState c = STATE_WAITFOR_FRAME_ADDR" "PPPPacketSize c = 0" "PPPXorValue c = 0"
    and "length (payload (packet c)) = ETH_DATA_LEN" "optClampMSS c = 0" "send_result env (attempts c) = Sent"
  shows "\<exists>c' q. asyncReadFromPPP env (Read w) c = Run c' \<and>
    frames c' = frames c @ [(sessionSocket (conn c), q, plen q + HDR_SIZE)] \<and>
    plen q = plen p \<and> take (plen q) (payload q) = take (plen p) (payload p) \<and>
    session q = session (packet c) \<and> h_dest q = h_dest (packet c) \<and> h_source q = h_source (packet c) \<and>
    PPPState c' = STATE_WAITFOR_FRAME_ADDR \<and> PPPPacketSize c' = 0 \<and> PPPXorValue c' = 0"
proof -
  obtain data where d: "session_payload env1 (Recv p len) c1 = Some (Some data)" "w = ppp_frame data"
  proof (cases "session_payload env1 (Recv p len) c1")
    case (Some r)
    then show thesis
    proof (cases r)
      case None
      then show thesis using assms(1,2) Some by (simp add: asyncReadFromEth_def)
    next
      case data: (Some data)
      then show thesis using that [of data] assms(1,2) Some
        run_bind.simps by (auto simp: asyncReadFromEth_def write_ppp_def fatal_not_Run split: if_splits)
    qed
  qed (use assms(1) in \<open>simp add: asyncReadFromEth_def\<close>)
  have data: "data = take (plen p) (payload p)" "length data = plen p"
    using d(1) assms(3) by (auto simp: session_payload_def rd_bytes_def split: if_splits)
  obtain tail where t: "length tail = 2" "ppp_bytes env w c =
    run_bind (sendSessionPacket env (length data) (put_data (data @ tail) (c\<lparr>PPPState := STATE_BUILDING_PACKET\<rparr>)))
      (\<lambda>c. Run (initPPP c))"
    using frame_bytes [OF assms(5-8), of data env] data assms(4) d(2) by auto
  let ?c = "put_data (data @ tail) (c\<lparr>PPPState := STATE_BUILDING_PACKET\<rparr>)"
  define q where "q = (packet ?c)\<lparr>plen := length data\<rparr>"
  have small: "length data mod 65536 = length data" using data assms(4) by (simp add: pppoe_consts)
  have s: "sendSessionPacket env (length data) ?c =
      Run (?c\<lparr>packet := q, attempts := attempts c + 1, frames := frames c @ [(sessionSocket (conn c), q, length data + HDR_SIZE)]\<rparr>)"
    using assms(9,10) small by (simp add: sendSessionPacket_def sendPacket_def q_def Let_def)
  have ne: "w \<noteq> []" by (simp add: d(2) ppp_frame_def Let_def)
  have "take (plen q) (payload q) = data" using assms(6) by (simp add: q_def put_data_def)
  then show ?thesis using ne t(2) s data assms(6)
    by (auto simp: asyncReadFromPPP_def async_loop_bytes initPPP_def q_def put_data_def)
qed

lemma length_ppp_frame: "length (ppp_frame data) \<le> 2 * length data + 9"
proof -
  have "length (stuff (fcs_tail f)) \<le> 4" for f using length_stuff [of "fcs_tail f"] by (simp add: fcs_tail_def Let_def)
  then have "length (stuff data) + length (stuff (fcs_tail f)) \<le> 2 * length data + 4" for f
    using length_stuff [of data] by (intro add_mono)
  then show ?thesis by (simp add: ppp_frame_def Let_def del: pppFCS16.simps) (simp add: add.commute)
qed

theorem async_frame_round_trip_witness:
  "\<exists>p c2 w. asyncReadFromEth demo_client_env (Recv p 26) demo_client = Run c2 \<and> ppp_out c2 = ppp_out demo_client @ [w] \<and>
     plen p = 2 \<and> take 2 (payload p) = [0x7E, 0x21] \<and>
     (\<exists>c' q. asyncReadFromPPP demo_client_env (Read w) demo_client = Run c' \<and>
        frames c' = frames demo_client @ [(sessionSocket (conn demo_client), q, plen q + HDR_SIZE)] \<and>
        plen q = plen p \<and> take (plen q) (payload q) = take (plen p) (payload p) \<and>
        session q = session (packet demo_client) \<and> h_dest q = h_dest (packet demo_client) \<and>
        h_source q = h_source (packet demo_client) \<and>
        PPPState c' = STATE_WAITFOR_FRAME_ADDR \<and> PPPPacketSize c' = 0 \<and> PPPXorValue c' = 0)"
proof -
  let ?p = "demo_frame CODE_SESS [0x7E, 0x21]" and ?w = "ppp_frame [0x7E, 0x21]"
  have eth: "asyncReadFromEth demo_client_env (Recv ?p 26) demo_client = Run (demo_client\<lparr>ppp_out := [?w]\<rparr>)"
    using length_ppp_frame [of "[0x7E, 0x21]"]
    by (simp add: asyncReadFromEth_def session_payload_def write_ppp_def bogus_length_def demo_client_defs pppoe_consts rd_bytes_def)
  have p: "plen ?p = 2" "take 2 (payload ?p) = [0x7E, 0x21]" by (simp_all add: demo_frame_def)
  show ?thesis
    using async_frame_round_trip [OF eth, of ?w demo_client demo_client_env] eth p
    by (intro exI [of _ ?p] exI [of _ "demo_client\<lparr>ppp_out := [?w]\<rparr>"] exI [of _ ?w])
      (simp add: demo_client_defs pppoe_consts)
qed

section \<open>Staying inside the buffers\<close>

text \<open>\<open>sendPADT\<close> with a short Host-Uniq tag and message never writes outside its frame.\<close>

lemma sendPADT_no_fault:
  assumes "length (pid env) \<le> 16" "\<And>m. msg = Some m \<Longrightarrow> length m \<le> 511"
  shows "sendPADT env msg c \<noteq> Fault"
proof -
  obtain frame k where "padt (pid env) (Eth_PPPOE_Discovery c) msg (conn c) = Some (frame, k)"
    using padt_no_fault [OF assms] by (metis not_None_eq surj_pair)
  then show ?thesis by (simp add: sendPADT_def send_discovery_def Let_def split: option.split)
qed

lemma fatal_no_fault:
  "length (pid env) \<le> 16 \<Longrightarrow> rp_fatal env s c \<noteq> Fault" "length (pid env) \<le> 16 \<Longrightarrow> fatalSys env c \<noteq> Fault"
  unfolding rp_fatal_def fatalSys_def sendPADTf_def
  by (auto elim!: run_bind.elims dest!: sendPADT_no_fault [THEN notE, rotated -1])

text \<open>
  \<open>k\<close> is the value of \<open>optClampMSS\<close>, 0 when the frames are not looked at. \<open>clampMSS\<close> itself reads behind
  a frame whose IP header gives a larger total length.
\<close>

definition async_ok :: "u32 \<Rightarrow> client \<Rightarrow> bool" where
  "async_ok k c \<longleftrightarrow> PPPPacketSize c \<le> ETH_DATA_LEN - 4 \<and> length (payload (packet c)) = ETH_DATA_LEN \<and> optClampMSS c = k"

definition clamp_faults :: "bool \<Rightarrow> u32 \<Rightarrow> bool" where
  "clamp_faults big k \<longleftrightarrow> k \<noteq> 0 \<and> (\<exists>p. length (payload p) = ETH_DATA_LEN \<and> plen p \<le> MAX_PPPOE_PAYLOAD \<and> clampMSS big p k = None)"

definition safe_run :: "client_env \<Rightarrow> u32 \<Rightarrow> run \<Rightarrow> bool" where
  "safe_run env k r \<longleftrightarrow> (r = Fault \<longrightarrow> clamp_faults (c_big env) k) \<and> (\<forall>c. r = Run c \<longrightarrow> async_ok k c)"

lemma safe_run_simps [simp]: "safe_run env k (Run c) = async_ok k c" "safe_run env k (Exit x c)" "safe_run env k (Wait c)"
  "safe_run env k Fault = clamp_faults (c_big env) k"
  by (simp_all add: safe_run_def)

lemma safe_bind: "safe_run env k r \<Longrightarrow> (\<And>c. r = Run c \<Longrightarrow> async_ok k c \<Longrightarrow> safe_run env k (f c)) \<Longrightarrow> safe_run env k (run_bind r f)"
  by (cases r) auto

lemma clampMSS_length:
  assumes "clampMSS big p k = Some buf"
  shows "length buf = length (payload p)"
proof (cases "buf = payload p")
  case False
  from clampMSS_rewrites [OF assms False] show ?thesis by (metis length_clamped length_list_update)
qed simp

lemma sendSessionPacket_safe:
  assumes "async_ok k c" "len \<le> MAX_PPPOE_PAYLOAD"
  shows "safe_run env k (sendSessionPacket env len c)"
proof -
  let ?p = "(packet c)\<lparr>plen := len mod 65536\<rparr>"
  have p: "length (payload ?p) = ETH_DATA_LEN" "plen ?p \<le> MAX_PPPOE_PAYLOAD" "optClampMSS c = k"
    using assms by (simp_all add: async_ok_def MAX_PPPOE_PAYLOAD_def)
  define r where "r = (if k \<noteq> 0 then clampMSS (c_big env) ?p k else Some (payload ?p))"
  show ?thesis
  proof (cases r)
    case None
    then have "k \<noteq> 0" "clampMSS (c_big env) ?p k = None" by (simp_all add: r_def split: if_splits)
    then have "clamp_faults (c_big env) k" using p unfolding clamp_faults_def by blast
    moreover have "sendSessionPacket env len c = Fault"
      using \<open>k \<noteq> 0\<close> \<open>clampMSS (c_big env) ?p k = None\<close> p(3) by (simp add: sendSessionPacket_def Let_def)
    ultimately show ?thesis by simp
  next
    case (Some pl)
    then have "length pl = ETH_DATA_LEN" using clampMSS_length p(1) by (auto simp: r_def split: if_splits)
    moreover have "PPPPacketSize c \<le> ETH_DATA_LEN - 4" using assms(1) by (simp add: async_ok_def)
    ultimately show ?thesis using Some p(3)
      by (auto simp: sendSessionPacket_def sendPacket_def async_ok_def Let_def r_def split: send_result.split)
  qed
qed

lemma safe_fatal: "length (pid env) \<le> 16 \<Longrightarrow> safe_run env k (rp_fatal env s c)" "length (pid env) \<le> 16 \<Longrightarrow> safe_run env k (fatalSys env c)"
  using fatal_no_fault fatal_not_Run by (auto simp: safe_run_def)

lemma ppp_byte_safe:
  assumes "length (pid env) \<le> 16" "async_ok k c"
  shows "safe_run env k (ppp_byte env x c)"
proof (cases "PPPState c")
  case STATE_BUILDING_PACKET
  consider "x = FRAME_ESC" | "x = FRAME_FLAG" | "x \<noteq> FRAME_ESC" "x \<noteq> FRAME_FLAG" by blast
  then show ?thesis
  proof cases
    case 1
    then show ?thesis using assms(2) STATE_BUILDING_PACKET by (simp add: ppp_byte_def build_char_def async_ok_def)
  next
    case 2
    have "safe_run env k (run_bind (if PPPPacketSize c < 2 then rp_fatal env s c else Run c) f)"
      if "\<And>c. async_ok k c \<Longrightarrow> safe_run env k (f c)" for s f
      by (rule safe_bind) (use assms safe_fatal that in auto)
    moreover have "safe_run env k (run_bind (sendSessionPacket env (PPPPacketSize d - 2) d) (\<lambda>c.
          Run (c\<lparr>PPPPacketSize := 0, PPPXorValue := 0, PPPState := STATE_WAITFOR_FRAME_ADDR\<rparr>)))" if d: "async_ok k d" for d
    proof (rule safe_bind)
      have "PPPPacketSize d - 2 \<le> MAX_PPPOE_PAYLOAD" using d unfolding async_ok_def pppoe_consts by linarith
      then show "safe_run env k (sendSessionPacket env (PPPPacketSize d - 2) d)" by (rule sendSessionPacket_safe [OF d])
    qed (simp add: async_ok_def)
    ultimately show ?thesis using 2 STATE_BUILDING_PACKET by (simp add: ppp_byte_def build_char_def frame_consts)
  next
    case 3
    show ?thesis
    proof (cases "PPPPacketSize c \<ge> ETH_DATA_LEN - 4")
      case True
      then show ?thesis using 3 STATE_BUILDING_PACKET assms(2) by (simp add: ppp_byte_def build_char_def async_ok_def)
    next
      case False
      then have "build_char env x c = Run (put_data [x XOR PPPXorValue c] c)"
        using build_data [OF 3, of c] assms(2) by (simp add: async_ok_def)
      then show ?thesis using STATE_BUILDING_PACKET False assms(2)
        by (simp add: ppp_byte_def async_ok_def ETH_DATA_LEN_def)
    qed
  qed
qed (use assms in \<open>auto simp: ppp_byte_def async_ok_def\<close>)

text \<open>
  C11: the decoder of PPP frames never writes outside the frame. Whatever the PPP daemon writes, in any
  number of bytes, \<open>asyncReadFromPPP\<close> keeps its write position within 1496 of the 1500 bytes of the
  payload, with and without the clamping of the MSS (\<open>optClampMSS\<close>). It returns or exits, and without
  clamping it touches no memory outside its objects; with clamping the only access outside an object
  that can happen is one in \<open>clampMSS\<close>, on a frame of at most 1494 bytes.
\<close>

theorem async_never_overruns:
  assumes "PPPPacketSize c \<le> ETH_DATA_LEN - 4" "length (payload (packet c)) = ETH_DATA_LEN" "length (pid env) \<le> 16"
  shows "(\<forall>c'. asyncReadFromPPP env input c = Run c' \<longrightarrow>
      PPPPacketSize c' \<le> ETH_DATA_LEN - 4 \<and> length (payload (packet c')) = ETH_DATA_LEN \<and> optClampMSS c' = optClampMSS c) \<and>
    (asyncReadFromPPP env input c = Fault \<longrightarrow> optClampMSS c \<noteq> 0 \<and>
      (\<exists>p. length (payload p) = ETH_DATA_LEN \<and> plen p \<le> MAX_PPPOE_PAYLOAD \<and> clampMSS (c_big env) p (optClampMSS c) = None))"
proof -
  define k where "k = optClampMSS c"
  have c: "async_ok k c" using assms(1,2) by (simp add: async_ok_def k_def)
  have bytes: "safe_run env k (ppp_bytes env bs c)" if "async_ok k c" for bs c
    using that
  proof (induction bs arbitrary: c)
    case (Cons b bs)
    then show ?case by (auto intro: safe_bind ppp_byte_safe [OF assms(3)])
  qed simp
  have eof: "length (ascii ''RP-PPPoE: EOF in asyncReadFromPPP'') \<le> 511" by (simp add: ascii_def)
  have "sendPADT env (Some (ascii ''RP-PPPoE: EOF in asyncReadFromPPP'')) c \<noteq> Fault"
    by (rule sendPADT_no_fault [OF assms(3)]) (use eof in auto)
  then have "safe_run env k (run_bind (sendPADT env (Some (ascii ''RP-PPPoE: EOF in asyncReadFromPPP'')) c) (Exit 0))"
    by (cases "sendPADT env (Some (ascii ''RP-PPPoE: EOF in asyncReadFromPPP'')) c") simp_all
  then have "safe_run env k (asyncReadFromPPP env input c)"
    using bytes [OF c] safe_fatal(2) [OF assms(3)]
    by (auto simp: asyncReadFromPPP_def async_loop_bytes split: ppp_read.split)
  then show ?thesis unfolding safe_run_def clamp_faults_def async_ok_def k_def by blast
qed

theorem async_never_overruns_witness:
  "PPPPacketSize demo_client \<le> ETH_DATA_LEN - 4 \<and> length (pid demo_client_env) \<le> 16 \<and>
   asyncReadFromPPP demo_client_env (Read (replicate 5000 0x7E)) demo_client \<noteq> Fault"
proof -
  have "PPPPacketSize demo_client \<le> ETH_DATA_LEN - 4" "length (payload (packet demo_client)) = ETH_DATA_LEN"
    "length (pid demo_client_env) \<le> 16" "optClampMSS demo_client = 0"
    by (simp_all add: demo_client_defs ETH_DATA_LEN_def)
  then show ?thesis using async_never_overruns [of demo_client demo_client_env "Read (replicate 5000 0x7E)"] by simp
qed

end
