(* ===== verification/Client_Props.thy ===== *)
theory Client_Props
  imports Client_Async
begin

text \<open>
  Discovery as the client does it: what its requests say, that it gives up after three of them,
  which answers it takes, and how a session ends.
\<close>

section \<open>The requests\<close>

definition service_tag :: "PPPoEConnection \<Rightarrow> PPPoETag" where
  "service_tag k = \<lparr>tag_type = TAG_SERVICE_NAME, tag_data = (case serviceName k of None \<Rightarrow> [] | Some s \<Rightarrow> s)\<rparr>"

definition padi_tags :: "client_env \<Rightarrow> PPPoEConnection \<Rightarrow> PPPoETag list" where
  "padi_tags env k = service_tag k # (if useHostUniq k then [hostUniq (pid env)] else [])"

definition padr_tags :: "client_env \<Rightarrow> PPPoEConnection \<Rightarrow> PPPoETag list" where
  "padr_tags env k = padi_tags env k @ saved (cookie k) @ saved (relayId k)"

lemma padi_tags_ok: "length (tag_data (service_tag k)) < 65536 \<Longrightarrow> length (pid env) \<le> 16 \<Longrightarrow> \<forall>t \<in> set (padi_tags env k). tag_ok t"
  by (auto simp: padi_tags_def service_tag_def tag_ok_def hostUniq_def tag_consts)

lemma start_frame:
  assumes "length (tag_data (service_tag (conn c))) < 65532" "length (pid env) \<le> 16"
  obtains "length (encs tag_bytes (padi_tags env (conn c))) > MAX_PPPOE_PAYLOAD" "sendPADI env c = Run c" "sendPADR env c = Run c"
  | b where "length (encs tag_bytes (padi_tags env (conn c))) \<le> MAX_PPPOE_PAYLOAD" "buf_holds b (padi_tags env (conn c))"
    "sendPADI env c = send_discovery env
       (discovery_frame (Eth_PPPOE_Discovery c) (myEth (conn c)) (replicate 6 0xFF) CODE_PADI 0 b) c"
    "sendPADR env c =
       or_fault (copy_saved (cookie (conn c)) b) (\<lambda>r. case r of None \<Rightarrow> Run c | Some b \<Rightarrow>
       or_fault (copy_saved (relayId (conn c)) b) (\<lambda>r. case r of None \<Rightarrow> Run c | Some b \<Rightarrow>
         send_discovery env
           (discovery_frame (Eth_PPPOE_Discovery c) (myEth (conn c)) (peerEth (conn c)) CODE_PADR 0 b) c))"
proof -
  define n where "n = tag_data (service_tag (conn c))"
  have n: "(case serviceName (conn c) of None \<Rightarrow> [] | Some s \<Rightarrow> s) = n" by (simp add: n_def service_tag_def)
  have len: "length n < 65532" using assms(1) by (simp add: n_def)
  have nl: "namelen (serviceName (conn c)) = length n" "(case serviceName (conn c) of None \<Rightarrow> 0 | Some s \<Rightarrow> length s) = length n"
    using n len by (auto simp: namelen_def split: option.splits)
  have small: "(TAG_HDR_SIZE + length n) mod 65536 = TAG_HDR_SIZE + length n" using len by (simp add: TAG_HDR_SIZE_def)
  show thesis
  proof (cases "TAG_HDR_SIZE + length n \<le> MAX_PPPOE_PAYLOAD")
    case False
    then have "sendPADI env c = Run c" "sendPADR env c = Run c"
      using nl small by (simp_all add: sendPADI_def sendPADR_def CHECK_ROOM_def empty_buf_def)
    then show thesis using that(1) False by (simp add: padi_tags_def n_def)
  next
    case room: True
    then have "snd empty_buf + length (tag_data (service_tag (conn c))) + TAG_HDR_SIZE \<le> ETH_DATA_LEN"
      using n_def by (simp add: empty_buf_def pppoe_consts)
    then obtain b1 where b1: "copy_tag (service_tag (conn c)) empty_buf = Some b1" "buf_holds b1 [service_tag (conn c)]"
      using copy_tag_holds [OF empty_holds] by (metis append_Nil)
    have sb: "service_buf (serviceName (conn c)) (length n) = Some b1"
    proof -
      have "service_buf (serviceName (conn c)) (length n) = copy_tag (service_tag (conn c)) empty_buf"
        using n len unfolding service_buf_def copy_tag_def
        by (simp add: Let_def tag_bytes_def n_def [symmetric] empty_buf_def add.commute)
          (simp add: service_tag_def)
      then show ?thesis using b1 by simp
    qed
    have rooms: "CHECK_ROOM empty_buf ((TAG_HDR_SIZE + namelen (serviceName (conn c))) mod 65536)"
      "CHECK_ROOM empty_buf (namelen (serviceName (conn c)) + TAG_HDR_SIZE)"
      using room nl small by (simp_all add: CHECK_ROOM_def empty_buf_def add.commute)
    show thesis
    proof (cases "useHostUniq (conn c) \<and> \<not> CHECK_ROOM b1 (length (pid env) + TAG_HDR_SIZE)")
      case True
      then have "sendPADI env c = Run c" "sendPADR env c = Run c"
        using rooms sb nl by (simp_all add: sendPADI_def sendPADR_def)
      moreover have "length (encs tag_bytes (padi_tags env (conn c))) > MAX_PPPOE_PAYLOAD"
        using True buf_holds_len [OF b1(2)] by (simp add: padi_tags_def CHECK_ROOM_def hostUniq_def)
      ultimately show thesis using that(1) by blast
    next
      case False
      obtain b2 where b2: "(if useHostUniq (conn c) then copy_tag (hostUniq (pid env)) b1 else Some b1) = Some b2"
        "buf_holds b2 (padi_tags env (conn c))"
      proof (cases "useHostUniq (conn c)")
        case True
        then have "snd b1 + length (tag_data (hostUniq (pid env))) + TAG_HDR_SIZE \<le> ETH_DATA_LEN"
          using False by (simp add: CHECK_ROOM_def pppoe_consts hostUniq_def)
        then obtain b2 where "copy_tag (hostUniq (pid env)) b1 = Some b2" "buf_holds b2 ([service_tag (conn c)] @ [hostUniq (pid env)])"
          by (rule copy_tag_holds [OF b1(2)])
        then show thesis using that True by (simp add: padi_tags_def)
      qed (use that [of b1] b1 in \<open>simp add: padi_tags_def\<close>)
      have "length (encs tag_bytes (padi_tags env (conn c))) \<le> MAX_PPPOE_PAYLOAD"
        using False room buf_holds_len [OF b1(2)] by (auto simp: padi_tags_def CHECK_ROOM_def hostUniq_def n_def)
      moreover have "sendPADI env c = send_discovery env
         (discovery_frame (Eth_PPPOE_Discovery c) (myEth (conn c)) (replicate 6 0xFF) CODE_PADI 0 b2) c"
        using rooms sb nl False b2(1) by (auto simp: sendPADI_def)
      moreover have "sendPADR env c =
         or_fault (copy_saved (cookie (conn c)) b2) (\<lambda>r. case r of None \<Rightarrow> Run c | Some b \<Rightarrow>
         or_fault (copy_saved (relayId (conn c)) b) (\<lambda>r. case r of None \<Rightarrow> Run c | Some b \<Rightarrow>
           send_discovery env
             (discovery_frame (Eth_PPPOE_Discovery c) (myEth (conn c)) (peerEth (conn c)) CODE_PADR 0 b) c))"
        using rooms sb nl False b2(1) by (auto simp: sendPADR_def)
      ultimately show thesis using that(2) b2(2) by blast
    qed
  qed
qed

text \<open>
  The two requests of discovery. With a service name of a length that C's \<open>UINT16_t\<close> can hold,
  \<open>sendPADI\<close> broadcasts a packet whose tags are the service name and the Host-Uniq tag, and
  \<open>sendPADR\<close> sends the concentrator the same tags with the cookie and the relay-ID it was given
  behind them; if the tags do not fit into a frame nothing is sent and nothing is overwritten.
\<close>

theorem requests_carry_tags:
  assumes "length (tag_data (service_tag (conn c))) < 65532" "length (pid env) \<le> 16"
    and "tag_type (cookie (conn c)) = 0 \<or> tag_ok (cookie (conn c))"
    and "tag_type (relayId (conn c)) = 0 \<or> tag_ok (relayId (conn c))"
  shows
    "(if length (encs tag_bytes (padi_tags env (conn c))) \<le> MAX_PPPOE_PAYLOAD
      then \<exists>p. sendPADI env c = send_discovery env p c \<and> h_dest p = replicate 6 0xFF \<and> h_source p = myEth (conn c) \<and>
             code p = CODE_PADI \<and> session p = 0 \<and> pkt_ok p \<and> tags_of p = Some (padi_tags env (conn c))
      else sendPADI env c = Run c) \<and>
     (if length (encs tag_bytes (padr_tags env (conn c))) \<le> MAX_PPPOE_PAYLOAD
      then \<exists>p. sendPADR env c = send_discovery env p c \<and> h_dest p = peerEth (conn c) \<and> h_source p = myEth (conn c) \<and>
             code p = CODE_PADR \<and> session p = 0 \<and> pkt_ok p \<and> tags_of p = Some (padr_tags env (conn c))
      else sendPADR env c = Run c)"
proof -
  have ok: "\<forall>t \<in> set (padi_tags env (conn c)). tag_ok t" by (rule padi_tags_ok) (use assms in auto)
  have okr: "\<forall>t \<in> set (padr_tags env (conn c)). tag_ok t"
    using ok assms(3,4) by (auto simp: padr_tags_def saved_def)
  have sub: "length (encs tag_bytes (padi_tags env (conn c))) \<le> length (encs tag_bytes (padr_tags env (conn c)))"
    by (simp add: padr_tags_def)
  show ?thesis
  proof (cases rule: start_frame [OF assms(1,2)])
    case 1
    then show ?thesis using sub by simp
  next
    case (2 b)
    have i: "snd b \<le> MAX_PPPOE_PAYLOAD" using buf_holds_len [OF 2(2)] 2(1) by simp
    have padi: "\<exists>p. sendPADI env c = send_discovery env p c \<and> h_dest p = replicate 6 0xFF \<and> h_source p = myEth (conn c) \<and>
             code p = CODE_PADI \<and> session p = 0 \<and> pkt_ok p \<and> tags_of p = Some (padi_tags env (conn c))"
      using frame_tags [OF 2(2) ok i] 2(3) by (metis discovery_frame_simps(1,2,4,5))
    have r1: "length (encs tag_bytes (padi_tags env (conn c) @ saved (cookie (conn c)))) \<le> length (encs tag_bytes (padr_tags env (conn c)))"
      by (simp add: padr_tags_def)
    show ?thesis
    proof (cases rule: copy_saved_cases [OF 2(2), of "cookie (conn c)"])
      case no: 1
      then show ?thesis using 2(1,4) padi r1 by simp
    next
      case b3: (2 b3)
      show ?thesis
      proof (cases rule: copy_saved_cases [OF b3(2), of "relayId (conn c)"])
        case no: 1
        then show ?thesis using 2(1,4) padi b3 by (simp add: padr_tags_def)
      next
        case b4: (2 b4)
        have holds: "buf_holds b4 (padr_tags env (conn c))" using b4(2) by (simp add: padr_tags_def)
        have fits: "length (encs tag_bytes (padr_tags env (conn c))) \<le> MAX_PPPOE_PAYLOAD"
          using 2(1) b3(3) b4(3) by (auto simp: padr_tags_def saved_def)
        then have "snd b4 \<le> MAX_PPPOE_PAYLOAD" using buf_holds_len [OF holds] by simp
        from frame_tags [OF holds okr this]
        have "\<exists>p. sendPADR env c = send_discovery env p c \<and> h_dest p = peerEth (conn c) \<and> h_source p = myEth (conn c) \<and>
             code p = CODE_PADR \<and> session p = 0 \<and> pkt_ok p \<and> tags_of p = Some (padr_tags env (conn c))"
          using 2(4) b3(1) b4(1) by (simp, metis discovery_frame_simps(1,2,4,5))
        then show ?thesis using 2(1) padi fits by simp
      qed
    qed
  qed
qed

text \<open>
  Outside that bound \<open>sendPADI\<close> writes behind its frame: the length it checks is cut to 16 bits,
  the copy is not.
\<close>

lemma long_service_name_overflows:
  assumes "serviceName (conn c) = Some s" "length s \<ge> 65536" "length s mod 65536 \<le> 1490"
  shows "sendPADI env c = Fault"
  using assms by (simp add: sendPADI_def CHECK_ROOM_def namelen_def service_buf_def wr_bytes_def empty_buf_def pppoe_consts)


section \<open>Giving up\<close>

lemma packetIsForMe_cong:
  "myEth k' = myEth k \<Longrightarrow> useHostUniq k' = useHostUniq k \<Longrightarrow> packetIsForMe env k' p = packetIsForMe env k p"
  by (simp add: packetIsForMe_def)

text \<open>A frame that \<open>waitForPADO\<close> passes over.\<close>

fun not_a_PADO :: "client_env \<Rightarrow> PPPoEConnection \<Rightarrow> disc_input \<Rightarrow> bool" where
  "not_a_PADO env k (Received p len) =
     (bogus_length p len \<or> packetIsForMe env k p = Some False \<or>
      packetIsForMe env k p = Some True \<and> (code p \<noteq> CODE_PADO \<or> NOT_UNICAST (h_source p)))"
| "not_a_PADO env k _ = False"

lemma not_a_PADO_cong:
  "myEth k' = myEth k \<Longrightarrow> useHostUniq k' = useHostUniq k \<Longrightarrow> not_a_PADO env k' i = not_a_PADO env k i"
  using packetIsForMe_cong [of k' k env] by (cases i) simp_all

lemma waitForPADO_times_out:
  assumes "\<forall>i \<in> set xs. not_a_PADO env (conn c) i" "discoveryState (conn c) = STATE_SENT_PADI"
  shows "waitForPADO_loop env (xs @ Select_timeout # rest) pc c = (Run c, rest)"
  using assms
proof (induction xs)
  case Nil
  then show ?case by (simp add: waitForPADO_loop.simps(2))
next
  case (Cons i xs)
  then obtain p len where i: "i = Received p len" by (cases i) auto
  then show ?case using Cons by (auto simp: waitForPADO_loop.simps(2))
qed

lemma sendPADI_quiet:
  assumes "length (tag_data (service_tag (conn c))) < 65532" "length (pid env) \<le> 16"
  obtains c1 where "sendPADI env c = Run c1" "conn c1 = conn c" "waits c1 = waits c"
    "attempts c1 = attempts c + (if length (encs tag_bytes (padi_tags env (conn c))) \<le> MAX_PPPOE_PAYLOAD then 1 else 0)"
proof (cases rule: start_frame [OF assms])
  case 1
  then show thesis using that [of c] by simp
next
  case (2 b)
  then show thesis
    using that [of "snd (sendPacket env (discoverySocket (conn c))
        (discovery_frame (Eth_PPPOE_Discovery c) (myEth (conn c)) (replicate 6 0xFF) CODE_PADI 0 b)
        (plen (discovery_frame (Eth_PPPOE_Discovery c) (myEth (conn c)) (replicate 6 0xFF) CODE_PADI 0 b) + HDR_SIZE) c)"]
    by (simp add: send_discovery_def sendPacket_def Let_def)
qed

text \<open>One turn of the loop that ends with a timeout; \<open>k\<close> is the connection but for its state.\<close>

definition quiet :: "client_env \<Rightarrow> PPPoEConnection \<Rightarrow> client \<Rightarrow> bool" where
  "quiet env k c \<longleftrightarrow> (\<exists>s. conn c = k\<lparr>discoveryState := s\<rparr>) \<and> numPADOs k = 0 \<and> conn_session k = 0 \<and>
     length (tag_data (service_tag k)) < 65532 \<and> length (pid env) \<le> 16"

lemma padi_turn:
  assumes "quiet env k c" "n < MAX_PADI_ATTEMPTS" "\<forall>i \<in> set xs. not_a_PADO env k i"
  obtains c1 where "padi_loop env n t (xs @ Select_timeout # rest) c =
      padi_loop env (n + 1) (if printACNames k then t else 2 * t) rest c1" "quiet env k c1" "waits c1 = waits c @ [t]"
    "attempts c1 = attempts c + (if length (encs tag_bytes (padi_tags env k)) \<le> MAX_PPPOE_PAYLOAD then 1 else 0)"
proof -
  obtain s where k: "conn c = k\<lparr>discoveryState := s\<rparr>" using assms(1) by (auto simp: quiet_def)
  have tags: "padi_tags env (k\<lparr>discoveryState := s\<rparr>) = padi_tags env k" "service_tag (k\<lparr>discoveryState := s\<rparr>) = service_tag k" for s
    by (simp_all add: padi_tags_def service_tag_def)
  obtain c1 where c1: "sendPADI env c = Run c1" "conn c1 = conn c" "waits c1 = waits c"
    "attempts c1 = attempts c + (if length (encs tag_bytes (padi_tags env k)) \<le> MAX_PPPOE_PAYLOAD then 1 else 0)"
    using sendPADI_quiet [of c env] assms(1) k tags by (auto simp: quiet_def)
  let ?c2 = "(upd_conn (\<lambda>k. k\<lparr>discoveryState := STATE_SENT_PADI\<rparr>) c1)\<lparr>waits := waits c1 @ [t]\<rparr>"
  have c2: "conn ?c2 = k\<lparr>discoveryState := STATE_SENT_PADI\<rparr>" using c1(2) k by (simp add: upd_conn_def)
  have "\<forall>i \<in> set xs. not_a_PADO env (conn ?c2) i"
    unfolding c2 using assms(3) not_a_PADO_cong [of "k\<lparr>discoveryState := STATE_SENT_PADI\<rparr>" k env] by simp
  then have w: "waitForPADO_loop env (xs @ Select_timeout # rest) pc ?c2 = (Run ?c2, rest)" for pc
    by (rule waitForPADO_times_out) (simp add: c2)
  have "padi_loop env n t (xs @ Select_timeout # rest) c =
      padi_loop env (n + 1) (if printACNames k then t else 2 * t) rest ?c2"
    using assms(1,2) c1 c2 w
    by (subst padi_loop.simps) (simp add: run_inputs_def waitForPADO_def upd_conn_def quiet_def Let_def)
  then show thesis
    using that [of ?c2] c1 c2 assms(1) by (auto simp: quiet_def upd_conn_def)
qed

lemma rp_fatal_idle: "conn_session (conn c) = 0 \<Longrightarrow> rp_fatal env msg c = Exit EXIT_FAILURE c"
  by (simp add: rp_fatal_def sendPADTf_def sendPADT_def padt_idle Let_def)

text \<open>
  C25: discovery does not wait for ever. Without an answer, whatever other frames arrive, the client
  sends three PADIs and waits 5, 10 and 20 seconds for a PADO (three times 5 if it only lists
  concentrators); then it exits with a failure.
\<close>

theorem discovery_gives_up:
  assumes "\<not> skipDiscovery (conn c)" "conn_session (conn c) = 0" "numPADOs (conn c) = 0"
    and "length (tag_data (service_tag (conn c))) < 65532" "length (pid env) \<le> 16"
    and "\<forall>i \<in> set (xs @ ys @ zs). not_a_PADO env (conn (open_discovery env c)) i"
  shows "\<exists>c'. discovery env (xs @ Select_timeout # ys @ Select_timeout # zs @ Select_timeout # rest) c =
      (Exit EXIT_FAILURE c', rest) \<and>
    waits c' = waits c @ (if printACNames (conn c) then [5, 5, 5] else [5, 10, 20]) \<and>
    attempts c' = attempts c + (if length (encs tag_bytes (padi_tags env (conn c))) \<le> MAX_PPPOE_PAYLOAD then 3 else 0)"
proof -
  define c0 where "c0 = open_discovery env c"
  define k where "k = conn c0"
  have o: "skipDiscovery k = skipDiscovery (conn c)" "conn_session k = conn_session (conn c)" "numPADOs k = numPADOs (conn c)"
    "printACNames k = printACNames (conn c)" "serviceName k = serviceName (conn c)" "useHostUniq k = useHostUniq (conn c)"
    "waits c0 = waits c" "attempts c0 = attempts c"
    by (simp_all add: k_def c0_def open_discovery_def upd_conn_def)
  have tags: "padi_tags env k = padi_tags env (conn c)" "service_tag k = service_tag (conn c)"
    by (simp_all add: padi_tags_def service_tag_def o)
  have "k = k\<lparr>discoveryState := discoveryState k\<rparr>" by simp
  then have q0: "quiet env k c0" unfolding quiet_def using assms(2-5) o tags k_def by metis
  have noise: "\<forall>i \<in> set xs. not_a_PADO env k i" "\<forall>i \<in> set ys. not_a_PADO env k i" "\<forall>i \<in> set zs. not_a_PADO env k i"
    using assms(6) by (auto simp: k_def c0_def)
  let ?t = "\<lambda>t. if printACNames k then t else 2 * t"
  have m: "(0::nat) < MAX_PADI_ATTEMPTS" "0 + 1 < MAX_PADI_ATTEMPTS" "0 + 1 + 1 < MAX_PADI_ATTEMPTS"
    by (simp_all add: MAX_PADI_ATTEMPTS_def)
  obtain c1 where c1: "padi_loop env 0 PADI_TIMEOUT (xs @ Select_timeout # ys @ Select_timeout # zs @ Select_timeout # rest) c0 =
      padi_loop env (0 + 1) (?t PADI_TIMEOUT) (ys @ Select_timeout # zs @ Select_timeout # rest) c1" "quiet env k c1"
    "waits c1 = waits c0 @ [PADI_TIMEOUT]"
    "attempts c1 = attempts c0 + (if length (encs tag_bytes (padi_tags env k)) \<le> MAX_PPPOE_PAYLOAD then 1 else 0)"
    by (rule padi_turn [OF q0 m(1) noise(1), where t = PADI_TIMEOUT])
  obtain c2 where c2: "padi_loop env (0 + 1) (?t PADI_TIMEOUT) (ys @ Select_timeout # zs @ Select_timeout # rest) c1 =
      padi_loop env (0 + 1 + 1) (?t (?t PADI_TIMEOUT)) (zs @ Select_timeout # rest) c2" "quiet env k c2"
    "waits c2 = waits c1 @ [?t PADI_TIMEOUT]"
    "attempts c2 = attempts c1 + (if length (encs tag_bytes (padi_tags env k)) \<le> MAX_PPPOE_PAYLOAD then 1 else 0)"
    by (rule padi_turn [OF c1(2) m(2) noise(2), where t = "?t PADI_TIMEOUT"])
  obtain c3 where c3: "padi_loop env (0 + 1 + 1) (?t (?t PADI_TIMEOUT)) (zs @ Select_timeout # rest) c2 =
      padi_loop env (0 + 1 + 1 + 1) (?t (?t (?t PADI_TIMEOUT))) rest c3" "quiet env k c3"
    "waits c3 = waits c2 @ [?t (?t PADI_TIMEOUT)]"
    "attempts c3 = attempts c2 + (if length (encs tag_bytes (padi_tags env k)) \<le> MAX_PPPOE_PAYLOAD then 1 else 0)"
    by (rule padi_turn [OF c2(2) m(3) noise(3), where t = "?t (?t PADI_TIMEOUT)"])
  have "conn_session (conn c3) = 0" using c3(2) by (auto simp: quiet_def)
  then have "padi_loop env (0 + 1 + 1 + 1) t rest c3 = (Exit EXIT_FAILURE c3, rest)" for t
    by (subst padi_loop.simps) (simp add: MAX_PADI_ATTEMPTS_def rp_fatal_idle)
  then have "discovery env (xs @ Select_timeout # ys @ Select_timeout # zs @ Select_timeout # rest) c = (Exit EXIT_FAILURE c3, rest)"
    using assms(1) o c1(1) c2(1) c3(1)
    by (simp add: discovery_def c0_def [symmetric] k_def [symmetric] run_inputs_def Let_def)
  then show ?thesis using c1(3,4) c2(3,4) c3(3,4) o tags by (simp add: PADI_TIMEOUT_def)
qed


section \<open>Which answers count\<close>

lemma parsePacket_loop_inv:
  "(\<forall>ty d s. P s \<longrightarrow> P (func ty d s)) \<Longrightarrow> P s \<Longrightarrow> parsePacket_loop func buf len cur s = Some (r, s') \<Longrightarrow> P s'"
proof (induction func buf len cur s rule: parsePacket_loop.induct)
  case (1 func buf len cur s)
  show ?case
  proof (cases "cur < len")
    case True
    then obtain ty l where c: "rd_be16 buf cur = Some ty" "rd_be16 buf (cur + 2) = Some l"
      using "1.prems"(3) by (subst (asm) parsePacket_loop.simps) (auto elim!: bind_SomeE)
    note step = "1.prems"(3) [unfolded parsePacket_loop.simps [of func buf len cur s]]
    show ?thesis
    proof (cases "ty = TAG_END_OF_LIST \<or> len < cur + l + TAG_HDR_SIZE")
      case stop: True
      then show ?thesis using "1.prems"(2) step True c by (auto split: if_splits)
    next
      case False
      then obtain d where d: "rd_bytes buf (cur + TAG_HDR_SIZE) l = Some d"
        "parsePacket_loop func buf len (cur + TAG_HDR_SIZE + l) (func ty d s) = Some (r, s')"
        using step True c by (auto elim!: bind_SomeE)
      have "P (func ty d s)" using "1.prems"(1,2) by blast
      then show ?thesis using "1.IH" [OF True c] False "1.prems"(1) d by simp
    qed
  qed (use 1 in \<open>simp add: parsePacket_loop.simps\<close>)
qed

lemma parsePacket_inv:
  assumes "\<And>ty d s. P s \<Longrightarrow> P (func ty d s)" "P s" "parsePacket p func s = Some (r, s')"
  shows "P s'"
proof -
  have step: "\<forall>ty d s. P s \<longrightarrow> P (func ty d s)" using assms(1) by blast
  consider "s' = s" | "parsePacket_loop func (payload p) (plen p) 0 s = Some (r, s')"
    using assms(3) unfolding parsePacket_def by (auto split: if_splits)
  then show ?thesis
  proof cases
    case 2
    show ?thesis by (rule parsePacket_loop_inv [OF step assms(2) 2])
  qed (use assms(2) in simp)
qed

text \<open>What stays the same while the client waits.\<close>

definition same_peer :: "PPPoEConnection \<Rightarrow> PPPoEConnection \<Rightarrow> bool" where
  "same_peer k k' \<longleftrightarrow> myEth k' = myEth k \<and> useHostUniq k' = useHostUniq k \<and> printACNames k' = printACNames k \<and>
     discoveryState k' = discoveryState k \<and> peerEth k' = peerEth k"

lemma PADO_tags_same: "parsePacket p parsePADOTags pc = Some (r, pc') \<Longrightarrow> same_peer (pc_conn pc) (pc_conn pc')"
  by (rule parsePacket_inv [where P = "\<lambda>pc'. same_peer (pc_conn pc) (pc_conn pc')"])
    (auto simp: parsePADOTags_def same_peer_def Let_def)

lemma PADS_tags_same: "parsePacket p parsePADSTags s = Some (r, s') \<Longrightarrow> same_peer (fst s) (fst s')"
  by (rule parsePacket_inv [where P = "\<lambda>s'. same_peer (fst s) (fst s')"])
    (auto simp: parsePADSTags_def same_peer_def)

text \<open>A PADO the client could have taken, and a PADS from the concentrator it asked.\<close>

definition good_PADO :: "client_env \<Rightarrow> PPPoEConnection \<Rightarrow> mac \<Rightarrow> disc_input \<Rightarrow> bool" where
  "good_PADO env k ac i \<longleftrightarrow> (\<exists>p len. i = Received p len \<and> \<not> bogus_length p len \<and> packetIsForMe env k p = Some True \<and>
     code p = CODE_PADO \<and> \<not> NOT_UNICAST (h_source p) \<and> h_source p = ac)"

definition good_PADS :: "client_env \<Rightarrow> PPPoEConnection \<Rightarrow> mac \<Rightarrow> u16 \<Rightarrow> disc_input \<Rightarrow> bool" where
  "good_PADS env k ac ses i \<longleftrightarrow> (\<exists>p len. i = Received p len \<and> \<not> bogus_length p len \<and> packetIsForMe env k p = Some True \<and>
     code p = CODE_PADS \<and> h_source p = ac \<and> session p = ses)"

lemma good_cong:
  assumes "myEth k' = myEth k" "useHostUniq k' = useHostUniq k"
  shows "good_PADO env k' = good_PADO env k" "good_PADS env k' = good_PADS env k"
  by (simp_all add: good_PADO_def good_PADS_def packetIsForMe_cong [OF assms] fun_eq_iff)

text \<open>How \<open>waitForPADO\<close> returns: on a timeout, or with such a PADO as the last input it has read.\<close>

definition padi_result :: "client_env \<Rightarrow> disc_input list \<Rightarrow> PPPoEConnection \<Rightarrow> disc_input list \<Rightarrow> PPPoEConnection \<Rightarrow> bool" where
  "padi_result env inp k rest k' \<longleftrightarrow> myEth k' = myEth k \<and> useHostUniq k' = useHostUniq k \<and> printACNames k' = printACNames k \<and>
     (\<exists>a i. inp = a @ i # rest \<and>
        (discoveryState k' = STATE_SENT_PADI \<or> good_PADO env k (peerEth k') i))"

lemma padi_result_later:
  assumes "padi_result env inp k rest k'" "myEth k = myEth k0" "useHostUniq k = useHostUniq k0" "printACNames k = printACNames k0"
  shows "padi_result env (i # inp) k0 rest k'"
proof -
  obtain a j where "inp = a @ j # rest" "discoveryState k' = STATE_SENT_PADI \<or> good_PADO env k0 (peerEth k') j"
    using assms good_cong(1) [OF assms(2,3)] by (auto simp: padi_result_def)
  then show ?thesis using assms unfolding padi_result_def
    by (intro conjI exI [of _ "i # a"] exI [of _ j]) (simp_all add: padi_result_def)
qed

lemma waitForPADO_loop_result:
  "waitForPADO_loop env inp pc c = (Run c', rest) \<Longrightarrow> discoveryState (conn c) = STATE_SENT_PADI \<Longrightarrow>
   padi_result env inp (conn c) rest (conn c')"
proof (induction inp arbitrary: pc c)
  case (Cons i inp)
  have again: "padi_result env (i # inp) (conn c) rest (conn c')"
    if "waitForPADO_loop env inp pc1 c1 = (Run c', rest)" "discoveryState (conn c1) = STATE_SENT_PADI"
      "myEth (conn c1) = myEth (conn c)" "useHostUniq (conn c1) = useHostUniq (conn c)" "printACNames (conn c1) = printACNames (conn c)"
    for pc1 c1
    using padi_result_later [OF Cons.IH [OF that(1,2)] that(3-5)] .
  note step = Cons.prems(1) [unfolded waitForPADO_loop.simps(2) Let_def]
  show ?case
  proof (cases i)
    case Select_timeout
    then show ?thesis using Cons.prems
      by (auto simp: waitForPADO_loop.simps(2) padi_result_def)
  next
    case Select_error
    then show ?thesis using Cons.prems fatal_not_Run by (simp add: waitForPADO_loop.simps(2))
  next
    case (Received p len)
    show ?thesis
    proof (cases "bogus_length p len \<or> packetIsForMe env (conn c) p \<noteq> Some True \<or> code p \<noteq> CODE_PADO \<or> NOT_UNICAST (h_source p)")
      case True
      then show ?thesis using again [of pc c] Cons.prems(2) step Received
        by (cases "packetIsForMe env (conn c) p") (auto split: if_splits)
    next
      case False
      then obtain r pc1 where pc1: "parsePacket p parsePADOTags (pc\<lparr>pc_conn := conn c\<rparr>) = Some (r, pc1)"
        using step Received by (auto split: option.splits)
      have same: "same_peer (conn c) (pc_conn pc1)" using PADO_tags_same [OF pc1] by simp
      have good: "good_PADO env (conn c) (h_source p) i" using False Received by (auto simp: good_PADO_def)
      let ?c1 = "c\<lparr>conn := pc_conn pc1\<rparr>"
      let ?c2 = "upd_conn (\<lambda>k. k\<lparr>numPADOs := numPADOs k + 1\<rparr>) ?c1"
      let ?c3 = "upd_conn (\<lambda>k. k\<lparr>peerEth := h_source p\<rparr>) ?c2"
      let ?c4 = "upd_conn (\<lambda>k. k\<lparr>discoveryState := STATE_RECEIVED_PADO\<rparr>) ?c3"
      have st: "discoveryState (pc_conn pc1) = STATE_SENT_PADI" using same Cons.prems(2) by (simp add: same_peer_def)
      have "waitForPADO_loop env inp pc1 ?c1 = (Run c', rest) \<or> waitForPADO_loop env inp pc1 ?c2 = (Run c', rest) \<or>
          waitForPADO_loop env inp pc1 ?c3 = (Run c', rest) \<or> (Run ?c4, inp) = (Run c', rest)"
        using step Received False pc1 st
        by (auto simp: upd_conn_def split: if_splits)
      then show ?thesis
      proof (elim disjE)
        assume "(Run ?c4, inp) = (Run c', rest)"
        then have "conn c' = (pc_conn pc1)\<lparr>numPADOs := numPADOs (pc_conn pc1) + 1, peerEth := h_source p, discoveryState := STATE_RECEIVED_PADO\<rparr>"
          "inp = rest" by (auto simp: upd_conn_def)
        then show ?thesis using same good unfolding padi_result_def same_peer_def
          by (intro conjI exI [of _ "[]"] exI [of _ i]) simp_all
      qed (use again [of pc1] same st in \<open>simp_all add: same_peer_def upd_conn_def\<close>)
    qed
  qed
qed simp


lemma or_fault_RunE: "or_fault x f = Run c \<Longrightarrow> (\<And>y. x = Some y \<Longrightarrow> f y = Run c \<Longrightarrow> R) \<Longrightarrow> R"
  by (cases x) simp_all

lemma send_keeps_conn:
  "send_discovery env p c = Run c1 \<Longrightarrow> conn c1 = conn c"
  "sendPADI env c = Run c1 \<Longrightarrow> conn c1 = conn c"
  "sendPADR env c = Run c1 \<Longrightarrow> conn c1 = conn c"
proof -
  show s: "send_discovery env p c = Run c1 \<Longrightarrow> conn c1 = conn c" for p
    by (auto simp: send_discovery_def sendPacket_def Let_def)
  show "sendPADI env c = Run c1 \<Longrightarrow> conn c1 = conn c"
    unfolding sendPADI_def by (auto split: if_splits elim!: or_fault_RunE; erule s)
  show "sendPADR env c = Run c1 \<Longrightarrow> conn c1 = conn c"
    unfolding sendPADR_def by (auto split: if_splits option.splits elim!: or_fault_RunE; erule s)
qed

text \<open>What the PADI loop has when it returns.\<close>

definition offered :: "client_env \<Rightarrow> disc_input list \<Rightarrow> PPPoEConnection \<Rightarrow> disc_input list \<Rightarrow> PPPoEConnection \<Rightarrow> bool" where
  "offered env inp k rest k' \<longleftrightarrow> myEth k' = myEth k \<and> useHostUniq k' = useHostUniq k \<and> printACNames k' = printACNames k \<and>
     (\<not> printACNames k \<longrightarrow> (\<exists>a i. inp = a @ i # rest \<and> good_PADO env k (peerEth k') i))"

lemma padi_loop_result:
  "padi_loop env n t inp c = (Run c', rest) \<Longrightarrow> offered env inp (conn c) rest (conn c')"
proof (induction env n t inp c rule: padi_loop.induct)
  case (1 env n t inp c)
  have n: "\<not> n + 1 > MAX_PADI_ATTEMPTS"
  proof
    assume "n + 1 > MAX_PADI_ATTEMPTS"
    then show False using "1.prems"(1) fatal_not_Run by (subst (asm) padi_loop.simps) simp
  qed
  obtain c1 where c1: "sendPADI env c = Run c1"
    using "1.prems"(1) n by (subst (asm) padi_loop.simps) (auto simp: run_inputs_def split: run.splits)
  let ?c2 = "upd_conn (\<lambda>k. k\<lparr>discoveryState := STATE_SENT_PADI\<rparr>) c1"
  have k2: "myEth (conn ?c2) = myEth (conn c)" "useHostUniq (conn ?c2) = useHostUniq (conn c)"
    "printACNames (conn ?c2) = printACNames (conn c)" "discoveryState (conn ?c2) = STATE_SENT_PADI"
    using send_keeps_conn(2) [OF c1] by (simp_all add: upd_conn_def)
  obtain r inp1 where w: "waitForPADO env t inp ?c2 = (r, inp1)" by (metis surj_pair)
  obtain c3 where r: "r = Run c3"
    using "1.prems"(1) n c1 w by (subst (asm) padi_loop.simps) (auto simp: run_inputs_def split: run.splits)
  have res: "padi_result env inp (conn ?c2) inp1 (conn c3)"
    using waitForPADO_loop_result [OF w [unfolded waitForPADO_def r]] k2(4) by simp
  then obtain a i where a: "inp = a @ i # inp1"
    "discoveryState (conn c3) = STATE_SENT_PADI \<or> good_PADO env (conn c) (peerEth (conn c3)) i"
    and k3: "myEth (conn c3) = myEth (conn c)" "useHostUniq (conn c3) = useHostUniq (conn c)"
    "printACNames (conn c3) = printACNames (conn c)"
    using k2 good_cong(1) [OF k2(1,2)] by (auto simp: padi_result_def)
  have step: "padi_loop env n t inp c =
      (if printACNames (conn c3) \<and> numPADOs (conn c3) \<noteq> 0 then (Run c3, inp1)
       else if discoveryState (conn c3) = STATE_SENT_PADI
       then padi_loop env (n + 1) (if printACNames (conn c3) then t else 2 * t) inp1 c3 else (Run c3, inp1))"
    using n c1 w r by (subst padi_loop.simps) (simp add: run_inputs_def Let_def)
  show ?case
  proof (cases "\<not> (printACNames (conn c3) \<and> numPADOs (conn c3) \<noteq> 0) \<and> discoveryState (conn c3) = STATE_SENT_PADI")
    case True
    have "offered env inp1 (conn c3) rest (conn c')"
      by (rule "1.IH" [OF n w [symmetric] refl]) (use True step "1.prems" in auto)
    then have o: "myEth (conn c') = myEth (conn c)" "useHostUniq (conn c') = useHostUniq (conn c)"
      "printACNames (conn c') = printACNames (conn c)"
      "\<not> printACNames (conn c) \<Longrightarrow> \<exists>b j. inp1 = b @ j # rest \<and> good_PADO env (conn c) (peerEth (conn c')) j"
      using good_cong(1) [OF k3(1,2)] k3 by (auto simp: offered_def)
    have "\<exists>a j. inp = a @ j # rest \<and> good_PADO env (conn c) (peerEth (conn c')) j" if np: "\<not> printACNames (conn c)"
    proof -
      obtain b j where "inp1 = b @ j # rest" "good_PADO env (conn c) (peerEth (conn c')) j" using o(4) [OF np] by blast
      then show ?thesis using a(1) by (intro exI [of _ "a @ i # b"] exI [of _ j]) simp
    qed
    then show ?thesis unfolding offered_def using o by blast
  next
    case False
    then have "c' = c3" "rest = inp1" using step "1.prems"(1) by (auto split: if_splits)
    then show ?thesis using False a k3 unfolding offered_def by auto
  qed
qed

text \<open>The same for the PADS and the PADR loop.\<close>

definition padr_result :: "client_env \<Rightarrow> disc_input list \<Rightarrow> PPPoEConnection \<Rightarrow> disc_input list \<Rightarrow> PPPoEConnection \<Rightarrow> bool" where
  "padr_result env inp k rest k' \<longleftrightarrow> myEth k' = myEth k \<and> useHostUniq k' = useHostUniq k \<and> peerEth k' = peerEth k \<and>
     (\<exists>a i. inp = a @ i # rest \<and>
        (discoveryState k' = STATE_SENT_PADR \<or> good_PADS env k (peerEth k) (conn_session k') i))"

lemma padr_result_later:
  assumes "padr_result env inp k0 rest k'"
  shows "padr_result env (i # inp) k0 rest k'"
proof -
  obtain a j where "inp = a @ j # rest" "discoveryState k' = STATE_SENT_PADR \<or> good_PADS env k0 (peerEth k0) (conn_session k') j"
    using assms by (auto simp: padr_result_def)
  then show ?thesis using assms unfolding padr_result_def
    by (intro conjI exI [of _ "i # a"] exI [of _ j]) (simp_all add: padr_result_def)
qed

lemma waitForPADS_loop_result:
  "waitForPADS_loop env inp c = (Run c', rest) \<Longrightarrow> discoveryState (conn c) = STATE_SENT_PADR \<Longrightarrow>
   padr_result env inp (conn c) rest (conn c')"
proof (induction inp)
  case (Cons i inp)
  note step = Cons.prems(1) [unfolded waitForPADS_loop.simps(2) Let_def]
  show ?case
  proof (cases i)
    case Select_timeout
    then show ?thesis using Cons.prems by (auto simp: waitForPADS_loop.simps(2) padr_result_def)
  next
    case Select_error
    then show ?thesis using Cons.prems fatal_not_Run by (simp add: waitForPADS_loop.simps(2))
  next
    case (Received p len)
    show ?thesis
    proof (cases "bogus_length p len \<or> h_source p \<noteq> peerEth (conn c) \<or> packetIsForMe env (conn c) p \<noteq> Some True \<or> code p \<noteq> CODE_PADS")
      case True
      then have "waitForPADS_loop env inp c = (Run c', rest)"
        using Cons.prems(2) step Received
        by (cases "packetIsForMe env (conn c) p") (auto split: if_splits)
      then show ?thesis using padr_result_later Cons by blast
    next
      case False
      then obtain r k ex where pc: "parsePacket p parsePADSTags (conn c, False) = Some (r, k, ex)"
        using step Received by (auto split: option.splits)
      have same: "same_peer (conn c) k" using PADS_tags_same [OF pc] by simp
      have "conn c' = k\<lparr>discoveryState := STATE_SESSION, conn_session := session p\<rparr>" "inp = rest"
        using step Received False pc by (auto simp: upd_conn_def split: if_splits)
      moreover have "good_PADS env (conn c) (peerEth (conn c)) (session p) i"
        using False Received by (auto simp: good_PADS_def)
      ultimately show ?thesis using same unfolding padr_result_def same_peer_def
        by (intro conjI exI [of _ "[]"] exI [of _ i]) simp_all
    qed
  qed
qed simp

definition opened :: "client_env \<Rightarrow> disc_input list \<Rightarrow> PPPoEConnection \<Rightarrow> disc_input list \<Rightarrow> PPPoEConnection \<Rightarrow> bool" where
  "opened env inp k rest k' \<longleftrightarrow> peerEth k' = peerEth k \<and> myEth k' = myEth k \<and>
     (\<exists>a i. inp = a @ i # rest \<and> good_PADS env k (peerEth k) (conn_session k') i)"

lemma padr_loop_result:
  "padr_loop env n t inp c = (Run c', rest) \<Longrightarrow> opened env inp (conn c) rest (conn c')"
proof (induction env n t inp c rule: padr_loop.induct)
  case (1 env n t inp c)
  have n: "\<not> n + 1 > MAX_PADI_ATTEMPTS"
  proof
    assume "n + 1 > MAX_PADI_ATTEMPTS"
    then show False using "1.prems"(1) fatal_not_Run by (subst (asm) padr_loop.simps) simp
  qed
  obtain c1 where c1: "sendPADR env c = Run c1"
    using "1.prems"(1) n by (subst (asm) padr_loop.simps) (auto simp: run_inputs_def split: run.splits)
  let ?c2 = "upd_conn (\<lambda>k. k\<lparr>discoveryState := STATE_SENT_PADR\<rparr>) c1"
  have k2: "myEth (conn ?c2) = myEth (conn c)" "useHostUniq (conn ?c2) = useHostUniq (conn c)"
    "peerEth (conn ?c2) = peerEth (conn c)" "discoveryState (conn ?c2) = STATE_SENT_PADR"
    using send_keeps_conn(3) [OF c1] by (simp_all add: upd_conn_def)
  obtain r inp1 where w: "waitForPADS env t inp ?c2 = (r, inp1)" by (metis surj_pair)
  obtain c3 where r: "r = Run c3"
    using "1.prems"(1) n c1 w by (subst (asm) padr_loop.simps) (auto simp: run_inputs_def split: run.splits)
  have res: "padr_result env inp (conn ?c2) inp1 (conn c3)"
    using waitForPADS_loop_result [OF w [unfolded waitForPADS_def r]] k2(4) by simp
  then obtain a i where a: "inp = a @ i # inp1"
    "discoveryState (conn c3) = STATE_SENT_PADR \<or> good_PADS env (conn c) (peerEth (conn c)) (conn_session (conn c3)) i"
    and k3: "myEth (conn c3) = myEth (conn c)" "useHostUniq (conn c3) = useHostUniq (conn c)" "peerEth (conn c3) = peerEth (conn c)"
    using k2 good_cong(2) [OF k2(1,2)] by (auto simp: padr_result_def)
  have step: "padr_loop env n t inp c =
      (if discoveryState (conn c3) = STATE_SENT_PADR then padr_loop env (n + 1) (2 * t) inp1 c3 else (Run c3, inp1))"
    using n c1 w r by (subst padr_loop.simps) (simp add: run_inputs_def Let_def)
  show ?case
  proof (cases "discoveryState (conn c3) = STATE_SENT_PADR")
    case True
    have "opened env inp1 (conn c3) rest (conn c')"
      by (rule "1.IH" [OF n w [symmetric]]) (use True step "1.prems" in auto)
    then obtain b j where "inp1 = b @ j # rest" "good_PADS env (conn c) (peerEth (conn c)) (conn_session (conn c')) j"
      "peerEth (conn c') = peerEth (conn c)" "myEth (conn c') = myEth (conn c)"
      using good_cong(2) [OF k3(1,2)] k3 by (auto simp: opened_def)
    then show ?thesis unfolding opened_def using a(1) by (intro conjI exI [of _ "a @ i # b"] exI [of _ j]) simp_all
  next
    case False
    then show ?thesis using step "1.prems"(1) a k3 unfolding opened_def by auto
  qed
qed

text \<open>
  C23: a session is only opened by the concentrator that was asked. When discovery returns, the
  inputs hold, in this order, a PADO from a unicast address and, as the last frame read, a PADS
  from the same address; both are addressed to the client (and carry its Host-Uniq, if it uses
  one), that address is the peer of the session, and the number in the PADS is its number.
\<close>

theorem session_from_offer:
  assumes "discovery env inp c = (Run c', rest)" "\<not> skipDiscovery (conn c)"
  shows "\<exists>a i b j. inp = a @ i # b @ j # rest \<and>
    good_PADO env (conn (open_discovery env c)) (peerEth (conn c')) i \<and>
    good_PADS env (conn (open_discovery env c)) (peerEth (conn c')) (conn_session (conn c')) j \<and>
    myEth (conn c') = snd (open_if env (Eth_PPPOE_Discovery c)) \<and> discoveryState (conn c') = STATE_SESSION"
proof -
  define c0 where "c0 = open_discovery env c"
  have sk: "\<not> skipDiscovery (conn c0)" "myEth (conn c0) = snd (open_if env (Eth_PPPOE_Discovery c))"
    using assms(2) by (simp_all add: c0_def open_discovery_def upd_conn_def)
  obtain r1 inp1 where p1: "padi_loop env 0 PADI_TIMEOUT inp c0 = (r1, inp1)" by (metis surj_pair)
  have d: "discovery env inp c = run_inputs r1 inp1 (\<lambda>c.
              if printACNames (conn c) then (Exit 0 c, inp1)
              else case padr_loop env 0 PADI_TIMEOUT inp1 c of
                (r, inp) \<Rightarrow> run_inputs r inp (\<lambda>c.
                  (Run (upd_conn (\<lambda>k. k\<lparr>discoveryState := STATE_SESSION\<rparr>) c), inp)))"
    using assms(2) sk p1 by (simp add: discovery_def c0_def [symmetric] Let_def)
  obtain c1 where c1: "r1 = Run c1" using d assms(1) by (auto simp: run_inputs_def split: run.splits)
  have np: "\<not> printACNames (conn c1)" using d assms(1) c1 by (auto simp: run_inputs_def split: if_splits)
  obtain r2 inp2 where p2: "padr_loop env 0 PADI_TIMEOUT inp1 c1 = (r2, inp2)" by (metis surj_pair)
  obtain c2 where c2: "r2 = Run c2" "inp2 = rest" "c' = upd_conn (\<lambda>k. k\<lparr>discoveryState := STATE_SESSION\<rparr>) c2"
    using d assms(1) c1 np p2 by (auto simp: run_inputs_def split: run.splits)
  have o1: "offered env inp (conn c0) inp1 (conn c1)" using padi_loop_result p1 c1 by blast
  have o2: "opened env inp1 (conn c1) rest (conn c2)" using padr_loop_result p2 c2 by blast
  obtain a i where a: "inp = a @ i # inp1" "good_PADO env (conn c0) (peerEth (conn c1)) i"
    "myEth (conn c1) = myEth (conn c0)" "useHostUniq (conn c1) = useHostUniq (conn c0)"
    using o1 np by (auto simp: offered_def)
  obtain b j where b: "inp1 = b @ j # rest" "good_PADS env (conn c0) (peerEth (conn c1)) (conn_session (conn c2)) j"
    "peerEth (conn c2) = peerEth (conn c1)" "myEth (conn c2) = myEth (conn c1)"
    using o2 good_cong(2) [OF a(3,4)] by (auto simp: opened_def)
  have "inp = a @ i # b @ j # rest \<and> good_PADO env (conn c0) (peerEth (conn c')) i \<and>
    good_PADS env (conn c0) (peerEth (conn c')) (conn_session (conn c')) j \<and>
    myEth (conn c') = snd (open_if env (Eth_PPPOE_Discovery c)) \<and> discoveryState (conn c') = STATE_SESSION"
    using a b c2(3) sk by (simp add: upd_conn_def)
  then show ?thesis unfolding c0_def by blast
qed

end
