(* ===== verification/Client_Session.thy ===== *)
theory Client_Session
  imports Client_Props
begin

text \<open>
  The two flaws of discovery that the model shows, and the session: what it sends, and that the
  PADT is the last of it.
\<close>

section \<open>Criteria that add up\<close>

lemma PADO_taken:
  assumes "\<not> bogus_length p len" "h_dest p = myEth (conn c)" "\<not> useHostUniq (conn c)" "code p = CODE_PADO"
    and "\<not> NOT_UNICAST (h_source p)" "\<not> printACNames (conn c)" "discoveryState (conn c) = STATE_SENT_PADI"
    and "pkt_ok p" "tags_of p = Some [\<lparr>tag_type = TAG_AC_NAME, tag_data = n\<rparr>, \<lparr>tag_type = TAG_SERVICE_NAME, tag_data = s\<rparr>]"
    and "\<not> pc_exit pc"
  shows "waitForPADO_loop env (Received p len # inp) pc c =
     (let ac = acNameOK pc \<or> acName (conn c) = Some n; sv = serviceNameOK pc \<or> serviceName (conn c) = Some s;
          c1 = upd_conn (\<lambda>k. k\<lparr>numPADOs := numPADOs k + 1\<rparr>) c in
      if ac \<and> sv
      then (Run (upd_conn (\<lambda>k. k\<lparr>peerEth := h_source p, discoveryState := STATE_RECEIVED_PADO\<rparr>) c1), inp)
      else waitForPADO_loop env inp (pc\<lparr>pc_conn := conn c, acNameOK := ac, serviceNameOK := sv,
             seenACName := True, seenServiceName := True\<rparr>) c1)"
proof -
  have parse: "parsePacket p parsePADOTags (pc\<lparr>pc_conn := conn c\<rparr>) =
      Some (0, pc\<lparr>pc_conn := conn c, acNameOK := acNameOK pc \<or> acName (conn c) = Some n,
        serviceNameOK := serviceNameOK pc \<or> serviceName (conn c) = Some s, seenACName := True, seenServiceName := True\<rparr>)"
    using assms(10) by (simp add: parsePacket_tags [OF assms(8,9)] parsePADOTags_def tag_consts Let_def)
  have "packetIsForMe env (conn c) p = Some True" using assms(2,3) by (simp add: packetIsForMe_def)
  then show ?thesis
    using assms(1,4-7,10) parse
    by (simp add: waitForPADO_loop.simps(2) Let_def upd_conn_def)
qed

text \<open>
  An access concentrator that is not the one asked for can be taken. The flags of the criteria
  are not cleared between two PADOs: an offer of the right concentrator for another service,
  followed by an offer of another concentrator for the right service, makes the client choose the
  second, although it accepts neither of them alone.
\<close>

lemma criteria_accumulate:
  assumes "acName (conn c) = Some n" "serviceName (conn c) = Some s" "n2 \<noteq> n" "s1 \<noteq> s"
    and "\<not> useHostUniq (conn c)" "\<not> printACNames (conn c)" "discoveryState (conn c) = STATE_SENT_PADI"
    and "pkt_ok p1" "tags_of p1 = Some [\<lparr>tag_type = TAG_AC_NAME, tag_data = n\<rparr>, \<lparr>tag_type = TAG_SERVICE_NAME, tag_data = s1\<rparr>]"
    and "pkt_ok p2" "tags_of p2 = Some [\<lparr>tag_type = TAG_AC_NAME, tag_data = n2\<rparr>, \<lparr>tag_type = TAG_SERVICE_NAME, tag_data = s\<rparr>]"
    and "\<forall>p \<in> {p1, p2}. h_dest p = myEth (conn c) \<and> code p = CODE_PADO \<and> \<not> NOT_UNICAST (h_source p) \<and> \<not> bogus_length p len"
  shows "(\<exists>c'. waitForPADO env t [Received p1 len, Received p2 len] c = (Run c', []) \<and>
      discoveryState (conn c') = STATE_RECEIVED_PADO \<and> peerEth (conn c') = h_source p2) \<and>
    (\<forall>p \<in> {p1, p2}. \<exists>c'. waitForPADO env t [Received p len, Select_timeout] c = (Run c', []) \<and>
      discoveryState (conn c') = STATE_SENT_PADI)"
proof -
  have p1: "h_dest p1 = myEth (conn c)" "code p1 = CODE_PADO" "\<not> NOT_UNICAST (h_source p1)" "\<not> bogus_length p1 len"
    and p2: "h_dest p2 = myEth (conn c)" "code p2 = CODE_PADO" "\<not> NOT_UNICAST (h_source p2)" "\<not> bogus_length p2 len"
    using assms(12) by auto
  have timeout: "waitForPADO_loop env [Select_timeout] pc c = (Run c, [])" for pc c
    by (simp add: waitForPADO_loop.simps(2))
  note one = PADO_taken [OF p1(4) _ _ p1(2,3) _ _ assms(8,9)] PADO_taken [OF p2(4) _ _ p2(2,3) _ _ assms(10,11)]
  show ?thesis
    using assms(1-7) p1(1) p2(1)
    by (simp add: waitForPADO_def one upd_conn_def Let_def timeout)
qed

lemma demo_frame_tags:
  assumes "\<forall>t \<in> set ts. tag_ok t" "length (encs tag_bytes ts) \<le> MAX_PPPOE_PAYLOAD"
  shows "pkt_ok (demo_frame cd (encs tag_bytes ts))" "tags_of (demo_frame cd (encs tag_bytes ts)) = Some ts"
  using assms pppoe.decs_encs [OF assms(1)] by (simp_all add: pkt_ok_def tags_of_def demo_frame_def pppoe_consts)

lemma demo_frame_simps [simp]:
  "h_dest (demo_frame cd bs) = [2, 0, 0, 0, 0, 1]" "h_source (demo_frame cd bs) = [2, 0, 0, 0, 0, 2]"
  "code (demo_frame cd bs) = cd" "plen (demo_frame cd bs) = length bs" "session (demo_frame cd bs) = 7"
  by (simp_all add: demo_frame_def)

lemma demo_unicast: "\<not> NOT_UNICAST [2, 0, 0, 0, 0, 2]"
  by (simp add: NOT_UNICAST_def)

section \<open>What a session sends\<close>

type_synonym sent = "int \<times> PPPoEPacket \<times> nat"

definition session_frame :: "PPPoEConnection \<Rightarrow> sent \<Rightarrow> bool" where
  "session_frame k f \<longleftrightarrow> (case f of (sock, p, sz) \<Rightarrow> sock = sessionSocket k \<and> code p = CODE_SESS \<and>
     h_dest p = peerEth k \<and> h_source p = myEth k \<and> session p = conn_session k)"

definition padt_frame :: "PPPoEConnection \<Rightarrow> sent \<Rightarrow> bool" where
  "padt_frame k f \<longleftrightarrow> (case f of (sock, p, sz) \<Rightarrow> sock = discoverySocket k \<and> code p = CODE_PADT \<and>
     h_dest p = peerEth k \<and> h_source p = myEth k \<and> session p = conn_session k \<and> conn_session k \<noteq> 0)"

definition in_session :: "PPPoEConnection \<Rightarrow> client \<Rightarrow> bool" where
  "in_session k c \<longleftrightarrow> conn c = k \<and> code (packet c) = CODE_SESS \<and> h_dest (packet c) = peerEth k \<and>
     h_source (packet c) = myEth k \<and> session (packet c) = conn_session k"

text \<open>The frames sent from \<open>c\<close> on: session frames, and at most one PADT, as the last before an exit.\<close>

fun sends :: "PPPoEConnection \<Rightarrow> sent list \<Rightarrow> run \<Rightarrow> bool" where
  "sends k old (Run c) \<longleftrightarrow> in_session k c \<and> (\<exists>fs. frames c = old @ fs \<and> (\<forall>f \<in> set fs. session_frame k f))"
| "sends k old (Wait c) \<longleftrightarrow> (\<exists>fs. frames c = old @ fs \<and> (\<forall>f \<in> set fs. session_frame k f))"
| "sends k old (Exit n c) \<longleftrightarrow>
     (\<exists>fs gs. frames c = old @ fs @ gs \<and> (\<forall>f \<in> set fs. session_frame k f) \<and>
        (gs = [] \<or> (\<exists>g. gs = [g] \<and> padt_frame k g)))"
| "sends k old Fault \<longleftrightarrow> True"

lemma sends_bind:
  assumes "sends k old r" "\<And>c. in_session k c \<Longrightarrow> sends k (frames c) (f c)"
  shows "sends k old (run_bind r f)"
proof (cases r)
  case (Run c)
  then obtain fs where fs: "frames c = old @ fs" "\<forall>f \<in> set fs. session_frame k f" "in_session k c" using assms(1) by auto
  have f: "sends k (old @ fs) (f c)" using assms(2) [OF fs(3)] fs(1) by simp
  show ?thesis
  proof (cases "f c")
    case (Run d)
    then obtain gs where "frames d = old @ (fs @ gs)" "\<forall>f \<in> set (fs @ gs). session_frame k f" "in_session k d" using f fs(2) by auto
    then show ?thesis using Run \<open>r = Run c\<close> by auto
  next
    case (Wait d)
    then obtain gs where "frames d = old @ (fs @ gs)" "\<forall>f \<in> set (fs @ gs). session_frame k f" using f fs(2) by auto
    then show ?thesis using Wait \<open>r = Run c\<close> by auto
  next
    case (Exit n d)
    obtain gs hs where "frames d = (old @ fs) @ gs @ hs" "\<forall>f \<in> set gs. session_frame k f"
      "hs = [] \<or> (\<exists>g. hs = [g] \<and> padt_frame k g)" using f unfolding Exit sends.simps by blast
    then have "sends k old (Exit n d)" unfolding sends.simps
      by (intro exI [of _ "fs @ gs"] exI [of _ hs]) (use fs(2) in auto)
    then show ?thesis using Exit \<open>r = Run c\<close> by simp
  qed (use Run in simp)
qed (use assms(1) in simp_all)

lemma sends_refl: "in_session k c \<Longrightarrow> sends k (frames c) (Run c)"
  by simp

lemma sends_same: "in_session k c \<Longrightarrow> in_session k d \<Longrightarrow> frames d = frames c \<Longrightarrow> sends k (frames c) (Run d)"
  by simp

lemma padt_frame_of:
  "padt pd proto msg k = Some (Some p, k') \<Longrightarrow> code p = CODE_PADT \<and> h_dest p = peerEth k \<and> h_source p = myEth k \<and>
     session p = conn_session k \<and> conn_session k \<noteq> 0 \<and> discoverySocket k' = discoverySocket k"
  by (auto simp: padt_def Let_def split: if_splits option.splits elim!: bind_SomeE)

lemma padt_keeps_socket: "padt pd proto msg k = Some (fr, k') \<Longrightarrow> discoverySocket k' = discoverySocket k"
  by (auto simp: padt_def Let_def split: if_splits option.splits elim!: bind_SomeE)

lemma padt_exit: "in_session k c \<Longrightarrow> sends k (frames c) (run_bind (sendPADT env msg c) (Exit n))"
proof -
  assume s: "in_session k c"
  then have k: "conn c = k" by (simp add: in_session_def)
  show ?thesis
  proof (cases "padt (pid env) (Eth_PPPOE_Discovery c) msg k")
    case None
    then show ?thesis by (simp add: sendPADT_def k)
  next
    case (Some r)
    obtain fr k' where r: "r = (fr, k')" by (cases r)
    show ?thesis
    proof (cases fr)
      case None
      then show ?thesis using Some r by (auto simp: sendPADT_def k Let_def)
    next
      case p: (Some p)
      note f = padt_frame_of [OF Some [unfolded r p]]
      have g: "padt_frame k (discoverySocket k', p, plen p + HDR_SIZE)" using f by (simp add: padt_frame_def)
      let ?d = "snd (sendPacket env (discoverySocket k') p (plen p + HDR_SIZE) (c\<lparr>conn := k'\<rparr>))"
      have d: "run_bind (sendPADT env msg c) (Exit n) = Exit n ?d"
        using Some r p by (simp add: sendPADT_def k Let_def send_discovery_def)
      have "frames ?d = frames c @ [] @ [(discoverySocket k', p, plen p + HDR_SIZE)] \<or> frames ?d = frames c @ [] @ []"
        by (simp add: sendPacket_def Let_def)
      then show ?thesis unfolding d sends.simps using g by (metis empty_iff list.set(1))
    qed
  qed
qed

lemma fatal_exit:
  "in_session k c \<Longrightarrow> sends k (frames c) (rp_fatal env s c)"
  "in_session k c \<Longrightarrow> sends k (frames c) (fatalSys env c)"
  "in_session k c \<Longrightarrow> sends k (frames c) (sigPADT env i c)"
  by (simp_all add: rp_fatal_def fatalSys_def sigPADT_def sendPADTf_def padt_exit)

lemma in_session_upd:
  "in_session k c \<Longrightarrow> in_session k (c\<lparr>PPPState := a\<rparr>)" "in_session k c \<Longrightarrow> in_session k (c\<lparr>PPPPacketSize := b\<rparr>)"
  "in_session k c \<Longrightarrow> in_session k (c\<lparr>PPPXorValue := x\<rparr>)" "in_session k c \<Longrightarrow> in_session k (c\<lparr>ppp_out := o1\<rparr>)"
  "in_session k c \<Longrightarrow> in_session k (c\<lparr>packet := (packet c)\<lparr>payload := pl\<rparr>\<rparr>)"
  by (simp_all add: in_session_def)

lemma sendSessionPacket_sends:
  assumes "in_session k c"
  shows "sends k (frames c) (sendSessionPacket env len c)"
proof (cases "if optClampMSS c \<noteq> 0 then clampMSS (c_big env) ((packet c)\<lparr>plen := len mod 65536\<rparr>) (optClampMSS c) else Some (payload (packet c))")
  case None
  then show ?thesis by (cases "optClampMSS c = 0") (simp_all add: sendSessionPacket_def Let_def)
next
  case (Some pl)
  let ?p = "(packet c)\<lparr>plen := len mod 65536, payload := pl\<rparr>"
  have f: "session_frame k (sessionSocket (conn c), ?p, len + HDR_SIZE)" using assms by (simp add: session_frame_def in_session_def)
  have s: "sendSessionPacket env len c = (case sendPacket env (sessionSocket (conn c)) ?p (len + HDR_SIZE) (c\<lparr>packet := ?p\<rparr>) of
          (r, c) \<Rightarrow> (case r of Sent \<Rightarrow> Run c | No_buffers \<Rightarrow> Run c | Send_failed \<Rightarrow> Exit EXIT_FAILURE c))"
    using Some by (cases "optClampMSS c = 0") (auto simp: sendSessionPacket_def Let_def)
  show ?thesis
  proof (cases "send_result env (attempts c)")
    case Sent
    then show ?thesis using f assms by (simp add: s sendPacket_def Let_def in_session_def)
  qed (use assms in \<open>simp_all add: s sendPacket_def Let_def in_session_def\<close>)
qed

lemma ppp_byte_sends:
  assumes s: "in_session k c"
  shows "sends k (frames c) (ppp_byte env x c)"
proof (cases "PPPState c")
  case STATE_BUILDING_PACKET
  consider "x = FRAME_ESC" | "x \<noteq> FRAME_ESC" "x = FRAME_FLAG" | "x \<noteq> FRAME_ESC" "x \<noteq> FRAME_FLAG" by blast
  then show ?thesis
  proof cases
    case 1
    then show ?thesis using s STATE_BUILDING_PACKET by (simp add: ppp_byte_def build_char_def in_session_upd)
  next
    case 2
    have "sends k (frames c) (if PPPPacketSize c < 2 then rp_fatal env m c else Run c)" for m
      using s fatal_exit(1) by simp
    then have "sends k (frames c) (run_bind (if PPPPacketSize c < 2 then rp_fatal env m c else Run c) (\<lambda>c.
        run_bind (sendSessionPacket env (PPPPacketSize c - 2) c) (\<lambda>c.
          Run (c\<lparr>PPPPacketSize := 0, PPPXorValue := 0, PPPState := STATE_WAITFOR_FRAME_ADDR\<rparr>))))" for m
      by (rule sends_bind) (rule sends_bind [OF sendSessionPacket_sends], simp_all add: in_session_upd)
    then show ?thesis using 2 STATE_BUILDING_PACKET by (simp add: ppp_byte_def build_char_def)
  next
    case 3
    then show ?thesis using s STATE_BUILDING_PACKET
      by (cases "wr_bytes (payload (packet c)) (PPPPacketSize c) [x XOR PPPXorValue c]")
        (simp_all add: ppp_byte_def build_char_def in_session_upd)
  qed
qed (use s in \<open>simp_all add: ppp_byte_def in_session_upd\<close>)

lemma ppp_bytes_sends: "in_session k c \<Longrightarrow> sends k (frames c) (ppp_bytes env bs c)"
  by (induction bs arbitrary: c) (simp_all add: sends_bind ppp_byte_sends)

lemma readFromPPP_sends:
  assumes "in_session k c"
  shows "sends k (frames c) (asyncReadFromPPP env r c)" "sends k (frames c) (syncReadFromPPP env r c)"
proof -
  show "sends k (frames c) (asyncReadFromPPP env r c)"
    using assms padt_exit fatal_exit ppp_bytes_sends
    by (simp add: asyncReadFromPPP_def async_loop_bytes split: ppp_read.split)
  show "sends k (frames c) (syncReadFromPPP env r c)"
  proof (cases r)
    case (Read bs)
    show ?thesis
    proof (cases "bs = []")
      case False
      show ?thesis
      proof (cases "wr_bytes (payload (packet c)) 0 (drop 2 bs)")
        case (Some pl)
        let ?c = "c\<lparr>packet := (packet c)\<lparr>payload := pl\<rparr>\<rparr>"
        have "in_session k ?c" "frames ?c = frames c" using assms by (simp_all add: in_session_upd)
        then show ?thesis using Read False Some fatal_exit(1) [of k ?c] sendSessionPacket_sends [of k ?c]
          by (simp add: syncReadFromPPP_def Let_def)
      qed (use Read False in \<open>simp add: syncReadFromPPP_def\<close>)
    qed (use Read assms padt_exit in \<open>simp add: syncReadFromPPP_def\<close>)
  qed (use assms fatal_exit in \<open>simp add: syncReadFromPPP_def\<close>)
qed

lemma write_ppp_sends: "in_session k c \<Longrightarrow> sends k (frames c) (write_ppp env bs c)"
  using fatal_exit by (simp add: write_ppp_def in_session_upd)

lemma readFromEth_sends:
  assumes "in_session k c"
  shows "sends k (frames c) (asyncReadFromEth env r c)" "sends k (frames c) (syncReadFromEth env r c)"
  unfolding asyncReadFromEth_def syncReadFromEth_def
  using assms write_ppp_sends
  by (cases "session_payload env r c"; auto split: option.split)+

lemma sessionDiscoveryPacket_sends:
  assumes "in_session k c"
  shows "sends k (frames c) (sessionDiscoveryPacket env r c)"
proof (cases r)
  case (Recv p len)
  show ?thesis
    using assms padt_exit Recv
    by (cases "parsePacket p (\<lambda>_ _ s. s) ()") (simp_all add: sessionDiscoveryPacket_def)
qed (use assms in \<open>simp add: sessionDiscoveryPacket_def\<close>)

lemma session_step_sends:
  assumes "in_session k c"
  shows "sends k (frames c) (session_step env ev c)"
proof (cases ev)
  case (Ready ppp eth disc)
  have 1: "sends k (frames c) (case ppp of None \<Rightarrow> Run c
      | Some r \<Rightarrow> if synchronous (conn c) then syncReadFromPPP env r c else asyncReadFromPPP env r c)"
    if "in_session k c" for c
    using that readFromPPP_sends by (simp split: option.split)
  have 2: "sends k (frames c) (case eth of None \<Rightarrow> Run c
      | Some r \<Rightarrow> if synchronous (conn c) then syncReadFromEth env r c else asyncReadFromEth env r c)"
    if "in_session k c" for c
    using that readFromEth_sends by (simp split: option.split)
  have 3: "sends k (frames c) (if discoverySocket (conn c) \<ge> 0
          then (case disc of None \<Rightarrow> Run c | Some r \<Rightarrow> sessionDiscoveryPacket env r c) else Run c)"
    if "in_session k c" for c
    using that sessionDiscoveryPacket_sends by (simp split: option.split)
  show ?thesis unfolding session_step_def Ready session_event.case
    by (rule sends_bind [OF 1 [OF assms]], rule sends_bind [OF 2], assumption, rule 3)
qed (use assms padt_exit fatal_exit in \<open>simp_all add: session_step_def\<close>)

lemma session_loop_sends: "in_session k c \<Longrightarrow> sends k (frames c) (session_loop env evs c)"
proof (induction evs arbitrary: c)
  case Nil
  then show ?case by simp
next
  case (Cons e evs)
  then show ?case by (simp add: sends_bind session_step_sends)
qed

text \<open>
  C24: all that a session sends is its own. Whatever the PPP daemon, the network and the signals
  bring, every frame sent from the start of the session on is a session packet with the peer's and
  the client's addresses and the session number, except that the last one before an exit may be a
  PADT; there is at most one, for that session, to that peer, and nothing follows it.
\<close>

theorem session_sends_own:
  assumes "session_run env evs c = Exit n c' \<or> session_run env evs c = Wait c'"
  shows "\<exists>fs gs. frames c' = frames c @ fs @ gs \<and>
    (\<forall>f \<in> set fs. session_frame (conn (session_start env c)) f) \<and>
    (gs = [] \<or> (\<exists>g. gs = [g] \<and> padt_frame (conn (session_start env c)) g \<and> session_run env evs c = Exit n c'))"
proof -
  have "in_session (conn (session_start env c)) (session_start env c)" "frames (session_start env c) = frames c"
    by (simp_all add: session_start_def in_session_def initPPP_def upd_conn_def split_beta)
  then have "sends (conn (session_start env c)) (frames c) (session_run env evs c)"
    using session_loop_sends unfolding session_run_def by metis
  then show ?thesis using assms by auto
qed

theorem session_sends_own_witness:
  "\<exists>c' fs gs. session_run demo_client_env [Inactivity] demo_client = Exit EXIT_FAILURE c' \<and>
     frames c' = frames demo_client @ fs @ gs \<and>
     (\<forall>f \<in> set fs. session_frame (conn (session_start demo_client_env demo_client)) f)"
proof -
  let ?c = "session_start demo_client_env demo_client"
  have "sendPADT demo_client_env (Some (ascii ''RP-PPPoE: Inactivity timeout'')) ?c \<noteq> Fault"
    by (rule sendPADT_no_fault) (auto simp: demo_client_env_def)
  then obtain c1 where "sendPADT demo_client_env (Some (ascii ''RP-PPPoE: Inactivity timeout'')) ?c = Run c1"
    by (auto simp: sendPADT_def send_discovery_def or_fault_def Let_def split: option.splits)
  then have e: "session_run demo_client_env [Inactivity] demo_client = Exit EXIT_FAILURE c1"
    by (simp add: session_run_def session_step_def)
  then show ?thesis using session_sends_own [of demo_client_env "[Inactivity]" demo_client EXIT_FAILURE c1] by blast
qed

section \<open>Examples of discovery\<close>

theorem requests_carry_tags_witness:
  "\<exists>p. sendPADI demo_client_env demo_client = send_discovery demo_client_env p demo_client \<and> code p = CODE_PADI \<and>
     tags_of p = Some [\<lparr>tag_type = TAG_SERVICE_NAME, tag_data = []\<rparr>]"
proof -
  have "service_tag (conn demo_client) = \<lparr>tag_type = TAG_SERVICE_NAME, tag_data = []\<rparr>"
    "padi_tags demo_client_env (conn demo_client) = [\<lparr>tag_type = TAG_SERVICE_NAME, tag_data = []\<rparr>]"
    by (simp_all add: service_tag_def padi_tags_def demo_client_defs)
  then show ?thesis
    using requests_carry_tags [of demo_client demo_client_env]
    by (simp add: pppoe_consts) (auto simp: demo_client_defs)
qed

theorem discovery_gives_up_witness:
  "\<exists>c c'. discovery demo_client_env [Select_timeout, Received (demo_frame CODE_PADS []) 20, Select_timeout, Select_timeout] c =
      (Exit EXIT_FAILURE c', []) \<and> waits c' = waits c @ [5, 10, 20]"
proof -
  let ?c = "demo_client\<lparr>conn := demo_conn\<lparr>conn_session := 0\<rparr>\<rparr>"
  have "\<exists>c'. discovery demo_client_env ([] @ Select_timeout # [Received (demo_frame CODE_PADS []) 20] @ Select_timeout # [] @ Select_timeout # []) ?c =
      (Exit EXIT_FAILURE c', []) \<and>
    waits c' = waits ?c @ (if printACNames (conn ?c) then [5, 5, 5] else [5, 10, 20]) \<and>
    attempts c' = attempts ?c + (if length (encs tag_bytes (padi_tags demo_client_env (conn ?c))) \<le> MAX_PPPOE_PAYLOAD then 3 else 0)"
    by (rule discovery_gives_up)
      (simp_all add: demo_client_env_def demo_conn_def service_tag_def open_discovery_def upd_conn_def packetIsForMe_def
        CODE_PADO_def CODE_PADS_def)
  moreover have "\<not> printACNames (conn ?c)" by (simp add: demo_conn_def)
  ultimately have "\<exists>c'. discovery demo_client_env [Select_timeout, Received (demo_frame CODE_PADS []) 20, Select_timeout, Select_timeout] ?c =
      (Exit EXIT_FAILURE c', []) \<and> waits c' = waits ?c @ [5, 10, 20]" by auto
  then show ?thesis by (rule exI)
qed

theorem session_from_offer_witness:
  "\<exists>pado pads c'. discovery demo_client_env [Received pado 100, Received pads 100] demo_client = (Run c', []) \<and>
     good_PADO demo_client_env (conn (open_discovery demo_client_env demo_client)) (peerEth (conn c')) (Received pado 100) \<and>
     good_PADS demo_client_env (conn (open_discovery demo_client_env demo_client)) (peerEth (conn c')) (conn_session (conn c'))
       (Received pads 100)"
proof -
  let ?t = "[\<lparr>tag_type = TAG_AC_NAME, tag_data = [65]\<rparr>, \<lparr>tag_type = TAG_SERVICE_NAME, tag_data = [] :: u8 list\<rparr>]"
  let ?pado = "demo_frame CODE_PADO (encs tag_bytes ?t)" and ?pads = "demo_frame CODE_PADS (encs tag_bytes [])"
  have ok: "\<forall>t \<in> set ?t. tag_ok t" "length (encs tag_bytes ?t) \<le> MAX_PPPOE_PAYLOAD"
    by (simp_all add: tag_ok_def tag_consts pppoe_consts)
  have small: "length (encs tag_bytes ?t) = 9" by (simp add: pppoe_consts)
  define c0 where "c0 = open_discovery demo_client_env demo_client"
  have k0: "conn c0 = demo_conn" by (simp add: c0_def open_discovery_def upd_conn_def demo_client_defs)
  have st: "service_tag demo_conn = \<lparr>tag_type = TAG_SERVICE_NAME, tag_data = []\<rparr>" by (simp add: service_tag_def demo_conn_def)
  have pid: "length (pid demo_client_env) \<le> 16" by (simp add: demo_client_env_def)
  obtain c1 where c1: "sendPADI demo_client_env c0 = Run c1" "conn c1 = demo_conn"
    by (rule sendPADI_quiet [of c0 demo_client_env]) (simp_all add: k0 st pid)
  have w1: "\<exists>c2. waitForPADO demo_client_env PADI_TIMEOUT [Received ?pado 100, Received ?pads 100]
      (upd_conn (\<lambda>k. k\<lparr>discoveryState := STATE_SENT_PADI\<rparr>) c1) = (Run c2, [Received ?pads 100]) \<and>
      conn c2 = demo_conn\<lparr>numPADOs := 1, discoveryState := STATE_RECEIVED_PADO\<rparr>"
    using PADO_taken [OF _ _ _ _ _ _ _ demo_frame_tags [OF ok, of CODE_PADO], of 100] c1(2) small
    by (simp add: waitForPADO_def upd_conn_def bogus_length_def demo_unicast demo_conn_def pppoe_consts Let_def)
  then obtain c2 where c2: "waitForPADO demo_client_env PADI_TIMEOUT [Received ?pado 100, Received ?pads 100]
      (upd_conn (\<lambda>k. k\<lparr>discoveryState := STATE_SENT_PADI\<rparr>) c1) = (Run c2, [Received ?pads 100])"
    "conn c2 = demo_conn\<lparr>numPADOs := 1, discoveryState := STATE_RECEIVED_PADO\<rparr>" by blast
  have p1: "padi_loop demo_client_env 0 PADI_TIMEOUT [Received ?pado 100, Received ?pads 100] c0 = (Run c2, [Received ?pads 100])"
    using c1 c2 by (subst padi_loop.simps) (simp add: run_inputs_def MAX_PADI_ATTEMPTS_def demo_conn_def Let_def)
  have st2: "service_tag (conn c2) = \<lparr>tag_type = TAG_SERVICE_NAME, tag_data = []\<rparr>"
    by (simp add: c2(2) service_tag_def demo_conn_def)
  obtain c3 where c3: "sendPADR demo_client_env c2 = Run c3"
  proof (rule start_frame [of c2 demo_client_env])
    fix b
    assume b: "sendPADR demo_client_env c2 =
       or_fault (copy_saved (cookie (conn c2)) b) (\<lambda>r. case r of None \<Rightarrow> Run c2 | Some b \<Rightarrow>
       or_fault (copy_saved (relayId (conn c2)) b) (\<lambda>r. case r of None \<Rightarrow> Run c2 | Some b \<Rightarrow>
         send_discovery demo_client_env
           (discovery_frame (Eth_PPPOE_Discovery c2) (myEth (conn c2)) (peerEth (conn c2)) CODE_PADR 0 b) c2))"
    have "copy_saved (cookie (conn c2)) b = Some (Some b)" "copy_saved (relayId (conn c2)) b = Some (Some b)"
      by (simp_all add: c2(2) demo_conn_def copy_saved_def)
    then show thesis using b that by (simp add: send_discovery_def)
  qed (use that st2 pid in simp_all)
  note c3 = c3 send_keeps_conn(3) [OF c3]
  have "\<exists>c4. waitForPADS demo_client_env PADI_TIMEOUT [Received ?pads 100]
      (upd_conn (\<lambda>k. k\<lparr>discoveryState := STATE_SENT_PADR\<rparr>) c3) = (Run c4, []) \<and> discoveryState (conn c4) = STATE_SESSION"
    using c3 c2(2)
    by (simp add: parsePacket_tags [OF demo_frame_tags [of "[]" CODE_PADS, simplified]] waitForPADS_def waitForPADS_loop.simps(2) upd_conn_def bogus_length_def packetIsForMe_def demo_conn_def pppoe_consts Let_def)
  then obtain c4 where c4: "waitForPADS demo_client_env PADI_TIMEOUT [Received ?pads 100]
      (upd_conn (\<lambda>k. k\<lparr>discoveryState := STATE_SENT_PADR\<rparr>) c3) = (Run c4, [])" "discoveryState (conn c4) = STATE_SESSION" by blast
  have p2: "padr_loop demo_client_env 0 PADI_TIMEOUT [Received ?pads 100] c2 = (Run c4, [])"
    using c3 c4 by (subst padr_loop.simps) (simp add: run_inputs_def MAX_PADI_ATTEMPTS_def Let_def)
  have sk: "\<not> skipDiscovery (conn demo_client)" "\<not> skipDiscovery (conn c0)" "\<not> printACNames (conn c2)"
    by (simp_all add: k0 c2(2) demo_client_def demo_conn_def)
  have d: "discovery demo_client_env [Received ?pado 100, Received ?pads 100] demo_client =
      (Run (upd_conn (\<lambda>k. k\<lparr>discoveryState := STATE_SESSION\<rparr>) c4), [])"
    using p1 p2 sk by (simp add: discovery_def c0_def [symmetric] run_inputs_def Let_def)
  have "\<exists>a i b j. [Received ?pado 100, Received ?pads 100] = a @ i # b @ j # [] \<and>
    good_PADO demo_client_env (conn c0) (peerEth (conn (upd_conn (\<lambda>k. k\<lparr>discoveryState := STATE_SESSION\<rparr>) c4))) i \<and>
    good_PADS demo_client_env (conn c0) (peerEth (conn (upd_conn (\<lambda>k. k\<lparr>discoveryState := STATE_SESSION\<rparr>) c4)))
      (conn_session (conn (upd_conn (\<lambda>k. k\<lparr>discoveryState := STATE_SESSION\<rparr>) c4))) j"
    using session_from_offer [OF d sk(1)] unfolding c0_def by blast
  then obtain a i b j where "[Received ?pado 100, Received ?pads 100] = a @ i # b @ [j]"
    "good_PADO demo_client_env (conn c0) (peerEth (conn (upd_conn (\<lambda>k. k\<lparr>discoveryState := STATE_SESSION\<rparr>) c4))) i"
    "good_PADS demo_client_env (conn c0) (peerEth (conn (upd_conn (\<lambda>k. k\<lparr>discoveryState := STATE_SESSION\<rparr>) c4)))
      (conn_session (conn (upd_conn (\<lambda>k. k\<lparr>discoveryState := STATE_SESSION\<rparr>) c4))) j" by blast
  moreover from this(1) have "i = Received ?pado 100 \<and> j = Received ?pads 100"
    by (cases a; cases b) auto
  ultimately show ?thesis using d unfolding c0_def by blast
qed

end
