(* ===== verification/Md5.thy ===== *)
theory Md5
  imports Prelude
begin

text \<open>
  MD5 as the authenticator uses it for RADIUS (\<open>rg/vendor/ralink/8021X/md5.c\<close>; the PPPoE server
  has the same routines in \<open>rg/pkg/pppoe-server/src/md5.c\<close>): the context that takes the message in
  pieces, the unrolled transformation of a block, and the keyed digests. The specification is that
  of RFC 1321, a digest of the whole message. \<open>byteReverse\<close> makes the words of a block those of
  the little-endian bytes on every machine; here they are read that way.
\<close>

section \<open>The transformation of a block\<close>

datatype reg = RA | RB | RC | RD

text \<open>The four functions, with the optimised forms of the source.\<close>

definition F1 :: "u32 \<Rightarrow> u32 \<Rightarrow> u32 \<Rightarrow> u32" where "F1 x y z = z XOR (x AND (y XOR z))"
definition F2 :: "u32 \<Rightarrow> u32 \<Rightarrow> u32 \<Rightarrow> u32" where "F2 x y z = F1 z x y"
definition F3 :: "u32 \<Rightarrow> u32 \<Rightarrow> u32 \<Rightarrow> u32" where "F3 x y z = x XOR y XOR z"
definition F4 :: "u32 \<Rightarrow> u32 \<Rightarrow> u32 \<Rightarrow> u32" where "F4 x y z = y XOR (x OR NOT z)"

type_synonym regs = "reg \<Rightarrow> u32"

type_synonym step = "(u32 \<Rightarrow> u32 \<Rightarrow> u32 \<Rightarrow> u32) \<times> reg \<times> reg \<times> reg \<times> reg \<times> nat \<times> u32 \<times> nat"

definition rotl :: "u32 \<Rightarrow> nat \<Rightarrow> u32" where
  "rotl w s = push_bit s w OR drop_bit (32 - s) w"

fun MD5STEP :: "u32 list \<Rightarrow> step \<Rightarrow> regs \<Rightarrow> regs" where
  "MD5STEP data (f, w, x, y, z, i, k, s) r =
     (let v = r w + (f (r x) (r y) (r z) + (data ! i + k)) in r(w := rotl v s + r x))"

text \<open>The 64 steps in the order of the source: function, registers, word, constant, shift.\<close>

definition md5_steps :: "step list" where
  "md5_steps = [
     (F1, RA, RB, RC, RD, 0, 0xd76aa478, 7), (F1, RD, RA, RB, RC, 1, 0xe8c7b756, 12),
     (F1, RC, RD, RA, RB, 2, 0x242070db, 17), (F1, RB, RC, RD, RA, 3, 0xc1bdceee, 22),
     (F1, RA, RB, RC, RD, 4, 0xf57c0faf, 7), (F1, RD, RA, RB, RC, 5, 0x4787c62a, 12),
     (F1, RC, RD, RA, RB, 6, 0xa8304613, 17), (F1, RB, RC, RD, RA, 7, 0xfd469501, 22),
     (F1, RA, RB, RC, RD, 8, 0x698098d8, 7), (F1, RD, RA, RB, RC, 9, 0x8b44f7af, 12),
     (F1, RC, RD, RA, RB, 10, 0xffff5bb1, 17), (F1, RB, RC, RD, RA, 11, 0x895cd7be, 22),
     (F1, RA, RB, RC, RD, 12, 0x6b901122, 7), (F1, RD, RA, RB, RC, 13, 0xfd987193, 12),
     (F1, RC, RD, RA, RB, 14, 0xa679438e, 17), (F1, RB, RC, RD, RA, 15, 0x49b40821, 22),
     (F2, RA, RB, RC, RD, 1, 0xf61e2562, 5), (F2, RD, RA, RB, RC, 6, 0xc040b340, 9),
     (F2, RC, RD, RA, RB, 11, 0x265e5a51, 14), (F2, RB, RC, RD, RA, 0, 0xe9b6c7aa, 20),
     (F2, RA, RB, RC, RD, 5, 0xd62f105d, 5), (F2, RD, RA, RB, RC, 10, 0x02441453, 9),
     (F2, RC, RD, RA, RB, 15, 0xd8a1e681, 14), (F2, RB, RC, RD, RA, 4, 0xe7d3fbc8, 20),
     (F2, RA, RB, RC, RD, 9, 0x21e1cde6, 5), (F2, RD, RA, RB, RC, 14, 0xc33707d6, 9),
     (F2, RC, RD, RA, RB, 3, 0xf4d50d87, 14), (F2, RB, RC, RD, RA, 8, 0x455a14ed, 20),
     (F2, RA, RB, RC, RD, 13, 0xa9e3e905, 5), (F2, RD, RA, RB, RC, 2, 0xfcefa3f8, 9),
     (F2, RC, RD, RA, RB, 7, 0x676f02d9, 14), (F2, RB, RC, RD, RA, 12, 0x8d2a4c8a, 20),
     (F3, RA, RB, RC, RD, 5, 0xfffa3942, 4), (F3, RD, RA, RB, RC, 8, 0x8771f681, 11),
     (F3, RC, RD, RA, RB, 11, 0x6d9d6122, 16), (F3, RB, RC, RD, RA, 14, 0xfde5380c, 23),
     (F3, RA, RB, RC, RD, 1, 0xa4beea44, 4), (F3, RD, RA, RB, RC, 4, 0x4bdecfa9, 11),
     (F3, RC, RD, RA, RB, 7, 0xf6bb4b60, 16), (F3, RB, RC, RD, RA, 10, 0xbebfbc70, 23),
     (F3, RA, RB, RC, RD, 13, 0x289b7ec6, 4), (F3, RD, RA, RB, RC, 0, 0xeaa127fa, 11),
     (F3, RC, RD, RA, RB, 3, 0xd4ef3085, 16), (F3, RB, RC, RD, RA, 6, 0x04881d05, 23),
     (F3, RA, RB, RC, RD, 9, 0xd9d4d039, 4), (F3, RD, RA, RB, RC, 12, 0xe6db99e5, 11),
     (F3, RC, RD, RA, RB, 15, 0x1fa27cf8, 16), (F3, RB, RC, RD, RA, 2, 0xc4ac5665, 23),
     (F4, RA, RB, RC, RD, 0, 0xf4292244, 6), (F4, RD, RA, RB, RC, 7, 0x432aff97, 10),
     (F4, RC, RD, RA, RB, 14, 0xab9423a7, 15), (F4, RB, RC, RD, RA, 5, 0xfc93a039, 21),
     (F4, RA, RB, RC, RD, 12, 0x655b59c3, 6), (F4, RD, RA, RB, RC, 3, 0x8f0ccc92, 10),
     (F4, RC, RD, RA, RB, 10, 0xffeff47d, 15), (F4, RB, RC, RD, RA, 1, 0x85845dd1, 21),
     (F4, RA, RB, RC, RD, 8, 0x6fa87e4f, 6), (F4, RD, RA, RB, RC, 15, 0xfe2ce6e0, 10),
     (F4, RC, RD, RA, RB, 6, 0xa3014314, 15), (F4, RB, RC, RD, RA, 13, 0x4e0811a1, 21),
     (F4, RA, RB, RC, RD, 4, 0xf7537e82, 6), (F4, RD, RA, RB, RC, 11, 0xbd3af235, 10),
     (F4, RC, RD, RA, RB, 2, 0x2ad7d2bb, 15), (F4, RB, RC, RD, RA, 9, 0xeb86d391, 21)]"

definition MD5Transform :: "u32 list \<Rightarrow> u32 list \<Rightarrow> u32 list" where
  "MD5Transform buf data =
     (let r = fold (MD5STEP data) md5_steps
        (\<lambda>q. case q of RA \<Rightarrow> buf ! 0 | RB \<Rightarrow> buf ! 1 | RC \<Rightarrow> buf ! 2 | RD \<Rightarrow> buf ! 3) in
      [buf ! 0 + r RA, buf ! 1 + r RB, buf ! 2 + r RC, buf ! 3 + r RD])"

section \<open>The transformation of RFC 1321\<close>

definition rfc_T :: "u32 list" where
  "rfc_T = [
     0xd76aa478, 0xe8c7b756, 0x242070db, 0xc1bdceee, 0xf57c0faf, 0x4787c62a, 0xa8304613, 0xfd469501,
     0x698098d8, 0x8b44f7af, 0xffff5bb1, 0x895cd7be, 0x6b901122, 0xfd987193, 0xa679438e, 0x49b40821,
     0xf61e2562, 0xc040b340, 0x265e5a51, 0xe9b6c7aa, 0xd62f105d, 0x02441453, 0xd8a1e681, 0xe7d3fbc8,
     0x21e1cde6, 0xc33707d6, 0xf4d50d87, 0x455a14ed, 0xa9e3e905, 0xfcefa3f8, 0x676f02d9, 0x8d2a4c8a,
     0xfffa3942, 0x8771f681, 0x6d9d6122, 0xfde5380c, 0xa4beea44, 0x4bdecfa9, 0xf6bb4b60, 0xbebfbc70,
     0x289b7ec6, 0xeaa127fa, 0xd4ef3085, 0x04881d05, 0xd9d4d039, 0xe6db99e5, 0x1fa27cf8, 0xc4ac5665,
     0xf4292244, 0x432aff97, 0xab9423a7, 0xfc93a039, 0x655b59c3, 0x8f0ccc92, 0xffeff47d, 0x85845dd1,
     0x6fa87e4f, 0xfe2ce6e0, 0xa3014314, 0x4e0811a1, 0xf7537e82, 0xbd3af235, 0x2ad7d2bb, 0xeb86d391]"

definition rfc_f :: "nat \<Rightarrow> u32 \<Rightarrow> u32 \<Rightarrow> u32 \<Rightarrow> u32" where
  "rfc_f i x y z =
     (if i < 16 then (x AND y) OR (NOT x AND z)
      else if i < 32 then (x AND z) OR (y AND NOT z)
      else if i < 48 then x XOR y XOR z
      else y XOR (x OR NOT z))"

definition rfc_word :: "nat \<Rightarrow> nat" where
  "rfc_word i =
     (if i < 16 then i else if i < 32 then (5 * i + 1) mod 16 else if i < 48 then (3 * i + 5) mod 16
      else 7 * i mod 16)"

definition rfc_shift :: "nat \<Rightarrow> nat" where
  "rfc_shift i = [[7, 12, 17, 22], [5, 9, 14, 20], [4, 11, 16, 23], [6, 10, 15, 21]] ! (i div 16) ! (i mod 4)"

text \<open>One operation: the four registers move on by one place.\<close>

fun rfc_step :: "u32 list \<Rightarrow> nat \<Rightarrow> u32 \<times> u32 \<times> u32 \<times> u32 \<Rightarrow> u32 \<times> u32 \<times> u32 \<times> u32" where
  "rfc_step data i (a, b, c, d) =
     (d, b + rotl (a + rfc_f i b c d + data ! rfc_word i + rfc_T ! i) (rfc_shift i), b, c)"

definition rfc_transform :: "u32 list \<Rightarrow> u32 list \<Rightarrow> u32 list" where
  "rfc_transform buf data =
     (case fold (rfc_step data) [0..<64] (buf ! 0, buf ! 1, buf ! 2, buf ! 3) of
        (a, b, c, d) \<Rightarrow> [buf ! 0 + a, buf ! 1 + b, buf ! 2 + c, buf ! 3 + d])"

lemma F_spec:
  "F1 x y z = (x AND y) OR (NOT x AND z)" "F2 x y z = (x AND z) OR (y AND NOT z)"
  "F3 x y z = x XOR y XOR z" "F4 x y z = y XOR (x OR NOT z)"
  unfolding F1_def F2_def F3_def F4_def by (auto intro!: bit_word_eqI simp: bit_simps)

text \<open>The register that plays the part of \<open>a\<close>, \<open>b\<close>, \<open>c\<close>, \<open>d\<close> in step \<open>i\<close>.\<close>

definition reg_at :: "nat \<Rightarrow> reg" where
  "reg_at n = [RA, RD, RC, RB] ! (n mod 4)"

definition code_step :: "nat \<Rightarrow> step" where
  "code_step i = ([F1, F2, F3, F4] ! (i div 16), reg_at i, reg_at (Suc (Suc (Suc i))), reg_at (Suc (Suc i)), reg_at (Suc i),
     rfc_word i, rfc_T ! i, rfc_shift i)"

lemma md5_steps_spec: "md5_steps = map code_step [0..<64]"
proof -
  have "[0..<64] = 0 # 1 # [2..<64]" by (simp add: upt_rec)
  then show ?thesis
    by (simp add: md5_steps_def code_step_def reg_at_def rfc_word_def rfc_T_def rfc_shift_def upt_rec_numeral)
qed


lemma reg_at_mod: "reg_at (Suc (Suc (Suc (Suc n)))) = reg_at n"
proof -
  have "Suc (Suc (Suc (Suc n))) mod 4 = n mod 4" by presburger
  then show ?thesis by (simp only: reg_at_def)
qed

lemma reg_at_neq: "reg_at (Suc n) \<noteq> reg_at n" "reg_at (Suc (Suc n)) \<noteq> reg_at n" "reg_at (Suc (Suc (Suc n))) \<noteq> reg_at n"
proof -
  have e: "Suc n mod 4 = Suc (n mod 4) mod 4" "Suc (Suc n) mod 4 = Suc (Suc (n mod 4)) mod 4"
    by (simp_all add: mod_Suc_eq mod_Suc_Suc_eq)
  have e3: "Suc (Suc (Suc n)) mod 4 = Suc (Suc (Suc (n mod 4))) mod 4" by (metis mod_Suc_eq)
  have "n mod 4 = 0 \<or> n mod 4 = 1 \<or> n mod 4 = 2 \<or> n mod 4 = 3" by linarith
  then show "reg_at (Suc n) \<noteq> reg_at n" "reg_at (Suc (Suc n)) \<noteq> reg_at n" "reg_at (Suc (Suc (Suc n))) \<noteq> reg_at n"
    unfolding reg_at_def e(1) e(2) e3 by (elim disjE; simp)+
qed

text \<open>The four registers as the specification has them before step \<open>n\<close>.\<close>

definition turned :: "nat \<Rightarrow> regs \<Rightarrow> u32 \<times> u32 \<times> u32 \<times> u32" where
  "turned n r = (r (reg_at n), r (reg_at (Suc (Suc (Suc n)))), r (reg_at (Suc (Suc n))), r (reg_at (Suc n)))"

lemma code_f: "n < 64 \<Longrightarrow> ([F1, F2, F3, F4] ! (n div 16)) x y z = rfc_f n x y z"
proof -
  assume "n < 64"
  then consider "n < 16" "n div 16 = 0" | "\<not> n < 16" "n < 32" "n div 16 = 1" |
    "\<not> n < 16" "\<not> n < 32" "n < 48" "n div 16 = 2" | "\<not> n < 16" "\<not> n < 32" "\<not> n < 48" "n div 16 = 3"
    by linarith
  then show ?thesis by cases (simp_all add: rfc_f_def F_spec)
qed

lemma turned_step:
  assumes "n < 64"
  shows "turned (Suc n) (MD5STEP data (code_step n) r) = rfc_step data n (turned n r)"
  using reg_at_neq [of n] reg_at_mod [of n] code_f [OF assms]
  by (simp add: turned_def code_step_def Let_def ac_simps)

lemma turned_fold: "n \<le> 64 \<Longrightarrow> turned n (fold (MD5STEP data) (map code_step [0..<n]) r) = fold (rfc_step data) [0..<n] (turned 0 r)"
  by (induction n) (simp_all add: turned_step)

text \<open>
  The unrolled transformation is the one of RFC 1321. The 64 steps of \<open>MD5Transform\<close>, with the
  registers renamed instead of moved and with the shortened functions, compute for every state and
  block what the loop of the standard computes.
\<close>

lemma MD5Transform_is_rfc: "MD5Transform buf data = rfc_transform buf data"
proof -
  define r0 where "r0 = (\<lambda>q. case q of RA \<Rightarrow> buf ! 0 | RB \<Rightarrow> buf ! 1 | RC \<Rightarrow> buf ! 2 | RD \<Rightarrow> buf ! 3)"
  have "turned 0 r0 = (buf ! 0, buf ! 1, buf ! 2, buf ! 3)" by (simp add: turned_def r0_def reg_at_def)
  then have "turned 64 (fold (MD5STEP data) md5_steps r0) = fold (rfc_step data) [0..<64] (buf ! 0, buf ! 1, buf ! 2, buf ! 3)"
    using turned_fold [of 64 data r0] by (simp add: md5_steps_spec)
  moreover have "turned 64 r = (r RA, r RB, r RC, r RD)" for r by (simp add: turned_def reg_at_def)
  ultimately show ?thesis
    by (simp add: MD5Transform_def rfc_transform_def r0_def [symmetric] Let_def split: prod.split)
      (metis prod.inject)
qed

section \<open>The context\<close>

text \<open>\<open>md5_in\<close> holds the bytes that do not fill a block yet; what lies behind them is left over.\<close>

record MD5Context =
  md5_buf :: "u32 list"
  bits0 :: u32
  bits1 :: u32
  md5_in :: "u8 list"

definition le32 :: "u8 list \<Rightarrow> nat \<Rightarrow> u32" where
  "le32 b i = ucast (b ! i) OR push_bit 8 (ucast (b ! (i + 1))) OR push_bit 16 (ucast (b ! (i + 2))) OR
     push_bit 24 (ucast (b ! (i + 3)))"

definition block_words :: "u8 list \<Rightarrow> u32 list" where
  "block_words b = map (\<lambda>i. le32 b (4 * i)) [0..<16]"

definition le_bytes :: "u32 \<Rightarrow> u8 list" where
  "le_bytes w = [ucast w, ucast (drop_bit 8 w), ucast (drop_bit 16 w), ucast (drop_bit 24 w)]"

definition MD5Init :: MD5Context where
  "MD5Init = \<lparr>md5_buf = [0x67452301, 0xefcdab89, 0x98badcfe, 0x10325476], bits0 = 0, bits1 = 0,
     md5_in = replicate 64 0\<rparr>"

definition MD5_block :: "u8 list \<Rightarrow> MD5Context \<Rightarrow> MD5Context" where
  "MD5_block b ctx = ctx\<lparr>md5_in := b, md5_buf := MD5Transform (md5_buf ctx) (block_words b)\<rparr>"

function MD5_blocks :: "u8 list \<Rightarrow> MD5Context \<Rightarrow> u8 list \<times> MD5Context" where
  "MD5_blocks data ctx =
     (if length data \<ge> 64 then MD5_blocks (drop 64 data) (MD5_block (take 64 data) ctx) else (data, ctx))"
  by pat_completeness auto

termination
  by (relation "measure (length \<circ> fst)") auto

declare MD5_blocks.simps [simp del]

definition MD5Update :: "MD5Context \<Rightarrow> u8 list \<Rightarrow> MD5Context" where
  "MD5Update ctx data =
     (let len = (of_nat (length data) :: u32); t = bits0 ctx;
          b0 = t + push_bit 3 len;
          b1 = (if b0 < t then bits1 ctx + 1 else bits1 ctx) + drop_bit 29 len;
          ctx = ctx\<lparr>bits0 := b0, bits1 := b1\<rparr>;
          t = unat (drop_bit 3 t AND 0x3f) in
      if t \<noteq> 0 \<and> length data < 64 - t then
        ctx\<lparr>md5_in := take t (md5_in ctx) @ data @ drop (t + length data) (md5_in ctx)\<rparr>
      else
        let (data, ctx) = (if t \<noteq> 0
              then (drop (64 - t) data, MD5_block (take t (md5_in ctx) @ take (64 - t) data) ctx) else (data, ctx));
            (rest, ctx) = MD5_blocks data ctx in
        ctx\<lparr>md5_in := rest @ drop (length rest) (md5_in ctx)\<rparr>)"

definition MD5Final :: "MD5Context \<Rightarrow> u8 list" where
  "MD5Final ctx =
     (let count = unat (drop_bit 3 (bits0 ctx) AND 0x3f);
          p = take count (md5_in ctx) @ [0x80];
          pad = 64 - 1 - count;
          ctx = (if pad < 8
                 then (MD5_block (p @ replicate pad 0) ctx)\<lparr>md5_in := replicate 56 0\<rparr>
                 else ctx\<lparr>md5_in := p @ replicate (pad - 8) 0\<rparr>);
          words = block_words (md5_in ctx @ replicate 8 0) in
      concat (map le_bytes (MD5Transform (md5_buf ctx) (words[14 := bits0 ctx, 15 := bits1 ctx]))))"

definition md5_mac :: "u8 list \<Rightarrow> u8 list \<Rightarrow> u8 list" where
  "md5_mac key data = MD5Final (MD5Update (MD5Update (MD5Update MD5Init key) data) key)"

definition hmac_md5 :: "u8 list \<Rightarrow> u8 list \<Rightarrow> u8 list" where
  "hmac_md5 key0 data =
     (let key = (if length key0 > 64 then MD5Final (MD5Update MD5Init key0) else key0);
          k_ipad = map (\<lambda>b. b XOR 0x36) (key @ replicate (64 - length key) 0);
          k_opad = map (\<lambda>b. b XOR 0x5c) (key @ replicate (64 - length key) 0);
          mac = MD5Final (MD5Update (MD5Update MD5Init k_ipad) data) in
      MD5Final (MD5Update (MD5Update MD5Init k_opad) mac))"

section \<open>The digest of RFC 1321\<close>

text \<open>The whole message is padded to blocks, then the blocks are taken one after the other.\<close>

function rfc_blocks :: "u32 list \<Rightarrow> u8 list \<Rightarrow> u32 list" where
  "rfc_blocks buf bs = (if length bs \<ge> 64 then rfc_blocks (rfc_transform buf (block_words (take 64 bs))) (drop 64 bs) else buf)"
  by pat_completeness auto

termination
  by (relation "measure (length \<circ> snd)") auto

declare rfc_blocks.simps [simp del]

definition rfc_length :: "nat \<Rightarrow> u8 list" where
  "rfc_length n = le_bytes (word_of_nat (8 * n)) @ le_bytes (word_of_nat (8 * n div 2 ^ 32))"

definition rfc_pad :: "u8 list \<Rightarrow> u8 list" where
  "rfc_pad bs = bs @ [0x80] @ replicate ((119 - length bs mod 64) mod 64) 0 @ rfc_length (length bs)"

definition md5 :: "u8 list \<Rightarrow> u8 list" where
  "md5 bs = concat (map le_bytes (rfc_blocks [0x67452301, 0xefcdab89, 0x98badcfe, 0x10325476] (rfc_pad bs)))"


section \<open>Taking a message in pieces\<close>

lemma rfc_blocks_short: "length bs < 64 \<Longrightarrow> rfc_blocks buf bs = buf"
  by (subst rfc_blocks.simps) simp

lemma rfc_blocks_block: "length b = 64 \<Longrightarrow> rfc_blocks buf (b @ bs) = rfc_blocks (rfc_transform buf (block_words b)) bs"
  by (subst rfc_blocks.simps) simp

lemma rfc_blocks_append: "length as mod 64 = 0 \<Longrightarrow> rfc_blocks buf (as @ bs) = rfc_blocks (rfc_blocks buf as) bs"
proof (induction "length as div 64" arbitrary: as buf)
  case 0
  then have "as = []" by (metis div_mult_mod_eq add.right_neutral length_0_conv mult_zero_left)
  then show ?case by (simp add: rfc_blocks_short)
next
  case (Suc k)
  have len: "64 \<le> length as" using Suc.hyps(2) by (metis div_less not_le zero_neq_one nat.distinct(1))
  then have as: "as = take 64 as @ drop 64 as" "length (take 64 as) = 64" by simp_all
  have "k = length (drop 64 as) div 64" "length (drop 64 as) mod 64 = 0"
    using Suc.hyps(2) Suc.prems len by (simp_all add: le_div_geq le_mod_geq)
  then have "rfc_blocks b (drop 64 as @ bs) = rfc_blocks (rfc_blocks b (drop 64 as)) bs" for b
    by (rule Suc.hyps(1))
  then show ?case
    using rfc_blocks_block [OF as(2), of buf "drop 64 as @ bs"] rfc_blocks_block [OF as(2), of buf "drop 64 as"]
    by (metis as(1) append_assoc)
qed

lemma split64: "xs = take (64 * (length xs div 64)) xs @ drop (64 * (length xs div 64)) xs"
  "length (take (64 * (length xs div 64)) xs) mod 64 = 0" "length (drop (64 * (length xs div 64)) xs) = length xs mod 64"
  by (simp_all add: minus_mult_div_eq_mod min_absorb2)

lemma rfc_blocks_tail: "rfc_blocks buf (take (64 * (length bs div 64)) bs) = rfc_blocks buf bs"
proof -
  have "rfc_blocks buf bs = rfc_blocks (rfc_blocks buf (take (64 * (length bs div 64)) bs)) (drop (64 * (length bs div 64)) bs)"
    using rfc_blocks_append [OF split64(2) [of bs], of buf "drop (64 * (length bs div 64)) bs"] split64(1) [of bs] by simp
  also have "\<dots> = rfc_blocks buf (take (64 * (length bs div 64)) bs)"
    by (rule rfc_blocks_short) (simp add: split64(3))
  finally show ?thesis by simp
qed

lemma MD5_blocks_result:
  assumes "MD5_blocks data ctx = (rest, ctx')"
  shows "rest = drop (64 * (length data div 64)) data" "md5_buf ctx' = rfc_blocks (md5_buf ctx) data"
    "bits0 ctx' = bits0 ctx" "bits1 ctx' = bits1 ctx" "length (md5_in ctx) = 64 \<Longrightarrow> length (md5_in ctx') = 64"
proof -
  have "rest = drop (64 * (length data div 64)) data \<and> md5_buf ctx' = rfc_blocks (md5_buf ctx) data \<and>
    bits0 ctx' = bits0 ctx \<and> bits1 ctx' = bits1 ctx \<and> (length (md5_in ctx) = 64 \<longrightarrow> length (md5_in ctx') = 64)"
    using assms
  proof (induction data ctx rule: MD5_blocks.induct)
    case (1 data ctx)
    show ?case
    proof (cases "64 \<le> length data")
      case False
      then show ?thesis using "1.prems" by (subst (asm) MD5_blocks.simps) (auto simp: rfc_blocks_short)
    next
      case True
      have "MD5_blocks (drop 64 data) (MD5_block (take 64 data) ctx) = (rest, ctx')"
        using "1.prems" True by (subst (asm) MD5_blocks.simps) simp
      note IH = "1.IH" [OF True this]
      have d: "64 * (length data div 64) = 64 * (length (drop 64 data) div 64) + 64"
        using True by (simp add: le_div_geq)
      have "rfc_blocks (md5_buf ctx) data =
          rfc_blocks (rfc_transform (md5_buf ctx) (block_words (take 64 data))) (drop 64 data)"
        using True by (subst rfc_blocks.simps) simp
      then show ?thesis using IH True by (simp add: MD5_block_def MD5Transform_is_rfc d)
    qed
  qed
  then show "rest = drop (64 * (length data div 64)) data" "md5_buf ctx' = rfc_blocks (md5_buf ctx) data"
    "bits0 ctx' = bits0 ctx" "bits1 ctx' = bits1 ctx" "length (md5_in ctx) = 64 \<Longrightarrow> length (md5_in ctx') = 64" by blast+
qed

text \<open>What a context says of the bytes it has taken.\<close>

definition md5_init :: "u32 list" where
  "md5_init = [0x67452301, 0xefcdab89, 0x98badcfe, 0x10325476]"

definition absorbed :: "MD5Context \<Rightarrow> u8 list \<Rightarrow> bool" where
  "absorbed ctx bs \<longleftrightarrow> length (md5_in ctx) = 64 \<and> bits0 ctx = word_of_nat (8 * length bs) \<and>
     bits1 ctx = word_of_nat (8 * length bs div 2 ^ 32) \<and> md5_buf ctx = rfc_blocks md5_init bs \<and>
     take (length bs mod 64) (md5_in ctx) = drop (64 * (length bs div 64)) bs"

lemma absorbed_init: "absorbed MD5Init []"
  by (simp add: absorbed_def MD5Init_def rfc_blocks_short md5_init_def)

lemma unat_drop_bit_u32: "unat (drop_bit k (w :: u32)) = unat w div 2 ^ k"
proof -
  have "take_bit 32 (unat w) = unat w" by (rule take_bit_nat_eq_self) (use unsigned_less [of w] in simp)
  then show ?thesis by (subst unsigned_drop_bit_eq) (simp add: drop_bit_eq_div)
qed

lemma count_bits: "unat (drop_bit 3 (word_of_nat (8 * n) :: u32) AND 0x3f) = n mod 64"
proof -
  have "(0x3f :: u32) = mask 6" by (simp add: mask_eq_exp_minus_1)
  then have "unat (drop_bit 3 (word_of_nat (8 * n) :: u32) AND 0x3f) = unat (drop_bit 3 (word_of_nat (8 * n) :: u32)) mod 64"
    by (simp only: take_bit_eq_mask [symmetric] unsigned_take_bit_eq) (simp add: take_bit_eq_mod)
  also have "unat (drop_bit 3 (word_of_nat (8 * n) :: u32)) = (8 * n mod 2 ^ 32) div 8"
    unfolding unat_drop_bit_u32 unat_of_nat by simp
  also have "(8 * n mod 2 ^ 32) div 8 mod 64 = n mod 64"
  proof -
    have "8 * n mod 2 ^ 32 = 8 * (n mod 2 ^ 29)" using mod_mult_mult1 [of 8 n "2 ^ 29"] by simp
    then show ?thesis by (simp add: mod_mod_cancel)
  qed
  finally show ?thesis .
qed

lemma bit_count_low:
  "(word_of_nat (8 * n) :: u32) + push_bit 3 (word_of_nat m) = word_of_nat (8 * (n + m))"
  by (simp add: push_bit_eq_mult distrib_left)

lemma bit_count_high:
  assumes "m < 2 ^ 32"
  shows "(if (word_of_nat (8 * (n + m)) :: u32) < word_of_nat (8 * n) then word_of_nat (8 * n div 2 ^ 32) + 1
      else word_of_nat (8 * n div 2 ^ 32)) + drop_bit 29 (word_of_nat m :: u32) = word_of_nat (8 * (n + m) div 2 ^ 32)"
proof -
  let ?M = "2 ^ 32 :: nat"
  define a where "a = 8 * n mod ?M"
  define b where "b = 8 * m mod ?M"
  have lt: "a < ?M" "b < ?M" by (simp_all add: a_def b_def)
  have d: "drop_bit 29 (word_of_nat m :: u32) = word_of_nat (8 * m div ?M)"
  proof -
    have "8 * m div ?M = m div 2 ^ 29" by simp
    moreover have "unat (drop_bit 29 (word_of_nat m :: u32)) = m div 2 ^ 29"
      using assms unfolding unat_drop_bit_u32 by (simp add: unat_of_nat)
    ultimately show ?thesis using assms by (simp add: word_unat_eq_iff unat_of_nat)
  qed
  have sum: "8 * (n + m) = 8 * n + 8 * m" by simp
  have q: "8 * (n + m) div ?M = 8 * n div ?M + 8 * m div ?M + (a + b) div ?M"
    unfolding sum a_def b_def by (rule div_add1_eq)
  have r: "8 * (n + m) mod ?M = (a + b) mod ?M" unfolding sum a_def b_def by (simp add: mod_add_eq)
  have c: "(word_of_nat (8 * (n + m)) :: u32) < word_of_nat (8 * n) \<longleftrightarrow> (a + b) mod ?M < a"
    unfolding word_less_nat_alt unat_of_nat using r by (simp add: a_def del: distrib_left_numeral)
  have "(a + b) mod ?M < a \<longleftrightarrow> ?M \<le> a + b" "(a + b) div ?M = (if ?M \<le> a + b then 1 else 0)"
  proof -
    have "a + b < 2 * ?M" using lt by simp
    then have "(a + b) mod ?M = (if ?M \<le> a + b then a + b - ?M else a + b)" "(a + b) div ?M = (if ?M \<le> a + b then 1 else 0)"
      using lt by (simp_all add: le_mod_geq le_div_geq)
    then show "(a + b) mod ?M < a \<longleftrightarrow> ?M \<le> a + b" "(a + b) div ?M = (if ?M \<le> a + b then 1 else 0)" using lt by auto
  qed
  then show ?thesis unfolding c d q by simp
qed


lemma MD5Update_absorbs:
  assumes "absorbed ctx bs" "length d < 2 ^ 32"
  shows "absorbed (MD5Update ctx d) (bs @ d)"
proof -
  define t where "t = length bs mod 64"
  define k where "k = 64 * (length bs div 64)"
  have in64: "length (md5_in ctx) = 64" and tail: "take t (md5_in ctx) = drop k bs" and buf: "md5_buf ctx = rfc_blocks md5_init bs"
    and b0: "bits0 ctx = word_of_nat (8 * length bs)" and b1: "bits1 ctx = word_of_nat (8 * length bs div 2 ^ 32)"
    using assms(1) by (simp_all add: absorbed_def t_def k_def)
  have tlt: "t < 64" and len: "length bs = k + t" by (simp_all add: t_def k_def)
  let ?b0 = "word_of_nat (8 * length (bs @ d)) :: u32" and ?b1 = "word_of_nat (8 * length (bs @ d) div 2 ^ 32) :: u32"
  have bits: "bits0 ctx + push_bit 3 (word_of_nat (length d)) = ?b0"
    "(if ?b0 < bits0 ctx then bits1 ctx + 1 else bits1 ctx) + drop_bit 29 (word_of_nat (length d)) = ?b1"
    using bit_count_low [of "length bs" "length d"] bit_count_high [OF assms(2), of "length bs"]
    by (simp_all only: b0 b1 length_append)
  have cnt: "unat (drop_bit 3 (bits0 ctx) AND 0x3f) = t" by (simp only: b0 count_bits t_def)
  let ?ctx = "ctx\<lparr>bits0 := ?b0, bits1 := ?b1\<rparr>"
  have upd: "MD5Update ctx d =
     (if t \<noteq> 0 \<and> length d < 64 - t then
        ?ctx\<lparr>md5_in := take t (md5_in ctx) @ d @ drop (t + length d) (md5_in ctx)\<rparr>
      else
        let (data, c) = (if t \<noteq> 0
              then (drop (64 - t) d, MD5_block (take t (md5_in ctx) @ take (64 - t) d) ?ctx) else (d, ?ctx));
            (rest, c) = MD5_blocks data c in
        c\<lparr>md5_in := rest @ drop (length rest) (md5_in c)\<rparr>)"
    unfolding MD5Update_def Let_def cnt bits by simp
  show ?thesis
  proof (cases "t \<noteq> 0 \<and> length d < 64 - t")
    case True
    have e: "length (bs @ d) = 64 * (length bs div 64) + (t + length d)" using len by (simp add: k_def)
    have "t + length d < 64" using True by linarith
    then have l: "length (bs @ d) div 64 = length bs div 64" "length (bs @ d) mod 64 = t + length d"
      unfolding e by simp_all
    have "rfc_blocks md5_init (bs @ d) = rfc_blocks md5_init bs"
      using rfc_blocks_tail [of md5_init "bs @ d"] rfc_blocks_tail [of md5_init bs] l(1) by simp
    moreover have "take (t + length d) (take t (md5_in ctx) @ d @ drop (t + length d) (md5_in ctx)) = drop k (bs @ d)"
      using True tail in64 len by simp
    moreover have res: "MD5Update ctx d = ?ctx\<lparr>md5_in := take t (md5_in ctx) @ d @ drop (t + length d) (md5_in ctx)\<rparr>"
      using upd True by simp
    moreover have kk: "64 * (length (bs @ d) div 64) = k" using l(1) by (simp only: k_def)
    moreover have "length (take t (md5_in ctx) @ d @ drop (t + length d) (md5_in ctx)) = 64" using in64 \<open>t + length d < 64\<close> by simp
    ultimately show ?thesis unfolding absorbed_def res kk l(2) using buf by simp
  next
    case False
    define data where "data = (if t \<noteq> 0 then drop (64 - t) d else d)"
    define c where "c = (if t \<noteq> 0 then MD5_block (take t (md5_in ctx) @ take (64 - t) d) ?ctx else ?ctx)"
    define taken where "taken = (if t \<noteq> 0 then bs @ take (64 - t) d else bs)"
    have whole: "bs @ d = taken @ data" by (simp add: taken_def data_def)
    have m: "length taken mod 64 = 0"
    proof (cases "t = 0")
      case True
      then show ?thesis by (simp add: taken_def t_def)
    next
      case t: False
      then have "length taken = k + 64" using False len tlt by (simp add: taken_def)
      then show ?thesis by (simp add: k_def)
    qed
    have c: "md5_buf c = rfc_blocks md5_init taken" "length (md5_in c) = 64" "bits0 c = ?b0" "bits1 c = ?b1"
    proof -
      show "md5_buf c = rfc_blocks md5_init taken"
      proof (cases "t = 0")
        case t: False
        then have fill: "length (drop k bs @ take (64 - t) d) = 64" using False len tlt by simp
        have "rfc_blocks md5_init (take k bs @ (drop k bs @ take (64 - t) d)) =
            rfc_blocks (rfc_blocks md5_init (take k bs)) (drop k bs @ take (64 - t) d)"
          by (rule rfc_blocks_append) (use split64(2) [of bs] in \<open>simp add: k_def\<close>)
        also have "\<dots> = rfc_transform (rfc_blocks md5_init bs) (block_words (drop k bs @ take (64 - t) d))"
          using rfc_blocks_block [OF fill, of "rfc_blocks md5_init bs" "[]"] rfc_blocks_tail [of md5_init bs]
          by (simp add: k_def rfc_blocks_short)
        finally have "rfc_blocks md5_init (bs @ take (64 - t) d) =
            rfc_transform (rfc_blocks md5_init bs) (block_words (drop k bs @ take (64 - t) d))"
          by (metis append_assoc append_take_drop_id)
        then show ?thesis using t by (simp add: c_def taken_def MD5_block_def MD5Transform_is_rfc buf tail)
      qed (simp add: c_def taken_def buf)
      show "length (md5_in c) = 64" "bits0 c = ?b0" "bits1 c = ?b1"
        using False tlt in64 by (auto simp: c_def MD5_block_def)
    qed
    obtain rest c' where r: "MD5_blocks data c = (rest, c')" by (cases "MD5_blocks data c")
    note R = MD5_blocks_result [OF r]
    have res: "MD5Update ctx d = c'\<lparr>md5_in := rest @ drop (length rest) (md5_in c')\<rparr>"
      using upd False r by (auto simp: data_def c_def Let_def)
    have lr: "length rest = length data mod 64" using R(1) split64(3) [of data] by simp
    have "length (bs @ d) mod 64 = length data mod 64"
      using m by (simp only: whole length_append mod_add_eq [of "length taken" 64, symmetric]) simp
    moreover have "drop (64 * (length (bs @ d) div 64)) (bs @ d) = rest"
    proof -
      have "64 * (length (taken @ data) div 64) = length taken + 64 * (length data div 64)" using m by auto
      then show ?thesis unfolding whole R(1) by simp
    qed
    moreover have "md5_buf c' = rfc_blocks md5_init (bs @ d)"
      unfolding whole R(2) c(1) by (rule rfc_blocks_append [OF m, symmetric])
    moreover have "length rest \<le> 64" using lr by (simp add: less_imp_le)
    ultimately show ?thesis using R(3,4,5) c lr by (simp add: res absorbed_def)
  qed
qed

lemma bytes_of_word:
  "ucast (ucast w :: u8) OR push_bit 8 (ucast (ucast (drop_bit 8 w) :: u8)) OR push_bit 16 (ucast (ucast (drop_bit 16 w) :: u8)) OR
     push_bit 24 (ucast (ucast (drop_bit 24 w) :: u8)) = (w :: u32)"
proof (rule bit_word_eqI)
  fix n assume "n < LENGTH(32)"
  then consider "n < 8" | "8 \<le> n" "n < 16" | "16 \<le> n" "n < 24" | "24 \<le> n" "n < 32" by fastforce
  then show "bit ((ucast (ucast w :: u8) :: u32) OR push_bit 8 (ucast (ucast (drop_bit 8 w) :: u8)) OR
      push_bit 16 (ucast (ucast (drop_bit 16 w) :: u8)) OR push_bit 24 (ucast (ucast (drop_bit 24 w) :: u8))) n = bit w n"
    by cases (auto simp: bit_simps less_diff_conv2)
qed

lemma block_words_length:
  assumes "length x = 56"
  shows "(block_words (x @ replicate 8 0))[14 := u, 15 := v] = block_words (x @ le_bytes u @ le_bytes v)"
proof (rule nth_equalityI)
  show "length ((block_words (x @ replicate 8 0))[14 := u, 15 := v]) = length (block_words (x @ le_bytes u @ le_bytes v))"
    by (simp add: block_words_def)
next
  fix i assume "i < length ((block_words (x @ replicate 8 0))[14 := u, 15 := v])"
  then have i: "i < 16" by (simp add: block_words_def)
  have "le32 (x @ le_bytes u @ le_bytes v) 56 = u" "le32 (x @ le_bytes u @ le_bytes v) 60 = v"
    using assms bytes_of_word by (simp_all add: le32_def le_bytes_def nth_append)
  moreover have "le32 (x @ replicate 8 0) (4 * i) = le32 (x @ le_bytes u @ le_bytes v) (4 * i)" if "i < 14"
    using that assms by (simp add: le32_def nth_append)
  moreover have "i < 14 \<or> i = 14 \<or> i = 15" using i by linarith
  ultimately show "(block_words (x @ replicate 8 0))[14 := u, 15 := v] ! i = block_words (x @ le_bytes u @ le_bytes v) ! i"
    using i by (auto simp: block_words_def)
qed

lemma MD5Final_md5:
  assumes "absorbed ctx bs"
  shows "MD5Final ctx = md5 bs"
proof -
  define t where "t = length bs mod 64"
  define k where "k = 64 * (length bs div 64)"
  have in64: "length (md5_in ctx) = 64" and tail: "take t (md5_in ctx) = drop k bs" and buf: "md5_buf ctx = rfc_blocks md5_init bs"
    and b0: "bits0 ctx = word_of_nat (8 * length bs)" and b1: "bits1 ctx = word_of_nat (8 * length bs div 2 ^ 32)"
    using assms by (simp_all add: absorbed_def t_def k_def)
  have tlt: "t < 64" by (simp add: t_def)
  have lt: "length (drop k bs) = t" using split64(3) [of bs] by (simp add: k_def t_def)
  have cnt: "unat (drop_bit 3 (bits0 ctx) AND 0x3f) = t" by (simp only: b0 count_bits t_def)
  define L where "L = rfc_length (length bs)"
  have L: "L = le_bytes (bits0 ctx) @ le_bytes (bits1 ctx)" by (simp add: L_def rfc_length_def b0 b1)
  have len8: "length L = 8" by (simp add: L le_bytes_def)
  have pad: "rfc_blocks md5_init (rfc_pad bs) =
      rfc_blocks (rfc_blocks md5_init bs) (drop k bs @ [0x80] @ replicate ((119 - t) mod 64) 0 @ L)"
    using rfc_blocks_append [OF split64(2) [of bs], of md5_init "drop k bs @ [0x80] @ replicate ((119 - t) mod 64) 0 @ L"]
      rfc_blocks_tail [of md5_init bs] split64(1) [of bs]
    by (simp add: rfc_pad_def L_def t_def k_def) (metis append_assoc append_take_drop_id)
  have last_block: "rfc_blocks b (x @ L) = MD5Transform b ((block_words (x @ replicate 8 0))[14 := bits0 ctx, 15 := bits1 ctx])"
    if "length x = 56" for b x
    using rfc_blocks_block [of "x @ L" b "[]"] that len8
    by (simp add: block_words_length [OF that] L MD5Transform_is_rfc rfc_blocks_short)
  show ?thesis
  proof (cases "64 - 1 - t < 8")
    case True
    define b1 where "b1 = drop k bs @ [0x80] @ replicate (63 - t) 0"
    have lb: "length b1 = 64" using lt tlt by (simp add: b1_def)
    have "replicate ((119 - t) mod 64) (0 :: u8) = replicate (63 - t) 0 @ replicate 56 0"
    proof -
      have "(119 - t) mod 64 = (63 - t) + 56" using True tlt by simp
      then show ?thesis by (simp only: replicate_add)
    qed
    then have "rfc_blocks md5_init (rfc_pad bs) = rfc_blocks (rfc_blocks md5_init bs) (b1 @ replicate 56 0 @ L)"
      unfolding pad by (simp add: b1_def)
    also have "\<dots> = rfc_blocks (MD5Transform (rfc_blocks md5_init bs) (block_words b1)) (replicate 56 0 @ L)"
      using rfc_blocks_block [OF lb] by (simp add: MD5Transform_is_rfc)
    finally have "rfc_blocks md5_init (rfc_pad bs) = MD5Transform (MD5Transform (rfc_blocks md5_init bs) (block_words b1))
        ((block_words (replicate 56 0 @ replicate 8 0))[14 := bits0 ctx, 15 := bits1 ctx])"
      using last_block [of "replicate 56 0"] by simp
    moreover have "MD5Final ctx = concat (map le_bytes (MD5Transform (MD5Transform (md5_buf ctx) (block_words b1))
        ((block_words (replicate 56 0 @ replicate 8 0))[14 := bits0 ctx, 15 := bits1 ctx])))"
      using True unfolding MD5Final_def Let_def cnt tail by (simp add: MD5_block_def b1_def)
    ultimately show ?thesis by (simp add: md5_def md5_init_def [symmetric] buf)
  next
    case False
    define x where "x = drop k bs @ [0x80] @ replicate (55 - t) 0"
    have lx: "length x = 56" using lt False by (simp add: x_def)
    have "(119 - t) mod 64 = 55 - t" using False by (simp add: le_mod_geq)
    then have "rfc_blocks md5_init (rfc_pad bs) = rfc_blocks (rfc_blocks md5_init bs) (x @ L)"
      unfolding pad by (simp add: x_def)
    then have "rfc_blocks md5_init (rfc_pad bs) = MD5Transform (rfc_blocks md5_init bs)
        ((block_words (x @ replicate 8 0))[14 := bits0 ctx, 15 := bits1 ctx])"
      using last_block [OF lx] by simp
    moreover have "MD5Final ctx = concat (map le_bytes (MD5Transform (md5_buf ctx)
        ((block_words (x @ replicate 8 0))[14 := bits0 ctx, 15 := bits1 ctx])))"
      using False unfolding MD5Final_def Let_def cnt tail by (simp add: x_def)
    ultimately show ?thesis by (simp add: md5_def md5_init_def [symmetric] buf)
  qed
qed

lemma fold_MD5Update_absorbs:
  "absorbed ctx bs \<Longrightarrow> \<forall>d \<in> set ds. length d < 2 ^ 32 \<Longrightarrow> absorbed (fold (\<lambda>d c. MD5Update c d) ds ctx) (bs @ concat ds)"
proof (induction ds arbitrary: ctx bs)
  case (Cons d ds)
  then have "absorbed (MD5Update ctx d) (bs @ d)" by (simp add: MD5Update_absorbs)
  then show ?case using Cons.IH [of "MD5Update ctx d" "bs @ d"] Cons.prems by simp
qed simp

text \<open>
  C26: the digest does not depend on how the message is handed over. However it is cut into pieces
  for \<open>MD5Update\<close>, \<open>MD5Final\<close> returns the digest that RFC 1321 defines for the whole message.
\<close>

theorem md5_of_pieces:
  assumes "\<forall>d \<in> set ds. length d < 2 ^ 32"
  shows "MD5Final (fold (\<lambda>d c. MD5Update c d) ds MD5Init) = md5 (concat ds)"
  using MD5Final_md5 [OF fold_MD5Update_absorbs [OF absorbed_init assms]] by simp

theorem md5_of_pieces_witness:
  "MD5Final (fold (\<lambda>d c. MD5Update c d) [[97], [], [98, 99]] MD5Init) = md5 [97, 98, 99]"
  using md5_of_pieces [of "[[97], [], [98, 99]]"] by simp

lemma MD5_pieces:
  "length a < 2 ^ 32 \<Longrightarrow> MD5Final (MD5Update MD5Init a) = md5 a"
  "length a < 2 ^ 32 \<Longrightarrow> length b < 2 ^ 32 \<Longrightarrow> MD5Final (MD5Update (MD5Update MD5Init a) b) = md5 (a @ b)"
  "length a < 2 ^ 32 \<Longrightarrow> length b < 2 ^ 32 \<Longrightarrow> length c < 2 ^ 32 \<Longrightarrow>
   MD5Final (MD5Update (MD5Update (MD5Update MD5Init a) b) c) = md5 (a @ b @ c)"
  using MD5Final_md5 MD5Update_absorbs absorbed_init by (metis append_Nil append_assoc)+

lemma length_concat_le_bytes: "length (concat (map le_bytes ws)) = 4 * length ws"
  by (induction ws) (simp_all add: le_bytes_def)

lemma length_MD5Final [simp]: "length (MD5Final ctx) = 16"
  by (simp add: MD5Final_def Let_def length_concat_le_bytes MD5Transform_is_rfc rfc_transform_def split: prod.split)

lemma length_hmac_md5 [simp]: "length (hmac_md5 key data) = 16"
  by (simp add: hmac_md5_def Let_def)

lemma length_md5 [simp]: "length (md5 bs) = 16"
proof -
  have "length (rfc_blocks buf bs) = 4" if "length buf = 4" for buf bs
    using that
  proof (induction buf bs rule: rfc_blocks.induct)
    case (1 buf bs)
    then show ?case by (subst rfc_blocks.simps) (simp add: rfc_transform_def split: prod.split)
  qed
  then have "length (rfc_blocks [0x67452301, 0xefcdab89, 0x98badcfe, 0x10325476] (rfc_pad bs)) = 4" by simp
  then show ?thesis by (simp add: md5_def length_concat_le_bytes)
qed

text \<open>
  \<open>hmac_md5\<close> is the HMAC of RFC 2104: the key, hashed first if it is longer than a block,
  padded with zeros and masked with 0x36 inside and 0x5c outside.
\<close>

definition rfc_hmac :: "u8 list \<Rightarrow> u8 list \<Rightarrow> u8 list" where
  "rfc_hmac key text =
     (let k = (if length key > 64 then md5 key else key); k0 = k @ replicate (64 - length k) 0 in
      md5 (map (\<lambda>b. b XOR 0x5c) k0 @ md5 (map (\<lambda>b. b XOR 0x36) k0 @ text)))"

lemma hmac_md5_is_rfc:
  assumes "length key < 2 ^ 32" "length data < 2 ^ 32"
  shows "hmac_md5 key data = rfc_hmac key data"
  using assms by (simp add: hmac_md5_def rfc_hmac_def Let_def MD5_pieces)

lemma md5_mac_md5:
  "length key < 2 ^ 32 \<Longrightarrow> length data < 2 ^ 32 \<Longrightarrow> md5_mac key data = md5 (key @ data @ key)"
  by (simp add: md5_mac_def MD5_pieces)

end
