(* ===== verification/Pppoe_Server.thy ===== *)
theory Pppoe_Server
  imports Pppoe_Send Linked_Lists Md5
begin

text \<open>
  The PPPoE server (\<open>rg/pkg/pppoe-server/src/pppoe-server.c\<close> and \<open>pppoe-server.h\<close>): the array of
  sessions with its free list and busy list, the answers to PADI, PADR and PADT, the start of
  \<open>pppd\<close> and the end of a session. A pointer to a session is its index in \<open>Sessions\<close>, a pointer to
  an interface its index in \<open>interfaces\<close>; \<open>None\<close> as the result of an operation is an access outside
  an object or through NULL. The build without licences and without L2TP is modelled, where all
  sessions have the same function table. Log messages are left out.
\<close>

section \<open>State\<close>

definition FLAG_RECVD_PADT :: u32 where "FLAG_RECVD_PADT = 1"
definition FLAG_SENT_PADT :: u32 where "FLAG_SENT_PADT = 8"
definition SEED_LEN :: nat where "SEED_LEN = 16"
definition MD5_LEN :: nat where "MD5_LEN = 16"
definition SMALLBUF :: nat where "SMALLBUF = 256"

record Interface =
  if_name :: "u8 list"
  if_sock :: int
  if_mac :: mac

text \<open>
  The pointer \<open>serviceName\<close>: to the empty string, to a configured name, or to the payload of the
  global \<open>requestedService\<close>.
\<close>

datatype name_ptr = Empty_name | Configured nat | Requested_payload

record ClientSession =
  ses_next :: "nat option"
  ses_pid :: nat
  ses_ethif :: "nat option"
  myip :: "u8 list"
  peerip :: "u8 list"
  ses_sess :: u16
  ses_eth :: mac
  ses_flags :: u32
  startTime :: nat
  ses_serviceName :: name_ptr

text \<open>
  The globals that the tags of a request are copied to. \<open>requestedService\<close> is kept with the
  whole buffer behind its length, for the code uses it as a string.
\<close>

record request_tags =
  rq_hostUniq :: PPPoETag
  rq_relayId :: PPPoETag
  receivedCookie :: PPPoETag
  svc_type :: nat
  svc_length :: nat
  svc_payload :: "u8 list"

text \<open>
  \<open>sent\<close> are the calls of \<open>sendPacket\<close> (socket, frame, size), also those of the child; \<open>killed\<close>
  are the processes that got SIGTERM, \<open>children\<close> those whose exit is waited for with their
  session, \<open>started\<close> are the argument vectors given to \<open>execv\<close>.
\<close>

record server =
  Sessions :: "nat \<Rightarrow> ClientSession"
  FreeSessions :: "nat option"
  LastFreeSession :: "nat option"
  BusySessions :: "nat option"
  NumSessionSlots :: nat
  NumActiveSessions :: nat
  SessOffset :: nat
  interfaces :: "Interface list"
  ServiceNames :: "u8 list list"
  ACName :: "u8 list"
  CookieSeed :: "u8 list"
  Discovery_type :: nat
  request :: request_tags
  sent :: "(int \<times> PPPoEPacket \<times> nat) list"
  killed :: "nat list"
  children :: "(nat \<times> nat) list"
  started :: "u8 list list list"

text \<open>The system and the options that do not change.\<close>

record server_env =
  srv_big :: bool
  srv_pid :: "u8 list"
  UseLinuxKernelModePPPoE :: bool
  Synchronous :: bool
  PassUnitOptionToPPPD :: bool
  PppoeOptions :: "u8 list"
  PPPOE_PATH :: "u8 list"
  PLUGIN_PATH :: "u8 list"
  PPPOE_SERVER_OPTIONS :: "u8 list"

definition upd_ses :: "nat \<Rightarrow> (ClientSession \<Rightarrow> ClientSession) \<Rightarrow> server \<Rightarrow> server" where
  "upd_ses i f st = st\<lparr>Sessions := (Sessions st)(i := f (Sessions st i))\<rparr>"

definition upd_request :: "(request_tags \<Rightarrow> request_tags) \<Rightarrow> server \<Rightarrow> server" where
  "upd_request f st = st\<lparr>request := f (request st)\<rparr>"

definition interface :: "server \<Rightarrow> nat option \<Rightarrow> Interface option" where
  "interface st p = (case p of None \<Rightarrow> None | Some j \<Rightarrow> if j < length (interfaces st) then Some (interfaces st ! j) else None)"

definition srv_send :: "int \<Rightarrow> PPPoEPacket \<Rightarrow> server \<Rightarrow> server" where
  "srv_send sock p st = st\<lparr>sent := sent st @ [(sock, p, plen p + HDR_SIZE)]\<rparr>"

section \<open>The session lists\<close>

definition pppoe_alloc_session :: "nat \<Rightarrow> server \<Rightarrow> nat option \<times> server" where
  "pppoe_alloc_session now st =
     (case FreeSessions st of
        None \<Rightarrow> (None, st)
      | Some ses \<Rightarrow>
          let st = (if LastFreeSession st = Some ses then st\<lparr>LastFreeSession := None\<rparr> else st);
              st = st\<lparr>FreeSessions := ses_next (Sessions st ses)\<rparr>;
              st = upd_ses ses (\<lambda>s. s\<lparr>ses_next := BusySessions st\<rparr>) st;
              st = st\<lparr>BusySessions := Some ses\<rparr>;
              st = upd_ses ses (\<lambda>s. s\<lparr>ses_pid := 0, ses_ethif := None, ses_eth := replicate 6 0, ses_flags := 0,
                     startTime := now, ses_serviceName := Empty_name\<rparr>) st
          in (Some ses, st\<lparr>NumActiveSessions := NumActiveSessions st + 1\<rparr>))"

text \<open>The walk along the busy list with the pointer to the one before; it ends on a list.\<close>

partial_function (option) find_busy ::
  "(nat \<Rightarrow> nat option) \<Rightarrow> nat \<Rightarrow> nat option \<Rightarrow> nat option \<Rightarrow> (bool \<times> nat option) option" where
  "find_busy nxt ses prv cur =
     (case cur of
        None \<Rightarrow> Some (False, prv)
      | Some x \<Rightarrow> if ses = x then Some (True, prv) else find_busy nxt ses cur (nxt x))"

declare find_busy.simps [code]

definition pppoe_free_session :: "nat \<Rightarrow> server \<Rightarrow> (int \<times> server) option" where
  "pppoe_free_session ses st =
     Option.bind (find_busy (\<lambda>i. ses_next (Sessions st i)) ses None (BusySessions st)) (\<lambda>(found, prv).
       if \<not> found then Some (- 1, st)
       else
         let nxt = ses_next (Sessions st ses);
             st = (case prv of Some p \<Rightarrow> upd_ses p (\<lambda>s. s\<lparr>ses_next := nxt\<rparr>) st | None \<Rightarrow> st\<lparr>BusySessions := nxt\<rparr>);
             st = upd_ses ses (\<lambda>s. s\<lparr>ses_next := None\<rparr>) st;
             st = (case LastFreeSession st of
                     Some l \<Rightarrow> (upd_ses l (\<lambda>s. s\<lparr>ses_next := Some ses\<rparr>) st)\<lparr>LastFreeSession := Some ses\<rparr>
                   | None \<Rightarrow> st\<lparr>FreeSessions := Some ses, LastFreeSession := Some ses\<rparr>);
             st = upd_ses ses (\<lambda>s. s\<lparr>ses_pid := 0, ses_flags := 0\<rparr>) st
         in Some (0, st\<lparr>NumActiveSessions := NumActiveSessions st - 1\<rparr>))"

section \<open>The end of a session\<close>

text \<open>The zeroed connection with the addresses of a session; the interface must exist.\<close>

definition session_conn :: "server \<Rightarrow> nat \<Rightarrow> PPPoEConnection option" where
  "session_conn st ses =
     (let s = Sessions st ses in
      map_option (\<lambda>i. \<lparr>discoveryState = STATE_SENT_PADI, discoverySocket = if_sock i, sessionSocket = 0,
        myEth = if_mac i, peerEth = ses_eth s, conn_session = ses_sess s, serviceName = None, acName = None,
        synchronous = False, useHostUniq = False, printACNames = False, skipDiscovery = False,
        noDiscoverySocket = False, killSession = False, numPADOs = 0, cookie = no_tag, relayId = no_tag\<rparr>)
        (interface st (ses_ethif s)))"

definition session_padt :: "string \<Rightarrow> server \<Rightarrow> nat \<Rightarrow> server option" where
  "session_padt msg st ses =
     Option.bind (session_conn st ses) (\<lambda>k.
     Option.bind (padt [] (Discovery_type st) (Some (ascii msg)) k) (\<lambda>(frame, k').
       Some (case frame of None \<Rightarrow> st | Some p \<Rightarrow> srv_send (discoverySocket k') p st)))"

definition PppoeStopSession :: "nat \<Rightarrow> string \<Rightarrow> server \<Rightarrow> server option" where
  "PppoeStopSession ses reason st =
     Option.bind (session_padt reason st ses) (\<lambda>st.
       let st = upd_ses ses (\<lambda>s. s\<lparr>ses_flags := ses_flags s OR FLAG_SENT_PADT\<rparr>) st in
       Some (if ses_pid (Sessions st ses) \<noteq> 0 then st\<lparr>killed := killed st @ [ses_pid (Sessions st ses)]\<rparr> else st))"

definition PppoeSessionIsActive :: "nat \<Rightarrow> server \<Rightarrow> bool" where
  "PppoeSessionIsActive ses st \<longleftrightarrow> ses_pid (Sessions st ses) \<noteq> 0"

text \<open>
  \<open>childHandler\<close>, when the \<open>pppd\<close> of a session has ended. The log line before it reads the name of
  the interface through the same pointer.
\<close>

definition childHandler :: "nat \<Rightarrow> server \<Rightarrow> server option" where
  "childHandler ses st =
     Option.bind (session_conn st ses) (\<lambda>_.
     Option.bind (if ses_flags (Sessions st ses) AND FLAG_SENT_PADT = 0 then
         map_option (upd_ses ses (\<lambda>s. s\<lparr>ses_flags := ses_flags s OR FLAG_SENT_PADT\<rparr>))
           (session_padt (if ses_flags (Sessions st ses) AND FLAG_RECVD_PADT \<noteq> 0
              then ''RP-PPPoE: Received PADT from peer'' else ''RP-PPPoE: Child pppd process terminated'') st ses)
       else Some st) (\<lambda>st.
       map_option snd (pppoe_free_session ses (upd_ses ses (\<lambda>s. s\<lparr>ses_serviceName := Empty_name\<rparr>) st))))"

partial_function (option) kill_loop :: "nat option \<Rightarrow> server \<Rightarrow> server option" where
  "kill_loop sess st =
     (case sess of
        None \<Rightarrow> Some st
      | Some s \<Rightarrow> Option.bind (PppoeStopSession s ''Shutting Down'' st) (\<lambda>st.
          kill_loop (ses_next (Sessions st s)) st))"

declare kill_loop.simps [code]

definition killAllSessions :: "server \<Rightarrow> server option" where
  "killAllSessions st = kill_loop (BusySessions st) st"

section \<open>Requests\<close>

definition copy_service :: "u8 list \<Rightarrow> request_tags \<Rightarrow> request_tags" where
  "copy_service data rq = rq\<lparr>svc_type := TAG_SERVICE_NAME, svc_length := length data,
     svc_payload := data @ drop (length data) (svc_payload rq)\<rparr>"

definition parsePADITags :: "nat \<Rightarrow> u8 list \<Rightarrow> request_tags \<Rightarrow> request_tags" where
  "parsePADITags type data rq =
     (if type = TAG_SERVICE_NAME then copy_service data rq
      else if type = TAG_RELAY_SESSION_ID then rq\<lparr>rq_relayId := \<lparr>tag_type = type, tag_data = data\<rparr>\<rparr>
      else if type = TAG_HOST_UNIQ then rq\<lparr>rq_hostUniq := \<lparr>tag_type = type, tag_data = data\<rparr>\<rparr>
      else rq)"

definition parsePADRTags :: "nat \<Rightarrow> u8 list \<Rightarrow> request_tags \<Rightarrow> request_tags" where
  "parsePADRTags type data rq =
     (if type = TAG_RELAY_SESSION_ID then rq\<lparr>rq_relayId := \<lparr>tag_type = type, tag_data = data\<rparr>\<rparr>
      else if type = TAG_HOST_UNIQ then rq\<lparr>rq_hostUniq := \<lparr>tag_type = type, tag_data = data\<rparr>\<rparr>
      else if type = TAG_AC_COOKIE then rq\<lparr>receivedCookie := \<lparr>tag_type = type, tag_data = data\<rparr>\<rparr>
      else if type = TAG_SERVICE_NAME then copy_service data rq
      else rq)"

definition COOKIE_LEN :: "server_env \<Rightarrow> nat" where
  "COOKIE_LEN env = MD5_LEN + length (srv_pid env)"

definition genCookie :: "server_env \<Rightarrow> mac \<Rightarrow> mac \<Rightarrow> u8 list \<Rightarrow> u8 list" where
  "genCookie env peerEthAddr myEthAddr seed =
     MD5Final (MD5Update (MD5Update (MD5Update MD5Init peerEthAddr) myEthAddr) seed) @ srv_pid env"

text \<open>The position of a name among the configured ones.\<close>

fun find_service :: "u8 list \<Rightarrow> nat \<Rightarrow> u8 list list \<Rightarrow> nat option" where
  "find_service s i [] = None"
| "find_service s i (n # ns) = (if n = s then Some i else find_service s (Suc i) ns)"

definition requested :: "server \<Rightarrow> u8 list" where
  "requested st = take (svc_length (request st)) (svc_payload (request st))"

definition service_ok :: "server \<Rightarrow> bool" where
  "service_ok st \<longleftrightarrow> ServiceNames st = [] \<or> svc_type (request st) = 0 \<or> svc_length (request st) = 0 \<or>
     find_service (requested st) 0 (ServiceNames st) \<noteq> None"

fun copy_all :: "PPPoETag list \<Rightarrow> tag_buf \<Rightarrow> tag_buf option option" where
  "copy_all [] b = Some (Some b)"
| "copy_all (t # ts) b = Option.bind (copy_checked t b) (\<lambda>r. case r of None \<Rightarrow> Some None | Some b \<Rightarrow> copy_all ts b)"

definition servname :: "u8 list \<Rightarrow> PPPoETag" where
  "servname s = \<lparr>tag_type = TAG_SERVICE_NAME, tag_data = s\<rparr>"

definition padi_globals :: "request_tags \<Rightarrow> request_tags" where
  "padi_globals rq = rq\<lparr>rq_relayId := (rq_relayId rq)\<lparr>tag_type := 0\<rparr>,
     rq_hostUniq := (rq_hostUniq rq)\<lparr>tag_type := 0\<rparr>, svc_type := 0\<rparr>"

text \<open>The tags of a PADO before the relay-ID and the Host-Uniq tag.\<close>

definition pado_tags :: "server_env \<Rightarrow> Interface \<Rightarrow> mac \<Rightarrow> server \<Rightarrow> PPPoETag list" where
  "pado_tags env ethif peer st =
     [\<lparr>tag_type = TAG_AC_NAME, tag_data = ACName st\<rparr>] @
     (if ServiceNames st = [] then [servname (requested st)] else map servname (ServiceNames st)) @
     [\<lparr>tag_type = TAG_AC_COOKIE, tag_data = genCookie env peer (if_mac ethif) (CookieSeed st)\<rparr>]"

definition processPADI :: "server_env \<Rightarrow> nat \<Rightarrow> PPPoEPacket \<Rightarrow> server \<Rightarrow> server option" where
  "processPADI env i packet st =
     Option.bind (interface st (Some i)) (\<lambda>ethif.
     if NOT_UNICAST (h_source packet) then Some st
     else if length (ACName st) > ETH_DATA_LEN then None
     else
       Option.bind (parsePacket packet parsePADITags (padi_globals (request st))) (\<lambda>(_, rq).
       let st = st\<lparr>request := rq\<rparr> in
       if \<not> service_ok st then Some st
       else
         Option.bind (copy_all (pado_tags env ethif (h_source packet) st) empty_buf) (\<lambda>r. case r of None \<Rightarrow> Some st | Some b \<Rightarrow>
         Option.bind (copy_saved (rq_relayId rq) b) (\<lambda>r. case r of None \<Rightarrow> Some st | Some b \<Rightarrow>
         Option.bind (copy_saved (rq_hostUniq rq) b) (\<lambda>r. case r of None \<Rightarrow> Some st | Some b \<Rightarrow>
           Some (srv_send (if_sock ethif)
             (discovery_frame (Discovery_type st) (if_mac ethif) (h_source packet) CODE_PADO 0 b) st))))))"

text \<open>The index is computed as \<open>size_t\<close>, with wrap-around.\<close>

definition session_index :: "bool \<Rightarrow> server \<Rightarrow> u16 \<Rightarrow> nat" where
  "session_index big st ses = nat ((int (unat (htons big ses)) - 1 - int (SessOffset st)) mod 2 ^ 32)"

definition processPADT :: "server_env \<Rightarrow> nat \<Rightarrow> PPPoEPacket \<Rightarrow> server \<Rightarrow> server option" where
  "processPADT env i packet st =
     Option.bind (interface st (Some i)) (\<lambda>ethif.
     let ses = session_index (srv_big env) st (session packet) in
     if h_dest packet \<noteq> if_mac ethif then Some st
     else if ses \<ge> NumSessionSlots st then Some st
     else if ses_sess (Sessions st ses) \<noteq> session packet then Some st
     else if h_source packet \<noteq> ses_eth (Sessions st ses) then Some st
     else
       let st = upd_ses ses (\<lambda>s. s\<lparr>ses_flags := ses_flags s OR FLAG_RECVD_PADT\<rparr>) st in
       Option.bind (parsePacket packet (\<lambda>_ _ s. s) ()) (\<lambda>_. PppoeStopSession ses ''Received PADT'' st))"

section \<open>Error replies\<close>

text \<open>The copies of a PADS are not preceded by \<open>CHECK_ROOM\<close>.\<close>

fun copy_raw :: "PPPoETag list \<Rightarrow> tag_buf \<Rightarrow> tag_buf option" where
  "copy_raw [] b = Some b"
| "copy_raw (t # ts) b = Option.bind (copy_tag t b) (copy_raw ts)"

definition reply_tags :: "PPPoETag \<Rightarrow> request_tags \<Rightarrow> PPPoETag list" where
  "reply_tags t rq = t # saved (rq_relayId rq) @ saved (rq_hostUniq rq)"

definition sendErrorPADS :: "int \<Rightarrow> mac \<Rightarrow> mac \<Rightarrow> nat \<Rightarrow> string \<Rightarrow> server \<Rightarrow> server option" where
  "sendErrorPADS sock source dest errorTag errorMsg st =
     map_option (\<lambda>b. srv_send sock (discovery_frame (Discovery_type st) source dest CODE_PADS 0 b) st)
       (copy_raw (reply_tags \<lparr>tag_type = errorTag, tag_data = ascii errorMsg\<rparr> (request st)) empty_buf)"

section \<open>Starting pppd\<close>

definition hex_digit :: "nat \<Rightarrow> u8" where
  "hex_digit n = word_of_nat (if n < 10 then 48 + n else 87 + n)"

definition hex2 :: "u8 \<Rightarrow> u8 list" where
  "hex2 b = [hex_digit (unat b div 16), hex_digit (unat b mod 16)]"

fun join :: "u8 list \<Rightarrow> u8 list list \<Rightarrow> u8 list" where
  "join sep [] = []"
| "join sep [x] = x"
| "join sep (x # y # zs) = x @ sep @ join sep (y # zs)"

definition dotted :: "u8 list \<Rightarrow> u8 list" where
  "dotted ip = join (ascii ''.'') (map (\<lambda>b. decimal (unat b)) ip)"

definition session_number :: "bool \<Rightarrow> ClientSession \<Rightarrow> nat" where
  "session_number big s = unat (htons big (ses_sess s))"

text \<open>What \<open>%d:%02x:%02x:%02x:%02x:%02x:%02x\<close> prints, and \<open>snprintf\<close> into the small buffer.\<close>

definition session_text :: "bool \<Rightarrow> ClientSession \<Rightarrow> u8 list" where
  "session_text big s = join (ascii '':'') (decimal (session_number big s) # map hex2 (ses_eth s))"

definition small :: "u8 list \<Rightarrow> u8 list" where
  "small s = take (SMALLBUF - 1) s"

text \<open>The service name as a string: the payload up to the first zero.\<close>

definition service_string :: "server \<Rightarrow> ClientSession \<Rightarrow> u8 list option" where
  "service_string st s =
     (case ses_serviceName s of
        Empty_name \<Rightarrow> Some []
      | Configured i \<Rightarrow> Some (ServiceNames st ! i)
      | Requested_payload \<Rightarrow>
          if 0 \<in> set (svc_payload (request st)) then Some (takeWhile (\<lambda>b. b \<noteq> 0) (svc_payload (request st))) else None)"

definition address_arg :: "ClientSession \<Rightarrow> u8 list" where
  "address_arg s = small (dotted (myip s) @ ascii '':'' @ dotted (peerip s))"

definition common_args :: "server_env \<Rightarrow> u8 list list" where
  "common_args env = map ascii [''nodetach'', ''noaccomp'', ''nobsdcomp'', ''nodeflate'', ''nopcomp'',
     ''novj'', ''novjccomp'', ''default-asyncmap'']"

definition unit_args :: "server_env \<Rightarrow> server \<Rightarrow> ClientSession \<Rightarrow> u8 list list" where
  "unit_args env st s = (if PassUnitOptionToPPPD env
     then [ascii ''unit'', decimal (session_number (srv_big env) s - 1 - SessOffset st)] else [])"

definition startPPPDUserMode :: "server_env \<Rightarrow> nat \<Rightarrow> server \<Rightarrow> server option" where
  "startPPPDUserMode env ses st =
     (let s = Sessions st ses in
      Option.bind (interface st (ses_ethif s)) (\<lambda>ethif.
      Option.bind (service_string st s) (\<lambda>name.
      let serviceNameBuffer = (if name \<noteq> [] then small (ascii '' -S '' @ [39] @ name @ [39]) else []);
          command = small (PPPOE_PATH env @ ascii '' -n -I '' @ if_name ethif @ ascii '' -e '' @
            session_text (srv_big env) s @ serviceNameBuffer @ ascii '' '' @ PppoeOptions env)
      in Some (st\<lparr>started := started st @ [[ascii ''pppd'', ascii ''pty'', command, ascii ''file'', PPPOE_SERVER_OPTIONS env,
           address_arg s] @ common_args env @ (if Synchronous env then [ascii ''sync''] else []) @ unit_args env st s]\<rparr>))))"

definition startPPPDLinuxKernelMode :: "server_env \<Rightarrow> nat \<Rightarrow> server \<Rightarrow> server option" where
  "startPPPDLinuxKernelMode env ses st =
     (let s = Sessions st ses in
      Option.bind (interface st (ses_ethif s)) (\<lambda>ethif.
      Option.bind (service_string st s) (\<lambda>name.
        Some (st\<lparr>started := started st @ [[ascii ''pppd'', ascii ''plugin'', PLUGIN_PATH env, if_name ethif,
           ascii ''rp_pppoe_sess'', small (session_text (srv_big env) s), ascii ''rp_pppoe_service'', name,
           ascii ''file'', PPPOE_SERVER_OPTIONS env, address_arg s] @ common_args env @ unit_args env st s]\<rparr>))))"

definition startPPPD :: "server_env \<Rightarrow> nat \<Rightarrow> server \<Rightarrow> server option" where
  "startPPPD env ses st =
     (if UseLinuxKernelModePPPoE env then startPPPDLinuxKernelMode env ses st else startPPPDUserMode env ses st)"

section \<open>PADR\<close>

text \<open>The first configured name replaces an empty one.\<close>

definition default_service :: "server \<Rightarrow> request_tags option" where
  "default_service st =
     (if svc_length (request st) = 0 \<and> ServiceNames st \<noteq> [] then
        map_option (\<lambda>pl. (request st)\<lparr>svc_payload := pl, svc_length := length (hd (ServiceNames st))\<rparr>)
          (wr_bytes (svc_payload (request st)) 0 (hd (ServiceNames st)))
      else Some (request st))"

text \<open>
  The child process: the PADS, then \<open>pppd\<close>. It works on a copy of the memory, so of the state only
  what it sends and starts is kept.
\<close>

definition padr_child :: "server_env \<Rightarrow> Interface \<Rightarrow> PPPoEPacket \<Rightarrow> nat \<Rightarrow> server \<Rightarrow> server option" where
  "padr_child env ethif packet ses st =
     Option.bind (default_service st) (\<lambda>rq.
     let st1 = st\<lparr>request := rq\<rparr> in
     Option.bind (copy_raw (reply_tags \<lparr>tag_type = svc_type rq, tag_data = requested st1\<rparr> rq) empty_buf) (\<lambda>b.
       map_option (\<lambda>st2. st\<lparr>sent := sent st2, started := started st2\<rparr>)
         (startPPPD env ses (srv_send (if_sock ethif)
           (discovery_frame (Discovery_type st) (if_mac ethif) (h_source packet) CODE_PADS (ses_sess (Sessions st ses)) b) st1))))"

text \<open>
  A slot for the session, and the process. \<open>fork\<close> is what \<open>fork\<close> returns in the parent.
\<close>

definition open_session ::
  "server_env \<Rightarrow> nat \<Rightarrow> Interface \<Rightarrow> PPPoEPacket \<Rightarrow> nat \<Rightarrow> int \<Rightarrow> name_ptr \<Rightarrow> server \<Rightarrow> server option" where
  "open_session env i ethif packet now fork name st =
     (case pppoe_alloc_session now st of
        (None, st) \<Rightarrow> sendErrorPADS (if_sock ethif) (if_mac ethif) (h_source packet)
          TAG_AC_SYSTEM_ERROR ''RP-PPPoE: Server: No client slots available'' st
      | (Some ses, st) \<Rightarrow>
          let st = upd_ses ses (\<lambda>s. s\<lparr>ses_eth := h_source packet, ses_ethif := Some i, ses_flags := 0,
                 startTime := now, ses_serviceName := name\<rparr>) st in
          if fork < 0 then
            Option.bind (sendErrorPADS (if_sock ethif) (if_mac ethif) (h_source packet)
                TAG_AC_SYSTEM_ERROR ''RP-PPPoE: Server: Unable to start session process'' st)
              (\<lambda>st. map_option snd (pppoe_free_session ses st))
          else
            map_option (\<lambda>st2. (upd_ses ses (\<lambda>s. s\<lparr>ses_pid := nat fork\<rparr>) st2)
              \<lparr>children := children st2 @ [(nat fork, ses)]\<rparr>) (padr_child env ethif packet ses st))"

definition cookie_ok :: "server_env \<Rightarrow> Interface \<Rightarrow> PPPoEPacket \<Rightarrow> server \<Rightarrow> bool" where
  "cookie_ok env ethif packet st \<longleftrightarrow>
     tag_type (receivedCookie (request st)) \<noteq> 0 \<and>
     length (tag_data (receivedCookie (request st))) = COOKIE_LEN env \<and>
     tag_data (receivedCookie (request st)) = genCookie env (h_source packet) (if_mac ethif) (CookieSeed st)"

text \<open>The service name of a PADR: \<open>None\<close> is a name that is not offered.\<close>

definition padr_service :: "server \<Rightarrow> name_ptr option" where
  "padr_service st =
     (if svc_length (request st) \<noteq> 0 then
        (if ServiceNames st = [] then Some Requested_payload
         else map_option Configured (find_service (requested st) 0 (ServiceNames st)))
      else Some Empty_name)"

definition padr_answer :: "server_env \<Rightarrow> nat \<Rightarrow> Interface \<Rightarrow> PPPoEPacket \<Rightarrow> nat \<Rightarrow> int \<Rightarrow> server \<Rightarrow> server option" where
  "padr_answer env i ethif packet now fork st =
     (if \<not> cookie_ok env ethif packet st then Some st
      else if svc_type (request st) = 0 then
        sendErrorPADS (if_sock ethif) (if_mac ethif) (h_source packet)
          TAG_SERVICE_NAME_ERROR ''RP-PPPoE: Server: No service name tag'' st
      else
        (case padr_service st of
           None \<Rightarrow> sendErrorPADS (if_sock ethif) (if_mac ethif) (h_source packet)
             TAG_SERVICE_NAME_ERROR ''RP-PPPoE: Server: Invalid service name tag'' st
         | Some n \<Rightarrow> open_session env i ethif packet now fork n st))"

definition padr_globals :: "request_tags \<Rightarrow> request_tags" where
  "padr_globals rq = rq\<lparr>rq_relayId := (rq_relayId rq)\<lparr>tag_type := 0\<rparr>,
     rq_hostUniq := (rq_hostUniq rq)\<lparr>tag_type := 0\<rparr>,
     receivedCookie := (receivedCookie rq)\<lparr>tag_type := 0\<rparr>, svc_type := 0\<rparr>"

definition processPADR :: "server_env \<Rightarrow> nat \<Rightarrow> PPPoEPacket \<Rightarrow> nat \<Rightarrow> int \<Rightarrow> server \<Rightarrow> server option" where
  "processPADR env i packet now fork st =
     Option.bind (interface st (Some i)) (\<lambda>ethif.
       if h_dest packet \<noteq> if_mac ethif \<or> NOT_UNICAST (h_source packet)
       then Some (st\<lparr>request := padr_globals (request st)\<rparr>)
       else
         Option.bind (parsePacket packet parsePADRTags (padr_globals (request st))) (\<lambda>(_, rq).
           padr_answer env i ethif packet now fork (st\<lparr>request := rq\<rparr>)))"

section \<open>Messages of the operator\<close>

text \<open>\<open>sendHURLorMOTM\<close>, which the control channel calls with the connection of a session.\<close>

definition sendHURLorMOTM :: "PPPoEConnection \<Rightarrow> u8 list \<Rightarrow> nat \<Rightarrow> server \<Rightarrow> server option" where
  "sendHURLorMOTM conn url tag st =
     (if conn_session conn = 0 then Some st
      else if discoverySocket conn < 0 then Some st
      else if tag = TAG_HURL \<and> take 7 url \<noteq> ascii ''http://'' then Some st
      else if length url > 256 then Some st
      else map_option (\<lambda>b. srv_send (discoverySocket conn)
          (discovery_frame (Discovery_type st) (myEth conn) (peerEth conn) CODE_PADM (conn_session conn) b) st)
        (copy_tag \<lparr>tag_type = (if tag = TAG_HURL then TAG_HURL else TAG_MOTM), tag_data = url\<rparr> empty_buf))"

section \<open>Dispatch\<close>

definition serverProcessPacket :: "server_env \<Rightarrow> nat \<Rightarrow> recv \<Rightarrow> nat \<Rightarrow> int \<Rightarrow> server \<Rightarrow> server option" where
  "serverProcessPacket env i rx now fork st =
     (case rx of
        Recv_error \<Rightarrow> Some st
      | Recv packet len \<Rightarrow>
          if bogus_length packet len then Some st
          else if ver packet \<noteq> 1 \<or> ptype packet \<noteq> 1 then Some st
          else if code packet = CODE_PADI then processPADI env i packet st
          else if code packet = CODE_PADR then processPADR env i packet now fork st
          else if code packet = CODE_PADT then processPADT env i packet st
          else Some st)"

text \<open>
  The events of the main loop: an interface is readable (\<open>now\<close> is the time, \<open>fork\<close> what \<open>fork\<close>
  would return), a child has ended, SIGTERM or SIGINT has come.
\<close>

datatype server_event =
    Interface_readable nat recv nat int
  | Child_ended nat
  | Terminate

definition server_step :: "server_env \<Rightarrow> server_event \<Rightarrow> server \<Rightarrow> server option" where
  "server_step env ev st =
     (case ev of
        Interface_readable i rx now fork \<Rightarrow> serverProcessPacket env i rx now fork st
      | Child_ended pid \<Rightarrow>
          (case map_of (children st) pid of
             None \<Rightarrow> Some st
           | Some ses \<Rightarrow> childHandler ses (st\<lparr>children := filter (\<lambda>(p, s). p \<noteq> pid) (children st)\<rparr>))
      | Terminate \<Rightarrow> killAllSessions st)"

section \<open>Initialisation\<close>

definition incrementIPAddress :: "u8 list \<Rightarrow> u8 list" where
  "incrementIPAddress ip =
     (let ip = ip[3 := ip ! 3 + 1] in
      if ip ! 3 \<noteq> 0 then ip else
      let ip = ip[2 := ip ! 2 + 1] in
      if ip ! 2 \<noteq> 0 then ip else
      let ip = ip[1 := ip ! 1 + 1] in
      if ip ! 1 \<noteq> 0 then ip else ip[0 := ip ! 0 + 1])"

text \<open>
  \<open>fgets\<close> with a buffer of \<open>MAXLINE\<close> bytes: a line with its newline, or as much of it as fits.
\<close>

definition MAXLINE :: nat where "MAXLINE = 512"

fun fgets :: "nat \<Rightarrow> u8 list \<Rightarrow> u8 list \<times> u8 list" where
  "fgets 0 s = ([], s)"
| "fgets (Suc n) [] = ([], [])"
| "fgets (Suc n) (c # s) = (if c = 10 then ([c], s) else (let (l, r) = fgets n s in (c # l, r)))"

text \<open>\<open>%u\<close> of \<open>sscanf\<close>, which converts as \<open>strtoul\<close> does, and a format of such fields with one byte between.\<close>

definition is_digit :: "u8 \<Rightarrow> bool" where
  "is_digit c \<longleftrightarrow> 48 \<le> c \<and> c \<le> 57"

definition is_space :: "u8 \<Rightarrow> bool" where
  "is_space c \<longleftrightarrow> c = 32 \<or> (9 \<le> c \<and> c \<le> 13)"

definition scan_u :: "u8 list \<Rightarrow> (nat \<times> u8 list) option" where
  "scan_u s =
     (let s = dropWhile is_space s;
          neg = (s \<noteq> [] \<and> hd s = 45);
          s = (if s \<noteq> [] \<and> (hd s = 43 \<or> hd s = 45) then tl s else s);
          ds = takeWhile is_digit s;
          v = min (fold (\<lambda>c n. 10 * n + (unat c - 48)) ds 0) (2 ^ 32 - 1)
      in if ds = [] then None else Some (if neg then (2 ^ 32 - v) mod 2 ^ 32 else v, dropWhile is_digit s))"

fun sscanf :: "u8 list \<Rightarrow> u8 list \<Rightarrow> nat list" where
  "sscanf [] s = (case scan_u s of None \<Rightarrow> [] | Some (v, r) \<Rightarrow> [v])"
| "sscanf (c # cs) s =
     (case scan_u s of
        None \<Rightarrow> []
      | Some (v, r) \<Rightarrow> v # (if r \<noteq> [] \<and> hd r = c then sscanf cs (tl r) else []))"

text \<open>
  One line of the pool file, with the slot number reached. A write to a session past the table is
  outside the array.
\<close>

definition octets :: "nat list \<Rightarrow> bool" where
  "octets vs \<longleftrightarrow> (\<forall>v \<in> set vs. v < 256)"

definition set_addr :: "nat \<Rightarrow> (ClientSession \<Rightarrow> ClientSession) \<Rightarrow> server \<Rightarrow> server option" where
  "set_addr i f st = (if i < NumSessionSlots st then Some (upd_ses i f st) else None)"

function install_range :: "nat list \<Rightarrow> nat \<Rightarrow> nat \<Rightarrow> nat \<Rightarrow> server \<Rightarrow> (nat \<times> server) option" where
  "install_range abc d e numAddrs st =
     (if d \<le> e then
        Option.bind (set_addr numAddrs (\<lambda>s. s\<lparr>peerip := map word_of_nat (abc @ [d])\<rparr>) st) (\<lambda>st.
          install_range abc (d + 1) e (numAddrs + 1) st)
      else Some (numAddrs, st))"
  by pat_completeness auto

termination
  by (relation "measure (\<lambda>(abc, d, e, n, st). e + 1 - d)") auto

definition pool_line :: "bool \<Rightarrow> u8 list \<Rightarrow> nat \<Rightarrow> server \<Rightarrow> (nat \<times> server) option" where
  "pool_line install line numAddrs st =
     (let both = sscanf (ascii ''...:...'') line; range = sscanf (ascii ''...-'') line; one = sscanf (ascii ''...'') line in
      if length both = 8 \<and> octets both then
        map_option (\<lambda>st. (numAddrs + 1, st))
          (if install then set_addr numAddrs (\<lambda>s. s\<lparr>myip := map word_of_nat (take 4 both),
                                                 peerip := map word_of_nat (drop 4 both)\<rparr>) st
           else Some st)
      else if length range = 5 \<and> octets range then
        (let d = min (range ! 3) (range ! 4); e = max (range ! 3) (range ! 4) in
         if install then install_range (take 3 range) d e numAddrs st
         else Some (numAddrs + (e - d) + 1, st))
      else if length one = 4 \<and> octets one then
        map_option (\<lambda>st. (numAddrs + 1, st))
          (if install then set_addr numAddrs (\<lambda>s. s\<lparr>peerip := map word_of_nat one\<rparr>) st else Some st)
      else Some (numAddrs, st))"

lemma fgets_shorter: "fgets (Suc n) (c # s) = (l, r) \<Longrightarrow> length r < Suc (length s)"
proof (induction n arbitrary: c s l r)
  case 0
  then show ?case by (auto split: if_splits)
next
  case (Suc n)
  then show ?case by (cases s) (fastforce split: if_splits prod.splits)+
qed

text \<open>The whole file. A count of zero is the exit through \<open>rp_fatal\<close>.\<close>

function pool_lines :: "bool \<Rightarrow> u8 list \<Rightarrow> nat \<Rightarrow> server \<Rightarrow> (nat \<times> server) option" where
  "pool_lines install pool numAddrs st =
     (if pool = [] then Some (numAddrs, st)
      else
        (let (line, rest) = fgets (MAXLINE - 1) pool in
         Option.bind (pool_line install (takeWhile (\<lambda>c. c \<noteq> 0) line) numAddrs st) (\<lambda>(n, st).
           pool_lines install rest n st)))"
  by pat_completeness auto

termination
proof (relation "measure (\<lambda>(i, pool, n, st). length pool)", simp, goal_cases)
  case (1 install pool numAddrs st x line rest y n st')
  have "fgets (Suc 510) (hd pool # tl pool) = (line, rest)"
    using 1 by (simp add: MAXLINE_def eval_nat_numeral)
  from fgets_shorter [OF this] 1 show ?case by simp
qed

definition parseAddressPool :: "u8 list \<Rightarrow> bool \<Rightarrow> server \<Rightarrow> (nat \<times> server) option" where
  "parseAddressPool pool install st = pool_lines install pool 0 st"

text \<open>
  The permutation of the option \<open>-r\<close>: for each \<open>i\<close> the place \<open>j\<close> it is exchanged with, where
  \<open>rnd i\<close> is what \<open>rand\<close> returned.
\<close>

fun shuffle :: "(nat \<Rightarrow> nat) \<Rightarrow> nat \<Rightarrow> nat \<Rightarrow> nat list \<Rightarrow> nat list" where
  "shuffle rnd 0 i p = p"
| "shuffle rnd (Suc n) i p =
     (let j = i + rnd i mod (length p - i) in shuffle rnd n (Suc i) (p[i := p ! j, j := p ! i]))"

definition session_order :: "bool \<Rightarrow> (nat \<Rightarrow> nat) \<Rightarrow> nat \<Rightarrow> nat list" where
  "session_order randomize rnd n = (if randomize then shuffle rnd (n - 1) 0 [0..<n] else [0..<n])"

text \<open>The successor of a session in the list that links them in the given order.\<close>

definition link_next :: "nat list \<Rightarrow> nat \<Rightarrow> nat option" where
  "link_next order i = map_of (zip (butlast order) (tl order)) i"

text \<open>
  The sessions after \<open>main\<close> has set them up without an address pool: \<open>calloc\<close>, the addresses counted
  up from \<open>LocalIP\<close> (if asked for) and \<open>RemoteIP\<close>, the numbers, and the free list.
\<close>

definition init_session :: "bool \<Rightarrow> nat \<Rightarrow> bool \<Rightarrow> u8 list \<Rightarrow> u8 list \<Rightarrow> nat list \<Rightarrow> nat \<Rightarrow> ClientSession" where
  "init_session big offset IncrLocalIP LocalIP RemoteIP order i =
     \<lparr>ses_next = link_next order i, ses_pid = 0, ses_ethif = None,
      myip = (if IncrLocalIP then (incrementIPAddress ^^ i) LocalIP else LocalIP),
      peerip = (incrementIPAddress ^^ i) RemoteIP,
      ses_sess = htons big (word_of_nat (i + 1 + offset)), ses_eth = replicate 6 0, ses_flags = 0,
      startTime = 0, ses_serviceName = Empty_name\<rparr>"

definition init_server ::
  "bool \<Rightarrow> nat \<Rightarrow> nat \<Rightarrow> bool \<Rightarrow> u8 list \<Rightarrow> u8 list \<Rightarrow> nat list \<Rightarrow> Interface list \<Rightarrow> u8 list list \<Rightarrow> u8 list \<Rightarrow> u8 list \<Rightarrow>
   nat \<Rightarrow> server" where
  "init_server big slots offset IncrLocalIP LocalIP RemoteIP order ifs names ac seed disc =
     \<lparr>Sessions = init_session big offset IncrLocalIP LocalIP RemoteIP order,
      FreeSessions = Some (hd order), LastFreeSession = Some (last order), BusySessions = None,
      NumSessionSlots = slots, NumActiveSessions = 0, SessOffset = offset, interfaces = ifs,
      ServiceNames = names, ACName = ac, CookieSeed = seed, Discovery_type = disc,
      request = \<lparr>rq_hostUniq = no_tag, rq_relayId = no_tag, receivedCookie = no_tag, svc_type = 0, svc_length = 0,
        svc_payload = replicate ETH_DATA_LEN 0\<rparr>,
      sent = [], killed = [], children = [], started = []\<rparr>"

end
