(* ===== verification/Session_Pool.thy ===== *)
theory Session_Pool
  imports Prelude
begin

text \<open>
  The interface of a table of sessions that the PPPoE relay and the PPPoE server share: slots are
  taken from a list of free ones and given back to it. The place where a slot is put back, in
  front or at the end, is a parameter; the server promises the end.
\<close>

datatype 'a pool_op = Take 'a | Give nat

text \<open>A run of the operations of a table, with what every \<open>Take\<close> returned.\<close>

fun pool_run :: "('a \<Rightarrow> 's \<Rightarrow> (nat option \<times> 's) option) \<Rightarrow> (nat \<Rightarrow> 's \<Rightarrow> 's option) \<Rightarrow> 'a pool_op list \<Rightarrow> 's \<Rightarrow>
    (nat option list \<times> 's) option" where
  "pool_run tk gv [] s = Some ([], s)"
| "pool_run tk gv (Take a # ops) s =
     Option.bind (tk a s) (\<lambda>(r, s). map_option (\<lambda>(rs, t). (r # rs, t)) (pool_run tk gv ops s))"
| "pool_run tk gv (Give i # ops) s = Option.bind (gv i s) (pool_run tk gv ops)"

text \<open>The specification: the list of the free slots and the busy ones; \<open>None\<close> when a free slot is given back.\<close>

fun queue_run :: "(nat \<Rightarrow> nat list \<Rightarrow> nat list) \<Rightarrow> 'a pool_op list \<Rightarrow> nat list \<Rightarrow> nat list \<Rightarrow>
    (nat option list \<times> nat list \<times> nat list) option" where
  "queue_run put [] fs bs = Some ([], fs, bs)"
| "queue_run put (Take a # ops) fs bs =
     (case fs of
        [] \<Rightarrow> map_option (\<lambda>(rs, t). (None # rs, t)) (queue_run put ops [] bs)
      | i # fs \<Rightarrow> map_option (\<lambda>(rs, t). (Some i # rs, t)) (queue_run put ops fs (i # bs)))"
| "queue_run put (Give i # ops) fs bs =
     (if i \<in> set bs then queue_run put ops (put i fs) (remove1 i bs) else None)"

fun takes :: "'a pool_op list \<Rightarrow> nat" where
  "takes [] = 0"
| "takes (Take a # ops) = Suc (takes ops)"
| "takes (Give i # ops) = takes ops"

section \<open>First in, first out\<close>

primrec at_end :: "nat \<Rightarrow> nat list \<Rightarrow> nat list" where
  "at_end i [] = [i]"
| "at_end i (f # fs) = f # at_end i fs"

lemma at_end_append [simp]: "at_end i (fs @ gs) = fs @ at_end i gs"
  by (induction fs) auto

lemma at_end_eq: "at_end i fs = fs @ [i]"
  by (induction fs) auto

lemma queue_waits:
  "queue_run at_end ops (fs @ i # gs) bs = Some (rs, fs', bs') \<Longrightarrow> i \<notin> set fs \<Longrightarrow> i \<notin> set bs \<Longrightarrow>
   takes ops \<le> length fs \<Longrightarrow> Some i \<notin> set rs"
proof (induction ops arbitrary: fs gs bs rs)
  case (Cons x ops)
  show ?case
  proof (cases x)
    case (Take a)
    then obtain j fs1 where fs: "fs = j # fs1" using Cons.prems(4) by (cases fs) auto
    then obtain rs1 where "queue_run at_end ops (fs1 @ i # gs) (j # bs) = Some (rs1, fs', bs')" "rs = Some j # rs1"
      using Cons.prems(1) Take by auto
    then show ?thesis using Cons.IH [of fs1 gs "j # bs" rs1] Cons.prems fs Take by auto
  next
    case (Give j)
    then have "queue_run at_end ops (fs @ i # at_end j gs) (remove1 j bs) = Some (rs, fs', bs')"
      using Cons.prems(1) by (simp split: if_splits)
    moreover have "i \<notin> set (remove1 j bs)" using Cons.prems(3) set_remove1_subset [of j bs] by blast
    ultimately show ?thesis using Cons.IH [of fs "at_end j gs" "remove1 j bs" rs] Cons.prems Give by simp
  qed
qed simp

section \<open>The interface\<close>

locale session_pool =
  fixes tk :: "'a \<Rightarrow> 's \<Rightarrow> (nat option \<times> 's) option"
    and gv :: "nat \<Rightarrow> 's \<Rightarrow> 's option"
    and put :: "nat \<Rightarrow> nat list \<Rightarrow> nat list"
    and pool :: "'s \<Rightarrow> nat list \<Rightarrow> nat list \<Rightarrow> bool"
  assumes pool_distinct: "pool s fs bs \<Longrightarrow> distinct (fs @ bs)"
    and set_put: "set (put i fs) = insert i (set fs)"
    and take_none: "pool s [] bs \<Longrightarrow> \<exists>s'. tk a s = Some (None, s') \<and> pool s' [] bs"
    and take_some: "pool s (i # fs) bs \<Longrightarrow> \<exists>s'. tk a s = Some (Some i, s') \<and> pool s' fs (i # bs)"
    and give_back: "pool s fs bs \<Longrightarrow> i \<in> set bs \<Longrightarrow> \<exists>s'. gv i s = Some s' \<and> pool s' (put i fs) (remove1 i bs)"
begin

text \<open>A slot that is handed out is in nobody's use, and the table refuses only when it is full.\<close>

lemma take_fresh: "pool s fs bs \<Longrightarrow> tk a s = Some (Some i, s') \<Longrightarrow> i \<notin> set bs"
  using take_none [of s bs a] take_some [of s _ _ bs a] pool_distinct [of s fs bs] by (cases fs) auto

lemma take_refuses: "pool s fs bs \<Longrightarrow> tk a s = Some (None, s') \<Longrightarrow> fs = []"
  using take_some [of s _ _ bs a] by (cases fs) auto

text \<open>The table implements the specification.\<close>

lemma runs:
  "pool s fs bs \<Longrightarrow> queue_run put ops fs bs = Some (rs, fs', bs') \<Longrightarrow>
   \<exists>s'. pool_run tk gv ops s = Some (rs, s') \<and> pool s' fs' bs'"
proof (induction ops arbitrary: s fs bs rs)
  case (Cons x ops)
  show ?case
  proof (cases x)
    case (Take a)
    show ?thesis
    proof (cases fs)
      case Nil
      with Cons.prems(2) Take obtain rs1 where "queue_run put ops [] bs = Some (rs1, fs', bs')" "rs = None # rs1"
        by auto
      moreover obtain s1 where "tk a s = Some (None, s1)" "pool s1 [] bs"
        using take_none Cons.prems(1) Nil by blast
      ultimately show ?thesis using Cons.IH [of s1 "[]" bs rs1] Take by auto
    next
      case (Cons i fs1)
      with Cons.prems(2) Take obtain rs1 where "queue_run put ops fs1 (i # bs) = Some (rs1, fs', bs')" "rs = Some i # rs1"
        by auto
      moreover obtain s1 where "tk a s = Some (Some i, s1)" "pool s1 fs1 (i # bs)"
        using take_some Cons.prems(1) Cons by blast
      ultimately show ?thesis using Cons.IH [of s1 fs1 "i # bs" rs1] Take by auto
    qed
  next
    case (Give i)
    then have "i \<in> set bs" "queue_run put ops (put i fs) (remove1 i bs) = Some (rs, fs', bs')"
      using Cons.prems(2) by (auto split: if_splits)
    then show ?thesis using give_back [OF Cons.prems(1)] Cons.IH Give by fastforce
  qed
qed simp

text \<open>No slot is lost and none appears from nowhere.\<close>

lemma conserved:
  "pool s fs bs \<Longrightarrow> queue_run put (ops :: 'a pool_op list) fs bs = Some (rs, fs', bs') \<Longrightarrow> set (fs' @ bs') = set (fs @ bs)"
proof (induction ops arbitrary: s fs bs rs)
  case (Cons x ops)
  show ?case
  proof (cases x)
    case (Take a)
    show ?thesis
    proof (cases fs)
      case Nil
      then obtain rs1 where "queue_run put ops fs bs = Some (rs1, fs', bs')" using Cons.prems(2) Take by auto
      then show ?thesis by (rule Cons.IH [OF Cons.prems(1)])
    next
      case (Cons i fs1)
      then show ?thesis using Cons.prems Take take_some [of s i fs1 bs a] Cons.IH [of _ fs1 "i # bs"] by auto
    qed
  next
    case (Give i)
    then have i: "i \<in> set bs" and run: "queue_run put ops (put i fs) (remove1 i bs) = Some (rs, fs', bs')"
      using Cons.prems(2) by (auto split: if_splits)
    obtain s1 where "pool s1 (put i fs) (remove1 i bs)" using give_back [OF Cons.prems(1) i] by blast
    then show ?thesis using Cons.IH [OF _ run] pool_distinct [OF Cons.prems(1)] i by (auto simp: set_put)
  qed
qed simp

end

text \<open>A table that puts slots back at the end.\<close>

locale fifo_pool = session_pool tk gv at_end pool
  for tk :: "'a \<Rightarrow> 's \<Rightarrow> (nat option \<times> 's) option" and gv :: "nat \<Rightarrow> 's \<Rightarrow> 's option"
    and pool :: "'s \<Rightarrow> nat list \<Rightarrow> nat list \<Rightarrow> bool"
begin

text \<open>A slot that was given back is not handed out before all slots that were free then.\<close>

lemma given_back_waits:
  assumes "pool s fs bs" "i \<in> set bs" "queue_run at_end (Give i # ops) fs bs = Some (rs, fs', bs')"
    and "takes ops \<le> length fs"
  shows "\<exists>s'. pool_run tk gv (Give i # ops) s = Some (rs, s') \<and> pool s' fs' bs' \<and> Some i \<notin> set rs"
proof -
  have d: "i \<notin> set fs" "distinct bs" using pool_distinct [OF assms(1)] assms(2) by auto
  have "queue_run at_end ops (fs @ i # []) (remove1 i bs) = Some (rs, fs', bs')"
    using assms(2,3) by (simp add: at_end_eq)
  from queue_waits [OF this d(1) _ assms(4)] d(2) have "Some i \<notin> set rs" by simp
  then show ?thesis using runs [OF assms(1,3)] by blast
qed

end

end
