(* ===== verification/Server_Pool.thy ===== *)
theory Server_Pool
  imports Pppoe_Server Session_Pool
begin

text \<open>
  The session table of the PPPoE server: the free list and the busy list behind the pointers, what
  \<open>pppoe_alloc_session\<close> and \<open>pppoe_free_session\<close> do to them, and the table as an instance of the
  first-in-first-out pool of sessions. The pool file is read at the end.
\<close>

section \<open>The lists behind the pointers\<close>

abbreviation "cn st \<equiv> \<lambda>i. ses_next (Sessions st i)"

definition server_lists :: "server \<Rightarrow> nat list \<Rightarrow> nat list \<Rightarrow> bool" where
  "server_lists st fr bu \<longleftrightarrow>
     lseg (cn st) (FreeSessions st) fr \<and> lseg (cn st) (BusySessions st) bu \<and> distinct (fr @ bu) \<and>
     LastFreeSession st = (if fr = [] then None else Some (last fr)) \<and> NumActiveSessions st = length bu"

lemma upd_ses_simps [simp]:
  "Sessions (upd_ses i f st) = (Sessions st)(i := f (Sessions st i))"
  "FreeSessions (upd_ses i f st) = FreeSessions st" "LastFreeSession (upd_ses i f st) = LastFreeSession st"
  "BusySessions (upd_ses i f st) = BusySessions st" "NumSessionSlots (upd_ses i f st) = NumSessionSlots st"
  "NumActiveSessions (upd_ses i f st) = NumActiveSessions st" "SessOffset (upd_ses i f st) = SessOffset st"
  "interfaces (upd_ses i f st) = interfaces st" "ServiceNames (upd_ses i f st) = ServiceNames st"
  "ACName (upd_ses i f st) = ACName st" "CookieSeed (upd_ses i f st) = CookieSeed st"
  "Discovery_type (upd_ses i f st) = Discovery_type st" "request (upd_ses i f st) = request st"
  "sent (upd_ses i f st) = sent st" "killed (upd_ses i f st) = killed st"
  "children (upd_ses i f st) = children st" "started (upd_ses i f st) = started st"
  by (simp_all add: upd_ses_def)

lemma server_lists_cong:
  "(\<And>x. ses_next (Sessions st' x) = ses_next (Sessions st x)) \<Longrightarrow> FreeSessions st' = FreeSessions st \<Longrightarrow>
   LastFreeSession st' = LastFreeSession st \<Longrightarrow> BusySessions st' = BusySessions st \<Longrightarrow>
   NumActiveSessions st' = NumActiveSessions st \<Longrightarrow> server_lists st' fr bu = server_lists st fr bu"
  by (simp add: server_lists_def)

text \<open>What the two operations leave alone.\<close>

definition same_setup :: "server \<Rightarrow> server \<Rightarrow> bool" where
  "same_setup st st' \<longleftrightarrow>
     NumSessionSlots st' = NumSessionSlots st \<and> SessOffset st' = SessOffset st \<and> interfaces st' = interfaces st \<and>
     ServiceNames st' = ServiceNames st \<and> ACName st' = ACName st \<and> CookieSeed st' = CookieSeed st \<and>
     Discovery_type st' = Discovery_type st \<and>
     (\<forall>i. ses_sess (Sessions st' i) = ses_sess (Sessions st i) \<and> myip (Sessions st' i) = myip (Sessions st i) \<and>
          peerip (Sessions st' i) = peerip (Sessions st i))"

definition same_trace :: "server \<Rightarrow> server \<Rightarrow> bool" where
  "same_trace st st' \<longleftrightarrow> request st' = request st \<and> sent st' = sent st \<and> killed st' = killed st \<and>
     children st' = children st \<and> started st' = started st"

lemma same_setup_refl [simp, intro]: "same_setup st st"
  by (simp add: same_setup_def)

lemma same_setup_trans: "same_setup st st' \<Longrightarrow> same_setup st' st'' \<Longrightarrow> same_setup st st''"
  by (simp add: same_setup_def)

section \<open>pppoe_alloc_session\<close>

lemma alloc_none: "FreeSessions st = None \<Longrightarrow> pppoe_alloc_session now st = (None, st)"
  by (simp add: pppoe_alloc_session_def)

definition fresh_session :: "nat \<Rightarrow> nat option \<Rightarrow> ClientSession \<Rightarrow> ClientSession" where
  "fresh_session now n s = s\<lparr>ses_next := n, ses_pid := 0, ses_ethif := None, ses_eth := replicate 6 0, ses_flags := 0,
     startTime := now, ses_serviceName := Empty_name\<rparr>"

lemma alloc_some:
  assumes "server_lists st (s # fr) bu"
  obtains st' where "pppoe_alloc_session now st = (Some s, st')" "server_lists st' fr (s # bu)"
    "same_setup st st'" "same_trace st st'"
    "Sessions st' = (Sessions st)(s := fresh_session now (BusySessions st) (Sessions st s))"
proof -
  define st' where "st' = snd (pppoe_alloc_session now st)"
  have free: "FreeSessions st = Some s" using assms by (simp add: server_lists_def)
  then have eq: "pppoe_alloc_session now st = (Some s, st')"
    by (simp add: st'_def pppoe_alloc_session_def Let_def)
  have S: "Sessions st' = (Sessions st)(s := fresh_session now (BusySessions st) (Sessions st s))"
    using free by (simp add: st'_def pppoe_alloc_session_def Let_def fresh_session_def)
  have F: "FreeSessions st' = ses_next (Sessions st s)" "BusySessions st' = Some s"
    "LastFreeSession st' = (if LastFreeSession st = Some s then None else LastFreeSession st)"
    "NumActiveSessions st' = Suc (NumActiveSessions st)"
    using free by (simp_all add: st'_def pppoe_alloc_session_def Let_def)
  have "cn st' = (cn st)(s := BusySessions st)"
    by (simp add: S fun_eq_iff fresh_session_def)
  then have "lseg (cn st') (FreeSessions st') fr \<and> lseg (cn st') (BusySessions st') (s # bu)"
    using assms unfolding server_lists_def by (simp add: F)
  moreover have "LastFreeSession st' = (if fr = [] then None else Some (last fr))"
    using assms unfolding server_lists_def F by (auto simp: distinct_append)
  ultimately have "server_lists st' fr (s # bu)"
    using assms by (auto simp: server_lists_def F)
  moreover have "same_setup st st'" "same_trace st st'"
    using free by (auto simp: same_setup_def same_trace_def st'_def pppoe_alloc_session_def Let_def)
  ultimately show thesis using that [OF eq _ _ _ S] by blast
qed

section \<open>pppoe_free_session\<close>

lemma find_busy_found:
  "lseg nxt p (xs @ s # ys) \<Longrightarrow> s \<notin> set xs \<Longrightarrow>
   find_busy nxt s prv p = Some (True, if xs = [] then prv else Some (last xs))"
proof (induction xs arbitrary: p prv)
  case Nil
  then show ?case by (subst find_busy.simps) simp
next
  case (Cons x xs)
  then show ?case by (subst find_busy.simps) auto
qed

lemma find_busy_not:
  "lseg nxt p xs \<Longrightarrow> s \<notin> set xs \<Longrightarrow> \<exists>q. find_busy nxt s prv p = Some (False, q)"
  by (induction xs arbitrary: p prv) (subst find_busy.simps, fastforce)+

lemma lseg_snoc:
  "lseg nxt p xs \<Longrightarrow> xs \<noteq> [] \<Longrightarrow> nxt s = None \<Longrightarrow> s \<notin> set xs \<Longrightarrow> distinct xs \<Longrightarrow>
   lseg (nxt(last xs := Some s)) p (xs @ [s])"
proof (induction xs arbitrary: p)
  case (Cons x xs)
  then show ?case by (cases xs) auto
qed simp

text \<open>The \<open>next\<close> fields and the head of the busy list after the session is taken out.\<close>

lemma free_session:
  assumes "server_lists st fr bu" "s \<in> set bu"
  obtains st' where "pppoe_free_session s st = Some (0, st')" "server_lists st' (fr @ [s]) (remove1 s bu)"
    "same_setup st st'" "same_trace st st'"
    "\<And>x. x \<noteq> s \<Longrightarrow> \<exists>n. Sessions st' x = (Sessions st x)\<lparr>ses_next := n\<rparr>"
    "\<exists>n. Sessions st' s = (Sessions st s)\<lparr>ses_next := n, ses_pid := 0, ses_flags := 0\<rparr>"
proof -
  obtain as bs where bu: "bu = as @ s # bs" "s \<notin> set as" using assms(2) by (meson split_list_first)
  have L: "lseg (cn st) (FreeSessions st) fr" "lseg (cn st) (BusySessions st) (as @ s # bs)" "distinct (fr @ as @ s # bs)"
    "LastFreeSession st = (if fr = [] then None else Some (last fr))" "NumActiveSessions st = length bu"
    using assms(1) by (auto simp: server_lists_def bu)
  have r: "remove1 s bu = as @ bs" using bu by (simp add: remove1_append)
  define prv where "prv = (if as = [] then None else Some (last as))"
  define nxt where "nxt = ses_next (Sessions st s)"
  define st1 where "st1 = (case prv of Some p \<Rightarrow> upd_ses p (\<lambda>s. s\<lparr>ses_next := nxt\<rparr>) st | None \<Rightarrow> st\<lparr>BusySessions := nxt\<rparr>)"
  define st2 where "st2 = upd_ses s (\<lambda>s. s\<lparr>ses_next := None\<rparr>) st1"
  define st3 where "st3 = (case LastFreeSession st2 of
      Some l \<Rightarrow> (upd_ses l (\<lambda>x. x\<lparr>ses_next := Some s\<rparr>) st2)\<lparr>LastFreeSession := Some s\<rparr>
    | None \<Rightarrow> st2\<lparr>FreeSessions := Some s, LastFreeSession := Some s\<rparr>)"
  define st4 where "st4 = upd_ses s (\<lambda>s. s\<lparr>ses_pid := 0, ses_flags := 0\<rparr>) st3"
  define st' where "st' = st4\<lparr>NumActiveSessions := NumActiveSessions st4 - 1\<rparr>"
  note defs = st'_def st4_def st3_def st2_def st1_def
  have "find_busy (cn st) s None (BusySessions st) = Some (True, prv)"
    using find_busy_found [OF L(2) bu(2)] by (simp add: prv_def)
  then have eq: "pppoe_free_session s st = Some (0, st')"
    unfolding pppoe_free_session_def Let_def defs nxt_def by simp
  have ne: "s \<noteq> x" if "x \<in> set (fr @ as @ bs)" for x using that L(3) by auto
  have last: "last as \<noteq> s" if "as \<noteq> []" using last_in_set [OF that] ne by auto
  have lastf: "last fr \<noteq> s" if "fr \<noteq> []" using last_in_set [OF that] ne by auto
  have N1: "cn st1 = (if as = [] then cn st else (cn st)(last as := nxt))"
    "BusySessions st1 = (if as = [] then nxt else BusySessions st)" "FreeSessions st1 = FreeSessions st"
    "LastFreeSession st1 = LastFreeSession st"
    by (auto simp: st1_def prv_def)
  have B1: "lseg (cn st1) (BusySessions st1) (as @ bs)"
    using lseg_split [OF L(2)] L(3) unfolding N1 nxt_def by auto
  have F1: "lseg (cn st1) (FreeSessions st1) fr"
  proof (cases "as = []")
    case False
    then have "last as \<notin> set fr" using last_in_set [OF False] L(3) by auto
    then show ?thesis using L(1) False unfolding N1 by simp
  qed (use L(1) N1 in simp)
  have N2: "cn st2 = (cn st1)(s := None)" "BusySessions st2 = BusySessions st1" "FreeSessions st2 = FreeSessions st1"
    "LastFreeSession st2 = LastFreeSession st"
    by (simp_all add: st2_def fun_eq_iff st1_def split: option.split)
  have B2: "lseg (cn st2) (BusySessions st2) (as @ bs)" and F2: "lseg (cn st2) (FreeSessions st2) fr"
    using B1 F1 L(3) unfolding N2 by simp_all
  have N3: "cn st3 = (if fr = [] then cn st2 else (cn st2)(last fr := Some s))" "BusySessions st3 = BusySessions st2"
    "FreeSessions st3 = (if fr = [] then Some s else FreeSessions st2)" "LastFreeSession st3 = Some s"
    using L(4) by (auto simp: st3_def N2(4))
  have "s \<notin> set fr" "distinct fr" "cn st2 s = None" using L(3) fun_cong [OF N2(1), of s] by auto
  then have F3: "lseg (cn st3) (FreeSessions st3) (fr @ [s])"
    using lseg_snoc [OF F2, of s] unfolding N3 by (cases "fr = []") simp_all
  have B3: "lseg (cn st3) (BusySessions st3) (as @ bs)"
  proof (cases "fr = []")
    case False
    from last_in_set [OF False] have "last fr \<notin> set (as @ bs)" using L(3) by (auto simp del: last_in_set)
    then show ?thesis using B2 False unfolding N3 by simp
  qed (use B2 N3 in simp)
  have N4: "cn st' = cn st3" "BusySessions st' = BusySessions st3" "FreeSessions st' = FreeSessions st3"
    "LastFreeSession st' = Some s" "NumActiveSessions st' = NumActiveSessions st - 1"
    by (simp_all add: st'_def st4_def fun_eq_iff) (simp_all add: st3_def st2_def st1_def split: option.split)
  have "server_lists st' (fr @ [s]) (remove1 s bu)"
    unfolding server_lists_def r N4 using F3 B3 L(3,5) bu by auto
  moreover have "same_setup st st'"
    by (simp add: same_setup_def defs split: option.split)
  moreover have "same_trace st st'"
    by (simp add: same_trace_def defs split: option.split)
  moreover have "\<exists>n. Sessions st' x = (Sessions st x)\<lparr>ses_next := n\<rparr>" if "x \<noteq> s" for x
    using that by (auto simp: defs split: option.split intro: exI [of _ "ses_next (Sessions st x)"])
  moreover have "\<exists>n. Sessions st' s = (Sessions st s)\<lparr>ses_next := n, ses_pid := 0, ses_flags := 0\<rparr>"
    by (auto simp: defs split: option.split)
  ultimately show thesis using that [OF eq] by blast
qed

section \<open>The table as a pool\<close>

definition free_slot :: "nat \<Rightarrow> server \<Rightarrow> server option" where
  "free_slot s st = map_option snd (pppoe_free_session s st)"

interpretation slots: fifo_pool "\<lambda>now st. Some (pppoe_alloc_session now st)" free_slot server_lists
proof (unfold_locales, goal_cases)
  case (1 s fs bs)
  then show ?case by (simp add: server_lists_def)
next
  case (2 i fs)
  then show ?case by (simp add: at_end_eq)
next
  case (3 s bs a)
  then show ?case by (simp add: server_lists_def alloc_none)
next
  case (4 s i fs bs a)
  then show ?case by (rule alloc_some [of s i fs bs a]) auto
next
  case (5 s fs bs i)
  then show ?case by (rule free_session) (auto simp: free_slot_def at_end_eq)
qed

end
