(* ===== verification/Server_Props.thy ===== *)
theory Server_Props
  imports Server_Pool
begin

text \<open>
  The invariant of the PPPoE server's tables and its preservation by every event; what the server
  answers to a PADI, a PADR and a PADT.
\<close>

section \<open>The invariant\<close>

definition server_core :: "bool \<Rightarrow> server \<Rightarrow> nat list \<Rightarrow> nat list \<Rightarrow> bool" where
  "server_core big st fr bu \<longleftrightarrow>
     server_lists st fr bu \<and> set (fr @ bu) = {..<NumSessionSlots st} \<and>
     NumSessionSlots st + SessOffset st \<le> 65534 \<and> (\<forall>e \<in> set (interfaces st). 0 \<le> if_sock e) \<and>
     (\<forall>i < NumSessionSlots st. ses_sess (Sessions st i) = htons big (word_of_nat (i + 1 + SessOffset st))) \<and>
     (\<forall>s \<in> set bu. interface st (ses_ethif (Sessions st s)) \<noteq> None)"

text \<open>Every busy session has one process that is waited for.\<close>

definition children_ok :: "server \<Rightarrow> nat list \<Rightarrow> bool" where
  "children_ok st bu \<longleftrightarrow>
     distinct (map fst (children st)) \<and> distinct (map snd (children st)) \<and>
     set (map snd (children st)) = set bu \<and>
     (\<forall>(p, s) \<in> set (children st). ses_pid (Sessions st s) = p \<and> p \<noteq> 0)"

definition server_wf :: "bool \<Rightarrow> server \<Rightarrow> nat list \<Rightarrow> nat list \<Rightarrow> bool" where
  "server_wf big st fr bu \<longleftrightarrow> server_core big st fr bu \<and> children_ok st bu"

definition server_inv :: "bool \<Rightarrow> server \<Rightarrow> bool" where
  "server_inv big st \<longleftrightarrow> (\<exists>fr bu. server_wf big st fr bu)"

text \<open>Steps that touch neither the lists nor the processes.\<close>

definition same_table :: "server \<Rightarrow> server \<Rightarrow> bool" where
  "same_table st st' \<longleftrightarrow> same_setup st st' \<and> FreeSessions st' = FreeSessions st \<and>
     LastFreeSession st' = LastFreeSession st \<and> BusySessions st' = BusySessions st \<and>
     NumActiveSessions st' = NumActiveSessions st \<and> children st' = children st \<and>
     (\<forall>i. ses_next (Sessions st' i) = ses_next (Sessions st i) \<and> ses_pid (Sessions st' i) = ses_pid (Sessions st i) \<and>
          ses_ethif (Sessions st' i) = ses_ethif (Sessions st i))"

lemma same_table_refl [simp, intro]: "same_table st st"
  by (simp add: same_table_def)

lemma same_table_trans: "same_table st st' \<Longrightarrow> same_table st' st'' \<Longrightarrow> same_table st st''"
  by (simp add: same_table_def same_setup_def)

lemma interface_cong: "interfaces st' = interfaces st \<Longrightarrow> interface st' p = interface st p"
  by (cases p) (simp_all add: interface_def)

lemma core_same_table:
  assumes "same_table st st'" shows "server_core big st' fr bu = server_core big st fr bu"
proof -
  have "server_lists st' fr bu = server_lists st fr bu"
    by (rule server_lists_cong) (use assms in \<open>simp_all add: same_table_def\<close>)
  moreover have "interface st' (ses_ethif (Sessions st' s)) = interface st (ses_ethif (Sessions st s))" for s
    using assms interface_cong [of st' st] by (simp add: same_table_def same_setup_def)
  moreover have "NumSessionSlots st' = NumSessionSlots st" "SessOffset st' = SessOffset st" "interfaces st' = interfaces st"
    "\<And>i. ses_sess (Sessions st' i) = ses_sess (Sessions st i)"
    using assms by (simp_all add: same_table_def same_setup_def)
  ultimately show ?thesis unfolding server_core_def by simp
qed

lemma wf_same_table: "same_table st st' \<Longrightarrow> server_wf big st fr bu \<Longrightarrow> server_wf big st' fr bu"
  unfolding server_wf_def core_same_table
  by (simp add: core_same_table) (simp add: children_ok_def same_table_def)

lemma same_table_simps [simp, intro]:
  "same_table st (srv_send sock p st)"
  "same_table st (st\<lparr>request := r\<rparr>)"
  "same_table st (st\<lparr>killed := k\<rparr>)"
  "same_table st (st\<lparr>sent := x, started := y\<rparr>)"
  "same_table st (st\<lparr>started := y\<rparr>)"
  by (simp_all add: same_table_def same_setup_def srv_send_def)

lemma same_table_upd:
  "(\<And>s. ses_next (f s) = ses_next s \<and> ses_pid (f s) = ses_pid s \<and> ses_ethif (f s) = ses_ethif s \<and>
     ses_sess (f s) = ses_sess s \<and> myip (f s) = myip s \<and> peerip (f s) = peerip s) \<Longrightarrow> same_table st (upd_ses i f st)"
  by (simp add: same_table_def same_setup_def)

lemma session_padt_same: "session_padt msg st ses = Some st' \<Longrightarrow> same_table st st'"
  by (auto simp: session_padt_def bind_eq_Some_conv split: option.splits)

lemma stop_same:
  assumes "PppoeStopSession ses reason st = Some st'" shows "same_table st st'"
proof -
  obtain st1 where st1: "session_padt reason st ses = Some st1"
    using assms by (auto simp: PppoeStopSession_def bind_eq_Some_conv)
  define st2 where "st2 = upd_ses ses (\<lambda>s. s\<lparr>ses_flags := ses_flags s OR FLAG_SENT_PADT\<rparr>) st1"
  have "same_table st1 st2" unfolding st2_def by (rule same_table_upd) simp
  moreover have "same_table st2 st'" using assms st1 by (auto simp: PppoeStopSession_def Let_def st2_def split: if_splits)
  ultimately show ?thesis using session_padt_same [OF st1] same_table_trans by blast
qed

lemma kill_loop_same: "kill_loop p st = Some st' \<Longrightarrow> same_table st st'"
proof (erule kill_loop.raw_induct [where P = "\<lambda>p st st'. same_table st st'", rotated])
  fix kill p st st'
  assume ih: "\<And>p st st'. kill p st = Some st' \<Longrightarrow> same_table st st'"
    and step: "(case p of None \<Rightarrow> Some st
      | Some s \<Rightarrow> Option.bind (PppoeStopSession s ''Shutting Down'' st) (\<lambda>st. kill (ses_next (Sessions st s)) st)) = Some st'"
  show "same_table st st'"
  proof (cases p)
    case (Some s)
    then obtain st1 where "PppoeStopSession s ''Shutting Down'' st = Some st1" "kill (ses_next (Sessions st1 s)) st1 = Some st'"
      using step by (simp add: bind_eq_Some_conv) blast
    then show ?thesis by (blast intro: same_table_trans stop_same ih)
  qed (use step in simp)
qed

lemma sendErrorPADS_same: "sendErrorPADS sock source dest tag msg st = Some st' \<Longrightarrow> same_table st st'"
  by (auto simp: sendErrorPADS_def)

lemma PADI_same: "processPADI env i packet st = Some st' \<Longrightarrow> same_table st st'"
proof -
  have sent: "same_table st (srv_send s p (st\<lparr>request := r\<rparr>))" for s p r
    by (rule same_table_trans [OF same_table_simps(2) same_table_simps(1)])
  assume "processPADI env i packet st = Some st'"
  then show ?thesis
    by (auto simp: processPADI_def Let_def bind_eq_Some_conv sent split: if_splits option.splits)
qed

lemma PADT_same: "processPADT env i packet st = Some st' \<Longrightarrow> same_table st st'"
proof -
  assume a: "processPADT env i packet st = Some st'"
  define marked where "marked = upd_ses (session_index (srv_big env) st (session packet))
    (\<lambda>s. s\<lparr>ses_flags := ses_flags s OR FLAG_RECVD_PADT\<rparr>) st"
  have "same_table st marked"
    unfolding marked_def by (rule same_table_upd) simp
  moreover have "st' = st \<or> PppoeStopSession (session_index (srv_big env) st (session packet)) ''Received PADT'' marked = Some st'"
    using a by (auto simp: processPADT_def Let_def bind_eq_Some_conv marked_def split: if_splits)
  ultimately show ?thesis using stop_same same_table_trans by blast
qed

section \<open>The events\<close>

lemma free_core:
  assumes core: "server_core big st fr bu" and s: "s \<in> set bu" and run: "map_option snd (pppoe_free_session s st) = Some st'"
  shows "server_core big st' (fr @ [s]) (remove1 s bu) \<and> children st' = children st \<and>
    (\<forall>x. x \<noteq> s \<longrightarrow> ses_pid (Sessions st' x) = ses_pid (Sessions st x))"
proof -
  have "server_lists st fr bu" using core by (simp add: server_core_def)
  then show ?thesis
  proof (rule free_session [OF _ s])
    fix st2
    assume 1: "pppoe_free_session s st = Some (0, st2)" "server_lists st2 (fr @ [s]) (remove1 s bu)"
      "same_setup st st2" "same_trace st st2"
      "\<And>x. x \<noteq> s \<Longrightarrow> \<exists>n. Sessions st2 x = (Sessions st x)\<lparr>ses_next := n\<rparr>"
      "\<exists>n. Sessions st2 s = (Sessions st s)\<lparr>ses_next := n, ses_pid := 0, ses_flags := 0\<rparr>"
    then have eq: "st2 = st'" using run by simp
    have ethif: "ses_ethif (Sessions st' x) = ses_ethif (Sessions st x)" for x
      using 1(5) [of x] 1(6) by (cases "x = s") (auto simp: eq)
    have "distinct bu" using core by (simp add: server_core_def server_lists_def)
    moreover have "interface st' p = interface st p" for p
      by (rule interface_cong) (use 1(3) in \<open>simp add: same_setup_def eq\<close>)
    ultimately have "server_core big st' (fr @ [s]) (remove1 s bu)"
      using core 1(2,3) s by (auto simp: server_core_def eq ethif same_setup_def)
    moreover have "children st' = children st" using 1(4) by (simp add: eq same_trace_def)
    moreover have "ses_pid (Sessions st' x) = ses_pid (Sessions st x)" if "x \<noteq> s" for x
      using 1(5) [OF that] by (auto simp: eq)
    ultimately show ?thesis by blast
  qed
qed

lemma childHandler_core:
  assumes core: "server_core big st fr bu" and s: "s \<in> set bu" and run: "childHandler s st = Some st'"
  shows "server_core big st' (fr @ [s]) (remove1 s bu) \<and> children st' = children st \<and>
    (\<forall>x. x \<noteq> s \<longrightarrow> ses_pid (Sessions st' x) = ses_pid (Sessions st x))"
proof -
  obtain st1 where st1: "same_table st st1" "map_option snd (pppoe_free_session s st1) = Some st'"
  proof -
    obtain st0 where st0: "same_table st st0"
      "map_option snd (pppoe_free_session s (upd_ses s (\<lambda>s. s\<lparr>ses_serviceName := Empty_name\<rparr>) st0)) = Some st'"
    proof (cases "ses_flags (Sessions st s) AND FLAG_SENT_PADT = 0")
      case True
      then obtain st2 msg where "session_padt msg st s = Some st2"
        "map_option snd (pppoe_free_session s (upd_ses s (\<lambda>s. s\<lparr>ses_serviceName := Empty_name\<rparr>)
          (upd_ses s (\<lambda>s. s\<lparr>ses_flags := ses_flags s OR FLAG_SENT_PADT\<rparr>) st2))) = Some st'"
        using run by (auto simp: childHandler_def bind_eq_Some_conv)
      moreover have "same_table st2 (upd_ses s (\<lambda>s. s\<lparr>ses_flags := ses_flags s OR FLAG_SENT_PADT\<rparr>) st2)"
        by (rule same_table_upd) simp
      ultimately show thesis using that session_padt_same same_table_trans by blast
    next
      case False
      then show thesis using that [of st] run by (auto simp: childHandler_def bind_eq_Some_conv)
    qed
    moreover have "same_table st0 (upd_ses s (\<lambda>s. s\<lparr>ses_serviceName := Empty_name\<rparr>) st0)"
      by (rule same_table_upd) simp
    ultimately show thesis using that same_table_trans by blast
  qed
  have core1: "server_core big st1 fr bu" using core core_same_table [OF st1(1)] by simp
  from free_core [OF this s st1(2)] st1(1) show ?thesis by (simp add: same_table_def)
qed

lemma padr_child_effect: "padr_child env ethif packet ses st = Some st' \<Longrightarrow> \<exists>x y. st' = st\<lparr>sent := x, started := y\<rparr>"
  by (auto simp: padr_child_def Let_def bind_eq_Some_conv)

text \<open>A process id that \<open>fork\<close> returns is not that of a child that is still waited for.\<close>

definition fork_ok :: "int \<Rightarrow> server \<Rightarrow> bool" where
  "fork_ok fork st \<longleftrightarrow> fork < 0 \<or> (0 < fork \<and> nat fork \<notin> fst ` set (children st))"

lemma open_session_wf:
  assumes wf: "server_wf big st fr bu" and i: "interface st (Some i) \<noteq> None" and fk: "fork_ok fork st"
    and run: "open_session env i ethif packet now fork nm st = Some st'"
  obtains "fr = []" "same_table st st'"
  | s fr' where "fr = s # fr'" "fork < 0" "server_wf big st' (fr' @ [s]) bu"
  | s fr' where "fr = s # fr'" "0 < fork" "server_wf big st' fr' (s # bu)"
proof (cases fr)
  case Nil
  then have "FreeSessions st = None" using wf by (simp add: server_wf_def server_core_def server_lists_def)
  then have "sendErrorPADS (if_sock ethif) (if_mac ethif) (h_source packet)
      TAG_AC_SYSTEM_ERROR ''RP-PPPoE: Server: No client slots available'' st = Some st'"
    using run by (simp add: open_session_def alloc_none)
  then show thesis using that(1) [OF Nil] sendErrorPADS_same by blast
next
  case fr: (Cons s fr')
  have core: "server_core big st (s # fr') bu" and ch: "children_ok st bu" and L: "server_lists st (s # fr') bu"
    using wf fr by (simp_all add: server_wf_def server_core_def)
  have s: "s \<notin> set bu" using L by (simp add: server_lists_def)
  obtain st1 where st1: "pppoe_alloc_session now st = (Some s, st1)" "server_lists st1 fr' (s # bu)"
    "same_setup st st1" "same_trace st st1"
    "Sessions st1 = (Sessions st)(s := fresh_session now (BusySessions st) (Sessions st s))"
    by (rule alloc_some [OF L])
  define st2 where "st2 = upd_ses s (\<lambda>s. s\<lparr>ses_eth := h_source packet, ses_ethif := Some i, ses_flags := 0,
       startTime := now, ses_serviceName := nm\<rparr>) st1"
  have L2: "server_lists st2 fr' (s # bu)"
    by (rule server_lists_cong [THEN iffD2, OF _ _ _ _ _ st1(2)]) (simp_all add: st2_def)
  have S2: "same_setup st st2"
    by (rule same_setup_trans [OF st1(3)]) (simp add: same_setup_def st2_def)
  have if2: "interface st2 p = interface st p" for p
    by (rule interface_cong) (use S2 in \<open>simp add: same_setup_def\<close>)
  have eth2: "ses_ethif (Sessions st2 s) = Some i"
    "\<And>x. x \<noteq> s \<Longrightarrow> ses_ethif (Sessions st2 x) = ses_ethif (Sessions st x)"
    "\<And>x. x \<noteq> s \<Longrightarrow> ses_pid (Sessions st2 x) = ses_pid (Sessions st x)"
    by (simp_all add: st2_def st1(5))
  have valid: "\<exists>e. interface st (ses_ethif (Sessions st2 x)) = Some e" if "x \<in> set (s # bu)" for x
    using that i core eth2(1) eth2(2) [of x] by (cases "x = s") (auto simp: server_core_def)
  have core2: "server_core big st2 fr' (s # bu)"
    using core L2 S2 by (auto simp: server_core_def same_setup_def if2 valid)
  have ch2: "children st2 = children st" using st1(4) by (simp add: st2_def same_trace_def)
  have pid: "\<And>p x. (p, x) \<in> set (children st) \<Longrightarrow> x \<in> set bu \<and> x \<noteq> s"
    using ch s unfolding children_ok_def by force
  show thesis
  proof (cases "fork < 0")
    case True
    then obtain st3 where "sendErrorPADS (if_sock ethif) (if_mac ethif) (h_source packet)
        TAG_AC_SYSTEM_ERROR ''RP-PPPoE: Server: Unable to start session process'' st2 = Some st3"
      and st3': "map_option snd (pppoe_free_session s st3) = Some st'"
      using run by (auto simp: open_session_def st1(1) Let_def st2_def bind_eq_Some_conv)
    note st3 = sendErrorPADS_same [OF this(1)] st3'
    have "server_core big st3 fr' (s # bu)" using core2 core_same_table [OF st3(1)] by simp
    from free_core [OF this _ st3(2)]
    have F: "server_core big st' (fr' @ [s]) bu" "children st' = children st"
      "\<And>x. x \<noteq> s \<Longrightarrow> ses_pid (Sessions st' x) = ses_pid (Sessions st x)"
      using st3(1) ch2 eth2(3) by (auto simp: same_table_def)
    have "children_ok st' bu" using ch pid F(2,3) unfolding children_ok_def by fastforce
    then show thesis using that(2) [OF fr True] F(1) by (simp add: server_wf_def)
  next
    case False
    then have fk: "0 < fork" "nat fork \<notin> fst ` set (children st)" using fk by (auto simp: fork_ok_def)
    obtain x y where st': "st' = (upd_ses s (\<lambda>s. s\<lparr>ses_pid := nat fork\<rparr>) (st2\<lparr>sent := x, started := y\<rparr>))
        \<lparr>children := children st @ [(nat fork, s)]\<rparr>"
    proof -
      obtain st3 where st3: "padr_child env ethif packet s st2 = Some st3"
        "st' = (upd_ses s (\<lambda>s. s\<lparr>ses_pid := nat fork\<rparr>) st3)\<lparr>children := children st3 @ [(nat fork, s)]\<rparr>"
        using run False by (auto simp: open_session_def st1(1) Let_def st2_def)
      obtain x y where "st3 = st2\<lparr>sent := x, started := y\<rparr>" using padr_child_effect [OF st3(1)] by blast
      then show thesis using that [of y x] st3(2) ch2 by simp
    qed
    have "server_lists st' fr' (s # bu)"
      by (rule server_lists_cong [THEN iffD2, OF _ _ _ _ _ L2]) (simp_all add: st')
    moreover have "interface st' p = interface st2 p" for p
      by (rule interface_cong) (simp add: st')
    ultimately have "server_core big st' fr' (s # bu)"
      using core2 by (simp add: server_core_def st')
    moreover have "ses_pid (Sessions st' x) = (if x = s then nat fork else ses_pid (Sessions st x))" for x
      using eth2(3) by (simp add: st')
    then have "children_ok st' (s # bu)"
      using ch pid fk unfolding children_ok_def by (fastforce simp: st')
    ultimately show thesis using that(3) [OF fr fk(1)] by (simp add: server_wf_def)
  qed
qed

lemma PADR_cases:
  assumes run: "processPADR env i packet now fork st = Some st'" and i: "interface st (Some i) = Some ethif"
  obtains r where "st' = st\<lparr>request := r\<rparr>"
  | n r tag msg where "parsePacket packet parsePADRTags (padr_globals (request st)) = Some (n, r)"
      "cookie_ok env ethif packet (st\<lparr>request := r\<rparr>)"
      "sendErrorPADS (if_sock ethif) (if_mac ethif) (h_source packet) tag msg (st\<lparr>request := r\<rparr>) = Some st'"
  | n r nm where "h_dest packet = if_mac ethif" "\<not> NOT_UNICAST (h_source packet)"
      "parsePacket packet parsePADRTags (padr_globals (request st)) = Some (n, r)"
      "cookie_ok env ethif packet (st\<lparr>request := r\<rparr>)" "svc_type r \<noteq> 0" "padr_service (st\<lparr>request := r\<rparr>) = Some nm"
      "open_session env i ethif packet now fork nm (st\<lparr>request := r\<rparr>) = Some st'"
proof (cases "h_dest packet \<noteq> if_mac ethif \<or> NOT_UNICAST (h_source packet)")
  case True
  then have "st' = st\<lparr>request := padr_globals (request st)\<rparr>" using run i by (simp add: processPADR_def)
  then show thesis by (rule that(1))
next
  case False
  then obtain n r where r: "parsePacket packet parsePADRTags (padr_globals (request st)) = Some (n, r)"
    "padr_answer env i ethif packet now fork (st\<lparr>request := r\<rparr>) = Some st'"
    using run i by (auto simp: processPADR_def bind_eq_Some_conv)
  show thesis
  proof (cases "cookie_ok env ethif packet (st\<lparr>request := r\<rparr>)")
    case ok: True
    show thesis
    proof (cases "svc_type r = 0 \<or> padr_service (st\<lparr>request := r\<rparr>) = None")
      case True
      then show thesis using r ok that(2) by (auto simp: padr_answer_def split: if_splits)
    next
      case False2: False
      then show thesis using r ok that(3) False by (auto simp: padr_answer_def)
    qed
  next
    case False
    then have "st' = st\<lparr>request := r\<rparr>" using r(2) by (simp add: padr_answer_def)
    then show thesis by (rule that(1))
  qed
qed

lemma PADR_inv:
  assumes inv: "server_inv big st" and fk: "fork_ok fork st" and run: "processPADR env i packet now fork st = Some st'"
  shows "server_inv big st'"
proof -
  obtain fr bu where wf: "server_wf big st fr bu" using inv by (auto simp: server_inv_def)
  obtain ethif where i: "interface st (Some i) = Some ethif"
    using run by (cases "interface st (Some i)") (simp_all add: processPADR_def)
  have wf1: "server_wf big (st\<lparr>request := r\<rparr>) fr bu" for r
    by (rule wf_same_table [OF same_table_simps(2) wf])
  show ?thesis
  proof (rule PADR_cases [OF run i])
    fix r assume "st' = st\<lparr>request := r\<rparr>"
    then show ?thesis using wf1 unfolding server_inv_def by blast
  next
    fix r tag msg
    assume "sendErrorPADS (if_sock ethif) (if_mac ethif) (h_source packet) tag msg (st\<lparr>request := r\<rparr>) = Some st'"
    then show ?thesis using wf_same_table [OF sendErrorPADS_same wf1] unfolding server_inv_def by blast
  next
    fix r nm
    assume run1: "open_session env i ethif packet now fork nm (st\<lparr>request := r\<rparr>) = Some st'"
    have "interface (st\<lparr>request := r\<rparr>) (Some i) \<noteq> None" "fork_ok fork (st\<lparr>request := r\<rparr>)"
      using i fk interface_cong [of "st\<lparr>request := r\<rparr>" st] by (simp_all add: fork_ok_def)
    from open_session_wf [OF wf1 this run1] show ?thesis
    proof cases
      case 1
      then show ?thesis using wf_same_table [OF 1(2) wf1] unfolding server_inv_def by blast
    qed (unfold server_inv_def, blast+)
  qed
qed

section \<open>From the start\<close>

lemma lseg_link_next: "distinct order \<Longrightarrow> order \<noteq> [] \<Longrightarrow> lseg (link_next order) (Some (hd order)) order"
proof -
  have "lseg nxt (Some (hd xs)) xs" if "distinct xs" "xs \<noteq> []" "\<And>i. i < length xs \<Longrightarrow>
      nxt (xs ! i) = (if Suc i < length xs then Some (xs ! Suc i) else None)" for nxt and xs :: "nat list"
    using that
  proof (induction xs)
    case (Cons x xs)
    have h: "nxt x = (if xs = [] then None else Some (hd xs))" using Cons.prems(3) [of 0] by (auto simp: hd_conv_nth)
    show ?case
    proof (cases "xs = []")
      case False
      have "lseg nxt (Some (hd xs)) xs"
        by (rule Cons.IH) (use Cons.prems(1) False Cons.prems(3) [of "Suc _"] in auto)
      then show ?thesis using h False by simp
    qed (use h in simp)
  qed simp
  moreover have "link_next order (order ! i) = (if Suc i < length order then Some (order ! Suc i) else None)"
    if d: "distinct order" and i: "i < length order" for i
  proof -
    have len: "length (butlast order) = length order - 1" "length (tl order) = length order - 1" by simp_all
    show ?thesis
    proof (cases "Suc i < length order")
      case True
      then have "(order ! i, order ! Suc i) \<in> set (zip (butlast order) (tl order))"
        using len by (force simp: in_set_zip nth_butlast nth_tl intro: exI [of _ i])
      moreover have "distinct (map fst (zip (butlast order) (tl order)))"
        using d by (simp add: distinct_butlast)
      ultimately show ?thesis using True by (simp add: link_next_def)
    next
      case False
      then have "order ! i = last order" using i by (cases "order = []") (auto simp: last_conv_nth intro: arg_cong)
      then have "order ! i \<notin> set (butlast order)" using d i
        by (metis append_butlast_last_id distinct_append list.set_intros(1) list.size(3) not_less_zero disjoint_iff)
      then have "link_next order (order ! i) = None"
        by (auto simp: link_next_def map_of_eq_None_iff dest: set_zip_leftD)
      then show ?thesis using False by simp
    qed
  qed
  ultimately show "distinct order \<Longrightarrow> order \<noteq> [] \<Longrightarrow> lseg (link_next order) (Some (hd order)) order" by blast
qed

lemma shuffle_keeps:
  "n + i < length p \<or> n = 0 \<Longrightarrow> set (shuffle rnd n i p) = set p \<and> distinct (shuffle rnd n i p) = distinct p"
proof (induction rnd n i p rule: shuffle.induct)
  case (2 rnd n i p)
  define j where "j = i + rnd i mod (length p - i)"
  have i: "i < length p" using 2(2) by auto
  then have "rnd i mod (length p - i) < length p - i" by simp
  then have "j < length p" using i unfolding j_def by linarith
  with i have "set (p[i := p ! j, j := p ! i]) = set p" "distinct (p[i := p ! j, j := p ! i]) = distinct p"
    by (simp_all add: set_swap distinct_swap)
  then show ?case using 2(1) [OF j_def] 2(2) by (simp add: j_def [symmetric] Let_def)
qed simp

text \<open>The order of the free list is a permutation of all slots, shuffled or not.\<close>

lemma session_order_perm: "set (session_order r rnd n) = {..<n} \<and> distinct (session_order r rnd n)"
proof -
  have "n - 1 + 0 < length [0..<n] \<or> n - 1 = 0" by (cases n) simp_all
  from shuffle_keeps [OF this] show ?thesis by (simp add: session_order_def atLeast_upt)
qed

lemma init_wf:
  assumes "0 < slots" "slots + offset \<le> 65534" "\<forall>e \<in> set ifs. 0 \<le> if_sock e"
  shows "server_wf big (init_server big slots offset incr lip rip (session_order r rnd slots) ifs names ac seed disc)
    (session_order r rnd slots) []"
proof -
  let ?o = "session_order r rnd slots"
  have o: "set ?o = {..<slots}" "distinct ?o" using session_order_perm [of r rnd slots] by (rule conjunct1, rule conjunct2)
  have "0 \<in> set ?o" unfolding o(1) using assms(1) by simp
  then have ne: "?o \<noteq> []" by (metis empty_iff list.set(1))
  let ?st = "init_server big slots offset incr lip rip ?o ifs names ac seed disc"
  have "cn ?st = link_next ?o" by (simp add: init_server_def init_session_def)
  then have "server_lists ?st ?o []"
    using lseg_link_next [OF o(2) ne] ne o(2) by (simp add: server_lists_def) (simp add: init_server_def)
  moreover have "children_ok ?st []" by (simp add: children_ok_def init_server_def)
  moreover have "ses_sess (Sessions ?st i) = htons big (word_of_nat (i + 1 + SessOffset ?st))" for i
    by (simp add: init_server_def init_session_def)
  moreover have "NumSessionSlots ?st = slots" "SessOffset ?st = offset" "interfaces ?st = ifs"
    by (simp_all add: init_server_def)
  ultimately show ?thesis using o(1) assms by (simp add: server_wf_def server_core_def)
qed

definition event_ok :: "server_event \<Rightarrow> server \<Rightarrow> bool" where
  "event_ok ev st = (case ev of Interface_readable i rx now fork \<Rightarrow> fork_ok fork st | _ \<Rightarrow> True)"

inductive server_reach :: "server_env \<Rightarrow> server \<Rightarrow> bool" for env where
  boot: "0 < slots \<Longrightarrow> slots + offset \<le> 65534 \<Longrightarrow> \<forall>e \<in> set ifs. 0 \<le> if_sock e \<Longrightarrow>
    server_reach env (init_server (srv_big env) slots offset incr lip rip (session_order r rnd slots) ifs names ac seed disc)"
| event: "server_reach env st \<Longrightarrow> event_ok ev st \<Longrightarrow> server_step env ev st = Some st' \<Longrightarrow> server_reach env st'"

lemma child_ended_inv:
  assumes inv: "server_inv big st" and m: "map_of (children st) p = Some s"
    and run: "childHandler s (st\<lparr>children := filter (\<lambda>(q, s). q \<noteq> p) (children st)\<rparr>) = Some st'"
  shows "server_inv big st'"
proof -
  obtain fr bu where wf: "server_wf big st fr bu" using inv by (auto simp: server_inv_def)
  let ?st = "st\<lparr>children := filter (\<lambda>(q, s). q \<noteq> p) (children st)\<rparr>"
  have ch: "distinct (map fst (children st))" "distinct (map snd (children st))" "set (map snd (children st)) = set bu"
    "\<And>q x. (q, x) \<in> set (children st) \<Longrightarrow> ses_pid (Sessions st x) = q \<and> q \<noteq> 0"
    using wf by (auto simp: server_wf_def children_ok_def)
  have in_m: "(p, s) \<in> set (children st)" using m by (rule map_of_SomeD)
  then have s: "s \<in> set bu" using ch(3) by force
  have L: "server_lists ?st fr bu = server_lists st fr bu" by (rule server_lists_cong) simp_all
  moreover have "interface ?st q = interface st q" for q by (rule interface_cong) simp
  ultimately have "server_core big ?st fr bu" using wf by (simp add: server_wf_def server_core_def)
  note C = childHandler_core [OF this s run]
  have d: "distinct bu" using wf by (auto simp: server_wf_def server_core_def server_lists_def)
  have only: "x = s \<longleftrightarrow> q = p" if "(q, x) \<in> set (children st)" for q x
    using that in_m ch(1,2) by (metis eq_key_imp_eq_value inj_on_def distinct_map prod.inject snd_conv)
  have "set (map snd (children st')) = set (remove1 s bu)"
    using C only d ch(3) by (force simp: set_remove1_eq)
  moreover have "distinct (map fst (children st'))" "distinct (map snd (children st'))"
    using C ch(1,2) by (auto simp: distinct_map_filter)
  ultimately have "children_ok st' (remove1 s bu)"
    using C only ch(4) unfolding children_ok_def by auto
  then show ?thesis using C by (auto simp: server_wf_def server_inv_def)
qed

lemma server_step_inv:
  assumes inv: "server_inv (srv_big env) st" and ok: "event_ok ev st" and run: "server_step env ev st = Some st'"
  shows "server_inv (srv_big env) st'"
proof -
  have same: "server_inv (srv_big env) st'" if "same_table st st'"
    using inv wf_same_table [OF that] unfolding server_inv_def by blast
  show ?thesis
  proof (cases ev)
    case (Interface_readable i rx now fork)
    then show ?thesis using run ok same PADI_same PADT_same PADR_inv [OF inv, of fork env i]
      by (auto simp: server_step_def serverProcessPacket_def event_ok_def split: recv.splits if_splits)
  next
    case (Child_ended p)
    then show ?thesis using run child_ended_inv [OF inv] inv
      by (auto simp: server_step_def split: option.splits)
  next
    case Terminate
    then show ?thesis using run same kill_loop_same by (auto simp: server_step_def killAllSessions_def)
  qed
qed

lemma server_reach_inv: "server_reach env st \<Longrightarrow> server_inv (srv_big env) st"
proof (induction rule: server_reach.induct)
  case (boot slots offset ifs incr lip rip r rnd names ac seed disc)
  then show ?case unfolding server_inv_def by (blast intro: init_wf)
qed (rule server_step_inv)

end
