(* ===== verification/Server_Answers.thy ===== *)
theory Server_Answers
  imports Server_Props
begin

text \<open>
  What the PPPoE server answers: the offer for a PADI, the session for a PADR, the error when the
  table is full, and when it stays silent.
\<close>

section \<open>What parsePacket has read\<close>

lemma tag_at:
  assumes "rd_be16 buf cur = Some ty" "rd_be16 buf (cur + 2) = Some l" "rd_bytes buf (cur + TAG_HDR_SIZE) l = Some d"
  shows "drop cur buf = tag_bytes \<lparr>tag_type = ty, tag_data = d\<rparr> @ drop (cur + TAG_HDR_SIZE + l) buf"
    "ty < 65536" "length d = l" "l < 65536"
proof -
  have len: "cur + 4 + l \<le> length buf" using assms(3) by (simp add: rd_bytes_def TAG_HDR_SIZE_def split: if_splits)
  have ty: "ty = be16 (buf ! cur) (buf ! (cur + 1))" using assms(1) len by (simp add: rd_be16_in)
  have l: "l = be16 (buf ! (cur + 2)) (buf ! (cur + 3))" using assms(2) len by (simp add: rd_be16_in numeral_3_eq_3)
  have d: "d = take l (drop (cur + 4) buf)" using assms(3) len by (simp add: TAG_HDR_SIZE_def)
  then show ld: "length d = l" using len by simp
  have "drop cur buf = buf ! cur # buf ! (cur + 1) # buf ! (cur + 2) # buf ! (cur + 3) # drop (cur + 4) buf"
    using len by (simp add: Cons_nth_drop_Suc [symmetric] numeral_eq_Suc)
  moreover have "drop (cur + 4) buf = d @ drop (cur + 4 + l) buf"
    unfolding d by (metis add.commute append_take_drop_id drop_drop)
  ultimately show "drop cur buf = tag_bytes \<lparr>tag_type = ty, tag_data = d\<rparr> @ drop (cur + TAG_HDR_SIZE + l) buf"
    unfolding tag_bytes_def using ld by (simp add: ty l TAG_HDR_SIZE_def)
  show "ty < 65536" "l < 65536" unfolding ty l by simp_all
qed

lemma parsePacket_loop_prefix:
  "parsePacket_loop func buf len cur s = Some (n, s') \<Longrightarrow> cur \<le> len \<Longrightarrow>
   \<exists>ts rest. s' = fold (\<lambda>t. func (tag_type t) (tag_data t)) ts s \<and> drop cur buf = encs tag_bytes ts @ rest \<and>
     (\<forall>t \<in> set ts. tag_ok t) \<and> cur + length (encs tag_bytes ts) \<le> len"
proof (induction func buf len cur s rule: parsePacket_loop.induct)
  case (1 func buf len cur s)
  show ?case
  proof (cases "cur < len")
    case False
    then show ?thesis using "1.prems" by (subst (asm) parsePacket_loop.simps) (auto intro: exI [of _ "[]"])
  next
    case True
    then obtain ty l where h: "rd_be16 buf cur = Some ty" "rd_be16 buf (cur + 2) = Some l"
      using "1.prems"(1) by (subst (asm) parsePacket_loop.simps) (auto simp: bind_eq_Some_conv)
    show ?thesis
    proof (cases "ty = TAG_END_OF_LIST \<or> cur + l + TAG_HDR_SIZE > len")
      case True
      then have "s' = s" using "1.prems"(1) h \<open>cur < len\<close>
        by (subst (asm) parsePacket_loop.simps) (auto split: if_splits)
      then show ?thesis using "1.prems"(2) by (auto intro: exI [of _ "[]"])
    next
      case go: False
      then obtain d where d: "rd_bytes buf (cur + TAG_HDR_SIZE) l = Some d"
        "parsePacket_loop func buf len (cur + TAG_HDR_SIZE + l) (func ty d s) = Some (n, s')"
        using "1.prems"(1) h \<open>cur < len\<close> by (subst (asm) parsePacket_loop.simps) (auto simp: bind_eq_Some_conv)
      note at = tag_at [OF h d(1)]
      obtain ts rest where ts: "s' = fold (\<lambda>t. func (tag_type t) (tag_data t)) ts (func ty d s)"
        "drop (cur + TAG_HDR_SIZE + l) buf = encs tag_bytes ts @ rest" "\<forall>t \<in> set ts. tag_ok t"
        "cur + TAG_HDR_SIZE + l + length (encs tag_bytes ts) \<le> len"
        using "1.IH" [OF True h(1) h(2) _ _ d(1) d(2)] go by auto
      show ?thesis
        by (rule exI [of _ "\<lparr>tag_type = ty, tag_data = d\<rparr> # ts"], rule exI [of _ rest])
          (use ts at go in \<open>auto simp: tag_ok_def TAG_END_OF_LIST_def\<close>)
    qed
  qed
qed

lemma parsePacket_prefix:
  assumes "parsePacket p func s = Some (n, s')"
  obtains ts rest where "s' = fold (\<lambda>t. func (tag_type t) (tag_data t)) ts s" "payload p = encs tag_bytes ts @ rest"
    "\<forall>t \<in> set ts. tag_ok t" "length (encs tag_bytes ts) \<le> 1494"
proof (cases "ver p = 1 \<and> ptype p = 1 \<and> plen p \<le> 1494")
  case True
  then have "parsePacket_loop func (payload p) (plen p) 0 s = Some (n, s')"
    using assms by (simp add: parsePacket_def ETH_DATA_LEN_def)
  from parsePacket_loop_prefix [OF this] show thesis using that True by fastforce
next
  case False
  then have "s' = s" using assms by (auto simp: parsePacket_def ETH_DATA_LEN_def split: if_splits)
  then show thesis using that [of "[]" "payload p"] by simp
qed

section \<open>The request\<close>

abbreviation "read_padr ts rq \<equiv> fold (\<lambda>t. parsePADRTags (tag_type t) (tag_data t)) ts rq"
abbreviation "read_padi ts rq \<equiv> fold (\<lambda>t. parsePADITags (tag_type t) (tag_data t)) ts rq"

lemma tag_kinds [simp]:
  "TAG_AC_COOKIE \<noteq> TAG_RELAY_SESSION_ID" "TAG_AC_COOKIE \<noteq> TAG_HOST_UNIQ" "TAG_AC_COOKIE \<noteq> TAG_SERVICE_NAME"
  "TAG_RELAY_SESSION_ID \<noteq> TAG_AC_COOKIE" "TAG_HOST_UNIQ \<noteq> TAG_AC_COOKIE" "TAG_SERVICE_NAME \<noteq> TAG_AC_COOKIE"
  "TAG_HOST_UNIQ \<noteq> TAG_RELAY_SESSION_ID" "TAG_SERVICE_NAME \<noteq> TAG_RELAY_SESSION_ID" "TAG_SERVICE_NAME \<noteq> TAG_HOST_UNIQ"
  "TAG_RELAY_SESSION_ID \<noteq> TAG_HOST_UNIQ" "TAG_RELAY_SESSION_ID \<noteq> TAG_SERVICE_NAME" "TAG_HOST_UNIQ \<noteq> TAG_SERVICE_NAME"
  by (simp_all add: TAG_AC_COOKIE_def TAG_RELAY_SESSION_ID_def TAG_HOST_UNIQ_def TAG_SERVICE_NAME_def)

lemma read_cookie:
  "tag_type (receivedCookie (read_padr ts rq)) \<noteq> 0 \<Longrightarrow>
   receivedCookie (read_padr ts rq) = receivedCookie rq \<or>
   (\<exists>t \<in> set ts. receivedCookie (read_padr ts rq) = t \<and> tag_type t = TAG_AC_COOKIE)"
proof (induction ts arbitrary: rq)
  case (Cons t ts)
  have "receivedCookie (parsePADRTags (tag_type t) (tag_data t) rq) =
      (if tag_type t = TAG_AC_COOKIE then t else receivedCookie rq)"
    by (cases t) (auto simp: parsePADRTags_def copy_service_def)
  then show ?case using Cons.IH [of "parsePADRTags (tag_type t) (tag_data t) rq"] Cons.prems by (auto split: if_splits)
qed simp

lemma genCookie_md5:
  assumes "length peer < 2 ^ 32" "length mine < 2 ^ 32" "length seed < 2 ^ 32"
  shows "genCookie env peer mine seed = md5 (peer @ mine @ seed) @ srv_pid env"
  using MD5_pieces(3) [OF assms] by (simp add: genCookie_def)

lemma encs_member: "t \<in> set ts \<Longrightarrow> \<exists>pre post. encs tag_bytes ts = pre @ tag_bytes t @ post"
  by (metis encs_simps(2,3) in_set_conv_decomp)

text \<open>
  C4: a PADR that does not carry the cookie leaves no trace but in \<open>request\<close>, the static variables that
  the tags of every request are parsed into. If anything else of the server is different after a PADR
  (a table of sessions, a list, a child, a frame that was sent, a process that was started or
  killed), then the packet came from a unicast address, was addressed to the interface and contains
  the cookie tag with the MD5 digest of the sender's address, the interface's address and the secret
  seed, followed by the process number of the server.
\<close>

theorem session_needs_cookie:
  assumes "interface st (Some i) = Some ethif" "processPADR env i packet now fork st = Some st'"
    and "st' \<noteq> st\<lparr>request := request st'\<rparr>"
    and "length (h_source packet) = 6" "length (if_mac ethif) = 6" "length (CookieSeed st) = SEED_LEN"
  shows "h_dest packet = if_mac ethif \<and> \<not> NOT_UNICAST (h_source packet) \<and>
    (\<exists>pre post. payload packet = pre @ tag_bytes \<lparr>tag_type = TAG_AC_COOKIE,
      tag_data = md5 (h_source packet @ if_mac ethif @ CookieSeed st) @ srv_pid env\<rparr> @ post)"
proof -
  have addr: "h_dest packet = if_mac ethif" "\<not> NOT_UNICAST (h_source packet)"
    using assms(1-3) by (auto simp: processPADR_def split: if_splits)
  obtain n r where r: "parsePacket packet parsePADRTags (padr_globals (request st)) = Some (n, r)"
    "cookie_ok env ethif packet (st\<lparr>request := r\<rparr>)"
    by (rule PADR_cases [OF assms(2,1)]) (use assms(3) in auto)
  obtain ts rest where ts: "r = read_padr ts (padr_globals (request st))" "payload packet = encs tag_bytes ts @ rest"
    by (rule parsePacket_prefix [OF r(1)])
  have ck: "tag_type (receivedCookie r) \<noteq> 0"
    "tag_data (receivedCookie r) = md5 (h_source packet @ if_mac ethif @ CookieSeed st) @ srv_pid env"
    using r(2) genCookie_md5 [of "h_source packet" "if_mac ethif" "CookieSeed st" env] assms(4-6)
    by (simp_all add: cookie_ok_def SEED_LEN_def)
  have "tag_type (receivedCookie (padr_globals (request st))) = 0" by (simp add: padr_globals_def)
  then obtain t where t: "t \<in> set ts" "receivedCookie r = t" "tag_type t = TAG_AC_COOKIE"
    using read_cookie [of ts "padr_globals (request st)"] ck(1) by (auto simp: ts(1))
  then have "t = \<lparr>tag_type = TAG_AC_COOKIE, tag_data = md5 (h_source packet @ if_mac ethif @ CookieSeed st) @ srv_pid env\<rparr>"
    using ck(2) by simp
  then show ?thesis using encs_member [OF t(1)] ts(2) addr by force
qed

section \<open>Several tags in a row\<close>

lemma copy_all_fits:
  assumes "buf_holds b us" "length (encs tag_bytes (us @ ts)) \<le> MAX_PPPOE_PAYLOAD"
  obtains b' where "copy_all ts b = Some (Some b')" "buf_holds b' (us @ ts)"
  using assms
proof (induction ts arbitrary: b us thesis)
  case Nil
  then show ?case by simp
next
  case (Cons t ts)
  show ?case
  proof (cases rule: copy_checked_cases [OF Cons.prems(2), of t])
    case 1
    then show ?thesis using Cons.prems(3) by simp
  next
    case (2 b1)
    then show ?thesis using Cons.IH [of b1 "us @ [t]"] Cons.prems(1,3) by auto
  qed
qed

lemma copy_all_safe:
  assumes "buf_holds b us"
  shows "copy_all ts b = Some None \<or> (\<exists>b'. copy_all ts b = Some (Some b') \<and> buf_holds b' (us @ ts))"
  using assms
proof (induction ts arbitrary: b us)
  case (Cons t ts)
  show ?case
  proof (cases rule: copy_checked_cases [OF Cons.prems, of t])
    case (2 b1)
    then show ?thesis using Cons.IH [OF 2(2)] by auto
  qed simp
qed simp

lemma copy_raw_fits:
  assumes "buf_holds b us" "length (encs tag_bytes (us @ ts)) \<le> ETH_DATA_LEN"
  obtains b' where "copy_raw ts b = Some b'" "buf_holds b' (us @ ts)"
  using assms
proof (induction ts arbitrary: b us thesis)
  case Nil
  then show ?case by simp
next
  case (Cons t ts)
  have "snd b + length (tag_data t) + TAG_HDR_SIZE \<le> ETH_DATA_LEN"
    using buf_holds_len [OF Cons.prems(2)] Cons.prems(3) by simp
  then obtain b1 where "copy_tag t b = Some b1" "buf_holds b1 (us @ [t])" by (rule copy_tag_holds [OF Cons.prems(2)])
  then show ?case using Cons.IH [of b1 "us @ [t]"] Cons.prems(1,3) by auto
qed

lemma copy_raw_overflows:
  assumes "buf_holds b us" "length (encs tag_bytes (us @ ts)) > ETH_DATA_LEN"
  shows "copy_raw ts b = None"
  using assms
proof (induction ts arbitrary: b us)
  case Nil
  then show ?case using arg_cong [of _ _ length] by (fastforce simp: buf_holds_def)
next
  case (Cons t ts)
  show ?case
  proof (cases "snd b + length (tag_data t) + TAG_HDR_SIZE \<le> ETH_DATA_LEN")
    case True
    then obtain b1 where "copy_tag t b = Some b1" "buf_holds b1 (us @ [t])" by (rule copy_tag_holds [OF Cons.prems(1)])
    then show ?thesis using Cons.IH [of b1 "us @ [t]"] Cons.prems(2) by auto
  next
    case False
    then show ?thesis using Cons.prems(1) by (simp add: copy_tag_def wr_bytes_def buf_holds_def)
  qed
qed

section \<open>The offer\<close>

definition offer :: "server_env \<Rightarrow> Interface \<Rightarrow> mac \<Rightarrow> server \<Rightarrow> PPPoETag list" where
  "offer env ethif peer st =
     (pado_tags env ethif peer st @ saved (rq_relayId (request st))) @ saved (rq_hostUniq (request st))"

lemma PADI_offer:
  assumes "interface st (Some i) = Some ethif" "\<not> NOT_UNICAST (h_source packet)"
    "parsePacket packet parsePADITags (padi_globals (request st)) = Some (n, rq)"
    "service_ok (st\<lparr>request := rq\<rparr>)"
    "length (encs tag_bytes (offer env ethif (h_source packet) (st\<lparr>request := rq\<rparr>))) \<le> MAX_PPPOE_PAYLOAD"
  obtains b where "processPADI env i packet st = Some (srv_send (if_sock ethif)
      (discovery_frame (Discovery_type st) (if_mac ethif) (h_source packet) CODE_PADO 0 b) (st\<lparr>request := rq\<rparr>))"
    "buf_holds b (offer env ethif (h_source packet) (st\<lparr>request := rq\<rparr>))"
proof -
  define st1 where "st1 = st\<lparr>request := rq\<rparr>"
  define ts where "ts = pado_tags env ethif (h_source packet) st1"
  have o: "offer env ethif (h_source packet) st1 = (ts @ saved (rq_relayId rq)) @ saved (rq_hostUniq rq)"
    by (simp add: offer_def ts_def st1_def)
  note fits = assms(5) [folded st1_def, unfolded o]
  have "length (encs tag_bytes ([] @ ts)) \<le> MAX_PPPOE_PAYLOAD" using fits by simp
  then obtain b1 where b1: "copy_all ts empty_buf = Some (Some b1)" "buf_holds b1 ts"
    using copy_all_fits [OF empty_holds, of ts] by auto
  obtain b2 where b2: "copy_saved (rq_relayId rq) b1 = Some (Some b2)" "buf_holds b2 (ts @ saved (rq_relayId rq))"
    using fits by (cases rule: copy_saved_cases [OF b1(2), of "rq_relayId rq"]) auto
  obtain b3 where b3: "copy_saved (rq_hostUniq rq) b2 = Some (Some b3)"
    "buf_holds b3 ((ts @ saved (rq_relayId rq)) @ saved (rq_hostUniq rq))"
    using fits by (cases rule: copy_saved_cases [OF b2(2), of "rq_hostUniq rq"]) auto
  have "length (ACName st) \<le> ETH_DATA_LEN"
    using fits unfolding ts_def pado_tags_def st1_def by (simp add: pppoe_consts)
  then have "processPADI env i packet st = Some (srv_send (if_sock ethif)
      (discovery_frame (Discovery_type st) (if_mac ethif) (h_source packet) CODE_PADO 0 b3) st1)"
    using assms(1-4) b1(1) b2(1) b3(1) unfolding processPADI_def st1_def [symmetric] ts_def
    by (simp add: st1_def [symmetric]) (simp add: st1_def)
  then show thesis unfolding st1_def by (rule that) (use b3(2) o in \<open>simp add: st1_def\<close>)
qed

section \<open>The request buffers\<close>

text \<open>
  The copies of a request's tags fit, and the buffer of the service name keeps zeros at its end, so
  that it is always a string.
\<close>

definition request_ok :: "request_tags \<Rightarrow> bool" where
  "request_ok rq \<longleftrightarrow> length (svc_payload rq) = ETH_DATA_LEN \<and> svc_length rq \<le> 1490 \<and>
     drop 1490 (svc_payload rq) = replicate 10 0"

lemma request_ok_copy:
  assumes "request_ok rq" "length d \<le> 1490" shows "request_ok (copy_service d rq)"
proof -
  have "drop 1490 (d @ drop (length d) (svc_payload rq)) = drop 1490 (svc_payload rq)"
    using assms(2) by simp
  then show ?thesis using assms by (simp add: request_ok_def copy_service_def ETH_DATA_LEN_def)
qed

lemma request_ok_read_padr:
  "request_ok rq \<Longrightarrow> length (encs tag_bytes ts) \<le> 1494 \<Longrightarrow> request_ok (read_padr ts rq)"
proof (induction ts arbitrary: rq)
  case (Cons t ts)
  then have "request_ok (parsePADRTags (tag_type t) (tag_data t) rq)"
    using request_ok_copy [OF Cons.prems(1), of "tag_data t"]
    by (auto simp: parsePADRTags_def TAG_HDR_SIZE_def) (auto simp: request_ok_def)
  then show ?case using Cons by simp
qed simp

lemma request_ok_read_padi:
  "request_ok rq \<Longrightarrow> length (encs tag_bytes ts) \<le> 1494 \<Longrightarrow> request_ok (read_padi ts rq)"
proof (induction ts arbitrary: rq)
  case (Cons t ts)
  then have "request_ok (parsePADITags (tag_type t) (tag_data t) rq)"
    using request_ok_copy [OF Cons.prems(1), of "tag_data t"]
    by (auto simp: parsePADITags_def TAG_HDR_SIZE_def) (auto simp: request_ok_def)
  then show ?case using Cons by simp
qed simp

lemma request_ok_globals [simp]:
  "request_ok (padi_globals rq) = request_ok rq" "request_ok (padr_globals rq) = request_ok rq"
  by (simp_all add: request_ok_def padi_globals_def padr_globals_def)

lemma request_ok_parsed:
  "parsePacket p parsePADRTags (padr_globals rq) = Some (n, r) \<Longrightarrow> request_ok rq \<Longrightarrow> request_ok r"
  "parsePacket p parsePADITags (padi_globals rq) = Some (n, r) \<Longrightarrow> request_ok rq \<Longrightarrow> request_ok r"
  by (erule parsePacket_prefix, simp add: request_ok_read_padr)
    (erule parsePacket_prefix, simp add: request_ok_read_padi)

lemma request_ok_string: "request_ok rq \<Longrightarrow> 0 \<in> set (svc_payload rq)"
proof -
  assume "request_ok rq"
  then have "0 \<in> set (drop 1490 (svc_payload rq))" by (simp add: request_ok_def)
  then show ?thesis by (rule in_set_dropD)
qed

section \<open>The session\<close>

definition pads_tags :: "server \<Rightarrow> PPPoETag list" where
  "pads_tags st = reply_tags \<lparr>tag_type = svc_type (request st),
       tag_data = (if svc_length (request st) = 0 \<and> ServiceNames st \<noteq> [] then hd (ServiceNames st) else requested st)\<rparr>
     (request st)"

lemma default_service_ok:
  assumes "request_ok (request st)" "length (encs tag_bytes (pads_tags st)) \<le> ETH_DATA_LEN"
  obtains rq where "default_service st = Some rq"
    "reply_tags \<lparr>tag_type = svc_type rq, tag_data = requested (st\<lparr>request := rq\<rparr>)\<rparr> rq = pads_tags st"
    "ServiceNames st = [] \<longrightarrow> rq = request st"
proof (cases "svc_length (request st) = 0 \<and> ServiceNames st \<noteq> []")
  case True
  then have "length (hd (ServiceNames st)) \<le> length (svc_payload (request st))"
    using assms by (simp add: request_ok_def pads_tags_def reply_tags_def)
  then have "default_service st = Some ((request st)\<lparr>svc_payload := hd (ServiceNames st) @
      drop (length (hd (ServiceNames st))) (svc_payload (request st)), svc_length := length (hd (ServiceNames st))\<rparr>)"
    using True by (simp add: default_service_def wr_bytes_def)
  then show thesis by (rule that) (use True in \<open>simp_all add: pads_tags_def reply_tags_def requested_def\<close>)
next
  case False
  then have "default_service st = Some (request st)" by (auto simp: default_service_def)
  then show thesis by (rule that) (use False in \<open>auto simp: pads_tags_def requested_def\<close>)
qed

lemma startPPPD_runs:
  assumes i: "interface st (ses_ethif (Sessions st ses)) = Some e"
    and "ses_serviceName (Sessions st ses) = Requested_payload \<longrightarrow> 0 \<in> set (svc_payload (request st))"
  shows "\<exists>argv. startPPPD env ses st = Some (st\<lparr>started := started st @ [argv]\<rparr>)"
proof -
  obtain nm where nm: "service_string st (Sessions st ses) = Some nm"
    using assms(2) by (cases "ses_serviceName (Sessions st ses)") (simp_all add: service_string_def)
  show ?thesis
    unfolding startPPPD_def startPPPDLinuxKernelMode_def startPPPDUserMode_def Let_def i nm bind.bind_lunit
    by (cases "UseLinuxKernelModePPPoE env") (simp_all only: if_True if_False, (rule exI, rule refl)+)
qed

lemma padr_child_runs:
  assumes i: "interface st (ses_ethif (Sessions st ses)) = Some e" and rq: "request_ok (request st)"
    and nm: "ses_serviceName (Sessions st ses) = Requested_payload \<longrightarrow> ServiceNames st = []"
    and fits: "length (encs tag_bytes (pads_tags st)) \<le> ETH_DATA_LEN"
  obtains b argv where "padr_child env ethif packet ses st = Some (st\<lparr>sent := sent st @ [(if_sock ethif,
      discovery_frame (Discovery_type st) (if_mac ethif) (h_source packet) CODE_PADS (ses_sess (Sessions st ses)) b,
      snd b + HDR_SIZE)], started := started st @ [argv]\<rparr>)" "buf_holds b (pads_tags st)"
proof -
  obtain r where r: "default_service st = Some r"
    "reply_tags \<lparr>tag_type = svc_type r, tag_data = requested (st\<lparr>request := r\<rparr>)\<rparr> r = pads_tags st"
    "ServiceNames st = [] \<longrightarrow> r = request st"
    by (rule default_service_ok [OF rq fits])
  have "length (encs tag_bytes ([] @ pads_tags st)) \<le> ETH_DATA_LEN" using fits by simp
  then obtain b where b: "copy_raw (pads_tags st) empty_buf = Some b" "buf_holds b ([] @ pads_tags st)"
    by (rule copy_raw_fits [OF empty_holds])
  define frame where "frame = discovery_frame (Discovery_type st) (if_mac ethif) (h_source packet) CODE_PADS
      (ses_sess (Sessions st ses)) b"
  define st2 where "st2 = srv_send (if_sock ethif) frame (st\<lparr>request := r\<rparr>)"
  have "ses_serviceName (Sessions st2 ses) = Requested_payload \<longrightarrow> 0 \<in> set (svc_payload (request st2))"
    using nm request_ok_string [OF rq] r(3) by (auto simp: st2_def srv_send_def)
  moreover have "interface st2 (ses_ethif (Sessions st2 ses)) = Some e"
    using i interface_cong [of st2 st] by (simp add: st2_def srv_send_def)
  ultimately obtain argv where "startPPPD env ses st2 = Some (st2\<lparr>started := started st2 @ [argv]\<rparr>)"
    using startPPPD_runs by blast
  then have "padr_child env ethif packet ses st = Some (st\<lparr>sent := sent st2, started := started st2 @ [argv]\<rparr>)"
    unfolding padr_child_def Let_def r(1) bind.bind_lunit r(2) b(1) frame_def [symmetric] st2_def [symmetric] by simp
  moreover have "sent st2 = sent st @ [(if_sock ethif, frame, snd b + HDR_SIZE)]" "started st2 = started st"
    by (simp_all add: st2_def srv_send_def frame_def)
  ultimately show thesis using that b(2) by (simp add: frame_def)
qed

lemma open_session_runs:
  assumes wf: "server_wf big st (s # fr) bu" and i: "interface st (Some i) = Some ethif" and fork: "0 < fork"
    and rq: "request_ok (request st)" and nm: "nm = Requested_payload \<longrightarrow> ServiceNames st = []"
    and fits: "length (encs tag_bytes (pads_tags st)) \<le> ETH_DATA_LEN"
  obtains st' b where "open_session env i ethif packet now fork nm st = Some st'" "buf_holds b (pads_tags st)"
    "sent st' = sent st @ [(if_sock ethif, discovery_frame (Discovery_type st) (if_mac ethif) (h_source packet) CODE_PADS
       (ses_sess (Sessions st s)) b, snd b + HDR_SIZE)]"
    "\<exists>argv. started st' = started st @ [argv]" "children st' = children st @ [(nat fork, s)]"
    "BusySessions st' = Some s" "ses_eth (Sessions st' s) = h_source packet" "ses_ethif (Sessions st' s) = Some i"
    "ses_pid (Sessions st' s) = nat fork" "same_setup st st'"
proof -
  have L: "server_lists st (s # fr) bu" using wf by (simp add: server_wf_def server_core_def)
  obtain st1 where st1: "pppoe_alloc_session now st = (Some s, st1)" "server_lists st1 fr (s # bu)"
    "same_setup st st1" "same_trace st st1"
    "Sessions st1 = (Sessions st)(s := fresh_session now (BusySessions st) (Sessions st s))"
    by (rule alloc_some [OF L])
  define st2 where "st2 = upd_ses s (\<lambda>x. x\<lparr>ses_eth := h_source packet, ses_ethif := Some i, ses_flags := 0,
       startTime := now, ses_serviceName := nm\<rparr>) st1"
  have same: "request st2 = request st" "ServiceNames st2 = ServiceNames st" "interfaces st2 = interfaces st"
    "Discovery_type st2 = Discovery_type st" "sent st2 = sent st" "started st2 = started st" "children st2 = children st"
    using st1(3,4) by (simp_all add: st2_def same_setup_def same_trace_def)
  have tags: "pads_tags st2 = pads_tags st" by (simp add: pads_tags_def requested_def same)
  have "interface st2 (ses_ethif (Sessions st2 s)) = Some ethif"
    using i interface_cong [OF same(3)] by (simp add: st2_def)
  moreover have "request_ok (request st2)" using rq by (simp add: same)
  moreover have "ses_serviceName (Sessions st2 s) = Requested_payload \<longrightarrow> ServiceNames st2 = []"
    using nm by (simp add: same) (simp add: st2_def)
  moreover have "length (encs tag_bytes (pads_tags st2)) \<le> ETH_DATA_LEN" using fits by (simp add: tags)
  ultimately obtain b argv where child: "padr_child env ethif packet s st2 = Some (st2\<lparr>sent := sent st2 @ [(if_sock ethif,
      discovery_frame (Discovery_type st2) (if_mac ethif) (h_source packet) CODE_PADS (ses_sess (Sessions st2 s)) b,
      snd b + HDR_SIZE)], started := started st2 @ [argv]\<rparr>)" "buf_holds b (pads_tags st2)"
    by (rule padr_child_runs)
  define st3 where "st3 = st2\<lparr>sent := sent st2 @ [(if_sock ethif,
      discovery_frame (Discovery_type st2) (if_mac ethif) (h_source packet) CODE_PADS (ses_sess (Sessions st2 s)) b,
      snd b + HDR_SIZE)], started := started st2 @ [argv]\<rparr>"
  define st' where "st' = (upd_ses s (\<lambda>x. x\<lparr>ses_pid := nat fork\<rparr>) st3)\<lparr>children := children st3 @ [(nat fork, s)]\<rparr>"
  have run: "open_session env i ethif packet now fork nm st = Some st'"
    using fork child(1) unfolding open_session_def st1(1) st3_def [symmetric]
    by (simp add: st2_def [symmetric] st'_def)
  have busy: "BusySessions st' = Some s" using st1(2) by (simp add: st'_def st3_def st2_def server_lists_def)
  have sess: "ses_sess (Sessions st2 s) = ses_sess (Sessions st s)" by (simp add: st2_def st1(5) fresh_session_def)
  have slot: "ses_eth (Sessions st2 s) = h_source packet" "ses_ethif (Sessions st2 s) = Some i"
    by (simp_all add: st2_def)
  have "same_setup st st'"
    using st1(3) by (simp add: st'_def st3_def st2_def same_setup_def)
  then show thesis
    by (rule that [OF run, rotated -1]) (use child(2) busy in \<open>simp_all add: tags same st'_def st3_def sess slot\<close>)
qed

lemma read_saved:
  "(rq_relayId (read_padr ts rq) = rq_relayId rq \<or> rq_relayId (read_padr ts rq) \<in> set ts) \<and>
   (rq_hostUniq (read_padr ts rq) = rq_hostUniq rq \<or> rq_hostUniq (read_padr ts rq) \<in> set ts) \<and>
   (svc_type (read_padr ts rq) = svc_type rq \<or> svc_type (read_padr ts rq) = TAG_SERVICE_NAME)"
proof (induction ts arbitrary: rq)
  case (Cons t ts)
  have "rq_relayId (parsePADRTags (tag_type t) (tag_data t) rq) =
      (if tag_type t = TAG_RELAY_SESSION_ID then t else rq_relayId rq)"
    "rq_hostUniq (parsePADRTags (tag_type t) (tag_data t) rq) =
      (if tag_type t = TAG_HOST_UNIQ then t else rq_hostUniq rq)"
    "svc_type (parsePADRTags (tag_type t) (tag_data t) rq) =
      (if tag_type t = TAG_SERVICE_NAME then TAG_SERVICE_NAME else svc_type rq)"
    by (cases t; auto simp: parsePADRTags_def copy_service_def)+
  then show ?case using Cons.IH [of "parsePADRTags (tag_type t) (tag_data t) rq"] by (auto split: if_splits)
qed simp

lemma PADI_request:
  assumes run: "processPADI env i packet st = Some st'" and rq: "request_ok (request st)"
  shows "request_ok (request st')"
proof (cases "NOT_UNICAST (h_source packet)")
  case True
  then show ?thesis using run rq by (auto simp: processPADI_def bind_eq_Some_conv)
next
  case False
  obtain ethif where i: "interface st (Some i) = Some ethif"
    using run by (cases "interface st (Some i)") (simp_all add: processPADI_def)
  then obtain n r where r: "parsePacket packet parsePADITags (padi_globals (request st)) = Some (n, r)"
    using run False by (auto simp: processPADI_def bind_eq_Some_conv split: if_splits)
  have sent: "request (srv_send sock p x) = request x" for sock p x by (simp add: srv_send_def)
  have "request st' = r"
    using run False i r unfolding processPADI_def Let_def
    by simp (auto simp: bind_eq_Some_conv sent split: if_splits option.splits)
  then show ?thesis using request_ok_parsed(2) [OF r rq] by simp
qed

lemma error_request: "sendErrorPADS sock src dest tag msg st = Some st' \<Longrightarrow> request st' = request st"
  by (auto simp: sendErrorPADS_def srv_send_def)

lemma alloc_request: "request (snd (pppoe_alloc_session now st)) = request st"
  by (simp add: pppoe_alloc_session_def Let_def split: option.split)

lemma free_request: "pppoe_free_session s st = Some (n, st') \<Longrightarrow> request st' = request st"
  by (auto simp: pppoe_free_session_def bind_eq_Some_conv Let_def split: if_splits option.splits)

lemma open_request: "open_session env i ethif packet now fork nm st = Some st' \<Longrightarrow> request st' = request st"
proof -
  assume run: "open_session env i ethif packet now fork nm st = Some st'"
  obtain r st1 where a: "pppoe_alloc_session now st = (r, st1)" by (cases "pppoe_alloc_session now st")
  have r1: "request st1 = request st" using alloc_request [of now st] a by simp
  show ?thesis
  proof (cases r)
    case None
    then show ?thesis using run a r1 error_request by (force simp: open_session_def)
  next
    case (Some s)
    show ?thesis
    proof (cases "fork < 0")
      case True
      then show ?thesis using run a r1 Some
        by (auto simp: open_session_def Let_def bind_eq_Some_conv dest!: error_request free_request)
    next
      case False
      then show ?thesis using run a r1 Some
        by (auto simp: open_session_def Let_def dest!: padr_child_effect)
    qed
  qed
qed

end
