(* ===== verification/Server_Claims.thy ===== *)
theory Server_Claims
  imports Server_Answers
begin

text \<open>
  The properties of the PPPoE server: sessions are opened by an authentic PADR, refused with an
  error, closed by the peer, by the end of \<open>pppd\<close> or when the server is terminated; the tables
  stay sound. The last section runs a small server for the witnesses.
\<close>

section \<open>Sessions and their numbers\<close>

lemma stop_request:
  "session_padt msg st s = Some st' \<Longrightarrow> request st' = request st"
  "PppoeStopSession s msg st = Some st' \<Longrightarrow> request st' = request st"
proof -
  show padt: "request st' = request st" if "session_padt msg st s = Some st'" for st'
    using that by (auto simp: session_padt_def bind_eq_Some_conv srv_send_def split: option.splits)
  assume "PppoeStopSession s msg st = Some st'"
  then obtain st1 where st1: "session_padt msg st s = Some st1"
    "st' = (let st2 = upd_ses s (\<lambda>x. x\<lparr>ses_flags := ses_flags x OR FLAG_SENT_PADT\<rparr>) st1 in
       if ses_pid (Sessions st2 s) \<noteq> 0 then st2\<lparr>killed := killed st2 @ [ses_pid (Sessions st2 s)]\<rparr> else st2)"
    by (auto simp: PppoeStopSession_def bind_eq_Some_conv Let_def)
  then show "request st' = request st" using padt [OF st1(1)] by (simp add: Let_def)
qed

lemma kill_loop_request: "kill_loop p st = Some st' \<Longrightarrow> request st' = request st"
proof (erule kill_loop.raw_induct [where P = "\<lambda>p st st'. request st' = request st", rotated])
  fix kill p st st'
  assume ih: "\<And>p st st'. kill p st = Some st' \<Longrightarrow> request st' = request st"
    and step: "(case p of None \<Rightarrow> Some st
      | Some s \<Rightarrow> Option.bind (PppoeStopSession s ''Shutting Down'' st) (\<lambda>st. kill (ses_next (Sessions st s)) st)) = Some st'"
  then show "request st' = request st"
    by (cases p) (auto simp: bind_eq_Some_conv dest!: stop_request(2) ih)
qed

lemma child_request: "childHandler s st = Some st' \<Longrightarrow> request st' = request st"
  by (auto simp: childHandler_def bind_eq_Some_conv dest!: stop_request(1) free_request split: if_splits)

lemma PADT_request: "processPADT env i packet st = Some st' \<Longrightarrow> request st' = request st"
  by (auto simp: processPADT_def Let_def bind_eq_Some_conv dest!: stop_request(2) split: if_splits)

lemma PADR_request:
  assumes run: "processPADR env i packet now fork st = Some st'" and rq: "request_ok (request st)"
  shows "request_ok (request st')"
proof -
  obtain ethif where i: "interface st (Some i) = Some ethif"
    using run by (cases "interface st (Some i)") (simp_all add: processPADR_def)
  show ?thesis
  proof (cases "h_dest packet \<noteq> if_mac ethif \<or> NOT_UNICAST (h_source packet)")
    case True
    then have "st' = st\<lparr>request := padr_globals (request st)\<rparr>" using run i by (simp add: processPADR_def)
    then show ?thesis using rq by simp
  next
    case False
    then obtain n r where r: "parsePacket packet parsePADRTags (padr_globals (request st)) = Some (n, r)"
      "padr_answer env i ethif packet now fork (st\<lparr>request := r\<rparr>) = Some st'"
      using run i by (auto simp: processPADR_def bind_eq_Some_conv)
    have "request st' = r"
      using r(2) by (auto simp: padr_answer_def dest!: error_request open_request split: if_splits option.splits)
    then show ?thesis using request_ok_parsed(1) [OF r(1) rq] by simp
  qed
qed

lemma server_reach_request: "server_reach env st \<Longrightarrow> request_ok (request st)"
proof (induction rule: server_reach.induct)
  case (boot slots offset ifs incr lip rip r rnd names ac seed disc)
  then show ?case by (simp add: init_server_def request_ok_def ETH_DATA_LEN_def)
next
  case (event st ev st')
  note run = event.hyps(3)
  show ?case
  proof (cases ev)
    case (Interface_readable i rx now fork)
    then show ?thesis using run event.IH
      by (auto simp: server_step_def serverProcessPacket_def dest: PADI_request PADR_request PADT_request
        split: recv.splits if_splits)
  next
    case (Child_ended p)
    then show ?thesis using run event.IH by (auto simp: server_step_def dest!: child_request split: option.splits)
  next
    case Terminate
    then show ?thesis using run event.IH by (auto simp: server_step_def killAllSessions_def dest!: kill_loop_request)
  qed
qed

lemma session_number_is:
  assumes "server_core big st fr bu" "s < NumSessionSlots st"
  shows "ses_sess (Sessions st s) = htons big (word_of_nat (s + 1 + SessOffset st))" "s + 1 + SessOffset st < 65535"
  using assms by (auto simp: server_core_def)

lemma number_inj: "a < 65536 \<Longrightarrow> b < 65536 \<Longrightarrow> (word_of_nat a :: u16) = word_of_nat b \<longleftrightarrow> a = b"
  by (simp add: word_of_nat_eq_iff take_bit_nat_eq_self)

lemma session_number_nonzero:
  assumes "server_core big st fr bu" "s < NumSessionSlots st"
  shows "ses_sess (Sessions st s) \<noteq> 0"
proof -
  have "htons big (0 :: u16) = 0" by (simp add: htons_def)
  moreover have "word_of_nat (s + 1 + SessOffset st) \<noteq> (0 :: u16)"
    using number_inj [of "s + 1 + SessOffset st" 0] session_number_is(2) [OF assms] by simp
  ultimately show ?thesis using htons_inj [of big "word_of_nat (s + 1 + SessOffset st)" 0] session_number_is(1) [OF assms] by metis
qed

lemma session_padt_sends:
  assumes "interface st (ses_ethif (Sessions st s)) = Some e" "0 \<le> if_sock e" "ses_sess (Sessions st s) \<noteq> 0" "length msg \<le> 511"
  obtains b where "session_padt msg st s = Some (srv_send (if_sock e)
      (discovery_frame (Discovery_type st) (if_mac e) (ses_eth (Sessions st s)) CODE_PADT (ses_sess (Sessions st s)) b) st)"
    "buf_holds b [\<lparr>tag_type = TAG_GENERIC_ERROR, tag_data = ascii msg\<rparr>]"
proof -
  obtain k where k: "session_conn st s = Some k" "discoverySocket k = if_sock e" "myEth k = if_mac e"
    "peerEth k = ses_eth (Sessions st s)" "conn_session k = ses_sess (Sessions st s)"
    "useHostUniq k = False" "cookie k = no_tag" "relayId k = no_tag"
    using assms(1) by (simp add: session_conn_def Let_def)
  have tags: "padt_tags [] (Some (ascii msg)) k = [\<lparr>tag_type = TAG_GENERIC_ERROR, tag_data = ascii msg\<rparr>]"
    using k by (simp add: padt_tags_def saved_def no_tag_def)
  have fits: "length (encs tag_bytes (padt_tags [] (Some (ascii msg)) k)) \<le> MAX_PPPOE_PAYLOAD"
    using assms(4) by (simp add: tags pppoe_consts)
  show thesis
  proof (rule padt_open [of k "[]" "Some (ascii msg)" "Discovery_type st"])
    fix b
    assume b: "padt [] (Discovery_type st) (Some (ascii msg)) k = Some (Some (discovery_frame (Discovery_type st)
        (myEth k) (peerEth k) CODE_PADT (conn_session k) b), k\<lparr>conn_session := 0\<rparr>)"
      "buf_holds b (padt_tags [] (Some (ascii msg)) k)"
    then have "session_padt msg st s = Some (srv_send (if_sock e)
      (discovery_frame (Discovery_type st) (if_mac e) (ses_eth (Sessions st s)) CODE_PADT (ses_sess (Sessions st s)) b) st)"
      using k by (simp add: session_padt_def)
    then show thesis by (rule that) (use b(2) tags in simp)
  qed (use assms k fits in auto)
qed

section \<open>The end of all sessions\<close>

lemma stop_sends:
  assumes "interface st (ses_ethif (Sessions st s)) = Some e" "0 \<le> if_sock e" "ses_sess (Sessions st s) \<noteq> 0"
    "ses_pid (Sessions st s) \<noteq> 0" "length msg \<le> 511"
  obtains st' f where "PppoeStopSession s msg st = Some st'" "same_table st st'"
    "killed st' = killed st @ [ses_pid (Sessions st s)]" "sent st' = sent st @ [(if_sock e, f, plen f + HDR_SIZE)]"
    "code f = CODE_PADT" "session f = ses_sess (Sessions st s)" "h_dest f = ses_eth (Sessions st s)" "h_source f = if_mac e"
    "\<And>x. ses_eth (Sessions st' x) = ses_eth (Sessions st x)"
proof -
  obtain b where b: "session_padt msg st s = Some (srv_send (if_sock e)
      (discovery_frame (Discovery_type st) (if_mac e) (ses_eth (Sessions st s)) CODE_PADT (ses_sess (Sessions st s)) b) st)"
    by (rule session_padt_sends [OF assms(1-3,5)])
  define f where "f = discovery_frame (Discovery_type st) (if_mac e) (ses_eth (Sessions st s)) CODE_PADT (ses_sess (Sessions st s)) b"
  define st1 where "st1 = upd_ses s (\<lambda>x. x\<lparr>ses_flags := ses_flags x OR FLAG_SENT_PADT\<rparr>) (srv_send (if_sock e) f st)"
  have run: "PppoeStopSession s msg st = Some (st1\<lparr>killed := killed st @ [ses_pid (Sessions st s)]\<rparr>)"
    using assms(4) b unfolding PppoeStopSession_def f_def [symmetric]
    by (simp add: Let_def st1_def srv_send_def)
  show thesis
    by (rule that [OF run stop_same [OF run]]) (simp_all add: st1_def srv_send_def, simp_all add: f_def)
qed

definition goodbye :: "server \<Rightarrow> nat \<Rightarrow> int \<times> PPPoEPacket \<times> nat \<Rightarrow> bool" where
  "goodbye st s x \<longleftrightarrow> (case x of (sock, f, n) \<Rightarrow>
     (\<exists>e. interface st (ses_ethif (Sessions st s)) = Some e \<and> sock = if_sock e \<and> h_source f = if_mac e) \<and>
     code f = CODE_PADT \<and> session f = ses_sess (Sessions st s) \<and> h_dest f = ses_eth (Sessions st s) \<and> n = plen f + HDR_SIZE)"

lemma kill_loop_runs:
  assumes "lseg (cn st) p bu"
    and "\<And>s. s \<in> set bu \<Longrightarrow> \<exists>e. interface st (ses_ethif (Sessions st s)) = Some e \<and> 0 \<le> if_sock e"
    and "\<And>s. s \<in> set bu \<Longrightarrow> ses_sess (Sessions st s) \<noteq> 0 \<and> ses_pid (Sessions st s) \<noteq> 0"
  shows "\<exists>st' xs. kill_loop p st = Some st' \<and> killed st' = killed st @ map (\<lambda>s. ses_pid (Sessions st s)) bu \<and>
    sent st' = sent st @ xs \<and> list_all2 (goodbye st) bu xs"
  using assms
proof (induction bu arbitrary: p st)
  case Nil
  then show ?case by (subst kill_loop.simps) simp
next
  case (Cons s bu)
  obtain e where e: "interface st (ses_ethif (Sessions st s)) = Some e" "0 \<le> if_sock e" using Cons.prems(2) [of s] by auto
  have s: "ses_sess (Sessions st s) \<noteq> 0" "ses_pid (Sessions st s) \<noteq> 0" using Cons.prems(3) [of s] by auto
  obtain st1 f where st1: "PppoeStopSession s ''Shutting Down'' st = Some st1" "same_table st st1"
    "killed st1 = killed st @ [ses_pid (Sessions st s)]" "sent st1 = sent st @ [(if_sock e, f, plen f + HDR_SIZE)]"
    "code f = CODE_PADT" "session f = ses_sess (Sessions st s)" "h_dest f = ses_eth (Sessions st s)" "h_source f = if_mac e"
    "\<And>x. ses_eth (Sessions st1 x) = ses_eth (Sessions st x)"
    by (rule stop_sends [OF e s]) auto
  have same: "cn st1 = cn st" "\<And>x. ses_pid (Sessions st1 x) = ses_pid (Sessions st x)"
    "\<And>x. ses_sess (Sessions st1 x) = ses_sess (Sessions st x)" "\<And>x. ses_ethif (Sessions st1 x) = ses_ethif (Sessions st x)"
    "interfaces st1 = interfaces st"
    using st1(2) by (auto simp: same_table_def same_setup_def)
  have itf: "interface st1 q = interface st q" for q by (rule interface_cong [OF same(5)])
  have g: "goodbye st1 = goodbye st" by (rule ext)+ (simp add: goodbye_def itf same(3,4) st1(9))
  obtain st2 xs where st2: "kill_loop (cn st s) st1 = Some st2"
    "killed st2 = killed st1 @ map (\<lambda>s. ses_pid (Sessions st1 s)) bu" "sent st2 = sent st1 @ xs" "list_all2 (goodbye st1) bu xs"
    using Cons.IH [of st1 "cn st s"] Cons.prems unfolding same itf by fastforce
  have "goodbye st s (if_sock e, f, plen f + HDR_SIZE)" using e st1 by (simp add: goodbye_def)
  moreover have "kill_loop p st = Some st2"
    using Cons.prems(1) st1(1) st2(1) same(1) by (subst kill_loop.simps) (simp add: fun_eq_iff)
  ultimately show ?case using st1(3,4) st2 g same(2)
    by (intro exI [of _ st2] exI [of _ "(if_sock e, f, plen f + HDR_SIZE) # xs"]) simp
qed

text \<open>
  C30: when the server is terminated, \<open>killAllSessions\<close> ends, and every busy session, in the order of
  the busy list, gets one PADT, sent from its interface to its peer with its number, and its \<open>pppd\<close>
  gets SIGTERM.
\<close>

theorem terminate_ends_all:
  assumes "server_reach env st"
  shows "\<exists>st' bu xs. server_step env Terminate st = Some st' \<and> lseg (\<lambda>i. ses_next (Sessions st i)) (BusySessions st) bu \<and>
    length bu = NumActiveSessions st \<and> killed st' = killed st @ map (\<lambda>s. ses_pid (Sessions st s)) bu \<and>
    sent st' = sent st @ xs \<and> list_all2 (goodbye st) bu xs"
proof -
  obtain fr bu where wf: "server_wf (srv_big env) st fr bu"
    using server_reach_inv [OF assms] by (auto simp: server_inv_def)
  have core: "server_core (srv_big env) st fr bu" and ch: "children_ok st bu" using wf by (simp_all add: server_wf_def)
  have L: "lseg (cn st) (BusySessions st) bu" "NumActiveSessions st = length bu"
    using core by (simp_all add: server_core_def server_lists_def)
  have "\<exists>e. interface st (ses_ethif (Sessions st s)) = Some e \<and> 0 \<le> if_sock e" if s: "s \<in> set bu" for s
  proof -
    obtain e where e: "interface st (ses_ethif (Sessions st s)) = Some e" using core s by (auto simp: server_core_def)
    then have "e \<in> set (interfaces st)" by (auto simp: interface_def split: option.splits if_splits)
    then show ?thesis using e core by (auto simp: server_core_def)
  qed
  moreover have "ses_sess (Sessions st s) \<noteq> 0 \<and> ses_pid (Sessions st s) \<noteq> 0" if s: "s \<in> set bu" for s
  proof -
    have "s < NumSessionSlots st" using core s by (auto simp: server_core_def)
    moreover obtain p where "(p, s) \<in> set (children st)" using ch s by (force simp: children_ok_def)
    ultimately show ?thesis using session_number_nonzero [OF core] ch by (auto simp: children_ok_def)
  qed
  ultimately show ?thesis using kill_loop_runs [OF L(1)] L by (fastforce simp: server_step_def killAllSessions_def)
qed

text \<open>
  C7: the session table is sound in every reachable state. The free list and the busy list are
  NULL-terminated lists without sharing that contain every slot once, the last free session and the
  number of active ones are right, every busy session has one process that is waited for, and the
  sessions have different numbers, neither 0 nor 0xFFFF.
\<close>

theorem server_tables_sound:
  assumes "server_reach env st"
  shows "\<exists>fr bu. lseg (\<lambda>i. ses_next (Sessions st i)) (FreeSessions st) fr \<and>
      lseg (\<lambda>i. ses_next (Sessions st i)) (BusySessions st) bu \<and>
      distinct (fr @ bu) \<and> set (fr @ bu) = {..<NumSessionSlots st} \<and>
      LastFreeSession st = (if fr = [] then None else Some (last fr)) \<and> NumActiveSessions st = length bu \<and>
      set (map snd (children st)) = set bu \<and> distinct (map snd (children st)) \<and>
      (\<forall>s < NumSessionSlots st. ses_sess (Sessions st s) \<noteq> 0 \<and> ses_sess (Sessions st s) \<noteq> 0xFFFF \<and>
        (\<forall>t < NumSessionSlots st. ses_sess (Sessions st s) = ses_sess (Sessions st t) \<longrightarrow> s = t))"
proof -
  obtain fr bu where wf: "server_wf (srv_big env) st fr bu"
    using server_reach_inv [OF assms] by (auto simp: server_inv_def)
  have core: "server_core (srv_big env) st fr bu" using wf by (simp add: server_wf_def)
  note num = session_number_is [OF core]
  have "htons (srv_big env) (0xFFFF :: u16) = 0xFFFF" by (simp add: htons_def)
  then have max: "ses_sess (Sessions st s) \<noteq> 0xFFFF" if s: "s < NumSessionSlots st" for s
    using num [OF s] number_inj [of "s + 1 + SessOffset st" 65535] htons_inj [of "srv_big env" _ "0xFFFF"] by force
  have inj: "s = t" if "s < NumSessionSlots st" "t < NumSessionSlots st" "ses_sess (Sessions st s) = ses_sess (Sessions st t)" for s t
  proof -
    have "(word_of_nat (s + 1 + SessOffset st) :: u16) = word_of_nat (t + 1 + SessOffset st)"
      by (rule htons_inj [of "srv_big env"]) (use num(1) that in metis)
    then show ?thesis using num(2) [OF that(1)] num(2) [OF that(2)]
        number_inj [of "s + 1 + SessOffset st" "t + 1 + SessOffset st"] by simp
  qed
  show ?thesis
    by (rule exI [of _ fr], rule exI [of _ bu])
      (use wf max inj session_number_nonzero [OF core] in \<open>auto simp: server_wf_def server_core_def server_lists_def children_ok_def\<close>)
qed

text \<open>
  C28: the session table is a first-in-first-out pool. Whatever is taken from it and given back, the
  operations return what the queue of free slots says; a slot that is given back is not used again
  before all slots that were free at that moment have been taken.
\<close>

theorem freed_session_waits:
  assumes "server_lists st fr bu" "s \<in> set bu" "queue_run at_end (Give s # ops) fr bu = Some (rs, fr', bu')"
    and "takes ops \<le> length fr"
  shows "\<exists>st'. pool_run (\<lambda>now st. Some (pppoe_alloc_session now st)) free_slot (Give s # ops) st = Some (rs, st') \<and>
    server_lists st' fr' bu' \<and> Some s \<notin> set rs"
  by (rule slots.given_back_waits [OF assms])

section \<open>The answers to a PADR\<close>

lemma pads_tags_ok:
  assumes "\<forall>t \<in> set ts. tag_ok t" "rq = read_padr ts (padr_globals r)" "svc_type rq \<noteq> 0" "request st = rq"
    "length (encs tag_bytes (pads_tags st)) \<le> MAX_PPPOE_PAYLOAD"
  shows "\<forall>t \<in> set (pads_tags st). tag_ok t"
proof -
  note rs = read_saved [of ts "padr_globals r", folded assms(2)]
  have "\<forall>t \<in> set (saved (rq_relayId rq)). tag_ok t" "\<forall>t \<in> set (saved (rq_hostUniq rq)). tag_ok t"
    using rs assms(1) by (auto simp: saved_def padr_globals_def)
  moreover have "svc_type rq = TAG_SERVICE_NAME" using rs assms(3) by (auto simp: padr_globals_def)
  moreover have "length (tag_data (hd (pads_tags st))) < 65536"
    using assms(5) by (simp add: pads_tags_def reply_tags_def pppoe_consts)
  ultimately show ?thesis using assms(4)
    by (auto simp: pads_tags_def reply_tags_def tag_ok_def TAG_SERVICE_NAME_def)
qed

lemma PADR_runs:
  assumes reach: "server_reach env st" and free: "FreeSessions st = Some s" and i: "interface st (Some i) = Some ethif"
    and pkt: "h_dest packet = if_mac ethif" "\<not> NOT_UNICAST (h_source packet)" "pkt_ok packet" "tags_of packet = Some ts"
    and rq_def: "rq = read_padr ts (padr_globals (request st))"
    and ck: "cookie_ok env ethif packet (st\<lparr>request := rq\<rparr>)" and svc: "svc_type rq \<noteq> 0"
      "padr_service (st\<lparr>request := rq\<rparr>) \<noteq> None" and fork: "0 < fork"
    and fits: "length (encs tag_bytes (pads_tags (st\<lparr>request := rq\<rparr>))) \<le> MAX_PPPOE_PAYLOAD"
  obtains st' b argv where "processPADR env i packet now fork st = Some st'"
    "buf_holds b (pads_tags (st\<lparr>request := rq\<rparr>))" "\<forall>t \<in> set (pads_tags (st\<lparr>request := rq\<rparr>)). tag_ok t"
    "sent st' = sent st @ [(if_sock ethif, discovery_frame (Discovery_type st) (if_mac ethif) (h_source packet) CODE_PADS
       (ses_sess (Sessions st s)) b, snd b + HDR_SIZE)]"
    "started st' = started st @ [argv]" "children st' = children st @ [(nat fork, s)]"
    "BusySessions st' = Some s" "ses_eth (Sessions st' s) = h_source packet" "ses_ethif (Sessions st' s) = Some i"
    "ses_pid (Sessions st' s) = nat fork" "same_setup st st'"
proof -
  obtain fr bu where wf: "server_wf (srv_big env) st fr bu"
    using server_reach_inv [OF reach] by (auto simp: server_inv_def)
  then have "lseg (cn st) (Some s) fr" using free by (simp add: server_wf_def server_core_def server_lists_def)
  then obtain fr' where fr: "fr = s # fr'" by (cases fr) auto
  define st1 where "st1 = st\<lparr>request := rq\<rparr>"
  have rq: "parsePacket packet parsePADRTags (padr_globals (request st)) = Some (0, rq)"
    using parsePacket_tags [OF pkt(3,4)] rq_def by simp
  have ok: "request_ok rq" using request_ok_parsed(1) [OF rq server_reach_request [OF reach]] .
  obtain nm where nm: "padr_service st1 = Some nm" using svc(2) by (auto simp: st1_def)
  have wf1: "server_wf (srv_big env) st1 (s # fr') bu"
    using wf_same_table [OF same_table_simps(2) wf] by (simp add: st1_def fr)
  have i1: "interface st1 (Some i) = Some ethif" using i interface_cong [of st1 st] by (simp add: st1_def)
  have req: "nm = Requested_payload \<longrightarrow> ServiceNames st1 = []"
    using nm by (auto simp: padr_service_def split: if_splits)
  have fits1: "length (encs tag_bytes (pads_tags st1)) \<le> ETH_DATA_LEN" using fits by (simp add: st1_def pppoe_consts)
  have ok1: "request_ok (request st1)" using ok by (simp add: st1_def)
  obtain st' b where O: "open_session env i ethif packet now fork nm st1 = Some st'" "buf_holds b (pads_tags st1)"
    "sent st' = sent st1 @ [(if_sock ethif, discovery_frame (Discovery_type st1) (if_mac ethif) (h_source packet) CODE_PADS
       (ses_sess (Sessions st1 s)) b, snd b + HDR_SIZE)]"
    "\<exists>argv. started st' = started st1 @ [argv]" "children st' = children st1 @ [(nat fork, s)]"
    "BusySessions st' = Some s" "ses_eth (Sessions st' s) = h_source packet" "ses_ethif (Sessions st' s) = Some i"
    "ses_pid (Sessions st' s) = nat fork" "same_setup st1 st'"
    by (rule open_session_runs [OF wf1 i1 fork ok1 req fits1])
  have run: "processPADR env i packet now fork st = Some st'"
    using i pkt ck svc rq nm O(1) by (simp add: processPADR_def padr_answer_def st1_def [symmetric]) (simp add: st1_def)
  have "plen packet \<le> length (payload packet)" using pkt(3) by (simp add: pkt_ok_def)
  then have tagok: "\<forall>t \<in> set (pads_tags st1). tag_ok t"
    using pads_tags_ok [of ts rq "request st" st1] tags_of_split(3) [OF pkt(4)] rq_def svc(1) fits by (simp add: st1_def)
  obtain argv where "started st' = started st @ [argv]" using O(4) by (auto simp: st1_def)
  moreover have "same_setup st st'" using O(10) by (simp add: same_setup_def st1_def)
  ultimately show thesis using that [OF run] O tagok by (simp add: st1_def)
qed

text \<open>
  C27: a PADR that carries the cookie and asks for an offered service opens a session when a slot is
  free: the first free slot becomes busy and belongs to the sender, the PADS goes back to it with the
  slot's number and the tags of the request, and \<open>pppd\<close> is started by a child that is waited for.
\<close>

theorem PADR_opens_session:
  assumes "server_reach env st" "FreeSessions st = Some s" "interface st (Some i) = Some ethif"
    and "h_dest packet = if_mac ethif" "\<not> NOT_UNICAST (h_source packet)" "pkt_ok packet" "tags_of packet = Some ts"
    and "rq = fold (\<lambda>t. parsePADRTags (tag_type t) (tag_data t)) ts (padr_globals (request st))"
    and "cookie_ok env ethif packet (st\<lparr>request := rq\<rparr>)" "svc_type rq \<noteq> 0"
    and "padr_service (st\<lparr>request := rq\<rparr>) \<noteq> None" "0 < fork"
    and "length (encs tag_bytes (pads_tags (st\<lparr>request := rq\<rparr>))) \<le> MAX_PPPOE_PAYLOAD"
  shows "\<exists>st' f argv. processPADR env i packet now fork st = Some st' \<and>
      sent st' = sent st @ [(if_sock ethif, f, plen f + HDR_SIZE)] \<and> code f = CODE_PADS \<and>
      session f = ses_sess (Sessions st s) \<and> h_dest f = h_source packet \<and> h_source f = if_mac ethif \<and>
      pkt_ok f \<and> tags_of f = Some (pads_tags (st\<lparr>request := rq\<rparr>)) \<and>
      BusySessions st' = Some s \<and> ses_eth (Sessions st' s) = h_source packet \<and> ses_ethif (Sessions st' s) = Some i \<and>
      ses_pid (Sessions st' s) = nat fork \<and> children st' = children st @ [(nat fork, s)] \<and> started st' = started st @ [argv]"
proof -
  obtain st' b argv where R: "processPADR env i packet now fork st = Some st'"
    "buf_holds b (pads_tags (st\<lparr>request := rq\<rparr>))" "\<forall>t \<in> set (pads_tags (st\<lparr>request := rq\<rparr>)). tag_ok t"
    "sent st' = sent st @ [(if_sock ethif, discovery_frame (Discovery_type st) (if_mac ethif) (h_source packet) CODE_PADS
       (ses_sess (Sessions st s)) b, snd b + HDR_SIZE)]"
    "started st' = started st @ [argv]" "children st' = children st @ [(nat fork, s)]"
    "BusySessions st' = Some s" "ses_eth (Sessions st' s) = h_source packet" "ses_ethif (Sessions st' s) = Some i"
    "ses_pid (Sessions st' s) = nat fork"
    by (rule PADR_runs [OF assms])
  have "snd b \<le> MAX_PPPOE_PAYLOAD" using buf_holds_len [OF R(2)] assms(13) by simp
  note F = frame_tags [OF R(2,3) this]
  show ?thesis
    by (rule exI [of _ st'], rule exI [of _ "discovery_frame (Discovery_type st) (if_mac ethif) (h_source packet) CODE_PADS
       (ses_sess (Sessions st s)) b"], rule exI [of _ argv]) (use R F in simp)
qed

text \<open>
  C29: a PADR with the right cookie is refused with an error when it names no service, names one that
  is not offered, or finds no free slot. The answer is a PADS with session number 0, the error tag
  first and the relay-ID and Host-Uniq tags of the request behind it; the session table, the processes
  and the started programs stay as they are. When these tags are longer than the 1500 bytes of the
  frame's payload, \<open>sendErrorPADS\<close>, which does not check the room, writes behind it.
\<close>

theorem PADR_refused:
  assumes "interface st (Some i) = Some ethif" "h_dest packet = if_mac ethif" "\<not> NOT_UNICAST (h_source packet)"
    and "parsePacket packet parsePADRTags (padr_globals (request st)) = Some (n, rq)"
    and "cookie_ok env ethif packet (st\<lparr>request := rq\<rparr>)"
    and "(svc_type rq = 0 \<and> err = (TAG_SERVICE_NAME_ERROR, ''RP-PPPoE: Server: No service name tag'')) \<or>
      (svc_type rq \<noteq> 0 \<and> padr_service (st\<lparr>request := rq\<rparr>) = None \<and>
        err = (TAG_SERVICE_NAME_ERROR, ''RP-PPPoE: Server: Invalid service name tag'')) \<or>
      (svc_type rq \<noteq> 0 \<and> padr_service (st\<lparr>request := rq\<rparr>) \<noteq> None \<and> FreeSessions st = None \<and>
        err = (TAG_AC_SYSTEM_ERROR, ''RP-PPPoE: Server: No client slots available''))"
    and "tags = reply_tags \<lparr>tag_type = fst err, tag_data = ascii (snd err)\<rparr> rq"
  shows "if length (encs tag_bytes tags) \<le> ETH_DATA_LEN
    then \<exists>f. processPADR env i packet now fork st =
        Some (st\<lparr>request := rq, sent := sent st @ [(if_sock ethif, f, plen f + HDR_SIZE)]\<rparr>) \<and>
      code f = CODE_PADS \<and> session f = 0 \<and> h_dest f = h_source packet \<and> h_source f = if_mac ethif \<and>
      plen f = length (encs tag_bytes tags) \<and> take (plen f) (payload f) = encs tag_bytes tags
    else processPADR env i packet now fork st = None"
proof -
  define st1 where "st1 = st\<lparr>request := rq\<rparr>"
  have "FreeSessions st1 = FreeSessions st" by (simp add: st1_def)
  then have answer: "processPADR env i packet now fork st =
      sendErrorPADS (if_sock ethif) (if_mac ethif) (h_source packet) (fst err) (snd err) st1"
    using assms(1-6) by (auto simp: processPADR_def padr_answer_def open_session_def alloc_none st1_def [symmetric])
      (auto simp: st1_def)
  have tags: "reply_tags \<lparr>tag_type = fst err, tag_data = ascii (snd err)\<rparr> (request st1) = tags"
    using assms(7) by (simp add: st1_def)
  show ?thesis
  proof (cases "length (encs tag_bytes tags) \<le> ETH_DATA_LEN")
    case True
    then have "length (encs tag_bytes ([] @ tags)) \<le> ETH_DATA_LEN" by simp
    then obtain b where b: "copy_raw tags empty_buf = Some b" "buf_holds b ([] @ tags)"
      by (rule copy_raw_fits [OF empty_holds])
    define f where "f = discovery_frame (Discovery_type st1) (if_mac ethif) (h_source packet) CODE_PADS 0 b"
    have "processPADR env i packet now fork st = Some (srv_send (if_sock ethif) f st1)"
      using b(1) unfolding answer sendErrorPADS_def tags f_def by simp
    then have "processPADR env i packet now fork st =
        Some (st\<lparr>request := rq, sent := sent st @ [(if_sock ethif, f, plen f + HDR_SIZE)]\<rparr>)"
      by (simp add: srv_send_def st1_def)
    moreover have "plen f = length (encs tag_bytes tags)" "take (plen f) (payload f) = encs tag_bytes tags"
      "code f = CODE_PADS" "session f = 0" "h_dest f = h_source packet" "h_source f = if_mac ethif"
      using b(2) by (simp_all add: f_def buf_holds_def discovery_frame_def)
    ultimately show ?thesis unfolding if_P [OF True] by blast
  next
    case False
    then have "copy_raw tags empty_buf = None" using copy_raw_overflows [OF empty_holds, of tags] by simp
    then show ?thesis using False unfolding answer sendErrorPADS_def tags by simp
  qed
qed

text \<open>
  A PADT that names a slot that no session has used yet and comes from the address
  00:00:00:00:00:00, which \<open>calloc\<close> left in the slot, passes every check of \<open>processPADT\<close> and makes
  \<open>PppoeStopSession\<close> read through the NULL pointer \<open>ethif\<close>.
\<close>

lemma PADT_unused_slot:
  assumes "interface st (Some i) = Some ethif" "s < NumSessionSlots st" "ses_ethif (Sessions st s) = None"
    and "ses_eth (Sessions st s) = replicate 6 0" "session_index (srv_big env) st (session packet) = s"
    and "ses_sess (Sessions st s) = session packet" "h_source packet = replicate 6 0" "h_dest packet = if_mac ethif"
  shows "processPADT env i packet st = None"
  using assms by (auto simp: processPADT_def Let_def bind_eq_None_conv PppoeStopSession_def session_padt_def
      session_conn_def interface_def split: option.split)

section \<open>A small server\<close>

text \<open>
  Two slots, no configured service names, one interface. The client \<open>demo_peer\<close> sends a PADR with the
  cookie of the server.
\<close>

definition demo_srv_env :: server_env where
  "demo_srv_env = \<lparr>srv_big = False, srv_pid = [7, 0, 0, 0], UseLinuxKernelModePPPoE = False, Synchronous = False,
     PassUnitOptionToPPPD = False, PppoeOptions = [], PPPOE_PATH = ascii ''/usr/sbin/pppoe'', PLUGIN_PATH = [],
     PPPOE_SERVER_OPTIONS = ascii ''/etc/ppp/pppoe-server-options''\<rparr>"

definition demo_srv_if :: Interface where
  "demo_srv_if = \<lparr>if_name = ascii ''eth0'', if_sock = 3, if_mac = [2, 0, 0, 0, 0, 1]\<rparr>"

definition demo_peer :: mac where "demo_peer = [2, 0, 0, 0, 0, 9]"

definition demo_srv :: server where
  "demo_srv = init_server False 2 0 False [10, 0, 0, 1] [10, 67, 15, 1] (session_order False (\<lambda>i. 0) 2) [demo_srv_if] []
     (ascii ''ac'') (replicate 16 7) 0x8863"

definition frame_with :: "mac \<Rightarrow> mac \<Rightarrow> u8 \<Rightarrow> PPPoETag list \<Rightarrow> PPPoEPacket" where
  "frame_with src dest cd ts = \<lparr>h_dest = dest, h_source = src, h_proto = 0x8863, ver = 1, ptype = 1, code = cd,
     session = 0, plen = length (encs tag_bytes ts),
     payload = encs tag_bytes ts @ replicate (ETH_DATA_LEN - length (encs tag_bytes ts)) 0\<rparr>"

lemma frame_with_tags:
  assumes "\<forall>t \<in> set ts. tag_ok t" "length (encs tag_bytes ts) \<le> MAX_PPPOE_PAYLOAD"
  shows "pkt_ok (frame_with src dest cd ts)" "tags_of (frame_with src dest cd ts) = Some ts"
  using assms pppoe.decs_encs by (simp_all add: pkt_ok_def tags_of_def frame_with_def pppoe_consts)

definition demo_cookie :: PPPoETag where
  "demo_cookie = \<lparr>tag_type = TAG_AC_COOKIE, tag_data = genCookie demo_srv_env demo_peer (if_mac demo_srv_if) (CookieSeed demo_srv)\<rparr>"

definition demo_padr :: PPPoEPacket where
  "demo_padr = frame_with demo_peer (if_mac demo_srv_if) CODE_PADR [servname [], demo_cookie]"

definition demo_rq :: request_tags where
  "demo_rq = fold (\<lambda>t. parsePADRTags (tag_type t) (tag_data t)) [servname [], demo_cookie] (padr_globals (request demo_srv))"

lemma demo_srv_reach: "server_reach demo_srv_env demo_srv"
  unfolding demo_srv_def using server_reach.boot [of 2 0 "[demo_srv_if]" demo_srv_env False] by (simp add: demo_srv_env_def demo_srv_if_def)

lemma demo_srv_simps:
  "FreeSessions demo_srv = Some 0" "interface demo_srv (Some 0) = Some demo_srv_if" "ServiceNames demo_srv = []"
  "CookieSeed demo_srv = replicate 16 7" "h_dest demo_padr = if_mac demo_srv_if" "h_source demo_padr = demo_peer"
  "interface (demo_srv\<lparr>request := r\<rparr>) (Some 0) = Some demo_srv_if"
  by (simp_all add: demo_srv_def init_server_def session_order_def interface_def demo_padr_def frame_with_def upt_rec)

lemma demo_cookie_len: "length (tag_data demo_cookie) = 20"
  by (simp add: demo_cookie_def genCookie_md5 demo_peer_def demo_srv_if_def demo_srv_def init_server_def demo_srv_env_def)

lemma demo_padr_tags: "pkt_ok demo_padr" "tags_of demo_padr = Some [servname [], demo_cookie]"
proof -
  have "\<forall>t \<in> set [servname [], demo_cookie]. tag_ok t"
    using demo_cookie_len by (simp add: tag_ok_def servname_def tag_consts) (simp add: demo_cookie_def tag_consts)
  moreover have "length (encs tag_bytes [servname [], demo_cookie]) \<le> MAX_PPPOE_PAYLOAD"
    using demo_cookie_len by (simp add: servname_def pppoe_consts)
  ultimately show "pkt_ok demo_padr" "tags_of demo_padr = Some [servname [], demo_cookie]"
    unfolding demo_padr_def by (rule frame_with_tags)+
qed

lemma demo_rq_simps:
  "receivedCookie demo_rq = demo_cookie" "svc_type demo_rq = TAG_SERVICE_NAME" "svc_length demo_rq = 0"
  "tag_type (rq_relayId demo_rq) = 0" "tag_type (rq_hostUniq demo_rq) = 0"
proof -
  have [simp]: "tag_type demo_cookie = TAG_AC_COOKIE" by (simp add: demo_cookie_def)
  show "receivedCookie demo_rq = demo_cookie" "svc_type demo_rq = TAG_SERVICE_NAME" "svc_length demo_rq = 0"
    "tag_type (rq_relayId demo_rq) = 0" "tag_type (rq_hostUniq demo_rq) = 0"
    by (simp_all add: demo_rq_def servname_def parsePADRTags_def copy_service_def padr_globals_def)
qed

lemma demo_cookie_ok: "cookie_ok demo_srv_env demo_srv_if demo_padr (demo_srv\<lparr>request := demo_rq\<rparr>)"
  using demo_cookie_len
  by (simp add: cookie_ok_def demo_rq_simps demo_srv_simps COOKIE_LEN_def MD5_LEN_def)
    (simp add: demo_cookie_def demo_srv_simps demo_srv_env_def tag_consts)

lemma demo_pads: "pads_tags (demo_srv\<lparr>request := demo_rq\<rparr>) = [servname []]"
  by (simp add: pads_tags_def reply_tags_def requested_def demo_rq_simps demo_srv_simps servname_def saved_def)

lemma demo_padr_runs:
  "\<not> NOT_UNICAST (h_source demo_padr)" "padr_service (demo_srv\<lparr>request := demo_rq\<rparr>) \<noteq> None"
  "length (encs tag_bytes (pads_tags (demo_srv\<lparr>request := demo_rq\<rparr>))) \<le> MAX_PPPOE_PAYLOAD" "svc_type demo_rq \<noteq> 0"
  by (simp add: demo_srv_simps demo_peer_def NOT_UNICAST_def, simp add: padr_service_def demo_rq_simps,
    simp add: demo_pads servname_def pppoe_consts, simp add: demo_rq_simps tag_consts)

theorem PADR_opens_session_witness:
  "\<exists>st' f argv. processPADR demo_srv_env 0 demo_padr 99 1234 demo_srv = Some st' \<and>
      sent st' = sent demo_srv @ [(3, f, plen f + HDR_SIZE)] \<and> code f = CODE_PADS \<and>
      session f = ses_sess (Sessions demo_srv 0) \<and> h_dest f = demo_peer \<and> h_source f = [2, 0, 0, 0, 0, 1] \<and>
      pkt_ok f \<and> tags_of f = Some [servname []] \<and>
      BusySessions st' = Some 0 \<and> ses_eth (Sessions st' 0) = demo_peer \<and> ses_ethif (Sessions st' 0) = Some 0 \<and>
      ses_pid (Sessions st' 0) = 1234 \<and> children st' = children demo_srv @ [(1234, 0)] \<and> started st' = started demo_srv @ [argv]"
  using PADR_opens_session [OF demo_srv_reach demo_srv_simps(1,2,5) demo_padr_runs(1) demo_padr_tags demo_rq_def demo_cookie_ok
      demo_padr_runs(4,2) _ demo_padr_runs(3), of 1234 99]
  unfolding demo_pads by (simp add: demo_srv_simps) (simp add: demo_srv_if_def)

text \<open>The server after that PADR.\<close>

definition demo_busy :: server where
  "demo_busy = the (processPADR demo_srv_env 0 demo_padr 99 1234 demo_srv)"

lemma demo_busy_runs:
  "processPADR demo_srv_env 0 demo_padr 99 1234 demo_srv = Some demo_busy" "BusySessions demo_busy = Some 0"
  "children demo_busy = [(1234, 0)]" "NumSessionSlots demo_busy = 2" "server_reach demo_srv_env demo_busy"
proof -
  obtain st' where st': "processPADR demo_srv_env 0 demo_padr 99 1234 demo_srv = Some st'"
    "BusySessions st' = Some 0" "children st' = children demo_srv @ [(1234, 0)]" "same_setup demo_srv st'"
    by (rule PADR_runs [OF demo_srv_reach demo_srv_simps(1,2,5) demo_padr_runs(1) demo_padr_tags demo_rq_def demo_cookie_ok
      demo_padr_runs(4,2) _ demo_padr_runs(3), of 1234 99]) auto
  then show run: "processPADR demo_srv_env 0 demo_padr 99 1234 demo_srv = Some demo_busy" by (simp add: demo_busy_def)
  show "BusySessions demo_busy = Some 0" "children demo_busy = [(1234, 0)]" "NumSessionSlots demo_busy = 2"
    using st' run by (simp_all add: demo_srv_def init_server_def same_setup_def)
  have "plen demo_padr = 28" using demo_cookie_len by (simp add: demo_padr_def frame_with_def servname_def TAG_HDR_SIZE_def)
  then have "server_step demo_srv_env (Interface_readable 0 (Recv demo_padr 1500) 99 1234) demo_srv = Some demo_busy"
    using run by (simp add: server_step_def serverProcessPacket_def bogus_length_def HDR_SIZE_def)
      (simp add: demo_padr_def frame_with_def CODE_PADR_def CODE_PADI_def CODE_PADT_def)
  moreover have "event_ok (Interface_readable 0 (Recv demo_padr 1500) 99 1234) demo_srv"
    by (simp add: event_ok_def fork_ok_def demo_srv_def init_server_def)
  ultimately show "server_reach demo_srv_env demo_busy" by (rule server_reach.event [OF demo_srv_reach, rotated])
qed

lemma demo_busy_lists: "server_lists demo_busy [1] [0]"
proof -
  obtain fr bu where wf: "server_wf (srv_big demo_srv_env) demo_busy fr bu"
    using server_reach_inv [OF demo_busy_runs(5)] by (auto simp: server_inv_def)
  have L: "server_lists demo_busy fr bu" "set (fr @ bu) = {..<2}" "set bu = {0}"
    using wf demo_busy_runs(3,4) by (auto simp: server_wf_def server_core_def children_ok_def)
  have d: "distinct fr" "distinct bu" "set fr \<inter> set bu = {}" using L(1) by (auto simp: server_lists_def)
  have "set fr = set (fr @ bu) - set bu" using d(3) by auto
  also have "\<dots> = {1}" unfolding L(2,3) by auto
  finally have "set fr = {1}" .
  moreover have one: "xs = [x]" if "distinct xs" "set xs = {x}" for xs and x :: nat
    using that by (cases xs; cases "tl xs") auto
  ultimately show ?thesis using L(1) one d L(3) by metis
qed

theorem session_needs_cookie_witness:
  "\<exists>pre post. payload demo_padr = pre @ tag_bytes \<lparr>tag_type = TAG_AC_COOKIE,
      tag_data = md5 (demo_peer @ [2, 0, 0, 0, 0, 1] @ replicate 16 7) @ [7, 0, 0, 0]\<rparr> @ post"
proof -
  have "BusySessions demo_srv = None" by (simp add: demo_srv_def init_server_def)
  then have "BusySessions demo_busy \<noteq> BusySessions (demo_srv\<lparr>request := request demo_busy\<rparr>)" by (simp add: demo_busy_runs(2))
  then have "demo_busy \<noteq> demo_srv\<lparr>request := request demo_busy\<rparr>" by metis
  moreover have "length (h_source demo_padr) = 6" "length (if_mac demo_srv_if) = 6" "length (CookieSeed demo_srv) = SEED_LEN"
    by (simp_all add: demo_srv_simps demo_peer_def demo_srv_if_def SEED_LEN_def)
  moreover have "h_source demo_padr @ if_mac demo_srv_if @ CookieSeed demo_srv = demo_peer @ [2, 0, 0, 0, 0, 1] @ replicate 16 7"
    "srv_pid demo_srv_env = [7, 0, 0, 0]"
    by (simp_all add: demo_srv_simps demo_srv_if_def demo_srv_env_def)
  ultimately show ?thesis using session_needs_cookie [OF demo_srv_simps(2) demo_busy_runs(1)] by metis
qed

theorem terminate_ends_all_witness:
  "\<exists>st' bu xs. server_step demo_srv_env Terminate demo_busy = Some st' \<and>
    lseg (\<lambda>i. ses_next (Sessions demo_busy i)) (BusySessions demo_busy) bu \<and>
    length bu = NumActiveSessions demo_busy \<and> killed st' = killed demo_busy @ map (\<lambda>s. ses_pid (Sessions demo_busy s)) bu \<and>
    sent st' = sent demo_busy @ xs \<and> list_all2 (goodbye demo_busy) bu xs"
  by (rule terminate_ends_all [OF demo_busy_runs(5)])

theorem server_tables_sound_witness:
  "\<exists>fr bu. lseg (\<lambda>i. ses_next (Sessions demo_busy i)) (FreeSessions demo_busy) fr \<and>
      lseg (\<lambda>i. ses_next (Sessions demo_busy i)) (BusySessions demo_busy) bu \<and>
      distinct (fr @ bu) \<and> set (fr @ bu) = {..<NumSessionSlots demo_busy} \<and>
      LastFreeSession demo_busy = (if fr = [] then None else Some (last fr)) \<and> NumActiveSessions demo_busy = length bu \<and>
      set (map snd (children demo_busy)) = set bu"
  using server_tables_sound [OF demo_busy_runs(5)] by blast

theorem freed_session_waits_witness:
  "\<exists>st'. pool_run (\<lambda>now st. Some (pppoe_alloc_session now st)) free_slot [Give 0, Take 5] demo_busy = Some ([Some 1], st') \<and>
    server_lists st' [0] [1] \<and> Some 0 \<notin> set [Some (1 :: nat)]"
  using freed_session_waits [OF demo_busy_lists, of 0 "[Take 5]" "[Some 1]" "[0]" "[1]"] by simp

text \<open>A PADR with the cookie but without a Service-Name tag.\<close>

definition demo_nameless :: PPPoEPacket where
  "demo_nameless = frame_with demo_peer (if_mac demo_srv_if) CODE_PADR [demo_cookie]"

definition demo_rq0 :: request_tags where
  "demo_rq0 = fold (\<lambda>t. parsePADRTags (tag_type t) (tag_data t)) [demo_cookie] (padr_globals (request demo_srv))"

theorem PADR_refused_witness:
  "\<exists>f. processPADR demo_srv_env 0 demo_nameless 99 1234 demo_srv =
        Some (demo_srv\<lparr>request := demo_rq0, sent := sent demo_srv @ [(3, f, plen f + HDR_SIZE)]\<rparr>) \<and>
      code f = CODE_PADS \<and> session f = 0 \<and> h_dest f = demo_peer"
proof -
  have ok: "tag_ok demo_cookie" using demo_cookie_len by (simp add: tag_ok_def) (simp add: demo_cookie_def tag_consts)
  have pkt: "pkt_ok demo_nameless" "tags_of demo_nameless = Some [demo_cookie]"
    unfolding demo_nameless_def by (rule frame_with_tags; use ok demo_cookie_len in \<open>simp add: pppoe_consts\<close>)+
  have parse: "parsePacket demo_nameless parsePADRTags (padr_globals (request demo_srv)) = Some (0, demo_rq0)"
    unfolding demo_rq0_def by (rule parsePacket_tags [OF pkt])
  have [simp]: "tag_type demo_cookie = TAG_AC_COOKIE" by (simp add: demo_cookie_def)
  have rq: "receivedCookie demo_rq0 = demo_cookie" "svc_type demo_rq0 = 0"
    "tag_type (rq_relayId demo_rq0) = 0" "tag_type (rq_hostUniq demo_rq0) = 0"
    by (simp_all add: demo_rq0_def parsePADRTags_def padr_globals_def)
  have addr: "h_dest demo_nameless = if_mac demo_srv_if" "h_source demo_nameless = demo_peer"
    by (simp_all add: demo_nameless_def frame_with_def)
  have "cookie_ok demo_srv_env demo_srv_if demo_nameless (demo_srv\<lparr>request := demo_rq0\<rparr>)"
    using demo_cookie_len by (simp add: cookie_ok_def rq demo_srv_simps addr COOKIE_LEN_def MD5_LEN_def)
      (simp add: demo_cookie_def demo_srv_simps demo_srv_env_def tag_consts)
  moreover have "\<not> NOT_UNICAST (h_source demo_nameless)" by (simp add: addr demo_peer_def NOT_UNICAST_def)
  ultimately show ?thesis
    using PADR_refused [OF demo_srv_simps(2) addr(1) _ parse, of demo_srv_env
        "(TAG_SERVICE_NAME_ERROR, ''RP-PPPoE: Server: No service name tag'')" _ 99 1234, OF _ _ _ refl]
    by (simp add: rq reply_tags_def saved_def pppoe_consts addr) (auto simp: demo_srv_if_def)
qed

end
