(* ===== verification/Pppoe_System.thy ===== *)
theory Pppoe_System
  imports Client_Session Server_Claims
begin

text \<open>
  The PPPoE client and the PPPoE server together: the frames of the one are the input of the other.
  Discovery of a client with a server that has a free slot ends with one session that both ends
  know by the same number and addresses.
\<close>

section \<open>The client's two phases\<close>

lemma send_ok:
  "send_result env = (\<lambda>n. Sent) \<Longrightarrow> send_discovery env p c =
   Run (c\<lparr>attempts := attempts c + 1, frames := frames c @ [(discoverySocket (conn c), p, plen p + HDR_SIZE)]\<rparr>)"
  by (simp add: send_discovery_def sendPacket_def Let_def)

lemma for_me:
  assumes "h_dest p = myEth k" "pkt_ok p" "tags_of p = Some ts" "useHostUniq k \<Longrightarrow> hostUniq (pid env) \<in> set ts"
  shows "packetIsForMe env k p = Some True"
proof (cases "useHostUniq k")
  case True
  have keep: "fold (\<lambda>t. parseForHostUniq env (tag_type t) (tag_data t)) us True" for us
    by (induction us) (simp_all add: parseForHostUniq_def)
  have "fold (\<lambda>t. parseForHostUniq env (tag_type t) (tag_data t)) us v" if "hostUniq (pid env) \<in> set us" for us v
    using that
  proof (induction us arbitrary: v)
    case (Cons u us)
    show ?case
    proof (cases "u = hostUniq (pid env)")
      case True
      have "parseForHostUniq env (tag_type (hostUniq (pid env))) (tag_data (hostUniq (pid env))) w = True" for w
        by (simp add: parseForHostUniq_def hostUniq_def)
      then show ?thesis using keep True by simp
    qed (use Cons in simp)
  qed simp
  then show ?thesis using assms True by (simp add: packetIsForMe_def parsePacket_tags [OF assms(2,3)])
qed (use assms(1) in \<open>simp add: packetIsForMe_def\<close>)

text \<open>The tags of an offer, as \<open>parsePADOTags\<close> reads them.\<close>

lemma read_services:
  "\<not> pc_exit pc \<Longrightarrow> fold (\<lambda>t. parsePADOTags (tag_type t) (tag_data t)) (map servname ss) pc =
   pc\<lparr>seenServiceName := seenServiceName pc \<or> ss \<noteq> [],
      serviceNameOK := serviceNameOK pc \<or> (\<exists>s \<in> set ss. serviceName (pc_conn pc) = Some s)\<rparr>"
proof (induction ss arbitrary: pc)
  case (Cons s ss)
  then show ?case by (auto simp: servname_def parsePADOTags_def tag_consts Let_def)
qed simp

definition echo :: "PPPoEConnection \<Rightarrow> client_env \<Rightarrow> PPPoETag list" where
  "echo k env = (if useHostUniq k then [hostUniq (pid env)] else [])"

lemma PADO_accepted:
  assumes p: "\<not> bogus_length p len" "h_dest p = myEth (conn c)" "code p = CODE_PADO" "\<not> NOT_UNICAST (h_source p)" "pkt_ok p"
    and tags: "tags_of p = Some ([\<lparr>tag_type = TAG_AC_NAME, tag_data = n\<rparr>] @ map servname ss @
       [\<lparr>tag_type = TAG_AC_COOKIE, tag_data = ck\<rparr>] @ echo (conn c) env)"
    and ac: "acName (conn c) = None \<or> acName (conn c) = Some n"
    and sv: "serviceName (conn c) = None \<or> (\<exists>s \<in> set ss. serviceName (conn c) = Some s)" and "ss \<noteq> []" "\<not> printACNames (conn c)"
  shows "waitForPADO env t (Received p len # inp) c =
    (Run (c\<lparr>waits := waits c @ [t], conn := (conn c)\<lparr>cookie := \<lparr>tag_type = TAG_AC_COOKIE, tag_data = ck\<rparr>,
       numPADOs := numPADOs (conn c) + 1, peerEth := h_source p, discoveryState := STATE_RECEIVED_PADO\<rparr>\<rparr>), inp)"
proof -
  define pc where "pc = \<lparr>pc_conn = conn c, acNameOK = (acName (conn c) = None), serviceNameOK = (serviceName (conn c) = None),
        seenACName = False, seenServiceName = False, pc_exit = False\<rparr>"
  have parse: "parsePacket p parsePADOTags pc = Some (0, pc\<lparr>pc_conn := (conn c)\<lparr>cookie := \<lparr>tag_type = TAG_AC_COOKIE, tag_data = ck\<rparr>\<rparr>,
      acNameOK := True, serviceNameOK := True, seenACName := True, seenServiceName := True\<rparr>)"
    unfolding parsePacket_tags [OF p(5) tags] using ac sv \<open>ss \<noteq> []\<close>
    by (auto simp: pc_def echo_def read_services parsePADOTags_def hostUniq_def tag_consts Let_def)
  have me: "packetIsForMe env (conn c) p = Some True"
    by (rule for_me [OF p(2,5) tags]) (simp add: echo_def)
  have "pc\<lparr>pc_conn := conn c\<rparr> = pc"
    by (simp add: pc_def)
  note found = parse [folded pc_def, unfolded pc_def, simplified]
  show ?thesis
    using p(1,3,4) me \<open>\<not> printACNames (conn c)\<close>
    by (simp add: waitForPADO_def waitForPADO_loop.simps(2) Let_def upd_conn_def found)
qed

lemma PADS_accepted:
  assumes p: "\<not> bogus_length p len" "h_source p = peerEth (conn c)" "h_dest p = myEth (conn c)" "code p = CODE_PADS" "pkt_ok p"
    and tags: "tags_of p = Some (servname n # echo (conn c) env)"
  shows "waitForPADS env t (Received p len # inp) c =
    (Run (c\<lparr>waits := waits c @ [t], conn := (conn c)\<lparr>discoveryState := STATE_SESSION, conn_session := session p\<rparr>\<rparr>), inp)"
proof -
  have "parsePacket p parsePADSTags (k, False) = Some (0, k, False)" for k
    unfolding parsePacket_tags [OF p(5) tags]
    by (simp add: echo_def servname_def parsePADSTags_def hostUniq_def tag_consts)
  moreover have "packetIsForMe env (conn c) p = Some True"
    by (rule for_me [OF p(3,5) tags]) (simp add: echo_def)
  ultimately show ?thesis
    using p(1,2,4) by (simp add: waitForPADS_def waitForPADS_loop.simps(2) Let_def upd_conn_def)
qed

section \<open>The server's two answers\<close>

text \<open>The service the client names, and the services a server offers for it.\<close>

definition asked :: "PPPoEConnection \<Rightarrow> u8 list" where
  "asked k = tag_data (service_tag k)"

definition offered :: "server \<Rightarrow> PPPoEConnection \<Rightarrow> u8 list list" where
  "offered st k = (if ServiceNames st = [] then [asked k] else ServiceNames st)"

definition bytes_read :: "PPPoEPacket \<Rightarrow> u32" where
  "bytes_read p = word_of_nat (plen p + HDR_SIZE)"

lemma whole_frame: "pkt_ok p \<Longrightarrow> \<not> bogus_length p (bytes_read p)"
proof -
  assume "pkt_ok p"
  then have "plen p + HDR_SIZE < 2 ^ LENGTH(32)" by (simp add: pkt_ok_def pppoe_consts)
  then show ?thesis by (simp add: bogus_length_def bytes_read_def unat_of_nat take_bit_nat_eq_self del: of_nat_add)
qed

lemma read_padi_request:
  "\<exists>rq. fold (\<lambda>t. parsePADITags (tag_type t) (tag_data t)) (padi_tags env k) (padi_globals rq0) = rq \<and>
    svc_type rq = TAG_SERVICE_NAME \<and> svc_length rq = length (asked k) \<and> take (length (asked k)) (svc_payload rq) = asked k \<and>
    saved (rq_relayId rq) = [] \<and> saved (rq_hostUniq rq) = echo k env"
  by (simp add: padi_tags_def service_tag_def asked_def parsePADITags_def copy_service_def padi_globals_def
      hostUniq_def saved_def echo_def tag_consts)

lemma read_padr_request:
  "\<exists>rq. fold (\<lambda>t. parsePADRTags (tag_type t) (tag_data t)) (padi_tags env k @ [\<lparr>tag_type = TAG_AC_COOKIE, tag_data = ck\<rparr>])
      (padr_globals rq0) = rq \<and>
    svc_type rq = TAG_SERVICE_NAME \<and> svc_length rq = length (asked k) \<and> take (length (asked k)) (svc_payload rq) = asked k \<and>
    saved (rq_relayId rq) = [] \<and> saved (rq_hostUniq rq) = echo k env \<and> receivedCookie rq = \<lparr>tag_type = TAG_AC_COOKIE, tag_data = ck\<rparr>"
  by (simp add: padi_tags_def service_tag_def asked_def parsePADRTags_def copy_service_def padr_globals_def
      hostUniq_def saved_def echo_def tag_consts)

lemma find_service_some: "n \<in> set ns \<Longrightarrow> find_service n i ns \<noteq> None"
  by (induction ns arbitrary: i) auto

lemma asked_offered:
  assumes "serviceName k = None \<or> (\<exists>n \<in> set (offered st k). serviceName k = Some n)"
  shows "asked k = [] \<or> asked k \<in> set (offered st k)"
  using assms by (auto simp: asked_def service_tag_def)

text \<open>The tags of the server's offer to the client.\<close>

definition answer_tags :: "server_env \<Rightarrow> server \<Rightarrow> Interface \<Rightarrow> client_env \<Rightarrow> PPPoEConnection \<Rightarrow> PPPoETag list" where
  "answer_tags senv st e env k =
     [\<lparr>tag_type = TAG_AC_NAME, tag_data = ACName st\<rparr>] @ map servname (offered st k) @
     [\<lparr>tag_type = TAG_AC_COOKIE, tag_data = genCookie senv (myEth k) (if_mac e) (CookieSeed st)\<rparr>] @ echo k env"

lemma tags_fit_ok:
  "length (encs tag_bytes ts) \<le> MAX_PPPOE_PAYLOAD \<Longrightarrow> \<forall>t \<in> set ts. 0 < tag_type t \<and> tag_type t < 65536 \<Longrightarrow> \<forall>t \<in> set ts. tag_ok t"
  by (induction ts) (auto simp: tag_ok_def pppoe_consts)

lemma server_offers:
  assumes i: "interface st (Some i) = Some e"
    and p: "h_source p = myEth k" "\<not> NOT_UNICAST (myEth k)" "pkt_ok p" "tags_of p = Some (padi_tags env k)"
      "code p = CODE_PADI" "ver p = 1" "ptype p = 1"
    and sv: "serviceName k = None \<or> (\<exists>n \<in> set (offered st k). serviceName k = Some n)"
    and fits: "length (encs tag_bytes (answer_tags senv st e env k)) \<le> MAX_PPPOE_PAYLOAD"
  obtains f rq where "server_step senv (Interface_readable i (Recv p (bytes_read p)) now fork) st =
      Some (srv_send (if_sock e) f (st\<lparr>request := rq\<rparr>))"
    "h_dest f = myEth k" "h_source f = if_mac e" "code f = CODE_PADO" "pkt_ok f" "tags_of f = Some (answer_tags senv st e env k)"
proof -
  obtain rq where rq: "fold (\<lambda>t. parsePADITags (tag_type t) (tag_data t)) (padi_tags env k) (padi_globals (request st)) = rq"
    "svc_type rq = TAG_SERVICE_NAME" "svc_length rq = length (asked k)" "take (length (asked k)) (svc_payload rq) = asked k"
    "saved (rq_relayId rq) = []" "saved (rq_hostUniq rq) = echo k env"
    using read_padi_request by blast
  have req: "requested (st\<lparr>request := rq\<rparr>) = asked k" using rq by (simp add: requested_def)
  have parse: "parsePacket p parsePADITags (padi_globals (request st)) = Some (0, rq)"
    by (simp only: parsePacket_tags [OF p(3,4)] rq(1))
  have "offer senv e (h_source p) (st\<lparr>request := rq\<rparr>) = answer_tags senv st e env k"
    using req rq(5,6) p(1) by (simp add: offer_def pado_tags_def answer_tags_def offered_def)
  note o = this
  have svc: "service_ok (st\<lparr>request := rq\<rparr>)"
    using asked_offered [OF sv] find_service_some req rq(3) by (auto simp: service_ok_def offered_def split: if_splits)
  obtain b where b: "processPADI senv i p st = Some (srv_send (if_sock e)
      (discovery_frame (Discovery_type st) (if_mac e) (h_source p) CODE_PADO 0 b) (st\<lparr>request := rq\<rparr>))"
    "buf_holds b (answer_tags senv st e env k)"
    by (rule PADI_offer [where env = senv, OF i _ parse svc]) (use p(1,2) fits o in simp_all)
  have ok: "\<forall>t \<in> set (answer_tags senv st e env k). tag_ok t"
    by (rule tags_fit_ok [OF fits]) (auto simp: answer_tags_def servname_def echo_def hostUniq_def tag_consts)
  have "snd b \<le> MAX_PPPOE_PAYLOAD" using buf_holds_len [OF b(2)] fits by simp
  note F = frame_tags [OF b(2) ok this]
  show thesis
    by (rule that [OF _ _ _ _ F])
      (use b(1) p whole_frame in \<open>simp_all add: server_step_def serverProcessPacket_def CODE_PADI_def CODE_PADR_def\<close>)
qed

lemma service_fits: "n \<in> set ss \<Longrightarrow> length n + TAG_HDR_SIZE \<le> length (encs tag_bytes (map servname ss))"
  by (induction ss) (auto simp: servname_def)

lemma server_accepts:
  assumes reach: "server_reach senv st" and free: "FreeSessions st = Some s" and i: "interface st (Some i) = Some e"
    and p: "h_source p = myEth k" "h_dest p = if_mac e" "\<not> NOT_UNICAST (myEth k)" "pkt_ok p" "code p = CODE_PADR" "ver p = 1" "ptype p = 1"
      "tags_of p = Some (padi_tags env k @ [\<lparr>tag_type = TAG_AC_COOKIE, tag_data = genCookie senv (myEth k) (if_mac e) (CookieSeed st)\<rparr>])"
    and sv: "serviceName k = None \<or> (\<exists>n \<in> set (offered st k). serviceName k = Some n)" and fork: "0 < fork"
    and len: "length (myEth k) = 6" "length (if_mac e) = 6" "length (CookieSeed st) = SEED_LEN"
    and fits: "length (encs tag_bytes (answer_tags senv st e env k)) \<le> MAX_PPPOE_PAYLOAD"
  obtains st' f n where "server_step senv (Interface_readable i (Recv p (bytes_read p)) now fork) st = Some st'"
    "sent st' = sent st @ [(if_sock e, f, plen f + HDR_SIZE)]" "h_dest f = myEth k" "h_source f = if_mac e" "code f = CODE_PADS"
    "session f = ses_sess (Sessions st s)" "pkt_ok f" "tags_of f = Some (servname n # echo k env)"
    "BusySessions st' = Some s" "ses_eth (Sessions st' s) = myEth k" "same_setup st st'"
proof -
  obtain rq where rq: "fold (\<lambda>t. parsePADRTags (tag_type t) (tag_data t))
      (padi_tags env k @ [\<lparr>tag_type = TAG_AC_COOKIE, tag_data = genCookie senv (myEth k) (if_mac e) (CookieSeed st)\<rparr>])
      (padr_globals (request st)) = rq"
    "svc_type rq = TAG_SERVICE_NAME" "svc_length rq = length (asked k)" "take (length (asked k)) (svc_payload rq) = asked k"
    "saved (rq_relayId rq) = []" "saved (rq_hostUniq rq) = echo k env"
    "receivedCookie rq = \<lparr>tag_type = TAG_AC_COOKIE, tag_data = genCookie senv (myEth k) (if_mac e) (CookieSeed st)\<rparr>"
    using read_padr_request by blast
  have req: "requested (st\<lparr>request := rq\<rparr>) = asked k" using rq by (simp add: requested_def)
  define n where "n = (if asked k = [] \<and> ServiceNames st \<noteq> [] then hd (ServiceNames st) else asked k)"
  have tags: "pads_tags (st\<lparr>request := rq\<rparr>) = servname n # echo k env"
    using rq req by (simp add: pads_tags_def reply_tags_def n_def servname_def)
  have n: "n \<in> set (offered st k)"
    using asked_offered [OF sv] by (auto simp: n_def offered_def)
  have small: "length (encs tag_bytes (pads_tags (st\<lparr>request := rq\<rparr>))) \<le> MAX_PPPOE_PAYLOAD"
    using fits service_fits [OF n] by (simp add: tags answer_tags_def servname_def)
  have svc: "padr_service (st\<lparr>request := rq\<rparr>) \<noteq> None"
    using asked_offered [OF sv] find_service_some req rq(3) by (auto simp: padr_service_def offered_def split: if_splits)
  have ck: "cookie_ok senv e p (st\<lparr>request := rq\<rparr>)"
    using rq(7) p(1) len genCookie_md5 [of "myEth k" "if_mac e" "CookieSeed st" senv]
    by (simp add: cookie_ok_def TAG_AC_COOKIE_def COOKIE_LEN_def MD5_LEN_def SEED_LEN_def)
  obtain st' b where R: "processPADR senv i p now fork st = Some st'"
    "buf_holds b (pads_tags (st\<lparr>request := rq\<rparr>))" "\<forall>t \<in> set (pads_tags (st\<lparr>request := rq\<rparr>)). tag_ok t"
    "sent st' = sent st @ [(if_sock e, discovery_frame (Discovery_type st) (if_mac e) (h_source p) CODE_PADS
       (ses_sess (Sessions st s)) b, snd b + HDR_SIZE)]"
    "BusySessions st' = Some s" "ses_eth (Sessions st' s) = h_source p" "same_setup st st'"
    by (rule PADR_runs [OF reach free i p(2) _ p(4,8) rq(1) [symmetric] ck _ svc fork small])
      (use p(1,3) rq(2) in \<open>simp_all add: TAG_SERVICE_NAME_def\<close>)
  have "snd b \<le> MAX_PPPOE_PAYLOAD" using buf_holds_len [OF R(2)] small by simp
  note F = frame_tags [OF R(2,3) this, unfolded tags]
  have "server_step senv (Interface_readable i (Recv p (bytes_read p)) now fork) st = Some st'"
    using R(1) p whole_frame by (simp add: server_step_def serverProcessPacket_def CODE_PADI_def CODE_PADR_def)
  then show thesis by (rule that [OF _ _ _ _ _ _ F]) (use R p(1) in simp_all)
qed

section \<open>The client's requests\<close>

text \<open>
  What the offer leaves room for: the client's requests fit whenever the server's offer does.
\<close>

lemma requests_fit:
  assumes "serviceName k = None \<or> (\<exists>n \<in> set (offered st k). serviceName k = Some n)"
    and "length (encs tag_bytes (answer_tags senv st e env k)) \<le> MAX_PPPOE_PAYLOAD"
  shows "length (encs tag_bytes (padi_tags env k @
      [\<lparr>tag_type = TAG_AC_COOKIE, tag_data = genCookie senv (myEth k) (if_mac e) (CookieSeed st)\<rparr>])) \<le> MAX_PPPOE_PAYLOAD"
proof -
  have "length (asked k) + TAG_HDR_SIZE \<le> TAG_HDR_SIZE + length (encs tag_bytes (map servname (offered st k)))"
    using asked_offered [OF assms(1)] service_fits [of "asked k"] by fastforce
  then show ?thesis using assms(2) by (simp add: answer_tags_def padi_tags_def echo_def asked_def)
qed

text \<open>\<open>request env cd dst ts c p\<close>: the client sends \<open>p\<close>, a frame with these tags.\<close>

definition request_frame :: "PPPoEConnection \<Rightarrow> u8 \<Rightarrow> mac \<Rightarrow> PPPoETag list \<Rightarrow> PPPoEPacket \<Rightarrow> bool" where
  "request_frame k cd dst ts p \<longleftrightarrow> h_source p = myEth k \<and> h_dest p = dst \<and> code p = cd \<and> ver p = 1 \<and> ptype p = 1 \<and>
     session p = 0 \<and> pkt_ok p \<and> tags_of p = Some ts"

definition with_frame :: "PPPoEPacket \<Rightarrow> client \<Rightarrow> client" where
  "with_frame p c = c\<lparr>attempts := attempts c + 1, frames := frames c @ [(discoverySocket (conn c), p, plen p + HDR_SIZE)]\<rparr>"

lemma with_frame_simps [simp]:
  "conn (with_frame p c) = conn c" "waits (with_frame p c) = waits c"
  "frames (with_frame p c) = frames c @ [(discoverySocket (conn c), p, plen p + HDR_SIZE)]"
  by (simp_all add: with_frame_def)

lemma padi_sent:
  assumes env: "send_result env = (\<lambda>n. Sent)" "length (pid env) \<le> 16"
    and fits: "length (encs tag_bytes (padi_tags env (conn c))) \<le> MAX_PPPOE_PAYLOAD"
  obtains p where "sendPADI env c = Run (with_frame p c)"
    "request_frame (conn c) CODE_PADI (replicate 6 0xFF) (padi_tags env (conn c)) p"
proof -
  have n: "length (tag_data (service_tag (conn c))) < 65532" using fits by (simp add: padi_tags_def pppoe_consts)
  show thesis
  proof (cases rule: start_frame [OF n env(2)])
    case (2 b)
    have ok: "\<forall>t \<in> set (padi_tags env (conn c)). tag_ok t" by (rule padi_tags_ok) (use n env in simp_all)
    have "snd b \<le> MAX_PPPOE_PAYLOAD" using buf_holds_len [OF 2(2)] fits by simp
    note F = frame_tags [OF 2(2) ok this]
    show thesis
      by (rule that [of "discovery_frame (Eth_PPPOE_Discovery c) (myEth (conn c)) (replicate 6 0xFF) CODE_PADI 0 b"])
        (use 2(3) F send_ok [OF env(1)] in \<open>simp_all add: with_frame_def request_frame_def pkt_ok_def\<close>)
  qed (use fits in simp)
qed

lemma padr_sent:
  assumes env: "send_result env = (\<lambda>n. Sent)" "length (pid env) \<le> 16"
    and ck: "cookie (conn c) = \<lparr>tag_type = TAG_AC_COOKIE, tag_data = d\<rparr>" "saved (relayId (conn c)) = []"
    and fits: "length (encs tag_bytes (padi_tags env (conn c) @ [cookie (conn c)])) \<le> MAX_PPPOE_PAYLOAD"
  obtains p where "sendPADR env c = Run (with_frame p c)"
    "request_frame (conn c) CODE_PADR (peerEth (conn c)) (padi_tags env (conn c) @ [cookie (conn c)]) p"
proof -
  have n: "length (tag_data (service_tag (conn c))) < 65532" using fits by (simp add: padi_tags_def pppoe_consts)
  have sv: "saved (cookie (conn c)) = [cookie (conn c)]" using ck(1) by (simp add: saved_def TAG_AC_COOKIE_def)
  show thesis
  proof (cases rule: start_frame [OF n env(2)])
    case (2 b)
    obtain b3 where b3: "copy_saved (cookie (conn c)) b = Some (Some b3)" "buf_holds b3 (padi_tags env (conn c) @ [cookie (conn c)])"
      using fits by (cases rule: copy_saved_cases [OF 2(2), of "cookie (conn c)"]) (auto simp: sv)
    have b4: "copy_saved (relayId (conn c)) b3 = Some (Some b3)"
      using ck(2) by (simp add: copy_saved_def saved_def split: if_splits)
    have "length (tag_data (cookie (conn c))) < 65536" using fits by (simp add: pppoe_consts)
    then have ok: "\<forall>t \<in> set (padi_tags env (conn c) @ [cookie (conn c)]). tag_ok t"
      using padi_tags_ok [of "conn c" env] n env(2) ck(1) by (auto simp: tag_ok_def TAG_AC_COOKIE_def)
    have "snd b3 \<le> MAX_PPPOE_PAYLOAD" using buf_holds_len [OF b3(2)] fits by simp
    note F = frame_tags [OF b3(2) ok this]
    show thesis
      by (rule that [of "discovery_frame (Eth_PPPOE_Discovery c) (myEth (conn c)) (peerEth (conn c)) CODE_PADR 0 b3"])
        (use 2(4) b3(1) b4 F send_ok [OF env(1)] in
        \<open>simp_all add: with_frame_def request_frame_def pkt_ok_def or_fault_def\<close>)
  qed (use fits in simp)
qed

section \<open>Discovery between the two\<close>

lemma padi_found:
  assumes "sendPADI env c = Run c1" "waitForPADO env t inp (upd_conn (\<lambda>k. k\<lparr>discoveryState := STATE_SENT_PADI\<rparr>) c1) = (Run c2, inp')"
    and "discoveryState (conn c2) = STATE_RECEIVED_PADO" "\<not> printACNames (conn c2)"
  shows "padi_loop env 0 t inp c = (Run c2, inp')"
  using assms by (subst padi_loop.simps) (simp add: run_inputs_def MAX_PADI_ATTEMPTS_def Let_def)

lemma padr_found:
  assumes "sendPADR env c = Run c1" "waitForPADS env t inp (upd_conn (\<lambda>k. k\<lparr>discoveryState := STATE_SENT_PADR\<rparr>) c1) = (Run c2, inp')"
    and "discoveryState (conn c2) = STATE_SESSION"
  shows "padr_loop env 0 t inp c = (Run c2, inp')"
  using assms by (subst padr_loop.simps) (simp add: run_inputs_def MAX_PADI_ATTEMPTS_def Let_def)

lemma discovery_found:
  assumes "\<not> skipDiscovery (conn c)" "padi_loop env 0 PADI_TIMEOUT inp (open_discovery env c) = (Run c2, inp2)"
    "\<not> printACNames (conn c2)" "padr_loop env 0 PADI_TIMEOUT inp2 c2 = (Run c3, inp3)"
    "discoveryState (conn c3) = STATE_SESSION"
  shows "discovery env inp c = (Run (upd_conn (\<lambda>k. k\<lparr>discoveryState := STATE_SESSION\<rparr>) c3), inp3)"
proof -
  have "\<not> skipDiscovery (conn (open_discovery env c))" using assms(1) by (simp add: open_discovery_def upd_conn_def)
  then show ?thesis using assms by (simp add: discovery_def run_inputs_def Let_def)
qed

text \<open>The fields of the connection that discovery changes do not matter for what is asked.\<close>

definition same_request :: "PPPoEConnection \<Rightarrow> PPPoEConnection \<Rightarrow> bool" where
  "same_request k k' \<longleftrightarrow> serviceName k' = serviceName k \<and> acName k' = acName k \<and> useHostUniq k' = useHostUniq k \<and>
     myEth k' = myEth k \<and> printACNames k' = printACNames k \<and> relayId k' = relayId k \<and>
     discoverySocket k' = discoverySocket k"

lemma same_request_tags:
  assumes "same_request k k'"
  shows "padi_tags env k' = padi_tags env k" "echo k' env = echo k env" "offered st k' = offered st k"
    "answer_tags senv st e env k' = answer_tags senv st e env k"
  using assms by (simp_all add: same_request_def padi_tags_def service_tag_def echo_def offered_def asked_def answer_tags_def)

lemma PADO_step:
  assumes k: "same_request k (conn c)" and ac: "acName k = None \<or> acName k = Some (ACName st)"
    and sv: "serviceName k = None \<or> (\<exists>n \<in> set (offered st k). serviceName k = Some n)" "offered st k \<noteq> []" "\<not> printACNames k"
    and p: "h_dest p = myEth k" "h_source p = if_mac e" "\<not> NOT_UNICAST (if_mac e)" "code p = CODE_PADO" "pkt_ok p"
      "tags_of p = Some (answer_tags senv st e env k)"
  obtains c' where "\<And>inp. waitForPADO env t (Received p (bytes_read p) # inp) c = (Run c', inp)" "same_request k (conn c')"
    "cookie (conn c') = \<lparr>tag_type = TAG_AC_COOKIE, tag_data = genCookie senv (myEth k) (if_mac e) (CookieSeed st)\<rparr>"
    "peerEth (conn c') = if_mac e" "discoveryState (conn c') = STATE_RECEIVED_PADO" "frames c' = frames c"
proof -
  have k': "serviceName (conn c) = serviceName k" "acName (conn c) = acName k" "useHostUniq (conn c) = useHostUniq k"
    "myEth (conn c) = myEth k" "\<not> printACNames (conn c)" "h_dest p = myEth (conn c)" "\<not> NOT_UNICAST (h_source p)"
    using k sv(3) p by (simp_all add: same_request_def)
  have sv': "serviceName (conn c) = None \<or> (\<exists>n \<in> set (offered st k). serviceName (conn c) = Some n)"
    "acName (conn c) = None \<or> acName (conn c) = Some (ACName st)"
    using sv(1) ac k' by simp_all
  have "tags_of p = Some ([\<lparr>tag_type = TAG_AC_NAME, tag_data = ACName st\<rparr>] @ map servname (offered st k) @
       [\<lparr>tag_type = TAG_AC_COOKIE, tag_data = genCookie senv (myEth k) (if_mac e) (CookieSeed st)\<rparr>] @ echo (conn c) env)"
    using p(6) same_request_tags(2) [OF k] by (simp add: answer_tags_def)
  note A = PADO_accepted [OF whole_frame [OF p(5)] k'(6) p(4) k'(7) p(5) this sv'(2,1) sv(2) k'(5)]
  show thesis by (rule that [OF A]) (use k p(2) in \<open>simp_all add: same_request_def\<close>)
qed

text \<open>
  The client's side: it sends a PADI, and after an offer with these tags a PADR, both with the given
  tags; a PADS to it then ends discovery with the session number of the PADS.
\<close>

lemma client_offered:
  assumes k: "conn c = k" "\<not> printACNames k" "saved (relayId k) = []" "acName k = None \<or> acName k = Some (ACName st)"
      "serviceName k = None \<or> (\<exists>n \<in> set (offered st k). serviceName k = Some n)"
    and env: "send_result env = (\<lambda>n. Sent)" "length (pid env) \<le> 16" "sendPADI env c = Run (with_frame padi c)"
    and fits: "length (encs tag_bytes (answer_tags senv st e env k)) \<le> MAX_PPPOE_PAYLOAD"
    and pado: "h_dest pado = myEth k" "h_source pado = if_mac e" "\<not> NOT_UNICAST (if_mac e)" "code pado = CODE_PADO" "pkt_ok pado"
      "tags_of pado = Some (answer_tags senv st e env k)"
  obtains c2 padr where "\<And>inp. padi_loop env 0 PADI_TIMEOUT (Received pado (bytes_read pado) # inp) c = (Run c2, inp)"
    "same_request k (conn c2)" "peerEth (conn c2) = if_mac e" "sendPADR env c2 = Run (with_frame padr c2)"
    "request_frame k CODE_PADR (if_mac e) (padi_tags env k @
       [\<lparr>tag_type = TAG_AC_COOKIE, tag_data = genCookie senv (myEth k) (if_mac e) (CookieSeed st)\<rparr>]) padr"
    "frames c2 = frames c @ [(discoverySocket k, padi, plen padi + HDR_SIZE)]"
proof -
  define c1 where "c1 = upd_conn (\<lambda>k. k\<lparr>discoveryState := STATE_SENT_PADI\<rparr>) (with_frame padi c)"
  have "same_request k (conn c1)" by (simp add: c1_def upd_conn_def k(1) same_request_def)
  moreover have "offered st k \<noteq> []" by (simp add: offered_def)
  ultimately obtain c2 where c2: "\<And>inp. waitForPADO env PADI_TIMEOUT (Received pado (bytes_read pado) # inp) c1 = (Run c2, inp)"
    "same_request k (conn c2)" "cookie (conn c2) = \<lparr>tag_type = TAG_AC_COOKIE, tag_data = genCookie senv (myEth k) (if_mac e) (CookieSeed st)\<rparr>"
    "peerEth (conn c2) = if_mac e" "discoveryState (conn c2) = STATE_RECEIVED_PADO" "frames c2 = frames c1"
    using PADO_step [where t = PADI_TIMEOUT, OF _ k(4,5) _ k(2) pado] by blast
  have k2: "padi_tags env (conn c2) = padi_tags env k" "saved (relayId (conn c2)) = []" "\<not> printACNames (conn c2)" "myEth (conn c2) = myEth k"
    using same_request_tags [OF c2(2)] c2(2) k(2,3) by (simp_all add: same_request_def)
  obtain padr where padr: "sendPADR env c2 = Run (with_frame padr c2)"
    "request_frame (conn c2) CODE_PADR (if_mac e) (padi_tags env k @ [cookie (conn c2)]) padr"
    using padr_sent [OF env(1,2) c2(3) k2(2)] requests_fit [OF k(5) fits] unfolding k2(1) c2(3,4) by blast
  have "padi_loop env 0 PADI_TIMEOUT (Received pado (bytes_read pado) # inp) c = (Run c2, inp)" for inp
    by (rule padi_found [OF env(3) c2(1) [unfolded c1_def] c2(5) k2(3)])
  then show thesis
    by (rule that [OF _ c2(2,4) padr(1)])
      (use padr(2) c2(3,6) k2(4) k(1) in \<open>simp_all add: request_frame_def c1_def upd_conn_def\<close>)
qed

lemma client_connected:
  assumes k: "same_request k (conn c)" "sendPADR env c = Run (with_frame padr c)" "peerEth (conn c) = h_source pads"
    and pads: "h_dest pads = myEth k" "code pads = CODE_PADS" "pkt_ok pads" "tags_of pads = Some (servname n # echo k env)"
  obtains c' where "padr_loop env 0 PADI_TIMEOUT (Received pads (bytes_read pads) # inp) c = (Run c', inp)"
    "discoveryState (conn c') = STATE_SESSION" "conn_session (conn c') = session pads" "same_request k (conn c')"
    "peerEth (conn c') = h_source pads" "frames c' = frames c @ [(discoverySocket k, padr, plen padr + HDR_SIZE)]"
proof -
  define c3 where "c3 = upd_conn (\<lambda>k. k\<lparr>discoveryState := STATE_SENT_PADR\<rparr>) (with_frame padr c)"
  have c3: "peerEth (conn c3) = h_source pads" "myEth (conn c3) = myEth k" "echo (conn c3) env = echo k env"
    "frames c3 = frames c @ [(discoverySocket k, padr, plen padr + HDR_SIZE)]"
    using k same_request_tags(2) [OF k(1)] by (simp_all add: c3_def upd_conn_def echo_def same_request_def)
  define c' where "c' = c3\<lparr>waits := waits c3 @ [PADI_TIMEOUT], conn := (conn c3)\<lparr>discoveryState := STATE_SESSION, conn_session := session pads\<rparr>\<rparr>"
  have "waitForPADS env PADI_TIMEOUT (Received pads (bytes_read pads) # inp) c3 = (Run c', inp)"
    unfolding c'_def by (rule PADS_accepted [where n = n]) (use pads c3 whole_frame in simp_all)
  then have "padr_loop env 0 PADI_TIMEOUT (Received pads (bytes_read pads) # inp) c = (Run c', inp)"
    by (rule padr_found [OF k(2), folded c3_def]) (simp add: c'_def)
  then show thesis
    by (rule that) (use c3 k(1,3) in \<open>simp_all add: c'_def c3_def upd_conn_def same_request_def\<close>)
qed

lemma free_slot_number:
  assumes "server_reach env st" "FreeSessions st = Some s"
  shows "ses_sess (Sessions st s) \<noteq> 0"
proof -
  obtain fr bu where core: "server_core (srv_big env) st fr bu"
    using server_reach_inv [OF assms(1)] by (auto simp: server_inv_def server_wf_def)
  then have "s < NumSessionSlots st" using assms(2) by (cases fr) (auto simp: server_core_def server_lists_def)
  then show ?thesis by (rule session_number_nonzero [OF core])
qed

text \<open>
  C8: discovery connects the client with the server. When the client's frames reach the server and
  the server's answers reach the client, in any reachable state of the server with a free slot, the
  client sends one PADI and one PADR, the server answers with a PADO and a PADS, and both end with
  the same session: the client's session number is the number of the slot the server has made busy,
  it is not 0, and each end has the other's address.
\<close>

theorem discovery_connects:
  assumes srv: "server_reach senv st" "FreeSessions st = Some s" "interface st (Some i) = Some e" "0 < fork"
      "nat fork \<notin> fst ` set (children st)"
    and k: "k = conn (open_discovery env c)" "\<not> skipDiscovery (conn c)" "\<not> printACNames (conn c)" "tag_type (relayId (conn c)) = 0"
      "acName (conn c) = None \<or> acName (conn c) = Some (ACName st)"
      "serviceName (conn c) = None \<or> (\<exists>n \<in> set (offered st k). serviceName (conn c) = Some n)"
    and env: "send_result env = (\<lambda>n. Sent)" "length (pid env) \<le> 16"
    and addr: "length (myEth k) = 6" "length (if_mac e) = 6" "length (CookieSeed st) = SEED_LEN"
      "\<not> NOT_UNICAST (myEth k)" "\<not> NOT_UNICAST (if_mac e)"
    and fits: "length (encs tag_bytes (answer_tags senv st e env k)) \<le> MAX_PPPOE_PAYLOAD"
  shows "\<exists>padi pado padr pads st1 st2 c'.
    discovery env [Received pado (bytes_read pado), Received pads (bytes_read pads)] c = (Run c', []) \<and>
    frames c' = frames c @ [(discoverySocket k, padi, plen padi + HDR_SIZE), (discoverySocket k, padr, plen padr + HDR_SIZE)] \<and>
    server_step senv (Interface_readable i (Recv padi (bytes_read padi)) now fork) st = Some st1 \<and>
    server_step senv (Interface_readable i (Recv padr (bytes_read padr)) now fork) st1 = Some st2 \<and>
    sent st2 = sent st @ [(if_sock e, pado, plen pado + HDR_SIZE), (if_sock e, pads, plen pads + HDR_SIZE)] \<and>
    discoveryState (conn c') = STATE_SESSION \<and> BusySessions st2 = Some s \<and>
    conn_session (conn c') = ses_sess (Sessions st2 s) \<and> conn_session (conn c') \<noteq> 0 \<and>
    peerEth (conn c') = if_mac e \<and> ses_eth (Sessions st2 s) = myEth (conn c')"
proof -
  let ?c0 = "open_discovery env c"
  have c0: "frames ?c0 = frames c" by (simp add: open_discovery_def upd_conn_def)
  have kf: "\<not> printACNames k" "saved (relayId k) = []" "acName k = None \<or> acName k = Some (ACName st)"
    "serviceName k = None \<or> (\<exists>n \<in> set (offered st k). serviceName k = Some n)"
    using k by (simp_all add: open_discovery_def upd_conn_def saved_def)
  obtain padi where padi: "sendPADI env ?c0 = Run (with_frame padi ?c0)" "request_frame k CODE_PADI (replicate 6 0xFF) (padi_tags env k) padi"
    using padi_sent [OF env, of ?c0] requests_fit [OF kf(4) fits] k(1) by auto
  obtain pado rq where pado: "server_step senv (Interface_readable i (Recv padi (bytes_read padi)) now fork) st =
      Some (srv_send (if_sock e) pado (st\<lparr>request := rq\<rparr>))"
    "h_dest pado = myEth k" "h_source pado = if_mac e" "code pado = CODE_PADO" "pkt_ok pado"
    "tags_of pado = Some (answer_tags senv st e env k)"
    by (rule server_offers [OF srv(3) _ addr(4) _ _ _ _ _ kf(4) fits, of padi])
      (use padi(2) in \<open>simp_all add: request_frame_def\<close>)
  define st1 where "st1 = srv_send (if_sock e) pado (st\<lparr>request := rq\<rparr>)"
  have st1: "FreeSessions st1 = Some s" "interface st1 (Some i) = Some e" "sent st1 = sent st @ [(if_sock e, pado, plen pado + HDR_SIZE)]"
    "CookieSeed st1 = CookieSeed st" "offered st1 k = offered st k" "answer_tags senv st1 e env k = answer_tags senv st e env k"
    "ses_sess (Sessions st1 s) = ses_sess (Sessions st s)"
    using srv(2,3) interface_cong [of st1 st] by (simp_all add: st1_def srv_send_def offered_def answer_tags_def)
  have reach1: "server_reach senv st1"
    by (rule server_reach.event [OF srv(1) _ pado(1) [folded st1_def]]) (use srv(4,5) in \<open>simp add: event_ok_def fork_ok_def\<close>)
  obtain c2 padr where c2: "\<And>inp. padi_loop env 0 PADI_TIMEOUT (Received pado (bytes_read pado) # inp) ?c0 = (Run c2, inp)"
    "same_request k (conn c2)" "peerEth (conn c2) = if_mac e" "sendPADR env c2 = Run (with_frame padr c2)"
    "request_frame k CODE_PADR (if_mac e) (padi_tags env k @
       [\<lparr>tag_type = TAG_AC_COOKIE, tag_data = genCookie senv (myEth k) (if_mac e) (CookieSeed st)\<rparr>]) padr"
    "frames c2 = frames ?c0 @ [(discoverySocket k, padi, plen padi + HDR_SIZE)]"
    using client_offered [OF k(1) [symmetric] kf env padi(1) fits pado(2,3) addr(5) pado(4-6)] by blast
  obtain st2 pads n where pads: "server_step senv (Interface_readable i (Recv padr (bytes_read padr)) now fork) st1 = Some st2"
    "sent st2 = sent st1 @ [(if_sock e, pads, plen pads + HDR_SIZE)]" "h_dest pads = myEth k" "h_source pads = if_mac e" "code pads = CODE_PADS"
    "session pads = ses_sess (Sessions st1 s)" "pkt_ok pads" "tags_of pads = Some (servname n # echo k env)"
    "BusySessions st2 = Some s" "ses_eth (Sessions st2 s) = myEth k" "same_setup st1 st2"
    by (rule server_accepts [OF reach1 st1(1,2) _ _ addr(4) _ _ _ _ _ _ srv(4) addr(1,2), of padr env])
      (use c2(5) st1 addr(3) kf(4) fits in \<open>simp_all add: request_frame_def\<close>)
  have "peerEth (conn c2) = h_source pads" using c2(3) pads(4) by simp
  then obtain c4 where c4: "padr_loop env 0 PADI_TIMEOUT [Received pads (bytes_read pads)] c2 = (Run c4, [])"
    "discoveryState (conn c4) = STATE_SESSION" "conn_session (conn c4) = session pads" "same_request k (conn c4)"
    "peerEth (conn c4) = h_source pads" "frames c4 = frames c2 @ [(discoverySocket k, padr, plen padr + HDR_SIZE)]"
    by (rule client_connected [OF c2(2,4) _ pads(3,5,7,8)])
  have "\<not> printACNames (conn c2)" using c2(2) kf(1) by (simp add: same_request_def)
  note run = discovery_found [OF k(2) c2(1) this c4(1,2)]
  have "ses_sess (Sessions st2 s) = session pads" "session pads \<noteq> 0" "myEth (conn c4) = myEth k"
    using pads(6,11) st1(7) free_slot_number [OF srv(1,2)] c4(4) by (simp_all add: same_setup_def same_request_def)
  then show ?thesis
    by (intro exI [of _ padi] exI [of _ pado] exI [of _ padr] exI [of _ pads] exI [of _ st1] exI [of _ st2]
        exI [of _ "upd_conn (\<lambda>k. k\<lparr>discoveryState := STATE_SESSION\<rparr>) c4"])
      (use run c4 c2(6) c0 pado(1) [folded st1_def] pads st1(3) in \<open>simp add: upd_conn_def\<close>)
qed

definition demo_peer_env :: client_env where
  "demo_peer_env = demo_client_env\<lparr>open_if := (\<lambda>_. (5, demo_peer))\<rparr>"

definition demo_peer_client :: client where
  "demo_peer_client = demo_client\<lparr>conn := demo_conn\<lparr>useHostUniq := True\<rparr>\<rparr>"

theorem discovery_connects_witness:
  "\<exists>pado pads c'. discovery demo_peer_env [Received pado (bytes_read pado), Received pads (bytes_read pads)] demo_peer_client =
      (Run c', []) \<and> discoveryState (conn c') = STATE_SESSION \<and> conn_session (conn c') \<noteq> 0 \<and> peerEth (conn c') = if_mac demo_srv_if"
proof -
  let ?k = "conn (open_discovery demo_peer_env demo_peer_client)"
  have k: "myEth ?k = demo_peer" "serviceName ?k = None" "useHostUniq ?k" "pid demo_peer_env = [1, 2, 3, 4]"
    by (simp_all add: open_discovery_def upd_conn_def demo_peer_env_def demo_peer_client_def demo_client_env_def demo_client_def demo_conn_def)
  have srv: "length (ACName demo_srv) = 2" "children demo_srv = []"
    by (simp_all add: demo_srv_def init_server_def)
  have "length (genCookie demo_srv_env demo_peer (if_mac demo_srv_if) (CookieSeed demo_srv)) = 20"
    using demo_cookie_len by (simp add: demo_cookie_def)
  then have fits: "length (encs tag_bytes (answer_tags demo_srv_env demo_srv demo_srv_if demo_peer_env ?k)) \<le> MAX_PPPOE_PAYLOAD"
    using k srv by (simp add: answer_tags_def offered_def demo_srv_simps asked_def service_tag_def echo_def hostUniq_def servname_def pppoe_consts)
  note addr = demo_peer_def demo_srv_if_def NOT_UNICAST_def
  have "length (CookieSeed demo_srv) = SEED_LEN" by (simp add: demo_srv_simps SEED_LEN_def)
  note run = discovery_connects [where fork = 1234 and now = 99, OF demo_srv_reach demo_srv_simps(1,2) _ _ refl _ _ _ _ _ _ _ _ _ this _ _ fits]
  show ?thesis
    using run k(1) srv(2)
    by (auto simp: demo_peer_client_def demo_client_def demo_conn_def demo_peer_env_def demo_client_env_def addr)
qed

end
