(* ===== verification/Radius_Msg.thy ===== *)
theory Radius_Msg
  imports Tlv Md5
begin

text \<open>
  The RADIUS messages of the 802.1X authenticator (radius.c, radius.h): building a message with its
  growing buffer, parsing one, the EAP fragments, the authenticators and the encrypted keys.
\<close>

section \<open>Messages\<close>

text \<open>
  \<open>buf\<close> are the \<open>buf_size\<close> bytes of the message buffer, which starts with the header. The pointers
  \<open>attrs[i]\<close> into it are offsets, so that the adjustment after a \<open>realloc\<close> leaves them as they are;
  \<open>attr_used\<close> is the length of \<open>attrs\<close>, \<open>attr_size\<close> the room of the array. \<open>None\<close> as the result of
  an operation is an access outside an object or a loop without end; the allocations of small
  blocks succeed.
\<close>

record radius_msg =
  buf :: "u8 list"
  buf_used :: nat
  attrs :: "nat list"
  attr_size :: nat

definition RADIUS_CODE_ACCESS_REQUEST :: u8 where "RADIUS_CODE_ACCESS_REQUEST = 1"
definition RADIUS_CODE_ACCESS_ACCEPT :: u8 where "RADIUS_CODE_ACCESS_ACCEPT = 2"
definition RADIUS_CODE_ACCESS_REJECT :: u8 where "RADIUS_CODE_ACCESS_REJECT = 3"
definition RADIUS_CODE_ACCESS_CHALLENGE :: u8 where "RADIUS_CODE_ACCESS_CHALLENGE = 11"

definition RADIUS_ATTR_USER_PASSWORD :: u8 where "RADIUS_ATTR_USER_PASSWORD = 2"
definition RADIUS_ATTR_VENDOR_SPECIFIC :: u8 where "RADIUS_ATTR_VENDOR_SPECIFIC = 26"
definition RADIUS_ATTR_EAP_MESSAGE :: u8 where "RADIUS_ATTR_EAP_MESSAGE = 79"
definition RADIUS_ATTR_MESSAGE_AUTHENTICATOR :: u8 where "RADIUS_ATTR_MESSAGE_AUTHENTICATOR = 80"
definition RADIUS_VENDOR_ATTR_MS_MPPE_SEND_KEY :: u8 where "RADIUS_VENDOR_ATTR_MS_MPPE_SEND_KEY = 16"
definition RADIUS_VENDOR_ATTR_MS_MPPE_RECV_KEY :: u8 where "RADIUS_VENDOR_ATTR_MS_MPPE_RECV_KEY = 17"

definition RADIUS_HDR :: nat where "RADIUS_HDR = 20"
definition RADIUS_MAX_ATTR_LEN :: nat where "RADIUS_MAX_ATTR_LEN = 253"
definition RADIUS_DEFAULT_MSG_SIZE :: nat where "RADIUS_DEFAULT_MSG_SIZE = 1024"
definition RADIUS_DEFAULT_ATTR_COUNT :: nat where "RADIUS_DEFAULT_ATTR_COUNT = 16"
definition MD5_MAC_LEN :: nat where "MD5_MAC_LEN = 16"

lemmas radius_consts = RADIUS_HDR_def RADIUS_MAX_ATTR_LEN_def RADIUS_DEFAULT_MSG_SIZE_def RADIUS_DEFAULT_ATTR_COUNT_def
  MD5_MAC_LEN_def

definition Radius_msg_initialize :: "nat \<Rightarrow> radius_msg option" where
  "Radius_msg_initialize init_len =
     (if init_len < RADIUS_HDR then None
      else Some \<lparr>buf = replicate init_len 0, buf_used = RADIUS_HDR, attrs = [], attr_size = RADIUS_DEFAULT_ATTR_COUNT\<rparr>)"

definition Radius_msg_set_hdr :: "u8 \<Rightarrow> u8 \<Rightarrow> radius_msg \<Rightarrow> radius_msg option" where
  "Radius_msg_set_hdr code identifier msg = map_option (\<lambda>b. msg\<lparr>buf := b\<rparr>) (wr_bytes (buf msg) 0 [code, identifier])"

definition Radius_msg_new :: "u8 \<Rightarrow> u8 \<Rightarrow> radius_msg option" where
  "Radius_msg_new code identifier =
     Option.bind (Radius_msg_initialize RADIUS_DEFAULT_MSG_SIZE) (Radius_msg_set_hdr code identifier)"

text \<open>The array of pointers doubles when it is full.\<close>

definition Radius_msg_add_attr_to_array :: "nat \<Rightarrow> radius_msg \<Rightarrow> radius_msg option" where
  "Radius_msg_add_attr_to_array attr msg =
     (let n = (if length (attrs msg) \<ge> attr_size msg then attr_size msg * 2 else attr_size msg) in
      if length (attrs msg) < n then Some (msg\<lparr>attr_size := n, attrs := attrs msg @ [attr]\<rparr>) else None)"

partial_function (option) grow :: "nat \<Rightarrow> nat \<Rightarrow> nat option" where
  [code]: "grow nlen needed = (if nlen < needed then grow (nlen * 2) needed else Some nlen)"

definition make_room :: "nat \<Rightarrow> radius_msg \<Rightarrow> radius_msg option" where
  "make_room needed msg =
     (if length (buf msg) < needed
      then map_option (\<lambda>n. msg\<lparr>buf := buf msg @ replicate (n - length (buf msg)) 0\<rparr>) (grow (length (buf msg)) needed)
      else Some msg)"

text \<open>The inner \<open>None\<close> is the NULL that is returned.\<close>

definition Radius_msg_add_attr :: "u8 \<Rightarrow> u8 list \<Rightarrow> radius_msg \<Rightarrow> (nat option \<times> radius_msg) option" where
  "Radius_msg_add_attr type data msg =
     (if length data > RADIUS_MAX_ATTR_LEN then Some (None, msg)
      else
        let attr = buf_used msg; needed = attr + 2 + length data in
        Option.bind (make_room needed msg) (\<lambda>msg.
        Option.bind (wr_bytes (buf msg) attr ([type, word_of_nat (2 + length data)] @ data)) (\<lambda>b.
        Option.bind (Radius_msg_add_attr_to_array attr (msg\<lparr>buf := b, buf_used := needed\<rparr>)) (\<lambda>msg.
          Some (Some attr, msg)))))"

definition set_length :: "radius_msg \<Rightarrow> radius_msg option" where
  "set_length msg = map_option (\<lambda>b. msg\<lparr>buf := b\<rparr>)
     (wr_bytes (buf msg) 2 [hi8 (buf_used msg mod 65536), lo8 (buf_used msg mod 65536)])"

definition Radius_msg_finish :: "u8 list option \<Rightarrow> radius_msg \<Rightarrow> radius_msg option" where
  "Radius_msg_finish secret msg =
     (case secret of
        None \<Rightarrow> set_length msg
      | Some s \<Rightarrow>
          Option.bind (Radius_msg_add_attr RADIUS_ATTR_MESSAGE_AUTHENTICATOR (replicate MD5_MAC_LEN 0) msg) (\<lambda>(attr, msg).
          Option.bind (set_length msg) (\<lambda>msg.
          Option.bind attr (\<lambda>a.
            map_option (\<lambda>b. msg\<lparr>buf := b\<rparr>)
              (wr_bytes (buf msg) (a + 2) (hmac_md5 s (take (buf_used msg) (buf msg))))))))"

section \<open>Parsing\<close>

lemma add_attr_to_array_used: "Radius_msg_add_attr_to_array a msg = Some m \<Longrightarrow> buf_used m = buf_used msg"
  by (auto simp: Radius_msg_add_attr_to_array_def Let_def split: if_splits)

text \<open>The outer \<open>None\<close> is a bad access, the inner one the NULL of the label \<open>fail\<close>.\<close>

function parse_attrs :: "nat \<Rightarrow> radius_msg \<Rightarrow> radius_msg option option" where
  "parse_attrs pos msg =
     (if pos < buf_used msg then
        if buf_used msg - pos < 2 then Some None
        else Option.bind (rd (buf msg) (pos + 1)) (\<lambda>len.
          if pos + unat len > buf_used msg \<or> unat len < 2 then Some None
          else Option.bind (Radius_msg_add_attr_to_array pos msg) (parse_attrs (pos + unat len)))
      else Some (Some msg))"
  by pat_completeness auto

termination
  by (relation "measure (\<lambda>(pos, msg). buf_used msg - pos)") (auto dest: add_attr_to_array_used)

declare parse_attrs.simps [simp del]

definition Radius_msg_parse :: "u8 list \<Rightarrow> radius_msg option option" where
  "Radius_msg_parse data =
     (if length data < RADIUS_HDR then Some None
      else
        let msg_len = be16 (data ! 2) (data ! 3) in
        if msg_len < RADIUS_HDR \<or> msg_len > length data then Some None
        else case Radius_msg_initialize msg_len of
               None \<Rightarrow> Some None
             | Some msg \<Rightarrow> parse_attrs RADIUS_HDR (msg\<lparr>buf := take msg_len data, buf_used := msg_len\<rparr>))"

section \<open>Reading attributes\<close>

text \<open>The first attribute of a type, as the loops with \<open>break\<close> find it.\<close>

fun find_attr :: "u8 list \<Rightarrow> u8 \<Rightarrow> nat list \<Rightarrow> nat option option" where
  "find_attr b type [] = Some None"
| "find_attr b type (a # as) =
     Option.bind (rd b a) (\<lambda>t. if t = type then Some (Some a) else find_attr b type as)"

text \<open>The value of an attribute; a length below 2 is a copy of almost the whole address space.\<close>

definition attr_value :: "u8 list \<Rightarrow> nat \<Rightarrow> u8 list option" where
  "attr_value b a = Option.bind (rd b (a + 1)) (\<lambda>l. if unat l < 2 then None else rd_bytes b (a + 2) (unat l - 2))"

text \<open>\<open>Radius_msg_get_attr\<close> with the \<open>len\<close> bytes of \<open>dst\<close>: the result and the bytes afterwards.\<close>

definition Radius_msg_get_attr :: "radius_msg \<Rightarrow> u8 \<Rightarrow> u8 list \<Rightarrow> (int \<times> u8 list) option" where
  "Radius_msg_get_attr msg type dst =
     Option.bind (find_attr (buf msg) type (attrs msg)) (\<lambda>r. case r of
       None \<Rightarrow> Some (- 1, dst)
     | Some a \<Rightarrow> map_option (\<lambda>v. (int (length v), take (length dst) v @ drop (length v) dst)) (attr_value (buf msg) a))"

definition be32 :: "u8 list \<Rightarrow> u32" where
  "be32 bs = word_of_nat (((unat (bs ! 0) * 256 + unat (bs ! 1)) * 256 + unat (bs ! 2)) * 256 + unat (bs ! 3))"

definition be32_bytes :: "u32 \<Rightarrow> u8 list" where
  "be32_bytes w = [word_of_nat (unat w div 2 ^ 24), word_of_nat (unat w div 2 ^ 16), word_of_nat (unat w div 2 ^ 8), word_of_nat (unat w)]"

definition Radius_msg_get_attr_int32 :: "radius_msg \<Rightarrow> u8 \<Rightarrow> u32 option option" where
  "Radius_msg_get_attr_int32 msg type =
     map_option (\<lambda>(res, val). if res \<noteq> 4 then None else Some (be32 val)) (Radius_msg_get_attr msg type (replicate 4 0))"

definition Radius_msg_add_attr_int32 :: "u8 \<Rightarrow> u32 \<Rightarrow> radius_msg \<Rightarrow> (bool \<times> radius_msg) option" where
  "Radius_msg_add_attr_int32 type value msg =
     map_option (\<lambda>(a, msg). (a \<noteq> None, msg)) (Radius_msg_add_attr type (be32_bytes value) msg)"

definition Radius_msg_copy_attr :: "radius_msg \<Rightarrow> u8 \<Rightarrow> radius_msg \<Rightarrow> (int \<times> radius_msg) option" where
  "Radius_msg_copy_attr src type dst =
     Option.bind (find_attr (buf src) type (attrs src)) (\<lambda>r. case r of
       None \<Rightarrow> Some (0, dst)
     | Some a \<Rightarrow> Option.bind (attr_value (buf src) a) (\<lambda>v.
         map_option (\<lambda>(a, dst). (if a = None then - 1 else 1, dst)) (Radius_msg_add_attr type v dst)))"

section \<open>EAP messages\<close>

function Radius_msg_add_eap :: "u8 list \<Rightarrow> radius_msg \<Rightarrow> (bool \<times> radius_msg) option" where
  "Radius_msg_add_eap data msg =
     (if data = [] then Some (True, msg)
      else Option.bind (Radius_msg_add_attr RADIUS_ATTR_EAP_MESSAGE (take RADIUS_MAX_ATTR_LEN data) msg) (\<lambda>(a, msg).
        if a = None then Some (False, msg) else Radius_msg_add_eap (drop RADIUS_MAX_ATTR_LEN data) msg))"
  by pat_completeness auto

termination
  by (relation "measure (length \<circ> fst)") (auto simp: RADIUS_MAX_ATTR_LEN_def)

declare Radius_msg_add_eap.simps [simp del]

text \<open>The fragments in order; the first of the two loops only adds up their lengths.\<close>

fun eap_fragments :: "u8 list \<Rightarrow> nat list \<Rightarrow> u8 list option" where
  "eap_fragments b [] = Some []"
| "eap_fragments b (a # as) =
     Option.bind (rd b a) (\<lambda>t.
       if t = RADIUS_ATTR_EAP_MESSAGE
       then Option.bind (attr_value b a) (\<lambda>v. map_option (append v) (eap_fragments b as))
       else eap_fragments b as)"

definition Radius_msg_get_eap :: "radius_msg \<Rightarrow> u8 list option option" where
  "Radius_msg_get_eap msg = map_option (\<lambda>eap. if eap = [] then None else Some eap) (eap_fragments (buf msg) (attrs msg))"

section \<open>Authenticators\<close>

text \<open>The Message-Authenticator: the middle \<open>None\<close> is that there are several, the inner one that there is none.\<close>

fun find_authenticator :: "u8 list \<Rightarrow> nat list \<Rightarrow> nat option \<Rightarrow> nat option option option" where
  "find_authenticator b [] attr = Some (Some attr)"
| "find_authenticator b (a # as) attr =
     Option.bind (rd b a) (\<lambda>t.
       if t = RADIUS_ATTR_MESSAGE_AUTHENTICATOR
       then if attr \<noteq> None then Some None else find_authenticator b as (Some a)
       else find_authenticator b as attr)"

definition response_auth :: "u8 list \<Rightarrow> u8 list \<Rightarrow> u8 list \<Rightarrow> u8 list" where
  "response_auth b req_auth secret =
     MD5Final (MD5Update (MD5Update (MD5Update (MD5Update MD5Init (take 4 b)) req_auth) (drop RADIUS_HDR b)) secret)"

text \<open>The message is the same afterwards, both fields are put back.\<close>

definition Radius_msg_verify :: "u8 list \<Rightarrow> radius_msg option \<Rightarrow> radius_msg \<Rightarrow> int option" where
  "Radius_msg_verify secret sent_msg msg =
     (case sent_msg of
        None \<Rightarrow> Some 1
      | Some sent \<Rightarrow>
          Option.bind (find_authenticator (buf msg) (attrs msg) None) (\<lambda>r. case r of
            None \<Rightarrow> Some 1
          | Some None \<Rightarrow> Some 1
          | Some (Some attr) \<Rightarrow>
              Option.bind (rd_bytes (buf msg) (attr + 2) MD5_MAC_LEN) (\<lambda>orig.
              Option.bind (wr_bytes (buf msg) (attr + 2) (replicate MD5_MAC_LEN 0)) (\<lambda>b.
              Option.bind (rd_bytes (buf sent) 4 16) (\<lambda>req_auth.
              Option.bind (wr_bytes b 4 req_auth) (\<lambda>b.
                if orig \<noteq> hmac_md5 secret (take (buf_used msg) b) then Some 1
                else if response_auth (take (buf_used msg) (buf msg)) req_auth secret \<noteq> take 16 (drop 4 (buf msg)) then Some 1
                else Some 0))))))"

definition Radius_msg_verify_acct :: "u8 list \<Rightarrow> radius_msg \<Rightarrow> radius_msg \<Rightarrow> int option" where
  "Radius_msg_verify_acct secret sent_msg msg =
     Option.bind (rd_bytes (buf sent_msg) 4 16) (\<lambda>req_auth.
       Some (if response_auth (take (buf_used msg) (buf msg)) req_auth secret \<noteq> take 16 (drop 4 (buf msg)) then 1 else 0))"

text \<open>\<open>tv\<close> and \<open>l\<close> are the bytes of the time and of \<open>random()\<close>.\<close>

definition Radius_msg_make_authenticator :: "u8 list \<Rightarrow> u8 list \<Rightarrow> u8 list \<Rightarrow> radius_msg \<Rightarrow> radius_msg option" where
  "Radius_msg_make_authenticator tv l data msg =
     map_option (\<lambda>b. msg\<lparr>buf := b\<rparr>)
       (wr_bytes (buf msg) 4 (MD5Final (MD5Update (MD5Update (MD5Update MD5Init tv) data) l)))"

section \<open>Encrypted attributes\<close>

text \<open>
  The walk over the vendor attributes of one attribute: none of the type here, the NULL that is
  returned when \<open>malloc\<close> fails, or the value. \<open>mem\<close> tells which sizes \<open>malloc\<close> can give: the size
  comes from the message and wraps around below 2.
\<close>

datatype ms_result = Ms_next | Ms_null | Ms_found "u8 list"

partial_function (option) ms_walk :: "(nat \<Rightarrow> bool) \<Rightarrow> u8 \<Rightarrow> u8 list \<Rightarrow> nat \<Rightarrow> nat \<Rightarrow> ms_result option" where
  [code]: "ms_walk mem ms_type b pos left =
     (if left < 2 then Some Ms_next
      else Option.bind (rd b pos) (\<lambda>vendor_type.
        Option.bind (rd b (pos + 1)) (\<lambda>vendor_length.
          if unat vendor_length > left then Some Ms_next
          else if vendor_type \<noteq> ms_type then ms_walk mem ms_type b (pos + unat vendor_length) (left - unat vendor_length)
          else
            let len = (unat vendor_length + 2 ^ 32 - 2) mod 2 ^ 32 in
            if \<not> mem len then Some Ms_null else map_option Ms_found (rd_bytes b (pos + 2) len))))"

definition RADIUS_VENDOR_ID_MICROSOFT :: u32 where "RADIUS_VENDOR_ID_MICROSOFT = 311"

fun Radius_msg_get_ms_attr :: "(nat \<Rightarrow> bool) \<Rightarrow> u8 \<Rightarrow> u8 list \<Rightarrow> nat list \<Rightarrow> u8 list option option" where
  "Radius_msg_get_ms_attr mem ms_type b [] = Some None"
| "Radius_msg_get_ms_attr mem ms_type b (a # as) =
     Option.bind (rd b a) (\<lambda>t.
     Option.bind (rd b (a + 1)) (\<lambda>l.
       if t \<noteq> RADIUS_ATTR_VENDOR_SPECIFIC then Radius_msg_get_ms_attr mem ms_type b as
       else if int (unat l) - 2 < 4 then Radius_msg_get_ms_attr mem ms_type b as
       else Option.bind (rd_bytes b (a + 2) 4) (\<lambda>vendor_id.
         if be32 vendor_id \<noteq> RADIUS_VENDOR_ID_MICROSOFT then Radius_msg_get_ms_attr mem ms_type b as
         else Option.bind (ms_walk mem ms_type b (a + 6) (unat l - 6)) (\<lambda>r. case r of
           Ms_next \<Rightarrow> Radius_msg_get_ms_attr mem ms_type b as
         | Ms_null \<Rightarrow> Some None
         | Ms_found d \<Rightarrow> Some (Some d)))))"

text \<open>
  The chain of 16-byte blocks: the key stream of a block is the digest of the secret and the
  cipher text before it.
\<close>

definition xor_bytes :: "u8 list \<Rightarrow> u8 list \<Rightarrow> u8 list" where
  "xor_bytes = map2 (XOR)"

definition stream16 :: "u8 list \<Rightarrow> u8 list \<Rightarrow> u8 list" where
  "stream16 secret prev = MD5Final (MD5Update (MD5Update MD5Init secret) prev)"

function decrypt_blocks :: "u8 list \<Rightarrow> u8 list \<Rightarrow> u8 list \<Rightarrow> u8 list" where
  "decrypt_blocks secret hash c =
     (if c = [] then []
      else xor_bytes (take 16 c) hash @ decrypt_blocks secret (stream16 secret (take 16 c)) (drop 16 c))"
  by pat_completeness auto

termination
  by (relation "measure (\<lambda>(s, h, c). length c)") auto

declare decrypt_blocks.simps [simp del]

definition decrypt_ms_key :: "(nat \<Rightarrow> bool) \<Rightarrow> u8 list \<Rightarrow> radius_msg \<Rightarrow> u8 list \<Rightarrow> u8 list option option" where
  "decrypt_ms_key mem key sent_msg secret =
     (if length key < 2 + 16 then Some None
      else if (length key - 2) mod 16 \<noteq> 0 then Some None
      else Option.bind (rd_bytes (buf sent_msg) 4 16) (\<lambda>auth.
        let plain = decrypt_blocks secret
              (MD5Final (MD5Update (MD5Update (MD5Update MD5Init secret) auth) (take 2 key))) (drop 2 key) in
        if unat (plain ! 0) > length plain - 1 then Some None
        else if \<not> mem (unat (plain ! 0)) then Some None
        else Some (Some (take (unat (plain ! 0)) (drop 1 plain)))))"

record radius_ms_mppe_keys =
  send_key :: "u8 list option"
  recv_key :: "u8 list option"

definition ms_key :: "(nat \<Rightarrow> bool) \<Rightarrow> u8 \<Rightarrow> radius_msg \<Rightarrow> radius_msg \<Rightarrow> u8 list \<Rightarrow> u8 list option option" where
  "ms_key mem type msg sent_msg secret =
     Option.bind (Radius_msg_get_ms_attr mem type (buf msg) (attrs msg)) (\<lambda>key. case key of
       None \<Rightarrow> Some None
     | Some key \<Rightarrow> decrypt_ms_key mem key sent_msg secret)"

definition Radius_msg_get_ms_keys :: "(nat \<Rightarrow> bool) \<Rightarrow> radius_msg \<Rightarrow> radius_msg option \<Rightarrow> u8 list \<Rightarrow> radius_ms_mppe_keys option option" where
  "Radius_msg_get_ms_keys mem msg sent_msg secret =
     (case sent_msg of
        None \<Rightarrow> Some None
      | Some sent \<Rightarrow>
          Option.bind (ms_key mem RADIUS_VENDOR_ATTR_MS_MPPE_SEND_KEY msg sent secret) (\<lambda>s.
          Option.bind (ms_key mem RADIUS_VENDOR_ATTR_MS_MPPE_RECV_KEY msg sent secret) (\<lambda>r.
            Some (Some \<lparr>send_key = s, recv_key = r\<rparr>))))"

text \<open>
  The user password in the 128-byte buffer, padded to blocks. The code encrypts the first block of
  the buffer even when the password is empty, but then adds an attribute without value.
\<close>

function encrypt_blocks :: "u8 list \<Rightarrow> u8 list \<Rightarrow> u8 list \<Rightarrow> u8 list" where
  "encrypt_blocks secret hash p =
     (if p = [] then []
      else
        let c = xor_bytes (take 16 p) hash in
        c @ encrypt_blocks secret (stream16 secret c) (drop 16 p))"
  by pat_completeness auto

termination
  by (relation "measure (\<lambda>(s, h, c). length c)") auto

declare encrypt_blocks.simps [simp del]

definition pad16 :: "u8 list \<Rightarrow> u8 list" where
  "pad16 p = p @ replicate (if length p mod 16 = 0 then 0 else 16 - length p mod 16) 0"

definition Radius_msg_add_attr_user_password :: "u8 list \<Rightarrow> u8 list \<Rightarrow> radius_msg \<Rightarrow> (nat option \<times> radius_msg) option" where
  "Radius_msg_add_attr_user_password data secret msg =
     (if length data > 128 then Some (None, msg)
      else Option.bind (rd_bytes (buf msg) 4 16) (\<lambda>auth.
        Radius_msg_add_attr RADIUS_ATTR_USER_PASSWORD
          (encrypt_blocks secret (MD5Final (MD5Update (MD5Update MD5Init secret) auth)) (pad16 data)) msg))"

end
