(* ===== verification/Rc4.thy ===== *)
theory Rc4
  imports Prelude
begin

text \<open>
  RC4 as the 802.1X authenticator uses it for the keys in EAPOL-Key frames
  (\<open>rg/vendor/ralink/8021X/md5.c\<close>): the state is set up from the key, then the stream is XORed onto
  the data in place. The indices \<open>i\<close> and \<open>j\<close> are kept below 256 as the code does; \<open>None\<close> is a read
  behind the key.
\<close>

definition S_SWAP :: "nat \<Rightarrow> nat \<Rightarrow> u8 list \<Rightarrow> u8 list" where
  "S_SWAP a b S = S[a := S ! b, b := S ! a]"

text \<open>\<open>kpos\<close> is a byte: with a key of more than 255 bytes it wraps around.\<close>

fun rc4_setup :: "u8 list \<Rightarrow> nat list \<Rightarrow> nat \<Rightarrow> nat \<Rightarrow> u8 list \<Rightarrow> u8 list option" where
  "rc4_setup key [] j kpos S = Some S"
| "rc4_setup key (i # is) j kpos S =
     Option.bind (rd key kpos) (\<lambda>k.
       let j = (j + unat (S ! i) + unat k) mod 256;
           kpos = (kpos + 1) mod 256;
           kpos = (if kpos \<ge> length key then 0 else kpos)
       in rc4_setup key is j kpos (S_SWAP i j S))"

primrec rc4_apply :: "u8 list \<Rightarrow> nat \<Rightarrow> nat \<Rightarrow> u8 list \<Rightarrow> u8 list" where
  "rc4_apply [] i j S = []"
| "rc4_apply (x # xs) i j S =
     (let i = (i + 1) mod 256; j = (j + unat (S ! i)) mod 256; S = S_SWAP i j S in
      (x XOR S ! ((unat (S ! i) + unat (S ! j)) mod 256)) # rc4_apply xs i j S)"

definition rc4 :: "u8 list \<Rightarrow> u8 list \<Rightarrow> u8 list option" where
  "rc4 data key = map_option (rc4_apply data 0 0) (rc4_setup key [0..<256] 0 0 (map word_of_nat [0..<256]))"

lemma rc4_setup_Some: "kpos < length key \<Longrightarrow> \<exists>S'. rc4_setup key is j kpos S = Some S'"
proof (induction "is" arbitrary: j kpos S)
  case (Cons i "is")
  define kp where "kp = (if length key \<le> (kpos + 1) mod 256 then 0 else (kpos + 1) mod 256)"
  have "kp < length key" using Cons(2) by (auto simp: kp_def)
  moreover obtain k where "rd key kpos = Some k" using Cons(2) by (simp add: rd_in)
  ultimately show ?case using Cons(1) [of kp] by (simp add: Let_def kp_def [symmetric] del: One_nat_def)
qed simp

lemma length_rc4_apply [simp]: "length (rc4_apply xs i j S) = length xs"
  by (induction xs arbitrary: i j S) (simp_all add: Let_def)

text \<open>Decrypting is encrypting: the stream depends on the key alone.\<close>

lemma rc4_apply_twice: "rc4_apply (rc4_apply xs i j S) i j S = xs"
  by (induction xs arbitrary: i j S) (simp_all add: Let_def xor.assoc)

lemma rc4_total: "key \<noteq> [] \<Longrightarrow> \<exists>c. rc4 data key = Some c \<and> length c = length data"
  using rc4_setup_Some [of 0 key] by (force simp: rc4_def)

lemma rc4_twice: "rc4 data key = Some c \<Longrightarrow> rc4 c key = Some data"
  by (auto simp: rc4_def rc4_apply_twice)

end
