(* ===== verification/Eloop.thy ===== *)
theory Eloop
  imports Prelude "HOL-Library.Product_Lexorder"
begin

text \<open>
  The event loop of the 802.1X authenticator (\<open>rg/vendor/ralink/8021X/eloop.c\<close>): the list of timers,
  kept in the order of their time, and the table of sockets. A time is a pair of 32-bit signed
  fields; the clock is an argument. A handler and the two pointers it is registered with are
  values of the types \<open>'h\<close> and \<open>'c\<close>. The allocations succeed.
\<close>

section \<open>Time\<close>

record timeval =
  tv_sec :: u32
  tv_usec :: u32

text \<open>\<open>timercmp (a, b, <)\<close>\<close>

definition timer_less :: "timeval \<Rightarrow> timeval \<Rightarrow> bool" where
  "timer_less a b = (if tv_sec a = tv_sec b then tv_usec a <s tv_usec b else tv_sec a <s tv_sec b)"

text \<open>The loop that carries whole seconds.\<close>

lemma carry_decreases: "(1000000 :: u32) \<le>s u \<Longrightarrow> unat (u - 1000000) < unat u"
proof -
  assume a: "(1000000 :: u32) \<le>s u"
  have "sint (1000000 :: u32) = 1000000" by simp
  with a have "1000000 \<le> sint u" by (simp add: word_sle_eq)
  moreover have "sint u \<le> uint u" by (simp add: sint_uint signed_take_bit_int_less_eq_self_iff order_trans [OF _ uint_ge_0])
  ultimately have "1000000 \<le> uint u" by linarith
  then have "1000000 \<le> u" by (simp add: word_le_def)
  then show ?thesis by (simp add: unat_sub word_le_nat_alt)
qed

function carry :: "timeval \<Rightarrow> timeval" where
  "carry t = (if 1000000 \<le>s tv_usec t then carry (t\<lparr>tv_sec := tv_sec t + 1, tv_usec := tv_usec t - 1000000\<rparr>) else t)"
  by pat_completeness auto

termination
  by (relation "measure (\<lambda>t. unat (tv_usec t))") (simp_all add: carry_decreases)

declare carry.simps [simp del]

section \<open>Timers\<close>

record ('h, 'c) eloop_timeout =
  timeout_time :: timeval
  timeout_handler :: 'h
  eloop_data :: 'c
  user_data :: 'c

primrec insert_timeout :: "('h, 'c) eloop_timeout \<Rightarrow> ('h, 'c) eloop_timeout list \<Rightarrow> ('h, 'c) eloop_timeout list" where
  "insert_timeout t [] = [t]"
| "insert_timeout t (x # xs) =
     (if timer_less (timeout_time t) (timeout_time x) then t # x # xs else x # insert_timeout t xs)"

definition new_timeout :: "timeval \<Rightarrow> u32 \<Rightarrow> u32 \<Rightarrow> 'h \<Rightarrow> 'c \<Rightarrow> 'c \<Rightarrow> ('h, 'c) eloop_timeout" where
  "new_timeout now secs usecs h d u =
     \<lparr>timeout_time = carry \<lparr>tv_sec = tv_sec now + secs, tv_usec = tv_usec now + usecs\<rparr>,
      timeout_handler = h, eloop_data = d, user_data = u\<rparr>"

definition eloop_register_timeout ::
  "timeval \<Rightarrow> u32 \<Rightarrow> u32 \<Rightarrow> 'h \<Rightarrow> 'c \<Rightarrow> 'c \<Rightarrow> ('h, 'c) eloop_timeout list \<Rightarrow> ('h, 'c) eloop_timeout list" where
  "eloop_register_timeout now secs usecs h d u = insert_timeout (new_timeout now secs usecs h d u)"

text \<open>\<open>None\<close> as a pointer is \<open>ELOOP_ALL_CTX\<close>.\<close>

definition timeout_matches :: "'h \<Rightarrow> 'c option \<Rightarrow> 'c option \<Rightarrow> ('h, 'c) eloop_timeout \<Rightarrow> bool" where
  "timeout_matches h d u t \<longleftrightarrow>
     timeout_handler t = h \<and> (d = Some (eloop_data t) \<or> d = None) \<and> (u = Some (user_data t) \<or> u = None)"

fun eloop_cancel_timeout ::
  "'h \<Rightarrow> 'c option \<Rightarrow> 'c option \<Rightarrow> ('h, 'c) eloop_timeout list \<Rightarrow> nat \<times> ('h, 'c) eloop_timeout list" where
  "eloop_cancel_timeout h d u [] = (0, [])"
| "eloop_cancel_timeout h d u (t # ts) =
     (let (removed, rest) = eloop_cancel_timeout h d u ts in
      if timeout_matches h d u t then (removed + 1, rest) else (removed, t # rest))"

text \<open>The timer that the loop takes off the list after \<open>select\<close>, at most one in a pass.\<close>

fun eloop_due :: "timeval \<Rightarrow> ('h, 'c) eloop_timeout list \<Rightarrow> (('h, 'c) eloop_timeout \<times> ('h, 'c) eloop_timeout list) option" where
  "eloop_due now [] = None"
| "eloop_due now (t # ts) = (if \<not> timer_less now (timeout_time t) then Some (t, ts) else None)"

section \<open>Sockets\<close>

record 'r eloop_sock =
  sock_fd :: int
  sock_handler :: 'r

definition eloop_register_read_sock :: "int \<Rightarrow> 'r \<Rightarrow> 'r eloop_sock list \<Rightarrow> 'r eloop_sock list" where
  "eloop_register_read_sock s h rs = rs @ [\<lparr>sock_fd = s, sock_handler = h\<rparr>]"

end
