(* ===== verification/Apd.thy ===== *)
theory Apd
  imports Eapol_SM Radius_Msg Rc4 Eloop
begin

text \<open>
  The 802.1X daemon (\<open>rg/vendor/ralink/8021X\<close>: \<open>ieee802_1x.c\<close>, \<open>radius_client.c\<close>, \<open>sta_info.c\<close>, the
  handlers of \<open>rt2500apd.c\<close> and a pass of \<open>eloop_run\<close>): the stations with their state machines, the
  frames to and from the wireless driver, the RADIUS requests that wait for an answer, and the
  timers. A pointer to a station is a number; \<open>stas\<close> are the stations that are allocated, a number is
  not used again after \<open>free\<close>. The linked lists are lists. A result \<open>None\<close> is an access outside an
  object, through NULL or to memory that is freed, or a loop without end. Log messages are left out.
\<close>

section \<open>State\<close>

record hostapd_radius_server =
  srv_addr :: u32
  srv_port :: int
  shared_secret :: "u8 list option"

text \<open>\<open>auth_server\<close>, a pointer into the array \<open>auth_servers\<close>, is an index.\<close>

record rtapd_config =
  SsidNum :: nat
  IEEE8021X_ikey :: "u8 list"
  individual_wep_key_len :: nat
  own_ip_addr :: "u8 list"
  auth_servers :: "hostapd_radius_server list"
  auth_server :: nat
  radius_retry_primary_interval :: u32
  session_conf :: sm_conf

text \<open>A pointer and the length beside it are an optional list.\<close>

record sta_info =
  sta_addr :: "u8 list"
  aid :: nat
  eapol_sm :: "eapol_state_machine option"
  radius_identifier :: int
  last_recv_radius :: "radius_msg option"
  last_eap_supp :: "u8 list option"
  last_eap_radius :: "u8 list option"
  sta_identity :: "u8 list option"
  eapol_key_sign :: "u8 list option"
  eapol_key_crypt :: "u8 list option"
  ApIdx :: nat

text \<open>The retransmission list; \<open>time_t\<close> is an integer that does not overflow, the secret is the server's.\<close>

record radius_msg_list =
  req_msg :: radius_msg
  first_try :: int
  next_try :: int
  attempts :: nat
  next_wait :: int
  req_secret :: "u8 list option"

datatype timer_handler = Port_timers_tick | Handle_session_timer | Client_timer | Retry_primary_timer
datatype ctx = The_apd | Sta nat | Null_ctx
datatype read_handler = Handle_read | Radius_client_receive

text \<open>What the driver is asked to set: a frame to send, or a key (the structure \<open>NDIS_802_11_KEY\<close>).\<close>

datatype driver_data = Radius_data "u8 list" | Add_key u32 u32 "u8 list"

record rtapd =
  conf :: rtapd_config
  own_addr :: "u8 list"
  socks :: "int list"
  stas :: "nat \<Rightarrow> sta_info option"
  next_sta :: nat
  sta_list :: "nat list"
  sta_hash :: "u8 \<Rightarrow> nat list"
  num_sta :: nat
  sta_aid :: "nat \<Rightarrow> nat option"
  auth_serv_sock :: int
  num_auth_handlers :: nat
  msgs :: "radius_msg_list list"
  num_msgs :: nat
  next_radius_identifier :: u8
  timeouts :: "(timer_handler, ctx) eloop_timeout list"
  readers :: "read_handler eloop_sock list"
  terminate :: bool
  driver :: "(driver_data \<times> nat) list"
  net :: "u8 list list"
  peer :: "u32 \<times> int"

text \<open>
  One pass of the event loop happens at one time. \<open>ioctl_ok\<close> tells which of the calls of the driver
  succeed, \<open>rand\<close> what \<open>hostapd_get_rand\<close> gives, both by the number of driver calls made so far;
  \<open>seed\<close> are the bytes of the time, of the station and of \<open>random ()\<close> for a request authenticator, by
  the number of datagrams sent; \<open>mem\<close> tells which sizes \<open>malloc\<close> can give, \<open>sta_mem\<close> and \<open>sm_mem\<close>
  whether a station and a machine can be allocated.
\<close>

record apd_env =
  now :: timeval
  ioctl_ok :: "nat \<Rightarrow> bool"
  rand :: "nat \<Rightarrow> u8 list option"
  seed :: "nat \<Rightarrow> u8 list \<times> u8 list \<times> u8 list"
  mem :: "nat \<Rightarrow> bool"
  sta_mem :: bool
  sm_mem :: bool

definition upd_sta :: "nat \<Rightarrow> (sta_info \<Rightarrow> sta_info) \<Rightarrow> rtapd \<Rightarrow> rtapd option" where
  "upd_sta i f st = map_option (\<lambda>s. st\<lparr>stas := (stas st)(i \<mapsto> f s)\<rparr>) (stas st i)"

definition upd_sm :: "nat \<Rightarrow> (eapol_state_machine \<Rightarrow> eapol_state_machine) \<Rightarrow> rtapd \<Rightarrow> rtapd option" where
  "upd_sm i f st =
     Option.bind (stas st i) (\<lambda>s. Option.bind (eapol_sm s) (\<lambda>sm. upd_sta i (\<lambda>s. s\<lparr>eapol_sm := Some (f sm)\<rparr>) st))"

definition set_timer :: "apd_env \<Rightarrow> u32 \<Rightarrow> timer_handler \<Rightarrow> ctx \<Rightarrow> rtapd \<Rightarrow> rtapd" where
  "set_timer env secs h u st = st\<lparr>timeouts := eloop_register_timeout (now env) secs 0 h The_apd u (timeouts st)\<rparr>"

definition cancel_timer :: "timer_handler \<Rightarrow> ctx \<Rightarrow> rtapd \<Rightarrow> rtapd" where
  "cancel_timer h u st = st\<lparr>timeouts := snd (eloop_cancel_timeout h (Some The_apd) (Some u) (timeouts st))\<rparr>"

section \<open>Frames to the stations\<close>

definition RT_ioctl :: "apd_env \<Rightarrow> driver_data \<Rightarrow> nat \<Rightarrow> rtapd \<Rightarrow> bool \<times> rtapd" where
  "RT_ioctl env d apidx st = (ioctl_ok env (length (driver st)), st\<lparr>driver := driver st @ [(d, apidx)]\<rparr>)"

definition be16_bytes :: "nat \<Rightarrow> u8 list" where
  "be16_bytes n = [hi8 (n mod 65536), lo8 (n mod 65536)]"

definition IEEE802_1X_TYPE_EAP_PACKET :: u8 where "IEEE802_1X_TYPE_EAP_PACKET = 0"
definition IEEE802_1X_TYPE_EAPOL_START :: u8 where "IEEE802_1X_TYPE_EAPOL_START = 1"
definition IEEE802_1X_TYPE_EAPOL_LOGOFF :: u8 where "IEEE802_1X_TYPE_EAPOL_LOGOFF = 2"
definition IEEE802_1X_TYPE_EAPOL_KEY :: u8 where "IEEE802_1X_TYPE_EAPOL_KEY = 3"
definition EAPOL_VERSION :: u8 where "EAPOL_VERSION = 1"
definition EAP_CODE_REQUEST :: u8 where "EAP_CODE_REQUEST = 1"
definition EAP_CODE_RESPONSE :: u8 where "EAP_CODE_RESPONSE = 2"
definition EAP_CODE_SUCCESS :: u8 where "EAP_CODE_SUCCESS = 3"
definition EAP_CODE_FAILURE :: u8 where "EAP_CODE_FAILURE = 4"
definition EAP_TYPE_IDENTITY :: u8 where "EAP_TYPE_IDENTITY = 1"
definition EAP_TYPE_NAK :: u8 where "EAP_TYPE_NAK = 3"

text \<open>The buffer has two bytes more than the frame.\<close>

definition eapol_frame :: "u8 list \<Rightarrow> u8 list \<Rightarrow> u8 \<Rightarrow> u8 list \<Rightarrow> u8 list" where
  "eapol_frame dst src type data =
     dst @ src @ [0x88, 0x8e] @ [EAPOL_VERSION, type] @ be16_bytes (length data) @ data @ [0, 0]"

definition ieee802_1x_send :: "apd_env \<Rightarrow> nat \<Rightarrow> u8 \<Rightarrow> u8 list \<Rightarrow> rtapd \<Rightarrow> rtapd option" where
  "ieee802_1x_send env i type data st =
     Option.bind (stas st i) (\<lambda>s.
       if \<not> mem env (20 + length data) then Some st
       else Some (snd (RT_ioctl env (Radius_data (eapol_frame (sta_addr s) (own_addr st) type data)) (ApIdx s) st)))"

definition ieee802_1x_new_auth_session :: "nat \<Rightarrow> rtapd \<Rightarrow> rtapd option" where
  "ieee802_1x_new_auth_session i = upd_sta i (\<lambda>s. s\<lparr>last_recv_radius := None\<rparr>)"

definition ieee802_1x_request_identity :: "apd_env \<Rightarrow> nat \<Rightarrow> u8 \<Rightarrow> rtapd \<Rightarrow> rtapd option" where
  "ieee802_1x_request_identity env i idn st =
     Option.bind (ieee802_1x_new_auth_session i st) (\<lambda>st.
       if \<not> mem env 5 then Some st
       else ieee802_1x_send env i IEEE802_1X_TYPE_EAP_PACKET
              ([EAP_CODE_REQUEST, idn] @ be16_bytes 5 @ [EAP_TYPE_IDENTITY]) st)"

definition ieee802_1x_tx_canned_eap :: "apd_env \<Rightarrow> nat \<Rightarrow> u8 \<Rightarrow> bool \<Rightarrow> rtapd \<Rightarrow> rtapd option" where
  "ieee802_1x_tx_canned_eap env i idn success =
     ieee802_1x_send env i IEEE802_1X_TYPE_EAP_PACKET
       ([if success then EAP_CODE_SUCCESS else EAP_CODE_FAILURE, idn] @ be16_bytes 4)"

definition ieee802_1x_tx_req :: "apd_env \<Rightarrow> nat \<Rightarrow> u8 \<Rightarrow> rtapd \<Rightarrow> rtapd option" where
  "ieee802_1x_tx_req env i idn st =
     Option.bind (stas st i) (\<lambda>s. case last_eap_radius s of
       None \<Rightarrow> Some st
     | Some eap \<Rightarrow>
         Option.bind (wr_bytes eap 1 [idn]) (\<lambda>eap.
         Option.bind (upd_sta i (\<lambda>s. s\<lparr>last_eap_radius := Some eap\<rparr>) st)
           (ieee802_1x_send env i IEEE802_1X_TYPE_EAP_PACKET eap)))"

text \<open>The NTP time stamp of the replay counter.\<close>

definition ntp_stamp :: "timeval \<Rightarrow> u8 list" where
  "ntp_stamp t = be32_bytes (tv_sec t + 0x83aa7e80) @
     be32_bytes (4295 * tv_usec t - drop_bit 5 (tv_usec t) - drop_bit 9 (tv_usec t))"

definition EAPOL_KEY_TYPE_RC4 :: u8 where "EAPOL_KEY_TYPE_RC4 = 1"

text \<open>The structure \<open>ieee802_1x_eapol_key\<close> with the encrypted key behind it.\<close>

definition eapol_key :: "u8 list \<Rightarrow> u8 list \<Rightarrow> u8 \<Rightarrow> u8 list \<Rightarrow> u8 list \<Rightarrow> u8 list" where
  "eapol_key stamp iv index sig ekey =
     [EAPOL_KEY_TYPE_RC4] @ be16_bytes (length ekey) @ stamp @ iv @ [index] @ sig @ ekey"

definition ieee802_1x_tx_key_one :: "apd_env \<Rightarrow> nat \<Rightarrow> u8 \<Rightarrow> bool \<Rightarrow> u8 list \<Rightarrow> rtapd \<Rightarrow> rtapd option" where
  "ieee802_1x_tx_key_one env i index broadcast key_data st =
     Option.bind (stas st i) (\<lambda>s.
     if \<not> mem env (48 + length key_data) then Some st
     else case rand env (length (driver st)) of
       None \<Rightarrow> Some st
     | Some iv \<Rightarrow>
         Option.bind (eapol_key_crypt s) (\<lambda>crypt.
         if \<not> mem env (16 + length crypt) then Some st
         else
           Option.bind (rc4 key_data (iv @ crypt)) (\<lambda>ekey.
           Option.bind (eapol_key_sign s) (\<lambda>sign.
             let ix = (if broadcast then index else index OR 0x80);
                 key = (\<lambda>sig. eapol_key (ntp_stamp (now env)) iv ix sig ekey);
                 len = 44 + length key_data;
                 sig = hmac_md5 sign ([EAPOL_VERSION, IEEE802_1X_TYPE_EAPOL_KEY] @ be16_bytes len @ key (replicate 16 0))
             in ieee802_1x_send env i IEEE802_1X_TYPE_EAPOL_KEY (key sig) st))))"

definition ieee802_1x_tx_key :: "apd_env \<Rightarrow> nat \<Rightarrow> u8 \<Rightarrow> rtapd \<Rightarrow> rtapd option" where
  "ieee802_1x_tx_key env i idn st =
     Option.bind (stas st i) (\<lambda>s.
     if eapol_key_sign s = None \<or> eapol_key_crypt s = None then Some st
     else
       let n = individual_wep_key_len (conf st) in
       Option.bind (rd_bytes (IEEE8021X_ikey (conf st)) 0 n) (\<lambda>ikey.
       Option.bind (wr_bytes (replicate 64 0) 0 ikey) (\<lambda>material.
       Option.bind (ieee802_1x_tx_key_one env i 0 True ikey st) (\<lambda>st.
         let (ok, st) = RT_ioctl env (Add_key 0x80000000 (word_of_nat n) material) (ApIdx s) st in
         if \<not> ok then Some st
         else
           Option.bind (ieee802_1x_tx_key_one env i 3 False ikey st) (\<lambda>st.
             Some (snd (RT_ioctl env (Add_key 0x80000003 (word_of_nat n) material) (ApIdx s) st)))))))"

section \<open>Requests to the server\<close>

text \<open>\<open>num_msgs\<close> is unsigned.\<close>

definition dec_size :: "nat \<Rightarrow> nat" where "dec_size n = (n + 2 ^ 32 - 1) mod 2 ^ 32"

definition hdr_code :: "radius_msg \<Rightarrow> u8 option" where "hdr_code m = rd (buf m) 0"
definition hdr_identifier :: "radius_msg \<Rightarrow> u8 option" where "hdr_identifier m = rd (buf m) 1"

text \<open>
  The entries with the new identifier are freed. After one is freed \<open>prev\<close> points to it until the
  next entry has been passed.
\<close>

fun drop_identifier :: "u8 \<Rightarrow> bool \<Rightarrow> radius_msg_list list \<Rightarrow> radius_msg_list list option" where
  "drop_identifier idn prev_freed [] = Some []"
| "drop_identifier idn prev_freed (e # es) =
     Option.bind (hdr_identifier (req_msg e)) (\<lambda>j.
       if j = idn then (if prev_freed then None else drop_identifier idn True es)
       else map_option (Cons e) (drop_identifier idn False es))"

definition Radius_client_get_id :: "rtapd \<Rightarrow> (u8 \<times> rtapd) option" where
  "Radius_client_get_id st =
     (let idn = next_radius_identifier st in
      map_option (\<lambda>ms. (idn, st\<lparr>next_radius_identifier := idn + 1, msgs := ms\<rparr>)) (drop_identifier idn False (msgs st)))"

definition RADIUS_CLIENT_FIRST_WAIT :: int where "RADIUS_CLIENT_FIRST_WAIT = 1"
definition RADIUS_CLIENT_MAX_WAIT :: int where "RADIUS_CLIENT_MAX_WAIT = 120"
definition RADIUS_CLIENT_MAX_RETRIES :: nat where "RADIUS_CLIENT_MAX_RETRIES = 10"
definition RADIUS_CLIENT_MAX_ENTRIES :: nat where "RADIUS_CLIENT_MAX_ENTRIES = 30"
definition RADIUS_CLIENT_NUM_FAILOVER :: nat where "RADIUS_CLIENT_NUM_FAILOVER = 4"

definition time_now :: "apd_env \<Rightarrow> int" where "time_now env = sint (tv_sec (now env))"

definition Radius_client_list_add :: "apd_env \<Rightarrow> radius_msg \<Rightarrow> u8 list option \<Rightarrow> rtapd \<Rightarrow> rtapd" where
  "Radius_client_list_add env msg secret st =
     (if terminate st then st
      else
        let entry = \<lparr>req_msg = msg, first_try = time_now env, next_try = time_now env + RADIUS_CLIENT_FIRST_WAIT,
              attempts = 1, next_wait = RADIUS_CLIENT_FIRST_WAIT * 2, req_secret = secret\<rparr>;
            st = (if msgs st = [] then set_timer env (word_of_int RADIUS_CLIENT_FIRST_WAIT) Client_timer Null_ctx st else st);
            ms = entry # msgs st
        in if num_msgs st \<ge> RADIUS_CLIENT_MAX_ENTRIES
           then st\<lparr>msgs := (if length ms > 1 then butlast ms else ms)\<rparr>
           else st\<lparr>msgs := ms, num_msgs := num_msgs st + 1\<rparr>)"

definition current_server :: "rtapd \<Rightarrow> hostapd_radius_server option" where
  "current_server st =
     (if auth_server (conf st) < length (auth_servers (conf st))
      then Some (auth_servers (conf st) ! auth_server (conf st)) else None)"

definition Radius_client_send :: "apd_env \<Rightarrow> radius_msg \<Rightarrow> rtapd \<Rightarrow> rtapd option" where
  "Radius_client_send env msg st =
     Option.bind (current_server st) (\<lambda>srv.
     Option.bind (Radius_msg_finish (shared_secret srv) msg) (\<lambda>msg.
       Some (Radius_client_list_add env msg (shared_secret srv)
               (st\<lparr>net := net st @ [take (buf_used msg) (buf msg)]\<rparr>))))"

definition hex_digit :: "nat \<Rightarrow> u8" where
  "hex_digit n = (if n < 10 then word_of_nat (48 + n) else word_of_nat (55 + n))"

text \<open>\<open>RADIUS_802_1X_ADDR_FORMAT\<close>\<close>

fun addr_string :: "u8 list \<Rightarrow> u8 list" where
  "addr_string [] = []"
| "addr_string (b # bs) =
     [hex_digit (unat b div 16), hex_digit (unat b mod 16)] @ (if bs = [] then [] else 45 # addr_string bs)"

definition connect_info :: "u8 list" where
  "connect_info = [67, 79, 78, 78, 69, 67, 84, 32, 49, 49, 77, 98, 112, 115, 32, 56, 48, 50, 46, 49, 49, 98]"

definition RADIUS_ATTR_USER_NAME :: u8 where "RADIUS_ATTR_USER_NAME = 1"
definition RADIUS_ATTR_NAS_IP_ADDRESS :: u8 where "RADIUS_ATTR_NAS_IP_ADDRESS = 4"
definition RADIUS_ATTR_NAS_PORT :: u8 where "RADIUS_ATTR_NAS_PORT = 5"
definition RADIUS_ATTR_FRAMED_MTU :: u8 where "RADIUS_ATTR_FRAMED_MTU = 12"
definition RADIUS_ATTR_STATE :: u8 where "RADIUS_ATTR_STATE = 24"
definition RADIUS_ATTR_SESSION_TIMEOUT :: u8 where "RADIUS_ATTR_SESSION_TIMEOUT = 27"
definition RADIUS_ATTR_TERMINATION_ACTION :: u8 where "RADIUS_ATTR_TERMINATION_ACTION = 29"
definition RADIUS_ATTR_CALLED_STATION_ID :: u8 where "RADIUS_ATTR_CALLED_STATION_ID = 30"
definition RADIUS_ATTR_CALLING_STATION_ID :: u8 where "RADIUS_ATTR_CALLING_STATION_ID = 31"
definition RADIUS_ATTR_NAS_PORT_TYPE :: u8 where "RADIUS_ATTR_NAS_PORT_TYPE = 61"
definition RADIUS_ATTR_CONNECT_INFO :: u8 where "RADIUS_ATTR_CONNECT_INFO = 77"
definition RADIUS_NAS_PORT_TYPE_IEEE_802_11 :: u32 where "RADIUS_NAS_PORT_TYPE_IEEE_802_11 = 19"
definition RADIUS_TERMINATION_ACTION_RADIUS_REQUEST :: u32 where "RADIUS_TERMINATION_ACTION_RADIUS_REQUEST = 1"
definition RADIUS_TERMINATION_ACTION_DEFAULT :: u32 where "RADIUS_TERMINATION_ACTION_DEFAULT = 0"

definition try_attr :: "u8 \<Rightarrow> u8 list \<Rightarrow> radius_msg \<Rightarrow> (bool \<times> radius_msg) option" where
  "try_attr type data msg = map_option (\<lambda>(a, m). (a \<noteq> None, m)) (Radius_msg_add_attr type data msg)"

text \<open>The next attribute, unless one before it failed.\<close>

definition then_add :: "(bool \<times> radius_msg) option \<Rightarrow> (radius_msg \<Rightarrow> (bool \<times> radius_msg) option) \<Rightarrow> (bool \<times> radius_msg) option" where
  "then_add r f = Option.bind r (\<lambda>(ok, m). if ok then f m else Some (False, m))"

definition copy_state :: "sta_info \<Rightarrow> radius_msg \<Rightarrow> (bool \<times> radius_msg) option" where
  "copy_state s msg =
     (case last_recv_radius s of
        None \<Rightarrow> Some (True, msg)
      | Some r \<Rightarrow>
          Option.bind (hdr_code r) (\<lambda>c.
            if c = RADIUS_CODE_ACCESS_CHALLENGE
            then map_option (\<lambda>(res, m). (\<not> res < 0, m)) (Radius_msg_copy_attr r RADIUS_ATTR_STATE msg)
            else Some (True, msg)))"

definition request_attrs :: "rtapd \<Rightarrow> sta_info \<Rightarrow> u8 list option \<Rightarrow> radius_msg \<Rightarrow> (bool \<times> radius_msg) option" where
  "request_attrs st s eap msg =
     then_add (then_add (then_add (then_add (then_add (then_add (then_add (then_add (then_add
       (case sta_identity s of None \<Rightarrow> Some (True, msg) | Some d \<Rightarrow> try_attr RADIUS_ATTR_USER_NAME d msg)
       (try_attr RADIUS_ATTR_NAS_IP_ADDRESS (own_ip_addr (conf st))))
       (Radius_msg_add_attr_int32 RADIUS_ATTR_NAS_PORT (word_of_nat (aid s))))
       (try_attr RADIUS_ATTR_CALLED_STATION_ID (addr_string (own_addr st))))
       (try_attr RADIUS_ATTR_CALLING_STATION_ID (addr_string (sta_addr s))))
       (Radius_msg_add_attr_int32 RADIUS_ATTR_FRAMED_MTU 1400))
       (Radius_msg_add_attr_int32 RADIUS_ATTR_NAS_PORT_TYPE RADIUS_NAS_PORT_TYPE_IEEE_802_11))
       (try_attr RADIUS_ATTR_CONNECT_INFO connect_info))
       (\<lambda>m. case eap of None \<Rightarrow> Some (True, m) | Some e \<Rightarrow> Radius_msg_add_eap e m))
       (copy_state s)"

definition ieee802_1x_encapsulate_radius :: "apd_env \<Rightarrow> nat \<Rightarrow> u8 list option \<Rightarrow> rtapd \<Rightarrow> rtapd option" where
  "ieee802_1x_encapsulate_radius env i eap st =
     Option.bind (Radius_client_get_id st) (\<lambda>(idn, st).
     Option.bind (upd_sta i (\<lambda>s. s\<lparr>radius_identifier := int (unat idn)\<rparr>) st) (\<lambda>st.
     Option.bind (Radius_msg_new RADIUS_CODE_ACCESS_REQUEST idn) (\<lambda>msg.
     Option.bind (case seed env (length (net st)) of (tv, d, l) \<Rightarrow> Radius_msg_make_authenticator tv l d msg) (\<lambda>msg.
     Option.bind (stas st i) (\<lambda>s.
     Option.bind (request_attrs st s eap msg) (\<lambda>(ok, msg).
       if ok then Radius_client_send env msg st else Some st))))))"

definition ieee802_1x_send_resp_to_server :: "apd_env \<Rightarrow> nat \<Rightarrow> rtapd \<Rightarrow> rtapd option" where
  "ieee802_1x_send_resp_to_server env i st =
     Option.bind (stas st i) (\<lambda>s. ieee802_1x_encapsulate_radius env i (last_eap_supp s) st)"

section \<open>The machines\<close>

text \<open>
  What the machines have asked for, in order. None of these functions writes to the machines, so
  they are carried out after the step that asks for them.
\<close>

fun sm_do :: "apd_env \<Rightarrow> nat \<Rightarrow> sm_call \<Rightarrow> rtapd \<Rightarrow> rtapd option" where
  "sm_do env i (SetStaAuthorized b) st = Some st"
| "sm_do env i (TxCannedEap idn success) st = ieee802_1x_tx_canned_eap env i idn success st"
| "sm_do env i (RequestIdentity idn) st = ieee802_1x_request_identity env i idn st"
| "sm_do env i (TxReq idn) st = ieee802_1x_tx_req env i idn st"
| "sm_do env i SendRespToServer st = ieee802_1x_send_resp_to_server env i st"
| "sm_do env i (TxKey idn) st = ieee802_1x_tx_key env i idn st"
| "sm_do env i CancelTick st = Some (cancel_timer Port_timers_tick (Sta i) st)"
| "sm_do env i RegisterTick st = Some (set_timer env 1 Port_timers_tick (Sta i) st)"

fun sm_dos :: "apd_env \<Rightarrow> nat \<Rightarrow> sm_call list \<Rightarrow> rtapd \<Rightarrow> rtapd option" where
  "sm_dos env i [] st = Some st"
| "sm_dos env i (c # cs) st = Option.bind (sm_do env i c st) (sm_dos env i cs)"

definition run_sm :: "apd_env \<Rightarrow> nat \<Rightarrow> (eapol_state_machine \<Rightarrow> eapol_state_machine option) \<Rightarrow> rtapd \<Rightarrow> rtapd option" where
  "run_sm env i f st =
     Option.bind (stas st i) (\<lambda>s.
     Option.bind (eapol_sm s) (\<lambda>sm.
     Option.bind (f sm) (\<lambda>sm'.
     Option.bind (upd_sm i (\<lambda>_. sm') st)
       (sm_dos env i (drop (length (calls sm)) (calls sm'))))))"

text \<open>The new machine of a station, and whether there is one.\<close>

definition new_machine :: "apd_env \<Rightarrow> nat \<Rightarrow> rtapd \<Rightarrow> (bool \<times> rtapd) option" where
  "new_machine env i st =
     Option.bind (eapol_sm_alloc (sm_mem env) (session_conf (conf st))) (\<lambda>r. case r of
       None \<Rightarrow> Some (False, st)
     | Some sm \<Rightarrow>
         Option.bind (sm_dos env i (calls sm) st) (\<lambda>st.
           map_option (Pair True) (upd_sta i (\<lambda>s. s\<lparr>eapol_sm := Some sm\<rparr>) st)))"

definition ieee802_1x_new_station :: "apd_env \<Rightarrow> nat \<Rightarrow> rtapd \<Rightarrow> rtapd option" where
  "ieee802_1x_new_station env i st =
     Option.bind (stas st i) (\<lambda>s.
       if eapol_sm s \<noteq> None
       then Option.bind (upd_sm i (\<lambda>sm. sm\<lparr>portEnabled := True\<rparr>) st) (run_sm env i eapol_sm_step)
       else Option.bind (new_machine env i st) (\<lambda>(ok, st).
              if ok then upd_sm i (\<lambda>sm. sm\<lparr>portEnabled := True\<rparr>) st else Some st))"

section \<open>The stations\<close>

definition MAX_STA_COUNT :: nat where "MAX_STA_COUNT = 1024"
definition MAX_AID_TABLE_SIZE :: nat where "MAX_AID_TABLE_SIZE = 256"

text \<open>The first entry of a chain with the address, \<open>memcmp\<close> over six bytes.\<close>

fun find_addr :: "(nat \<Rightarrow> sta_info option) \<Rightarrow> u8 list \<Rightarrow> nat list \<Rightarrow> nat option option" where
  "find_addr ss a [] = Some None"
| "find_addr ss a (i # is) =
     Option.bind (ss i) (\<lambda>s. if sta_addr s = a then Some (Some i) else find_addr ss a is)"

fun del_addr :: "(nat \<Rightarrow> sta_info option) \<Rightarrow> u8 list \<Rightarrow> nat list \<Rightarrow> nat list option" where
  "del_addr ss a [] = Some []"
| "del_addr ss a (i # is) =
     Option.bind (ss i) (\<lambda>s. if sta_addr s = a then Some is else map_option (Cons i) (del_addr ss a is))"

definition STA_HASH :: "u8 list \<Rightarrow> u8 option" where "STA_HASH a = rd a 5"

definition new_sta :: "u8 list \<Rightarrow> nat \<Rightarrow> sta_info" where
  "new_sta sa apidx =
     \<lparr>sta_addr = sa, aid = 0, eapol_sm = None, radius_identifier = - 1, last_recv_radius = None,
      last_eap_supp = None, last_eap_radius = None, sta_identity = None, eapol_key_sign = None,
      eapol_key_crypt = None, ApIdx = apidx\<rparr>"

definition Ap_sta_hash_add :: "nat \<Rightarrow> u8 \<Rightarrow> rtapd \<Rightarrow> rtapd" where
  "Ap_sta_hash_add i h st = st\<lparr>sta_hash := (sta_hash st)(h := i # sta_hash st h)\<rparr>"

definition Ap_get_sta :: "apd_env \<Rightarrow> u8 list \<Rightarrow> nat \<Rightarrow> rtapd \<Rightarrow> (nat option \<times> rtapd) option" where
  "Ap_get_sta env sa apidx st =
     Option.bind (STA_HASH sa) (\<lambda>h.
     Option.bind (find_addr (stas st) sa (sta_hash st h)) (\<lambda>r. case r of
       Some i \<Rightarrow> Some (Some i, st)
     | None \<Rightarrow>
         if num_sta st \<ge> MAX_STA_COUNT then Some (None, st)
         else if \<not> sta_mem env then Some (None, st)
         else
           let i = next_sta st;
               s = new_sta sa (if SsidNum (conf st) > 1 then apidx else 0);
               st = st\<lparr>next_sta := i + 1, stas := (stas st)(i \<mapsto> s), sta_list := i # sta_list st, num_sta := num_sta st + 1\<rparr>;
               st = Ap_sta_hash_add i h st
           in map_option (Pair (Some i)) (ieee802_1x_new_station env i st)))"

fun find_identifier :: "(nat \<Rightarrow> sta_info option) \<Rightarrow> u8 \<Rightarrow> nat list \<Rightarrow> nat option option" where
  "find_identifier ss idn [] = Some None"
| "find_identifier ss idn (i # is) =
     Option.bind (ss i) (\<lambda>s.
       if radius_identifier s \<ge> 0 \<and> radius_identifier s = int (unat idn) then Some (Some i) else find_identifier ss idn is)"

definition Ap_get_sta_radius_identifier :: "rtapd \<Rightarrow> u8 \<Rightarrow> nat option option" where
  "Ap_get_sta_radius_identifier st idn = find_identifier (stas st) idn (sta_list st)"

definition Ap_sta_hash_del :: "sta_info \<Rightarrow> rtapd \<Rightarrow> rtapd option" where
  "Ap_sta_hash_del s st =
     Option.bind (STA_HASH (sta_addr s)) (\<lambda>h.
       map_option (\<lambda>c. st\<lparr>sta_hash := (sta_hash st)(h := c)\<rparr>) (del_addr (stas st) (sta_addr s) (sta_hash st h)))"

definition Ap_sta_list_del :: "nat \<Rightarrow> rtapd \<Rightarrow> rtapd" where
  "Ap_sta_list_del i st = st\<lparr>sta_list := remove1 i (sta_list st)\<rparr>"

definition ieee802_1x_free_station :: "nat \<Rightarrow> rtapd \<Rightarrow> rtapd option" where
  "ieee802_1x_free_station i st =
     Option.bind (stas st i) (\<lambda>s.
       upd_sta i (\<lambda>s. s\<lparr>last_recv_radius := None, last_eap_supp := None, last_eap_radius := None,
           sta_identity := None, eapol_key_sign := None, eapol_key_crypt := None, eapol_sm := None\<rparr>)
         (if eapol_sm s = None then st else cancel_timer Port_timers_tick (Sta i) st))"

text \<open>\<open>Ap_free_sta\<close> takes the station out of the tables, then it frees what it points to and the station.\<close>

definition unlink_sta :: "nat \<Rightarrow> sta_info \<Rightarrow> rtapd \<Rightarrow> rtapd option" where
  "unlink_sta i s st =
     Option.bind (Ap_sta_hash_del s st) (\<lambda>st.
     let st = Ap_sta_list_del i st in
     if aid s > MAX_AID_TABLE_SIZE then None
     else
       let st = (if aid s > 0 then st\<lparr>sta_aid := (sta_aid st)(aid s - 1 := None)\<rparr> else st) in
       Some (st\<lparr>num_sta := num_sta st - 1\<rparr>))"

definition Ap_free_sta :: "nat \<Rightarrow> rtapd \<Rightarrow> rtapd option" where
  "Ap_free_sta i st =
     Option.bind (stas st i) (\<lambda>s.
     Option.bind (unlink_sta i s st) (\<lambda>st.
       map_option (\<lambda>st. st\<lparr>stas := (stas st)(i := None)\<rparr>) (ieee802_1x_free_station i st)))"

text \<open>\<open>Apd_free_stas\<close> reads \<open>next\<close> before it frees a station.\<close>

fun free_stas :: "nat list \<Rightarrow> rtapd \<Rightarrow> rtapd option" where
  "free_stas [] st = Some st"
| "free_stas (i # is) st = Option.bind (Ap_free_sta i st) (free_stas is)"

definition Apd_free_stas :: "rtapd \<Rightarrow> rtapd option" where
  "Apd_free_stas st = free_stas (sta_list st) st"

definition Ap_sta_session_timeout :: "apd_env \<Rightarrow> nat \<Rightarrow> u32 \<Rightarrow> rtapd \<Rightarrow> rtapd" where
  "Ap_sta_session_timeout env i t st = set_timer env t Handle_session_timer (Sta i) (cancel_timer Handle_session_timer (Sta i) st)"

text \<open>Sends the frame that tells the driver to deauthenticate the station.\<close>

definition Ap_handle_session_timer :: "apd_env \<Rightarrow> nat \<Rightarrow> rtapd \<Rightarrow> rtapd option" where
  "Ap_handle_session_timer env i st =
     (if \<not> mem env 16 then Some st
      else Option.bind (stas st i) (\<lambda>s.
        Some (snd (RT_ioctl env (Radius_data (sta_addr s @ own_addr st @ [0, 0, 0, 0])) (ApIdx s) st))))"

section \<open>Frames from the stations\<close>

text \<open>The printable copy of the identity is only for the log.\<close>

definition save_identity :: "apd_env \<Rightarrow> u8 list \<Rightarrow> sta_info \<Rightarrow> sta_info" where
  "save_identity env name s = s\<lparr>sta_identity := (if mem env (length name) then Some name else None)\<rparr>"

definition handle_eap_response :: "apd_env \<Rightarrow> nat \<Rightarrow> u8 list \<Rightarrow> nat \<Rightarrow> rtapd \<Rightarrow> rtapd option" where
  "handle_eap_response env i eap len st =
     Option.bind (stas st i) (\<lambda>s.
     Option.bind (eapol_sm s) (\<lambda>sm.
     if len < 1 then Some st
     else if \<not> mem env (4 + len) then upd_sta i (\<lambda>s. s\<lparr>last_eap_supp := None\<rparr>) st
     else
       Option.bind (rd_bytes eap 0 (4 + len)) (\<lambda>supp.
       Option.bind (upd_sta i (\<lambda>s. s\<lparr>last_eap_supp := Some supp\<rparr>) st) (\<lambda>st.
         let type = supp ! 4 in
         if type = EAP_TYPE_IDENTITY
         then Option.bind (upd_sm i (\<lambda>sm. sm\<lparr>auth_pae := (auth_pae sm)\<lparr>rxInitialRsp := True\<rparr>\<rparr>) st)
                (upd_sta i (save_identity env (drop 5 supp)))
         else upd_sm i (\<lambda>sm. sm\<lparr>be_auth := (be_auth sm)\<lparr>backendNonNakResponsesFromSupplicant :=
                  inc_if (type \<noteq> EAP_TYPE_NAK) (backendNonNakResponsesFromSupplicant (be_auth sm)), rxResp := True\<rparr>\<rparr>) st))))"

definition handle_eap :: "apd_env \<Rightarrow> nat \<Rightarrow> u8 list \<Rightarrow> nat \<Rightarrow> rtapd \<Rightarrow> rtapd option" where
  "handle_eap env i eap len st =
     (if len < 4 then Some st
      else Option.bind (rd_be16 eap 2) (\<lambda>eap_len.
        if eap_len < 4 then Some st
        else if eap_len > len then Some st
        else Option.bind (rd eap 0) (\<lambda>code.
          if code = EAP_CODE_RESPONSE then handle_eap_response env i eap (eap_len - 4) st else Some st)))"

definition SNAP_802_1H :: "u8 list" where "SNAP_802_1H = [0xaa, 0xaa, 0x03, 0x00, 0x00, 0x00]"
definition LENGTH_802_1_H :: nat where "LENGTH_802_1_H = 8"

definition handle_eapol :: "apd_env \<Rightarrow> nat \<Rightarrow> u8 \<Rightarrow> u8 list \<Rightarrow> nat \<Rightarrow> rtapd \<Rightarrow> rtapd option" where
  "handle_eapol env i type eap datalen st =
     (if type = IEEE802_1X_TYPE_EAP_PACKET then handle_eap env i eap datalen st
      else if type = IEEE802_1X_TYPE_EAPOL_START
      then Option.bind (upd_sm i (\<lambda>sm. sm\<lparr>auth_pae := (auth_pae sm)\<lparr>eapStart := True\<rparr>\<rparr>) st) (run_sm env i eapol_sm_step)
      else if type = IEEE802_1X_TYPE_EAPOL_LOGOFF
      then Option.bind (upd_sm i (\<lambda>sm. sm\<lparr>auth_pae := (auth_pae sm)\<lparr>eapLogoff := True\<rparr>\<rparr>) st) (run_sm env i eapol_sm_step)
      else Some st)"

text \<open>
  \<open>pos\<close> is the memory from the EAPOL frame to the end of the receive buffer, \<open>len\<close> the length of the
  frame, a \<open>size_t\<close>: the subtraction wraps around, and skipping the SNAP header leaves it as it is.
\<close>

definition ieee802_1x_receive :: "apd_env \<Rightarrow> u8 list \<Rightarrow> nat \<Rightarrow> u8 list \<Rightarrow> u32 \<Rightarrow> rtapd \<Rightarrow> rtapd option" where
  "ieee802_1x_receive env sa apidx pos len st =
     Option.bind (Ap_get_sta env sa apidx st) (\<lambda>(r, st). case r of
       None \<Rightarrow> Some st
     | Some i \<Rightarrow>
         Option.bind (rd_bytes pos 0 6) (\<lambda>snap.
         let b = (if snap = SNAP_802_1H then drop LENGTH_802_1_H pos else pos) in
         Option.bind (rd_be16 b 2) (\<lambda>datalen.
         if len - 4 < word_of_nat datalen then Some st
         else
           Option.bind (stas st i) (\<lambda>s.
           Option.bind (if eapol_sm s = None then new_machine env i st else Some (True, st)) (\<lambda>(ok, st).
           if \<not> ok then Some st
           else
             Option.bind (rd b 0) (\<lambda>version.
             Option.bind (rd b 1) (\<lambda>type.
             if version \<noteq> EAPOL_VERSION then Some st
             else Option.bind (handle_eapol env i type (drop 4 b) datalen st) (run_sm env i eapol_sm_step))))))))"

text \<open>The interface of a socket, 0 if there is none.\<close>

definition apidx_of :: "int \<Rightarrow> rtapd \<Rightarrow> nat" where
  "apidx_of sock st =
     (let n = length (takeWhile (\<lambda>s. s \<noteq> sock) (take (SsidNum (conf st)) (socks st))) in
      if n < min (SsidNum (conf st)) (length (socks st)) then n else 0)"

text \<open>
  \<open>bytes\<close> is the receive buffer of 3000 bytes, of which \<open>len\<close> have been received. The loop that
  logs a short frame counts to \<open>left\<close> with 16 bits: when \<open>left\<close> has wrapped around it never ends.
\<close>

definition Handle_read_frame :: "apd_env \<Rightarrow> int \<Rightarrow> u8 list \<Rightarrow> nat \<Rightarrow> rtapd \<Rightarrow> rtapd option" where
  "Handle_read_frame env sock bytes len st =
     (let left = word_of_nat len - 14 :: u32 in
      if left = 0 then Some st
      else Option.bind (rd_be16 bytes 12) (\<lambda>ethertype.
        if ethertype \<noteq> 0x888e then Some st
        else if apidx_of sock st \<ge> SsidNum (conf st) then Some st
        else if len < 52 \<and> 65535 < left then None
        else Option.bind (rd_bytes bytes 6 6) (\<lambda>sa.
          ieee802_1x_receive env sa (apidx_of sock st) (drop 14 bytes) left st)))"

end
