(* ===== verification/Apd_Loop.thy ===== *)
theory Apd_Loop
  imports Apd
begin

text \<open>
  The 802.1X daemon, second part: the answers of the RADIUS server, the retransmission and the change
  of the server (\<open>radius_client.c\<close>), reloading and start-up (\<open>rt2500apd.c\<close>), and a pass of the event loop
  (\<open>eloop_run\<close> of \<open>eloop.c\<close>).
\<close>

section \<open>Answers of the server\<close>

datatype RadiusRxResult = RADIUS_RX_PROCESSED | RADIUS_RX_QUEUED | RADIUS_RX_UNKNOWN

definition ieee802_1x_decapsulate_radius :: "nat \<Rightarrow> rtapd \<Rightarrow> rtapd option" where
  "ieee802_1x_decapsulate_radius i st =
     Option.bind (stas st i) (\<lambda>s. case last_recv_radius s of
       None \<Rightarrow> Some st
     | Some msg \<Rightarrow>
         Option.bind (Radius_msg_get_eap msg) (\<lambda>r. case r of
           None \<Rightarrow> upd_sta i (\<lambda>s. s\<lparr>last_eap_radius := None\<rparr>) st
         | Some eap \<Rightarrow>
             if length eap < 4 then Some st
             else Option.bind (upd_sm i (\<lambda>sm. sm\<lparr>be_auth := (be_auth sm)\<lparr>idFromServer := eap ! 1\<rparr>\<rparr>) st)
                    (upd_sta i (\<lambda>s. s\<lparr>last_eap_radius := Some eap\<rparr>))))"

text \<open>A pointer to a secret that is NULL has the length 0.\<close>

definition secret_bytes :: "u8 list option \<Rightarrow> u8 list" where
  "secret_bytes s = (case s of None \<Rightarrow> [] | Some k \<Rightarrow> k)"

definition save_keys :: "nat \<Rightarrow> u8 list \<Rightarrow> u8 list \<Rightarrow> rtapd \<Rightarrow> rtapd option" where
  "save_keys i send recv st =
     Option.bind (upd_sta i (\<lambda>s. s\<lparr>eapol_key_sign := Some send, eapol_key_crypt := Some recv\<rparr>) st)
       (upd_sm i (\<lambda>sm. sm\<lparr>keyAvailable := True\<rparr>))"

text \<open>The first key for the driver: 32 bytes of the received key, or one.\<close>

definition key_material :: "u8 list \<Rightarrow> u8 list option" where
  "key_material recv =
     Option.bind (rd_bytes recv 0 (if length recv = 32 then 32 else 1)) (wr_bytes (replicate 64 0) 0)"

definition ieee802_1x_get_keys :: "apd_env \<Rightarrow> nat \<Rightarrow> radius_msg \<Rightarrow> radius_msg \<Rightarrow> u8 list \<Rightarrow> rtapd \<Rightarrow> rtapd option" where
  "ieee802_1x_get_keys env i msg req secret st =
     Option.bind (stas st i) (\<lambda>s.
     Option.bind (Radius_msg_get_ms_keys (mem env) msg (Some req) secret) (\<lambda>r.
     Option.bind r (\<lambda>keys.
     Option.bind (recv_key keys) (\<lambda>recv.
     Option.bind (key_material recv) (\<lambda>material.
       let (ok, st) = RT_ioctl env (Add_key 0 (word_of_nat (length recv)) material) (ApIdx s) st in
       if \<not> ok then Some st
       else case send_key keys of None \<Rightarrow> Some st | Some send \<Rightarrow> save_keys i send recv st)))))"

text \<open>The first test of \<open>ieee802_1x_receive_auth\<close>: an answer that need not be verified, or one that is.\<close>

definition answer_ok :: "radius_msg \<Rightarrow> radius_msg \<Rightarrow> u8 list \<Rightarrow> bool option" where
  "answer_ok msg req secret =
     Option.bind (hdr_code msg) (\<lambda>code.
     Option.bind
       (if code = RADIUS_CODE_ACCESS_REJECT
        then Option.bind (Radius_msg_get_attr msg RADIUS_ATTR_MESSAGE_AUTHENTICATOR []) (\<lambda>(mac, _).
               if mac < 0 then map_option (\<lambda>(eap, _). eap < 0) (Radius_msg_get_attr msg RADIUS_ATTR_EAP_MESSAGE [])
               else Some False)
        else Some False)
       (\<lambda>unsigned.
         if unsigned then Some True else map_option (\<lambda>r. r = 0) (Radius_msg_verify secret (Some req) msg)))"

text \<open>What an Access-Accept says about the length of the session, and whether the station is freed.\<close>

definition accept_timeout :: "apd_env \<Rightarrow> nat \<Rightarrow> u32 option \<Rightarrow> u32 \<Rightarrow> rtapd \<Rightarrow> (bool \<times> rtapd) option" where
  "accept_timeout env i session action st =
     (let c = session_conf (conf st); limit = session_timeout_interval c in
      case session of
        Some t \<Rightarrow>
          if action = RADIUS_TERMINATION_ACTION_RADIUS_REQUEST
          then map_option (Pair False) (upd_sm i (\<lambda>sm. sm\<lparr>reauth_timer := (reauth_timer sm)\<lparr>reAuthPeriod := t\<rparr>\<rparr>) st)
          else if session_timeout_set c then Some (False, Ap_sta_session_timeout env i (if t < limit then t else limit) st)
          else Some (False, Ap_sta_session_timeout env i t st)
      | None \<Rightarrow>
          if session_timeout_set c then Some (False, Ap_sta_session_timeout env i limit st)
          else Some (True, st))"

definition accept_sm :: "eapol_state_machine \<Rightarrow> eapol_state_machine" where
  "accept_sm sm = sm\<lparr>be_auth := (be_auth sm)\<lparr>aSuccess := True\<rparr>\<rparr>"
definition reject_sm :: "eapol_state_machine \<Rightarrow> eapol_state_machine" where
  "reject_sm sm = sm\<lparr>be_auth := (be_auth sm)\<lparr>aFail := True\<rparr>\<rparr>"
definition challenge_sm :: "u32 option \<Rightarrow> eapol_state_machine \<Rightarrow> eapol_state_machine" where
  "challenge_sm session sm =
     (let be = (case session of None \<Rightarrow> be_auth sm | Some t \<Rightarrow> (be_auth sm)\<lparr>suppTimeout := t\<rparr>) in
      sm\<lparr>be_auth := be\<lparr>aReq := True\<rparr>\<rparr>)"

definition handle_code ::
  "apd_env \<Rightarrow> nat \<Rightarrow> u8 \<Rightarrow> u32 option \<Rightarrow> u32 \<Rightarrow> radius_msg \<Rightarrow> radius_msg \<Rightarrow> u8 list \<Rightarrow> rtapd \<Rightarrow> (bool \<times> rtapd) option" where
  "handle_code env i code session action msg req secret st =
     (if code = RADIUS_CODE_ACCESS_ACCEPT
      then Option.bind (accept_timeout env i session action st) (\<lambda>(free, st).
           Option.bind (upd_sm i accept_sm st) (\<lambda>st.
             map_option (Pair free) (ieee802_1x_get_keys env i msg req secret st)))
      else if code = RADIUS_CODE_ACCESS_REJECT then map_option (Pair False) (upd_sm i reject_sm st)
      else map_option (Pair False) (upd_sm i (challenge_sm session) st))"

text \<open>What follows when an answer is accepted.\<close>

definition process_answer :: "apd_env \<Rightarrow> nat \<Rightarrow> u8 \<Rightarrow> radius_msg \<Rightarrow> radius_msg \<Rightarrow> u8 list \<Rightarrow> rtapd \<Rightarrow> rtapd option" where
  "process_answer env i code msg req secret st =
     Option.bind (upd_sta i (\<lambda>s. s\<lparr>radius_identifier := - 1, last_recv_radius := Some msg\<rparr>) st) (\<lambda>st.
     Option.bind (Radius_msg_get_attr_int32 msg RADIUS_ATTR_SESSION_TIMEOUT) (\<lambda>session.
     Option.bind (Radius_msg_get_attr_int32 msg RADIUS_ATTR_TERMINATION_ACTION) (\<lambda>action.
     Option.bind (handle_code env i code session
         (case action of None \<Rightarrow> RADIUS_TERMINATION_ACTION_DEFAULT | Some a \<Rightarrow> a) msg req secret st) (\<lambda>r.
     Option.bind (ieee802_1x_decapsulate_radius i (snd r)) (\<lambda>st.
     Option.bind (run_sm env i eapol_sm_step st) (\<lambda>st.
       if fst r then Ap_free_sta i st else Some st))))))"

definition ieee802_1x_receive_auth ::
  "apd_env \<Rightarrow> radius_msg \<Rightarrow> radius_msg \<Rightarrow> u8 list \<Rightarrow> rtapd \<Rightarrow> (RadiusRxResult \<times> rtapd) option" where
  "ieee802_1x_receive_auth env msg req secret st =
     Option.bind (hdr_identifier msg) (\<lambda>j.
     Option.bind (Ap_get_sta_radius_identifier st j) (\<lambda>r. case r of
       None \<Rightarrow> Some (RADIUS_RX_UNKNOWN, st)
     | Some i \<Rightarrow>
         Option.bind (answer_ok msg req secret) (\<lambda>ok.
         if \<not> ok then Some (RADIUS_RX_UNKNOWN, st)
         else Option.bind (hdr_code msg) (\<lambda>code.
         if code \<noteq> RADIUS_CODE_ACCESS_ACCEPT \<and> code \<noteq> RADIUS_CODE_ACCESS_REJECT \<and> code \<noteq> RADIUS_CODE_ACCESS_CHALLENGE
         then Some (RADIUS_RX_UNKNOWN, st)
         else map_option (Pair RADIUS_RX_QUEUED) (process_answer env i code msg req secret st)))))"

text \<open>The first entry of the list with the identifier, and the list without it.\<close>

fun take_request :: "u8 \<Rightarrow> radius_msg_list list \<Rightarrow> (radius_msg_list \<times> radius_msg_list list) option option" where
  "take_request j [] = Some None"
| "take_request j (e # es) =
     Option.bind (hdr_identifier (req_msg e)) (\<lambda>k.
       if k = j then Some (Some (e, es))
       else map_option (map_option (\<lambda>(r, rest). (r, e # rest))) (take_request j es))"

text \<open>The registered handlers are all \<open>ieee802_1x_receive_auth\<close>, the only one the program has.\<close>

fun run_handlers :: "apd_env \<Rightarrow> nat \<Rightarrow> radius_msg \<Rightarrow> radius_msg_list \<Rightarrow> rtapd \<Rightarrow> rtapd option" where
  "run_handlers env 0 msg req st = Some st"
| "run_handlers env (Suc n) msg req st =
     Option.bind (ieee802_1x_receive_auth env msg (req_msg req) (secret_bytes (req_secret req)) st) (\<lambda>(res, st). case res of
       RADIUS_RX_PROCESSED \<Rightarrow> Some st
     | RADIUS_RX_QUEUED \<Rightarrow> Some st
     | RADIUS_RX_UNKNOWN \<Rightarrow> run_handlers env n msg req st)"

definition Radius_client_receive_data :: "apd_env \<Rightarrow> u8 list \<Rightarrow> rtapd \<Rightarrow> rtapd option" where
  "Radius_client_receive_data env data st =
     (if length data = 3000 then Some st
      else Option.bind (Radius_msg_parse data) (\<lambda>r. case r of
        None \<Rightarrow> Some st
      | Some msg \<Rightarrow>
          Option.bind (hdr_identifier msg) (\<lambda>j.
          Option.bind (take_request j (msgs st)) (\<lambda>r. case r of
            None \<Rightarrow> Some st
          | Some (req, rest) \<Rightarrow>
              run_handlers env (num_auth_handlers st) msg req
                (st\<lparr>msgs := rest, num_msgs := dec_size (num_msgs st)\<rparr>)))))"

section \<open>Retransmission\<close>

definition Radius_client_flush :: "rtapd \<Rightarrow> rtapd" where
  "Radius_client_flush st = (cancel_timer Client_timer Null_ctx st)\<lparr>msgs := [], num_msgs := 0\<rparr>"

definition reset_entry :: "radius_msg_list \<Rightarrow> radius_msg_list" where
  "reset_entry e = e\<lparr>next_try := first_try e + RADIUS_CLIENT_FIRST_WAIT, attempts := 0,
     next_wait := RADIUS_CLIENT_FIRST_WAIT * 2\<rparr>"

definition Radius_change_server ::
  "apd_env \<Rightarrow> hostapd_radius_server \<Rightarrow> hostapd_radius_server option \<Rightarrow> rtapd \<Rightarrow> rtapd option" where
  "Radius_change_server env nserv oserv st =
     (let st =
        (if oserv = None \<or> secret_bytes (shared_secret nserv) \<noteq> secret_bytes (shared_secret (the oserv))
         then Radius_client_flush st
         else
           let st = st\<lparr>msgs := map reset_entry (msgs st)\<rparr> in
           if msgs st = [] then st
           else set_timer env (word_of_int RADIUS_CLIENT_FIRST_WAIT) Client_timer Null_ctx (cancel_timer Client_timer Null_ctx st))
      in map_option (\<lambda>srv. st\<lparr>peer := (srv_addr nserv, srv_port srv)\<rparr>) (current_server st))"

text \<open>The entry afterwards, and whether it is removed.\<close>

definition Radius_client_retransmit :: "int \<Rightarrow> radius_msg_list \<Rightarrow> bool \<times> radius_msg_list" where
  "Radius_client_retransmit tnow e =
     (let w = (if next_wait e * 2 > RADIUS_CLIENT_MAX_WAIT then RADIUS_CLIENT_MAX_WAIT else next_wait e * 2);
          e' = e\<lparr>attempts := attempts e + 1, next_try := tnow + next_wait e, next_wait := w\<rparr>
      in (attempts e' \<ge> RADIUS_CLIENT_MAX_RETRIES, e'))"

text \<open>The loop of the timer: the entries kept, the datagrams sent, the number removed, the failovers and the first time.\<close>

fun timer_loop :: "int \<Rightarrow> int \<Rightarrow> radius_msg_list list \<Rightarrow> radius_msg_list list \<times> u8 list list \<times> nat \<times> nat \<times> int" where
  "timer_loop tnow first [] = ([], [], 0, 0, first)"
| "timer_loop tnow first (e # es) =
     (let due = tnow \<ge> next_try e;
          (gone, e') = (if due then Radius_client_retransmit tnow e else (False, e));
          out = (if due then [take (buf_used (req_msg e)) (buf (req_msg e))] else [])
      in if gone
         then let (kept, sent, n, fo, f) = timer_loop tnow first es in (kept, out @ sent, n + 1, fo, f)
         else
           let first' = (if first = 0 \<or> next_try e' < first then next_try e' else first);
               (kept, sent, n, fo, f) = timer_loop tnow first' es
           in (e' # kept, out @ sent, n, fo + (if attempts e' > RADIUS_CLIENT_NUM_FAILOVER then 1 else 0), f))"

definition Radius_client_timer :: "apd_env \<Rightarrow> rtapd \<Rightarrow> rtapd option" where
  "Radius_client_timer env st =
     (if msgs st = [] then Some st
      else
        let (kept, sent, n, failover, first) = timer_loop (time_now env) 0 (msgs st);
            st = st\<lparr>msgs := kept, net := net st @ sent, num_msgs := (dec_size ^^ n) (num_msgs st)\<rparr>;
            first = (if first < time_now env then time_now env else first);
            st = (if kept \<noteq> [] then set_timer env (word_of_int (first - time_now env)) Client_timer Null_ctx st else st)
        in if failover > 0 \<and> length (auth_servers (conf st)) > 1
           then
             Option.bind (current_server st) (\<lambda>old.
             let next = (if auth_server (conf st) + 1 > length (auth_servers (conf st)) - 1 then 0 else auth_server (conf st) + 1) in
               Radius_change_server env (auth_servers (conf st) ! next) (Some old)
                 (st\<lparr>conf := (conf st)\<lparr>auth_server := next\<rparr>\<rparr>))
           else Some st)"

definition Radius_retry_primary_timer :: "apd_env \<Rightarrow> rtapd \<Rightarrow> rtapd option" where
  "Radius_retry_primary_timer env st =
     Option.bind
       (if auth_serv_sock st \<ge> 0 \<and> auth_servers (conf st) \<noteq> [] \<and> auth_server (conf st) \<noteq> 0
        then Option.bind (current_server st) (\<lambda>old.
               Radius_change_server env (hd (auth_servers (conf st))) (Some old) (st\<lparr>conf := (conf st)\<lparr>auth_server := 0\<rparr>\<rparr>))
        else Some st)
       (\<lambda>st. Some (if radius_retry_primary_interval (conf st) \<noteq> 0
          then set_timer env (radius_retry_primary_interval (conf st)) Retry_primary_timer Null_ctx st else st))"

section \<open>Start, reload and end\<close>

text \<open>\<open>sock\<close> is the result of \<open>socket\<close>; the returned flag is success.\<close>

definition Radius_client_init_auth :: "apd_env \<Rightarrow> int \<Rightarrow> rtapd \<Rightarrow> (bool \<times> rtapd) option" where
  "Radius_client_init_auth env sock st =
     (if sock < 0 then Some (False, st\<lparr>auth_serv_sock := sock\<rparr>)
      else Option.bind (current_server st) (\<lambda>srv.
        map_option (\<lambda>st. (True, st\<lparr>readers := eloop_register_read_sock sock Radius_client_receive (readers st)\<rparr>))
          (Radius_change_server env srv None (st\<lparr>auth_serv_sock := sock\<rparr>))))"

definition Radius_client_init :: "apd_env \<Rightarrow> int \<Rightarrow> rtapd \<Rightarrow> (bool \<times> rtapd) option" where
  "Radius_client_init env sock st =
     (if auth_serv_sock st < 0
      then
        Option.bind (if auth_servers (conf st) \<noteq> [] then Radius_client_init_auth env sock st else Some (True, st)) (\<lambda>(ok, st).
          if \<not> ok then Some (False, st)
          else Some (True, if radius_retry_primary_interval (conf st) \<noteq> 0
             then set_timer env (radius_retry_primary_interval (conf st)) Retry_primary_timer Null_ctx st else st))
      else Some (True, st))"

definition Radius_client_deinit :: "rtapd \<Rightarrow> rtapd" where
  "Radius_client_deinit st = Radius_client_flush (cancel_timer Retry_primary_timer Null_ctx st)"

text \<open>SIGHUP and SIGUSR1; \<open>newconf\<close> is what \<open>Config_read\<close> returns.\<close>

definition Handle_usr1 :: "apd_env \<Rightarrow> rtapd_config option \<Rightarrow> int \<Rightarrow> rtapd \<Rightarrow> rtapd option" where
  "Handle_usr1 env newconf sock st =
     (case newconf of
        None \<Rightarrow> Some st
      | Some c \<Rightarrow>
          Option.bind (Apd_free_stas ((Radius_client_flush st)\<lparr>conf := c\<rparr>)) (\<lambda>st.
            map_option snd (Radius_client_init env sock st)))"

text \<open>\<open>file_ok\<close>: the configuration file can be opened and read.\<close>

definition Handle_term :: "bool \<Rightarrow> rtapd \<Rightarrow> rtapd" where
  "Handle_term file_ok st = (if file_ok then st\<lparr>terminate := True\<rparr> else st)"

text \<open>
  The daemon as \<open>Apd_init\<close> and \<open>Apd_setup_interface\<close> leave it when they succeed: \<open>ss\<close> are the packet
  sockets, \<open>rs\<close> is the RADIUS socket.
\<close>

definition apd_zero :: "rtapd_config \<Rightarrow> u8 list \<Rightarrow> int list \<Rightarrow> rtapd" where
  "apd_zero c mac ss =
     \<lparr>conf = c, own_addr = mac, socks = ss, stas = (\<lambda>_. None), next_sta = 0, sta_list = [], sta_hash = (\<lambda>_. []),
      num_sta = 0, sta_aid = (\<lambda>_. None), auth_serv_sock = - 1, num_auth_handlers = 0, msgs = [], num_msgs = 0,
      next_radius_identifier = 0, timeouts = [], readers = map (\<lambda>s. \<lparr>sock_fd = s, sock_handler = Handle_read\<rparr>) ss,
      terminate = False, driver = [], net = [], peer = (0, 0)\<rparr>"

definition apd_setup :: "apd_env \<Rightarrow> rtapd_config \<Rightarrow> u8 list \<Rightarrow> int list \<Rightarrow> int \<Rightarrow> rtapd option" where
  "apd_setup env c mac ss rs =
     Option.bind (Radius_client_init env rs (apd_zero c mac ss)) (\<lambda>(ok, st).
       if ok then Some (st\<lparr>num_auth_handlers := num_auth_handlers st + 1\<rparr>) else None)"

text \<open>What \<open>main\<close> does when the loop has ended, up to the sockets and the configuration it releases.\<close>

definition apd_end :: "rtapd \<Rightarrow> rtapd option" where
  "apd_end st = map_option Radius_client_deinit (Apd_free_stas st)"

section \<open>The event loop\<close>

text \<open>
  What \<open>recv\<close> gives: bytes, with what the buffer holds behind them, or an error, on which
  \<open>Handle_read\<close> ends the daemon if the configuration file can be written.
\<close>

datatype recv_result = Recv "u8 list" "u8 list" | Recv_error bool

definition run_timer :: "apd_env \<Rightarrow> (timer_handler, ctx) eloop_timeout \<Rightarrow> rtapd \<Rightarrow> rtapd option" where
  "run_timer env t st =
     (case (timeout_handler t, user_data t) of
        (Port_timers_tick, Sta i) \<Rightarrow> run_sm env i eapol_port_timers_tick st
      | (Handle_session_timer, Sta i) \<Rightarrow> Ap_handle_session_timer env i st
      | (Client_timer, _) \<Rightarrow> Radius_client_timer env st
      | (Retry_primary_timer, _) \<Rightarrow> Radius_retry_primary_timer env st
      | _ \<Rightarrow> None)"

fun run_reader :: "apd_env \<Rightarrow> int \<Rightarrow> read_handler \<Rightarrow> recv_result \<Rightarrow> rtapd \<Rightarrow> rtapd option" where
  "run_reader env s Handle_read (Recv bytes rest) st = Handle_read_frame env s (bytes @ rest) (length bytes) st"
| "run_reader env s Handle_read (Recv_error file_ok) st = Some (Handle_term file_ok st)"
| "run_reader env s Radius_client_receive (Recv bytes rest) st = Radius_client_receive_data env bytes st"
| "run_reader env s Radius_client_receive (Recv_error file_ok) st = Some st"

text \<open>\<open>ready\<close> tells which sockets \<open>select\<close> has found readable, and what they give.\<close>

fun run_readers :: "apd_env \<Rightarrow> (int \<Rightarrow> recv_result option) \<Rightarrow> read_handler eloop_sock list \<Rightarrow> rtapd \<Rightarrow> rtapd option" where
  "run_readers env ready [] st = Some st"
| "run_readers env ready (r # rs) st =
     (case ready (sock_fd r) of
        None \<Rightarrow> run_readers env ready rs st
      | Some d \<Rightarrow> Option.bind (run_reader env (sock_fd r) (sock_handler r) d st) (run_readers env ready rs))"

definition eloop_pass :: "apd_env \<Rightarrow> (int \<Rightarrow> recv_result option) \<Rightarrow> rtapd \<Rightarrow> rtapd option" where
  "eloop_pass env ready st =
     (if terminate st \<or> (timeouts st = [] \<and> readers st = []) then Some st
      else
        Option.bind (case eloop_due (now env) (timeouts st) of
            None \<Rightarrow> Some st
          | Some (t, ts) \<Rightarrow> run_timer env t (st\<lparr>timeouts := ts\<rparr>))
          (\<lambda>st. run_readers env ready (readers st) st))"

text \<open>
  The life of the daemon: passes of the loop, and signals between them: SIGHUP or SIGUSR1 with the
  new configuration, SIGINT or SIGTERM.
\<close>

datatype apd_event =
    Pass apd_env "int \<Rightarrow> recv_result option"
  | Reload apd_env "rtapd_config option" int
  | Term bool

fun apd_step :: "apd_event \<Rightarrow> rtapd \<Rightarrow> rtapd option" where
  "apd_step (Pass env ready) st = eloop_pass env ready st"
| "apd_step (Reload env c sock) st = Handle_usr1 env c sock st"
| "apd_step (Term file_ok) st = Some (Handle_term file_ok st)"

fun apd_run :: "apd_event list \<Rightarrow> rtapd \<Rightarrow> rtapd option" where
  "apd_run [] st = Some st"
| "apd_run (e # es) st = Option.bind (apd_step e st) (apd_run es)"

end
