(* ===== verification/Radius_Props.thy ===== *)
theory Radius_Props
  imports Radius_Msg
begin

text \<open>
  What a RADIUS message buffer holds: the attributes of the model against the bytes. Every operation
  keeps the correspondence, parsing establishes it.
\<close>

section \<open>Attributes\<close>

record radius_attr =
  at_type :: u8
  at_data :: "u8 list"

definition attr_bytes :: "radius_attr \<Rightarrow> u8 list" where
  "attr_bytes a = [at_type a, word_of_nat (2 + length (at_data a))] @ at_data a"

definition attr_ok :: "radius_attr \<Rightarrow> bool" where
  "attr_ok a \<longleftrightarrow> length (at_data a) \<le> RADIUS_MAX_ATTR_LEN"

definition dec_attr :: "u8 list \<Rightarrow> (radius_attr \<times> u8 list) option" where
  "dec_attr bs =
     (case bs of
        t # l # r \<Rightarrow>
          if unat l < 2 \<or> length r < unat l - 2 then None
          else Some (\<lparr>at_type = t, at_data = take (unat l - 2) r\<rparr>, drop (unat l - 2) r)
      | _ \<Rightarrow> None)"

lemma unat_attr_len: "n \<le> 253 \<Longrightarrow> unat (word_of_nat (2 + n) :: u8) = 2 + n"
proof -
  have small: "unat (word_of_nat k :: u8) = k" if "k < 256" for k
    using that by (simp add: unat_of_nat take_bit_nat_eq_self)
  show "n \<le> 253 \<Longrightarrow> unat (word_of_nat (2 + n) :: u8) = 2 + n" by (rule small) simp
qed

lemma length_attr_bytes [simp]: "length (attr_bytes a) = 2 + length (at_data a)"
  by (simp add: attr_bytes_def)

interpretation radius: tlv_codec attr_bytes dec_attr attr_ok
proof
  fix a r assume "attr_ok a"
  then show "dec_attr (attr_bytes a @ r) = Some (a, r)"
    using unat_attr_len [of "length (at_data a)"] by (simp add: attr_ok_def attr_bytes_def dec_attr_def RADIUS_MAX_ATTR_LEN_def del: of_nat_add)
next
  fix a show "attr_bytes a \<noteq> []" by (simp add: attr_bytes_def)
next
  fix bs a r assume d: "dec_attr bs = Some (a, r)"
  then obtain t l r' where bs: "bs = t # l # r'" by (auto simp: dec_attr_def split: list.splits)
  then have l: "2 \<le> unat l" "unat l - 2 \<le> length r'" "a = \<lparr>at_type = t, at_data = take (unat l - 2) r'\<rparr>" "r = drop (unat l - 2) r'"
    using d by (auto simp: dec_attr_def split: if_splits)
  have "unat l - 2 \<le> 253" using unat_u8_lt [of l] by linarith
  moreover have "(word_of_nat (2 + (unat l - 2)) :: u8) = l" using l(1) by (simp del: of_nat_add)
  ultimately show "attr_ok a \<and> bs = attr_bytes a @ r"
    using l bs by (simp add: attr_ok_def attr_bytes_def RADIUS_MAX_ATTR_LEN_def min_absorb2 del: of_nat_add)
qed

section \<open>Attributes in a buffer\<close>

text \<open>The bytes of \<open>as\<close> are at \<open>n\<close> in \<open>b\<close>; their offsets.\<close>

definition holds_at :: "u8 list \<Rightarrow> nat \<Rightarrow> radius_attr list \<Rightarrow> bool" where
  "holds_at b n as \<longleftrightarrow> n + length (encs attr_bytes as) \<le> length b \<and>
     take (length (encs attr_bytes as)) (drop n b) = encs attr_bytes as"

fun offsets :: "nat \<Rightarrow> radius_attr list \<Rightarrow> nat list" where
  "offsets n [] = []"
| "offsets n (a # as) = n # offsets (n + 2 + length (at_data a)) as"

lemma length_offsets [simp]: "length (offsets n as) = length as"
  by (induction as arbitrary: n) simp_all

lemma offsets_append: "offsets n (as @ bs) = offsets n as @ offsets (n + length (encs attr_bytes as)) bs"
  by (induction as arbitrary: n) (simp_all add: add.assoc)

lemma holds_at_Nil [simp]: "holds_at b n [] \<longleftrightarrow> n \<le> length b"
  by (simp add: holds_at_def)

lemma holds_at_append:
  "holds_at b n (as @ bs) \<longleftrightarrow> holds_at b n as \<and> holds_at b (n + length (encs attr_bytes as)) bs"
  by (auto simp: holds_at_def take_add add.commute)

lemma holds_at_Cons: "holds_at b n (a # as) \<longleftrightarrow> holds_at b n [a] \<and> holds_at b (n + 2 + length (at_data a)) as"
  using holds_at_append [of b n "[a]" as] by (simp add: add.assoc)

lemma holds_at_one:
  assumes "holds_at b n [a]"
  shows "rd b n = Some (at_type a)" "rd b (n + 1) = Some (word_of_nat (2 + length (at_data a)))"
    "rd_bytes b (n + 2) (length (at_data a)) = Some (at_data a)" "n + 2 + length (at_data a) \<le> length b"
proof -
  have bd: "n + 2 + length (at_data a) \<le> length b" and t: "take (2 + length (at_data a)) (drop n b) = attr_bytes a"
    using assms by (simp_all add: holds_at_def)
  have at: "b ! (n + i) = attr_bytes a ! i" if "i < 2 + length (at_data a)" for i
    using that bd arg_cong [OF t, of "\<lambda>x. x ! i"] by simp
  show "rd b n = Some (at_type a)" "rd b (n + 1) = Some (word_of_nat (2 + length (at_data a)))"
    using bd at [of 0] at [of 1] by (simp_all add: attr_bytes_def)
  have "drop 2 (take (2 + length (at_data a)) (drop n b)) = at_data a" unfolding t by (simp add: attr_bytes_def)
  then show "rd_bytes b (n + 2) (length (at_data a)) = Some (at_data a)" using bd by (simp add: drop_take add.commute)
  show "n + 2 + length (at_data a) \<le> length b" by (rule bd)
qed

lemma attr_value_at:
  assumes "holds_at b n [a]" "attr_ok a" shows "attr_value b n = Some (at_data a)"
  using holds_at_one [OF assms(1)] assms(2) unat_attr_len [of "length (at_data a)"]
  by (simp add: attr_value_def attr_ok_def RADIUS_MAX_ATTR_LEN_def del: of_nat_add)

text \<open>The message holds these attributes.\<close>

definition msg_holds :: "radius_msg \<Rightarrow> radius_attr list \<Rightarrow> bool" where
  "msg_holds m as \<longleftrightarrow> buf_used m \<le> length (buf m) \<and> buf_used m = RADIUS_HDR + length (encs attr_bytes as) \<and>
     holds_at (buf m) RADIUS_HDR as \<and> attrs m = offsets RADIUS_HDR as \<and> length as \<le> attr_size m \<and>
     RADIUS_DEFAULT_ATTR_COUNT \<le> attr_size m \<and> (\<forall>a \<in> set as. attr_ok a)"

section \<open>Building\<close>

lemma wr_bytes_in: "i + length d \<le> length b \<Longrightarrow> wr_bytes b i d = Some (take i b @ d @ drop (i + length d) b)"
  by (simp add: wr_bytes_def)

lemma holds_at_cong:
  assumes "take (length (encs attr_bytes as)) (drop n b') = take (length (encs attr_bytes as)) (drop n b)" "length b \<le> length b'"
  shows "holds_at b n as \<Longrightarrow> holds_at b' n as"
  using assms by (auto simp: holds_at_def)

lemma grow_enough:
  assumes "0 < n"
  obtains m where "grow n needed = Some m" "needed \<le> m" "n \<le> m"
  using assms
proof (induction "needed - n" arbitrary: n thesis rule: less_induct)
  case less
  show ?case
  proof (cases "n < needed")
    case True
    then have "needed - n * 2 < needed - n" using less.prems(2) by simp
    then obtain m where "grow (n * 2) needed = Some m" "needed \<le> m" "n * 2 \<le> m"
      using less.hyps [of "n * 2"] less.prems(2) by auto
    then show ?thesis using less.prems(1) [of m] True by (simp add: grow.simps [of n])
  next
    case False
    then show ?thesis using less.prems(1) [of n] by (simp add: grow.simps [of n])
  qed
qed

lemma make_room_enough:
  assumes "0 < length (buf m)"
  obtains pad where "make_room needed m = Some (m\<lparr>buf := buf m @ replicate pad 0\<rparr>)" "needed \<le> length (buf m) + pad"
proof (cases "length (buf m) < needed")
  case True
  obtain n where "grow (length (buf m)) needed = Some n" "needed \<le> n" "length (buf m) \<le> n"
    by (rule grow_enough [OF assms])
  then show thesis using that [of "n - length (buf m)"] True by (simp add: make_room_def)
next
  case False
  then show thesis using that [of 0] by (simp add: make_room_def)
qed

lemma add_to_array:
  assumes "length (attrs m) \<le> attr_size m" "RADIUS_DEFAULT_ATTR_COUNT \<le> attr_size m"
  obtains k where "Radius_msg_add_attr_to_array a m = Some (m\<lparr>attr_size := k, attrs := attrs m @ [a]\<rparr>)"
    "length (attrs m) + 1 \<le> k" "RADIUS_DEFAULT_ATTR_COUNT \<le> k"
proof (cases "length (attrs m) \<ge> attr_size m")
  case True
  then have "length (attrs m) < attr_size m * 2" "attr_size m = length (attrs m)"
    using assms unfolding RADIUS_DEFAULT_ATTR_COUNT_def by linarith+
  then show thesis using True assms that [of "attr_size m * 2"]
    by (cases "attrs m") (simp_all add: Radius_msg_add_attr_to_array_def RADIUS_DEFAULT_ATTR_COUNT_def)
next
  case False
  then show thesis using assms that [of "attr_size m"] by (simp add: Radius_msg_add_attr_to_array_def)
qed

lemma add_attr_holds:
  assumes m: "msg_holds m as" and d: "length d \<le> RADIUS_MAX_ATTR_LEN"
  obtains m' where "Radius_msg_add_attr ty d m = Some (Some (buf_used m), m')"
    "msg_holds m' (as @ [\<lparr>at_type = ty, at_data = d\<rparr>])" "take (buf_used m) (buf m') = take (buf_used m) (buf m)"
    "buf_used m' = buf_used m + 2 + length d"
proof -
  let ?a = "\<lparr>at_type = ty, at_data = d\<rparr>"
  have h: "buf_used m \<le> length (buf m)" "buf_used m = RADIUS_HDR + length (encs attr_bytes as)" "holds_at (buf m) RADIUS_HDR as"
    "attrs m = offsets RADIUS_HDR as" "length (attrs m) \<le> attr_size m" "RADIUS_DEFAULT_ATTR_COUNT \<le> attr_size m"
    "\<forall>a \<in> set as. attr_ok a"
    using m by (simp_all add: msg_holds_def)
  have "0 < length (buf m)" using h(1,2) unfolding RADIUS_HDR_def by linarith
  then obtain pad where room: "make_room (buf_used m + 2 + length d) m = Some (m\<lparr>buf := buf m @ replicate pad 0\<rparr>)"
    "buf_used m + 2 + length d \<le> length (buf m) + pad"
    by (rule make_room_enough)
  define b where "b = take (buf_used m) (buf m) @ attr_bytes ?a @ drop (buf_used m + 2 + length d) (buf m @ replicate pad 0)"
  have wr: "wr_bytes (buf m @ replicate pad 0) (buf_used m) ([ty, word_of_nat (2 + length d)] @ d) = Some b"
    using room(2) h(1) by (simp add: wr_bytes_in b_def attr_bytes_def)
  obtain k where k: "Radius_msg_add_attr_to_array (buf_used m) (m\<lparr>buf := b, buf_used := buf_used m + 2 + length d\<rparr>) =
      Some (m\<lparr>buf := b, buf_used := buf_used m + 2 + length d, attr_size := k, attrs := attrs m @ [buf_used m]\<rparr>)"
    "length (attrs m) + 1 \<le> k" "RADIUS_DEFAULT_ATTR_COUNT \<le> k"
    using add_to_array [of "m\<lparr>buf := b, buf_used := buf_used m + 2 + length d\<rparr>" "buf_used m"] h(5,6) by auto
  define m' where "m' = m\<lparr>buf := b, buf_used := buf_used m + 2 + length d, attr_size := k, attrs := attrs m @ [buf_used m]\<rparr>"
  have run: "Radius_msg_add_attr ty d m = Some (Some (buf_used m), m')"
    using d room(1) wr k(1) by (simp add: Radius_msg_add_attr_def Let_def m'_def)
  have len: "length b = length (buf m) + pad" using room(2) h(1) by (simp add: b_def)
  have pre: "take (buf_used m) b = take (buf_used m) (buf m)" using h(1) by (simp add: b_def)
  have "take (length (encs attr_bytes as)) (drop RADIUS_HDR b) = take (length (encs attr_bytes as)) (drop RADIUS_HDR (buf m))"
    using arg_cong [OF pre, of "drop RADIUS_HDR"] h(2) by (simp add: drop_take)
  then have "holds_at b RADIUS_HDR as" using holds_at_cong h(3) len by simp
  moreover have "holds_at b (buf_used m) [?a]"
    using room(2) h(1) by (simp add: holds_at_def b_def)
  ultimately have "holds_at b RADIUS_HDR (as @ [?a])" using h(2) by (simp add: holds_at_append)
  then have "msg_holds m' (as @ [?a])"
    using h room(2) k(2,3) len d by (simp add: msg_holds_def m'_def offsets_append attr_ok_def)
  then show thesis by (rule that [OF run]) (use pre in \<open>simp_all add: m'_def\<close>)
qed

section \<open>Reading\<close>

text \<open>The reference functions on attribute lists.\<close>

fun first_at :: "u8 \<Rightarrow> nat \<Rightarrow> radius_attr list \<Rightarrow> nat option" where
  "first_at ty n [] = None"
| "first_at ty n (a # as) = (if at_type a = ty then Some n else first_at ty (n + 2 + length (at_data a)) as)"

definition attr_of :: "u8 \<Rightarrow> radius_attr list \<Rightarrow> u8 list option" where
  "attr_of ty as = map_option at_data (find (\<lambda>a. at_type a = ty) as)"

definition eap_of :: "radius_attr list \<Rightarrow> u8 list" where
  "eap_of as = concat (map at_data (filter (\<lambda>a. at_type a = RADIUS_ATTR_EAP_MESSAGE) as))"

lemma find_attr_holds:
  assumes "holds_at b n as" "\<forall>a \<in> set as. attr_ok a"
  shows "find_attr b ty (offsets n as) = Some (first_at ty n as)"
    "map_option (attr_value b) (first_at ty n as) = map_option Some (attr_of ty as)"
proof -
  have "find_attr b ty (offsets n as) = Some (first_at ty n as) \<and>
    map_option (attr_value b) (first_at ty n as) = map_option Some (attr_of ty as)"
    using assms
  proof (induction as arbitrary: n)
    case (Cons a as)
    then have h: "holds_at b n [a]" "holds_at b (n + 2 + length (at_data a)) as" using holds_at_Cons by blast+
    show ?case using Cons.IH [OF h(2)] Cons.prems(2) holds_at_one(1) [OF h(1)] attr_value_at [OF h(1)]
      by (simp add: attr_of_def)
  qed (simp add: attr_of_def)
  then show "find_attr b ty (offsets n as) = Some (first_at ty n as)"
    "map_option (attr_value b) (first_at ty n as) = map_option Some (attr_of ty as)" by simp_all
qed

lemma find_attr_msg:
  assumes "msg_holds m as"
  obtains "attr_of ty as = None" "find_attr (buf m) ty (attrs m) = Some None"
  | a d where "attr_of ty as = Some d" "find_attr (buf m) ty (attrs m) = Some (Some a)" "attr_value (buf m) a = Some d"
proof -
  have h: "holds_at (buf m) RADIUS_HDR as" "\<forall>a \<in> set as. attr_ok a" "attrs m = offsets RADIUS_HDR as"
    using assms by (simp_all add: msg_holds_def)
  show thesis
    using find_attr_holds [OF h(1,2), of ty] that h(3) by (cases "attr_of ty as"; cases "first_at ty RADIUS_HDR as") auto
qed

lemma get_attr_holds:
  assumes "msg_holds m as"
  shows "Radius_msg_get_attr m ty dst = Some (case attr_of ty as of None \<Rightarrow> (- 1, dst)
     | Some v \<Rightarrow> (int (length v), take (length dst) v @ drop (length v) dst))"
  by (rule find_attr_msg [OF assms, of ty]) (simp_all add: Radius_msg_get_attr_def)

lemma eap_fragments_holds:
  "holds_at b n as \<Longrightarrow> \<forall>a \<in> set as. attr_ok a \<Longrightarrow> eap_fragments b (offsets n as) = Some (eap_of as)"
proof (induction as arbitrary: n)
  case (Cons a as)
  then have h: "holds_at b n [a]" "holds_at b (n + 2 + length (at_data a)) as" using holds_at_Cons by blast+
  show ?case using Cons.IH [OF h(2)] Cons.prems(2) holds_at_one(1) [OF h(1)] attr_value_at [OF h(1)]
    by (simp add: eap_of_def)
qed (simp add: eap_of_def)

lemma get_eap_holds:
  "msg_holds m as \<Longrightarrow> Radius_msg_get_eap m = Some (if eap_of as = [] then None else Some (eap_of as))"
  by (auto simp: msg_holds_def Radius_msg_get_eap_def eap_fragments_holds)

fun authenticators :: "nat \<Rightarrow> radius_attr list \<Rightarrow> nat list" where
  "authenticators n [] = []"
| "authenticators n (a # as) =
     (if at_type a = RADIUS_ATTR_MESSAGE_AUTHENTICATOR then [n] else []) @ authenticators (n + 2 + length (at_data a)) as"

lemma find_authenticator_holds:
  "holds_at b n as \<Longrightarrow> find_authenticator b (offsets n as) at =
    (case (case at of None \<Rightarrow> [] | Some x \<Rightarrow> [x]) @ authenticators n as of [] \<Rightarrow> Some (Some None) | [x] \<Rightarrow> Some (Some (Some x)) | _ \<Rightarrow> Some None)"
proof (induction as arbitrary: n at)
  case (Cons a as)
  then have h: "holds_at b n [a]" "holds_at b (n + 2 + length (at_data a)) as" using holds_at_Cons by blast+
  show ?case using Cons.IH [OF h(2)] holds_at_one(1) [OF h(1)]
    by (auto split: option.splits list.splits)
qed (simp split: option.splits)

section \<open>Parsing\<close>

definition parsed :: "nat \<Rightarrow> radius_msg \<Rightarrow> u8 list \<Rightarrow> bool" where
  "parsed pos m bs \<longleftrightarrow>
     (case decs dec_attr bs of
        None \<Rightarrow> parse_attrs pos m = Some None
      | Some as \<Rightarrow> \<exists>k. parse_attrs pos m = Some (Some (m\<lparr>attrs := attrs m @ offsets pos as, attr_size := k\<rparr>)) \<and>
          length (attrs m) + length as \<le> k \<and> RADIUS_DEFAULT_ATTR_COUNT \<le> k)"

lemma decs_attr_step:
  assumes "pos + 2 \<le> n" "n \<le> length b" "l = unat (b ! (pos + 1))"
  shows "decs dec_attr (drop pos (take n b)) =
    (if pos + l > n \<or> l < 2 then None
     else map_option (Cons \<lparr>at_type = b ! pos, at_data = take (l - 2) (drop (pos + 2) (take n b))\<rparr>)
       (decs dec_attr (drop (pos + l) (take n b))))"
proof -
  define r where "r = drop (pos + 2) (take n b)"
  have "drop pos (take n b) = b ! pos # drop (Suc pos) (take n b)"
    using drop_nonempty_nth [of pos "take n b"] assms by simp
  moreover have "drop (Suc pos) (take n b) = b ! (pos + 1) # r"
    using drop_nonempty_nth [of "Suc pos" "take n b"] assms by (simp add: r_def)
  ultimately have bs: "drop pos (take n b) = b ! pos # b ! (pos + 1) # r" by simp
  have lr: "length r = n - (pos + 2)" using assms by (simp add: r_def)
  show ?thesis
  proof (cases "pos + l > n \<or> l < 2")
    case True
    then have "dec_attr (b ! pos # b ! (pos + 1) # r) = None" using lr assms by (auto simp: dec_attr_def)
    then show ?thesis using True by (simp add: bs decs.simps)
  next
    case False
    then have "l - 2 + (pos + 2) = pos + l" by linarith
    then have rest: "drop (l - 2) r = drop (pos + l) (take n b)" by (simp only: r_def drop_drop)
    have dec: "dec_attr (b ! pos # b ! (pos + 1) # r) = Some (\<lparr>at_type = b ! pos, at_data = take (l - 2) r\<rparr>, drop (l - 2) r)"
    proof -
      have "2 \<le> l" "l - 2 \<le> length r" using False unfolding lr by linarith+
      then show ?thesis unfolding assms(3) by (simp add: dec_attr_def)
    qed
    have "length (drop (l - 2) r) < length (b ! pos # b ! (pos + 1) # r)" by simp
    then show ?thesis using False dec unfolding bs r_def [symmetric] rest [symmetric] by (subst decs.simps) simp
  qed
qed

lemma parse_attrs_parsed:
  assumes "buf_used m \<le> length (buf m)" "pos \<le> buf_used m" "length (attrs m) \<le> attr_size m" "RADIUS_DEFAULT_ATTR_COUNT \<le> attr_size m"
  shows "parsed pos m (drop pos (take (buf_used m) (buf m)))"
  using assms
proof (induction pos m rule: parse_attrs.induct)
  case (1 pos m)
  let ?bs = "drop pos (take (buf_used m) (buf m))"
  have bd: "buf_used m \<le> length (buf m)" "pos \<le> buf_used m" using 1(2,3) by simp_all
  consider (stop) "pos = buf_used m" | (short) "pos + 1 = buf_used m" | (two) "pos + 2 \<le> buf_used m"
    using 1(3) by linarith
  then show ?case
  proof cases
    case stop
    then have "parse_attrs pos m = Some (Some (m\<lparr>attr_size := attr_size m\<rparr>))" by (subst parse_attrs.simps) simp
    then show ?thesis using 1(4,5) stop unfolding parsed_def by (simp, intro exI [of _ "attr_size m"]) simp
  next
    case short
    then have "length ?bs = 1" using bd by simp
    then obtain x where "?bs = [x]" by (cases ?bs) simp_all
    then show ?thesis using short by (simp add: parsed_def parse_attrs.simps [of pos m] decs.simps [of dec_attr "[x]"] dec_attr_def)
  next
    case two
    define l where "l = buf m ! (pos + 1)"
    note step = decs_attr_step [OF two bd(1), of "unat l", unfolded l_def, OF refl, folded l_def]
    have rd: "rd (buf m) (pos + 1) = Some l" "\<not> buf_used m - pos < 2" "pos < buf_used m"
      using two bd by (simp_all add: l_def)
    show ?thesis
    proof (cases "pos + unat l > buf_used m \<or> unat l < 2")
      case True
      then have "parse_attrs pos m = Some None" using rd by (subst parse_attrs.simps) auto
      then show ?thesis using True step by (simp add: parsed_def)
    next
      case False
      obtain k where k: "Radius_msg_add_attr_to_array pos m = Some (m\<lparr>attr_size := k, attrs := attrs m @ [pos]\<rparr>)"
        "length (attrs m) + 1 \<le> k" "RADIUS_DEFAULT_ATTR_COUNT \<le> k"
        by (rule add_to_array [OF 1(4,5)])
      define m1 where "m1 = m\<lparr>attr_size := k, attrs := attrs m @ [pos]\<rparr>"
      have run: "parse_attrs pos m = parse_attrs (pos + unat l) m1"
        using rd False k(1) by (subst parse_attrs.simps) (simp add: m1_def)
      have "parsed (pos + unat l) m1 (drop (pos + unat l) (take (buf_used m1) (buf m1)))"
        by (rule 1(1)) (use rd two False k bd in \<open>simp_all add: m1_def\<close>)
      then have ih: "parsed (pos + unat l) m1 (drop (pos + unat l) (take (buf_used m) (buf m)))" by (simp add: m1_def)
      define a where "a = \<lparr>at_type = buf m ! pos, at_data = take (unat l - 2) (drop (pos + 2) (take (buf_used m) (buf m)))\<rparr>"
      have "unat l - 2 \<le> buf_used m - (pos + 2)" "2 + (unat l - 2) = unat l" using False by linarith+
      then have "pos + 2 + length (at_data a) = pos + unat l" using bd by (simp add: a_def)
      then have "offsets pos (a # as) = pos # offsets (pos + unat l) as" for as by (simp only: offsets.simps)
      then show ?thesis using ih step [folded a_def] False
        by (auto simp: parsed_def run m1_def simp del: offsets.simps split: option.splits)
    qed
  qed
qed

text \<open>
  A message is parsed when its length field is the length of its header and of complete attributes;
  what follows is cut off.
\<close>

definition wire_attrs :: "u8 list \<Rightarrow> radius_attr list option" where
  "wire_attrs data =
     (if length data < RADIUS_HDR \<or> be16 (data ! 2) (data ! 3) < RADIUS_HDR \<or> be16 (data ! 2) (data ! 3) > length data then None
      else decs dec_attr (drop RADIUS_HDR (take (be16 (data ! 2) (data ! 3)) data)))"

lemma parse_wire:
  shows "case wire_attrs data of
      None \<Rightarrow> Radius_msg_parse data = Some None
    | Some as \<Rightarrow> \<exists>m. Radius_msg_parse data = Some (Some m) \<and> msg_holds m as \<and> buf m = take (be16 (data ! 2) (data ! 3)) data \<and>
        buf_used m = be16 (data ! 2) (data ! 3)"
proof (cases "length data < RADIUS_HDR \<or> be16 (data ! 2) (data ! 3) < RADIUS_HDR \<or> be16 (data ! 2) (data ! 3) > length data")
  case True
  then show ?thesis by (auto simp: wire_attrs_def Radius_msg_parse_def Let_def)
next
  case False
  define n where "n = be16 (data ! 2) (data ! 3)"
  have n: "RADIUS_HDR \<le> n" "n \<le> length data" using False by (simp_all add: n_def)
  define m where "m = \<lparr>buf = take n data, buf_used = n, attrs = [], attr_size = RADIUS_DEFAULT_ATTR_COUNT\<rparr>"
  have run: "Radius_msg_parse data = parse_attrs RADIUS_HDR m"
    using False by (simp add: Radius_msg_parse_def Radius_msg_initialize_def Let_def m_def n_def)
  have p: "parsed RADIUS_HDR m (drop RADIUS_HDR (take n data))"
    using parse_attrs_parsed [of m RADIUS_HDR] n by (simp add: m_def)
  show ?thesis
  proof (cases "decs dec_attr (drop RADIUS_HDR (take n data))")
    case None
    then show ?thesis using p False run by (simp add: wire_attrs_def parsed_def n_def)
  next
    case (Some as)
    then obtain k where k: "parse_attrs RADIUS_HDR m = Some (Some (m\<lparr>attrs := offsets RADIUS_HDR as, attr_size := k\<rparr>))"
      "length as \<le> k" "RADIUS_DEFAULT_ATTR_COUNT \<le> k"
      using p by (auto simp: parsed_def m_def)
    have bs: "drop RADIUS_HDR (take n data) = encs attr_bytes as" "\<forall>a \<in> set as. attr_ok a"
      using radius.decs_sound [OF Some] by simp_all
    moreover have "length (encs attr_bytes as) = n - RADIUS_HDR" using n unfolding bs(1) [symmetric] by simp
    ultimately have "n = RADIUS_HDR + length (encs attr_bytes as)" using n(1) by simp
    then have "msg_holds (m\<lparr>attrs := offsets RADIUS_HDR as, attr_size := k\<rparr>) as"
      using k(2,3) bs n by (simp add: msg_holds_def m_def holds_at_def)
    then show ?thesis
      using k(1) run Some False by (simp add: wire_attrs_def n_def [symmetric]) (simp add: m_def)
  qed
qed

end
