(* ===== verification/Radius_Claims.thy ===== *)
theory Radius_Claims
  imports Radius_Props
begin

text \<open>
  The properties of the RADIUS messages: what is built is parsed back, an answer is accepted if the
  holder of the secret has made it, encrypted values can be opened, and where the code trusts the
  lengths of an answer too much.
\<close>

section \<open>Building a request\<close>

lemma wr_at: "length old = length new \<Longrightarrow> wr_bytes (xs @ old @ ys) (length xs) new = Some (xs @ new @ ys)"
  by (simp add: wr_bytes_def)

lemma new_holds: "\<exists>m. Radius_msg_new code identifier = Some m \<and> msg_holds m [] \<and> take 2 (buf m) = [code, identifier] \<and>
    length (buf m) = RADIUS_DEFAULT_MSG_SIZE \<and> buf_used m = RADIUS_HDR"
  by (simp add: Radius_msg_new_def Radius_msg_initialize_def Radius_msg_set_hdr_def wr_bytes_def msg_holds_def radius_consts)

primrec add_all :: "radius_attr list \<Rightarrow> radius_msg \<Rightarrow> radius_msg option" where
  "add_all [] m = Some m"
| "add_all (a # as) m = Option.bind (Radius_msg_add_attr (at_type a) (at_data a) m) (\<lambda>(r, m). if r = None then None else add_all as m)"

lemma take_shorter: "take n xs = take n ys \<Longrightarrow> k \<le> n \<Longrightarrow> take k xs = take k ys"
  by (metis min.absorb1 take_take)

lemma holds_used: "msg_holds m as \<Longrightarrow> RADIUS_HDR \<le> buf_used m"
  by (simp add: msg_holds_def)

lemma add_all_holds:
  "msg_holds m as \<Longrightarrow> \<forall>a \<in> set bs. attr_ok a \<Longrightarrow>
   \<exists>m'. add_all bs m = Some m' \<and> msg_holds m' (as @ bs) \<and> take RADIUS_HDR (buf m') = take RADIUS_HDR (buf m)"
proof (induction bs arbitrary: m as)
  case (Cons b bs)
  have "length (at_data b) \<le> RADIUS_MAX_ATTR_LEN" using Cons.prems(2) by (simp add: attr_ok_def)
  then obtain m1 where m1: "Radius_msg_add_attr (at_type b) (at_data b) m = Some (Some (buf_used m), m1)"
    "msg_holds m1 (as @ [\<lparr>at_type = at_type b, at_data = at_data b\<rparr>])" "take (buf_used m) (buf m1) = take (buf_used m) (buf m)"
    by (rule add_attr_holds [OF Cons.prems(1)])
  then have "msg_holds m1 (as @ [b])" by (cases b) simp
  from Cons.IH [OF this] obtain m' where "add_all bs m1 = Some m'" "msg_holds m' ((as @ [b]) @ bs)"
    "take RADIUS_HDR (buf m') = take RADIUS_HDR (buf m1)"
    using Cons.prems(2) by auto
  then show ?case using m1(1) take_shorter [OF m1(3) holds_used [OF Cons.prems(1)]] by simp
qed simp

function eap_attrs :: "u8 list \<Rightarrow> radius_attr list" where
  "eap_attrs data =
     (if data = [] then []
      else \<lparr>at_type = RADIUS_ATTR_EAP_MESSAGE, at_data = take RADIUS_MAX_ATTR_LEN data\<rparr> # eap_attrs (drop RADIUS_MAX_ATTR_LEN data))"
  by pat_completeness auto

termination
  by (relation "measure length") (auto simp: RADIUS_MAX_ATTR_LEN_def)

declare eap_attrs.simps [simp del]

lemma eap_attrs_Nil [simp]: "eap_attrs [] = []"
  by (simp add: eap_attrs.simps)

lemma eap_attrs_simps: "eap_of (eap_attrs data) = data" "\<forall>a \<in> set (eap_attrs data). attr_ok a \<and> at_type a = RADIUS_ATTR_EAP_MESSAGE"
proof -
  have "eap_of (eap_attrs data) = data \<and> (\<forall>a \<in> set (eap_attrs data). attr_ok a \<and> at_type a = RADIUS_ATTR_EAP_MESSAGE)"
  proof (induction data rule: eap_attrs.induct)
    case (1 data)
    show ?case
    proof (cases "data = []")
      case False
      then have step: "eap_attrs data = \<lparr>at_type = RADIUS_ATTR_EAP_MESSAGE, at_data = take RADIUS_MAX_ATTR_LEN data\<rparr> #
          eap_attrs (drop RADIUS_MAX_ATTR_LEN data)" by (subst eap_attrs.simps) simp
      have one: "eap_of (a # as) = (if at_type a = RADIUS_ATTR_EAP_MESSAGE then at_data a else []) @ eap_of as" for a as
        by (simp add: eap_of_def)
      show ?thesis using 1 [OF False] by (simp add: step one attr_ok_def)
    qed (simp add: eap_of_def)
  qed
  then show "eap_of (eap_attrs data) = data" "\<forall>a \<in> set (eap_attrs data). attr_ok a \<and> at_type a = RADIUS_ATTR_EAP_MESSAGE"
    by simp_all
qed

lemma add_eap_holds:
  "msg_holds m as \<Longrightarrow>
   \<exists>m'. Radius_msg_add_eap data m = Some (True, m') \<and> msg_holds m' (as @ eap_attrs data) \<and>
     take RADIUS_HDR (buf m') = take RADIUS_HDR (buf m)"
proof (induction data arbitrary: m as rule: eap_attrs.induct)
  case (1 data)
  show ?case
  proof (cases "data = []")
    case False
    define a where "a = \<lparr>at_type = RADIUS_ATTR_EAP_MESSAGE, at_data = take RADIUS_MAX_ATTR_LEN data\<rparr>"
    have "length (take RADIUS_MAX_ATTR_LEN data) \<le> RADIUS_MAX_ATTR_LEN" by simp
    then obtain m1 where m1: "Radius_msg_add_attr RADIUS_ATTR_EAP_MESSAGE (take RADIUS_MAX_ATTR_LEN data) m = Some (Some (buf_used m), m1)"
      "msg_holds m1 (as @ [a])" "take (buf_used m) (buf m1) = take (buf_used m) (buf m)"
      unfolding a_def by (rule add_attr_holds [OF 1(2)])
    obtain m' where "Radius_msg_add_eap (drop RADIUS_MAX_ATTR_LEN data) m1 = Some (True, m')"
      "msg_holds m' ((as @ [a]) @ eap_attrs (drop RADIUS_MAX_ATTR_LEN data))" "take RADIUS_HDR (buf m') = take RADIUS_HDR (buf m1)"
      using 1(1) [OF False m1(2)] by blast
    moreover have "eap_attrs data = a # eap_attrs (drop RADIUS_MAX_ATTR_LEN data)" using False by (simp add: eap_attrs.simps [of data] a_def)
    moreover have "Radius_msg_add_eap data m = Radius_msg_add_eap (drop RADIUS_MAX_ATTR_LEN data) m1"
      using False m1(1) by (subst Radius_msg_add_eap.simps) simp
    ultimately show ?thesis using take_shorter [OF m1(3) holds_used [OF 1(2)]] by simp
  qed (use 1(2) in \<open>simp add: Radius_msg_add_eap.simps\<close>)
qed

lemma holds_bytes:
  assumes "msg_holds m as"
  shows "take (buf_used m) (buf m) = take RADIUS_HDR (buf m) @ encs attr_bytes as"
proof -
  have h: "buf_used m = RADIUS_HDR + length (encs attr_bytes as)"
    "take (length (encs attr_bytes as)) (drop RADIUS_HDR (buf m)) = encs attr_bytes as"
    using assms by (simp_all add: msg_holds_def holds_at_def)
  then show ?thesis by (simp add: take_add)
qed

lemma holds_wire:
  assumes "msg_holds m as" "be16 (buf m ! 2) (buf m ! 3) = buf_used m"
  shows "wire_attrs (take (buf_used m) (buf m)) = Some as"
proof -
  define data where "data = take (buf_used m) (buf m)"
  have h: "buf_used m \<le> length (buf m)" "RADIUS_HDR \<le> buf_used m" "\<forall>a \<in> set as. attr_ok a"
    using assms by (simp_all add: msg_holds_def)
  have "data ! 2 = buf m ! 2" "data ! 3 = buf m ! 3" "length data = buf_used m"
    using h by (simp_all add: data_def RADIUS_HDR_def)
  moreover have "drop RADIUS_HDR data = encs attr_bytes as"
    using holds_bytes [OF assms(1)] h by (simp add: data_def min_def)
  ultimately show ?thesis
    using radius.decs_encs [OF h(3)] h(2) assms(2) by (simp add: wire_attrs_def data_def [symmetric])
qed

text \<open>Writing over a part of the header or over the value of an attribute.\<close>

lemma holds_at_value:
  assumes "holds_at b n [a]" "length d = length (at_data a)"
  obtains b' where "wr_bytes b (n + 2) d = Some b'" "holds_at b' n [a\<lparr>at_data := d\<rparr>]" "length b' = length b"
    "\<And>k. k \<le> n \<Longrightarrow> take k b' = take k b"
proof -
  have bd: "n + 2 + length d \<le> length b" using holds_at_one(4) [OF assms(1)] assms(2) by simp
  define b' where "b' = take (n + 2) b @ d @ drop (n + 2 + length d) b"
  have "take (2 + length (at_data a)) (drop n b) = attr_bytes a" using assms(1) by (simp add: holds_at_def)
  then have "take 2 (take (2 + length (at_data a)) (drop n b)) = take 2 (attr_bytes a)" by (rule arg_cong)
  then have two: "take 2 (drop n b) = take 2 (attr_bytes a)" unfolding take_take min_def by simp
  have "drop n b' = take 2 (drop n b) @ d @ drop (n + 2 + length d) b" using bd by (simp add: b'_def drop_take)
  then have "take (2 + length d) (drop n b') = attr_bytes (a\<lparr>at_data := d\<rparr>)"
    using bd assms(2) unfolding two by (simp add: attr_bytes_def)
  then have "holds_at b' n [a\<lparr>at_data := d\<rparr>]" using bd by (simp add: holds_at_def b'_def)
  moreover have "take k b' = take k b" if "k \<le> n" for k using that bd by (simp add: b'_def)
  moreover have "wr_bytes b (n + 2) d = Some b'" using bd by (simp add: wr_bytes_def b'_def)
  ultimately show thesis using that bd by (simp add: b'_def)
qed

lemma finish_holds:
  assumes m: "msg_holds m as" and fits: "buf_used m + 18 < 65536"
  obtains m' mac where "Radius_msg_finish (Some secret) m = Some m'"
    "msg_holds m' (as @ [\<lparr>at_type = RADIUS_ATTR_MESSAGE_AUTHENTICATOR, at_data = mac\<rparr>])"
    "be16 (buf m' ! 2) (buf m' ! 3) = buf_used m'" "take 2 (buf m') = take 2 (buf m)" "buf_used m' = buf_used m + 18"
proof -
  define z where "z = \<lparr>at_type = RADIUS_ATTR_MESSAGE_AUTHENTICATOR, at_data = replicate MD5_MAC_LEN 0\<rparr>"
  have "length (replicate MD5_MAC_LEN (0 :: u8)) \<le> RADIUS_MAX_ATTR_LEN" by (simp add: radius_consts)
  then obtain m1 where m1: "Radius_msg_add_attr RADIUS_ATTR_MESSAGE_AUTHENTICATOR (replicate MD5_MAC_LEN 0) m = Some (Some (buf_used m), m1)"
    "msg_holds m1 (as @ [z])" "take (buf_used m) (buf m1) = take (buf_used m) (buf m)" "buf_used m1 = buf_used m + 2 + length (replicate MD5_MAC_LEN (0 :: u8))"
    unfolding z_def by (rule add_attr_holds [OF m])
  have used: "buf_used m1 = buf_used m + 18" "buf_used m = RADIUS_HDR + length (encs attr_bytes as)"
    using m1(4) m by (simp_all add: MD5_MAC_LEN_def msg_holds_def)
  define b1 where "b1 = take 2 (buf m1) @ [hi8 (buf_used m1), lo8 (buf_used m1)] @ drop 4 (buf m1)"
  have bd: "buf_used m1 \<le> length (buf m1)" "holds_at (buf m1) RADIUS_HDR (as @ [z])" using m1(2) by (simp_all add: msg_holds_def)
  have len4: "4 \<le> length (buf m1)" using bd(1) used by (simp add: RADIUS_HDR_def)
  have set: "set_length m1 = Some (m1\<lparr>buf := b1\<rparr>)"
    using len4 fits used(1) by (simp add: set_length_def wr_bytes_def b1_def)
  have lb1: "length b1 = length (buf m1)" using len4 by (simp add: b1_def)
  have drop1: "drop RADIUS_HDR b1 = drop RADIUS_HDR (buf m1)" using len4 by (simp add: b1_def RADIUS_HDR_def)
  then have h1: "holds_at b1 RADIUS_HDR (as @ [z])" using bd(2) lb1 by (simp add: holds_at_def)
  then have hz: "holds_at b1 (buf_used m) [z]" using used(2) by (simp add: holds_at_append)
  define mac where "mac = hmac_md5 secret (take (buf_used m1) b1)"
  have "length mac = length (at_data z)" by (simp add: mac_def z_def MD5_MAC_LEN_def)
  from holds_at_value [OF hz this] obtain b2 where b2: "wr_bytes b1 (buf_used m + 2) mac = Some b2"
    "holds_at b2 (buf_used m) [z\<lparr>at_data := mac\<rparr>]" "length b2 = length b1" "\<And>k. k \<le> buf_used m \<Longrightarrow> take k b2 = take k b1"
    by metis
  define m' where "m' = m1\<lparr>buf := b2\<rparr>"
  have run: "Radius_msg_finish (Some secret) m = Some m'"
    using m1(1) set b2(1) by (simp add: Radius_msg_finish_def mac_def m'_def)
  have u: "RADIUS_HDR \<le> buf_used m" "4 \<le> buf_used m" "2 \<le> buf_used m" using used(2) by (simp_all add: RADIUS_HDR_def)
  have "take (length (encs attr_bytes as)) (drop RADIUS_HDR b2) = take (length (encs attr_bytes as)) (drop RADIUS_HDR b1)"
    using arg_cong [OF b2(4) [OF order_refl], of "drop RADIUS_HDR"] used(2) by (simp add: drop_take)
  then have "holds_at b2 RADIUS_HDR as" using holds_at_cong h1 b2(3) by (metis holds_at_append order_refl)
  then have "holds_at b2 RADIUS_HDR (as @ [z\<lparr>at_data := mac\<rparr>])" using b2(2) used(2) by (simp add: holds_at_append)
  then have "msg_holds m' (as @ [z\<lparr>at_data := mac\<rparr>])"
    using m1(2) b2(3) lb1 bd(1) by (simp add: msg_holds_def m'_def offsets_append mac_def attr_ok_def RADIUS_MAX_ATTR_LEN_def) (simp add: z_def MD5_MAC_LEN_def)
  moreover have t4: "take 4 b2 = take 2 (buf m1) @ [hi8 (buf_used m1), lo8 (buf_used m1)]"
    using b2(4) [OF u(2)] len4 by (simp add: b1_def)
  have "b2 ! 2 = take 4 b2 ! 2" "b2 ! 3 = take 4 b2 ! 3" by simp_all
  then have "be16 (b2 ! 2) (b2 ! 3) = buf_used m1" using fits used(1) len4 unfolding t4 by (simp add: nth_append)
  moreover have "take 2 b2 = take 2 (take 4 b2)" by (simp only: take_take) simp
  then have "take 2 b2 = take 2 (buf m1)" using len4 unfolding t4 by (simp add: min_def)
  then have "take 2 b2 = take 2 (buf m)" using take_shorter [OF m1(3) u(3)] by simp
  ultimately show thesis
    by (intro that [OF run, of mac]) (simp_all add: m'_def used z_def)
qed

text \<open>
  C31: what is sent as a RADIUS request is what the other side reads. A message that is created, gets
  any attributes that fit an attribute each, an EAP packet of any length, and is finished with the
  secret, is parsed back from its bytes into the same attributes in the same order, with the EAP
  packet split over attributes and put together again, and a Message-Authenticator at the end.
\<close>

theorem request_parsed_back:
  assumes "\<forall>a \<in> set as. attr_ok a \<and> at_type a \<noteq> RADIUS_ATTR_EAP_MESSAGE" "eap \<noteq> []"
    and "RADIUS_HDR + length (encs attr_bytes (as @ eap_attrs eap)) + 18 < 65536"
  shows "\<exists>m0 m1 m2 m3 p mac. Radius_msg_new code identifier = Some m0 \<and> add_all as m0 = Some m1 \<and>
     Radius_msg_add_eap eap m1 = Some (True, m2) \<and> Radius_msg_finish (Some secret) m2 = Some m3 \<and>
     Radius_msg_parse (take (buf_used m3) (buf m3)) = Some (Some p) \<and> take 2 (buf p) = [code, identifier] \<and>
     msg_holds p (as @ eap_attrs eap @ [\<lparr>at_type = RADIUS_ATTR_MESSAGE_AUTHENTICATOR, at_data = mac\<rparr>]) \<and>
     Radius_msg_get_eap p = Some (Some eap)"
proof -
  obtain m0 where m0: "Radius_msg_new code identifier = Some m0" "msg_holds m0 []" "take 2 (buf m0) = [code, identifier]"
    using new_holds by blast
  obtain m1 where m1: "add_all as m0 = Some m1" "msg_holds m1 as" "take RADIUS_HDR (buf m1) = take RADIUS_HDR (buf m0)"
    using add_all_holds [OF m0(2), of as] assms(1) by auto
  obtain m2 where m2: "Radius_msg_add_eap eap m1 = Some (True, m2)" "msg_holds m2 (as @ eap_attrs eap)"
    "take RADIUS_HDR (buf m2) = take RADIUS_HDR (buf m1)"
    using add_eap_holds [OF m1(2)] by blast
  have "buf_used m2 + 18 < 65536" using m2(2) assms(3) by (simp add: msg_holds_def)
  from finish_holds [OF m2(2) this] obtain m3 mac where m3: "Radius_msg_finish (Some secret) m2 = Some m3"
    "msg_holds m3 ((as @ eap_attrs eap) @ [\<lparr>at_type = RADIUS_ATTR_MESSAGE_AUTHENTICATOR, at_data = mac\<rparr>])"
    "be16 (buf m3 ! 2) (buf m3 ! 3) = buf_used m3" "take 2 (buf m3) = take 2 (buf m2)"
    by metis
  define as' where "as' = as @ eap_attrs eap @ [\<lparr>at_type = RADIUS_ATTR_MESSAGE_AUTHENTICATOR, at_data = mac\<rparr>]"
  have wire: "wire_attrs (take (buf_used m3) (buf m3)) = Some as'" using holds_wire [OF m3(2,3)] by (simp add: as'_def)
  define n where "n = be16 (take (buf_used m3) (buf m3) ! 2) (take (buf_used m3) (buf m3) ! 3)"
  obtain p where p: "Radius_msg_parse (take (buf_used m3) (buf m3)) = Some (Some p)" "msg_holds p as'"
    "buf p = take n (take (buf_used m3) (buf m3))" "buf_used p = n"
    using parse_wire [of "take (buf_used m3) (buf m3)"] wire by (auto simp: n_def)
  have n: "n = buf_used m3" "2 \<le> n"
    using holds_used [OF m3(2)] holds_used [OF p(2)] p(4) m3(3) by (simp_all add: n_def RADIUS_HDR_def)
  have "take 2 (buf p) = [code, identifier]"
  proof -
    have "take 2 (buf p) = take 2 (buf m3)" using n by (simp add: p(3) min_def)
    also have "\<dots> = take 2 (buf m0)"
      using m3(4) take_shorter [OF m2(3), of 2] take_shorter [OF m1(3), of 2] by (simp add: RADIUS_HDR_def)
    finally show ?thesis using m0(3) by simp
  qed
  moreover have "eap_of as' = eap"
  proof -
    have "filter (\<lambda>a. at_type a = RADIUS_ATTR_EAP_MESSAGE) as = []" using assms(1) by (induction as) auto
    then show ?thesis using eap_attrs_simps(1) [of eap]
      by (simp add: as'_def eap_of_def RADIUS_ATTR_MESSAGE_AUTHENTICATOR_def RADIUS_ATTR_EAP_MESSAGE_def)
  qed
  then have "Radius_msg_get_eap p = Some (Some eap)" using get_eap_holds [OF p(2)] assms(2) by simp
  ultimately show ?thesis
    using m0(1) m1(1) m2(1) m3(1) p(1,2) unfolding as'_def by blast
qed

section \<open>Answers\<close>

text \<open>
  The answer of a server that knows the secret (RFC 2865 and RFC 2869): the Message-Authenticator is
  the HMAC of the answer with the authenticator of the request in the header and with zeros in its
  own place; the authenticator of the answer is the digest of it all and the secret.
\<close>

definition mac_attr :: "u8 list \<Rightarrow> radius_attr" where
  "mac_attr mac = \<lparr>at_type = RADIUS_ATTR_MESSAGE_AUTHENTICATOR, at_data = mac\<rparr>"

definition answer_mac :: "u8 list \<Rightarrow> u8 list \<Rightarrow> u8 list \<Rightarrow> radius_attr list \<Rightarrow> radius_attr list \<Rightarrow> u8 list" where
  "answer_mac secret req_auth hdr pre post =
     rfc_hmac secret (hdr @ req_auth @ encs attr_bytes (pre @ [mac_attr (replicate 16 0)] @ post))"

definition answer :: "u8 list \<Rightarrow> u8 list \<Rightarrow> u8 \<Rightarrow> u8 \<Rightarrow> radius_attr list \<Rightarrow> radius_attr list \<Rightarrow> u8 list" where
  "answer secret req_auth code identifier pre post =
     (let n = RADIUS_HDR + length (encs attr_bytes pre) + 18 + length (encs attr_bytes post);
          hdr = [code, identifier, hi8 n, lo8 n];
          body = encs attr_bytes (pre @ [mac_attr (answer_mac secret req_auth hdr pre post)] @ post) in
      hdr @ md5 (hdr @ req_auth @ body @ secret) @ body)"

definition macless :: "radius_attr list \<Rightarrow> bool" where
  "macless as \<longleftrightarrow> (\<forall>a \<in> set as. at_type a \<noteq> RADIUS_ATTR_MESSAGE_AUTHENTICATOR)"

lemma authenticators_append:
  "authenticators n (as @ bs) = authenticators n as @ authenticators (n + length (encs attr_bytes as)) bs"
  by (induction as arbitrary: n) (simp_all add: add.assoc)

lemma macless_authenticators: "macless as \<Longrightarrow> authenticators n as = []"
  by (induction as arbitrary: n) (simp_all add: macless_def)

lemma authenticators_cases:
  obtains "macless as" | pre a post where "as = pre @ a # post" "macless pre" "macless post" "at_type a = RADIUS_ATTR_MESSAGE_AUTHENTICATOR"
  | "2 \<le> length (authenticators n as)"
proof (cases "macless as")
  case False
  then obtain pre a post where as: "as = pre @ a # post" "at_type a = RADIUS_ATTR_MESSAGE_AUTHENTICATOR" "macless pre"
    using split_list_first_prop [of as "\<lambda>a. at_type a = RADIUS_ATTR_MESSAGE_AUTHENTICATOR"] by (auto simp: macless_def)
  show thesis
  proof (cases "macless post")
    case True
    then show thesis using that(2) as by blast
  next
    case False
    then obtain pre2 a2 post2 where "post = pre2 @ a2 # post2" "at_type a2 = RADIUS_ATTR_MESSAGE_AUTHENTICATOR"
      using split_list_first_prop [of post "\<lambda>a. at_type a = RADIUS_ATTR_MESSAGE_AUTHENTICATOR"] by (auto simp: macless_def)
    then have "2 \<le> length (authenticators n as)" using as by (simp add: authenticators_append)
    then show thesis by (rule that(3))
  qed
qed (rule that(1))

lemma find_authenticator_msg:
  "msg_holds m as \<Longrightarrow> find_authenticator (buf m) (attrs m) None =
    (case authenticators RADIUS_HDR as of [] \<Rightarrow> Some (Some None) | [x] \<Rightarrow> Some (Some (Some x)) | _ \<Rightarrow> Some None)"
  using find_authenticator_holds [of "buf m" RADIUS_HDR as None] by (auto simp: msg_holds_def)

lemma verify_no_mac:
  assumes "msg_holds m as" "length (authenticators RADIUS_HDR as) \<noteq> 1"
  shows "Radius_msg_verify secret (Some sent) m = Some 1"
  using find_authenticator_msg [OF assms(1)] assms(2)
  by (cases "authenticators RADIUS_HDR as" rule: list.exhaust [case_product list.exhaust [of "tl (authenticators RADIUS_HDR as)"]])
    (auto simp: Radius_msg_verify_def)

lemma response_auth_md5:
  assumes "length b < 2 ^ 32" "length req_auth < 2 ^ 32" "length secret < 2 ^ 32"
  shows "response_auth b req_auth secret = md5 (take 4 b @ req_auth @ drop RADIUS_HDR b @ secret)"
proof -
  have "absorbed (fold (\<lambda>d c. MD5Update c d) [take 4 b, req_auth, drop RADIUS_HDR b, secret] MD5Init)
      ([] @ concat [take 4 b, req_auth, drop RADIUS_HDR b, secret])"
    by (rule fold_MD5Update_absorbs [OF absorbed_init]) (use assms in auto)
  from MD5Final_md5 [OF this] show ?thesis by (simp add: response_auth_def)
qed

lemma verify_one_mac:
  assumes m: "msg_holds m (pre @ mac_attr mac # post)" "macless pre" "macless post" "length mac = 16"
    and whole: "buf_used m = length (buf m)" and b: "take 4 (buf m) = hdr" "take 16 (drop 4 (buf m)) = auth"
    and sent: "RADIUS_HDR \<le> length (buf sent)" "req_auth = take 16 (drop 4 (buf sent))"
    and small: "length secret < 2 ^ 32" "length (buf m) < 65536"
  shows "Radius_msg_verify secret (Some sent) m =
    Some (if mac = answer_mac secret req_auth hdr pre post \<and>
             auth = md5 (hdr @ req_auth @ encs attr_bytes (pre @ [mac_attr mac] @ post) @ secret) then 0 else 1)"
proof -
  define r where "r mc = encs attr_bytes pre @ [RADIUS_ATTR_MESSAGE_AUTHENTICATOR, 18] @ mc @ encs attr_bytes post" for mc
  have enc: "encs attr_bytes (pre @ mac_attr mc # post) = r mc" if "length mc = 16" for mc
    using that by (simp add: r_def mac_attr_def attr_bytes_def)
  have u: "RADIUS_HDR \<le> length (buf m)" using holds_used [OF m(1)] whole by simp
  have hdr: "length hdr = 4" "length auth = 16" using b u by (auto simp: RADIUS_HDR_def)
  have "take RADIUS_HDR (buf m) = take 4 (buf m) @ take 16 (drop 4 (buf m))"
    using take_add [of 4 16 "buf m"] by (simp add: RADIUS_HDR_def)
  then have bytes: "buf m = hdr @ auth @ r mac"
    using holds_bytes [OF m(1)] whole b enc [OF m(4)] by simp
  define a where "a = RADIUS_HDR + length (encs attr_bytes pre)"
  have find: "find_authenticator (buf m) (attrs m) None = Some (Some (Some a))"
    using find_authenticator_msg [OF m(1)] macless_authenticators m(2,3)
    by (simp add: authenticators_append a_def) (simp add: mac_attr_def)
  define x where "x = hdr @ auth @ encs attr_bytes pre @ [RADIUS_ATTR_MESSAGE_AUTHENTICATOR, 18]"
  have x: "a + 2 = length x" "buf m = x @ mac @ encs attr_bytes post"
    using hdr bytes by (simp_all add: a_def x_def r_def RADIUS_HDR_def)
  have "rd_bytes (buf m) (a + 2) MD5_MAC_LEN = Some mac"
    using m(4) unfolding x by (simp add: MD5_MAC_LEN_def)
  moreover have "wr_bytes (buf m) (a + 2) (replicate MD5_MAC_LEN 0) = Some (hdr @ auth @ r (replicate 16 0))"
    using wr_at [of mac "replicate 16 0" x "encs attr_bytes post"] m(4) unfolding x by (simp add: MD5_MAC_LEN_def x_def r_def)
  moreover have "rd_bytes (buf sent) 4 16 = Some req_auth" using sent by (simp add: RADIUS_HDR_def)
  moreover have "length req_auth = 16" using sent by (simp add: RADIUS_HDR_def)
  moreover from this have "wr_bytes (hdr @ auth @ r (replicate 16 0)) 4 req_auth = Some (hdr @ req_auth @ r (replicate 16 0))"
    using wr_at [of auth req_auth hdr "r (replicate 16 0)"] hdr by simp
  moreover have "length (r (replicate 16 0)) = length (r mac)" using m(4) by (simp add: r_def)
  then have "hmac_md5 secret (take (buf_used m) (hdr @ req_auth @ r (replicate 16 0))) =
      rfc_hmac secret (hdr @ req_auth @ r (replicate 16 0))"
    using small \<open>length req_auth = 16\<close> hdr whole bytes by (simp add: hmac_md5_is_rfc)
  moreover have "answer_mac secret req_auth hdr pre post = rfc_hmac secret (hdr @ req_auth @ r (replicate 16 0))"
    using enc [of "replicate 16 0"] by (simp add: answer_mac_def)
  moreover have "response_auth (take (buf_used m) (buf m)) req_auth secret = md5 (hdr @ req_auth @ r mac @ secret)"
    using small whole \<open>length req_auth = 16\<close> hdr by (simp add: response_auth_md5 bytes RADIUS_HDR_def)
  ultimately show ?thesis
    using find b(2) enc [OF m(4)] by (simp add: Radius_msg_verify_def)
qed

text \<open>The genuine answers that consist of these bytes.\<close>

definition genuine :: "u8 list \<Rightarrow> u8 list \<Rightarrow> u8 list \<Rightarrow> bool" where
  "genuine secret req_auth bs \<longleftrightarrow>
     (\<exists>pre post. macless pre \<and> macless post \<and> (\<forall>a \<in> set (pre @ post). attr_ok a) \<and> bs = answer secret req_auth (bs ! 0) (bs ! 1) pre post)"

lemma genuine_attrs:
  assumes "length bs < 65536" "RADIUS_HDR \<le> length bs" "be16 (bs ! 2) (bs ! 3) = length bs"
    "drop RADIUS_HDR bs = encs attr_bytes (pre @ mac_attr mac # post)" "length mac = 16"
  shows "bs = answer secret req_auth (bs ! 0) (bs ! 1) pre post \<longleftrightarrow>
    mac = answer_mac secret req_auth (take 4 bs) pre post \<and>
    take 16 (drop 4 bs) = md5 (take 4 bs @ req_auth @ encs attr_bytes (pre @ [mac_attr mac] @ post) @ secret)"
proof -
  define hdr where "hdr = take 4 bs"
  have h4: "take 4 bs = [bs ! 0, bs ! 1, bs ! 2, bs ! 3]"
    using assms(2) by (intro nth_equalityI) (auto simp: RADIUS_HDR_def less_Suc_eq numeral_nat)
  have len: "length bs = RADIUS_HDR + length (encs attr_bytes pre) + 18 + length (encs attr_bytes post)"
    using arg_cong [OF assms(4), of length] assms(2,5) by (simp add: mac_attr_def)
  have hb: "hdr = [bs ! 0, bs ! 1, hi8 (length bs), lo8 (length bs)]" unfolding hdr_def h4 assms(3) [symmetric] by simp
  have "take 4 bs @ take 16 (drop 4 bs) = take RADIUS_HDR bs" using take_add [of 4 16 bs] by (simp add: RADIUS_HDR_def)
  then have bs: "bs = hdr @ take 16 (drop 4 bs) @ encs attr_bytes (pre @ mac_attr mac # post)"
    using append_take_drop_id [of RADIUS_HDR bs] unfolding assms(4) hdr_def by (metis append_assoc)
  define am where "am = answer_mac secret req_auth hdr pre post"
  have am: "length am = length mac" using assms(5) by (simp add: am_def answer_mac_def rfc_hmac_def Let_def)
  define h where "h = md5 (hdr @ req_auth @ encs attr_bytes (pre @ [mac_attr am] @ post) @ secret)"
  have ans: "answer secret req_auth (bs ! 0) (bs ! 1) pre post = hdr @ h @ encs attr_bytes (pre @ [mac_attr am] @ post)"
    using len hb by (simp add: answer_def Let_def am_def h_def)
  have l16: "length (take 16 (drop 4 bs)) = length h" using assms(2) by (simp add: h_def RADIUS_HDR_def)
  have "bs = answer secret req_auth (bs ! 0) (bs ! 1) pre post \<longleftrightarrow>
      hdr @ take 16 (drop 4 bs) @ encs attr_bytes (pre @ mac_attr mac # post) = hdr @ h @ encs attr_bytes (pre @ [mac_attr am] @ post)"
    unfolding ans using arg_cong [OF bs, of "\<lambda>x. x = hdr @ h @ encs attr_bytes (pre @ [mac_attr am] @ post)"] .
  also have "\<dots> \<longleftrightarrow> take 16 (drop 4 bs) = h \<and> attr_bytes (mac_attr mac) = attr_bytes (mac_attr am)"
    using l16 am by (simp add: mac_attr_def)
  also have "\<dots> \<longleftrightarrow> take 16 (drop 4 bs) = h \<and> mac = am"
    using am by (simp add: mac_attr_def attr_bytes_def)
  finally show ?thesis unfolding h_def am_def hdr_def by blast
qed

lemma genuine_unique:
  assumes "drop RADIUS_HDR bs = encs attr_bytes as" "\<forall>a \<in> set as. attr_ok a" "\<forall>a \<in> set (pre @ post). attr_ok a"
    and "bs = answer secret req_auth code identifier pre post"
  shows "\<exists>mac. as = pre @ mac_attr mac # post \<and> length mac = 16"
proof -
  define hdr where "hdr = [code, identifier, hi8 (RADIUS_HDR + length (encs attr_bytes pre) + 18 + length (encs attr_bytes post)),
      lo8 (RADIUS_HDR + length (encs attr_bytes pre) + 18 + length (encs attr_bytes post))]"
  define am where "am = answer_mac secret req_auth hdr pre post"
  have am: "length am = 16" by (simp add: am_def answer_mac_def rfc_hmac_def Let_def)
  have "bs = hdr @ md5 (hdr @ req_auth @ encs attr_bytes (pre @ [mac_attr am] @ post) @ secret) @ encs attr_bytes (pre @ [mac_attr am] @ post)"
    unfolding assms(4) by (simp only: answer_def Let_def hdr_def am_def)
  moreover have "length hdr = 4" by (simp add: hdr_def)
  ultimately have "drop RADIUS_HDR bs = encs attr_bytes (pre @ [mac_attr am] @ post)"
    by (simp add: RADIUS_HDR_def)
  moreover have "\<forall>a \<in> set (pre @ [mac_attr am] @ post). attr_ok a"
    using assms(3) am by (auto simp: mac_attr_def attr_ok_def RADIUS_MAX_ATTR_LEN_def)
  ultimately have "as = pre @ [mac_attr am] @ post"
    using radius.decs_encs [OF assms(2)] radius.decs_encs [of "pre @ [mac_attr am] @ post"] assms(1) by simp
  then show ?thesis using am by auto
qed

lemma macless_split:
  "pre @ a # post = pre' @ a' # post' \<Longrightarrow> macless pre \<Longrightarrow> macless pre' \<Longrightarrow>
   at_type a = RADIUS_ATTR_MESSAGE_AUTHENTICATOR \<Longrightarrow> at_type a' = RADIUS_ATTR_MESSAGE_AUTHENTICATOR \<Longrightarrow> pre = pre' \<and> post = post'"
proof (induction pre arbitrary: pre')
  case Nil
  then show ?case by (cases pre') (auto simp: macless_def)
next
  case (Cons x pre)
  then show ?case by (cases pre') (auto simp: macless_def)
qed

lemma genuine_split:
  assumes "drop RADIUS_HDR bs = encs attr_bytes as" "\<forall>a \<in> set as. attr_ok a" "genuine secret rq bs"
  obtains pre mac post where "as = pre @ mac_attr mac # post" "macless pre" "macless post" "length (authenticators RADIUS_HDR as) = 1"
    "bs = answer secret rq (bs ! 0) (bs ! 1) pre post"
proof -
  obtain pre post where p: "macless pre" "macless post" "\<forall>a \<in> set (pre @ post). attr_ok a" "bs = answer secret rq (bs ! 0) (bs ! 1) pre post"
    using assms(3) unfolding genuine_def by blast
  obtain mac where as: "as = pre @ mac_attr mac # post" using genuine_unique [OF assms(1,2) p(3,4)] by blast
  have "length (authenticators RADIUS_HDR as) = 1"
    using macless_authenticators p(1,2) by (simp add: as authenticators_append) (simp add: mac_attr_def)
  then show thesis using that as p by blast
qed

text \<open>
  C5: the answers that the authenticator accepts are the genuine ones. For every datagram that is a
  well-formed message whose Message-Authenticators have 16 bytes, \<open>Radius_msg_verify\<close> returns 0
  exactly if the message is, byte for byte, the answer that the holder of the secret makes of its
  attributes for this request; in all other cases it returns 1.
\<close>

theorem accepts_genuine_answers:
  assumes "wire_attrs data = Some as" "\<forall>a \<in> set as. at_type a = RADIUS_ATTR_MESSAGE_AUTHENTICATOR \<longrightarrow> length (at_data a) = 16"
    and "RADIUS_HDR \<le> length (buf sent)" "length secret < 2 ^ 32"
  shows "\<exists>m. Radius_msg_parse data = Some (Some m) \<and>
    Radius_msg_verify secret (Some sent) m =
      Some (if genuine secret (take 16 (drop 4 (buf sent))) (take (be16 (data ! 2) (data ! 3)) data) then 0 else 1)"
proof -
  define n where "n = be16 (data ! 2) (data ! 3)"
  define bs where "bs = take n data"
  define rq where "rq = take 16 (drop 4 (buf sent))"
  obtain m where m: "Radius_msg_parse data = Some (Some m)" "msg_holds m as" "buf m = bs" "buf_used m = n"
    using parse_wire [of data] assms(1) by (auto simp: n_def bs_def)
  have n: "n \<le> length data" "RADIUS_HDR \<le> n" "n < 65536"
    using assms(1) by (auto simp: wire_attrs_def n_def split: if_splits)
  have bs: "length bs = n" "be16 (bs ! 2) (bs ! 3) = length bs" using n by (simp_all add: bs_def n_def [symmetric] RADIUS_HDR_def)
  have enc: "drop RADIUS_HDR bs = encs attr_bytes as" "\<forall>a \<in> set as. attr_ok a"
    using m(2,3,4) bs(1) by (simp_all add: msg_holds_def holds_at_def)
  have "Radius_msg_verify secret (Some sent) m = Some (if genuine secret rq bs then 0 else 1)"
  proof (cases rule: authenticators_cases [where as = as and n = RADIUS_HDR])
    case (2 pre a post)
    obtain mac where a: "a = mac_attr mac" "length mac = 16" using 2(1,4) assms(2) by (cases a) (auto simp: mac_attr_def)
    note v = verify_one_mac [of m pre mac post, OF m(2) [unfolded 2(1) a(1)] 2(2,3) a(2) _ refl refl assms(3) rq_def assms(4)]
    note g = genuine_attrs [of bs pre mac post secret rq, OF _ _ bs(2) enc(1) [unfolded 2(1) a(1)] a(2)]
    have "genuine secret rq bs \<longleftrightarrow> bs = answer secret rq (bs ! 0) (bs ! 1) pre post"
    proof
      assume "genuine secret rq bs"
      from genuine_split [OF enc this] obtain pre' mac' post' where p: "as = pre' @ mac_attr mac' # post'" "macless pre'"
        "bs = answer secret rq (bs ! 0) (bs ! 1) pre' post'" by metis
      have "pre = pre' \<and> post = post'"
        by (rule macless_split [of pre a post pre' "mac_attr mac'" post', OF _ 2(2) p(2)]) (use p(1) 2(1,4) in \<open>simp_all add: mac_attr_def\<close>)
      then show "bs = answer secret rq (bs ! 0) (bs ! 1) pre post" using p(3) by simp
    qed (use 2 enc(2) in \<open>auto simp: genuine_def\<close>)
    then show ?thesis using v g m(3,4) bs n by simp
  next
    case 1
    then have none: "authenticators RADIUS_HDR as = []" by (rule macless_authenticators)
    then have "\<not> genuine secret rq bs" using genuine_split [OF enc] by (metis length_0_conv zero_neq_one)
    then show ?thesis using verify_no_mac [OF m(2)] none by simp
  next
    case 3
    then have "\<not> genuine secret rq bs" using genuine_split [OF enc] by (metis numeral_le_one_iff semiring_norm(69))
    then show ?thesis using verify_no_mac [OF m(2)] 3 by simp
  qed
  then show ?thesis using m(1) unfolding rq_def bs_def n_def by blast
qed

text \<open>
  C32: an answer can make the authenticator write behind its buffer before anything is checked. When
  the last attribute of a datagram is a Message-Authenticator with less than 16 bytes of value,
  \<open>Radius_msg_verify\<close> saves, clears and restores 16 bytes all the same, whatever the secret and the
  request are; the sender needs to know neither.
\<close>

theorem short_authenticator_overruns:
  assumes "wire_attrs data = Some (pre @ [mac_attr d])" "macless pre" "length d < 16"
  shows "\<exists>m. Radius_msg_parse data = Some (Some m) \<and> Radius_msg_verify secret (Some sent) m = None"
proof -
  obtain m where m: "Radius_msg_parse data = Some (Some m)" "msg_holds m (pre @ [mac_attr d])"
    "length (buf m) \<le> be16 (data ! 2) (data ! 3)" "buf_used m = be16 (data ! 2) (data ! 3)"
    using parse_wire [of data] assms(1) by auto
  have "length (buf m) \<le> RADIUS_HDR + length (encs attr_bytes pre) + 2 + length d"
    using m(2-4) by (simp add: msg_holds_def mac_attr_def)
  then have "rd_bytes (buf m) (RADIUS_HDR + length (encs attr_bytes pre) + 2) MD5_MAC_LEN = None"
    using assms(3) by (simp add: rd_bytes_def MD5_MAC_LEN_def)
  moreover have "find_authenticator (buf m) (attrs m) None = Some (Some (Some (RADIUS_HDR + length (encs attr_bytes pre))))"
    using find_authenticator_msg [OF m(2)] macless_authenticators [OF assms(2)]
    by (simp add: authenticators_append) (simp add: mac_attr_def)
  ultimately show ?thesis using m(1) by (simp add: Radius_msg_verify_def)
qed

section \<open>Encrypted values\<close>

text \<open>The chain of RFC 2865 and RFC 2548: every block is masked with a digest of the secret and the block before.\<close>

function rfc_chain :: "u8 list \<Rightarrow> u8 list \<Rightarrow> u8 list \<Rightarrow> u8 list" where
  "rfc_chain secret iv p =
     (if p = [] then []
      else let c = map2 (XOR) (take 16 p) (md5 (secret @ iv)) in c @ rfc_chain secret c (drop 16 p))"
  by pat_completeness auto

termination
  by (relation "measure (\<lambda>(s, iv, p). length p)") auto

declare rfc_chain.simps [simp del]

lemma stream16_md5: "length secret < 2 ^ 32 \<Longrightarrow> length p < 2 ^ 32 \<Longrightarrow> stream16 secret p = md5 (secret @ p)"
  by (simp add: stream16_def MD5_pieces)

lemma encrypt_is_chain:
  assumes "length secret < 2 ^ 32"
  shows "encrypt_blocks secret (md5 (secret @ iv)) p = rfc_chain secret iv p"
proof (induction p arbitrary: iv rule: length_induct)
  case (1 p)
  show ?case
  proof (cases "p = []")
    case False
    define c where "c = map2 (XOR) (take 16 p) (md5 (secret @ iv))"
    have "stream16 secret c = md5 (secret @ c)" using stream16_md5 [OF assms] by (simp add: c_def)
    moreover have "length (drop 16 p) < length p" using False by simp
    ultimately show ?thesis using 1 False
      by (subst encrypt_blocks.simps, subst rfc_chain.simps) (simp add: xor_bytes_def c_def Let_def)
  qed (simp add: encrypt_blocks.simps rfc_chain.simps)
qed

lemma xor_twice: "length p \<le> length h \<Longrightarrow> xor_bytes (xor_bytes p h) h = p"
  unfolding xor_bytes_def by (induction p h rule: list_induct2') (simp_all add: xor.assoc)

lemma decrypt_encrypt:
  "length p mod 16 = 0 \<Longrightarrow> length h = 16 \<Longrightarrow> decrypt_blocks secret h (encrypt_blocks secret h p) = p"
proof (induction secret h p rule: encrypt_blocks.induct)
  case (1 secret h p)
  show ?case
  proof (cases "p = []")
    case False
    then have p: "16 \<le> length p" using 1(2) by (cases "length p < 16") auto
    define c where "c = xor_bytes (take 16 p) h"
    have c: "length c = 16" "c \<noteq> []" using p 1(3) by (auto simp: c_def xor_bytes_def)
    have ih: "decrypt_blocks secret (stream16 secret c) (encrypt_blocks secret (stream16 secret c) (drop 16 p)) = drop 16 p"
      using 1(1) [OF False c_def] 1(2) le_mod_geq [OF p] by (simp add: stream16_def)
    have "encrypt_blocks secret h p = c @ encrypt_blocks secret (stream16 secret c) (drop 16 p)"
      using False by (subst encrypt_blocks.simps) (simp add: c_def Let_def)
    then have "decrypt_blocks secret h (encrypt_blocks secret h p) = xor_bytes c h @ drop 16 p"
      using c ih by (simp add: decrypt_blocks.simps [of secret h])
    also have "xor_bytes c h = take 16 p" using xor_twice [of "take 16 p" h] 1(3) by (simp add: c_def)
    finally show ?thesis by simp
  qed (simp add: encrypt_blocks.simps decrypt_blocks.simps)
qed

lemma pad16_length: "length (pad16 p) mod 16 = 0"
proof -
  define q r where "q = length p div 16" and "r = length p mod 16"
  have l: "length p = q * 16 + r" "r < 16" by (simp_all add: q_def r_def)
  have "length (pad16 p) = length p + (if r = 0 then 0 else 16 - r)" by (simp add: pad16_def r_def)
  also have "\<dots> = (q + (if r = 0 then 0 else 1)) * 16" using l by simp
  finally show ?thesis by simp
qed

lemma encrypt_length: "length h = 16 \<Longrightarrow> length (encrypt_blocks secret h p) = length p"
proof (induction secret h p rule: encrypt_blocks.induct)
  case (1 secret h p)
  show ?case
  proof (cases "p = []")
    case False
    have "length (xor_bytes (take 16 p) h) = min (length p) 16" using 1(2) by (simp add: xor_bytes_def min.commute)
    then show ?thesis using 1(1) [OF False refl] False by (subst encrypt_blocks.simps) (simp add: Let_def stream16_def)
  qed (simp add: encrypt_blocks.simps)
qed

text \<open>
  Padding as the standards have it: null bytes, fewer than 16, up to a multiple of 16.
\<close>

definition zero_padded :: "u8 list \<Rightarrow> u8 list \<Rightarrow> bool" where
  "zero_padded p q \<longleftrightarrow> (\<exists>n < 16. q = p @ replicate n 0) \<and> 16 dvd length q"

lemma zero_padded_pad16: "zero_padded p q \<longleftrightarrow> q = pad16 p"
proof
  assume "zero_padded p q"
  then obtain n where n: "n < 16" "q = p @ replicate n 0" "(length p + n) mod 16 = 0" by (auto simp: zero_padded_def dvd_eq_mod_eq_0)
  define m where "m = length p mod 16"
  have m: "m < 16" "(m + n) mod 16 = 0" using n(3) by (simp_all add: m_def mod_add_left_eq)
  have "n = (if m = 0 then 0 else 16 - m)"
  proof (cases "m + n < 16")
    case False
    then have "(m + n) mod 16 = m + n - 16" using m(1) n(1) by (simp add: le_mod_geq)
    then show ?thesis using m(2) False n(1) by simp
  qed (use m(2) in simp)
  then have "n = (if length p mod 16 = 0 then 0 else 16 - length p mod 16)" by (simp add: m_def)
  then show "q = pad16 p" by (simp add: n(2) pad16_def)
next
  assume "q = pad16 p"
  moreover have "16 dvd length (pad16 p)" using pad16_length by (simp add: dvd_eq_mod_eq_0)
  ultimately show "zero_padded p q"
    by (auto simp: zero_padded_def pad16_def intro!: exI [of _ "if length p mod 16 = 0 then 0 else 16 - length p mod 16"])
qed

text \<open>
  C33: the encrypted values are those of the standards. The User-Password attribute that is added is
  the password, padded with null bytes to blocks of 16 and masked as RFC 2865 says; only for an empty
  password the attribute has no value, where the standard asks for one block of nulls. An MPPE key
  that a server has padded and masked for this request as RFC 2548 says is returned unchanged by
  \<open>decrypt_ms_key\<close>.
\<close>

theorem encrypted_values_standard:
  assumes "msg_holds m as" "msg_holds req rs" "length secret < 2 ^ 32" "length data \<le> 128"
    and "length salt = 2" "length key < 256" "mem (length key)"
  shows "(\<exists>m' at q. Radius_msg_add_attr_user_password data secret m = Some (Some at, m') \<and>
      zero_padded data q \<and> (q = [] \<longleftrightarrow> data = []) \<and>
      msg_holds m' (as @ [\<lparr>at_type = RADIUS_ATTR_USER_PASSWORD, at_data = rfc_chain secret (take 16 (drop 4 (buf m))) q\<rparr>])) \<and>
    (\<forall>q. zero_padded (word_of_nat (length key) # key) q \<longrightarrow>
      decrypt_ms_key mem (salt @ rfc_chain secret (take 16 (drop 4 (buf req)) @ salt) q) req secret = Some (Some key))"
proof
  have len: "RADIUS_HDR \<le> length (buf m)" "RADIUS_HDR \<le> length (buf req)" using assms(1,2) by (simp_all add: msg_holds_def)
  define auth where "auth = take 16 (drop 4 (buf m))"
  have a: "rd_bytes (buf m) 4 16 = Some auth" "length auth = 16" using len by (simp_all add: auth_def RADIUS_HDR_def)
  have v: "encrypt_blocks secret (MD5Final (MD5Update (MD5Update MD5Init secret) auth)) (pad16 data) = rfc_chain secret auth (pad16 data)"
    using a(2) assms(3) encrypt_is_chain by (simp add: MD5_pieces)
  have "length (rfc_chain secret auth (pad16 data)) = length (pad16 data)"
    using encrypt_length [of "md5 (secret @ auth)" secret "pad16 data"] encrypt_is_chain [OF assms(3)] by simp
  moreover have "length (pad16 data) \<le> length data + 16" by (simp add: pad16_def)
  then have "length (pad16 data) \<le> 128 + 16" using assms(4) by linarith
  ultimately have "length (rfc_chain secret auth (pad16 data)) \<le> RADIUS_MAX_ATTR_LEN" by (simp add: RADIUS_MAX_ATTR_LEN_def)
  then obtain m' where "Radius_msg_add_attr RADIUS_ATTR_USER_PASSWORD (rfc_chain secret auth (pad16 data)) m = Some (Some (buf_used m), m')"
    "msg_holds m' (as @ [\<lparr>at_type = RADIUS_ATTR_USER_PASSWORD, at_data = rfc_chain secret auth (pad16 data)\<rparr>])"
    by (rule add_attr_holds [OF assms(1)])
  moreover have "zero_padded data (pad16 data)" "pad16 data = [] \<longleftrightarrow> data = []"
    by (simp add: zero_padded_pad16) (cases data, simp_all add: pad16_def)
  ultimately show "\<exists>m' at q. Radius_msg_add_attr_user_password data secret m = Some (Some at, m') \<and>
      zero_padded data q \<and> (q = [] \<longleftrightarrow> data = []) \<and>
      msg_holds m' (as @ [\<lparr>at_type = RADIUS_ATTR_USER_PASSWORD, at_data = rfc_chain secret (take 16 (drop 4 (buf m))) q\<rparr>])"
    using assms(4) a v unfolding auth_def [symmetric]
    by (intro exI [of _ m'] exI [of _ "buf_used m"] exI [of _ "pad16 data"]) (simp add: Radius_msg_add_attr_user_password_def)
next
  define auth where "auth = take 16 (drop 4 (buf req))"
  have "RADIUS_HDR \<le> length (buf req)" using assms(2) by (simp add: msg_holds_def)
  then have a: "rd_bytes (buf req) 4 16 = Some auth" "length auth = 16" by (simp_all add: auth_def RADIUS_HDR_def)
  define p where "p = pad16 (word_of_nat (length key) # key)"
  define h where "h = md5 (secret @ auth @ salt)"
  define c where "c = rfc_chain secret (auth @ salt) p"
  have c: "c = encrypt_blocks secret h p" using encrypt_is_chain [OF assms(3), of "auth @ salt" p] by (simp add: c_def h_def)
  have lc: "length c = length p" using encrypt_length [of h secret p] by (simp add: c h_def)
  have p16: "length p mod 16 = 0" "0 < length p" using pad16_length by (simp_all add: p_def) (simp add: pad16_def)
  then have "16 \<le> length p" by (cases "length p < 16") auto
  have plain: "decrypt_blocks secret h c = p" using decrypt_encrypt [OF p16(1)] by (simp add: c h_def)
  have k: "p ! 0 = word_of_nat (length key)" "unat (p ! 0) = length key" "take (length key) (drop 1 p) = key" "length key \<le> length p - 1"
    using assms(6) by (simp_all add: p_def pad16_def unat_of_nat take_bit_nat_eq_self)
  have "MD5Final (MD5Update (MD5Update (MD5Update MD5Init secret) auth) (take 2 (salt @ c))) = h"
    using assms(3,5) a(2) by (simp add: MD5_pieces h_def)
  then show "\<forall>q. zero_padded (word_of_nat (length key) # key) q \<longrightarrow>
      decrypt_ms_key mem (salt @ rfc_chain secret (take 16 (drop 4 (buf req)) @ salt) q) req secret = Some (Some key)"
    unfolding zero_padded_pad16 auth_def [symmetric] p_def [symmetric]
    using a lc p16 \<open>16 \<le> length p\<close> plain k assms(5,7) by (simp add: decrypt_ms_key_def Let_def c_def [symmetric])
qed

section \<open>Vendor attributes\<close>

text \<open>The vendor attributes of Microsoft, and those whose parts all have room for their own header.\<close>

definition ms_data :: "radius_attr \<Rightarrow> u8 list option" where
  "ms_data a =
     (if at_type a = RADIUS_ATTR_VENDOR_SPECIFIC \<and> 4 \<le> length (at_data a) \<and> be32 (take 4 (at_data a)) = RADIUS_VENDOR_ID_MICROSOFT
      then Some (drop 4 (at_data a)) else None)"

function subs_ok :: "u8 list \<Rightarrow> bool" where
  "subs_ok d =
     (if length d < 2 \<or> unat (d ! 1) > length d then True
      else if unat (d ! 1) < 2 then False else subs_ok (drop (unat (d ! 1)) d))"
  by pat_completeness auto

termination
  by (relation "measure length") auto

declare subs_ok.simps [simp del]

lemma ms_walk_ends:
  "subs_ok d \<Longrightarrow> take (length d) (drop pos b) = d \<Longrightarrow> pos + length d \<le> length b \<Longrightarrow> \<exists>r. ms_walk mem ty b pos (length d) = Some r"
proof (induction d arbitrary: pos rule: subs_ok.induct)
  case (1 d)
  show ?case
  proof (cases "length d < 2")
    case False
    have at: "b ! (pos + i) = d ! i" if "i < length d" for i
      using that 1(4) arg_cong [OF 1(3), of "\<lambda>x. x ! i"] by simp
    have rd: "rd b pos = Some (d ! 0)" "rd b (pos + 1) = Some (d ! 1)"
    proof -
      have l: "0 < length d" "1 < length d" using False by linarith+
      show "rd b pos = Some (d ! 0)" "rd b (pos + 1) = Some (d ! 1)"
        using at [OF l(1)] at [OF l(2)] l 1(4) by simp_all
    qed
    define n where "n = unat (d ! 1)"
    show ?thesis
    proof (cases "n > length d")
      case True
      then show ?thesis using rd False by (subst ms_walk.simps) (simp add: n_def)
    next
      case le: False
      then have n: "2 \<le> n" "subs_ok (drop n d)" using 1(2) False by (auto simp: subs_ok.simps [of d] n_def split: if_splits)
      have "take (length (drop n d)) (drop (pos + n) b) = drop n (take (length d) (drop pos b))" by (simp add: drop_take add.commute)
      then have "take (length (drop n d)) (drop (pos + n) b) = drop n d" using 1(3) by simp
      moreover have "pos + n + length (drop n d) \<le> length b" using 1(4) le by simp
      ultimately have "\<exists>r. ms_walk mem ty b (pos + n) (length d - n) = Some r"
        using 1(1) [of "pos + n"] False le n by (simp add: n_def)
      moreover have "(n + 2 ^ 32 - 2) mod 2 ^ 32 = n - 2"
      proof -
        have "n < 256" by (simp add: n_def)
        then have "(n + 2 ^ 32 - 2) = (n - 2) + 2 ^ 32" "n - 2 < 2 ^ 32" using n(1) by simp_all
        then show ?thesis by (simp only: mod_add_self2 mod_less)
      qed
      moreover have "pos + 2 + (n - 2) \<le> length b" using 1(4) le n(1) by linarith
      then have "rd_bytes b (pos + 2) (n - 2) \<noteq> None" by (simp add: rd_bytes_def)
      moreover have "unat (d ! Suc 0) = n" by (simp add: n_def)
      ultimately show ?thesis using rd False le by (subst ms_walk.simps) (auto simp: Let_def)
    qed
  qed (subst ms_walk.simps, simp)
qed

lemma ms_walk_stuck:
  assumes "2 \<le> left" "rd b pos = Some t" "t \<noteq> ty" "rd b (pos + 1) = Some 0"
  shows "ms_walk mem ty b pos left = None"
proof -
  let ?P = "\<lambda>mem ty b pos left r. \<not> (2 \<le> left \<and> (\<exists>t. rd b pos = Some t \<and> t \<noteq> ty) \<and> rd b (pos + 1) = Some 0)"
  have "?P mem ty b pos left r" if "ms_walk mem ty b pos left = Some r" for r
    using that
  proof (rule ms_walk.raw_induct [where P = ?P, rotated])
    fix walk mem ty b pos left r
    assume ih: "\<And>mem ty b pos left r. walk mem ty b pos left = Some r \<Longrightarrow> ?P mem ty b pos left r"
      and step: "(if left < 2 then Some Ms_next
        else Option.bind (rd b pos) (\<lambda>vendor_type. Option.bind (rd b (pos + 1)) (\<lambda>vendor_length.
          if unat vendor_length > left then Some Ms_next
          else if vendor_type \<noteq> ty then walk mem ty b (pos + unat vendor_length) (left - unat vendor_length)
          else let len = (unat vendor_length + 2 ^ 32 - 2) mod 2 ^ 32 in
            if \<not> mem len then Some Ms_null else map_option Ms_found (rd_bytes b (pos + 2) len)))) = Some r"
    show "?P mem ty b pos left r"
    proof (rule notI)
      assume a: "2 \<le> left \<and> (\<exists>t. rd b pos = Some t \<and> t \<noteq> ty) \<and> rd b (pos + 1) = Some 0"
      then have "walk mem ty b pos left = Some r" using step by auto
      from ih [OF this] a show False by blast
    qed
  qed
  then show ?thesis using assms by (cases "ms_walk mem ty b pos left") auto
qed

lemma get_ms_attr_step:
  assumes "holds_at b n [a]" "attr_ok a"
  shows "Radius_msg_get_ms_attr mem ty b (n # ns) =
    (case ms_data a of
       None \<Rightarrow> Radius_msg_get_ms_attr mem ty b ns
     | Some d \<Rightarrow> Option.bind (ms_walk mem ty b (n + 6) (length d)) (\<lambda>r. case r of
         Ms_next \<Rightarrow> Radius_msg_get_ms_attr mem ty b ns | Ms_null \<Rightarrow> Some None | Ms_found d \<Rightarrow> Some (Some d)))"
proof -
  note h = holds_at_one [OF assms(1)]
  have l: "unat (word_of_nat (2 + length (at_data a)) :: u8) = 2 + length (at_data a)"
    by (rule unat_attr_len) (use assms(2) in \<open>simp add: attr_ok_def RADIUS_MAX_ATTR_LEN_def\<close>)
  have v: "rd_bytes b (n + 2) 4 = Some (take 4 (at_data a))" if "4 \<le> length (at_data a)"
  proof -
    have "take 4 (take (length (at_data a)) (drop (n + 2) b)) = take 4 (at_data a)"
      using h(3,4) by simp
    then show ?thesis using that h(4) by (simp add: min_absorb1)
  qed
  show ?thesis
    using h(1,2) l v by (simp add: ms_data_def del: of_nat_add)
qed

lemma holds_at_part:
  assumes "holds_at b n [a]"
  shows "take (length (at_data a) - k) (drop (n + 2 + k) b) = drop k (at_data a)"
proof -
  have "take (length (at_data a)) (drop (n + 2) b) = at_data a" using holds_at_one(3,4) [OF assms] by simp
  from arg_cong [OF this, of "drop k"] show ?thesis by (simp add: drop_take add.commute add.left_commute)
qed

lemma ms_attr_ends:
  "(\<forall>a \<in> set as. \<forall>d. ms_data a = Some d \<longrightarrow> subs_ok d) \<Longrightarrow> holds_at b n as \<Longrightarrow> \<forall>a \<in> set as. attr_ok a \<Longrightarrow>
    \<exists>r. Radius_msg_get_ms_attr mem ty b (offsets n as) = Some r"
proof (induction as arbitrary: n)
  case (Cons a as)
  have ha: "holds_at b n [a]" "holds_at b (n + 2 + length (at_data a)) as" using Cons.prems(2) holds_at_Cons by blast+
  have ih: "\<exists>r. Radius_msg_get_ms_attr mem ty b (offsets (n + 2 + length (at_data a)) as) = Some r"
    using Cons.IH [OF _ ha(2)] Cons.prems by simp
  show ?case
  proof (cases "ms_data a")
    case (Some d)
    have d: "d = drop 4 (at_data a)" "4 \<le> length (at_data a)" using Some by (auto simp: ms_data_def split: if_splits)
    have "take (length d) (drop (n + 6) b) = d" using holds_at_part [OF ha(1), of 4] d by (simp add: add.commute)
    moreover have "n + 6 + length d \<le> length b" using holds_at_one(4) [OF ha(1)] d by simp
    ultimately have "\<exists>r. ms_walk mem ty b (n + 6) (length d) = Some r"
      using Cons.prems(1) Some by (intro ms_walk_ends) simp_all
    then obtain r where "ms_walk mem ty b (n + 6) (length d) = Some r" ..
    then show ?thesis using get_ms_attr_step [OF ha(1)] Cons.prems(3) Some ih by (cases r) simp_all
  qed (use get_ms_attr_step [OF ha(1)] Cons.prems(3) ih in simp)
qed simp

lemma ms_attr_hangs:
  assumes "\<forall>x \<in> set pre. ms_data x = None" "ms_data a = Some (t # 0 # d)" "t \<noteq> ty" "holds_at b n (pre @ a # post)" "\<forall>a \<in> set (pre @ a # post). attr_ok a"
  shows "Radius_msg_get_ms_attr mem ty b (offsets n (pre @ a # post)) = None"
  using assms(1,4,5)
proof (induction pre arbitrary: n)
  case Nil
  have ha: "holds_at b n [a]" using Nil holds_at_Cons [of b n a post] by simp
  have dd: "t # 0 # d = drop 4 (at_data a)" "4 \<le> length (at_data a)" using assms(2) by (auto simp: ms_data_def split: if_splits)
  have "take (length (t # 0 # d)) (drop (n + 6) b) = t # 0 # d" using holds_at_part [OF ha, of 4] dd by (simp add: add.commute)
  moreover have "n + 6 + length (t # 0 # d) \<le> length b" using holds_at_one(4) [OF ha] dd by simp
  ultimately have "rd b (n + 6) = Some t" "rd b (n + 6 + 1) = Some 0"
    using nth_take [of 0 "length (t # 0 # d)" "drop (n + 6) b"] nth_take [of 1 "length (t # 0 # d)" "drop (n + 6) b"] by simp_all
  then have "ms_walk mem ty b (n + 6) (length (t # 0 # d)) = None" by (intro ms_walk_stuck [OF _ _ assms(3)]) simp_all
  then show ?case using get_ms_attr_step [OF ha] Nil assms(2) by simp
next
  case (Cons x pre)
  have ha: "holds_at b n [x]" "holds_at b (n + 2 + length (at_data x)) (pre @ a # post)"
    using Cons.prems(2) holds_at_Cons [of b n x "pre @ a # post"] by simp_all
  show ?case using Cons.IH [OF _ ha(2)] Cons.prems get_ms_attr_step [OF ha(1)] by simp
qed

text \<open>
  C34: the search for a Microsoft attribute, and when it does not end. It returns for every message
  in which all parts of the Microsoft attributes have a length of at least 2; but it never returns
  for one whose first Microsoft attribute starts with a part of another type and of length 0.
\<close>

theorem ms_attr_search:
  assumes "msg_holds m as"
  shows "((\<forall>a \<in> set as. \<forall>d. ms_data a = Some d \<longrightarrow> subs_ok d) \<longrightarrow> (\<exists>r. Radius_msg_get_ms_attr mem ty (buf m) (attrs m) = Some r)) \<and>
    (\<forall>pre a post t d. as = pre @ a # post \<and> (\<forall>x \<in> set pre. ms_data x = None) \<and> ms_data a = Some (t # 0 # d) \<and> t \<noteq> ty \<longrightarrow>
      Radius_msg_get_ms_attr mem ty (buf m) (attrs m) = None)"
proof -
  have h: "holds_at (buf m) RADIUS_HDR as" "\<forall>a \<in> set as. attr_ok a" "attrs m = offsets RADIUS_HDR as"
    using assms by (simp_all add: msg_holds_def)
  show ?thesis using ms_attr_ends [OF _ h(1,2)] ms_attr_hangs h by auto
qed

section \<open>Examples\<close>

theorem request_parsed_back_witness:
  "\<exists>m0 m1 m2 m3 p mac. Radius_msg_new RADIUS_CODE_ACCESS_REQUEST 7 = Some m0 \<and> add_all [\<lparr>at_type = 1, at_data = [98, 111, 98]\<rparr>] m0 = Some m1 \<and>
     Radius_msg_add_eap [2, 1, 0, 5, 1] m1 = Some (True, m2) \<and> Radius_msg_finish (Some [115]) m2 = Some m3 \<and>
     Radius_msg_parse (take (buf_used m3) (buf m3)) = Some (Some p) \<and> take 2 (buf p) = [RADIUS_CODE_ACCESS_REQUEST, 7] \<and>
     msg_holds p ([\<lparr>at_type = 1, at_data = [98, 111, 98]\<rparr>] @ eap_attrs [2, 1, 0, 5, 1] @ [\<lparr>at_type = RADIUS_ATTR_MESSAGE_AUTHENTICATOR, at_data = mac\<rparr>]) \<and>
     Radius_msg_get_eap p = Some (Some [2, 1, 0, 5, 1])"
proof (rule request_parsed_back)
  show "\<forall>a \<in> set [\<lparr>at_type = 1, at_data = [98, 111, 98]\<rparr>]. attr_ok a \<and> at_type a \<noteq> RADIUS_ATTR_EAP_MESSAGE"
    by (simp add: attr_ok_def RADIUS_MAX_ATTR_LEN_def RADIUS_ATTR_EAP_MESSAGE_def)
  have "eap_attrs [2, 1, 0, 5, 1] = [\<lparr>at_type = RADIUS_ATTR_EAP_MESSAGE, at_data = [2, 1, 0, 5, 1]\<rparr>]"
    by (simp add: eap_attrs.simps [of "[2, 1, 0, 5, 1]"] RADIUS_MAX_ATTR_LEN_def)
  then show "RADIUS_HDR + length (encs attr_bytes ([\<lparr>at_type = 1, at_data = [98, 111, 98]\<rparr>] @ eap_attrs [2, 1, 0, 5, 1])) + 18 < 65536"
    by (simp add: RADIUS_HDR_def)
qed simp

definition demo_request :: radius_msg where
  "demo_request = \<lparr>buf = [1, 7, 0, 20] @ replicate 16 5, buf_used = 20, attrs = [], attr_size = 16\<rparr>"

lemma demo_request_holds: "msg_holds demo_request []" "take 16 (drop 4 (buf demo_request)) = replicate 16 5"
  by (simp_all add: demo_request_def msg_holds_def radius_consts)

definition demo_answer :: "u8 list" where
  "demo_answer = answer [115, 101] (replicate 16 5) RADIUS_CODE_ACCESS_ACCEPT 7 [] []"

definition datagram :: "u8 \<Rightarrow> u8 \<Rightarrow> u8 list \<Rightarrow> radius_attr list \<Rightarrow> u8 list" where
  "datagram c i auth as = [c, i, hi8 (RADIUS_HDR + length (encs attr_bytes as)), lo8 (RADIUS_HDR + length (encs attr_bytes as))] @
     auth @ encs attr_bytes as"

lemma datagram_wire:
  assumes "length auth = 16" "\<forall>a \<in> set as. attr_ok a" "RADIUS_HDR + length (encs attr_bytes as) < 65536"
  shows "wire_attrs (datagram c i auth as) = Some as" "be16 (datagram c i auth as ! 2) (datagram c i auth as ! 3) = length (datagram c i auth as)"
proof -
  show n: "be16 (datagram c i auth as ! 2) (datagram c i auth as ! 3) = length (datagram c i auth as)"
    using assms by (simp add: datagram_def RADIUS_HDR_def)
  have "drop RADIUS_HDR (datagram c i auth as) = encs attr_bytes as" "RADIUS_HDR \<le> length (datagram c i auth as)"
    using assms(1) by (simp_all add: datagram_def RADIUS_HDR_def)
  then show "wire_attrs (datagram c i auth as) = Some as"
    using n radius.decs_encs [OF assms(2)] by (simp add: wire_attrs_def)
qed

lemma demo_answer_datagram:
  "\<exists>auth mac. demo_answer = datagram RADIUS_CODE_ACCESS_ACCEPT 7 auth [mac_attr mac] \<and> length auth = 16 \<and> length mac = 16"
proof -
  define hdr :: "u8 list" where "hdr = [RADIUS_CODE_ACCESS_ACCEPT, 7, hi8 38, lo8 38]"
  define am where "am = answer_mac [115, 101] (replicate 16 5) hdr [] []"
  have am: "length am = 16" by (simp add: am_def answer_mac_def rfc_hmac_def Let_def)
  then have enc: "length (attr_bytes (mac_attr am)) = 18" by (simp add: mac_attr_def)
  have "demo_answer = hdr @ md5 (hdr @ replicate 16 5 @ attr_bytes (mac_attr am) @ [115, 101]) @ attr_bytes (mac_attr am)"
    by (simp add: demo_answer_def answer_def Let_def hdr_def am_def RADIUS_HDR_def)
  then have "demo_answer = datagram RADIUS_CODE_ACCESS_ACCEPT 7 (md5 (hdr @ replicate 16 5 @ attr_bytes (mac_attr am) @ [115, 101])) [mac_attr am]"
    using enc by (simp add: datagram_def hdr_def RADIUS_HDR_def)
  then show ?thesis using am length_md5 by blast
qed

theorem accepts_genuine_answers_witness:
  "\<exists>m. Radius_msg_parse demo_answer = Some (Some m) \<and> Radius_msg_verify [115, 101] (Some demo_request) m = Some 0"
proof -
  obtain auth mac where d: "demo_answer = datagram RADIUS_CODE_ACCESS_ACCEPT 7 auth [mac_attr mac]" "length auth = 16" "length mac = 16"
    using demo_answer_datagram by blast
  have ok: "\<forall>a \<in> set [mac_attr mac]. attr_ok a" "RADIUS_HDR + length (encs attr_bytes [mac_attr mac]) < 65536"
    using d(3) by (simp_all add: mac_attr_def attr_ok_def radius_consts)
  have w: "wire_attrs demo_answer = Some [mac_attr mac]" "take (be16 (demo_answer ! 2) (demo_answer ! 3)) demo_answer = demo_answer"
    using datagram_wire [OF d(2) ok] by (simp_all add: d(1))
  have sent: "RADIUS_HDR \<le> length (buf demo_request)" "length [115, 101 :: u8] < 2 ^ 32"
    "\<forall>a \<in> set [mac_attr mac]. at_type a = RADIUS_ATTR_MESSAGE_AUTHENTICATOR \<longrightarrow> length (at_data a) = 16"
    using d(3) by (simp_all add: demo_request_def RADIUS_HDR_def mac_attr_def)
  have "demo_answer ! 0 = RADIUS_CODE_ACCESS_ACCEPT" "demo_answer ! 1 = 7" by (simp_all add: d(1) datagram_def)
  then have "genuine [115, 101] (replicate 16 5) demo_answer"
    unfolding genuine_def by (intro exI [of _ "[]"]) (simp add: macless_def demo_answer_def)
  then show ?thesis
    using accepts_genuine_answers [OF w(1) sent(3,1,2)] by (simp add: w(2) demo_request_holds(2))
qed

theorem short_authenticator_overruns_witness:
  "\<exists>m. Radius_msg_parse (datagram RADIUS_CODE_ACCESS_REJECT 7 (replicate 16 0) [mac_attr []]) = Some (Some m) \<and>
     Radius_msg_verify [115, 101] (Some demo_request) m = None"
proof (rule short_authenticator_overruns)
  show "wire_attrs (datagram RADIUS_CODE_ACCESS_REJECT 7 (replicate 16 0) [mac_attr []]) = Some ([] @ [mac_attr []])"
    unfolding append_Nil by (rule datagram_wire) (simp_all add: mac_attr_def attr_ok_def radius_consts)
qed (simp_all add: macless_def)

theorem encrypted_values_standard_witness:
  "decrypt_ms_key (\<lambda>n. True) ([128, 1] @ rfc_chain [115, 101] (replicate 16 5 @ [128, 1]) ([3, 9, 8, 7] @ replicate 12 0))
     demo_request [115, 101] = Some (Some [9, 8, 7])"
proof -
  have "zero_padded (word_of_nat (length [9, 8, 7 :: u8]) # [9, 8, 7]) ([3, 9, 8, 7] @ replicate 12 0)"
    by (auto simp: zero_padded_def intro!: exI [of _ 12])
  then show ?thesis
    using encrypted_values_standard [OF demo_request_holds(1) demo_request_holds(1), of "[115, 101]" "[112, 119]" "[128, 1]" "[9, 8, 7]" "\<lambda>n. True"]
    unfolding demo_request_holds(2) by simp
qed

theorem ms_attr_search_witness:
  "\<exists>m. msg_holds m [\<lparr>at_type = RADIUS_ATTR_VENDOR_SPECIFIC, at_data = [0, 0, 1, 55, 17, 0]\<rparr>] \<and>
     Radius_msg_get_ms_attr (\<lambda>n. True) RADIUS_VENDOR_ATTR_MS_MPPE_SEND_KEY (buf m) (attrs m) = None"
proof -
  let ?a = "\<lparr>at_type = RADIUS_ATTR_VENDOR_SPECIFIC, at_data = [0, 0, 1, 55, 17, 0]\<rparr>"
  have "length [0, 0, 1, 55, 17, 0 :: u8] \<le> RADIUS_MAX_ATTR_LEN" by (simp add: RADIUS_MAX_ATTR_LEN_def)
  then obtain m where m: "msg_holds m ([] @ [?a])" by (rule add_attr_holds [OF demo_request_holds(1)])
  have "ms_data ?a = Some [17, 0]" by (simp add: ms_data_def be32_def RADIUS_VENDOR_ID_MICROSOFT_def)
  then show ?thesis using ms_attr_search [OF m, of "\<lambda>n. True" RADIUS_VENDOR_ATTR_MS_MPPE_SEND_KEY] m
    by (intro exI [of _ m]) (force simp: RADIUS_VENDOR_ATTR_MS_MPPE_SEND_KEY_def)
qed

end
