(* ===== verification/Apd_Props.thy ===== *)
theory Apd_Props
  imports Apd_Loop Eapol_Env Radius_Claims
begin

text \<open>
  The 802.1X daemon against the station machines of \<open>Eapol_Env\<close>: every handler acts on the machine of
  one station as one event does, and leaves the others alone. With what \<open>Radius_msg_verify\<close> checks it
  follows who can make a port authorised.
\<close>

section \<open>What an operation leaves alone\<close>

definition sm_of :: "rtapd \<Rightarrow> nat \<Rightarrow> eapol_state_machine option" where
  "sm_of st i = Option.bind (stas st i) eapol_sm"

definition holds :: "radius_msg \<Rightarrow> bool" where
  "holds m \<longleftrightarrow> (\<exists>as. msg_holds m as)"

text \<open>
  The requests that wait for an answer have been sent, with the secret of a configured server; the
  answers that stations keep are messages.
\<close>

definition requests_ok :: "u8 list option set \<Rightarrow> rtapd \<Rightarrow> bool" where
  "requests_ok K st \<longleftrightarrow>
     (\<forall>e \<in> set (msgs st). req_secret e \<in> K \<and> RADIUS_HDR \<le> buf_used (req_msg e) \<and>
        buf_used (req_msg e) \<le> length (buf (req_msg e)) \<and> take (buf_used (req_msg e)) (buf (req_msg e)) \<in> set (net st)) \<and>
     (\<forall>i s r. stas st i = Some s \<longrightarrow> last_recv_radius s = Some r \<longrightarrow> holds r) \<and>
     (\<forall>srv \<in> set (auth_servers (conf st)). shared_secret srv \<in> K)"

definition keyless :: "rtapd \<Rightarrow> bool" where
  "keyless st \<longleftrightarrow> (\<forall>(d, n) \<in> set (driver st). \<exists>bs. d = Radius_data bs)"

text \<open>Nothing happens to the machines; without \<open>k\<close> a key may be given to the driver.\<close>

definition calm :: "u8 list option set \<Rightarrow> bool \<Rightarrow> rtapd \<Rightarrow> rtapd \<Rightarrow> bool" where
  "calm K k st st' \<longleftrightarrow>
     sm_of st' = sm_of st \<and> set (net st) \<subseteq> set (net st') \<and> (requests_ok K st \<longrightarrow> requests_ok K st') \<and>
     (k \<longrightarrow> keyless st \<longrightarrow> keyless st')"

lemma calm_refl [simp]: "calm K k st st"
  by (simp add: calm_def)

lemma calm_trans: "calm K k a b \<Longrightarrow> calm K k b c \<Longrightarrow> calm K k a c"
  by (auto simp: calm_def)

lemma calm_bind:
  "Option.bind x f = Some st' \<Longrightarrow> (\<And>a. x = Some a \<Longrightarrow> calm K k st (g a)) \<Longrightarrow>
   (\<And>a. x = Some a \<Longrightarrow> f a = Some st' \<Longrightarrow> calm K k (g a) st') \<Longrightarrow> calm K k st st'"
  by (auto simp: bind_eq_Some_conv intro: calm_trans)

lemma calm_cong:
  assumes "sm_of st' = sm_of st" "net st' = net st" "msgs st' = msgs st" "conf st' = conf st" "driver st' = driver st"
    and "\<And>i s' r. stas st' i = Some s' \<Longrightarrow> last_recv_radius s' = Some r \<Longrightarrow> \<exists>s. stas st i = Some s \<and> last_recv_radius s = Some r"
  shows "calm K k st st'"
  using assms(1-5) by (auto simp: calm_def requests_ok_def keyless_def dest: assms(6))

lemma upd_sta_calm:
  assumes "upd_sta i f st = Some st'" "\<And>s. eapol_sm (f s) = eapol_sm s"
    "\<And>s. last_recv_radius (f s) = last_recv_radius s \<or> last_recv_radius (f s) = None"
  shows "calm K k st st'"
proof (rule calm_cong)
  fix j s' r assume "stas st' j = Some s'" "last_recv_radius s' = Some r"
  then show "\<exists>s. stas st j = Some s \<and> last_recv_radius s = Some r"
    using assms(1) assms(3) by (auto simp: upd_sta_def split: if_splits) (metis option.distinct(1))
qed (use assms in \<open>auto simp: upd_sta_def sm_of_def fun_eq_iff\<close>)

lemma set_timer_calm [simp]: "calm K k st (set_timer env secs h u st)"
  by (rule calm_cong) (simp_all add: set_timer_def sm_of_def fun_eq_iff)

lemma cancel_timer_calm [simp]: "calm K k st (cancel_timer h u st)"
  by (rule calm_cong) (simp_all add: cancel_timer_def sm_of_def fun_eq_iff)

lemma RT_ioctl_calm:
  "(k \<Longrightarrow> \<exists>bs. d = Radius_data bs) \<Longrightarrow> RT_ioctl env d n st = (ok, st') \<Longrightarrow> calm K k st st'"
  by (auto simp: RT_ioctl_def calm_def sm_of_def fun_eq_iff requests_ok_def keyless_def)

lemma send_calm: "ieee802_1x_send env i ty data st = Some st' \<Longrightarrow> calm K k st st'"
  by (auto simp: ieee802_1x_send_def bind_eq_Some_conv split: if_splits intro: RT_ioctl_calm [OF _ surjective_pairing])

lemma request_identity_calm: "ieee802_1x_request_identity env i n st = Some st' \<Longrightarrow> calm K k st st'"
  by (auto simp: ieee802_1x_request_identity_def ieee802_1x_new_auth_session_def bind_eq_Some_conv split: if_splits
      intro: calm_trans [OF upd_sta_calm send_calm] upd_sta_calm)

lemma tx_req_calm: "ieee802_1x_tx_req env i n st = Some st' \<Longrightarrow> calm K k st st'"
  by (auto simp: ieee802_1x_tx_req_def bind_eq_Some_conv split: option.splits)
    (rule calm_trans [OF upd_sta_calm send_calm], assumption, simp, simp, assumption)

lemma tx_key_one_calm: "ieee802_1x_tx_key_one env i ix b d st = Some st' \<Longrightarrow> calm K k st st'"
  by (auto simp: ieee802_1x_tx_key_one_def bind_eq_Some_conv Let_def split: option.splits if_splits intro: send_calm)

lemma tx_key_calm: "ieee802_1x_tx_key env i n st = Some st' \<Longrightarrow> calm K False st st'"
proof -
  assume "ieee802_1x_tx_key env i n st = Some st'"
  moreover have io: "calm K False u (snd (RT_ioctl env d m u))" for u d m
    by (rule RT_ioctl_calm [OF _ surjective_pairing]) simp
  ultimately show ?thesis
    by (auto simp: ieee802_1x_tx_key_def bind_eq_Some_conv Let_def case_prod_beta split: if_splits
        intro: calm_trans [OF tx_key_one_calm io] calm_trans [OF calm_trans [OF tx_key_one_calm io] calm_trans [OF tx_key_one_calm io]])
qed

section \<open>Requests\<close>

lemma try_attr_holds: "holds m \<Longrightarrow> \<exists>r. try_attr ty d m = Some r \<and> holds (snd r)"
proof (cases "length d \<le> RADIUS_MAX_ATTR_LEN")
  case True
  assume "holds m"
  then obtain as where "msg_holds m as" by (auto simp: holds_def)
  from add_attr_holds [OF this True, of ty] show ?thesis
    by (metis holds_def option.simps(9) snd_conv split_conv try_attr_def)
qed (simp add: try_attr_def Radius_msg_add_attr_def)

lemma add_attr_int32_holds: "holds m \<Longrightarrow> \<exists>r. Radius_msg_add_attr_int32 ty v m = Some r \<and> holds (snd r)"
  using try_attr_holds [of m ty "be32_bytes v"] by (simp add: Radius_msg_add_attr_int32_def try_attr_def)

lemma then_add_holds:
  "\<exists>r. x = Some r \<and> holds (snd r) \<Longrightarrow> (\<And>m. holds m \<Longrightarrow> \<exists>r. f m = Some r \<and> holds (snd r)) \<Longrightarrow>
   \<exists>r. then_add x f = Some r \<and> holds (snd r)"
  by (auto simp: then_add_def)

lemma copy_state_holds:
  assumes "\<And>r. last_recv_radius s = Some r \<Longrightarrow> holds r" "holds m"
  shows "\<exists>r. copy_state s m = Some r \<and> holds (snd r)"
proof (cases "last_recv_radius s")
  case (Some r)
  then obtain as where r: "msg_holds r as" using assms(1) by (auto simp: holds_def)
  then have "0 < length (buf r)" by (auto simp: msg_holds_def RADIUS_HDR_def)
  then have c: "hdr_code r = Some (buf r ! 0)" unfolding hdr_code_def by (rule rd_in)
  show ?thesis
  proof (rule find_attr_msg [OF r, of RADIUS_ATTR_STATE])
    fix a d assume d: "attr_of RADIUS_ATTR_STATE as = Some d"
      "find_attr (buf r) RADIUS_ATTR_STATE (attrs r) = Some (Some a)" "attr_value (buf r) a = Some d"
    obtain x where x: "try_attr RADIUS_ATTR_STATE d m = Some x" "holds (snd x)" using try_attr_holds [OF assms(2)] by blast
    then obtain q m' where "Radius_msg_add_attr RADIUS_ATTR_STATE d m = Some (q, m')" "holds m'"
      by (auto simp: try_attr_def)
    then show ?thesis using Some c d(2,3) assms(2) by (auto simp: copy_state_def Radius_msg_copy_attr_def)
  qed (use Some c assms(2) in \<open>auto simp: copy_state_def Radius_msg_copy_attr_def\<close>)
qed (simp add: copy_state_def assms(2))

lemma request_attrs_holds:
  assumes "\<And>r. last_recv_radius s = Some r \<Longrightarrow> holds r" "holds m"
  shows "\<exists>r. request_attrs st s eap m = Some r \<and> holds (snd r)"
proof -
  have eap: "\<exists>r. (case eap of None \<Rightarrow> Some (True, m) | Some e \<Rightarrow> Radius_msg_add_eap e m) = Some r \<and> holds (snd r)"
    if "holds m" for m
    using that add_eap_holds by (fastforce simp: holds_def split: option.split)
  have name: "\<exists>r. (case sta_identity s of None \<Rightarrow> Some (True, m) | Some d \<Rightarrow> try_attr RADIUS_ATTR_USER_NAME d m) = Some r \<and> holds (snd r)"
    using assms(2) try_attr_holds by (auto split: option.split)
  show ?thesis
    unfolding request_attrs_def
    by (intro then_add_holds name eap try_attr_holds add_attr_int32_holds copy_state_holds [OF assms(1)])
qed

lemma new_msg_holds: "\<exists>m. Radius_msg_new c n = Some m \<and> holds m \<and> length (buf m) = RADIUS_DEFAULT_MSG_SIZE"
  using new_holds by (metis holds_def)

lemma make_authenticator_holds:
  assumes "holds m"
  shows "\<exists>m'. Radius_msg_make_authenticator tv l d m = Some m' \<and> holds m'"
proof -
  define a where "a = MD5Final (MD5Update (MD5Update (MD5Update MD5Init tv) d) l)"
  obtain as where m: "msg_holds m as" using assms by (auto simp: holds_def)
  have len: "RADIUS_HDR \<le> length (buf m)" using m by (simp add: msg_holds_def)
  have la: "length a = 16" by (simp add: a_def length_MD5Final)
  have w: "wr_bytes (buf m) 4 a = Some (take 4 (buf m) @ a @ drop RADIUS_HDR (buf m))"
    using len la by (simp add: wr_bytes_def RADIUS_HDR_def)
  have "msg_holds (m\<lparr>buf := take 4 (buf m) @ a @ drop RADIUS_HDR (buf m)\<rparr>) as"
    using m len la by (simp add: msg_holds_def holds_at_def RADIUS_HDR_def)
  then show ?thesis using w by (auto simp: Radius_msg_make_authenticator_def a_def holds_def)
qed

text \<open>Finishing never makes a message shorter than its header.\<close>

lemma finish_size:
  assumes "Radius_msg_finish secret m = Some m'" "holds m"
  shows "RADIUS_HDR \<le> buf_used m' \<and> buf_used m' \<le> length (buf m')"
proof -
  have len: "length (buf y) = length (buf x) \<and> buf_used y = buf_used x" if "set_length x = Some y" for x y
    using that by (auto simp: set_length_def dest: length_wr_bytes)
  have le: "RADIUS_HDR \<le> buf_used x \<and> buf_used x \<le> length (buf x)" if "holds x" for x
    using that by (auto simp: holds_def msg_holds_def)
  show ?thesis
  proof (cases secret)
    case None
    then show ?thesis using assms len le by (fastforce simp: Radius_msg_finish_def)
  next
    case (Some k)
    obtain as where "msg_holds m as" using assms(2) by (auto simp: holds_def)
    moreover have "length (replicate MD5_MAC_LEN (0 :: u8)) \<le> RADIUS_MAX_ATTR_LEN" by (simp add: radius_consts)
    ultimately obtain m1 where m1: "Radius_msg_add_attr RADIUS_ATTR_MESSAGE_AUTHENTICATOR (replicate MD5_MAC_LEN 0) m = Some (Some (buf_used m), m1)"
      "holds m1" by (metis add_attr_holds holds_def)
    then obtain m2 b where m2: "set_length m1 = Some m2" "wr_bytes (buf m2) (buf_used m + 2) (hmac_md5 k (take (buf_used m2) (buf m2))) = Some b"
      "m' = m2\<lparr>buf := b\<rparr>"
      using assms(1) by (auto simp: Radius_msg_finish_def Some bind_eq_Some_conv)
    then show ?thesis using len [OF m2(1)] le [OF m1(2)] length_wr_bytes [OF m2(2)] by simp
  qed
qed

lemma list_add_frame [simp]:
  "stas (Radius_client_list_add env m s st) = stas st" "net (Radius_client_list_add env m s st) = net st"
  "driver (Radius_client_list_add env m s st) = driver st" "conf (Radius_client_list_add env m s st) = conf st"
  by (simp_all add: Radius_client_list_add_def Let_def set_timer_def)

lemma client_send_frame:
  "Radius_client_send env m st = Some st' \<Longrightarrow> sm_of st' = sm_of st \<and> set (net st) \<subseteq> set (net st') \<and> driver st' = driver st"
  by (auto simp: Radius_client_send_def bind_eq_Some_conv sm_of_def fun_eq_iff)

lemma client_send_calm:
  assumes "Radius_client_send env m st = Some st'" "holds m"
  shows "calm K k st st'"
proof -
  obtain srv m' where s: "current_server st = Some srv" "Radius_msg_finish (shared_secret srv) m = Some m'"
    "st' = Radius_client_list_add env m' (shared_secret srv) (st\<lparr>net := net st @ [take (buf_used m') (buf m')]\<rparr>)"
    using assms(1) by (auto simp: Radius_client_send_def bind_eq_Some_conv)
  have srv: "srv \<in> set (auth_servers (conf st))"
    using s(1) by (auto simp: current_server_def split: if_splits)
  have "set (butlast xs) \<subseteq> set xs" for xs :: "radius_msg_list list" by (auto dest: in_set_butlastD)
  then show ?thesis
    using finish_size [OF s(2) assms(2)] srv
    unfolding s(3) Radius_client_list_add_def calm_def Let_def
    by (auto simp: requests_ok_def keyless_def sm_of_def set_timer_def fun_eq_iff split: if_splits dest: in_set_butlastD)
qed

lemma get_id_calm: "Radius_client_get_id st = Some (j, st') \<Longrightarrow> calm K k st st'"
proof -
  have sub: "drop_identifier j f es = Some es' \<Longrightarrow> set es' \<subseteq> set es" for j f es es'
  proof (induction es arbitrary: f es')
    case (Cons e es)
    then show ?case by (auto simp: bind_eq_Some_conv split: if_splits) blast+
  qed simp
  assume "Radius_client_get_id st = Some (j, st')"
  then obtain ms where "drop_identifier j False (msgs st) = Some ms" "st' = st\<lparr>next_radius_identifier := j + 1, msgs := ms\<rparr>"
    by (auto simp: Radius_client_get_id_def Let_def)
  then show ?thesis using sub by (fastforce simp: calm_def requests_ok_def keyless_def sm_of_def fun_eq_iff)
qed

lemma encapsulate_calm:
  assumes "ieee802_1x_encapsulate_radius env i eap st = Some st'"
  shows "calm K k st st'"
proof -
  obtain j st1 st2 m m1 s ok m2 where 1: "Radius_client_get_id st = Some (j, st1)"
    "upd_sta i (\<lambda>s. s\<lparr>radius_identifier := int (unat j)\<rparr>) st1 = Some st2"
    and m: "Radius_msg_new RADIUS_CODE_ACCESS_REQUEST j = Some m"
    "\<exists>tv l d. Radius_msg_make_authenticator tv l d m = Some m1"
    and s: "stas st2 i = Some s" "request_attrs st2 s eap m1 = Some (ok, m2)"
    and r: "(if ok then Radius_client_send env m2 st2 else Some st2) = Some st'"
    using assms by (auto simp: ieee802_1x_encapsulate_radius_def bind_eq_Some_conv case_prod_beta) (metis snd_conv)
  have c2: "calm K k st st2" using get_id_calm [OF 1(1)] upd_sta_calm [OF 1(2)] calm_trans by fastforce
  have "calm K k st2 st'"
  proof (cases "requests_ok K st2")
    case True
    have "holds m" using new_msg_holds [of RADIUS_CODE_ACCESS_REQUEST j] m(1) by simp
    moreover obtain tv l d where "Radius_msg_make_authenticator tv l d m = Some m1" using m(2) by blast
    ultimately have "holds m1" using make_authenticator_holds [of m tv l d] by simp
    then have "holds m2"
      using request_attrs_holds [of s m1 st2 eap] s True unfolding requests_ok_def by fastforce
    then show ?thesis using r client_send_calm by (auto split: if_splits)
  next
    case False
    have "sm_of st' = sm_of st2 \<and> set (net st2) \<subseteq> set (net st') \<and> driver st' = driver st2"
      using r client_send_frame by (cases ok) auto
    then show ?thesis using False by (simp add: calm_def keyless_def)
  qed
  with c2 show ?thesis by (rule calm_trans)
qed

lemma sm_do_calm: "sm_do env i c st = Some st' \<Longrightarrow> (k \<Longrightarrow> \<forall>x. c \<noteq> TxKey x) \<Longrightarrow> calm K k st st'"
proof (cases c)
  case (TxKey x)
  then show "sm_do env i c st = Some st' \<Longrightarrow> (k \<Longrightarrow> \<forall>x. c \<noteq> TxKey x) \<Longrightarrow> calm K k st st'"
    using tx_key_calm [of env i x st st' K] by (cases k) simp_all
qed (auto simp: ieee802_1x_tx_canned_eap_def ieee802_1x_send_resp_to_server_def bind_eq_Some_conv
    intro: send_calm request_identity_calm tx_req_calm encapsulate_calm)

lemma sm_dos_calm: "sm_dos env i cs st = Some st' \<Longrightarrow> (k \<Longrightarrow> \<forall>x. TxKey x \<notin> set cs) \<Longrightarrow> calm K k st st'"
proof (induction cs arbitrary: st)
  case (Cons c cs)
  then obtain st1 where "sm_do env i c st = Some st1" "sm_dos env i cs st1 = Some st'"
    by (auto simp: bind_eq_Some_conv)
  moreover from this have "calm K k st st1" using sm_do_calm Cons.prems(2) by (metis list.set_intros(1))
  ultimately show ?case using Cons calm_trans by (metis list.set_intros(2))
qed simp

section \<open>What happens to the machines\<close>

text \<open>
  The specification of a handler: the machine of a station makes one event, is allocated (perhaps
  with the port enabled) or freed.
\<close>

inductive sms_step :: "sm_event set \<Rightarrow> (nat \<Rightarrow> eapol_state_machine option) \<Rightarrow> (nat \<Rightarrow> eapol_state_machine option) \<Rightarrow> bool"
  for A where
  event: "m i = Some sm \<Longrightarrow> e \<in> A \<Longrightarrow> sm_handle e sm = Some sm' \<Longrightarrow> sms_step A m (m(i \<mapsto> sm'))"
| alloc: "eapol_sm_alloc True c = Some (Some sm) \<Longrightarrow> sms_step A m (m(i \<mapsto> sm))"
| enable: "eapol_sm_alloc True c = Some (Some sm) \<Longrightarrow> sms_step A m (m(i \<mapsto> sm\<lparr>portEnabled := True\<rparr>))"
| free: "sms_step A m (m(i := None))"

abbreviation "sms_steps A \<equiv> (sms_step A)\<^sup>*\<^sup>*"

definition all_reach :: "sm_event set \<Rightarrow> (nat \<Rightarrow> eapol_state_machine option) \<Rightarrow> bool" where
  "all_reach A m \<longleftrightarrow> (\<forall>i sm. m i = Some sm \<longrightarrow> (\<exists>c. sm_reach A c sm))"

lemma sms_step_reach: "sms_step A m m' \<Longrightarrow> A \<subseteq> B \<Longrightarrow> all_reach B m \<Longrightarrow> all_reach B m'"
  by (induction rule: sms_step.induct) (fastforce simp: all_reach_def intro: sm_reach.intros)+

lemma sms_steps_reach: "sms_steps A m m' \<Longrightarrow> A \<subseteq> B \<Longrightarrow> all_reach B m \<Longrightarrow> all_reach B m'"
  by (induction rule: rtranclp_induct) (auto intro: sms_step_reach)

abbreviation "no_accept \<equiv> {e. \<not> is_accept e}"

definition acts :: "sm_event set \<Rightarrow> u8 list option set \<Rightarrow> rtapd \<Rightarrow> rtapd \<Rightarrow> bool" where
  "acts A K st st' \<longleftrightarrow>
     sms_steps A (sm_of st) (sm_of st') \<and> set (net st) \<subseteq> set (net st') \<and> (requests_ok K st \<longrightarrow> requests_ok K st') \<and>
     (A \<subseteq> no_accept \<longrightarrow> all_reach no_accept (sm_of st) \<longrightarrow> keyless st \<longrightarrow> keyless st')"

lemma acts_refl [simp]: "acts A K st st"
  by (simp add: acts_def)

lemma acts_trans: "acts A K a b \<Longrightarrow> acts A K b c \<Longrightarrow> acts A K a c"
  unfolding acts_def using sms_steps_reach by (metis (no_types, lifting) dual_order.trans rtranclp_trans)

lemma calm_acts: "calm K (A \<subseteq> no_accept) st st' \<Longrightarrow> acts A K st st'"
  by (simp add: calm_def acts_def)

text \<open>Changes of the machine \<open>i\<close> alone.\<close>

definition set_sm :: "u8 list option set \<Rightarrow> nat \<Rightarrow> eapol_state_machine \<Rightarrow> eapol_state_machine \<Rightarrow> rtapd \<Rightarrow> rtapd \<Rightarrow> bool" where
  "set_sm K i sm sm' st st' \<longleftrightarrow>
     sm_of st i = Some sm \<and> sm_of st' = (sm_of st)(i \<mapsto> sm') \<and> set (net st) \<subseteq> set (net st') \<and> (requests_ok K st \<longrightarrow> requests_ok K st')"

lemma set_sm_trans: "set_sm K i a b st st1 \<Longrightarrow> set_sm K i b c st1 st2 \<Longrightarrow> set_sm K i a c st st2"
  by (auto simp: set_sm_def)

lemma set_sm_next: "set_sm K i a b st st1 \<Longrightarrow> set_sm K i c d st1 st2 \<Longrightarrow> c = b"
  by (simp add: set_sm_def)

lemma set_sm_calm: "set_sm K i a b st st1 \<Longrightarrow> calm K k st1 st2 \<Longrightarrow> set_sm K i a b st st2"
  "calm K k st st1 \<Longrightarrow> set_sm K i a b st1 st2 \<Longrightarrow> set_sm K i a b st st2"
  by (auto simp: set_sm_def calm_def)

lemma upd_sm_set:
  assumes "upd_sm i f st = Some st'"
  shows "\<exists>sm. set_sm K i sm (f sm) st st' \<and> driver st' = driver st"
proof -
  obtain s sm where s: "stas st i = Some s" "eapol_sm s = Some sm" "upd_sta i (\<lambda>s. s\<lparr>eapol_sm := Some (f sm)\<rparr>) st = Some st'"
    using assms by (auto simp: upd_sm_def bind_eq_Some_conv)
  have st': "st' = st\<lparr>stas := (stas st)(i \<mapsto> s\<lparr>eapol_sm := Some (f sm)\<rparr>)\<rparr>" using s by (simp add: upd_sta_def)
  have "sm_of st i = Some sm" using s by (simp add: sm_of_def)
  moreover have "sm_of st' = (sm_of st)(i \<mapsto> f sm)" by (simp add: st' sm_of_def fun_eq_iff)
  moreover have "requests_ok K st'" if "requests_ok K st"
    using that s(1) unfolding st' requests_ok_def by simp
  ultimately show ?thesis unfolding set_sm_def by (simp add: st')
qed

lemma run_sm_set:
  assumes "run_sm env i f st = Some st'"
  shows "\<exists>sm sm'. set_sm K i sm sm' st st' \<and> f sm = Some sm' \<and>
    (keyless st \<longrightarrow> (\<forall>x. TxKey x \<notin> set (calls sm')) \<longrightarrow> keyless st')"
proof -
  obtain s sm sm' st1 where s: "stas st i = Some s" "eapol_sm s = Some sm" "f sm = Some sm'"
    "upd_sm i (\<lambda>_. sm') st = Some st1" "sm_dos env i (drop (length (calls sm)) (calls sm')) st1 = Some st'"
    using assms by (auto simp: run_sm_def bind_eq_Some_conv)
  have 1: "set_sm K i sm sm' st st1" "driver st1 = driver st"
    using upd_sm_set [OF s(4), of K] s(1,2) by (auto simp: set_sm_def sm_of_def)
  have "calm K False st1 st'" using sm_dos_calm [OF s(5)] by simp
  then have "set_sm K i sm sm' st st'" by (rule set_sm_calm(1) [OF 1(1)])
  moreover have "keyless st'" if "keyless st" "\<forall>x. TxKey x \<notin> set (calls sm')"
  proof -
    have "calm K True st1 st'"
      using sm_dos_calm [OF s(5), of True K] that(2) in_set_dropD by fastforce
    then show ?thesis using that(1) 1(2) by (simp add: calm_def keyless_def)
  qed
  ultimately show ?thesis using s(3) by blast
qed

text \<open>A write of one event followed by the step of that event.\<close>

lemma event_acts:
  assumes "set_sm K i sm sm' st st'" "sm_handle e sm = Some sm'" "e \<in> A"
    and "keyless st \<Longrightarrow> sm_locked sm \<Longrightarrow> \<not> is_accept e \<Longrightarrow> keyless st'"
  shows "acts A K st st'"
proof -
  have "sms_step A (sm_of st) (sm_of st')"
    using assms(1) event [of "sm_of st" i sm, OF _ assms(3,2)] by (simp add: set_sm_def)
  moreover have "keyless st'" if A: "A \<subseteq> no_accept" "all_reach no_accept (sm_of st)" "keyless st"
  proof -
    obtain c where "sm_reach no_accept c sm" using A(2) assms(1) unfolding all_reach_def set_sm_def by blast
    then show ?thesis using sm_reach_locked assms(3,4) A(1,3) by blast
  qed
  ultimately show ?thesis using assms(1) by (auto simp: acts_def set_sm_def)
qed

lemma locked_keyless:
  assumes "keyless st \<longrightarrow> (\<forall>x. TxKey x \<notin> set (calls sm')) \<longrightarrow> keyless st'" "sm_locked sm'" "keyless st"
  shows "keyless st'"
  using assms by (auto simp: sm_locked_def)

section \<open>Frames\<close>

lemma keyless_driver: "driver st' = driver st \<Longrightarrow> keyless st' = keyless st"
  by (simp add: keyless_def)

text \<open>One write, one step.\<close>

lemma write_step_acts:
  assumes "set_sm K i sm (sm_event_write e sm) st st1" "driver st1 = driver st" "run_sm env i eapol_sm_step st1 = Some st'"
    and "e \<in> A" "e \<noteq> Tick" "e \<noteq> EapolStart" "e \<noteq> EapolLogoff"
  shows "acts A K st st'"
proof -
  obtain w sm' where 2: "set_sm K i w sm' st1 st'" "eapol_sm_step w = Some sm'"
    "keyless st1 \<longrightarrow> (\<forall>x. TxKey x \<notin> set (calls sm')) \<longrightarrow> keyless st'"
    using run_sm_set [OF assms(3)] by blast
  have w: "w = sm_event_write e sm" by (rule set_sm_next [OF assms(1) 2(1)])
  have h: "sm_handle e sm = Some sm'" using 2(2) assms(5-7) unfolding w by (cases e) simp_all
  show ?thesis
  proof (rule event_acts [OF set_sm_trans [OF assms(1) 2(1) [unfolded w]] h assms(4)])
    assume k: "keyless st" "sm_locked sm" "\<not> is_accept e"
    have "keyless st1" using k(1) keyless_driver [OF assms(2)] by simp
    then show "keyless st'" by (rule locked_keyless [OF 2(3) sm_handle_locked [OF k(2,3) h]])
  qed
qed

text \<open>EAPOL-Start and EAPOL-Logoff step twice.\<close>

lemma two_steps_act:
  assumes "set_sm K i sm (sm_event_write e sm) st st1" "driver st1 = driver st" "run_sm env i eapol_sm_step st1 = Some st2"
    "run_sm env i eapol_sm_step st2 = Some st'" "e \<in> A" "e = EapolStart \<or> e = EapolLogoff"
  shows "acts A K st st'"
proof -
  obtain w t where 2: "set_sm K i w t st1 st2" "eapol_sm_step w = Some t"
    "keyless st1 \<longrightarrow> (\<forall>x. TxKey x \<notin> set (calls t)) \<longrightarrow> keyless st2"
    using run_sm_set [OF assms(3)] by blast
  obtain t' sm' where 3: "set_sm K i t' sm' st2 st'" "eapol_sm_step t' = Some sm'"
    "keyless st2 \<longrightarrow> (\<forall>x. TxKey x \<notin> set (calls sm')) \<longrightarrow> keyless st'"
    using run_sm_set [OF assms(4)] by blast
  have w: "w = sm_event_write e sm" "t' = t" by (rule set_sm_next [OF assms(1) 2(1)], rule set_sm_next [OF 2(1) 3(1)])
  have h: "sm_handle e sm = Some sm'" using 2(2) 3(2) assms(6) unfolding w by auto
  show ?thesis
  proof (rule event_acts [OF set_sm_trans [OF set_sm_trans [OF assms(1) 2(1) [unfolded w]] 3(1) [unfolded w]] h assms(5)])
    assume k: "keyless st" "sm_locked sm" "\<not> is_accept e"
    have "sm_locked (sm_event_write EapolStart sm)" "sm_locked (sm_event_write EapolLogoff sm)"
      using k(2) by (simp_all add: sm_locked_def)
    then have "sm_locked (sm_event_write e sm)" using assms(6) by blast
    then have t: "sm_locked t" by (rule sm_step_locked [OF 2(2) [unfolded w]])
    have "keyless st1" using k(1) keyless_driver [OF assms(2)] by simp
    then have "keyless st2" by (rule locked_keyless [OF 2(3) t])
    then show "keyless st'" by (rule locked_keyless [OF 3(3) sm_step_locked [OF 3(2) [unfolded w] t]])
  qed
qed

lemma handle_eap_set:
  assumes "handle_eap env i eap len st = Some st'" "sm_of st i = Some sm"
  shows "\<exists>e \<in> {OtherFrame, ResponseIdentity, ResponseOther True, ResponseOther False}.
    set_sm K i sm (sm_event_write e sm) st st' \<and> driver st' = driver st"
proof -
  have same: "set_sm K i sm (sm_event_write OtherFrame sm) st u \<and> driver u = driver st"
    if "calm K k st u" "driver u = driver st" for u k
    using that assms(2) by (auto simp: set_sm_def calm_def)
  have resp: ?thesis if r: "handle_eap_response env i eap n st = Some st'" for n
  proof -
    obtain s where s: "stas st i = Some s" "eapol_sm s = Some sm" using assms(2) by (auto simp: sm_of_def bind_eq_Some_conv)
    consider "st' = st" | "upd_sta i (\<lambda>s. s\<lparr>last_eap_supp := None\<rparr>) st = Some st'"
      | supp st1 where "upd_sta i (\<lambda>s. s\<lparr>last_eap_supp := Some supp\<rparr>) st = Some st1"
        "(if supp ! 4 = EAP_TYPE_IDENTITY
         then Option.bind (upd_sm i (\<lambda>sm. sm\<lparr>auth_pae := (auth_pae sm)\<lparr>rxInitialRsp := True\<rparr>\<rparr>) st1)
                (upd_sta i (save_identity env (drop 5 supp)))
         else upd_sm i (\<lambda>sm. sm\<lparr>be_auth := (be_auth sm)\<lparr>backendNonNakResponsesFromSupplicant :=
                  inc_if (supp ! 4 \<noteq> EAP_TYPE_NAK) (backendNonNakResponsesFromSupplicant (be_auth sm)), rxResp := True\<rparr>\<rparr>) st1) = Some st'"
    proof (cases "n < 1 \<or> \<not> mem env (4 + n)")
      case True
      then show thesis using r s that(1,2) by (cases "n < 1") (simp_all add: handle_eap_response_def)
    next
      case False
      then have "Option.bind (rd_bytes eap 0 (4 + n)) (\<lambda>supp. Option.bind (upd_sta i (\<lambda>s. s\<lparr>last_eap_supp := Some supp\<rparr>) st) (\<lambda>st1.
          if supp ! 4 = EAP_TYPE_IDENTITY
          then Option.bind (upd_sm i (\<lambda>sm. sm\<lparr>auth_pae := (auth_pae sm)\<lparr>rxInitialRsp := True\<rparr>\<rparr>) st1)
                (upd_sta i (save_identity env (drop 5 supp)))
          else upd_sm i (\<lambda>sm. sm\<lparr>be_auth := (be_auth sm)\<lparr>backendNonNakResponsesFromSupplicant :=
                  inc_if (supp ! 4 \<noteq> EAP_TYPE_NAK) (backendNonNakResponsesFromSupplicant (be_auth sm)), rxResp := True\<rparr>\<rparr>) st1)) = Some st'"
        using r unfolding handle_eap_response_def Let_def by (simp only: s Option.bind.simps if_False not_False_eq_True de_Morgan_disj)
      then show thesis unfolding bind_eq_Some_conv using that(3) by blast
    qed
    then show ?thesis
    proof cases
      case 1
      then show ?thesis using same [where u = st and k = False] by auto
    next
      case 2
      have "calm K False st st'" by (rule upd_sta_calm [OF 2]) simp_all
      moreover have "driver st' = driver st" using 2 by (auto simp: upd_sta_def)
      ultimately show ?thesis using same by blast
    next
      case 3
      have c: "calm K False st st1" "driver st1 = driver st"
        using upd_sta_calm [OF 3(1)] 3(1) by (auto simp: upd_sta_def)
      show ?thesis
      proof (cases "supp ! 4 = EAP_TYPE_IDENTITY")
        case True
        then obtain st2 where 2: "upd_sm i (\<lambda>sm. sm\<lparr>auth_pae := (auth_pae sm)\<lparr>rxInitialRsp := True\<rparr>\<rparr>) st1 = Some st2"
          "upd_sta i (save_identity env (drop 5 supp)) st2 = Some st'" using 3(2) by (auto simp: bind_eq_Some_conv)
        have c': "calm K False st2 st'" "driver st' = driver st2"
          using upd_sta_calm [OF 2(2)] 2(2) by (auto simp: upd_sta_def save_identity_def)
        have "set_sm K i sm (sm_event_write ResponseIdentity sm) st1 st2" "driver st2 = driver st1"
          using upd_sm_set [OF 2(1), of K] c(1) assms(2) by (auto simp: set_sm_def calm_def)
        then show ?thesis using set_sm_calm(2) [OF c(1) set_sm_calm(1) [OF _ c'(1)]] c'(2) c(2) by auto
      next
        case False
        have "set_sm K i sm (sm_event_write (ResponseOther (supp ! 4 = EAP_TYPE_NAK)) sm) st1 st'" "driver st' = driver st1"
          using upd_sm_set [of i _ st1 st' K] 3(2) False c(1) assms(2) by (auto simp: set_sm_def calm_def)
        then show ?thesis using set_sm_calm(2) [OF c(1)] c(2) by (cases "supp ! 4 = EAP_TYPE_NAK") auto
      qed
    qed
  qed
  have "st' = st \<or> (\<exists>n. handle_eap_response env i eap n st = Some st')"
    using assms(1) unfolding handle_eap_def bind_eq_Some_conv by (auto split: if_splits simp: bind_eq_Some_conv)
  then show ?thesis using resp same [where u = st and k = False] by auto
qed

lemma eapol_acts:
  assumes "Option.bind (handle_eapol env i ty eap n st) (run_sm env i eapol_sm_step) = Some st'" "sm_of st i \<noteq> None" "no_accept \<subseteq> A"
  shows "acts A K st st'"
proof -
  obtain sm where sm: "sm_of st i = Some sm" using assms(2) by blast
  obtain st1 where 1: "handle_eapol env i ty eap n st = Some st1" "run_sm env i eapol_sm_step st1 = Some st'"
    using assms(1) by (auto simp: bind_eq_Some_conv)
  have in_A: "e \<in> A" if "\<not> is_accept e" for e using that assms(3) by blast
  consider "ty = IEEE802_1X_TYPE_EAP_PACKET" | "ty = IEEE802_1X_TYPE_EAPOL_START" | "ty = IEEE802_1X_TYPE_EAPOL_LOGOFF"
    | "ty \<noteq> IEEE802_1X_TYPE_EAP_PACKET" "ty \<noteq> IEEE802_1X_TYPE_EAPOL_START" "ty \<noteq> IEEE802_1X_TYPE_EAPOL_LOGOFF" by blast
  then show ?thesis
  proof cases
    case 1
    then have "handle_eap env i eap n st = Some st1" using \<open>handle_eapol env i ty eap n st = Some st1\<close> by (simp add: handle_eapol_def)
    from handle_eap_set [OF this sm, of K] obtain e where e: "e \<in> {OtherFrame, ResponseIdentity, ResponseOther True, ResponseOther False}"
      "set_sm K i sm (sm_event_write e sm) st st1" "driver st1 = driver st" by blast
    have "e \<in> A" "e \<noteq> Tick" "e \<noteq> EapolStart" "e \<noteq> EapolLogoff" using e(1) in_A by auto
    from write_step_acts [OF e(2,3) \<open>run_sm env i eapol_sm_step st1 = Some st'\<close> this] show ?thesis .
  next
    case 2
    then obtain st2 where 2: "upd_sm i (\<lambda>sm. sm\<lparr>auth_pae := (auth_pae sm)\<lparr>eapStart := True\<rparr>\<rparr>) st = Some st2"
      "run_sm env i eapol_sm_step st2 = Some st1"
      using 1(1) by (auto simp: handle_eapol_def bind_eq_Some_conv IEEE802_1X_TYPE_EAP_PACKET_def IEEE802_1X_TYPE_EAPOL_START_def)
    obtain sm0 where "set_sm K i sm0 (sm_event_write EapolStart sm0) st st2" "driver st2 = driver st"
      using upd_sm_set [OF 2(1), of K] by auto
    from two_steps_act [OF this 2(2) \<open>run_sm env i eapol_sm_step st1 = Some st'\<close>, of A] show ?thesis using in_A by simp
  next
    case 3
    then obtain st2 where 2: "upd_sm i (\<lambda>sm. sm\<lparr>auth_pae := (auth_pae sm)\<lparr>eapLogoff := True\<rparr>\<rparr>) st = Some st2"
      "run_sm env i eapol_sm_step st2 = Some st1"
      using 1(1) by (auto simp: handle_eapol_def bind_eq_Some_conv IEEE802_1X_TYPE_EAP_PACKET_def IEEE802_1X_TYPE_EAPOL_START_def
          IEEE802_1X_TYPE_EAPOL_LOGOFF_def)
    obtain sm0 where "set_sm K i sm0 (sm_event_write EapolLogoff sm0) st st2" "driver st2 = driver st"
      using upd_sm_set [OF 2(1), of K] by auto
    from two_steps_act [OF this 2(2) \<open>run_sm env i eapol_sm_step st1 = Some st'\<close>, of A] show ?thesis using in_A by simp
  next
    case 4
    then have "st1 = st" using \<open>handle_eapol env i ty eap n st = Some st1\<close> by (simp add: handle_eapol_def)
    moreover have "set_sm K i sm (sm_event_write OtherFrame sm) st st" using sm by (simp add: set_sm_def fun_upd_idem)
    ultimately show ?thesis
      using write_step_acts [of K i sm OtherFrame st st env st' A] \<open>run_sm env i eapol_sm_step st1 = Some st'\<close> in_A by simp
  qed
qed

section \<open>Stations come and go\<close>

lemma new_machine_acts:
  assumes "new_machine env i st = Some (ok, st')"
  shows "acts A K st st' \<and> (if ok then \<exists>c sm. eapol_sm_alloc True c = Some (Some sm) \<and> sm_of st' i = Some sm else st' = st)"
proof (cases "sm_mem env")
  case False
  then show ?thesis using assms by (auto simp: new_machine_def eapol_sm_alloc_def)
next
  case True
  then obtain sm st1 where 1: "eapol_sm_alloc True (session_conf (conf st)) = Some (Some sm)" "sm_dos env i (calls sm) st = Some st1"
    "upd_sta i (\<lambda>s. s\<lparr>eapol_sm := Some sm\<rparr>) st1 = Some st'" "ok"
    using assms by (auto simp: new_machine_def eapol_sm_alloc_def bind_eq_Some_conv)
  have "sm_locked sm" using 1(1) by (rule sm_alloc_locked)
  then have c: "calm K k st st1" for k using sm_dos_calm [OF 1(2)] by (auto simp: sm_locked_def)
  obtain s where s: "stas st1 i = Some s" "st' = st1\<lparr>stas := (stas st1)(i \<mapsto> s\<lparr>eapol_sm := Some sm\<rparr>)\<rparr>"
    using 1(3) by (auto simp: upd_sta_def)
  have m: "sm_of st' = (sm_of st1)(i \<mapsto> sm)" by (simp add: s(2) sm_of_def fun_eq_iff)
  have "sms_step A (sm_of st1) (sm_of st')" unfolding m by (rule sms_step.alloc [OF 1(1)])
  moreover have "requests_ok K st'" if "requests_ok K st1" using that s(1) unfolding s(2) requests_ok_def by simp
  ultimately have "acts A K st1 st'" unfolding acts_def by (simp add: s(2) keyless_def)
  then show ?thesis using acts_trans [OF calm_acts [OF c]] 1(1,4) m by auto
qed

lemma new_station_acts:
  assumes "ieee802_1x_new_station env i st = Some st'" "no_accept \<subseteq> A"
  shows "acts A K st st'"
proof -
  obtain s where s: "stas st i = Some s" using assms(1) by (auto simp: ieee802_1x_new_station_def bind_eq_Some_conv)
  show ?thesis
  proof (cases "eapol_sm s = None")
    case False
    then obtain st1 where 1: "upd_sm i (\<lambda>sm. sm\<lparr>portEnabled := True\<rparr>) st = Some st1" "run_sm env i eapol_sm_step st1 = Some st'"
      using assms(1) s by (auto simp: ieee802_1x_new_station_def bind_eq_Some_conv)
    obtain sm where "set_sm K i sm (sm_event_write NewStation sm) st st1" "driver st1 = driver st"
      using upd_sm_set [OF 1(1), of K] by auto
    moreover have "NewStation \<in> A" using assms(2) by auto
    ultimately show ?thesis using write_step_acts [OF _ _ 1(2)] by blast
  next
    case True
    then obtain ok st1 where 1: "new_machine env i st = Some (ok, st1)"
      "(if ok then upd_sm i (\<lambda>sm. sm\<lparr>portEnabled := True\<rparr>) st1 else Some st1) = Some st'"
      using assms(1) s by (auto simp: ieee802_1x_new_station_def bind_eq_Some_conv)
    have a: "acts A K st st1" using new_machine_acts [OF 1(1)] by blast
    show ?thesis
    proof (cases ok)
      case True
      then have u: "upd_sm i (\<lambda>sm. sm\<lparr>portEnabled := True\<rparr>) st1 = Some st'" using 1(2) by simp
      obtain c sm where c: "eapol_sm_alloc True c = Some (Some sm)" "sm_of st1 i = Some sm"
        using new_machine_acts [OF 1(1), of A K] True by (simp, blast)
      obtain sm0 where p: "set_sm K i sm0 (sm0\<lparr>portEnabled := True\<rparr>) st1 st'" "driver st' = driver st1"
        using upd_sm_set [OF u, of K] by auto
      have m: "sm_of st' = (sm_of st1)(i \<mapsto> sm\<lparr>portEnabled := True\<rparr>)" using p(1) c(2) by (simp add: set_sm_def)
      have "sms_step A (sm_of st1) (sm_of st')" unfolding m by (rule sms_step.enable [OF c(1)])
      then have "acts A K st1 st'" using p by (simp add: acts_def set_sm_def keyless_def)
      with a show ?thesis by (rule acts_trans)
    qed (use a 1(2) in simp)
  qed
qed

lemma get_sta_acts:
  assumes "Ap_get_sta env sa ix st = Some (r, st')" "no_accept \<subseteq> A"
  shows "acts A K st st'"
proof -
  obtain h r0 where h: "STA_HASH sa = Some h" "find_addr (stas st) sa (sta_hash st h) = Some r0"
    using assms(1) by (auto simp: Ap_get_sta_def bind_eq_Some_conv)
  show ?thesis
  proof (cases "r0 \<noteq> None \<or> num_sta st \<ge> MAX_STA_COUNT \<or> \<not> sta_mem env")
    case True
    then have "st' = st" using assms(1) h by (auto simp: Ap_get_sta_def split: option.splits if_splits)
    then show ?thesis by simp
  next
    case False
    define s where "s = new_sta sa (if SsidNum (conf st) > 1 then ix else 0)"
    define st1 where "st1 = Ap_sta_hash_add (next_sta st) h (st\<lparr>next_sta := next_sta st + 1, stas := (stas st)(next_sta st \<mapsto> s),
        sta_list := next_sta st # sta_list st, num_sta := num_sta st + 1\<rparr>)"
    have n: "ieee802_1x_new_station env (next_sta st) st1 = Some st'"
      using assms(1) h False by (auto simp: Ap_get_sta_def Let_def s_def st1_def)
    have m: "sm_of st1 = (sm_of st)(next_sta st := None)"
      by (simp add: st1_def Ap_sta_hash_add_def sm_of_def fun_eq_iff s_def new_sta_def)
    have "sms_step A (sm_of st) (sm_of st1)" unfolding m by (rule sms_step.free)
    moreover have "requests_ok K st1" if "requests_ok K st"
      using that by (auto simp: requests_ok_def st1_def Ap_sta_hash_add_def s_def new_sta_def)
    ultimately have "acts A K st st1" by (simp add: acts_def st1_def Ap_sta_hash_add_def keyless_def)
    then show ?thesis using new_station_acts [OF n assms(2)] acts_trans by blast
  qed
qed

lemma free_station_acts:
  assumes "ieee802_1x_free_station i st = Some st'"
  shows "acts A K st st'"
proof -
  obtain s where s: "stas st i = Some s"
    "upd_sta i (\<lambda>s. s\<lparr>last_recv_radius := None, last_eap_supp := None, last_eap_radius := None,
        sta_identity := None, eapol_key_sign := None, eapol_key_crypt := None, eapol_sm := None\<rparr>)
      (if eapol_sm s = None then st else cancel_timer Port_timers_tick (Sta i) st) = Some st'"
    using assms by (auto simp: ieee802_1x_free_station_def bind_eq_Some_conv)
  define st1 where "st1 = (if eapol_sm s = None then st else cancel_timer Port_timers_tick (Sta i) st)"
  have c: "calm K k st st1" for k by (simp add: st1_def)
  obtain s1 where s1: "st' = st1\<lparr>stas := (stas st1)(i \<mapsto> s1)\<rparr>" "eapol_sm s1 = None" "last_recv_radius s1 = None"
    using s(2) unfolding st1_def [symmetric] by (auto simp: upd_sta_def)
  have m: "sm_of st' = (sm_of st1)(i := None)" using s1 by (simp add: sm_of_def fun_eq_iff)
  have "sms_step A (sm_of st1) (sm_of st')" unfolding m by (rule sms_step.free)
  moreover have "requests_ok K st'" if "requests_ok K st1"
    using that s1(3) unfolding s1(1) requests_ok_def by auto
  ultimately have "acts A K st1 st'" by (simp add: acts_def s1(1) keyless_def)
  with calm_acts [OF c] show ?thesis by (rule acts_trans)
qed

lemma free_sta_acts:
  assumes "Ap_free_sta i st = Some st'"
  shows "acts A K st st'"
proof -
  obtain s st2 st3 where 1: "unlink_sta i s st = Some st2"
    and 3: "ieee802_1x_free_station i st2 = Some st3" "st' = st3\<lparr>stas := (stas st3)(i := None)\<rparr>"
    using assms by (auto simp: Ap_free_sta_def bind_eq_Some_conv)
  have c: "calm K k st st2" for k
    using 1 by (intro calm_cong) (auto simp: unlink_sta_def Ap_sta_hash_del_def bind_eq_Some_conv Let_def Ap_sta_list_del_def sm_of_def
        fun_eq_iff split: if_splits)
  have m: "sm_of st' = (sm_of st3)(i := None)" by (simp add: 3(2) sm_of_def fun_eq_iff)
  have "sms_step A (sm_of st3) (sm_of st')" unfolding m by (rule sms_step.free)
  moreover have "requests_ok K st'" if "requests_ok K st3"
    using that unfolding 3(2) requests_ok_def by auto
  ultimately have "acts A K st3 st'" by (simp add: acts_def 3(2) keyless_def)
  then show ?thesis using acts_trans [OF acts_trans [OF calm_acts [OF c] free_station_acts [OF 3(1)]]] by blast
qed

lemma free_stas_acts: "free_stas is st = Some st' \<Longrightarrow> acts A K st st'"
  by (induction "is" arbitrary: st) (auto simp: bind_eq_Some_conv intro: acts_trans [OF free_sta_acts])

lemma receive_acts:
  assumes "ieee802_1x_receive env sa ix pos len st = Some st'" "no_accept \<subseteq> A"
  shows "acts A K st st'"
proof -
  obtain r st1 where 1: "Ap_get_sta env sa ix st = Some (r, st1)"
    using assms(1) by (auto simp: ieee802_1x_receive_def bind_eq_Some_conv)
  have a1: "acts A K st st1" using get_sta_acts [OF 1 assms(2)] .
  show ?thesis
  proof (cases r)
    case None
    then show ?thesis using a1 assms(1) 1 by (simp add: ieee802_1x_receive_def)
  next
    case (Some i)
    then obtain snap b n where 2: "rd_bytes pos 0 6 = Some snap" "b = (if snap = SNAP_802_1H then drop LENGTH_802_1_H pos else pos)"
      "rd_be16 b 2 = Some n"
      "(if len - 4 < word_of_nat n then Some st1
        else
          Option.bind (stas st1 i) (\<lambda>s.
          Option.bind (if eapol_sm s = None then new_machine env i st1 else Some (True, st1)) (\<lambda>(ok, st).
          if \<not> ok then Some st
          else
            Option.bind (rd b 0) (\<lambda>version.
            Option.bind (rd b 1) (\<lambda>type.
            if version \<noteq> EAPOL_VERSION then Some st
            else Option.bind (handle_eapol env i type (drop 4 b) n st) (run_sm env i eapol_sm_step)))))) = Some st'"
      using assms(1) 1 unfolding ieee802_1x_receive_def Let_def bind_eq_Some_conv [of "rd_bytes pos 0 6"] by (auto simp: bind_eq_Some_conv)
    show ?thesis
    proof (cases "len - 4 < word_of_nat n")
      case True
      then show ?thesis using 2(4) a1 by simp
    next
      case False
      then obtain s ok st2 where 3: "stas st1 i = Some s"
        "(if eapol_sm s = None then new_machine env i st1 else Some (True, st1)) = Some (ok, st2)"
        "(if \<not> ok then Some st2
          else
            Option.bind (rd b 0) (\<lambda>version.
            Option.bind (rd b 1) (\<lambda>type.
            if version \<noteq> EAPOL_VERSION then Some st2
            else Option.bind (handle_eapol env i type (drop 4 b) n st2) (run_sm env i eapol_sm_step)))) = Some st'"
        using 2(4) by (auto simp: bind_eq_Some_conv)
      have a2: "acts A K st1 st2 \<and> (ok \<longrightarrow> sm_of st2 i \<noteq> None)"
      proof (cases "eapol_sm s = None")
        case True
        then have "new_machine env i st1 = Some (ok, st2)" using 3(2) by simp
        from new_machine_acts [OF this, of A K] show ?thesis by (cases ok) auto
      next
        case False
        then show ?thesis using 3(1,2) by (auto simp: sm_of_def)
      qed
      have a3: "acts A K st2 st'"
      proof (cases "ok \<and> st' \<noteq> st2")
        case True
        then obtain ty where "Option.bind (handle_eapol env i ty (drop 4 b) n st2) (run_sm env i eapol_sm_step) = Some st'"
          using 3(3) by (auto simp: bind_eq_Some_conv split: if_splits)
        then show ?thesis using eapol_acts a2 True assms(2) by blast
      next
        case False
        then have "st' = st2" using 3(3) by (cases ok) auto
        then show ?thesis by simp
      qed
      show ?thesis using a1 a2 a3 acts_trans by blast
    qed
  qed
qed

lemma read_frame_acts:
  assumes "Handle_read_frame env sock bytes len st = Some st'" "no_accept \<subseteq> A"
  shows "acts A K st st'"
proof -
  have "st' = st \<or> (\<exists>sa ix pos n. ieee802_1x_receive env sa ix pos n st = Some st')"
    using assms(1) unfolding Handle_read_frame_def Let_def by (auto simp: bind_eq_Some_conv split: if_splits)
  then show ?thesis using receive_acts [OF _ assms(2)] by (metis acts_refl)
qed

section \<open>Answers\<close>

fun with_id :: "u8 option \<Rightarrow> sm_event \<Rightarrow> sm_event" where
  "with_id x (ServerAccept p k y) = ServerAccept p k x"
| "with_id x (ServerReject y) = ServerReject x"
| "with_id x (ServerChallenge t y) = ServerChallenge t x"
| "with_id x e = e"

definition answer_event :: "u8 \<Rightarrow> sm_event \<Rightarrow> bool" where
  "answer_event code e \<longleftrightarrow>
     (if code = RADIUS_CODE_ACCESS_ACCEPT then \<exists>p k. e = ServerAccept p k None
      else if code = RADIUS_CODE_ACCESS_REJECT then e = ServerReject None else \<exists>t. e = ServerChallenge t None)"

lemma write_with_id: "answer_event c e \<Longrightarrow> set_server_id x (sm_event_write e sm) = sm_event_write (with_id x e) sm"
  by (cases x) (auto simp: answer_event_def set_server_id_def Let_def split: if_splits)

lemma accept_timeout_set:
  assumes "accept_timeout env i session action st = Some (free, st')" "sm_of st i = Some sm"
  shows "\<exists>p. set_sm K i sm (case p of None \<Rightarrow> sm | Some p \<Rightarrow> sm\<lparr>reauth_timer := (reauth_timer sm)\<lparr>reAuthPeriod := p\<rparr>\<rparr>) st st'"
proof -
  have same: "set_sm K i sm sm st u" if "calm K False st u" for u
    using that assms(2) by (auto simp: set_sm_def calm_def)
  have t: "calm K False st (Ap_sta_session_timeout env i x st)" for x
    unfolding Ap_sta_session_timeout_def by (rule calm_trans [OF cancel_timer_calm set_timer_calm])
  have "(\<exists>p. upd_sm i (\<lambda>sm. sm\<lparr>reauth_timer := (reauth_timer sm)\<lparr>reAuthPeriod := p\<rparr>\<rparr>) st = Some st') \<or> calm K False st st'"
    using assms(1) t unfolding accept_timeout_def Let_def by (auto split: option.splits if_splits)
  then show ?thesis
  proof
    assume "\<exists>p. upd_sm i (\<lambda>sm. sm\<lparr>reauth_timer := (reauth_timer sm)\<lparr>reAuthPeriod := p\<rparr>\<rparr>) st = Some st'"
    then obtain p where "upd_sm i (\<lambda>sm. sm\<lparr>reauth_timer := (reauth_timer sm)\<lparr>reAuthPeriod := p\<rparr>\<rparr>) st = Some st'" by blast
    from upd_sm_set [OF this, of K] obtain sm0 where
      "set_sm K i sm0 (sm0\<lparr>reauth_timer := (reauth_timer sm0)\<lparr>reAuthPeriod := p\<rparr>\<rparr>) st st'" by blast
    moreover from this have "sm0 = sm" using assms(2) by (simp add: set_sm_def)
    ultimately show ?thesis by (intro exI [of _ "Some p"]) simp
  next
    assume "calm K False st st'"
    then show ?thesis using same by (intro exI [of _ None]) simp
  qed
qed

lemma get_keys_set:
  assumes "ieee802_1x_get_keys env i msg req secret st = Some st'" "sm_of st i = Some sm"
  shows "\<exists>k. set_sm K i sm (if k then sm\<lparr>keyAvailable := True\<rparr> else sm) st st'"
proof -
  obtain s :: sta_info and d st1 ok where 1: "RT_ioctl env d (ApIdx s) st = (ok, st1)"
    and 2: "st' = st1 \<or> (\<exists>a b. save_keys i a b st1 = Some st')"
  proof -
    obtain s :: sta_info and keys :: radius_ms_mppe_keys and recv material where g: "(let (ok, st) = RT_ioctl env (Add_key 0 (word_of_nat (length recv)) material) (ApIdx s) st in
       if \<not> ok then Some st
       else case send_key keys of None \<Rightarrow> Some st | Some send \<Rightarrow> save_keys i send recv st) = Some st'"
      using assms(1) unfolding ieee802_1x_get_keys_def bind_eq_Some_conv by blast
    obtain ok st1 where io: "RT_ioctl env (Add_key 0 (word_of_nat (length recv)) material) (ApIdx s) st = (ok, st1)" by fastforce
    show thesis
      by (rule that [OF io]) (use g in \<open>auto simp: io split: if_splits option.splits\<close>)
  qed
  have c: "calm K False st st1" using RT_ioctl_calm [OF _ 1] by simp
  have sm1: "set_sm K i sm sm st st1" using c assms(2) by (auto simp: set_sm_def calm_def)
  from 2 show ?thesis
  proof
    assume "st' = st1"
    then show ?thesis using sm1 by (intro exI [of _ False]) simp
  next
    assume "\<exists>a b. save_keys i a b st1 = Some st'"
    then obtain a b st2 where u: "upd_sta i (\<lambda>s. s\<lparr>eapol_key_sign := Some a, eapol_key_crypt := Some b\<rparr>) st1 = Some st2"
      "upd_sm i (\<lambda>sm. sm\<lparr>keyAvailable := True\<rparr>) st2 = Some st'" by (auto simp: save_keys_def bind_eq_Some_conv)
    have "calm K False st1 st2" by (rule upd_sta_calm [OF u(1)]) simp_all
    then have sm2: "set_sm K i sm sm st st2" using sm1 by (rule set_sm_calm(1) [rotated])
    obtain sm0 where p: "set_sm K i sm0 (sm0\<lparr>keyAvailable := True\<rparr>) st2 st'" using upd_sm_set [OF u(2), of K] by blast
    have "sm0 = sm" by (rule set_sm_next [OF sm2 p])
    then show ?thesis using set_sm_trans [OF sm2] p by (intro exI [of _ True]) simp
  qed
qed

lemma handle_code_set:
  assumes "handle_code env i code session action msg req secret st = Some (free, st')" "sm_of st i \<noteq> None"
  shows "\<exists>sm e. set_sm K i sm (sm_event_write e sm) st st' \<and> answer_event code e \<and> (is_accept e \<or> driver st' = driver st)"
proof -
  obtain sm where sm: "sm_of st i = Some sm" using assms(2) by blast
  consider "code = RADIUS_CODE_ACCESS_ACCEPT" | "code \<noteq> RADIUS_CODE_ACCESS_ACCEPT" "code = RADIUS_CODE_ACCESS_REJECT"
    | "code \<noteq> RADIUS_CODE_ACCESS_ACCEPT" "code \<noteq> RADIUS_CODE_ACCESS_REJECT" by blast
  then show ?thesis
  proof cases
    case 1
    then obtain st1 st2 where u: "accept_timeout env i session action st = Some (free, st1)" "upd_sm i accept_sm st1 = Some st2"
      "ieee802_1x_get_keys env i msg req secret st2 = Some st'"
      using assms(1) by (auto simp: handle_code_def bind_eq_Some_conv)
    obtain p where p: "set_sm K i sm (case p of None \<Rightarrow> sm | Some p \<Rightarrow> sm\<lparr>reauth_timer := (reauth_timer sm)\<lparr>reAuthPeriod := p\<rparr>\<rparr>) st st1"
      using accept_timeout_set [OF u(1) sm] by blast
    define sm1 where "sm1 = (case p of None \<Rightarrow> sm | Some p \<Rightarrow> sm\<lparr>reauth_timer := (reauth_timer sm)\<lparr>reAuthPeriod := p\<rparr>\<rparr>)"
    obtain sm0 where a: "set_sm K i sm0 (accept_sm sm0) st1 st2" using upd_sm_set [OF u(2), of K] by blast
    have "sm0 = sm1" using set_sm_next [OF p a] by (simp add: sm1_def)
    then have a: "set_sm K i sm (accept_sm sm1) st st2" using set_sm_trans [OF p [folded sm1_def]] a by simp
    then have "sm_of st2 i = Some (accept_sm sm1)" by (simp add: set_sm_def)
    from get_keys_set [OF u(3) this, of K] obtain k where
      "set_sm K i (accept_sm sm1) (if k then (accept_sm sm1)\<lparr>keyAvailable := True\<rparr> else accept_sm sm1) st2 st'" by blast
    then have "set_sm K i sm (if k then (accept_sm sm1)\<lparr>keyAvailable := True\<rparr> else accept_sm sm1) st st'" by (rule set_sm_trans [OF a])
    moreover have "(if k then (accept_sm sm1)\<lparr>keyAvailable := True\<rparr> else accept_sm sm1) = sm_event_write (ServerAccept p k None) sm"
      by (simp add: Let_def set_server_id_def accept_sm_def sm1_def)
    ultimately show ?thesis using 1 by (intro exI [of _ sm] exI [of _ "ServerAccept p k None"]) (simp add: answer_event_def)
  next
    case 2
    then have u: "upd_sm i reject_sm st = Some st'" using assms(1) by (auto simp: handle_code_def)
    obtain sm0 where "set_sm K i sm0 (sm_event_write (ServerReject None) sm0) st st'" "driver st' = driver st"
      using upd_sm_set [OF u, of K] by (auto simp: reject_sm_def set_server_id_def)
    then show ?thesis using 2 unfolding answer_event_def by auto
  next
    case 3
    then have u: "upd_sm i (challenge_sm session) st = Some st'" using assms(1) by (auto simp: handle_code_def)
    obtain sm0 where "set_sm K i sm0 (sm_event_write (ServerChallenge session None) sm0) st st'" "driver st' = driver st"
      using upd_sm_set [OF u, of K] by (auto simp: challenge_sm_def set_server_id_def Let_def)
    moreover have "answer_event code (ServerChallenge session None)" using 3 by (simp add: answer_event_def)
    ultimately show ?thesis by blast
  qed
qed

lemma decapsulate_set:
  assumes "ieee802_1x_decapsulate_radius i st = Some st'" "sm_of st i = Some sm"
  shows "\<exists>x. set_sm K i sm (set_server_id x sm) st st' \<and> driver st' = driver st"
proof -
  have "calm K False st st' \<and> driver st' = driver st \<or>
    (\<exists>eap st1. upd_sm i (\<lambda>sm. sm\<lparr>be_auth := (be_auth sm)\<lparr>idFromServer := eap ! 1\<rparr>\<rparr>) st = Some st1 \<and>
       upd_sta i (\<lambda>s. s\<lparr>last_eap_radius := Some eap\<rparr>) st1 = Some st')"
  proof -
    have "calm K False st u \<and> driver u = driver st" if "upd_sta i (\<lambda>s. s\<lparr>last_eap_radius := None\<rparr>) st = Some u" for u
      using that upd_sta_calm [OF that] by (auto simp: upd_sta_def)
    moreover obtain s where s: "stas st i = Some s" using assms(2) by (auto simp: sm_of_def bind_eq_Some_conv)
    ultimately show ?thesis
    proof (cases "last_recv_radius s")
      case (Some m)
      then obtain r where "Radius_msg_get_eap m = Some r" "(case r of None \<Rightarrow> upd_sta i (\<lambda>s. s\<lparr>last_eap_radius := None\<rparr>) st
         | Some eap \<Rightarrow>
             if length eap < 4 then Some st
             else Option.bind (upd_sm i (\<lambda>sm. sm\<lparr>be_auth := (be_auth sm)\<lparr>idFromServer := eap ! 1\<rparr>\<rparr>) st)
                    (upd_sta i (\<lambda>s. s\<lparr>last_eap_radius := Some eap\<rparr>))) = Some st'"
        using assms(1) s unfolding ieee802_1x_decapsulate_radius_def by (auto simp only: bind_eq_Some_conv option.case)
      then show ?thesis
        using \<open>\<And>u. upd_sta i (\<lambda>s. s\<lparr>last_eap_radius := None\<rparr>) st = Some u \<Longrightarrow> calm K False st u \<and> driver u = driver st\<close>
        by (cases r) (auto simp: bind_eq_Some_conv split: if_splits)
    qed (use assms(1) in \<open>simp add: ieee802_1x_decapsulate_radius_def\<close>)
  qed
  then show ?thesis
  proof
    assume "calm K False st st' \<and> driver st' = driver st"
    then show ?thesis using assms(2) by (intro exI [of _ None]) (auto simp: set_sm_def calm_def set_server_id_def)
  next
    assume "\<exists>eap st1. upd_sm i (\<lambda>sm. sm\<lparr>be_auth := (be_auth sm)\<lparr>idFromServer := eap ! 1\<rparr>\<rparr>) st = Some st1 \<and>
       upd_sta i (\<lambda>s. s\<lparr>last_eap_radius := Some eap\<rparr>) st1 = Some st'"
    then obtain eap st1 where u: "upd_sm i (\<lambda>sm. sm\<lparr>be_auth := (be_auth sm)\<lparr>idFromServer := eap ! 1\<rparr>\<rparr>) st = Some st1"
      "upd_sta i (\<lambda>s. s\<lparr>last_eap_radius := Some eap\<rparr>) st1 = Some st'" by blast
    obtain sm0 where s: "set_sm K i sm0 (set_server_id (Some (eap ! 1)) sm0) st st1" "driver st1 = driver st"
      using upd_sm_set [OF u(1), of K] by (auto simp: set_server_id_def)
    have "calm K False st1 st'" by (rule upd_sta_calm [OF u(2)]) simp_all
    moreover have "sm0 = sm" using s(1) assms(2) by (simp add: set_sm_def)
    moreover have "driver st' = driver st1" using u(2) by (auto simp: upd_sta_def)
    ultimately show ?thesis using set_sm_calm(1) [OF s(1)] s(2) by metis
  qed
qed

text \<open>What the event of an answer needs: an Access-Accept is only in \<open>A\<close> if it was verified.\<close>

definition accepts_in :: "sm_event set \<Rightarrow> radius_msg \<Rightarrow> radius_msg \<Rightarrow> u8 list \<Rightarrow> bool" where
  "accepts_in A msg req secret \<longleftrightarrow>
     (hdr_code msg = Some RADIUS_CODE_ACCESS_ACCEPT \<longrightarrow> Radius_msg_verify secret (Some req) msg = Some 0 \<longrightarrow>
      (\<forall>p k x. ServerAccept p k x \<in> A))"

lemma answer_steps:
  assumes "handle_code env i code session action msg req secret st = Some (free, st1)"
    "ieee802_1x_decapsulate_radius i st1 = Some st2" "run_sm env i eapol_sm_step st2 = Some st3" "sm_of st i \<noteq> None"
    and "no_accept \<subseteq> A" "code = RADIUS_CODE_ACCESS_ACCEPT \<Longrightarrow> \<forall>p k x. ServerAccept p k x \<in> A"
  shows "acts A K st st3"
proof -
  obtain sm e where 1: "set_sm K i sm (sm_event_write e sm) st st1" "answer_event code e" "is_accept e \<or> driver st1 = driver st"
    using handle_code_set [OF assms(1,4)] by blast
  then have "sm_of st1 i = Some (sm_event_write e sm)" by (simp add: set_sm_def)
  from decapsulate_set [OF assms(2) this, of K] obtain x where
    x: "set_sm K i (sm_event_write e sm) (set_server_id x (sm_event_write e sm)) st1 st2" "driver st2 = driver st1" by blast
  define e' where "e' = with_id x e"
  have w: "set_sm K i sm (sm_event_write e' sm) st st2"
    using set_sm_trans [OF 1(1) x(1)] write_with_id [OF 1(2)] by (simp add: e'_def)
  obtain u sm' where 3: "set_sm K i u sm' st2 st3" "eapol_sm_step u = Some sm'"
    "keyless st2 \<longrightarrow> (\<forall>x. TxKey x \<notin> set (calls sm')) \<longrightarrow> keyless st3"
    using run_sm_set [OF assms(3)] by blast
  have u: "u = sm_event_write e' sm" by (rule set_sm_next [OF w 3(1)])
  have h: "sm_handle e' sm = Some sm'"
    using 3(2) 1(2) unfolding u e'_def answer_event_def by (auto split: if_splits)
  have same: "is_accept e' = is_accept e" by (cases e) (simp_all add: e'_def)
  have "e' \<in> A"
  proof (cases "is_accept e")
    case True
    then have "code = RADIUS_CODE_ACCESS_ACCEPT" using 1(2) by (auto simp: answer_event_def split: if_splits)
    then show ?thesis using assms(6) 1(2) by (auto simp: answer_event_def e'_def)
  next
    case False
    then show ?thesis using assms(5) same by auto
  qed
  then show ?thesis
  proof (rule event_acts [OF set_sm_trans [OF w 3(1) [unfolded u]] h])
    assume k: "keyless st" "sm_locked sm" "\<not> is_accept e'"
    then have "keyless st2" using 1(3) x(2) same keyless_driver [of st2 st] by simp
    then show "keyless st3" by (rule locked_keyless [OF 3(3) sm_handle_locked [OF k(2,3) h]])
  qed
qed

lemma upd_sm_needs: "upd_sm i f st = Some st' \<Longrightarrow> sm_of st i \<noteq> None"
  by (auto simp: upd_sm_def sm_of_def bind_eq_Some_conv)

lemma handle_code_needs: "handle_code env i code session action msg req secret st = Some r \<Longrightarrow> sm_of st i \<noteq> None"
proof -
  assume a: "handle_code env i code session action msg req secret st = Some r"
  have timer: "sm_of (Ap_sta_session_timeout env i x st) = sm_of st" for x
    by (simp add: Ap_sta_session_timeout_def set_timer_def cancel_timer_def sm_of_def fun_eq_iff)
  have "sm_of st i \<noteq> None" if t: "accept_timeout env i session action st = Some (free, st1)" and s: "sm_of st1 i \<noteq> None" for free st1
  proof -
    have "(\<exists>f. upd_sm i f st = Some st1) \<or> (\<exists>x. st1 = Ap_sta_session_timeout env i x st) \<or> st1 = st"
      using t unfolding accept_timeout_def Let_def by (auto split: option.splits if_splits)
    then show ?thesis using s timer upd_sm_needs by auto
  qed
  then show ?thesis using a upd_sm_needs unfolding handle_code_def
    by (auto simp: bind_eq_Some_conv split: if_splits)
qed

lemma process_answer_acts:
  assumes "process_answer env i code msg req secret st = Some st'" "no_accept \<subseteq> A" "holds msg"
    and "code = RADIUS_CODE_ACCESS_ACCEPT \<Longrightarrow> \<forall>p k x. ServerAccept p k x \<in> A"
  shows "acts A K st st'"
proof -
  obtain st1 session action r st3 st4 where u:
    "upd_sta i (\<lambda>s. s\<lparr>radius_identifier := - 1, last_recv_radius := Some msg\<rparr>) st = Some st1"
    "handle_code env i code session action msg req secret st1 = Some r"
    "ieee802_1x_decapsulate_radius i (snd r) = Some st3" "run_sm env i eapol_sm_step st3 = Some st4"
    "(if fst r then Ap_free_sta i st4 else Some st4) = Some st'"
    using assms(1) unfolding process_answer_def bind_eq_Some_conv by blast
  obtain s where s: "stas st i = Some s" "st1 = st\<lparr>stas := (stas st)(i \<mapsto> s\<lparr>radius_identifier := - 1, last_recv_radius := Some msg\<rparr>)\<rparr>"
    using u(1) by (auto simp: upd_sta_def)
  have m: "sm_of st1 = sm_of st" by (auto simp: s sm_of_def fun_eq_iff)
  have "requests_ok K st1" if "requests_ok K st" using that assms(3) unfolding s(2) requests_ok_def by auto
  then have a1: "acts A K st st1" unfolding acts_def m by (simp add: s(2) keyless_def)
  have a2: "acts A K st1 st4"
    using answer_steps [of env i code session action msg req secret st1 "fst r" "snd r"] u(2-4) handle_code_needs [OF u(2)] assms(2,4)
    by simp
  have "acts A K st4 st'" using u(5) free_sta_acts by (cases "fst r") auto
  with acts_trans [OF a1 a2] show ?thesis by (rule acts_trans)
qed

lemma receive_auth_acts:
  assumes "ieee802_1x_receive_auth env msg req secret st = Some (res, st')" "no_accept \<subseteq> A" "holds msg" "accepts_in A msg req secret"
  shows "acts A K st st'"
proof (cases "st' = st")
  case False
  obtain j i ok code where 1: "hdr_identifier msg = Some j" "Ap_get_sta_radius_identifier st j = Some (Some i)"
    "answer_ok msg req secret = Some ok" "ok" "hdr_code msg = Some code" "process_answer env i code msg req secret st = Some st'"
    using assms(1) False unfolding ieee802_1x_receive_auth_def bind_eq_Some_conv
    by (auto split: option.splits if_splits simp: bind_eq_Some_conv)
  have "\<forall>p k x. ServerAccept p k x \<in> A" if "code = RADIUS_CODE_ACCESS_ACCEPT"
  proof -
    have "Radius_msg_verify secret (Some req) msg = Some 0"
      using 1(3-5) \<open>code = RADIUS_CODE_ACCESS_ACCEPT\<close>
      by (auto simp: answer_ok_def RADIUS_CODE_ACCESS_ACCEPT_def RADIUS_CODE_ACCESS_REJECT_def)
    then show ?thesis using assms(4) 1(5) \<open>code = RADIUS_CODE_ACCESS_ACCEPT\<close> by (simp add: accepts_in_def)
  qed
  then show ?thesis by (rule process_answer_acts [OF 1(6) assms(2,3)])
qed simp

text \<open>
  The Response Authenticator of RFC 2865, which takes the secret: \<open>q\<close> is the request. What the code
  verifies implies it.
\<close>

definition authentic :: "u8 list \<Rightarrow> u8 list \<Rightarrow> u8 list \<Rightarrow> bool" where
  "authentic secret q data \<longleftrightarrow>
     (let bs = take (be16 (data ! 2) (data ! 3)) data in
      take 16 (drop 4 bs) = md5 (take 4 bs @ take 16 (drop 4 q) @ drop RADIUS_HDR bs @ secret))"

definition genuine_accept :: "u8 list option set \<Rightarrow> u8 list set \<Rightarrow> u8 list \<Rightarrow> bool" where
  "genuine_accept K Q data \<longleftrightarrow>
     RADIUS_HDR \<le> length data \<and> data ! 0 = RADIUS_CODE_ACCESS_ACCEPT \<and> (\<exists>k \<in> K. \<exists>q \<in> Q. authentic (secret_bytes k) q data)"

lemma genuine_accept_mono: "genuine_accept K Q data \<Longrightarrow> Q \<subseteq> Q' \<Longrightarrow> genuine_accept K Q' data"
  by (auto simp: genuine_accept_def)

lemma verified_response:
  assumes "Radius_msg_verify secret (Some sent) msg = Some 0"
  shows "response_auth (take (buf_used msg) (buf msg)) (take 16 (drop 4 (buf sent))) secret = take 16 (drop 4 (buf msg))"
proof -
  obtain r where r: "find_authenticator (buf msg) (attrs msg) None = Some r"
    using assms by (auto simp: Radius_msg_verify_def bind_eq_Some_conv)
  obtain at where at: "r = Some (Some at)"
    using assms r by (cases r; cases "the r") (auto simp: Radius_msg_verify_def)
  obtain orig b rq b2 where v: "rd_bytes (buf sent) 4 16 = Some rq"
    "(if orig \<noteq> hmac_md5 secret (take (buf_used msg) b2) then Some 1
      else if response_auth (take (buf_used msg) (buf msg)) rq secret \<noteq> take 16 (drop 4 (buf msg)) then Some 1
      else Some (0 :: int)) = Some 0"
    using assms unfolding Radius_msg_verify_def by (auto simp: r at bind_eq_Some_conv)
  have "rq = take 16 (drop 4 (buf sent))" using v(1) by (auto simp: rd_bytes_def split: if_splits)
  then show ?thesis using v(2) by (auto split: if_splits)
qed

lemma verified_accept:
  assumes "Radius_msg_parse data = Some (Some msg)" "Radius_msg_verify (secret_bytes k) (Some sent) msg = Some 0"
    "hdr_code msg = Some RADIUS_CODE_ACCESS_ACCEPT" "k \<in> K" "length (secret_bytes k) < 2 ^ 32"
    and sent: "RADIUS_HDR \<le> buf_used sent" "buf_used sent \<le> length (buf sent)" "take (buf_used sent) (buf sent) \<in> Q"
  shows "genuine_accept K Q data"
proof -
  define n where "n = be16 (data ! 2) (data ! 3)"
  obtain as where w: "wire_attrs data = Some as"
    using parse_wire [of data] assms(1) by (cases "wire_attrs data") auto
  then have m: "msg_holds msg as" "buf msg = take n data" "buf_used msg = n"
    using parse_wire [of data] assms(1) by (auto simp: n_def)
  have n: "n \<le> length data" "RADIUS_HDR \<le> n" "n < 65536"
    using w by (auto simp: wire_attrs_def n_def split: if_splits)
  define bs where "bs = take n data"
  define rq where "rq = take 16 (drop 4 (buf sent))"
  have "take 16 (drop 4 (take (buf_used sent) (buf sent))) = rq"
    using sent(1) by (simp add: rq_def drop_take min_def RADIUS_HDR_def)
  moreover have "response_auth bs rq (secret_bytes k) = take 16 (drop 4 bs)"
    using verified_response [OF assms(2)] m n by (simp add: bs_def rq_def)
  moreover have "response_auth bs rq (secret_bytes k) = md5 (take 4 bs @ rq @ drop RADIUS_HDR bs @ secret_bytes k)"
    using assms(5) n by (intro response_auth_md5) (simp_all add: bs_def rq_def)
  ultimately have "authentic (secret_bytes k) (take (buf_used sent) (buf sent)) data"
    by (simp add: authentic_def n_def [symmetric] bs_def)
  moreover have "data ! 0 = RADIUS_CODE_ACCESS_ACCEPT"
    using assms(3) m(2) n by (auto simp: hdr_code_def rd_def RADIUS_HDR_def split: if_splits)
  ultimately show ?thesis using assms(4) sent(3) n by (auto simp: genuine_accept_def)
qed

lemma take_request_sub: "take_request j es = Some (Some (r, rest)) \<Longrightarrow> r \<in> set es \<and> set rest \<subseteq> set es"
proof (induction es arbitrary: r rest)
  case (Cons e es)
  then show ?case by (auto simp: bind_eq_Some_conv split: if_splits)
qed simp

lemma run_handlers_acts:
  "run_handlers env n msg req st = Some st' \<Longrightarrow> no_accept \<subseteq> A \<Longrightarrow> holds msg \<Longrightarrow>
   accepts_in A msg (req_msg req) (secret_bytes (req_secret req)) \<Longrightarrow> acts A K st st'"
proof (induction n arbitrary: st)
  case (Suc n)
  obtain res st1 where 1: "ieee802_1x_receive_auth env msg (req_msg req) (secret_bytes (req_secret req)) st = Some (res, st1)"
    "(case res of RADIUS_RX_PROCESSED \<Rightarrow> Some st1 | RADIUS_RX_QUEUED \<Rightarrow> Some st1 | RADIUS_RX_UNKNOWN \<Rightarrow> run_handlers env n msg req st1) = Some st'"
    using Suc.prems(1) by (auto simp: bind_eq_Some_conv)
  have "acts A K st st1" using receive_auth_acts [OF 1(1)] Suc.prems by blast
  moreover have "acts A K st1 st'" using 1(2) Suc.IH [of st1] Suc.prems by (cases res) auto
  ultimately show ?case by (rule acts_trans)
qed simp

definition small_secrets :: "u8 list option set \<Rightarrow> bool" where
  "small_secrets K \<longleftrightarrow> (\<forall>k \<in> K. length (secret_bytes k) < 2 ^ 32)"

lemma receive_data_acts:
  assumes "Radius_client_receive_data env data st = Some st'" "no_accept \<subseteq> A" "requests_ok K st" "small_secrets K"
    and "genuine_accept K (set (net st)) data \<Longrightarrow> \<forall>p k x. ServerAccept p k x \<in> A"
  shows "acts A K st st'"
proof (cases "st' = st")
  case False
  obtain msg j req rest where 1: "Radius_msg_parse data = Some (Some msg)" "hdr_identifier msg = Some j"
    "take_request j (msgs st) = Some (Some (req, rest))"
    "run_handlers env (num_auth_handlers st) msg req (st\<lparr>msgs := rest, num_msgs := dec_size (num_msgs st)\<rparr>) = Some st'"
    using assms(1) False unfolding Radius_client_receive_data_def bind_eq_Some_conv
    by (auto simp: bind_eq_Some_conv split: if_splits option.splits)
  define st1 where "st1 = st\<lparr>msgs := rest, num_msgs := dec_size (num_msgs st)\<rparr>"
  note r = take_request_sub [OF 1(3)]
  have "requests_ok K st1" if "requests_ok K st" using that r unfolding requests_ok_def st1_def by auto
  then have a1: "acts A K st st1" using calm_acts by (simp add: acts_def st1_def keyless_def) (simp add: sm_of_def [abs_def])
  obtain as where "msg_holds msg as" using parse_wire [of data] 1(1) by (cases "wire_attrs data") auto
  then have h: "holds msg" by (auto simp: holds_def)
  have e: "req_secret req \<in> K" "RADIUS_HDR \<le> buf_used (req_msg req)" "buf_used (req_msg req) \<le> length (buf (req_msg req))"
    "take (buf_used (req_msg req)) (buf (req_msg req)) \<in> set (net st)"
    using assms(3) r unfolding requests_ok_def by blast+
  have "length (secret_bytes (req_secret req)) < 2 ^ 32" using assms(4) e(1) by (simp add: small_secrets_def)
  then have "accepts_in A msg (req_msg req) (secret_bytes (req_secret req))"
    using verified_accept [OF 1(1) _ _ e(1) _ e(2-4)] assms(5) unfolding accepts_in_def by blast
  with run_handlers_acts [OF 1(4) assms(2) h] have "acts A K st1 st'" by (simp add: st1_def)
  with a1 show ?thesis by (rule acts_trans)
qed simp

end
