(* ===== verification/Apd_Runs.thy ===== *)
theory Apd_Runs
  imports Apd_Props
begin

text \<open>
  Runs of the 802.1X daemon: what its timers, its readers, a pass of its event loop and the two signals do
  to the machines of the stations, composed from the operations of \<open>Apd_Props\<close>.
\<close>

section \<open>Timers\<close>

lemma timer_loop_sub:
  "timer_loop t f es = (kept, sent, n, fo, f') \<Longrightarrow>
   set sent \<subseteq> (\<lambda>e. take (buf_used (req_msg e)) (buf (req_msg e))) ` set es \<and>
   (\<lambda>e. (req_msg e, req_secret e)) ` set kept \<subseteq> (\<lambda>e. (req_msg e, req_secret e)) ` set es"
proof (induction es arbitrary: f kept sent n fo f')
  case (Cons e es)
  have re: "req_msg (snd (Radius_client_retransmit t e)) = req_msg e" "req_secret (snd (Radius_client_retransmit t e)) = req_secret e"
    by (simp_all add: Radius_client_retransmit_def Let_def)
  define gone where "gone = (next_try e \<le> t \<and> fst (Radius_client_retransmit t e))"
  define e' where "e' = (if next_try e \<le> t then snd (Radius_client_retransmit t e) else e)"
  define out where "out = (if next_try e \<le> t then [take (buf_used (req_msg e)) (buf (req_msg e))] else [])"
  have e': "req_msg e' = req_msg e" "req_secret e' = req_secret e" using re by (simp_all add: e'_def)
  have pair: "(if next_try e \<le> t then Radius_client_retransmit t e else (False, e)) = (gone, e')"
    by (simp add: gone_def e'_def)
  obtain ft k s m o' f2 where rest: "timer_loop t ft es = (k, s, m, o', f2)"
    and r: "sent = out @ s" "kept = (if gone then k else e' # k)" and ft: "ft = (if gone then f else if f = 0 \<or> next_try e' < f then next_try e' else f)"
    using Cons.prems unfolding timer_loop.simps Let_def pair prod.case out_def [symmetric]
    by (cases gone; cases "timer_loop t (if gone then f else if f = 0 \<or> next_try e' < f then next_try e' else f) es") auto
  have "set s \<subseteq> (\<lambda>e. take (buf_used (req_msg e)) (buf (req_msg e))) ` set es \<and>
     (\<lambda>e. (req_msg e, req_secret e)) ` set k \<subseteq> (\<lambda>e. (req_msg e, req_secret e)) ` set es"
    by (rule Cons.IH [OF rest])
  then show ?case unfolding r by (auto simp: out_def e')
qed simp

lemma retry_requests:
  assumes "requests_ok K st" "set sent \<subseteq> (\<lambda>e. take (buf_used (req_msg e)) (buf (req_msg e))) ` set (msgs st)"
    "(\<lambda>e. (req_msg e, req_secret e)) ` set kept \<subseteq> (\<lambda>e. (req_msg e, req_secret e)) ` set (msgs st)"
    "msgs st' = kept" "net st' = net st @ sent" "auth_servers (conf st') = auth_servers (conf st)" "stas st' = stas st"
  shows "requests_ok K st'"
proof -
  have "\<exists>e' \<in> set (msgs st). req_msg e' = req_msg e \<and> req_secret e' = req_secret e" if "e \<in> set kept" for e
    using assms(3) that by (fastforce simp: image_iff)
  then show ?thesis
    using assms(1) unfolding requests_ok_def assms(4-7) by (metis Un_iff set_append)
qed

lemma change_server_calm: "Radius_change_server env n o' st = Some st' \<Longrightarrow> calm K k st st'"
proof -
  assume a: "Radius_change_server env n o' st = Some st'"
  have fl: "calm K k st (Radius_client_flush st)"
    by (auto simp: calm_def Radius_client_flush_def cancel_timer_def sm_of_def fun_eq_iff requests_ok_def keyless_def)
  have re: "calm K k st (st\<lparr>msgs := map reset_entry (msgs st)\<rparr>)"
    by (auto simp: calm_def sm_of_def fun_eq_iff requests_ok_def keyless_def reset_entry_def)
  have p: "calm K k u (u\<lparr>peer := x\<rparr>)" for u x by (rule calm_cong) (simp_all add: sm_of_def fun_eq_iff)
  define u where "u = (if o' = None \<or> secret_bytes (shared_secret n) \<noteq> secret_bytes (shared_secret (the o'))
     then Radius_client_flush st
     else let st = st\<lparr>msgs := map reset_entry (msgs st)\<rparr> in
       if msgs st = [] then st
       else set_timer env (word_of_int RADIUS_CLIENT_FIRST_WAIT) Client_timer Null_ctx (cancel_timer Client_timer Null_ctx st))"
  have rt: "calm K k st (set_timer env w Client_timer Null_ctx (cancel_timer Client_timer Null_ctx (st\<lparr>msgs := map reset_entry (msgs st)\<rparr>)))" for w
    by (rule calm_trans [OF re calm_trans [OF cancel_timer_calm set_timer_calm]])
  have "calm K k st u"
    unfolding u_def Let_def by (split if_split, intro conjI impI fl, split if_split, intro conjI impI re rt)
  moreover obtain x where "st' = u\<lparr>peer := x\<rparr>"
    using a unfolding Radius_change_server_def Let_def u_def [unfolded Let_def, symmetric] by auto
  ultimately show ?thesis using p calm_trans by blast
qed

lemma calm_conf: "auth_servers (conf st') = auth_servers (conf st) \<Longrightarrow> sm_of st' = sm_of st \<Longrightarrow> msgs st' = msgs st \<Longrightarrow>
   net st' = net st \<Longrightarrow> stas st' = stas st \<Longrightarrow> driver st' = driver st \<Longrightarrow> calm K k st st'"
  by (simp add: calm_def requests_ok_def keyless_def)

lemma client_timer_calm:
  assumes "Radius_client_timer env st = Some st'"
  shows "calm K k st st'"
proof (cases "msgs st = []")
  case True
  then show ?thesis using assms by (simp add: Radius_client_timer_def)
next
  case False
  obtain kept sent n fo f where l: "timer_loop (time_now env) 0 (msgs st) = (kept, sent, n, fo, f)" by (metis prod_cases5)
  define st1 where "st1 = st\<lparr>msgs := kept, net := net st @ sent, num_msgs := (dec_size ^^ n) (num_msgs st)\<rparr>"
  define st2 where "st2 = (if kept \<noteq> [] then set_timer env (word_of_int ((if f < time_now env then time_now env else f) - time_now env)) Client_timer Null_ctx st1 else st1)"
  have c1: "calm K k st st1"
    using retry_requests [where st' = st1 and st = st] timer_loop_sub [OF l] by (auto simp: calm_def st1_def sm_of_def fun_eq_iff keyless_def)
  have c2: "calm K k st1 st2" by (simp add: st2_def)
  have "st' = st2 \<or> (\<exists>x y z. Radius_change_server env x y (st2\<lparr>conf := (conf st2)\<lparr>auth_server := z\<rparr>\<rparr>) = Some st')"
    using assms False unfolding Radius_client_timer_def l Let_def prod.case st1_def [symmetric] st2_def [symmetric]
    by (auto simp: bind_eq_Some_conv split: if_splits)
  moreover have "calm K k st2 (st2\<lparr>conf := (conf st2)\<lparr>auth_server := z\<rparr>\<rparr>)" for z
    by (rule calm_conf) (simp_all add: sm_of_def fun_eq_iff)
  ultimately have "calm K k st2 st'" using change_server_calm calm_trans by (metis calm_refl)
  then show ?thesis using c1 c2 calm_trans by blast
qed

lemma retry_primary_calm:
  assumes "Radius_retry_primary_timer env st = Some st'"
  shows "calm K k st st'"
proof -
  have c: "calm K k u (u\<lparr>conf := (conf u)\<lparr>auth_server := z\<rparr>\<rparr>)" for u z
    by (rule calm_conf) (simp_all add: sm_of_def fun_eq_iff)
  obtain u where u: "u = st \<or> (\<exists>x y z. Radius_change_server env x y (st\<lparr>conf := (conf st)\<lparr>auth_server := z\<rparr>\<rparr>) = Some u)"
    "st' = u \<or> (\<exists>x. st' = set_timer env x Retry_primary_timer Null_ctx u)"
    using assms by (auto simp: Radius_retry_primary_timer_def bind_eq_Some_conv split: if_splits)
  have "calm K k st u" using u(1) change_server_calm c calm_trans by (metis calm_refl)
  then show ?thesis using u(2) set_timer_calm calm_trans by metis
qed

lemma run_timer_acts:
  assumes "run_timer env t st = Some st'" "no_accept \<subseteq> A"
  shows "acts A K st st'"
proof -
  consider i where "run_sm env i eapol_port_timers_tick st = Some st'" | i where "Ap_handle_session_timer env i st = Some st'"
    | "Radius_client_timer env st = Some st'" | "Radius_retry_primary_timer env st = Some st'"
    using assms(1) unfolding run_timer_def by (auto split: timer_handler.splits ctx.splits)
  then show ?thesis
  proof cases
    case 1
    then obtain sm sm' where 2: "set_sm K i sm sm' st st'" "eapol_port_timers_tick sm = Some sm'"
      "keyless st \<longrightarrow> (\<forall>x. TxKey x \<notin> set (calls sm')) \<longrightarrow> keyless st'"
      using run_sm_set by blast
    have h: "sm_handle Tick sm = Some sm'" using 2(2) by simp
    show ?thesis
    proof (rule event_acts [OF 2(1) h])
      show "Tick \<in> A" using assms(2) by auto
      assume k: "keyless st" "sm_locked sm" "\<not> is_accept Tick"
      show "keyless st'" by (rule locked_keyless [OF 2(3) sm_handle_locked [OF k(2,3) h] k(1)])
    qed
  next
    case 2
    then have "calm K (A \<subseteq> no_accept) st st'"
      by (auto simp: Ap_handle_session_timer_def bind_eq_Some_conv split: if_splits intro: RT_ioctl_calm [OF _ surjective_pairing])
    then show ?thesis by (rule calm_acts)
  next
    case 3
    then show ?thesis by (intro calm_acts client_timer_calm)
  next
    case 4
    then show ?thesis by (intro calm_acts retry_primary_calm)
  qed
qed

section \<open>Runs\<close>

lemma init_auth_calm: "Radius_client_init_auth env sock st = Some (ok, st') \<Longrightarrow> calm K k st st'"
proof -
  assume a: "Radius_client_init_auth env sock st = Some (ok, st')"
  have s: "calm K k u (u\<lparr>auth_serv_sock := x\<rparr>)" "calm K k u (u\<lparr>readers := y\<rparr>)" for u x y
    by (rule calm_cong; simp add: sm_of_def fun_eq_iff)+
  have "st' = st\<lparr>auth_serv_sock := sock\<rparr> \<or>
    (\<exists>x y u z. Radius_change_server env x y (st\<lparr>auth_serv_sock := sock\<rparr>) = Some u \<and> st' = u\<lparr>readers := z\<rparr>)"
    using a by (auto simp: Radius_client_init_auth_def bind_eq_Some_conv split: if_splits)
  then show ?thesis using s change_server_calm calm_trans by metis
qed

lemma client_init_calm: "Radius_client_init env sock st = Some (ok, st') \<Longrightarrow> calm K k st st'"
proof -
  assume a: "Radius_client_init env sock st = Some (ok, st')"
  have "st' = st \<or> (\<exists>u x. (u = st \<or> (\<exists>ok. Radius_client_init_auth env sock st = Some (ok, u))) \<and>
      (st' = u \<or> st' = set_timer env x Retry_primary_timer Null_ctx u))"
    using a by (auto simp: Radius_client_init_def bind_eq_Some_conv split: if_splits)
  then show ?thesis using init_auth_calm set_timer_calm calm_trans by (metis calm_refl)
qed

text \<open>No datagram of \<open>D\<close> is a genuine Access-Accept for one of the requests \<open>Q\<close>, unless \<open>A\<close> has these events.\<close>

definition allowed :: "sm_event set \<Rightarrow> u8 list option set \<Rightarrow> u8 list set \<Rightarrow> u8 list set \<Rightarrow> bool" where
  "allowed A K Q D \<longleftrightarrow> (\<forall>bs \<in> D. genuine_accept K Q bs \<longrightarrow> (\<forall>p k x. ServerAccept p k x \<in> A))"

lemma allowed_mono: "allowed A K Q' D' \<Longrightarrow> Q \<subseteq> Q' \<Longrightarrow> D \<subseteq> D' \<Longrightarrow> allowed A K Q D"
  unfolding allowed_def using genuine_accept_mono by blast

lemma allowed_UNIV [simp]: "allowed UNIV K Q D"
  by (simp add: allowed_def)

definition recv_data :: "recv_result \<Rightarrow> u8 list set" where
  "recv_data d = (case d of Recv bs rest \<Rightarrow> {bs} | Recv_error f \<Rightarrow> {})"

fun event_secrets :: "apd_event \<Rightarrow> u8 list option set" where
  "event_secrets (Reload env (Some c) sock) = shared_secret ` set (auth_servers c)"
| "event_secrets e = {}"

text \<open>The datagrams that an event takes from the RADIUS socket (and from the others).\<close>

fun event_data :: "apd_event \<Rightarrow> u8 list set" where
  "event_data (Pass env ready) = (\<Union>s. case ready s of None \<Rightarrow> {} | Some d \<Rightarrow> recv_data d)"
| "event_data e = {}"

lemma Handle_term_calm: "calm K k st (Handle_term f st)"
  by (cases f; rule calm_cong) (simp_all add: Handle_term_def sm_of_def fun_eq_iff)

lemma run_reader_acts:
  assumes "run_reader env s h d st = Some st'" "no_accept \<subseteq> A" "requests_ok K st" "small_secrets K"
    and "allowed A K (set (net st)) (recv_data d)"
  shows "acts A K st st'"
proof -
  have tm: "calm K k st (Handle_term f st)" for k f
    by (rule Handle_term_calm)
  show ?thesis
  proof (cases h; cases d)
    fix bs rest assume "h = Handle_read" "d = Recv bs rest"
    then show ?thesis using read_frame_acts assms(1,2) by auto
  next
    fix bs rest assume "h = Radius_client_receive" "d = Recv bs rest"
    then show ?thesis using receive_data_acts [OF _ assms(2-4), of env bs st'] assms(1,5) by (auto simp: allowed_def recv_data_def)
  qed (use assms(1) tm calm_acts in auto)
qed

lemma run_readers_acts:
  assumes "run_readers env ready rs st = Some st'" "no_accept \<subseteq> A" "requests_ok K st" "small_secrets K"
    and "allowed A K (set (net st')) (\<Union>s. case ready s of None \<Rightarrow> {} | Some d \<Rightarrow> recv_data d)"
  shows "acts A K st st'"
  using assms(1,3)
proof (induction rs arbitrary: st)
  case (Cons r rs)
  show ?case
  proof (cases "ready (sock_fd r)")
    case (Some d)
    then obtain st1 where 1: "run_reader env (sock_fd r) (sock_handler r) d st = Some st1" "run_readers env ready rs st1 = Some st'"
      using Cons.prems(1) by (auto simp: bind_eq_Some_conv)
    have net1: "set (net st1) \<subseteq> set (net st')" if "requests_ok K st1" using Cons.IH [OF 1(2) that] by (simp add: acts_def)
    have "acts UNIV K st st1" using run_reader_acts [OF 1(1) _ Cons.prems(2) assms(4)] by simp
    then have ok: "requests_ok K st1" and "set (net st) \<subseteq> set (net st1)" using Cons.prems(2) by (simp_all add: acts_def)
    then have "set (net st) \<subseteq> set (net st')" using net1 by blast
    moreover have "recv_data d \<subseteq> (\<Union>s. case ready s of None \<Rightarrow> {} | Some d \<Rightarrow> recv_data d)"
      using Some by (force intro!: exI [of _ "sock_fd r"])
    ultimately have "allowed A K (set (net st)) (recv_data d)" by (rule allowed_mono [OF assms(5)])
    from run_reader_acts [OF 1(1) assms(2) Cons.prems(2) assms(4) this]
    show ?thesis using Cons.IH [OF 1(2) ok] acts_trans by blast
  qed (use Cons in simp)
qed simp

lemma pass_acts:
  assumes "eloop_pass env ready st = Some st'" "no_accept \<subseteq> A" "requests_ok K st" "small_secrets K"
    and "allowed A K (set (net st')) (\<Union>s. case ready s of None \<Rightarrow> {} | Some d \<Rightarrow> recv_data d)"
  shows "acts A K st st'"
proof (cases "st' = st")
  case False
  obtain st1 where 1: "(case eloop_due (now env) (timeouts st) of None \<Rightarrow> Some st | Some (t, ts) \<Rightarrow> run_timer env t (st\<lparr>timeouts := ts\<rparr>)) = Some st1"
    "run_readers env ready (readers st1) st1 = Some st'"
    using assms(1) False unfolding eloop_pass_def bind_eq_Some_conv by (auto split: if_splits simp: bind_eq_Some_conv)
  have t: "acts B K st (st\<lparr>timeouts := ts\<rparr>)" for B ts
    by (intro calm_acts calm_cong) (simp_all add: sm_of_def fun_eq_iff)
  have a1: "acts A K st st1"
  proof (cases "eloop_due (now env) (timeouts st)")
    case (Some p)
    then have "run_timer env (fst p) (st\<lparr>timeouts := snd p\<rparr>) = Some st1" using 1(1) by (cases p) simp
    from run_timer_acts [OF this assms(2)] show ?thesis by (rule acts_trans [OF t])
  qed (use 1(1) in simp)
  then have "requests_ok K st1" using assms(3) by (simp add: acts_def)
  from run_readers_acts [OF 1(2) assms(2) this assms(4,5)] have "acts A K st1 st'" .
  with a1 show ?thesis by (rule acts_trans)
qed simp

lemma step_acts:
  assumes "apd_step e st = Some st'" "no_accept \<subseteq> A" "requests_ok K st" "small_secrets K" "event_secrets e \<subseteq> K"
    and "allowed A K (set (net st')) (event_data e)"
  shows "acts A K st st'"
proof (cases e)
  case (Pass env ready)
  then show ?thesis using pass_acts [of env ready st st' A K] assms by simp
next
  case (Term f)
  then show ?thesis using assms(1) by (auto intro: calm_acts Handle_term_calm)
next
  case (Reload env c sock)
  show ?thesis
  proof (cases c)
    case None
    then show ?thesis using Reload assms(1) by (simp add: Handle_usr1_def)
  next
    case (Some cf)
    define st0 where "st0 = (Radius_client_flush st)\<lparr>conf := cf\<rparr>"
    obtain st1 ok where 1: "free_stas (sta_list st0) st0 = Some st1" "Radius_client_init env sock st1 = Some (ok, st')"
      using assms(1) Reload Some by (auto simp: Handle_usr1_def bind_eq_Some_conv Apd_free_stas_def st0_def)
    have "requests_ok K st0"
      using assms(3,5) Reload Some by (auto simp: requests_ok_def st0_def Radius_client_flush_def cancel_timer_def)
    then have "acts A K st st0"
      by (simp add: acts_def st0_def Radius_client_flush_def cancel_timer_def keyless_def) (simp add: sm_of_def [abs_def])
    then show ?thesis using acts_trans free_stas_acts [OF 1(1)] calm_acts [OF client_init_calm [OF 1(2)]] by blast
  qed
qed

lemma run_acts:
  assumes "apd_run es st = Some st'" "no_accept \<subseteq> A" "requests_ok K st" "small_secrets K"
    and "\<And>e. e \<in> set es \<Longrightarrow> event_secrets e \<subseteq> K"
    and "\<And>e. e \<in> set es \<Longrightarrow> allowed A K (set (net st')) (event_data e)"
  shows "acts A K st st'"
  using assms(1,3,5,6)
proof (induction es arbitrary: st)
  case (Cons e es)
  obtain st1 where 1: "apd_step e st = Some st1" "apd_run es st1 = Some st'"
    using Cons.prems(1) by (auto simp: bind_eq_Some_conv)
  have sub: "event_secrets e \<subseteq> K" using Cons.prems(3) by simp
  have "acts UNIV K st st1" using step_acts [OF 1(1) _ Cons.prems(2) assms(4) sub] by simp
  then have ok: "requests_ok K st1" using Cons.prems(2) by (simp add: acts_def)
  have rest: "acts A K st1 st'" by (rule Cons.IH [OF 1(2) ok]) (use Cons.prems(3,4) in simp_all)
  then have "set (net st1) \<subseteq> set (net st')" by (simp add: acts_def)
  then have "allowed A K (set (net st1)) (event_data e)" using allowed_mono [OF Cons.prems(4) [of e]] by simp
  then have "acts A K st st1" by (rule step_acts [OF 1(1) assms(2) Cons.prems(2) assms(4) sub])
  with rest show ?case by (auto intro: acts_trans)
qed simp

text \<open>The daemon starts with no machine and no request.\<close>

lemma setup_start:
  assumes "apd_setup env c mac ss rs = Some st" "shared_secret ` set (auth_servers c) \<subseteq> K"
  shows "requests_ok K st \<and> all_reach A (sm_of st) \<and> keyless st"
proof -
  obtain st1 ok where 1: "Radius_client_init env rs (apd_zero c mac ss) = Some (ok, st1)" "st = st1\<lparr>num_auth_handlers := num_auth_handlers st1 + 1\<rparr>"
    using assms(1) by (auto simp: apd_setup_def bind_eq_Some_conv split: if_splits)
  have z: "requests_ok K (apd_zero c mac ss)" "keyless (apd_zero c mac ss)" "all_reach A (sm_of (apd_zero c mac ss))"
    using assms(2) by (auto simp: requests_ok_def apd_zero_def keyless_def all_reach_def sm_of_def)
  have "calm K True (apd_zero c mac ss) st"
    using client_init_calm [OF 1(1)] by (rule calm_trans) (rule calm_cong; simp add: 1(2) sm_of_def fun_eq_iff)
  then show ?thesis using z by (simp add: calm_def)
qed

end
