(* ===== verification/Apd_Tables.thy ===== *)
theory Apd_Tables
  imports Apd_Loop
begin

text \<open>
  The station table of the 802.1X daemon: the list of all stations, the hash chains and the counter
  agree with the stations that are allocated, whatever happens. Few operations touch the table at
  all; the first part shows that the others do not.
\<close>

section \<open>What leaves the table alone\<close>

definition tbl :: "rtapd \<Rightarrow> nat list \<times> (u8 \<Rightarrow> nat list) \<times> nat \<times> nat \<times> (nat \<Rightarrow> (u8 list \<times> nat) option)" where
  "tbl st = (sta_list st, sta_hash st, num_sta st, next_sta st, (\<lambda>i. map_option (\<lambda>s. (sta_addr s, aid s)) (stas st i)))"

named_theorems tbl_same

lemma tbl_simps [simp]:
  "tbl (st\<lparr>driver := x1\<rparr>) = tbl st" "tbl (st\<lparr>timeouts := x2\<rparr>) = tbl st" "tbl (st\<lparr>msgs := x3\<rparr>) = tbl st"
  "tbl (st\<lparr>num_msgs := x4\<rparr>) = tbl st" "tbl (st\<lparr>net := x5\<rparr>) = tbl st" "tbl (st\<lparr>peer := x6\<rparr>) = tbl st"
  "tbl (st\<lparr>conf := x7\<rparr>) = tbl st" "tbl (st\<lparr>readers := x8\<rparr>) = tbl st" "tbl (st\<lparr>auth_serv_sock := x9\<rparr>) = tbl st"
  "tbl (st\<lparr>next_radius_identifier := x10\<rparr>) = tbl st" "tbl (st\<lparr>terminate := x11\<rparr>) = tbl st"
  "tbl (st\<lparr>num_auth_handlers := x12\<rparr>) = tbl st"
  by (simp_all add: tbl_def)

lemma timer_tbl [simp]: "tbl (set_timer env secs h u st) = tbl st" "tbl (cancel_timer h u st) = tbl st"
  by (simp_all add: set_timer_def cancel_timer_def)

lemma RT_ioctl_tbl [simp]: "tbl (snd (RT_ioctl env d n st)) = tbl st"
  by (simp add: RT_ioctl_def)

lemma upd_sta_tbl:
  "upd_sta i f st = Some st' \<Longrightarrow> (\<And>s. sta_addr (f s) = sta_addr s \<and> aid (f s) = aid s) \<Longrightarrow> tbl st' = tbl st"
  by (auto simp: upd_sta_def tbl_def fun_eq_iff)

lemma upd_sm_tbl [tbl_same]: "upd_sm i f st = Some st' \<Longrightarrow> tbl st' = tbl st"
  by (auto simp: upd_sm_def bind_eq_Some_conv intro: upd_sta_tbl)

lemma send_tbl [tbl_same]: "ieee802_1x_send env i ty data st = Some st' \<Longrightarrow> tbl st' = tbl st"
  by (auto simp: ieee802_1x_send_def bind_eq_Some_conv split: if_splits)

lemma request_identity_tbl [tbl_same]: "ieee802_1x_request_identity env i n st = Some st' \<Longrightarrow> tbl st' = tbl st"
  by (auto simp: ieee802_1x_request_identity_def ieee802_1x_new_auth_session_def bind_eq_Some_conv split: if_splits
      dest!: send_tbl upd_sta_tbl)

lemma tx_req_tbl [tbl_same]: "ieee802_1x_tx_req env i n st = Some st' \<Longrightarrow> tbl st' = tbl st"
  by (auto simp: ieee802_1x_tx_req_def bind_eq_Some_conv split: option.splits dest!: send_tbl upd_sta_tbl)

lemma tx_key_one_tbl [tbl_same]: "ieee802_1x_tx_key_one env i ix b d st = Some st' \<Longrightarrow> tbl st' = tbl st"
  by (auto simp: ieee802_1x_tx_key_one_def bind_eq_Some_conv Let_def split: option.splits if_splits dest!: send_tbl)

lemma tx_key_tbl [tbl_same]: "ieee802_1x_tx_key env i n st = Some st' \<Longrightarrow> tbl st' = tbl st"
  by (auto simp: ieee802_1x_tx_key_def bind_eq_Some_conv Let_def case_prod_beta split: if_splits dest!: tx_key_one_tbl)

lemma get_id_tbl: "Radius_client_get_id st = Some (j, st') \<Longrightarrow> tbl st' = tbl st"
  by (auto simp: Radius_client_get_id_def Let_def)

lemma list_add_tbl [simp]: "tbl (Radius_client_list_add env m s st) = tbl st"
  by (simp add: Radius_client_list_add_def Let_def)

lemma client_send_tbl: "Radius_client_send env m st = Some st' \<Longrightarrow> tbl st' = tbl st"
  by (auto simp: Radius_client_send_def bind_eq_Some_conv)

lemma encapsulate_tbl [tbl_same]: "ieee802_1x_encapsulate_radius env i eap st = Some st' \<Longrightarrow> tbl st' = tbl st"
  by (auto simp: ieee802_1x_encapsulate_radius_def bind_eq_Some_conv case_prod_beta split: if_splits
      dest!: client_send_tbl upd_sta_tbl get_id_tbl)

lemma sm_do_tbl: "sm_do env i c st = Some st' \<Longrightarrow> tbl st' = tbl st"
  by (cases c) (auto simp: ieee802_1x_tx_canned_eap_def ieee802_1x_send_resp_to_server_def bind_eq_Some_conv dest!: tbl_same)

lemma sm_dos_tbl [tbl_same]: "sm_dos env i cs st = Some st' \<Longrightarrow> tbl st' = tbl st"
  by (induction cs arbitrary: st) (auto simp: bind_eq_Some_conv dest!: sm_do_tbl)

lemma run_sm_tbl [tbl_same]: "run_sm env i f st = Some st' \<Longrightarrow> tbl st' = tbl st"
  by (auto simp: run_sm_def bind_eq_Some_conv dest!: sm_dos_tbl upd_sm_tbl)

lemma new_machine_tbl: "new_machine env i st = Some (ok, st') \<Longrightarrow> tbl st' = tbl st"
  by (auto simp: new_machine_def bind_eq_Some_conv split: option.splits dest!: sm_dos_tbl upd_sta_tbl)

lemma new_station_tbl [tbl_same]: "ieee802_1x_new_station env i st = Some st' \<Longrightarrow> tbl st' = tbl st"
  by (auto simp: ieee802_1x_new_station_def bind_eq_Some_conv split: if_splits dest!: new_machine_tbl run_sm_tbl upd_sm_tbl)

lemma session_timer_tbl [tbl_same]: "Ap_handle_session_timer env i st = Some st' \<Longrightarrow> tbl st' = tbl st"
  by (auto simp: Ap_handle_session_timer_def bind_eq_Some_conv split: if_splits)

lemma eap_response_tbl [tbl_same]: "handle_eap_response env i eap n st = Some st' \<Longrightarrow> tbl st' = tbl st"
  by (auto simp: handle_eap_response_def bind_eq_Some_conv Let_def save_identity_def split: if_splits dest!: upd_sm_tbl upd_sta_tbl)

lemma eap_tbl [tbl_same]: "handle_eap env i eap n st = Some st' \<Longrightarrow> tbl st' = tbl st"
  by (auto simp: handle_eap_def bind_eq_Some_conv split: if_splits dest!: eap_response_tbl)

lemma eapol_tbl [tbl_same]: "handle_eapol env i ty eap n st = Some st' \<Longrightarrow> tbl st' = tbl st"
  by (auto simp: handle_eapol_def bind_eq_Some_conv split: if_splits dest!: eap_tbl run_sm_tbl upd_sm_tbl)

lemma decapsulate_tbl [tbl_same]:
  assumes "ieee802_1x_decapsulate_radius i st = Some st'"
  shows "tbl st' = tbl st"
proof -
  obtain s where s: "stas st i = Some s" using assms by (auto simp: ieee802_1x_decapsulate_radius_def bind_eq_Some_conv)
  show ?thesis
  proof (cases "last_recv_radius s")
    case (Some m)
    then obtain r where "Radius_msg_get_eap m = Some r" "(case r of None \<Rightarrow> upd_sta i (\<lambda>s. s\<lparr>last_eap_radius := None\<rparr>) st
         | Some eap \<Rightarrow>
             if length eap < 4 then Some st
             else Option.bind (upd_sm i (\<lambda>sm. sm\<lparr>be_auth := (be_auth sm)\<lparr>idFromServer := eap ! 1\<rparr>\<rparr>) st)
                    (upd_sta i (\<lambda>s. s\<lparr>last_eap_radius := Some eap\<rparr>))) = Some st'"
      using assms s unfolding ieee802_1x_decapsulate_radius_def by (auto simp only: bind_eq_Some_conv option.case)
    then show ?thesis by (cases r) (auto simp: bind_eq_Some_conv split: if_splits dest!: upd_sm_tbl upd_sta_tbl)
  qed (use assms s in \<open>simp add: ieee802_1x_decapsulate_radius_def\<close>)
qed

lemma save_keys_tbl [tbl_same]: "save_keys i a b st = Some st' \<Longrightarrow> tbl st' = tbl st"
  by (auto simp: save_keys_def bind_eq_Some_conv dest!: upd_sm_tbl upd_sta_tbl)

lemma get_keys_tbl [tbl_same]: "ieee802_1x_get_keys env i msg req secret st = Some st' \<Longrightarrow> tbl st' = tbl st"
  by (auto simp: ieee802_1x_get_keys_def bind_eq_Some_conv Let_def case_prod_beta split: if_splits option.splits dest!: save_keys_tbl)

lemma accept_timeout_tbl: "accept_timeout env i session action st = Some (free, st') \<Longrightarrow> tbl st' = tbl st"
  by (auto simp: accept_timeout_def Let_def Ap_sta_session_timeout_def split: option.splits if_splits dest!: upd_sm_tbl)

lemma handle_code_tbl: "handle_code env i code session action msg req secret st = Some (free, st') \<Longrightarrow> tbl st' = tbl st"
  by (auto simp: handle_code_def bind_eq_Some_conv split: if_splits dest!: upd_sm_tbl accept_timeout_tbl get_keys_tbl)

lemma flush_tbl [simp]: "tbl (Radius_client_flush st) = tbl st"
  by (simp add: Radius_client_flush_def)

lemma change_server_tbl [tbl_same]: "Radius_change_server env n o' st = Some st' \<Longrightarrow> tbl st' = tbl st"
  by (auto simp: Radius_change_server_def Let_def split: if_splits)

lemma client_timer_tbl [tbl_same]: "Radius_client_timer env st = Some st' \<Longrightarrow> tbl st' = tbl st"
  by (cases "timer_loop (time_now env) 0 (msgs st)")
    (auto simp: Radius_client_timer_def Let_def bind_eq_Some_conv split: if_splits dest!: change_server_tbl)

lemma retry_primary_tbl [tbl_same]: "Radius_retry_primary_timer env st = Some st' \<Longrightarrow> tbl st' = tbl st"
  by (auto simp: Radius_retry_primary_timer_def bind_eq_Some_conv split: if_splits dest!: change_server_tbl)

lemma init_auth_tbl: "Radius_client_init_auth env sock st = Some (ok, st') \<Longrightarrow> tbl st' = tbl st"
  by (auto simp: Radius_client_init_auth_def bind_eq_Some_conv split: if_splits dest!: change_server_tbl)

lemma client_init_tbl: "Radius_client_init env sock st = Some (ok, st') \<Longrightarrow> tbl st' = tbl st"
  by (auto simp: Radius_client_init_def bind_eq_Some_conv split: if_splits dest!: init_auth_tbl)

lemma run_timer_tbl [tbl_same]: "run_timer env t st = Some st' \<Longrightarrow> tbl st' = tbl st"
  unfolding run_timer_def by (auto split: timer_handler.splits ctx.splits dest!: tbl_same)

section \<open>The table\<close>

text \<open>
  A station is in the list exactly if it is allocated, and in the chain of the last byte of its
  address; no address has two stations; no station has an association ID.
\<close>

definition tables_ok :: "rtapd \<Rightarrow> bool" where
  "tables_ok st \<longleftrightarrow>
     distinct (sta_list st) \<and> num_sta st = length (sta_list st) \<and> num_sta st \<le> MAX_STA_COUNT \<and>
     (\<forall>i. i \<in> set (sta_list st) \<longleftrightarrow> stas st i \<noteq> None) \<and> (\<forall>i \<in> set (sta_list st). i < next_sta st) \<and>
     (\<forall>i s. stas st i = Some s \<longrightarrow> length (sta_addr s) = 6 \<and> aid s = 0) \<and>
     (\<forall>h. distinct (sta_hash st h) \<and> (\<forall>i. i \<in> set (sta_hash st h) \<longleftrightarrow> (\<exists>s. stas st i = Some s \<and> sta_addr s ! 5 = h))) \<and>
     (\<forall>i j s t. stas st i = Some s \<longrightarrow> stas st j = Some t \<longrightarrow> sta_addr s = sta_addr t \<longrightarrow> i = j)"

lemma tables_ok_tbl: "tbl st' = tbl st \<Longrightarrow> tables_ok st' = tables_ok st"
proof -
  have sub: "tables_ok b" if t: "tbl b = tbl a" and a: "tables_ok a" for a b
  proof -
    have e: "sta_list b = sta_list a" "sta_hash b = sta_hash a" "num_sta b = num_sta a" "next_sta b = next_sta a"
      and m: "map_option (\<lambda>s. (sta_addr s, aid s)) (stas b i) = map_option (\<lambda>s. (sta_addr s, aid s)) (stas a i)" for i
      using t by (simp_all add: tbl_def fun_eq_iff)
    have n: "stas b i = None \<longleftrightarrow> stas a i = None" for i using m [of i] by (cases "stas a i"; cases "stas b i") auto
    have s: "\<exists>s'. stas a i = Some s' \<and> sta_addr s' = sta_addr s \<and> aid s' = aid s" if "stas b i = Some s" for i s
      using m [of i] that by (cases "stas a i") auto
    have s': "\<exists>s'. stas b i = Some s' \<and> sta_addr s' = sta_addr s \<and> aid s' = aid s" if "stas a i = Some s" for i s
      using m [of i] that by (cases "stas b i") auto
    have "(\<exists>s. stas b i = Some s \<and> sta_addr s ! 5 = h) \<longleftrightarrow> (\<exists>s. stas a i = Some s \<and> sta_addr s ! 5 = h)" for i h
      using s s' by metis
    moreover have "length (sta_addr s) = 6 \<and> aid s = 0" if "stas b i = Some s" for i s
      using s [OF that] a unfolding tables_ok_def by metis
    moreover have "i = j" if "stas b i = Some s" "stas b j = Some t" "sta_addr s = sta_addr t" for i j s t
      using s [OF that(1)] s [OF that(2)] that(3) a unfolding tables_ok_def by metis
    ultimately show ?thesis using a unfolding tables_ok_def e n by simp
  qed
  assume "tbl st' = tbl st"
  then show ?thesis using sub by metis
qed

lemma tables_chain:
  assumes "tables_ok st" "i \<in> set (sta_hash st h)"
  shows "\<exists>s. stas st i = Some s \<and> sta_addr s ! 5 = h"
  using assms unfolding tables_ok_def by blast

lemma find_addr_total:
  "\<forall>i \<in> set is. ss i \<noteq> None \<Longrightarrow> \<exists>r. find_addr ss a is = Some r \<and>
     (case r of None \<Rightarrow> \<forall>i \<in> set is. \<forall>s. ss i = Some s \<longrightarrow> sta_addr s \<noteq> a
      | Some i \<Rightarrow> i \<in> set is \<and> (\<exists>s. ss i = Some s \<and> sta_addr s = a))"
proof (induction "is")
  case (Cons i "is")
  obtain s where s: "ss i = Some s" using Cons.prems by auto
  from Cons obtain r where r: "find_addr ss a is = Some r"
    "case r of None \<Rightarrow> \<forall>i \<in> set is. \<forall>s. ss i = Some s \<longrightarrow> sta_addr s \<noteq> a
      | Some i \<Rightarrow> i \<in> set is \<and> (\<exists>s. ss i = Some s \<and> sta_addr s = a)" by auto
  show ?case
  proof (cases "sta_addr s = a")
    case False
    then show ?thesis using s r by (cases r) auto
  qed (use s in auto)
qed simp

lemma find_chain:
  assumes "tables_ok st" "sa ! 5 = h"
  shows "\<exists>r. find_addr (stas st) sa (sta_hash st h) = Some r \<and>
    (case r of None \<Rightarrow> \<forall>i s. stas st i = Some s \<longrightarrow> sta_addr s \<noteq> sa | Some i \<Rightarrow> \<exists>s. stas st i = Some s \<and> sta_addr s = sa)"
proof -
  have "\<forall>i \<in> set (sta_hash st h). stas st i \<noteq> None" using tables_chain [OF assms(1)] by blast
  from find_addr_total [OF this, of sa] obtain r where r: "find_addr (stas st) sa (sta_hash st h) = Some r"
    "case r of None \<Rightarrow> \<forall>i \<in> set (sta_hash st h). \<forall>s. stas st i = Some s \<longrightarrow> sta_addr s \<noteq> sa
      | Some i \<Rightarrow> i \<in> set (sta_hash st h) \<and> (\<exists>s. stas st i = Some s \<and> sta_addr s = sa)" by blast
  moreover have "i \<in> set (sta_hash st h)" if "stas st i = Some s" "sta_addr s = sa" for i s
    using assms that unfolding tables_ok_def by blast
  ultimately show ?thesis by (cases r) auto
qed

text \<open>A new station.\<close>

lemma tables_add:
  assumes t: "tables_ok st" and n: "num_sta st < MAX_STA_COUNT" and sa: "length sa = 6" "sa ! 5 = h"
    and new: "\<And>i s. stas st i = Some s \<Longrightarrow> sta_addr s \<noteq> sa"
  shows "tables_ok (Ap_sta_hash_add (next_sta st) h (st\<lparr>next_sta := next_sta st + 1,
    stas := (stas st)(next_sta st \<mapsto> new_sta sa ix), sta_list := next_sta st # sta_list st, num_sta := num_sta st + 1\<rparr>))"
proof -
  define k where "k = next_sta st"
  have fresh: "k \<notin> set (sta_list st)" using t unfolding tables_ok_def k_def by blast
  then have free: "stas st k = None" using t unfolding tables_ok_def by blast
  then have chain: "k \<notin> set (sta_hash st g)" for g using tables_chain [OF t] by fastforce
  have "sta_addr (new_sta sa ix) = sa" "aid (new_sta sa ix) = 0" by (simp_all add: new_sta_def)
  then show ?thesis
    using assms fresh free chain unfolding tables_ok_def k_def [symmetric] Ap_sta_hash_add_def
    by (auto simp: less_Suc_eq)
qed

lemma get_sta_tables:
  assumes "Ap_get_sta env sa ix st = Some (r, st')" "tables_ok st" "length sa = 6"
  shows "tables_ok st'"
proof -
  have h: "STA_HASH sa = Some (sa ! 5)" using assms(3) by (simp add: STA_HASH_def rd_in)
  obtain f where f: "find_addr (stas st) sa (sta_hash st (sa ! 5)) = Some f"
    "case f of None \<Rightarrow> \<forall>i s. stas st i = Some s \<longrightarrow> sta_addr s \<noteq> sa | Some i \<Rightarrow> \<exists>s. stas st i = Some s \<and> sta_addr s = sa"
    using find_chain [OF assms(2) refl] by blast
  show ?thesis
  proof (cases "f \<noteq> None \<or> num_sta st \<ge> MAX_STA_COUNT \<or> \<not> sta_mem env")
    case True
    then have "st' = st" using assms(1) h f(1) by (auto simp: Ap_get_sta_def split: option.splits if_splits)
    then show ?thesis using assms(2) by simp
  next
    case False
    define st1 where "st1 = Ap_sta_hash_add (next_sta st) (sa ! 5) (st\<lparr>next_sta := next_sta st + 1,
      stas := (stas st)(next_sta st \<mapsto> new_sta sa (if SsidNum (conf st) > 1 then ix else 0)),
      sta_list := next_sta st # sta_list st, num_sta := num_sta st + 1\<rparr>)"
    have "ieee802_1x_new_station env (next_sta st) st1 = Some st'"
      using assms(1) h f(1) False by (auto simp: Ap_get_sta_def Let_def st1_def)
    moreover have "tables_ok st1"
      unfolding st1_def by (rule tables_add) (use assms False f(2) in auto)
    ultimately show ?thesis using tables_ok_tbl new_station_tbl by blast
  qed
qed

lemma receive_tables:
  assumes "ieee802_1x_receive env sa ix pos len st = Some st'" "tables_ok st" "length sa = 6"
  shows "tables_ok st'"
proof -
  obtain r st1 where 1: "Ap_get_sta env sa ix st = Some (r, st1)"
    using assms(1) by (auto simp: ieee802_1x_receive_def bind_eq_Some_conv)
  have "tbl st' = tbl st1"
    using assms(1) 1 unfolding ieee802_1x_receive_def Let_def
    by (auto simp: bind_eq_Some_conv split: option.splits if_splits dest!: eapol_tbl run_sm_tbl new_machine_tbl)
  then show ?thesis using get_sta_tables [OF 1 assms(2,3)] tables_ok_tbl by blast
qed

lemma read_frame_tables:
  assumes "Handle_read_frame env sock bytes len st = Some st'" "tables_ok st"
  shows "tables_ok st'"
proof -
  have "st' = st \<or> (\<exists>sa ix pos n. length sa = 6 \<and> ieee802_1x_receive env sa ix pos n st = Some st')"
    using assms(1) unfolding Handle_read_frame_def Let_def
    by (auto simp: bind_eq_Some_conv rd_bytes_def split: if_splits)
  then show ?thesis using receive_tables assms(2) by blast
qed

text \<open>A station goes.\<close>

lemma del_addr_remove1:
  assumes "\<forall>k \<in> set is. ss k \<noteq> None" "ss i = Some s" "\<And>k t. ss k = Some t \<Longrightarrow> sta_addr t = sta_addr s \<Longrightarrow> k = i"
  shows "del_addr ss (sta_addr s) is = Some (remove1 i is)"
  using assms(1)
proof (induction "is")
  case (Cons k "is")
  then obtain t where t: "ss k = Some t" by auto
  show ?case
  proof (cases "k = i")
    case False
    then have "sta_addr t \<noteq> sta_addr s" using assms(3) t by blast
    then show ?thesis using Cons t False by simp
  qed (use t assms(2) in simp)
qed simp

lemma free_sta_tables:
  assumes t: "tables_ok st" and s: "stas st i = Some s"
  shows "\<exists>st'. Ap_free_sta i st = Some st' \<and> tables_ok st' \<and> sta_list st' = remove1 i (sta_list st) \<and>
    (\<forall>x \<in> set (timeouts st). timeout_handler x \<noteq> Port_timers_tick \<longrightarrow> x \<in> set (timeouts st'))"
proof -
  have len: "length (sta_addr s) = 6" "aid s = 0" using t s unfolding tables_ok_def by blast+
  define h where "h = sta_addr s ! 5"
  have H: "STA_HASH (sta_addr s) = Some h" using len by (simp add: STA_HASH_def rd_in h_def)
  have "\<forall>k \<in> set (sta_hash st h). stas st k \<noteq> None" using tables_chain [OF t] by blast
  moreover have "k = i" if "stas st k = Some u" "sta_addr u = sta_addr s" for k u
    using t s that unfolding tables_ok_def by blast
  ultimately have d: "del_addr (stas st) (sta_addr s) (sta_hash st h) = Some (remove1 i (sta_hash st h))"
    using s by (intro del_addr_remove1) blast+
  define st1 where "st1 = st\<lparr>sta_hash := (sta_hash st)(h := remove1 i (sta_hash st h)), sta_list := remove1 i (sta_list st), num_sta := num_sta st - 1\<rparr>"
  have u: "unlink_sta i s st = Some st1"
    using H d len by (simp add: unlink_sta_def Ap_sta_hash_del_def Ap_sta_list_del_def st1_def MAX_AID_TABLE_SIZE_def)
  define st2 where "st2 = (if eapol_sm s = None then st1 else cancel_timer Port_timers_tick (Sta i) st1)"
  define st3 where "st3 = st2\<lparr>stas := (stas st2)(i := None)\<rparr>"
  have st2: "stas st2 = stas st" "sta_list st2 = remove1 i (sta_list st)" "num_sta st2 = num_sta st - 1" "next_sta st2 = next_sta st"
    "sta_hash st2 = (sta_hash st)(h := remove1 i (sta_hash st h))"
    by (simp_all add: st2_def st1_def cancel_timer_def)
  have f: "Ap_free_sta i st = Some st3"
    using s u st2(1) by (simp add: Ap_free_sta_def ieee802_1x_free_station_def st1_def [symmetric] st2_def [symmetric] upd_sta_def st3_def)
      (simp add: st1_def s st2_def [symmetric] st3_def)
  have i: "i \<in> set (sta_list st)" "distinct (sta_list st)" using t s unfolding tables_ok_def by blast+
  have "tables_ok st3"
    using t s i st2(2-) unfolding tables_ok_def st3_def st2(1)
    by (auto simp: length_remove1 h_def)
  moreover have "x \<in> set (timeouts st3)" if "x \<in> set (timeouts st)" "timeout_handler x \<noteq> Port_timers_tick" for x
  proof -
    have "x \<in> set (snd (eloop_cancel_timeout Port_timers_tick d e ts))" if "x \<in> set ts" for d e ts
      using that \<open>timeout_handler x \<noteq> Port_timers_tick\<close> by (induction ts) (auto simp: timeout_matches_def case_prod_beta Let_def)
    then show ?thesis using that by (simp add: st3_def st2_def st1_def cancel_timer_def)
  qed
  ultimately show ?thesis using f by (auto simp: st3_def st2)
qed

text \<open>All stations of the list go, in its order.\<close>

lemma free_stas_tables:
  "tables_ok st \<Longrightarrow> sta_list st = is \<Longrightarrow> \<exists>st'. free_stas is st = Some st' \<and> tables_ok st' \<and> sta_list st' = [] \<and>
     (\<forall>x \<in> set (timeouts st). timeout_handler x \<noteq> Port_timers_tick \<longrightarrow> x \<in> set (timeouts st'))"
proof (induction "is" arbitrary: st)
  case (Cons i "is")
  have "i \<in> set (sta_list st)" using Cons.prems(2) by simp
  then obtain s where "stas st i = Some s" using Cons.prems(1) unfolding tables_ok_def by blast
  from free_sta_tables [OF Cons.prems(1) this] obtain st1 where 1: "Ap_free_sta i st = Some st1" "tables_ok st1"
    "sta_list st1 = remove1 i (sta_list st)"
    "\<forall>x \<in> set (timeouts st). timeout_handler x \<noteq> Port_timers_tick \<longrightarrow> x \<in> set (timeouts st1)" by blast
  have "sta_list st1 = is" using 1(3) Cons.prems(2) by simp
  from Cons.IH [OF 1(2) this] show ?case using 1(1,4) by auto
qed simp

lemma empty_tables: "tables_ok st \<Longrightarrow> sta_list st = [] \<Longrightarrow> stas st i = None"
  by (auto simp: tables_ok_def)

section \<open>Runs\<close>

lemma free_sta_keeps: "Ap_free_sta i st = Some st' \<Longrightarrow> tables_ok st \<Longrightarrow> tables_ok st'"
proof -
  assume a: "Ap_free_sta i st = Some st'" "tables_ok st"
  then obtain s where "stas st i = Some s" by (auto simp: Ap_free_sta_def bind_eq_Some_conv)
  from free_sta_tables [OF a(2) this] show ?thesis using a(1) by auto
qed

lemma process_answer_tables:
  assumes "process_answer env i code msg req secret st = Some st'" "tables_ok st"
  shows "tables_ok st'"
proof -
  obtain st1 session action r st3 st4 where u:
    "upd_sta i (\<lambda>s. s\<lparr>radius_identifier := - 1, last_recv_radius := Some msg\<rparr>) st = Some st1"
    "handle_code env i code session action msg req secret st1 = Some r"
    "ieee802_1x_decapsulate_radius i (snd r) = Some st3" "run_sm env i eapol_sm_step st3 = Some st4"
    "(if fst r then Ap_free_sta i st4 else Some st4) = Some st'"
    using assms(1) unfolding process_answer_def bind_eq_Some_conv by blast
  have "tbl st1 = tbl st" by (rule upd_sta_tbl [OF u(1)]) simp
  moreover have "tbl (snd r) = tbl st1" using handle_code_tbl u(2) by (metis prod.collapse)
  ultimately have "tbl st4 = tbl st" using decapsulate_tbl [OF u(3)] run_sm_tbl [OF u(4)] by simp
  then have "tables_ok st4" using assms(2) tables_ok_tbl by blast
  then show ?thesis using u(5) free_sta_keeps by (cases "fst r") auto
qed

lemma receive_auth_tables:
  assumes "ieee802_1x_receive_auth env msg req secret st = Some (res, st')" "tables_ok st"
  shows "tables_ok st'"
proof (cases "st' = st")
  case False
  then obtain i code where "process_answer env i code msg req secret st = Some st'"
    using assms(1) unfolding ieee802_1x_receive_auth_def bind_eq_Some_conv
    by (auto split: option.splits if_splits simp: bind_eq_Some_conv)
  then show ?thesis using process_answer_tables assms(2) by blast
qed (use assms in simp)

lemma run_handlers_tables: "run_handlers env n msg req st = Some st' \<Longrightarrow> tables_ok st \<Longrightarrow> tables_ok st'"
proof (induction n arbitrary: st)
  case (Suc n)
  obtain res st1 where 1: "ieee802_1x_receive_auth env msg (req_msg req) (secret_bytes (req_secret req)) st = Some (res, st1)"
    "(case res of RADIUS_RX_PROCESSED \<Rightarrow> Some st1 | RADIUS_RX_QUEUED \<Rightarrow> Some st1 | RADIUS_RX_UNKNOWN \<Rightarrow> run_handlers env n msg req st1) = Some st'"
    using Suc.prems(1) by (auto simp: bind_eq_Some_conv)
  have "tables_ok st1" by (rule receive_auth_tables [OF 1(1) Suc.prems(2)])
  then show ?case using 1(2) Suc.IH [of st1] by (cases res) auto
qed simp

lemma receive_data_tables:
  assumes "Radius_client_receive_data env data st = Some st'" "tables_ok st"
  shows "tables_ok st'"
proof (cases "st' = st")
  case False
  then obtain msg req rest where "run_handlers env (num_auth_handlers st) msg req
      (st\<lparr>msgs := rest, num_msgs := dec_size (num_msgs st)\<rparr>) = Some st'"
    using assms(1) unfolding Radius_client_receive_data_def bind_eq_Some_conv
    by (auto simp: bind_eq_Some_conv split: if_splits option.splits)
  then show ?thesis by (rule run_handlers_tables) (use assms(2) in \<open>simp add: tables_ok_tbl [of "st\<lparr>msgs := rest, num_msgs := dec_size (num_msgs st)\<rparr>" st]\<close>)
qed (use assms in simp)

lemma Handle_term_tbl [simp]: "tbl (Handle_term f st) = tbl st"
  by (simp add: Handle_term_def)

lemma run_reader_tables:
  assumes "run_reader env s h d st = Some st'" "tables_ok st"
  shows "tables_ok st'"
proof -
  have "tables_ok (Handle_term f st)" for f using tables_ok_tbl [OF Handle_term_tbl] assms(2) by simp
  then show ?thesis using assms read_frame_tables receive_data_tables by (cases h; cases d) auto
qed

lemma run_readers_tables: "run_readers env ready rs st = Some st' \<Longrightarrow> tables_ok st \<Longrightarrow> tables_ok st'"
proof (induction rs arbitrary: st)
  case (Cons r rs)
  then show ?case using run_reader_tables by (auto simp: bind_eq_Some_conv split: option.splits)
qed simp

lemma pass_tables:
  assumes "eloop_pass env ready st = Some st'" "tables_ok st"
  shows "tables_ok st'"
proof (cases "st' = st")
  case False
  obtain st1 where 1: "(case eloop_due (now env) (timeouts st) of None \<Rightarrow> Some st | Some (t, ts) \<Rightarrow> run_timer env t (st\<lparr>timeouts := ts\<rparr>)) = Some st1"
    "run_readers env ready (readers st1) st1 = Some st'"
    using assms(1) False unfolding eloop_pass_def bind_eq_Some_conv by (auto split: if_splits simp: bind_eq_Some_conv)
  have "tbl st1 = tbl st" using 1(1) by (auto split: option.splits dest!: run_timer_tbl)
  then show ?thesis using run_readers_tables [OF 1(2)] tables_ok_tbl assms(2) by blast
qed (use assms in simp)

text \<open>A reload frees all stations and keeps the timers that are not the client's or a port's.\<close>

lemma cancel_keeps:
  "x \<in> set ts \<Longrightarrow> timeout_handler x \<noteq> h \<Longrightarrow> x \<in> set (snd (eloop_cancel_timeout h d u ts))"
  by (induction ts) (auto simp: timeout_matches_def case_prod_beta Let_def)

lemma insert_keeps: "x \<in> set (insert_timeout t ts) \<longleftrightarrow> x = t \<or> x \<in> set ts"
  by (induction ts) auto

lemma set_timer_keeps [simp]:
  "x \<in> set (timeouts (set_timer env secs h u st)) \<longleftrightarrow> x = new_timeout (now env) secs 0 h The_apd u \<or> x \<in> set (timeouts st)"
  by (simp add: set_timer_def eloop_register_timeout_def insert_keeps)

lemma change_server_keeps:
  assumes "Radius_change_server env n o' st = Some st'" "x \<in> set (timeouts st)" "timeout_handler x \<noteq> Client_timer"
  shows "x \<in> set (timeouts st')"
  using assms by (auto simp: Radius_change_server_def Let_def Radius_client_flush_def cancel_timer_def
      intro: cancel_keeps split: if_splits)

lemma client_init_keeps:
  assumes "Radius_client_init env sock st = Some (ok, st')" "x \<in> set (timeouts st)" "timeout_handler x \<noteq> Client_timer"
  shows "x \<in> set (timeouts st')"
  using assms by (auto simp: Radius_client_init_def Radius_client_init_auth_def bind_eq_Some_conv
      dest!: change_server_keeps [where x = x] split: if_splits)

lemma reload_tables:
  assumes "Handle_usr1 env (Some c) sock st = Some st'" "tables_ok st"
  shows "tables_ok st' \<and> (\<forall>i. stas st' i = None) \<and>
    (\<forall>x \<in> set (timeouts st). timeout_handler x = Handle_session_timer \<longrightarrow> x \<in> set (timeouts st'))"
proof -
  define st0 where "st0 = (Radius_client_flush st)\<lparr>conf := c\<rparr>"
  have 0: "tables_ok st0" using tables_ok_tbl [of st0 st] assms(2) by (simp add: st0_def)
  from free_stas_tables [OF this refl] obtain st1 where 1: "Apd_free_stas st0 = Some st1" "tables_ok st1" "sta_list st1 = []"
    "\<forall>x \<in> set (timeouts st0). timeout_handler x \<noteq> Port_timers_tick \<longrightarrow> x \<in> set (timeouts st1)"
    by (auto simp: Apd_free_stas_def)
  obtain ok where i: "Radius_client_init env sock st1 = Some (ok, st')"
    using assms(1) 1(1) by (auto simp: Handle_usr1_def st0_def)
  have "tbl st' = tbl st1" by (rule client_init_tbl [OF i])
  then have t: "tables_ok st'" "sta_list st' = []" using 1(2,3) tables_ok_tbl by (blast, simp add: tbl_def)
  have "x \<in> set (timeouts st')" if "x \<in> set (timeouts st)" "timeout_handler x = Handle_session_timer" for x
  proof -
    have "x \<in> set (timeouts st0)"
      using that by (simp add: st0_def Radius_client_flush_def cancel_timer_def cancel_keeps)
    then show ?thesis using 1(4) that(2) client_init_keeps [OF i] by simp
  qed
  then show ?thesis using t empty_tables by blast
qed

lemma step_tables:
  assumes "apd_step e st = Some st'" "tables_ok st"
  shows "tables_ok st'"
proof (cases e)
  case (Reload env c sock)
  then show ?thesis using assms reload_tables by (cases c) (auto simp: Handle_usr1_def)
next
  case (Term f)
  then have "st' = Handle_term f st" using assms(1) by simp
  then show ?thesis using assms(2) tables_ok_tbl [OF Handle_term_tbl] by simp
qed (use assms pass_tables in auto)

lemma run_tables: "apd_run es st = Some st' \<Longrightarrow> tables_ok st \<Longrightarrow> tables_ok st'"
  by (induction es arbitrary: st) (auto simp: bind_eq_Some_conv dest: step_tables)

lemma setup_tables:
  assumes "apd_setup env c mac ss rs = Some st"
  shows "tables_ok st"
proof -
  obtain st1 ok where 1: "Radius_client_init env rs (apd_zero c mac ss) = Some (ok, st1)" "st = st1\<lparr>num_auth_handlers := num_auth_handlers st1 + 1\<rparr>"
    using assms by (auto simp: apd_setup_def bind_eq_Some_conv split: if_splits)
  have "tables_ok (apd_zero c mac ss)" by (simp add: tables_ok_def apd_zero_def)
  moreover have "tbl st = tbl (apd_zero c mac ss)" using client_init_tbl [OF 1(1)] 1(2) by simp
  ultimately show ?thesis using tables_ok_tbl by blast
qed

end
