(* ===== verification/Apd_Claims.thy ===== *)
theory Apd_Claims
  imports Apd_Runs Apd_Tables
begin

text \<open>
  What the 802.1X daemon does as a whole: runs from its start, with whatever stations, servers and
  forgers send, with timers, reloads and signals in any order.
\<close>

section \<open>Who authorises a port\<close>

definition conf_secrets :: "rtapd_config \<Rightarrow> u8 list option set" where
  "conf_secrets c = shared_secret ` set (auth_servers c)"

text \<open>The secrets of all servers that are configured in a run, and everything that is received.\<close>

definition run_secrets :: "rtapd_config \<Rightarrow> apd_event list \<Rightarrow> u8 list option set" where
  "run_secrets c es = conf_secrets c \<union> (\<Union>e \<in> set es. event_secrets e)"

definition received :: "apd_event list \<Rightarrow> u8 list set" where
  "received es = (\<Union>e \<in> set es. event_data e)"

lemma run_acts_from_setup:
  assumes "apd_setup env c mac ss rs = Some st0" "apd_run es st0 = Some st" "small_secrets (run_secrets c es)"
    "no_accept \<subseteq> A" "allowed A (run_secrets c es) (set (net st)) (received es)"
  shows "acts A (run_secrets c es) st0 st"
proof -
  have start: "requests_ok (run_secrets c es) st0"
    using setup_start [OF assms(1), of "run_secrets c es"] by (auto simp: run_secrets_def conf_secrets_def)
  have "event_secrets e \<subseteq> run_secrets c es" if "e \<in> set es" for e using that by (auto simp: run_secrets_def)
  moreover have "allowed A (run_secrets c es) (set (net st)) (event_data e)" if "e \<in> set es" for e
    using assms(5) that by (auto intro: allowed_mono simp: received_def)
  ultimately show ?thesis by (rule run_acts [OF assms(2,4) start assms(3)])
qed

lemma run_machines_reach:
  assumes "apd_setup env c mac ss rs = Some st0" "apd_run es st0 = Some st" "small_secrets (run_secrets c es)"
    "no_accept \<subseteq> A" "allowed A (run_secrets c es) (set (net st)) (received es)"
  shows "all_reach A (sm_of st)"
proof -
  have "all_reach A (sm_of st0)"
    using setup_start [OF assms(1), of "run_secrets c es"] by (auto simp: run_secrets_def conf_secrets_def)
  then show ?thesis using run_acts_from_setup [OF assms] sms_steps_reach [OF _ order_refl] by (auto simp: acts_def)
qed

text \<open>
  C1: only a RADIUS server authorises a port. In every run of the daemon, if nothing it has received is
  an Access-Accept whose Response Authenticator was made with the secret of a configured server for a
  request that the daemon has sent, then the port of every station is unauthorised and the driver has
  been given no key, whatever else was received and in whatever order.
\<close>

theorem port_needs_server_accept:
  assumes "apd_setup env c mac ss rs = Some st0" "apd_run es st0 = Some st" "small_secrets (run_secrets c es)"
  shows "(\<exists>d \<in> received es. genuine_accept (run_secrets c es) (set (net st)) d) \<or>
    (keyless st \<and> (\<forall>i s sm. stas st i = Some s \<and> eapol_sm s = Some sm \<longrightarrow> portStatus sm = Unauthorized))"
proof (cases "\<exists>d \<in> received es. genuine_accept (run_secrets c es) (set (net st)) d")
  case False
  then have a: "allowed no_accept (run_secrets c es) (set (net st)) (received es)" by (auto simp: allowed_def)
  have "all_reach no_accept (sm_of st0) \<and> keyless st0"
    using setup_start [OF assms(1), of "run_secrets c es" no_accept] by (auto simp: run_secrets_def conf_secrets_def)
  then have "keyless st" using run_acts_from_setup [OF assms order_refl a] by (simp add: acts_def)
  moreover have "portStatus sm = Unauthorized" if "stas st i = Some s" "eapol_sm s = Some sm" for i s sm
  proof -
    have "sm_of st i = Some sm" using that by (simp add: sm_of_def)
    then obtain cf where "sm_reach no_accept cf sm"
      using run_machines_reach [OF assms order_refl a] by (auto simp: all_reach_def)
    then show ?thesis using sm_reach_locked by (auto simp: sm_locked_def)
  qed
  ultimately show ?thesis by blast
qed blast

definition demo_env :: apd_env where
  "demo_env = \<lparr>now = \<lparr>tv_sec = 100, tv_usec = 0\<rparr>, ioctl_ok = (\<lambda>_. True), rand = (\<lambda>_. Some (replicate 16 7)),
     seed = (\<lambda>_. (replicate 8 1, [1, 2, 3, 4], [5, 6, 7, 8])), mem = (\<lambda>_. True), sta_mem = True, sm_mem = True\<rparr>"

definition demo_server :: hostapd_radius_server where
  "demo_server = \<lparr>srv_addr = 1, srv_port = 1812, shared_secret = Some [115, 51]\<rparr>"

definition demo_config :: rtapd_config where
  "demo_config = \<lparr>SsidNum = 1, IEEE8021X_ikey = [1, 2, 3, 4, 5], individual_wep_key_len = 5, own_ip_addr = [10, 0, 0, 1],
     auth_servers = [demo_server], auth_server = 0, radius_retry_primary_interval = 0,
     session_conf = \<lparr>session_timeout_set = True, session_timeout_interval = 600\<rparr>\<rparr>"

definition demo_station :: "u8 list" where "demo_station = [0, 2, 0, 0, 0, 9]"

text \<open>A frame of the station, received on the wireless interface.\<close>

definition demo_frame :: "u8 \<Rightarrow> u8 list \<Rightarrow> u8 list" where
  "demo_frame type body = [0, 1, 2, 3, 4, 5] @ demo_station @ [0x88, 0x8e, 1, type] @ be16_bytes (length body) @ body"

definition demo_pass :: "int \<Rightarrow> u8 list \<Rightarrow> apd_event" where
  "demo_pass sock data = Pass demo_env (\<lambda>s. if s = sock then Some (Recv data (replicate 8 0)) else None)"

text \<open>The daemon of the demonstration, its own address first.\<close>

definition demo_start :: "rtapd option" where
  "demo_start = apd_setup demo_env demo_config [0, 1, 2, 3, 4, 5] [5] 6"

text \<open>A forged Access-Accept, with a Message-Authenticator of zeros.\<close>

definition forged_accept :: "u8 list" where
  "forged_accept = [2, 0, 0, 38] @ replicate 16 9 @ [80, 18] @ replicate 16 0"

definition demo_attack :: "apd_event list" where
  "demo_attack = [demo_pass 5 (demo_frame 1 []), demo_pass 6 forged_accept]"

definition demo_view :: "rtapd \<Rightarrow> (auth_pae_state \<times> u8 list list \<times> nat) option" where
  "demo_view st = Option.bind (sm_of st 0) (\<lambda>sm. Some (pae_state (auth_pae sm), net st, length (driver st)))"

lemma demo_attack_view: "map_option demo_view (Option.bind demo_start (apd_run demo_attack)) = Some (Some (AUTH_PAE_CONNECTING, [], 1))"
  by code_simp

lemma demo_small: "small_secrets (run_secrets demo_config demo_attack)"
  by (simp add: small_secrets_def run_secrets_def conf_secrets_def demo_config_def demo_server_def demo_attack_def demo_pass_def secret_bytes_def)

theorem port_needs_server_accept_witness:
  "\<exists>st0 st s sm. demo_start = Some st0 \<and> apd_run demo_attack st0 = Some st \<and> stas st 0 = Some s \<and> eapol_sm s = Some sm \<and>
     pae_state (auth_pae sm) = AUTH_PAE_CONNECTING \<and> portStatus sm = Unauthorized \<and> keyless st"
proof -
  obtain st0 st where r: "demo_start = Some st0" "apd_run demo_attack st0 = Some st"
    "demo_view st = Some (AUTH_PAE_CONNECTING, [], 1)"
    using demo_attack_view by (auto simp: bind_eq_Some_conv)
  then obtain s sm where s: "stas st 0 = Some s" "eapol_sm s = Some sm" "pae_state (auth_pae sm) = AUTH_PAE_CONNECTING" "net st = []"
    unfolding demo_view_def sm_of_def by (auto simp: bind_eq_Some_conv)
  have "\<not> genuine_accept K (set (net st)) d" for K d by (simp add: s(4) genuine_accept_def)
  then show ?thesis
    using port_needs_server_accept [OF r(1) [unfolded demo_start_def] r(2) demo_small] r s by blast
qed

section \<open>The daemon as a set of machines\<close>

text \<open>
  C9: the daemon implements the specification in which every station has a machine of its own. Each
  pass of the loop, signal or reload acts on the machines as a sequence of machine events,
  allocations and releases, each for one station; among them is a server accept only if a genuine
  one was received; and every machine is in a state that its own events can reach.
\<close>

theorem daemon_refines_machines:
  assumes "apd_setup env c mac ss rs = Some st0" "apd_run es st0 = Some st" "apd_step e st = Some st'"
    "small_secrets (run_secrets c (es @ [e]))"
  shows "sms_steps (if \<exists>d \<in> event_data e. genuine_accept (run_secrets c (es @ [e])) (set (net st')) d then UNIV else no_accept)
      (sm_of st) (sm_of st') \<and> all_reach UNIV (sm_of st')"
proof -
  define K where "K = run_secrets c (es @ [e])"
  define A where "A = (if \<exists>d \<in> event_data e. genuine_accept K (set (net st')) d then UNIV else no_accept)"
  have sub: "conf_secrets c \<subseteq> K" "\<And>e'. e' \<in> set (es @ [e]) \<Longrightarrow> event_secrets e' \<subseteq> K"
    by (auto simp: K_def run_secrets_def)
  have s: "small_secrets K" using assms(4) by (simp add: K_def)
  have start: "requests_ok K st0 \<and> all_reach UNIV (sm_of st0)"
    using setup_start [OF assms(1), of K UNIV] sub(1) by (auto simp: conf_secrets_def)
  then have "acts UNIV K st0 st" by (intro run_acts [OF assms(2) _ _ s]) (use sub(2) in simp_all)
  then have st: "requests_ok K st" "all_reach UNIV (sm_of st)"
    using start sms_steps_reach [OF _ order_refl] by (auto simp: acts_def)
  have "allowed A K (set (net st')) (event_data e)" by (auto simp: allowed_def A_def)
  then have "acts A K st st'" by (intro step_acts [OF assms(3) _ st(1) s]) (use sub(2) in \<open>auto simp: A_def\<close>)
  then have m: "sms_steps A (sm_of st) (sm_of st')" by (simp add: acts_def)
  then show ?thesis using sms_steps_reach [OF m _ st(2)] by (simp add: A_def K_def)
qed

theorem daemon_refines_machines_witness:
  "\<exists>st0 st. demo_start = Some st0 \<and> apd_step (demo_pass 5 (demo_frame 1 [])) st0 = Some st \<and>
     sm_of st0 0 = None \<and> map_option (\<lambda>sm. pae_state (auth_pae sm)) (sm_of st 0) = Some AUTH_PAE_CONNECTING \<and>
     sms_steps no_accept (sm_of st0) (sm_of st)"
proof -
  let ?e = "demo_pass 5 (demo_frame 1 [])"
  let ?view = "\<lambda>st0. map_option (\<lambda>st. (map_option (\<lambda>sm. pae_state (auth_pae sm)) (sm_of st0 0), map_option (\<lambda>sm. pae_state (auth_pae sm)) (sm_of st 0), net st)) (apd_step ?e st0)"
  have "Option.bind demo_start ?view = Some (None, Some AUTH_PAE_CONNECTING, [])" by code_simp
  then obtain st0 st where r: "demo_start = Some st0" "apd_step ?e st0 = Some st" "sm_of st0 0 = None"
    "map_option (\<lambda>sm. pae_state (auth_pae sm)) (sm_of st 0) = Some AUTH_PAE_CONNECTING" "net st = []"
    by (auto simp: bind_eq_Some_conv)
  have sm: "small_secrets (run_secrets demo_config ([] @ [?e]))"
    by (simp add: small_secrets_def run_secrets_def conf_secrets_def demo_config_def demo_server_def demo_pass_def secret_bytes_def)
  have "\<not> (\<exists>d \<in> event_data ?e. genuine_accept K (set (net st)) d)" for K by (simp add: r(5) genuine_accept_def)
  then have "sms_steps no_accept (sm_of st0) (sm_of st)"
    using daemon_refines_machines [OF r(1) [unfolded demo_start_def] _ r(2) sm] by simp
  with r(1-4) show ?thesis by blast
qed

section \<open>The station table\<close>

text \<open>
  C10: the station table stays well-formed and is released completely. After every run of the daemon
  the list, the hash chains and the counter agree with the stations that are allocated, and what
  \<open>main\<close> does at the end frees every station once, without touching freed memory, and leaves no
  request and no station behind.
\<close>

theorem station_table_sound:
  assumes "apd_setup env c mac ss rs = Some st0" "apd_run es st0 = Some st"
  shows "tables_ok st \<and> (\<exists>st'. apd_end st = Some st' \<and> (\<forall>i. stas st' i = None) \<and> sta_list st' = [] \<and> msgs st' = [])"
proof -
  have t: "tables_ok st" by (rule run_tables [OF assms(2) setup_tables [OF assms(1)]])
  from free_stas_tables [OF t refl] obtain st1 where 1: "Apd_free_stas st = Some st1" "tables_ok st1" "sta_list st1 = []"
    by (auto simp: Apd_free_stas_def)
  have "stas (Radius_client_deinit st1) = stas st1" "sta_list (Radius_client_deinit st1) = sta_list st1" "msgs (Radius_client_deinit st1) = []"
    by (simp_all add: Radius_client_deinit_def Radius_client_flush_def cancel_timer_def)
  then show ?thesis using t 1 empty_tables by (auto simp: apd_end_def)
qed

theorem station_table_sound_witness:
  "\<exists>st0 st st'. demo_start = Some st0 \<and> apd_run demo_attack st0 = Some st \<and> sta_list st = [0] \<and> sta_hash st 9 = [0] \<and>
     tables_ok st \<and> apd_end st = Some st' \<and> sta_list st' = []"
proof -
  have "map_option (\<lambda>st. (sta_list st, sta_hash st 9)) (Option.bind demo_start (apd_run demo_attack)) = Some ([0], [0])"
    by code_simp
  then obtain st0 st where r: "demo_start = Some st0" "apd_run demo_attack st0 = Some st" "sta_list st = [0]" "sta_hash st 9 = [0]"
    by (auto simp: bind_eq_Some_conv)
  with station_table_sound [OF r(1) [unfolded demo_start_def] r(2)] show ?thesis by blast
qed

text \<open>
  C35: the session timer of a station outlives the station. When a reload happens while a session
  timer is registered, the station is freed and the timer is kept; when its time comes, the pass of
  the loop reads the freed station.
\<close>

theorem session_timer_outlives_station:
  assumes "tables_ok st" "t \<in> set (timeouts st)" "timeout_handler t = Handle_session_timer" "user_data t = Sta i"
    "apd_step (Reload env (Some c) sock) st = Some st1"
  shows "stas st1 i = None \<and> t \<in> set (timeouts st1) \<and>
    (eloop_due (now env') (timeouts st1) = Some (t, ts) \<and> mem env' 16 \<and> \<not> terminate st1 \<longrightarrow> apd_step (Pass env' ready) st1 = None)"
proof -
  have 1: "stas st1 j = None" "t \<in> set (timeouts st1)" for j
    using reload_tables [of env c sock st st1] assms by auto
  have "apd_step (Pass env' ready) st1 = None"
    if "eloop_due (now env') (timeouts st1) = Some (t, ts)" "mem env' 16" "\<not> terminate st1"
  proof -
    have "timeouts st1 \<noteq> []" using 1(2) by auto
    then show ?thesis
      using that assms(3,4) 1(1) by (simp add: eloop_pass_def run_timer_def Ap_handle_session_timer_def)
  qed
  then show ?thesis using 1 by blast
qed

definition demo_late :: apd_env where
  "demo_late = demo_env\<lparr>now := \<lparr>tv_sec = 800, tv_usec = 0\<rparr>\<rparr>"

text \<open>The session timer is the one that \<open>accept_timeout\<close> registers for an Access-Accept without Session-Timeout.\<close>

theorem session_timer_outlives_station_witness:
  "\<exists>st0 st free st1 st2. demo_start = Some st0 \<and> apd_run demo_attack st0 = Some st \<and>
     accept_timeout demo_env 0 None RADIUS_TERMINATION_ACTION_DEFAULT st = Some (free, st1) \<and>
     apd_step (Reload demo_env (Some demo_config) 7) st1 = Some st2 \<and>
     apd_step (Pass demo_late (\<lambda>s. None)) st2 = None"
proof -
  let ?t = "\<lparr>timeout_time = \<lparr>tv_sec = 700, tv_usec = 0\<rparr>, timeout_handler = Handle_session_timer, eloop_data = The_apd, user_data = Sta 0\<rparr>"
  let ?view = "\<lambda>st0. Option.bind (apd_run demo_attack st0) (\<lambda>st. Option.bind (accept_timeout demo_env 0 None RADIUS_TERMINATION_ACTION_DEFAULT st)
    (\<lambda>(free, st1). map_option (\<lambda>st2. (?t \<in> set (timeouts st1), eloop_due (now demo_late) (timeouts st2), terminate st2))
       (apd_step (Reload demo_env (Some demo_config) 7) st1)))"
  have "Option.bind demo_start ?view = Some (True, Some (?t, []), False)" by code_simp
  then obtain st0 st free st1 st2 where r: "demo_start = Some st0" "apd_run demo_attack st0 = Some st"
    "accept_timeout demo_env 0 None RADIUS_TERMINATION_ACTION_DEFAULT st = Some (free, st1)"
    "apd_step (Reload demo_env (Some demo_config) 7) st1 = Some st2" "?t \<in> set (timeouts st1)"
    "eloop_due (now demo_late) (timeouts st2) = Some (?t, [])" "\<not> terminate st2"
    by (auto simp: bind_eq_Some_conv)
  have "tables_ok st" by (rule run_tables [OF r(2) setup_tables [OF r(1) [unfolded demo_start_def]]])
  then have "tables_ok st1" using tables_ok_tbl [OF accept_timeout_tbl [OF r(3)]] by simp
  moreover have "mem demo_late 16" by (simp add: demo_late_def demo_env_def)
  ultimately show ?thesis
    using session_timer_outlives_station [OF _ r(5) _ _ r(4), of 0 demo_late "[]" "\<lambda>s. None"] r by auto
qed

section \<open>EAPOL-Key frames\<close>

text \<open>
  What a station does with an EAPOL-Key frame by IEEE 802.1X: it checks the lengths and the signature,
  which is made over the frame with zeros in its place, and decrypts the key. The result is the key
  index with its flag, and the key.
\<close>

definition open_key_frame :: "u8 list \<Rightarrow> u8 list \<Rightarrow> u8 list \<Rightarrow> (u8 \<times> u8 list) option" where
  "open_key_frame sign crypt pdu =
     (let len = be16 (pdu ! 2) (pdu ! 3); body = take len (drop 4 pdu) in
      if pdu ! 0 = EAPOL_VERSION \<and> pdu ! 1 = IEEE802_1X_TYPE_EAPOL_KEY \<and> 44 \<le> len \<and> 4 + len \<le> length pdu \<and>
        body ! 0 = EAPOL_KEY_TYPE_RC4 \<and> be16 (body ! 1) (body ! 2) + 44 = len \<and>
        take 16 (drop 28 body) = hmac_md5 sign (take 4 pdu @ take 28 body @ replicate 16 0 @ drop 44 body)
      then map_option (Pair (body ! 27)) (rc4 (drop 44 body) (take 16 (drop 11 body) @ crypt))
      else None)"

lemma eapol_key_parts:
  assumes "length stamp = 8" "length iv = 16" "length sig = 16"
  shows "length (eapol_key stamp iv ix sig ekey) = 44 + length ekey"
    "eapol_key stamp iv ix sig ekey ! 0 = EAPOL_KEY_TYPE_RC4"
    "eapol_key stamp iv ix sig ekey ! 1 = hi8 (length ekey mod 65536)" "eapol_key stamp iv ix sig ekey ! 2 = lo8 (length ekey mod 65536)"
    "take 16 (drop 11 (eapol_key stamp iv ix sig ekey)) = iv"
    "eapol_key stamp iv ix sig ekey ! 27 = ix"
    "take 28 (eapol_key stamp iv ix sig ekey) = take 28 (eapol_key stamp iv ix (replicate 16 0) ekey)"
    "take 16 (drop 28 (eapol_key stamp iv ix sig ekey)) = sig"
    "drop 44 (eapol_key stamp iv ix sig ekey) = ekey"
  using assms by (simp_all add: eapol_key_def be16_bytes_def nth_append)

lemma length_ntp_stamp [simp]: "length (ntp_stamp t) = 8"
  by (simp add: ntp_stamp_def be32_bytes_def)

lemma open_key_frame_written:
  fixes ix :: u8 and ekey :: "u8 list"
  assumes "length stamp = 8" "length iv = 16" "44 + length ekey < 65536"
  defines "key \<equiv> \<lambda>sig. eapol_key stamp iv ix sig ekey"
  defines "hdr \<equiv> [EAPOL_VERSION, IEEE802_1X_TYPE_EAPOL_KEY] @ be16_bytes (44 + length ekey)"
  shows "open_key_frame sign crypt (hdr @ key (hmac_md5 sign (hdr @ key (replicate 16 0))) @ [0, 0]) =
    map_option (Pair ix) (rc4 ekey (iv @ crypt))"
proof -
  define sig where "sig = hmac_md5 sign (hdr @ key (replicate 16 0))"
  have ls: "length sig = 16" by (simp add: sig_def)
  note parts = eapol_key_parts [OF assms(1,2) ls, where ix = ix and ekey = ekey]
  have lh: "length hdr = 4" by (simp add: hdr_def be16_bytes_def)
  define pdu where "pdu = hdr @ key sig @ [0, 0]"
  have h: "pdu ! 0 = EAPOL_VERSION" "pdu ! 1 = IEEE802_1X_TYPE_EAPOL_KEY" "be16 (pdu ! 2) (pdu ! 3) = 44 + length ekey"
    "take 4 pdu = hdr" using assms(3) by (simp_all add: pdu_def hdr_def be16_bytes_def)
  have b: "take (44 + length ekey) (drop 4 pdu) = key sig" using lh parts(1) by (simp add: pdu_def key_def)
  have "length (key (replicate 16 0)) = 44 + length ekey" "drop 44 (key (replicate 16 0)) = ekey" "take 16 (drop 28 (key (replicate 16 0))) = replicate 16 0"
    using eapol_key_parts [OF assms(1,2), of "replicate 16 0" ix ekey] by (simp_all add: key_def)
  then have "take 28 (key (replicate 16 0)) @ replicate 16 0 @ ekey = key (replicate 16 0)"
    using append_take_drop_id [of 28 "key (replicate 16 0)"] append_take_drop_id [of 16 "drop 28 (key (replicate 16 0))"]
    by (simp add: add.commute)
  then have z: "take 28 (key sig) @ replicate 16 0 @ ekey = key (replicate 16 0)" using parts(7) by (simp add: key_def)
  have "be16 (key sig ! 1) (key sig ! 2) = length ekey" using parts(3,4) assms(3) by (simp add: key_def)
  moreover have "hmac_md5 sign (hdr @ eapol_key stamp iv ix (replicate 16 0) ekey) = sig" by (simp add: sig_def key_def)
  ultimately have "open_key_frame sign crypt pdu = map_option (Pair ix) (rc4 ekey (iv @ crypt))"
    unfolding open_key_frame_def Let_def h(3) b using parts h(1,2,4) z lh by (simp add: pdu_def key_def)
  then show ?thesis by (simp add: pdu_def sig_def)
qed

text \<open>
  C36: what \<open>ieee802_1x_tx_key_one\<close> sends opens at the station. With the keys that the server gave to
  both, a key of any length that fits in a frame goes out in one frame to the station; its signature
  is the one the standard asks for, and decrypting recovers the key and its index, with the flag for
  a key of the station alone.
\<close>

theorem key_frame_opens:
  assumes "stas st i = Some s" "eapol_key_sign s = Some sign" "eapol_key_crypt s = Some crypt"
    "\<And>n. mem env n" "rand env (length (driver st)) = Some iv" "length iv = 16"
    "length (sta_addr s) = 6" "length (own_addr st) = 6" "44 + length key < 65536"
  shows "\<exists>st' f. ieee802_1x_tx_key_one env i index broadcast key st = Some st' \<and>
    driver st' = driver st @ [(Radius_data f, ApIdx s)] \<and> take 6 f = sta_addr s \<and>
    open_key_frame sign crypt (drop 14 f) = Some (if broadcast then index else index OR 0x80, key)"
proof -
  obtain ekey where e: "rc4 key (iv @ crypt) = Some ekey" "length ekey = length key"
    using rc4_total [of "iv @ crypt" key] assms(6) by fastforce
  define ix where "ix = (if broadcast then index else index OR 0x80)"
  define hdr where "hdr = [EAPOL_VERSION, IEEE802_1X_TYPE_EAPOL_KEY] @ be16_bytes (44 + length ekey)"
  define sig where "sig = hmac_md5 sign (hdr @ eapol_key (ntp_stamp (now env)) iv ix (replicate 16 0) ekey)"
  define f where "f = eapol_frame (sta_addr s) (own_addr st) IEEE802_1X_TYPE_EAPOL_KEY (eapol_key (ntp_stamp (now env)) iv ix sig ekey)"
  have len: "length (eapol_key (ntp_stamp (now env)) iv ix sig ekey) = 44 + length ekey"
    using eapol_key_parts(1) [of "ntp_stamp (now env)" iv sig] assms(6) by (simp add: sig_def)
  have "ieee802_1x_tx_key_one env i index broadcast key st = Some (snd (RT_ioctl env (Radius_data f) (ApIdx s) st))"
    using assms(1-5) e by (simp add: ieee802_1x_tx_key_one_def ieee802_1x_send_def Let_def f_def sig_def ix_def hdr_def)
  moreover have "driver (snd (RT_ioctl env (Radius_data f) (ApIdx s) st)) = driver st @ [(Radius_data f, ApIdx s)]" by (simp add: RT_ioctl_def)
  moreover have "drop 14 f = hdr @ eapol_key (ntp_stamp (now env)) iv ix sig ekey @ [0, 0]"
    using assms(7,8) len by (simp add: f_def eapol_frame_def hdr_def)
  moreover have "open_key_frame sign crypt (hdr @ eapol_key (ntp_stamp (now env)) iv ix sig ekey @ [0, 0]) = Some (ix, key)"
    using open_key_frame_written [of "ntp_stamp (now env)" iv ekey sign crypt ix] assms(6,9) e rc4_twice [OF e(1)]
    by (simp add: sig_def hdr_def)
  moreover have "take 6 f = sta_addr s" using assms(7) by (simp add: f_def eapol_frame_def)
  ultimately show ?thesis by (auto simp: ix_def)
qed

text \<open>A station whose keys are known, in the daemon of the demonstration.\<close>

definition demo_keyed :: sta_info where
  "demo_keyed = (new_sta demo_station 0)\<lparr>eapol_key_sign := Some [11, 12, 13], eapol_key_crypt := Some [21, 22]\<rparr>"

definition demo_with_keys :: rtapd where
  "demo_with_keys = (apd_zero demo_config [0, 1, 2, 3, 4, 5] [5])\<lparr>stas := [0 \<mapsto> demo_keyed]\<rparr>"

theorem key_frame_opens_witness:
  "\<exists>st' f. ieee802_1x_tx_key_one demo_env 0 3 False [1, 2, 3, 4, 5] demo_with_keys = Some st' \<and>
     driver st' = [(Radius_data f, 0)] \<and> take 6 f = demo_station \<and>
     open_key_frame [11, 12, 13] [21, 22] (drop 14 f) = Some (0x83, [1, 2, 3, 4, 5])"
  using key_frame_opens [of demo_with_keys 0 demo_keyed "[11, 12, 13]" "[21, 22]" demo_env "replicate 16 7" "[1, 2, 3, 4, 5]" 3 False]
  by (simp add: demo_with_keys_def demo_keyed_def demo_env_def apd_zero_def new_sta_def demo_station_def)

section \<open>Retransmission\<close>

lemma timer_loop_few:
  "timer_loop t f es = (kept, sent, n, fo, f') \<Longrightarrow> \<forall>e \<in> set es. attempts e \<le> RADIUS_CLIENT_NUM_FAILOVER \<Longrightarrow>
   map req_msg kept = map req_msg es \<and> n = 0 \<and> (fo = 0 \<longrightarrow> (\<forall>e \<in> set kept. attempts e \<le> RADIUS_CLIENT_NUM_FAILOVER))"
proof (induction es arbitrary: f kept sent n fo f')
  case (Cons e es)
  define e' where "e' = (if next_try e \<le> t then snd (Radius_client_retransmit t e) else e)"
  define out where "out = (if next_try e \<le> t then [take (buf_used (req_msg e)) (buf (req_msg e))] else [])"
  have r: "fst (Radius_client_retransmit t e) = False" "req_msg e' = req_msg e"
    using Cons.prems(2) by (simp_all add: Radius_client_retransmit_def Let_def RADIUS_CLIENT_NUM_FAILOVER_def RADIUS_CLIENT_MAX_RETRIES_def e'_def)
  then have pair: "(if next_try e \<le> t then Radius_client_retransmit t e else (False, e)) = (False, e')"
    by (simp add: e'_def prod_eq_iff)
  define first' where "first' = (if f = 0 \<or> next_try e' < f then next_try e' else f)"
  obtain k s m o' f2 where rest: "timer_loop t first' es = (k, s, m, o', f2)" by (metis prod_cases5)
  have "map req_msg k = map req_msg es \<and> m = 0 \<and> (o' = 0 \<longrightarrow> (\<forall>e \<in> set k. attempts e \<le> RADIUS_CLIENT_NUM_FAILOVER))"
    using Cons.IH [OF rest] Cons.prems(2) by simp
  moreover have "kept = e' # k" "n = m" "fo = o' + (if attempts e' > RADIUS_CLIENT_NUM_FAILOVER then 1 else 0)"
    using Cons.prems(1) unfolding timer_loop.simps Let_def pair prod.case out_def [symmetric] if_False first'_def [symmetric] rest by auto
  ultimately show ?case using r(2) by auto
qed simp

text \<open>
  C37: with two or more servers that share a secret a request is never given up. The daemon changes
  the server as soon as a request has been sent five times, and the change starts every count again:
  as long as each count is at most four, the timer keeps all requests, and each count is at most four
  afterwards, so the limit of ten attempts is never reached.
\<close>

theorem failover_never_gives_up:
  assumes "1 < length (auth_servers (conf st))" "auth_server (conf st) < length (auth_servers (conf st))"
    "\<And>srv. srv \<in> set (auth_servers (conf st)) \<Longrightarrow> secret_bytes (shared_secret srv) = k"
    "\<And>e. e \<in> set (msgs st) \<Longrightarrow> attempts e \<le> RADIUS_CLIENT_NUM_FAILOVER"
  shows "\<exists>st'. Radius_client_timer env st = Some st' \<and> map req_msg (msgs st') = map req_msg (msgs st) \<and>
    (\<forall>e \<in> set (msgs st'). attempts e \<le> RADIUS_CLIENT_NUM_FAILOVER) \<and>
    auth_servers (conf st') = auth_servers (conf st) \<and> auth_server (conf st') < length (auth_servers (conf st'))"
proof (cases "msgs st = []")
  case True
  then show ?thesis using assms(2) by (simp add: Radius_client_timer_def)
next
  case False
  obtain kept sent n fo f where l: "timer_loop (time_now env) 0 (msgs st) = (kept, sent, n, fo, f)" by (metis prod_cases5)
  have few: "map req_msg kept = map req_msg (msgs st)" "fo = 0 \<Longrightarrow> \<forall>e \<in> set kept. attempts e \<le> RADIUS_CLIENT_NUM_FAILOVER"
    using timer_loop_few [OF l] assms(4) by blast+
  define st1 where "st1 = st\<lparr>msgs := kept, net := net st @ sent, num_msgs := (dec_size ^^ n) (num_msgs st)\<rparr>"
  define st2 where "st2 = (if kept \<noteq> [] then set_timer env (word_of_int ((if f < time_now env then time_now env else f) - time_now env)) Client_timer Null_ctx st1 else st1)"
  have s2: "msgs st2 = kept" "conf st2 = conf st" by (simp_all add: st2_def st1_def set_timer_def)
  define nx where "nx = (if auth_server (conf st2) + 1 > length (auth_servers (conf st2)) - 1 then 0 else auth_server (conf st2) + 1)"
  define st3 where "st3 = st2\<lparr>conf := (conf st2)\<lparr>auth_server := nx\<rparr>\<rparr>"
  have nx: "nx < length (auth_servers (conf st))" using assms(1) by (auto simp: nx_def s2)
  have c: "current_server st2 = Some (auth_servers (conf st) ! auth_server (conf st))" using assms(2) by (simp add: current_server_def s2)
  have t: "Radius_client_timer env st =
      (if fo > 0 then Radius_change_server env (auth_servers (conf st) ! nx) (current_server st2) st3 else Some st2)"
    using False assms(1) c unfolding Radius_client_timer_def l Let_def prod.case st1_def [symmetric] st2_def [symmetric] nx_def [symmetric] st3_def [symmetric]
    by (simp add: s2)
  show ?thesis
  proof (cases "fo > 0")
    case True
    define st4 where "st4 = st3\<lparr>msgs := map reset_entry (msgs st3)\<rparr>"
    define st5 where "st5 = (if msgs st4 = [] then st4 else set_timer env (word_of_int RADIUS_CLIENT_FIRST_WAIT) Client_timer Null_ctx (cancel_timer Client_timer Null_ctx st4))"
    have s5: "msgs st5 = map reset_entry kept" "conf st5 = (conf st)\<lparr>auth_server := nx\<rparr>"
      by (simp_all add: st5_def st4_def st3_def s2 set_timer_def cancel_timer_def)
    have "secret_bytes (shared_secret (auth_servers (conf st) ! nx)) = k" "secret_bytes (shared_secret (auth_servers (conf st) ! auth_server (conf st))) = k"
      using assms(2,3) nx by simp_all
    moreover obtain srv where "current_server st5 = Some srv" using nx by (simp add: current_server_def s5)
    ultimately have "Radius_change_server env (auth_servers (conf st) ! nx) (current_server st2) st3 =
        Some (st5\<lparr>peer := (srv_addr (auth_servers (conf st) ! nx), srv_port srv)\<rparr>)"
      unfolding Radius_change_server_def Let_def c st4_def [symmetric] st5_def [symmetric] by simp
    moreover have "map req_msg (map reset_entry kept) = map req_msg (msgs st)" using few(1) by (simp add: reset_entry_def comp_def)
    moreover have "\<forall>e \<in> set (map reset_entry kept). attempts e \<le> RADIUS_CLIENT_NUM_FAILOVER" by (auto simp: reset_entry_def)
    ultimately show ?thesis using t True s5 nx by simp
  next
    case False
    then show ?thesis using t few s2 assms(2) by simp
  qed
qed

definition demo_pending :: rtapd where
  "demo_pending = (apd_zero (demo_config\<lparr>auth_servers := [demo_server, demo_server\<lparr>srv_addr := 2\<rparr>]\<rparr>) [0, 1, 2, 3, 4, 5] [5])
     \<lparr>msgs := [\<lparr>req_msg = \<lparr>buf = [1, 0, 0, 4], buf_used = 4, attrs = [], attr_size = 0\<rparr>, first_try = 80, next_try = 99, attempts = 4, next_wait = 16,
        req_secret = Some [115, 51]\<rparr>], num_msgs := 1\<rparr>"

theorem failover_never_gives_up_witness:
  "\<exists>st'. Radius_client_timer demo_env demo_pending = Some st' \<and> net st' = [[1, 0, 0, 4]] \<and> auth_server (conf st') = 1 \<and>
     map req_msg (msgs st') = map req_msg (msgs demo_pending) \<and> map attempts (msgs st') = [0]"
proof -
  have "map_option (\<lambda>st. (net st, auth_server (conf st), map attempts (msgs st))) (Radius_client_timer demo_env demo_pending) =
      Some ([[1, 0, 0, 4]], 1, [0])"
    by code_simp
  moreover have "\<exists>st'. Radius_client_timer demo_env demo_pending = Some st' \<and> map req_msg (msgs st') = map req_msg (msgs demo_pending)"
  proof -
    have "1 < length (auth_servers (conf demo_pending))" "auth_server (conf demo_pending) < length (auth_servers (conf demo_pending))"
      by (simp_all add: demo_pending_def apd_zero_def demo_config_def)
    moreover have "secret_bytes (shared_secret srv) = [115, 51]" if "srv \<in> set (auth_servers (conf demo_pending))" for srv
      using that by (auto simp: demo_pending_def apd_zero_def demo_server_def secret_bytes_def)
    moreover have "attempts e \<le> RADIUS_CLIENT_NUM_FAILOVER" if "e \<in> set (msgs demo_pending)" for e
      using that by (simp add: demo_pending_def RADIUS_CLIENT_NUM_FAILOVER_def)
    ultimately show ?thesis using failover_never_gives_up by blast
  qed
  ultimately show ?thesis by auto
qed

end
