(* ===== verification/Event_Select.thy ===== *)
theory Event_Select
  imports Linked_Lists Eloop
begin

text \<open>
  The event selector of the PPPoE server (\<open>rg/pkg/pppoe-server/src/libevent/event.c\<close>): a linked list
  of handlers for file descriptors and timers, and the function that waits with \<open>select\<close> and calls
  the handlers that are due. Handlers live in a heap whose freed addresses have no value; a function
  that reads one, or that does not return, gives \<open>None\<close>. What the callbacks share with each other is
  the field \<open>es_world\<close>; a callback may end the program (\<open>Exit\<close>). \<open>es_calls\<close> records the calls of
  callbacks. The results of \<open>malloc\<close>, \<open>gettimeofday\<close> and \<open>select\<close> are arguments.
\<close>

section \<open>Data\<close>

definition EVENT_FLAG_READABLE :: u32 where "EVENT_FLAG_READABLE = 1"
definition EVENT_FLAG_WRITEABLE :: u32 where "EVENT_FLAG_WRITEABLE = 2"
definition EVENT_FLAG_TIMER :: u32 where "EVENT_FLAG_TIMER = 4"
definition EVENT_FLAG_TIMEOUT :: u32 where "EVENT_FLAG_TIMEOUT = 8"
definition EVENT_TIMER_BITS :: u32 where "EVENT_TIMER_BITS = EVENT_FLAG_TIMER OR EVENT_FLAG_TIMEOUT"
definition EVENT_FLAG_DELETED :: u32 where "EVENT_FLAG_DELETED = 256"

record ('f, 'd) event_handler =
  eh_next :: "nat option"
  eh_fd :: int
  eh_flags :: u32
  eh_tmout :: timeval
  eh_fn :: 'f
  eh_data :: 'd

record ('f, 'd, 'w) selector =
  es_heap :: "nat \<Rightarrow> ('f, 'd) event_handler option"
  es_handlers :: "nat option"
  nestLevel :: nat
  opsPending :: bool
  destroyPending :: bool
  es_freed :: bool
  es_calls :: "(nat \<times> u32) list"
  es_world :: 'w

datatype ('a, 'e) ctl = Cont 'a | Exit 'e

definition has_flag :: "u32 \<Rightarrow> ('f, 'd) event_handler \<Rightarrow> bool" where
  "has_flag m h \<longleftrightarrow> eh_flags h AND m \<noteq> 0"

definition Event_CreateSelector :: "'w \<Rightarrow> ('f, 'd, 'w) selector" where
  "Event_CreateSelector w = \<lparr>es_heap = (\<lambda>_. None), es_handlers = None, nestLevel = 0, opsPending = False,
     destroyPending = False, es_freed = False, es_calls = [], es_world = w\<rparr>"

definition set_handler :: "nat \<Rightarrow> ('f, 'd) event_handler \<Rightarrow> ('f, 'd, 'w) selector \<Rightarrow> ('f, 'd, 'w) selector" where
  "set_handler a h es = es\<lparr>es_heap := (es_heap es)(a \<mapsto> h)\<rparr>"

definition DestroyHandler :: "nat \<Rightarrow> ('f, 'd, 'w) selector \<Rightarrow> ('f, 'd, 'w) selector" where
  "DestroyHandler a es = es\<lparr>es_heap := (es_heap es)(a := None)\<rparr>"

section \<open>Adding and changing handlers\<close>

text \<open>\<open>m\<close> is what \<open>malloc\<close> returns. The result is the address of the handler, or NULL.\<close>

definition push_handler :: "nat \<Rightarrow> ('f, 'd) event_handler \<Rightarrow> ('f, 'd, 'w) selector \<Rightarrow> nat option \<times> ('f, 'd, 'w) selector" where
  "push_handler a h es = (Some a, (set_handler a (h\<lparr>eh_next := es_handlers es\<rparr>) es)\<lparr>es_handlers := Some a\<rparr>)"

definition Event_AddHandler ::
  "nat option \<Rightarrow> int \<Rightarrow> u32 \<Rightarrow> 'f \<Rightarrow> 'd \<Rightarrow> ('f, 'd, 'w) selector \<Rightarrow> nat option \<times> ('f, 'd, 'w) selector" where
  "Event_AddHandler m fd flags f d es =
     (let flags = flags AND NOT (EVENT_TIMER_BITS OR EVENT_FLAG_DELETED) in
      if fd < 0 then (None, es)
      else case m of
          None \<Rightarrow> (None, es)
        | Some a \<Rightarrow> push_handler a \<lparr>eh_next = None, eh_fd = fd, eh_flags = flags, eh_tmout = \<lparr>tv_sec = 0, tv_usec = 0\<rparr>,
            eh_fn = f, eh_data = d\<rparr> es)"

text \<open>A time interval, from now on.\<close>

definition abs_time :: "timeval \<Rightarrow> timeval \<Rightarrow> timeval" where
  "abs_time now t =
     (let t = \<lparr>tv_sec = tv_sec t + tv_sec now, tv_usec = tv_usec t + tv_usec now\<rparr> in
      if 1000000 \<le>s tv_usec t then \<lparr>tv_sec = tv_sec t + 1, tv_usec = tv_usec t - 1000000\<rparr> else t)"

definition Event_AddHandlerWithTimeout ::
  "nat option \<Rightarrow> timeval \<Rightarrow> int \<Rightarrow> u32 \<Rightarrow> timeval \<Rightarrow> 'f \<Rightarrow> 'd \<Rightarrow> ('f, 'd, 'w) selector \<Rightarrow>
   nat option \<times> ('f, 'd, 'w) selector" where
  "Event_AddHandlerWithTimeout m now fd flags t f d es =
     (if tv_sec t <s 0 \<or> tv_usec t <s 0 then Event_AddHandler m fd flags f d es
      else
        let flags = (flags AND NOT (EVENT_FLAG_TIMER OR EVENT_FLAG_DELETED)) OR EVENT_FLAG_TIMEOUT in
        if fd < 0 then (None, es)
        else if 1000000 \<le>s tv_usec t then (None, es)
        else case m of
            None \<Rightarrow> (None, es)
          | Some a \<Rightarrow> push_handler a \<lparr>eh_next = None, eh_fd = fd, eh_flags = flags, eh_tmout = abs_time now t,
              eh_fn = f, eh_data = d\<rparr> es)"

definition Event_AddTimerHandler ::
  "nat option \<Rightarrow> timeval \<Rightarrow> timeval \<Rightarrow> 'f \<Rightarrow> 'd \<Rightarrow> ('f, 'd, 'w) selector \<Rightarrow> nat option \<times> ('f, 'd, 'w) selector" where
  "Event_AddTimerHandler m now t f d es =
     (if tv_sec t <s 0 \<or> tv_usec t <s 0 \<or> 1000000 \<le>s tv_usec t then (None, es)
      else case m of
          None \<Rightarrow> (None, es)
        | Some a \<Rightarrow> push_handler a \<lparr>eh_next = None, eh_fd = - 1, eh_flags = EVENT_FLAG_TIMER, eh_tmout = abs_time now t,
            eh_fn = f, eh_data = d\<rparr> es)"

text \<open>The functions on a handler, \<open>None\<close> when it has been freed.\<close>

definition upd_handler ::
  "nat \<Rightarrow> (('f, 'd) event_handler \<Rightarrow> ('f, 'd) event_handler) \<Rightarrow> ('f, 'd, 'w) selector \<Rightarrow> ('f, 'd, 'w) selector option" where
  "upd_handler a f es = map_option (\<lambda>h. set_handler a (f h) es) (es_heap es a)"

definition Event_GetCallback :: "nat \<Rightarrow> ('f, 'd, 'w) selector \<Rightarrow> 'f option" where
  "Event_GetCallback a es = map_option eh_fn (es_heap es a)"

definition Event_GetData :: "nat \<Rightarrow> ('f, 'd, 'w) selector \<Rightarrow> 'd option" where
  "Event_GetData a es = map_option eh_data (es_heap es a)"

definition Event_SetCallbackAndData :: "nat \<Rightarrow> 'f \<Rightarrow> 'd \<Rightarrow> ('f, 'd, 'w) selector \<Rightarrow> ('f, 'd, 'w) selector option" where
  "Event_SetCallbackAndData a f d = upd_handler a (\<lambda>h. h\<lparr>eh_fn := f, eh_data := d\<rparr>)"

definition Event_ChangeTimeout :: "timeval \<Rightarrow> nat \<Rightarrow> timeval \<Rightarrow> ('f, 'd, 'w) selector \<Rightarrow> ('f, 'd, 'w) selector option" where
  "Event_ChangeTimeout now a t es =
     (if tv_sec t <s 0 \<or> tv_usec t <s 0 \<or> 1000000 \<le>s tv_usec t then Some es
      else upd_handler a (\<lambda>h. h\<lparr>eh_tmout := abs_time now t\<rparr>) es)"

section \<open>Deletion\<close>

definition mark_deleted :: "nat \<Rightarrow> ('f, 'd, 'w) selector \<Rightarrow> ('f, 'd, 'w) selector option" where
  "mark_deleted a es = map_option (\<lambda>es. es\<lparr>opsPending := True\<rparr>)
     (upd_handler a (\<lambda>h. h\<lparr>eh_flags := eh_flags h OR EVENT_FLAG_DELETED\<rparr>) es)"

text \<open>\<open>prev->next = cur->next\<close>, or the head of the list.\<close>

definition unlink_after :: "nat option \<Rightarrow> nat option \<Rightarrow> ('f, 'd, 'w) selector \<Rightarrow> ('f, 'd, 'w) selector option" where
  "unlink_after prev nxt es =
     (case prev of None \<Rightarrow> Some (es\<lparr>es_handlers := nxt\<rparr>)
      | Some p \<Rightarrow> upd_handler p (\<lambda>h. h\<lparr>eh_next := nxt\<rparr>) es)"

partial_function (option) del_loop ::
  "nat \<Rightarrow> nat option \<Rightarrow> nat option \<Rightarrow> ('f, 'd, 'w) selector \<Rightarrow> (int \<times> ('f, 'd, 'w) selector) option" where
  "del_loop a cur prev es =
     (case cur of
        None \<Rightarrow> Some (1, es)
      | Some c \<Rightarrow>
          if c = a then
            (if nestLevel es \<noteq> 0 then map_option (Pair 0) (mark_deleted a es)
             else Option.bind (es_heap es c) (\<lambda>h. map_option (\<lambda>es. (0, DestroyHandler c es)) (unlink_after prev (eh_next h) es)))
          else Option.bind (es_heap es c) (\<lambda>h. del_loop a (eh_next h) (Some c) es))"

declare del_loop.simps [code]

definition Event_DelHandler :: "nat \<Rightarrow> ('f, 'd, 'w) selector \<Rightarrow> (int \<times> ('f, 'd, 'w) selector) option" where
  "Event_DelHandler a es = del_loop a (es_handlers es) None es"

partial_function (option) destroy_loop :: "nat option \<Rightarrow> ('f, 'd, 'w) selector \<Rightarrow> ('f, 'd, 'w) selector option" where
  "destroy_loop cur es =
     (case cur of
        None \<Rightarrow> Some es
      | Some c \<Rightarrow> Option.bind (es_heap es c) (\<lambda>h. destroy_loop (eh_next h) (DestroyHandler c es)))"

declare destroy_loop.simps [code]

definition DestroySelector :: "('f, 'd, 'w) selector \<Rightarrow> ('f, 'd, 'w) selector option" where
  "DestroySelector es = map_option (\<lambda>es. es\<lparr>es_freed := True\<rparr>) (destroy_loop (es_handlers es) es)"

definition Event_DestroySelector :: "('f, 'd, 'w) selector \<Rightarrow> ('f, 'd, 'w) selector option" where
  "Event_DestroySelector es =
     (if nestLevel es \<noteq> 0 then Some (es\<lparr>destroyPending := True, opsPending := True\<rparr>) else DestroySelector es)"

partial_function (option) purge_loop ::
  "nat option \<Rightarrow> nat option \<Rightarrow> ('f, 'd, 'w) selector \<Rightarrow> ('f, 'd, 'w) selector option" where
  "purge_loop cur prev es =
     (case cur of
        None \<Rightarrow> Some es
      | Some c \<Rightarrow>
          Option.bind (es_heap es c) (\<lambda>h.
            if \<not> has_flag EVENT_FLAG_DELETED h then purge_loop (eh_next h) (Some c) es
            else Option.bind (unlink_after prev (eh_next h) es) (\<lambda>es.
              purge_loop (eh_next h) prev (DestroyHandler c es))))"

declare purge_loop.simps [code]

definition DoPendingChanges :: "('f, 'd, 'w) selector \<Rightarrow> ('f, 'd, 'w) selector option" where
  "DoPendingChanges es =
     (let es = es\<lparr>opsPending := False\<rparr> in
      if destroyPending es then DestroySelector es else purge_loop (es_handlers es) None es)"

section \<open>Waiting\<close>

definition tv_before :: "timeval \<Rightarrow> timeval \<Rightarrow> bool" where
  "tv_before a b \<longleftrightarrow> tv_sec a <s tv_sec b \<or> (tv_sec a = tv_sec b \<and> tv_usec a <s tv_usec b)"

text \<open>The sets for \<open>select\<close>. The \<open>found\<close> variables say whether a set is given to it.\<close>

record select_sets =
  readfds :: "int set"
  writefds :: "int set"
  foundReadEvent :: bool
  foundWriteEvent :: bool
  maxfd :: int
  abs_timeout :: "timeval option"

definition no_sets :: select_sets where
  "no_sets = \<lparr>readfds = {}, writefds = {}, foundReadEvent = False, foundWriteEvent = False, maxfd = - 1, abs_timeout = None\<rparr>"

definition add_handler :: "('f, 'd) event_handler \<Rightarrow> select_sets \<Rightarrow> select_sets" where
  "add_handler h s =
     (if has_flag EVENT_FLAG_DELETED h then s
      else
        let s = (if has_flag EVENT_FLAG_READABLE h
                 then s\<lparr>foundReadEvent := True, readfds := insert (eh_fd h) (readfds s), maxfd := max (maxfd s) (eh_fd h)\<rparr> else s);
            s = (if has_flag EVENT_FLAG_WRITEABLE h
                 then s\<lparr>foundWriteEvent := True, writefds := insert (eh_fd h) (writefds s), maxfd := max (maxfd s) (eh_fd h)\<rparr> else s)
        in if has_flag EVENT_TIMER_BITS h then
             (case abs_timeout s of
                None \<Rightarrow> s\<lparr>abs_timeout := Some (eh_tmout h)\<rparr>
              | Some t \<Rightarrow> if tv_before (eh_tmout h) t then s\<lparr>abs_timeout := Some (eh_tmout h)\<rparr> else s)
           else s)"

partial_function (option) build_sets :: "nat option \<Rightarrow> ('f, 'd, 'w) selector \<Rightarrow> select_sets \<Rightarrow> select_sets option" where
  "build_sets p es s =
     (case p of None \<Rightarrow> Some s
      | Some a \<Rightarrow> Option.bind (es_heap es a) (\<lambda>h. build_sets (eh_next h) es (add_handler h s)))"

declare build_sets.simps [code]

definition rel_timeout :: "timeval \<Rightarrow> timeval \<Rightarrow> timeval" where
  "rel_timeout at now =
     (let t = \<lparr>tv_sec = tv_sec at - tv_sec now, tv_usec = tv_usec at - tv_usec now\<rparr>;
          t = (if tv_usec t <s 0 then \<lparr>tv_sec = tv_sec t - 1, tv_usec = tv_usec t + 1000000\<rparr> else t)
      in if tv_sec t <s 0 \<or> (tv_sec t = 0 \<and> tv_usec t <s 0) then \<lparr>tv_sec = 0, tv_usec = 0\<rparr> else t)"

text \<open>
  What the calls of \<open>select\<close> return: EINTR, another error, or the number of descriptors that are
  ready and the two sets. When they are all interrupted, the function does not return.
\<close>

datatype select_result = Interrupted | Select_error | Selected nat "int set" "int set"

fun do_select :: "select_result list \<Rightarrow> select_result option" where
  "do_select [] = None"
| "do_select (Interrupted # rs) = do_select rs"
| "do_select (r # rs) = Some r"

section \<open>Calling the handlers\<close>

definition past_due :: "('f, 'd) event_handler \<Rightarrow> timeval \<Rightarrow> bool" where
  "past_due h now \<longleftrightarrow> has_flag EVENT_TIMER_BITS h \<and>
     (tv_sec (eh_tmout h) <s tv_sec now \<or> (tv_sec (eh_tmout h) = tv_sec now \<and> tv_usec (eh_tmout h) \<le>s tv_usec now))"

definition ready_flags :: "('f, 'd) event_handler \<Rightarrow> int set \<Rightarrow> int set \<Rightarrow> timeval \<Rightarrow> u32" where
  "ready_flags h R W now =
     (if has_flag EVENT_FLAG_READABLE h \<and> eh_fd h \<in> R then EVENT_FLAG_READABLE else 0) OR
     (if has_flag EVENT_FLAG_WRITEABLE h \<and> eh_fd h \<in> W then EVENT_FLAG_WRITEABLE else 0) OR
     (if past_due h now then EVENT_TIMER_BITS else 0)"

type_synonym ('f, 'd, 'w) outcome = "(('f, 'd, 'w) selector, ('f, 'd, 'w) selector) ctl"

type_synonym ('f, 'd, 'w) callback =
  "'f \<Rightarrow> int \<Rightarrow> u32 \<Rightarrow> 'd \<Rightarrow> ('f, 'd, 'w) selector \<Rightarrow> ('f, 'd, 'w) outcome option"

definition do_callback ::
  "('f, 'd, 'w) callback \<Rightarrow> nat \<Rightarrow> u32 \<Rightarrow> ('f, 'd, 'w) selector \<Rightarrow> ('f, 'd, 'w) outcome option" where
  "do_callback fn a flags es =
     (if flags = 0 then Some (Cont es)
      else Option.bind (es_heap es a) (\<lambda>h.
        fn (eh_fn h) (eh_fd h) flags (eh_data h) (es\<lparr>es_calls := es_calls es @ [(a, flags)]\<rparr>)))"

text \<open>One handler that is not deleted: a timer that is due is deleted before its only call.\<close>

definition call_handler ::
  "('f, 'd, 'w) callback \<Rightarrow> timeval \<Rightarrow> int set \<Rightarrow> int set \<Rightarrow> nat \<Rightarrow> ('f, 'd) event_handler \<Rightarrow>
   ('f, 'd, 'w) selector \<Rightarrow> ('f, 'd, 'w) outcome option" where
  "call_handler fn now R W a h es =
     Option.bind (if past_due h now \<and> has_flag EVENT_FLAG_TIMER h then mark_deleted a es else Some es)
       (do_callback fn a (ready_flags h R W now))"

partial_function (option) dispatch ::
  "('f, 'd, 'w) callback \<Rightarrow> timeval \<Rightarrow> int set \<Rightarrow> int set \<Rightarrow> nat option \<Rightarrow> ('f, 'd, 'w) selector \<Rightarrow>
   ('f, 'd, 'w) outcome option" where
  "dispatch fn now R W p es =
     (case p of
        None \<Rightarrow> Some (Cont es)
      | Some a \<Rightarrow>
          Option.bind (es_heap es a) (\<lambda>h.
            if has_flag EVENT_FLAG_DELETED h then dispatch fn now R W (eh_next h) es
            else Option.bind (call_handler fn now R W a h es) (\<lambda>r.
              case r of
                Exit es \<Rightarrow> Some (Exit es)
              | Cont es \<Rightarrow> Option.bind (es_heap es a) (\<lambda>h. dispatch fn now R W (eh_next h) es))))"

declare dispatch.simps [code]

text \<open>The clock is read again after \<open>select\<close>; without a timer neither reading is used.\<close>

record event_env =
  now_before :: timeval
  now_after :: timeval
  selects :: "int \<Rightarrow> int set option \<Rightarrow> int set option \<Rightarrow> timeval option \<Rightarrow> select_result list"

definition wait_select :: "event_env \<Rightarrow> select_sets \<Rightarrow> select_result option" where
  "wait_select env s =
     (if foundReadEvent s \<or> foundWriteEvent s \<or> abs_timeout s \<noteq> None
      then do_select (selects env (maxfd s + 1)
          (if foundReadEvent s then Some (readfds s) else None) (if foundWriteEvent s then Some (writefds s) else None)
          (map_option (\<lambda>t. rel_timeout t (now_before env)) (abs_timeout s)))
      else Some (Selected 0 {} {}))"

definition end_pass :: "int \<Rightarrow> ('f, 'd, 'w) selector \<Rightarrow> (int \<times> ('f, 'd, 'w) selector, ('f, 'd, 'w) selector) ctl option" where
  "end_pass r es =
     (let es = es\<lparr>nestLevel := nestLevel es - 1\<rparr> in
      if nestLevel es = 0 \<and> opsPending es then map_option (\<lambda>es. Cont (r, es)) (DoPendingChanges es)
      else Some (Cont (r, es)))"

definition Event_HandleEvent ::
  "('f, 'd, 'w) callback \<Rightarrow> event_env \<Rightarrow> ('f, 'd, 'w) selector \<Rightarrow> (int \<times> ('f, 'd, 'w) selector, ('f, 'd, 'w) selector) ctl option" where
  "Event_HandleEvent fn env es =
     Option.bind (build_sets (es_handlers es) es no_sets) (\<lambda>s.
     Option.bind (wait_select env s) (\<lambda>r.
       let es = es\<lparr>nestLevel := nestLevel es + 1\<rparr> in
       case r of
         Selected n R W \<Rightarrow>
           Option.bind (dispatch fn (now_after env) (if foundReadEvent s then R else {}) (if foundWriteEvent s then W else {})
               (es_handlers es) es) (\<lambda>c.
             case c of Exit es \<Rightarrow> Some (Exit es) | Cont es \<Rightarrow> end_pass (int n) es)
       | _ \<Rightarrow> end_pass (- 1) es))"

end
