(* ===== verification/Event_Props.thy ===== *)
theory Event_Props
  imports Event_Select "HOL-Library.Sublist"
begin

text \<open>
  The list of handlers of a selector: what the loops of the event library do to it, and that every
  operation keeps its invariant. \<open>grows\<close> is what a callback may do to the list while it is being
  walked: put handlers in front, and mark handlers as deleted.
\<close>

section \<open>Handlers in the heap\<close>

primrec hseg :: "(nat \<Rightarrow> ('f, 'd) event_handler option) \<Rightarrow> nat option \<Rightarrow> nat list \<Rightarrow> bool" where
  "hseg H p [] \<longleftrightarrow> p = None"
| "hseg H p (x # xs) \<longleftrightarrow> p = Some x \<and> (\<exists>h. H x = Some h \<and> hseg H (eh_next h) xs)"

lemma hseg_lseg: "hseg H p xs \<longleftrightarrow> lseg (\<lambda>a. Option.bind (H a) eh_next) p xs \<and> set xs \<subseteq> dom H"
  by (induction xs arbitrary: p) (auto simp: dom_def)

lemma hseg_cong:
  assumes "\<And>x. x \<in> set xs \<Longrightarrow> map_option eh_next (H' x) = map_option eh_next (H x)"
  shows "hseg H' p xs = hseg H p xs"
  using assms
proof (induction xs arbitrary: p)
  case (Cons x xs)
  have "map_option eh_next (H' x) = map_option eh_next (H x)" using Cons.prems by simp
  moreover have "hseg H' q xs = hseg H q xs" for q using Cons by simp
  ultimately show ?case by (cases "H' x"; cases "H x") auto
qed simp

lemma hseg_upd_notin [simp]: "x \<notin> set xs \<Longrightarrow> hseg (H(x := v)) p xs = hseg H p xs"
  by (rule hseg_cong) auto

lemma hseg_dom: "hseg H p xs \<Longrightarrow> x \<in> set xs \<Longrightarrow> \<exists>h. H x = Some h"
  by (induction xs arbitrary: p) auto

lemma hseg_split:
  "hseg H p (as @ c # bs) \<Longrightarrow> \<exists>h. H c = Some h \<and> hseg H (eh_next h) bs"
  by (induction as arbitrary: p) auto

lemma hseg_snd: "hseg H p (as @ bs) \<Longrightarrow> \<exists>q. hseg H q bs"
  by (induction as arbitrary: p) auto

lemma hseg_unique: "hseg H p xs \<Longrightarrow> hseg H p ys \<Longrightarrow> xs = ys"
  unfolding hseg_lseg using lseg_unique by blast

lemma hseg_unlink:
  assumes "hseg H p (as @ c # bs)" "distinct (as @ c # bs)" "H c = Some h" "as \<noteq> []" "H (last as) = Some l"
  shows "hseg (H(last as \<mapsto> l\<lparr>eh_next := eh_next h\<rparr>)) p (as @ bs)"
proof -
  define H' where "H' = H(last as \<mapsto> l\<lparr>eh_next := eh_next h\<rparr>)"
  have n: "(\<lambda>a. Option.bind (H' a) eh_next) = (\<lambda>a. Option.bind (H a) eh_next)(last as := eh_next h)"
    by (auto simp: H'_def)
  have "lseg (\<lambda>a. Option.bind (H a) eh_next) p (as @ c # bs)" "set (as @ c # bs) \<subseteq> dom H"
    using assms(1) unfolding hseg_lseg by blast+
  then have "lseg ((\<lambda>a. Option.bind (H a) eh_next)(last as := eh_next h)) p (as @ bs)" "set (as @ bs) \<subseteq> dom H'"
    using lseg_split [of "\<lambda>a. Option.bind (H a) eh_next" p as c bs] assms(2-4) by (auto simp: H'_def)
  then show ?thesis unfolding hseg_lseg n [symmetric] H'_def by blast
qed

section \<open>The invariant\<close>

definition deleted :: "('f, 'd, 'w) selector \<Rightarrow> nat \<Rightarrow> bool" where
  "deleted es x \<longleftrightarrow> (\<exists>h. es_heap es x = Some h \<and> has_flag EVENT_FLAG_DELETED h)"

definition hinv :: "('f, 'd, 'w) selector \<Rightarrow> nat list \<Rightarrow> bool" where
  "hinv es xs \<longleftrightarrow> hseg (es_heap es) (es_handlers es) xs \<and> distinct xs \<and> dom (es_heap es) = set xs \<and>
     (\<forall>x \<in> set xs. deleted es x \<longrightarrow> opsPending es) \<and> (destroyPending es \<longrightarrow> opsPending es) \<and> \<not> es_freed es"

lemma hinvD:
  assumes "hinv es xs"
  shows "hseg (es_heap es) (es_handlers es) xs" "distinct xs" "dom (es_heap es) = set xs"
  using assms by (simp_all add: hinv_def)

lemma hinv_unique: "hinv es xs \<Longrightarrow> hinv es ys \<Longrightarrow> xs = ys"
  using hseg_unique by (auto simp: hinv_def)

lemma create_hinv: "hinv (Event_CreateSelector w) []"
  by (simp add: hinv_def Event_CreateSelector_def)

text \<open>What a step inside a callback leaves of a handler.\<close>

definition same_handler :: "('f, 'd) event_handler \<Rightarrow> ('f, 'd) event_handler \<Rightarrow> bool" where
  "same_handler h h' \<longleftrightarrow> eh_fd h' = eh_fd h \<and>
     (eh_flags h' = eh_flags h \<or> eh_flags h' = eh_flags h OR EVENT_FLAG_DELETED)"

definition grows :: "('f, 'd, 'w) selector \<Rightarrow> nat list \<Rightarrow> nat list \<Rightarrow> ('f, 'd, 'w) selector \<Rightarrow> bool" where
  "grows es xs ys es' \<longleftrightarrow> hinv es' (ys @ xs) \<and> nestLevel es' = nestLevel es \<and>
     (\<forall>x \<in> set xs. \<forall>h. es_heap es x = Some h \<longrightarrow> (\<exists>h'. es_heap es' x = Some h' \<and> same_handler h h'))"

lemma same_handler_refl [simp, intro]: "same_handler h h"
  by (simp add: same_handler_def)

lemma same_handler_trans: "same_handler h h' \<Longrightarrow> same_handler h' h'' \<Longrightarrow> same_handler h h''"
  by (auto simp: same_handler_def or.assoc)

lemma same_handler_deleted: "same_handler h h' \<Longrightarrow> has_flag EVENT_FLAG_DELETED h \<Longrightarrow> has_flag EVENT_FLAG_DELETED h'"
  by (auto simp: same_handler_def has_flag_def bit.conj_disj_distrib2)

lemma same_handler_flag:
  assumes "same_handler h h'" "m AND EVENT_FLAG_DELETED = 0"
  shows "has_flag m h' = has_flag m h"
proof -
  have "EVENT_FLAG_DELETED AND m = 0" using assms(2) by (simp add: and.commute)
  then have "(eh_flags h OR EVENT_FLAG_DELETED) AND m = eh_flags h AND m" by (simp add: bit.conj_disj_distrib2)
  then show ?thesis using assms(1) by (auto simp: same_handler_def has_flag_def)
qed

lemma grows_refl [intro]: "hinv es xs \<Longrightarrow> grows es xs [] es"
  by (auto simp: grows_def)

lemma grows_trans:
  assumes "grows es xs ys es1" "grows es1 (ys @ xs) zs es2"
  shows "grows es xs (zs @ ys) es2"
  using assms unfolding grows_def by (fastforce intro: same_handler_trans)

lemma grows_deleted: "grows es xs ys es' \<Longrightarrow> x \<in> set xs \<Longrightarrow> deleted es x \<Longrightarrow> deleted es' x"
  unfolding grows_def deleted_def using same_handler_deleted by blast

section \<open>The operations inside a callback\<close>

lemma push_grows:
  assumes "hinv es xs" "es_heap es a = None" "\<not> has_flag EVENT_FLAG_DELETED h"
  shows "grows es xs [a] (snd (push_handler a h es))"
proof -
  let ?es = "snd (push_handler a h es)"
  have a: "a \<notin> set xs" using assms(1,2) by (auto simp: hinv_def)
  have H: "es_heap ?es = (es_heap es)(a \<mapsto> h\<lparr>eh_next := es_handlers es\<rparr>)"
    by (simp add: push_handler_def set_handler_def)
  have "hseg (es_heap ?es) (es_handlers es) xs = hseg (es_heap es) (es_handlers es) xs"
    by (rule hseg_cong) (use a H in auto)
  moreover have "deleted ?es x \<longleftrightarrow> (x \<noteq> a \<and> deleted es x)" for x
    using assms(3) by (auto simp: deleted_def H has_flag_def)
  ultimately have "hinv ?es (a # xs)"
    using assms(1) a unfolding hinv_def H by (auto simp: push_handler_def set_handler_def)
  then show ?thesis using a H by (auto simp: grows_def) (simp_all add: push_handler_def set_handler_def)
qed

lemma upd_grows:
  assumes "hinv es xs" "a \<in> set xs" "\<And>h. same_handler h (f h)" "\<And>h. eh_next (f h) = eh_next h"
    and "deleted es a \<or> (\<forall>h. eh_flags (f h) = eh_flags h)"
  shows "\<exists>es'. upd_handler a f es = Some es' \<and> grows es xs [] es' \<and> es_calls es' = es_calls es \<and> es_world es' = es_world es"
proof -
  obtain h where h: "es_heap es a = Some h" using hseg_dom [OF hinvD(1) [OF assms(1)] assms(2)] by blast
  let ?es = "set_handler a (f h) es"
  have seg: "hseg (es_heap ?es) (es_handlers es) xs = hseg (es_heap es) (es_handlers es) xs"
    by (rule hseg_cong) (use h assms(4) in \<open>auto simp: set_handler_def\<close>)
  have d: "deleted ?es x \<Longrightarrow> x \<in> set xs \<Longrightarrow> deleted es x" for x
    using assms(5) h by (auto simp: deleted_def set_handler_def has_flag_def split: if_splits)
  have "hinv ?es xs" using assms(1,2) seg d unfolding hinv_def by (auto simp: set_handler_def)
  then have "grows es xs [] ?es" using h assms(3) by (auto simp: grows_def set_handler_def)
  then show ?thesis using h by (auto simp: upd_handler_def set_handler_def)
qed

lemma mark_grows:
  assumes "hinv es xs" "a \<in> set xs"
  shows "\<exists>es'. mark_deleted a es = Some es' \<and> grows es xs [] es' \<and> deleted es' a \<and> es_calls es' = es_calls es \<and> es_world es' = es_world es"
proof -
  obtain h where h: "es_heap es a = Some h" using hseg_dom [OF hinvD(1) [OF assms(1)] assms(2)] by blast
  let ?h = "h\<lparr>eh_flags := eh_flags h OR EVENT_FLAG_DELETED\<rparr>"
  let ?es = "(set_handler a ?h es)\<lparr>opsPending := True\<rparr>"
  have seg: "hseg (es_heap ?es) (es_handlers es) xs = hseg (es_heap es) (es_handlers es) xs"
    by (rule hseg_cong) (use h in \<open>auto simp: set_handler_def\<close>)
  have "hinv ?es xs" using assms seg unfolding hinv_def by (auto simp: set_handler_def)
  moreover have "same_handler h ?h" by (simp add: same_handler_def)
  moreover have "has_flag EVENT_FLAG_DELETED ?h"
    by (simp add: has_flag_def bit.conj_disj_distrib2 EVENT_FLAG_DELETED_def)
  ultimately show ?thesis using h
    by (auto simp: mark_deleted_def upd_handler_def grows_def deleted_def set_handler_def)
qed

lemma del_loop_nested:
  assumes "hseg (es_heap es) p cs" "nestLevel es \<noteq> 0"
  shows "del_loop a p prev es = (if a \<in> set cs then map_option (Pair 0) (mark_deleted a es) else Some (1, es))"
  using assms(1)
proof (induction cs arbitrary: p prev)
  case (Cons c cs)
  then show ?case using assms(2) by (subst del_loop.simps) auto
qed (subst del_loop.simps, simp)

lemma del_grows:
  assumes "hinv es xs" "nestLevel es \<noteq> 0"
  shows "\<exists>r es'. Event_DelHandler a es = Some (r, es') \<and> grows es xs [] es' \<and> (a \<in> set xs \<longrightarrow> r = 0 \<and> deleted es' a) \<and>
    (a \<notin> set xs \<longrightarrow> r = 1 \<and> es' = es) \<and> es_calls es' = es_calls es \<and> es_world es' = es_world es"
proof (cases "a \<in> set xs")
  case True
  then show ?thesis
    using mark_grows [OF assms(1) True] del_loop_nested [OF hinvD(1) [OF assms(1)] assms(2)]
    by (auto simp: Event_DelHandler_def)
next
  case False
  then show ?thesis
    using grows_refl [OF assms(1)] del_loop_nested [OF hinvD(1) [OF assms(1)] assms(2)] by (auto simp: Event_DelHandler_def)
qed

lemma destroy_nested_grows:
  "hinv es xs \<Longrightarrow> nestLevel es \<noteq> 0 \<Longrightarrow> \<exists>es'. Event_DestroySelector es = Some es' \<and> grows es xs [] es' \<and>
    es_calls es' = es_calls es \<and> es_world es' = es_world es"
  by (auto simp: Event_DestroySelector_def grows_def hinv_def deleted_def)

section \<open>The operations outside\<close>

definition same_rest :: "('f, 'd, 'w) selector \<Rightarrow> ('f, 'd, 'w) selector \<Rightarrow> bool" where
  "same_rest es es' \<longleftrightarrow> nestLevel es' = nestLevel es \<and> opsPending es' = opsPending es \<and> destroyPending es' = destroyPending es \<and>
     es_freed es' = es_freed es \<and> es_calls es' = es_calls es \<and> es_world es' = es_world es"

text \<open>The handler at \<open>c\<close> leaves the list: \<open>as\<close> are the nodes before it.\<close>

definition prev_of :: "nat list \<Rightarrow> nat option" where
  "prev_of as = (if as = [] then None else Some (last as))"

lemma unlink_handler:
  assumes "hseg (es_heap es) (es_handlers es) (as @ c # bs)" "distinct (as @ c # bs)" "es_heap es c = Some h"
  shows "\<exists>es'. unlink_after (prev_of as) (eh_next h) es = Some es' \<and>
    hseg (es_heap (DestroyHandler c es')) (es_handlers (DestroyHandler c es')) (as @ bs) \<and>
    same_rest es es' \<and>
    (\<forall>x. map_option (eh_next_update (\<lambda>_. None)) (es_heap es' x) = map_option (eh_next_update (\<lambda>_. None)) (es_heap es x)) \<and>
    (\<forall>x. x \<notin> set as \<longrightarrow> es_heap es' x = es_heap es x)"
proof (cases "as = []")
  case True
  have "hseg (es_heap es) (eh_next h) bs" using assms(1,3) True by simp
  then show ?thesis using True assms(2) by (simp add: unlink_after_def prev_of_def DestroyHandler_def same_rest_def)
next
  case False
  then obtain l where l: "es_heap es (last as) = Some l"
    using hseg_dom [OF assms(1), of "last as"] by auto
  let ?H = "(es_heap es)(last as \<mapsto> l\<lparr>eh_next := eh_next h\<rparr>)"
  have seg: "hseg ?H (es_handlers es) (as @ bs)" by (rule hseg_unlink [OF assms False l])
  have "c \<notin> set (as @ bs)" using assms(2) by auto
  then have "hseg (?H(c := None)) (es_handlers es) (as @ bs)" using seg hseg_upd_notin by blast
  then show ?thesis using False l
    by (simp add: unlink_after_def prev_of_def upd_handler_def set_handler_def DestroyHandler_def same_rest_def)
qed

text \<open>Handlers up to their links.\<close>

abbreviation content :: "('f, 'd, 'w) selector \<Rightarrow> nat \<Rightarrow> ('f, 'd) event_handler option" where
  "content es x \<equiv> map_option (eh_next_update (\<lambda>_. None)) (es_heap es x)"

lemma content_deleted: "content es' x = content es x \<Longrightarrow> deleted es' x = deleted es x"
proof -
  assume "content es' x = content es x"
  then have "map_option (has_flag EVENT_FLAG_DELETED) (content es' x) = map_option (has_flag EVENT_FLAG_DELETED) (content es x)" by simp
  then show ?thesis by (cases "es_heap es' x"; cases "es_heap es x") (auto simp: deleted_def has_flag_def)
qed

text \<open>\<open>DoPendingChanges\<close>: \<open>as\<close> are the handlers that were kept.\<close>

lemma purge_runs:
  assumes "hseg (es_heap es) (es_handlers es) (as @ cs)" "distinct (as @ cs)" "hseg (es_heap es) p cs"
  shows "\<exists>es'. purge_loop p (prev_of as) es = Some es' \<and>
    hseg (es_heap es') (es_handlers es') (as @ filter (\<lambda>x. \<not> deleted es x) cs) \<and>
    same_rest es es' \<and>
    (\<forall>x. content es' x = (if x \<in> set cs \<and> deleted es x then None else content es x))"
  using assms
proof (induction cs arbitrary: as p es)
  case Nil
  then show ?case by (subst purge_loop.simps) (simp add: same_rest_def)
next
  case (Cons c cs)
  obtain h where h: "es_heap es c = Some h" "p = Some c" "hseg (es_heap es) (eh_next h) cs"
    using Cons.prems(3) by auto
  show ?case
  proof (cases "has_flag EVENT_FLAG_DELETED h")
    case False
    then have nd: "\<not> deleted es c" using h(1) by (simp add: deleted_def)
    have "hseg (es_heap es) (es_handlers es) ((as @ [c]) @ cs)" "distinct ((as @ [c]) @ cs)" using Cons.prems(1,2) by simp_all
    then obtain es' where "purge_loop (eh_next h) (prev_of (as @ [c])) es = Some es'"
      "hseg (es_heap es') (es_handlers es') ((as @ [c]) @ filter (\<lambda>x. \<not> deleted es x) cs)"
      "same_rest es es'"
      "\<forall>x. content es' x = (if x \<in> set cs \<and> deleted es x then None else content es x)"
      using Cons.IH h(3) by blast
    moreover have "purge_loop p (prev_of as) es = purge_loop (eh_next h) (prev_of (as @ [c])) es"
      using h False by (subst purge_loop.simps) (simp add: prev_of_def)
    ultimately show ?thesis using nd by (intro exI [of _ es']) auto
  next
    case True
    obtain es1 where es1: "unlink_after (prev_of as) (eh_next h) es = Some es1"
      "hseg (es_heap (DestroyHandler c es1)) (es_handlers (DestroyHandler c es1)) (as @ cs)"
      "same_rest es es1"
      "\<forall>x. content es1 x = content es x" "\<forall>x. x \<notin> set as \<longrightarrow> es_heap es1 x = es_heap es x"
      using unlink_handler [OF Cons.prems(1,2) h(1)] by blast
    define es2 where "es2 = DestroyHandler c es1"
    have c: "c \<notin> set cs" "c \<notin> set as" "distinct (as @ cs)" using Cons.prems(2) by auto
    have con: "content es2 x = (if x = c then None else content es x)" for x
      using es1(4) by (simp add: es2_def DestroyHandler_def)
    have "hseg (es_heap es2) (eh_next h) cs = hseg (es_heap es) (eh_next h) cs"
      by (rule hseg_cong) (use c Cons.prems(2) es1(5) in \<open>auto simp: es2_def DestroyHandler_def\<close>)
    then obtain es' where es': "purge_loop (eh_next h) (prev_of as) es2 = Some es'"
      "hseg (es_heap es') (es_handlers es') (as @ filter (\<lambda>x. \<not> deleted es2 x) cs)"
      "same_rest es2 es'"
      "\<forall>x. content es' x = (if x \<in> set cs \<and> deleted es2 x then None else content es2 x)"
      using Cons.IH [OF es1(2) [folded es2_def] c(3)] h(3) by blast
    have d: "deleted es2 x = deleted es x" if "x \<noteq> c" for x
      by (rule content_deleted) (use con that in simp)
    have f: "filter (\<lambda>x. \<not> deleted es2 x) cs = filter (\<lambda>x. \<not> deleted es x) cs"
      by (rule filter_cong [OF refl]) (metis c(1) d)
    have dc: "deleted es c" using True h(1) by (simp add: deleted_def)
    have "\<forall>x. content es' x = (if x \<in> set (c # cs) \<and> deleted es x then None else content es x)"
      using es'(4) con d dc c(1) by auto
    moreover have "same_rest es es'" using es'(3) es1(3) by (simp add: same_rest_def es2_def DestroyHandler_def)
    moreover have "purge_loop p (prev_of as) es = Some es'"
      using h True es1(1) es'(1) by (subst purge_loop.simps) (simp add: es2_def)
    ultimately show ?thesis using es'(2) dc by (simp add: f)
  qed
qed

lemma destroy_loop_runs:
  assumes "hseg (es_heap es) p cs" "distinct cs"
  shows "destroy_loop p es = Some (es\<lparr>es_heap := (\<lambda>x. if x \<in> set cs then None else es_heap es x)\<rparr>)"
  using assms
proof (induction cs arbitrary: p es)
  case Nil
  then show ?case by (subst destroy_loop.simps) simp
next
  case (Cons c cs)
  obtain h where h: "es_heap es c = Some h" "p = Some c" "hseg (es_heap es) (eh_next h) cs"
    using Cons.prems(1) by auto
  have "hseg (es_heap (DestroyHandler c es)) (eh_next h) cs" using h(3) Cons.prems(2) by (simp add: DestroyHandler_def)
  then have "destroy_loop (eh_next h) (DestroyHandler c es) =
      Some ((DestroyHandler c es)\<lparr>es_heap := (\<lambda>x. if x \<in> set cs then None else es_heap (DestroyHandler c es) x)\<rparr>)"
    using Cons.IH Cons.prems(2) by simp
  moreover have "(\<lambda>x. if x \<in> set cs then None else es_heap (DestroyHandler c es) x) =
      (\<lambda>x. if x \<in> set (c # cs) then None else es_heap es x)"
    by (auto simp: DestroyHandler_def)
  ultimately show ?case using h by (subst destroy_loop.simps) (simp add: DestroyHandler_def)
qed

lemma pending_keeps:
  assumes "hinv es xs" "\<not> destroyPending es"
  shows "\<exists>es'. DoPendingChanges es = Some es' \<and> hinv es' (filter (\<lambda>x. \<not> deleted es x) xs) \<and> \<not> opsPending es' \<and>
    nestLevel es' = nestLevel es \<and> es_calls es' = es_calls es \<and> es_world es' = es_world es \<and>
    (\<forall>x. content es' x = (if x \<in> set xs \<and> deleted es x then None else content es x))"
proof -
  let ?es = "es\<lparr>opsPending := False\<rparr>"
  have d: "deleted ?es x = deleted es x" for x by (simp add: deleted_def)
  have "hseg (es_heap ?es) (es_handlers ?es) ([] @ xs)" "distinct ([] @ xs)" "hseg (es_heap ?es) (es_handlers es) xs"
    using hinvD [OF assms(1)] by simp_all
  then obtain es' where es': "purge_loop (es_handlers es) (prev_of []) ?es = Some es'"
    "hseg (es_heap es') (es_handlers es') ([] @ filter (\<lambda>x. \<not> deleted ?es x) xs)" "same_rest ?es es'"
    "\<forall>x. content es' x = (if x \<in> set xs \<and> deleted ?es x then None else content ?es x)"
    using purge_runs by blast
  have con: "content es' x = (if x \<in> set xs \<and> deleted es x then None else content es x)" for x using es'(4) d by simp
  have dom: "x \<in> dom (es_heap es') \<longleftrightarrow> x \<in> set xs \<and> \<not> deleted es x" for x
    using con [of x] hinvD(3) [OF assms(1)] by (cases "es_heap es' x"; cases "es_heap es x") (auto split: if_splits)
  have "\<not> deleted es' x" for x
  proof (cases "deleted es x")
    case True
    then have "x \<in> set xs" using hinvD(3) [OF assms(1)] by (auto simp: deleted_def)
    then show ?thesis using con [of x] True by (simp add: deleted_def)
  next
    case False
    then show ?thesis using con [of x] content_deleted [of es' x es] by simp
  qed
  then have "hinv es' (filter (\<lambda>x. \<not> deleted es x) xs)"
    using es'(2,3) dom hinvD(2) [OF assms(1)] assms by (auto simp: hinv_def d same_rest_def)
  then show ?thesis using es'(1,3) assms(2) con by (auto simp: DoPendingChanges_def prev_of_def same_rest_def)
qed

lemma pending_destroys:
  assumes "hinv es xs" "destroyPending es"
  shows "DoPendingChanges es = Some (es\<lparr>opsPending := False, es_heap := (\<lambda>_. None), es_freed := True\<rparr>)"
proof -
  let ?es = "es\<lparr>opsPending := False\<rparr>"
  have none: "(\<lambda>x. if x \<in> set xs then None else es_heap ?es x) = (\<lambda>_. None)"
    using hinvD(3) [OF assms(1)] by (auto simp: fun_eq_iff dom_def)
  have "hseg (es_heap ?es) (es_handlers es) xs" using hinvD(1) [OF assms(1)] by simp
  then have "destroy_loop (es_handlers es) ?es = Some (?es\<lparr>es_heap := (\<lambda>_. None)\<rparr>)"
    using destroy_loop_runs hinvD(2) [OF assms(1)] by (simp only: none [symmetric])
  then show ?thesis using assms(2) by (simp add: DoPendingChanges_def DestroySelector_def)
qed

lemma build_runs: "hseg (es_heap es) p xs \<Longrightarrow> build_sets p es s = Some (fold (\<lambda>x. add_handler (the (es_heap es x))) xs s)"
proof (induction xs arbitrary: p s)
  case Nil
  then show ?case by (subst build_sets.simps) simp
next
  case (Cons x xs)
  then show ?case by (subst build_sets.simps) auto
qed

section \<open>Callbacks\<close>

text \<open>
  What a program registered at an address: callback, descriptor, data and flags. \<open>G\<close> is what the
  callbacks rely on, of the registered handlers and of what they share; \<open>T\<close> is a step of what they
  share, and \<open>X\<close> holds of it when the program ends. \<open>rdy\<close> says that a call for a readable descriptor
  will not wait.
\<close>

type_synonym ('f, 'd) registered = "'f \<times> int \<times> 'd \<times> u32"

definition core :: "('f, 'd, 'w) selector \<Rightarrow> nat \<Rightarrow> ('f, 'd) registered option" where
  "core es x = map_option (\<lambda>h. (eh_fn h, eh_fd h, eh_data h, eh_flags h AND NOT EVENT_FLAG_DELETED)) (es_heap es x)"

definition good :: "((nat \<Rightarrow> ('f, 'd) registered option) \<Rightarrow> 'w \<Rightarrow> bool) \<Rightarrow> ('f, 'd, 'w) selector \<Rightarrow> nat list \<Rightarrow> bool" where
  "good G es xs \<longleftrightarrow> hinv es xs \<and> G (core es) (es_world es)"

definition rdy_at :: "(('f, 'd) registered \<Rightarrow> 'w \<Rightarrow> bool) \<Rightarrow> ('f, 'd, 'w) selector \<Rightarrow> nat \<Rightarrow> bool" where
  "rdy_at rdy es x \<longleftrightarrow> (\<forall>c. core es x = Some c \<longrightarrow> rdy c (es_world es))"

lemma core_update [simp]:
  "core (es\<lparr>es_calls := c\<rparr>) = core es" "core (es\<lparr>nestLevel := n\<rparr>) = core es" "core (es\<lparr>es_world := w\<rparr>) = core es"
  "core (es\<lparr>opsPending := b\<rparr>) = core es"
  by (simp_all add: core_def fun_eq_iff)

lemma mark_core: "mark_deleted a es = Some es' \<Longrightarrow> core es' = core es \<and> es_calls es' = es_calls es"
proof -
  have "(x OR EVENT_FLAG_DELETED) AND NOT EVENT_FLAG_DELETED = x AND NOT EVENT_FLAG_DELETED" for x
    by (simp add: bit.conj_disj_distrib2)
  moreover assume "mark_deleted a es = Some es'"
  ultimately show ?thesis by (auto simp: mark_deleted_def upd_handler_def set_handler_def core_def fun_eq_iff)
qed

lemma core_content:
  "core e x = map_option (\<lambda>h. (eh_fn h, eh_fd h, eh_data h, eh_flags h AND NOT EVENT_FLAG_DELETED)) (content e x)"
  by (cases "es_heap e x") (simp_all add: core_def)

lemma content_core: "content es' x = content es x \<Longrightarrow> core es' x = core es x"
  by (simp only: core_content)

lemma rdy_at_frame: "rdy_at rdy es x \<Longrightarrow> core es' = core es \<Longrightarrow> es_world es' = es_world es \<Longrightarrow> rdy_at rdy es' x"
  by (simp add: rdy_at_def)

text \<open>A handler that only waits for reading is called only when its descriptor is readable.\<close>

lemma only_readable:
  assumes "(eh_flags h AND NOT EVENT_FLAG_DELETED) AND NOT EVENT_FLAG_READABLE = 0" "ready_flags h R W now \<noteq> 0"
  shows "has_flag EVENT_FLAG_READABLE h \<and> eh_fd h \<in> R"
proof -
  have no: "\<not> has_flag m h" if "NOT EVENT_FLAG_DELETED AND NOT EVENT_FLAG_READABLE AND m = m" for m
  proof -
    have "eh_flags h AND m = ((eh_flags h AND NOT EVENT_FLAG_DELETED) AND NOT EVENT_FLAG_READABLE) AND m"
      using that by (simp only: and.assoc)
    then show ?thesis using assms(1) by (simp add: has_flag_def)
  qed
  have "\<not> has_flag EVENT_FLAG_WRITEABLE h" "\<not> has_flag EVENT_TIMER_BITS h"
    by (rule no; simp add: EVENT_FLAG_DELETED_def EVENT_FLAG_READABLE_def EVENT_FLAG_WRITEABLE_def EVENT_TIMER_BITS_def
        EVENT_FLAG_TIMER_def EVENT_FLAG_TIMEOUT_def)+
  then show ?thesis using assms(2) by (auto simp: ready_flags_def past_due_def split: if_splits)
qed

text \<open>How a callback, or a walk over the handlers, may end.\<close>

definition ends :: "((nat \<Rightarrow> ('f, 'd) registered option) \<Rightarrow> 'w \<Rightarrow> bool) \<Rightarrow> ('w \<Rightarrow> 'w \<Rightarrow> bool) \<Rightarrow> ('w \<Rightarrow> bool) \<Rightarrow> ('f, 'd, 'w) selector \<Rightarrow> nat list \<Rightarrow>
    ('f, 'd, 'w) outcome \<Rightarrow> bool" where
  "ends G T X es xs r \<longleftrightarrow>
     (case r of
        Cont es' \<Rightarrow> (\<exists>ys. grows es xs ys es' \<and> good G es' (ys @ xs)) \<and> T\<^sup>*\<^sup>* (es_world es) (es_world es')
      | Exit es' \<Rightarrow> T\<^sup>*\<^sup>* (es_world es) (es_world es') \<and> X (es_world es'))"

lemma ends_refl: "good G es xs \<Longrightarrow> ends G T X es xs (Cont es)"
  by (auto simp: ends_def good_def intro: exI [of _ "[]"])

lemma ends_trans:
  assumes "grows es xs ys es1" "T\<^sup>*\<^sup>* (es_world es) (es_world es1)" "ends G T X es1 (ys @ xs) r"
  shows "ends G T X es xs r"
proof (cases r)
  case (Cont es')
  then obtain zs where "grows es1 (ys @ xs) zs es'" "good G es' (zs @ ys @ xs)" "T\<^sup>*\<^sup>* (es_world es1) (es_world es')"
    using assms(3) by (auto simp: ends_def)
  then show ?thesis using Cont grows_trans [OF assms(1)] assms(2)
    by (fastforce simp: ends_def intro: rtranclp_trans exI [of _ "zs @ ys"])
next
  case (Exit es')
  then show ?thesis using assms(2,3) by (fastforce simp: ends_def intro: rtranclp_trans)
qed

locale callbacks =
  fixes fn :: "('f, 'd, 'w) callback" and G :: "(nat \<Rightarrow> ('f, 'd) registered option) \<Rightarrow> 'w \<Rightarrow> bool" and T :: "'w \<Rightarrow> 'w \<Rightarrow> bool"
    and X :: "'w \<Rightarrow> bool" and rdy :: "('f, 'd) registered \<Rightarrow> 'w \<Rightarrow> bool"
  assumes runs: "good G es xs \<Longrightarrow> nestLevel es \<noteq> 0 \<Longrightarrow> core es x = Some (f, fd, d, k) \<Longrightarrow> flags \<noteq> 0 \<Longrightarrow>
      k AND NOT EVENT_FLAG_READABLE \<noteq> 0 \<or> rdy_at rdy es x \<Longrightarrow>
    \<exists>r. fn f fd flags d es = Some r \<and> ends G T X es xs r \<and>
      (\<forall>es' y. r = Cont es' \<longrightarrow> y \<in> set xs \<longrightarrow> y \<noteq> x \<longrightarrow> rdy_at rdy es y \<longrightarrow> rdy_at rdy es' y)"
    and fewer: "G m w \<Longrightarrow> m' \<subseteq>\<^sub>m m \<Longrightarrow> G m' w"
begin

text \<open>The handlers among \<open>xs\<close> that are readable can be called.\<close>

definition armed :: "int set \<Rightarrow> ('f, 'd, 'w) selector \<Rightarrow> nat list \<Rightarrow> bool" where
  "armed R es xs \<longleftrightarrow> (\<forall>x \<in> set xs. \<forall>h. es_heap es x = Some h \<longrightarrow> has_flag EVENT_FLAG_READABLE h \<longrightarrow> eh_fd h \<in> R \<longrightarrow> rdy_at rdy es x)"

lemma armedD: "armed R es xs \<Longrightarrow> x \<in> set xs \<Longrightarrow> es_heap es x = Some h \<Longrightarrow> has_flag EVENT_FLAG_READABLE h \<Longrightarrow> eh_fd h \<in> R \<Longrightarrow> rdy_at rdy es x"
  by (simp add: armed_def)

lemma armed_step:
  assumes arm: "armed R es xs" and g: "grows es zs ys es1" "set xs \<subseteq> set zs"
    and rd: "\<And>y. y \<in> set xs \<Longrightarrow> rdy_at rdy es y \<Longrightarrow> rdy_at rdy es1 y" and dom: "\<And>y. y \<in> set xs \<Longrightarrow> es_heap es y \<noteq> None"
  shows "armed R es1 xs"
proof -
  have "rdy_at rdy es1 y" if y: "y \<in> set xs" "es_heap es1 y = Some h1" "has_flag EVENT_FLAG_READABLE h1" "eh_fd h1 \<in> R" for y h1
  proof -
    obtain h where h: "es_heap es y = Some h" using dom [OF y(1)] by blast
    then have same: "same_handler h h1" using g y(1,2) unfolding grows_def by fastforce
    have "has_flag EVENT_FLAG_READABLE h"
      using same_handler_flag [OF same, of EVENT_FLAG_READABLE] y(3) by (simp add: EVENT_FLAG_READABLE_def EVENT_FLAG_DELETED_def)
    then show ?thesis using armedD [OF arm y(1) h] rd [OF y(1)] same y(4) by (simp add: same_handler_def)
  qed
  then show ?thesis by (simp add: armed_def)
qed

lemma callback_runs:
  assumes g: "good G es xs" and n: "nestLevel es \<noteq> 0" and h: "a \<in> set xs" "es_heap es a = Some h"
    and ready: "f = 0 \<or> (eh_flags h AND NOT EVENT_FLAG_DELETED) AND NOT EVENT_FLAG_READABLE \<noteq> 0 \<or> rdy_at rdy es a"
  shows "\<exists>r. do_callback fn a f es = Some r \<and> ends G T X es xs r \<and>
    (\<forall>es' y. r = Cont es' \<longrightarrow> y \<in> set xs \<longrightarrow> y \<noteq> a \<longrightarrow> rdy_at rdy es y \<longrightarrow> rdy_at rdy es' y)"
proof (cases "f = 0")
  case True
  then show ?thesis using ends_refl [OF g] by (simp add: do_callback_def)
next
  case False
  let ?es = "es\<lparr>es_calls := es_calls es @ [(a, f)]\<rparr>"
  have "good G ?es xs" using g by (simp add: good_def hinv_def deleted_def)
  moreover have "core ?es a = Some (eh_fn h, eh_fd h, eh_data h, eh_flags h AND NOT EVENT_FLAG_DELETED)" by (simp add: core_def h(2))
  moreover have rd: "rdy_at rdy ?es y = rdy_at rdy es y" for y by (simp add: rdy_at_def)
  ultimately obtain r where r: "fn (eh_fn h) (eh_fd h) f (eh_data h) ?es = Some r" "ends G T X ?es xs r"
      "\<And>es' y. r = Cont es' \<Longrightarrow> y \<in> set xs \<Longrightarrow> y \<noteq> a \<Longrightarrow> rdy_at rdy es y \<Longrightarrow> rdy_at rdy es' y"
    using runs [of ?es xs a "eh_fn h" "eh_fd h" "eh_data h" _ f] False n ready by auto
  moreover have "ends G T X es xs r" using r(2) by (simp add: ends_def grows_def split: ctl.splits)
  ultimately show ?thesis using False h(2) by (auto simp: do_callback_def)
qed

text \<open>A timer that is due is deleted before its call.\<close>

lemma mark_ready:
  assumes g: "good G es xs" "nestLevel es \<noteq> 0" "a \<in> set xs" "es_heap es a = Some h"
    and ready: "has_flag EVENT_FLAG_READABLE h \<Longrightarrow> eh_fd h \<in> R \<Longrightarrow> rdy_at rdy es a"
  shows "\<exists>es1 h1. mark_deleted a es = Some es1 \<and> grows es xs [] es1 \<and> deleted es1 a \<and> es_world es1 = es_world es \<and> es_calls es1 = es_calls es \<and>
    good G es1 xs \<and> nestLevel es1 \<noteq> 0 \<and> es_heap es1 a = Some h1 \<and> (\<forall>y. rdy_at rdy es1 y = rdy_at rdy es y) \<and>
    (ready_flags h R Wr now = 0 \<or> (eh_flags h1 AND NOT EVENT_FLAG_DELETED) AND NOT EVENT_FLAG_READABLE \<noteq> 0 \<or> rdy_at rdy es1 a)"
proof -
  obtain es1 where es1: "mark_deleted a es = Some es1" "grows es xs [] es1" "deleted es1 a" "es_world es1 = es_world es" "es_calls es1 = es_calls es"
    using mark_grows [of es xs a] g(1,3) by (auto simp: good_def)
  have c: "core es1 = core es" using mark_core [OF es1(1)] by simp
  have g1: "good G es1 xs" "nestLevel es1 \<noteq> 0" using es1 g(1,2) c by (simp_all add: good_def grows_def)
  obtain h1 where h1: "es_heap es1 a = Some h1" "eh_flags h1 = eh_flags h OR EVENT_FLAG_DELETED"
    using es1(1) g(4) by (auto simp: mark_deleted_def upd_handler_def set_handler_def)
  have "(eh_flags h OR EVENT_FLAG_DELETED) AND NOT EVENT_FLAG_DELETED = eh_flags h AND NOT EVENT_FLAG_DELETED"
    by (simp add: bit.conj_disj_distrib2)
  then have k: "(eh_flags h1 AND NOT EVENT_FLAG_DELETED) AND NOT EVENT_FLAG_READABLE = (eh_flags h AND NOT EVENT_FLAG_DELETED) AND NOT EVENT_FLAG_READABLE"
    unfolding h1(2) by simp
  have rd: "rdy_at rdy es1 y = rdy_at rdy es y" for y using c es1(4) by (simp add: rdy_at_def)
  have "ready_flags h R Wr now = 0 \<or> (eh_flags h1 AND NOT EVENT_FLAG_DELETED) AND NOT EVENT_FLAG_READABLE \<noteq> 0 \<or> rdy_at rdy es1 a"
    unfolding k rd using only_readable [of h R Wr now] ready by blast
  then show ?thesis using es1 g1 h1(1) rd by blast
qed

lemma call_runs:
  assumes g: "good G es xs" "nestLevel es \<noteq> 0" "a \<in> set xs" "es_heap es a = Some h"
    and ready: "has_flag EVENT_FLAG_READABLE h \<Longrightarrow> eh_fd h \<in> R \<Longrightarrow> rdy_at rdy es a"
  shows "\<exists>r. call_handler fn now R Wr a h es = Some r \<and> ends G T X es xs r \<and>
    (\<forall>es' y. r = Cont es' \<longrightarrow> y \<in> set xs \<longrightarrow> y \<noteq> a \<longrightarrow> rdy_at rdy es y \<longrightarrow> rdy_at rdy es' y)"
proof (cases "past_due h now \<and> has_flag EVENT_FLAG_TIMER h")
  case True
  obtain es1 h1 where es1: "mark_deleted a es = Some es1" "grows es xs [] es1" "es_world es1 = es_world es"
    and g1: "good G es1 xs" "nestLevel es1 \<noteq> 0" and h1: "es_heap es1 a = Some h1" and rd: "\<And>y. rdy_at rdy es1 y = rdy_at rdy es y"
    and "ready_flags h R Wr now = 0 \<or> (eh_flags h1 AND NOT EVENT_FLAG_DELETED) AND NOT EVENT_FLAG_READABLE \<noteq> 0 \<or> rdy_at rdy es1 a"
    using mark_ready [OF g ready, of R Wr now] by blast
  then obtain r where r: "do_callback fn a (ready_flags h R Wr now) es1 = Some r" "ends G T X es1 xs r"
    "\<forall>es' y. r = Cont es' \<longrightarrow> y \<in> set xs \<longrightarrow> y \<noteq> a \<longrightarrow> rdy_at rdy es1 y \<longrightarrow> rdy_at rdy es' y"
    using callback_runs [OF g1 g(3) h1] by blast
  have "ends G T X es xs r" using ends_trans [OF es1(2)] r(2) es1(3) by simp
  then show ?thesis using True es1(1) r(1,3) rd by (auto simp: call_handler_def)
next
  case False
  have "ready_flags h R Wr now = 0 \<or> (eh_flags h AND NOT EVENT_FLAG_DELETED) AND NOT EVENT_FLAG_READABLE \<noteq> 0 \<or> rdy_at rdy es a"
    using only_readable [of h R Wr now] ready by blast
  from callback_runs [OF g this] show ?thesis
    using False unfolding call_handler_def by (simp only: if_not_P if_False bind.simps)
qed

lemma dispatch_runs:
  assumes "good G es (zs @ xs)" "nestLevel es \<noteq> 0" "hseg (es_heap es) p xs" "armed R es xs"
  shows "\<exists>r. dispatch fn now R Wr p es = Some r \<and> ends G T X es (zs @ xs) r"
  using assms
proof (induction xs arbitrary: p es zs)
  case Nil
  then show ?case by (subst dispatch.simps) (simp add: ends_refl)
next
  case (Cons x xs)
  obtain h where h: "p = Some x" "es_heap es x = Some h" "hseg (es_heap es) (eh_next h) xs" using Cons.prems(3) by auto
  have arm: "armed R es xs" using Cons.prems(4) by (simp add: armed_def)
  show ?case
  proof (cases "has_flag EVENT_FLAG_DELETED h")
    case True
    then show ?thesis using Cons.IH [of es "zs @ [x]" "eh_next h"] Cons.prems(1,2) h arm by (subst dispatch.simps) simp
  next
    case False
    have m: "x \<in> set (zs @ x # xs)" by simp
    have "has_flag EVENT_FLAG_READABLE h \<Longrightarrow> eh_fd h \<in> R \<Longrightarrow> rdy_at rdy es x" using armedD [OF Cons.prems(4) _ h(2)] by simp
    from call_runs [OF Cons.prems(1,2) m h(2) this]
    have "\<exists>r. call_handler fn now R Wr x h es = Some r \<and> ends G T X es (zs @ x # xs) r \<and>
        (\<forall>es' y. r = Cont es' \<longrightarrow> y \<in> set (zs @ x # xs) \<longrightarrow> y \<noteq> x \<longrightarrow> rdy_at rdy es y \<longrightarrow> rdy_at rdy es' y)"
      by blast
    then
    obtain r where r: "call_handler fn now R Wr x h es = Some r" "ends G T X es (zs @ x # xs) r"
      "\<forall>es' y. r = Cont es' \<longrightarrow> y \<in> set (zs @ x # xs) \<longrightarrow> y \<noteq> x \<longrightarrow> rdy_at rdy es y \<longrightarrow> rdy_at rdy es' y" by auto
    show ?thesis
    proof (cases r)
      case (Cont es1)
      then obtain ys where ys: "grows es (zs @ x # xs) ys es1" "good G es1 (ys @ zs @ x # xs)" "T\<^sup>*\<^sup>* (es_world es) (es_world es1)"
        using r(2) by (auto simp: ends_def)
      have n: "nestLevel es1 \<noteq> 0" using ys(1) Cons.prems(2) by (simp add: grows_def)
      have arm1: "armed R es1 xs" by (rule armed_step [OF arm ys(1)]) (use r(3) Cont Cons.prems(1) in \<open>auto simp: good_def hinv_def\<close>)
      have "hseg (es_heap es1) (es_handlers es1) ((ys @ zs) @ x # xs)" using ys(2) by (auto simp: good_def dest: hinvD(1))
      then obtain h1 where h1: "es_heap es1 x = Some h1" "hseg (es_heap es1) (eh_next h1) xs" using hseg_split by blast
      obtain r' where "dispatch fn now R Wr (eh_next h1) es1 = Some r'" "ends G T X es1 (ys @ zs @ x # xs) r'"
        using Cons.IH [of es1 "ys @ zs @ [x]" "eh_next h1"] ys(2) n h1(2) arm1 by auto
      moreover from this have "ends G T X es (zs @ x # xs) r'" using ends_trans [OF ys(1,3)] by simp
      moreover have "dispatch fn now R Wr p es = dispatch fn now R Wr (eh_next h1) es1"
        using h False r(1) Cont h1(1) by (subst dispatch.simps) simp
      ultimately show ?thesis by simp
    next
      case (Exit es1)
      then show ?thesis using h False r by (subst dispatch.simps) (simp add: ends_def)
    qed
  qed
qed

text \<open>A pass that ends, called from outside or from a callback.\<close>

lemma ends_plain:
  assumes "grows es xs ys es'" "good G es' (ys @ xs)" "T\<^sup>*\<^sup>* (es_world es) (es_world es')" "nestLevel es = 1"
  shows "\<exists>es''. end_pass n es' = Some (Cont (n, es'')) \<and> nestLevel es'' = 0 \<and> T\<^sup>*\<^sup>* (es_world es) (es_world es'') \<and>
    es_calls es'' = es_calls es' \<and>
    (if destroyPending es' then es_freed es'' \<and> es_heap es'' = (\<lambda>_. None)
     else good G es'' (filter (\<lambda>x. \<not> deleted es' x) (ys @ xs)) \<and> \<not> opsPending es'')"
proof -
  let ?es = "es'\<lparr>nestLevel := 0\<rparr>"
  have n: "nestLevel es' = 1" using assms(1,4) by (simp add: grows_def)
  have g: "hinv ?es (ys @ xs)" using assms(2) by (simp add: good_def hinv_def deleted_def)
  have d: "deleted ?es x = deleted es' x" for x by (simp add: deleted_def)
  show ?thesis
  proof (cases "destroyPending es'")
    case True
    then have "DoPendingChanges ?es = Some (?es\<lparr>opsPending := False, es_heap := (\<lambda>_. None), es_freed := True\<rparr>)"
      by (intro pending_destroys [OF g]) simp
    moreover have "opsPending es'" using g True by (simp add: hinv_def)
    ultimately show ?thesis using n True assms(3) by (simp add: end_pass_def)
  next
    case False
    then have nd: "\<not> destroyPending ?es" by simp
    obtain es'' where D: "DoPendingChanges ?es = Some es''" "hinv es'' (filter (\<lambda>x. \<not> deleted ?es x) (ys @ xs))" "\<not> opsPending es''"
      "nestLevel es'' = nestLevel ?es" "es_calls es'' = es_calls ?es" "es_world es'' = es_world ?es"
      "\<forall>x. content es'' x = (if x \<in> set (ys @ xs) \<and> deleted ?es x then None else content ?es x)"
      using pending_keeps [OF g nd] by blast
    show ?thesis
    proof (cases "opsPending es'")
      case True
      have c: "core ?es = core es'" by simp
      have "core es'' x = None \<or> core es'' x = core es' x" for x
      proof (cases "x \<in> set (ys @ xs) \<and> deleted ?es x")
        case True
        then have "content es'' x = None" using D(7) [rule_format, of x] by (simp only: if_True simp_thms)
        then show ?thesis by (simp add: core_def)
      next
        case False
        then have "content es'' x = content ?es x" using D(7) [rule_format, of x] by (simp only: if_False)
        then show ?thesis using content_core c by metis
      qed
      then have "core es'' \<subseteq>\<^sub>m core es'" by (auto simp: map_le_def) (metis option.distinct(1))
      then have "good G es'' (filter (\<lambda>x. \<not> deleted es' x) (ys @ xs))"
        using D(2,6) assms(2) fewer by (auto simp: good_def d)
      then show ?thesis using n True False D(1,3-6) assms(3) by (simp add: end_pass_def)
    next
      case no: False
      then have "filter (\<lambda>x. \<not> deleted es' x) (ys @ xs) = ys @ xs"
        using g d by (auto simp: hinv_def filter_id_conv)
      moreover have "good G ?es (ys @ xs)" using assms(2) g by (simp add: good_def)
      ultimately show ?thesis using n no False assms(3) by (simp add: end_pass_def)
    qed
  qed
qed

lemma pass_start:
  assumes "good G es xs"
  shows "good G (es\<lparr>nestLevel := n\<rparr>) xs" "hseg (es_heap es) (es_handlers es) xs"
  using assms by (simp_all add: good_def hinv_def deleted_def)

lemma armed_less: "armed R es xs \<Longrightarrow> armed (if b then R else {}) (es\<lparr>nestLevel := n\<rparr>) xs"
  by (simp add: armed_def rdy_at_def)

lemma HandleEvent_selected:
  assumes g: "good G es xs" and n: "nestLevel es = 0"
    and s: "build_sets (es_handlers es) es no_sets = Some s" "wait_select env s = Some (Selected k R Wr)" and a: "armed R es xs"
  shows "(\<exists>r es'. Event_HandleEvent fn env es = Some (Cont (r, es'))) \<or>
    (\<exists>es'. Event_HandleEvent fn env es = Some (Exit es') \<and> X (es_world es'))"
proof -
  let ?es = "es\<lparr>nestLevel := 1\<rparr>"
  have g1: "good G ?es ([] @ xs)" using pass_start(1) [OF g] by simp
  have h1: "hseg (es_heap ?es) (es_handlers es) xs" using pass_start(2) [OF g] by simp
  let ?R = "if foundReadEvent s then R else {}"
  let ?W = "if foundWriteEvent s then Wr else {}"
  obtain c where c: "dispatch fn (now_after env) ?R ?W (es_handlers es) ?es = Some c" "ends G T X ?es ([] @ xs) c"
    using dispatch_runs [OF g1 _ h1 armed_less [OF a]] by fastforce
  show ?thesis
  proof (cases c)
    case (Cont es1)
    then obtain ys where ys: "grows ?es xs ys es1" "good G es1 (ys @ xs)" "T\<^sup>*\<^sup>* (es_world ?es) (es_world es1)"
      using c(2) by (auto simp: ends_def)
    then show ?thesis using c(1) Cont ends_plain [OF ys, of "int k"] n by (auto simp: Event_HandleEvent_def s)
  qed (use c n in \<open>simp add: Event_HandleEvent_def s ends_def\<close>)
qed

lemma HandleEvent_runs:
  assumes g: "good G es xs" and n: "nestLevel es = 0" and s: "\<And>s. \<exists>r. wait_select env s = Some r"
    and a: "\<And>s k R Wr. wait_select env s = Some (Selected k R Wr) \<Longrightarrow> armed R es xs"
  shows "\<exists>c. Event_HandleEvent fn env es = Some c \<and>
    (\<forall>r es'. c = Cont (r, es') \<longrightarrow> nestLevel es' = 0 \<and> T\<^sup>*\<^sup>* (es_world es) (es_world es') \<and>
       (es_freed es' \<and> es_heap es' = (\<lambda>_. None) \<or> (\<exists>ys. good G es' ys \<and> \<not> opsPending es'))) \<and>
    (\<forall>es'. c = Exit es' \<longrightarrow> T\<^sup>*\<^sup>* (es_world es) (es_world es') \<and> X (es_world es'))"
proof -
  obtain ss where ss: "build_sets (es_handlers es) es no_sets = Some ss" using build_runs [OF pass_start(2) [OF g]] by blast
  obtain sr where sr: "wait_select env ss = Some sr" using s by blast
  let ?es = "es\<lparr>nestLevel := 1\<rparr>"
  have g1: "good G ?es ([] @ xs)" using pass_start(1) [OF g] by simp
  have h1: "hseg (es_heap ?es) (es_handlers es) xs" using pass_start(2) [OF g] by simp
  have fin: "\<exists>c. end_pass k es' = Some c \<and>
    (\<forall>r es'. c = Cont (r, es') \<longrightarrow> nestLevel es' = 0 \<and> T\<^sup>*\<^sup>* (es_world es) (es_world es') \<and>
       (es_freed es' \<and> es_heap es' = (\<lambda>_. None) \<or> (\<exists>ys. good G es' ys \<and> \<not> opsPending es'))) \<and>
    (\<forall>es'. c = Exit es' \<longrightarrow> T\<^sup>*\<^sup>* (es_world es) (es_world es') \<and> X (es_world es'))"
    if e: "ends G T X ?es xs (Cont es')" for k es'
  proof -
    obtain ys where "grows ?es xs ys es'" "good G es' (ys @ xs)" "T\<^sup>*\<^sup>* (es_world ?es) (es_world es')"
      using e by (auto simp: ends_def)
    from ends_plain [OF this, of k] show ?thesis by (auto split: if_splits)
  qed
  have fail: "ends G T X ?es xs (Cont ?es)" using ends_refl g1 by simp
  show ?thesis
  proof (cases sr)
    case (Selected k R Wr)
    let ?R = "if foundReadEvent ss then R else {}"
    let ?W = "if foundWriteEvent ss then Wr else {}"
    obtain c where c: "dispatch fn (now_after env) ?R ?W (es_handlers es) ?es = Some c" "ends G T X ?es xs c"
      using dispatch_runs [OF g1 _ h1 armed_less [OF a [OF sr [unfolded Selected]]]] by fastforce
    show ?thesis
    proof (cases c)
      case (Cont es')
      then show ?thesis using fin [of es' "int k"] c n by (simp add: Event_HandleEvent_def ss sr Selected)
    next
      case (Exit es')
      then show ?thesis using c n by (simp add: Event_HandleEvent_def ss sr Selected ends_def)
    qed
  qed (use fin [OF fail, of "- 1"] n in \<open>simp_all add: Event_HandleEvent_def ss sr\<close>)
qed

end

section \<open>Which handlers are called\<close>

text \<open>The part of the flags that \<open>select\<close> decides.\<close>

definition io_ready :: "('f, 'd) event_handler \<Rightarrow> int set \<Rightarrow> int set \<Rightarrow> u32" where
  "io_ready h R W =
     (if has_flag EVENT_FLAG_READABLE h \<and> eh_fd h \<in> R then EVENT_FLAG_READABLE else 0) OR
     (if has_flag EVENT_FLAG_WRITEABLE h \<and> eh_fd h \<in> W then EVENT_FLAG_WRITEABLE else 0)"

definition IO_BITS :: u32 where "IO_BITS = EVENT_FLAG_READABLE OR EVENT_FLAG_WRITEABLE"

lemmas flag_defs = EVENT_FLAG_READABLE_def EVENT_FLAG_WRITEABLE_def EVENT_FLAG_TIMER_def EVENT_FLAG_TIMEOUT_def
  EVENT_TIMER_BITS_def EVENT_FLAG_DELETED_def

lemma ready_io: "ready_flags h R W now AND IO_BITS = io_ready h R W"
  by (simp add: ready_flags_def io_ready_def IO_BITS_def flag_defs)

lemma ready_timer: "ready_flags h R W now AND EVENT_TIMER_BITS \<noteq> 0 \<longleftrightarrow> past_due h now"
  by (simp add: ready_flags_def flag_defs)

lemma same_io: "same_handler h h' \<Longrightarrow> io_ready h' R W = io_ready h R W"
proof -
  assume s: "same_handler h h'"
  have "has_flag EVENT_FLAG_READABLE h' = has_flag EVENT_FLAG_READABLE h" "has_flag EVENT_FLAG_WRITEABLE h' = has_flag EVENT_FLAG_WRITEABLE h"
    by (rule same_handler_flag [OF s], simp add: flag_defs)+
  then show ?thesis using s by (simp add: io_ready_def same_handler_def)
qed

lemma same_timer: "same_handler h h' \<Longrightarrow> has_flag EVENT_FLAG_TIMER h' = has_flag EVENT_FLAG_TIMER h"
  by (rule same_handler_flag) (simp_all add: flag_defs)

text \<open>
  The calls \<open>cs\<close> of a walk from \<open>es\<close> to \<open>es'\<close> over the handlers \<open>xs\<close>: in the order of the list and at
  most one for a handler; only for handlers that are not deleted, with the flags that \<open>select\<close> gave;
  for every handler that is ready unless it has been deleted meanwhile. A timer that was called is deleted.
  When no callback changes a deadline, \<open>D\<close> is the time, and the calls and their flags are exact for
  timers too.
\<close>

definition call_ok :: "('f, 'd) event_handler \<Rightarrow> int set \<Rightarrow> int set \<Rightarrow> u32 \<Rightarrow> bool" where
  "call_ok h R W f \<longleftrightarrow> \<not> has_flag EVENT_FLAG_DELETED h \<and> f \<noteq> 0 \<and> f AND IO_BITS = io_ready h R W"

definition walked :: "timeval option \<Rightarrow> ('f, 'd, 'w) selector \<Rightarrow> nat list \<Rightarrow> int set \<Rightarrow> int set \<Rightarrow> (nat \<times> u32) list \<Rightarrow> ('f, 'd, 'w) selector \<Rightarrow> bool" where
  "walked D es xs R W cs es' \<longleftrightarrow> subseq (map fst cs) xs \<and>
     (\<forall>x f h. (x, f) \<in> set cs \<longrightarrow> es_heap es x = Some h \<longrightarrow> call_ok h R W f \<and>
        (has_flag EVENT_FLAG_TIMER h \<and> f AND EVENT_TIMER_BITS \<noteq> 0 \<longrightarrow> deleted es' x)) \<and>
     (\<forall>x h. x \<in> set xs \<longrightarrow> es_heap es x = Some h \<longrightarrow> \<not> has_flag EVENT_FLAG_DELETED h \<longrightarrow> io_ready h R W \<noteq> 0 \<longrightarrow>
        x \<in> fst ` set cs \<or> deleted es' x) \<and>
     (\<forall>now x f h. D = Some now \<longrightarrow> (x, f) \<in> set cs \<longrightarrow> es_heap es x = Some h \<longrightarrow> f = ready_flags h R W now) \<and>
     (\<forall>now x h. D = Some now \<longrightarrow> x \<in> set xs \<longrightarrow> es_heap es x = Some h \<longrightarrow> \<not> has_flag EVENT_FLAG_DELETED h \<longrightarrow> past_due h now \<longrightarrow>
        x \<in> fst ` set cs \<or> deleted es' x)"

lemma walkedI:
  assumes "subseq (map fst cs) xs"
    and "\<And>x f h. (x, f) \<in> set cs \<Longrightarrow> es_heap es x = Some h \<Longrightarrow> call_ok h R W f"
    and "\<And>x f h. (x, f) \<in> set cs \<Longrightarrow> es_heap es x = Some h \<Longrightarrow> has_flag EVENT_FLAG_TIMER h \<Longrightarrow> f AND EVENT_TIMER_BITS \<noteq> 0 \<Longrightarrow> deleted es' x"
    and "\<And>x h. x \<in> set xs \<Longrightarrow> es_heap es x = Some h \<Longrightarrow> \<not> has_flag EVENT_FLAG_DELETED h \<Longrightarrow> io_ready h R W \<noteq> 0 \<Longrightarrow>
      x \<in> fst ` set cs \<or> deleted es' x"
    and "\<And>now x f h. D = Some now \<Longrightarrow> (x, f) \<in> set cs \<Longrightarrow> es_heap es x = Some h \<Longrightarrow> f = ready_flags h R W now"
    and "\<And>now x h. D = Some now \<Longrightarrow> x \<in> set xs \<Longrightarrow> es_heap es x = Some h \<Longrightarrow> \<not> has_flag EVENT_FLAG_DELETED h \<Longrightarrow> past_due h now \<Longrightarrow>
      x \<in> fst ` set cs \<or> deleted es' x"
  shows "walked D es xs R W cs es'"
  unfolding walked_def using assms by blast

lemma walkedD:
  assumes "walked D es xs R W cs es'"
  shows "subseq (map fst cs) xs"
    "(x, f) \<in> set cs \<Longrightarrow> es_heap es x = Some h \<Longrightarrow> call_ok h R W f"
    "(x, f) \<in> set cs \<Longrightarrow> es_heap es x = Some h \<Longrightarrow> has_flag EVENT_FLAG_TIMER h \<Longrightarrow> f AND EVENT_TIMER_BITS \<noteq> 0 \<Longrightarrow> deleted es' x"
    "x \<in> set xs \<Longrightarrow> es_heap es x = Some h \<Longrightarrow> \<not> has_flag EVENT_FLAG_DELETED h \<Longrightarrow> io_ready h R W \<noteq> 0 \<Longrightarrow>
      x \<in> fst ` set cs \<or> deleted es' x"
    "D = Some now \<Longrightarrow> (x, f) \<in> set cs \<Longrightarrow> es_heap es x = Some h \<Longrightarrow> f = ready_flags h R W now"
    "D = Some now \<Longrightarrow> x \<in> set xs \<Longrightarrow> es_heap es x = Some h \<Longrightarrow> \<not> has_flag EVENT_FLAG_DELETED h \<Longrightarrow> past_due h now \<Longrightarrow>
      x \<in> fst ` set cs \<or> deleted es' x"
  using assms unfolding walked_def by simp_all

lemma same_call_ok: "same_handler h h' \<Longrightarrow> call_ok h' R W f \<Longrightarrow> call_ok h R W f"
  using same_io same_handler_deleted unfolding call_ok_def by metis

lemma walked_nil: "walked D es [] R W [] es"
  by (simp add: walked_def)

lemma same_due:
  assumes "same_handler h h'" "eh_tmout h' = eh_tmout h"
  shows "past_due h' now = past_due h now" "ready_flags h' R W now = ready_flags h R W now"
proof -
  have "has_flag EVENT_TIMER_BITS h' = has_flag EVENT_TIMER_BITS h" by (rule same_handler_flag [OF assms(1)]) (simp add: flag_defs)
  then show p: "past_due h' now = past_due h now" using assms(2) by (simp add: past_due_def)
  have "ready_flags k R W now = io_ready k R W OR (if past_due k now then EVENT_TIMER_BITS else 0)" for k :: "('a, 'b) event_handler"
    by (simp only: ready_flags_def io_ready_def or.assoc)
  then show "ready_flags h' R W now = ready_flags h R W now" using p same_io [OF assms(1)] by simp
qed

text \<open>Handlers that keep their deadlines.\<close>

definition kept_times :: "nat set \<Rightarrow> ('f, 'd, 'w) selector \<Rightarrow> ('f, 'd, 'w) selector \<Rightarrow> bool" where
  "kept_times A es es' \<longleftrightarrow> (\<forall>x \<in> A. \<forall>h. es_heap es x = Some h \<longrightarrow> (\<exists>h'. es_heap es' x = Some h' \<and> eh_tmout h' = eh_tmout h))"

lemma kept_refl [simp, intro]: "kept_times A es es"
  by (simp add: kept_times_def)

lemma kept_trans: "kept_times A es es' \<Longrightarrow> kept_times A es' es'' \<Longrightarrow> kept_times A es es''"
  unfolding kept_times_def by metis

lemma mark_kept: "mark_deleted a es = Some es' \<Longrightarrow> kept_times A es es'"
  by (auto simp: mark_deleted_def upd_handler_def set_handler_def kept_times_def)

text \<open>The first handler, and the rest of the walk.\<close>

lemma walked_cons:
  assumes x: "es_heap es x = Some h" and g: "grows es A ys es1" "insert x (set xs) \<subseteq> set A"
    and w: "walked D es1 xs R W cs es'" and later: "\<And>y. deleted es1 y \<Longrightarrow> y \<in> set A \<Longrightarrow> deleted es' y"
    and c: "c = [] \<or> c = [(x, f)]" "x \<notin> set xs"
    and f: "c \<noteq> [] \<Longrightarrow> call_ok h R W f" "c \<noteq> [] \<Longrightarrow> has_flag EVENT_FLAG_TIMER h \<Longrightarrow> f AND EVENT_TIMER_BITS \<noteq> 0 \<Longrightarrow> deleted es1 x"
    and none: "c = [] \<Longrightarrow> has_flag EVENT_FLAG_DELETED h \<or> io_ready h R W = 0"
    and D: "\<And>now. D = Some now \<Longrightarrow> kept_times (set A) es es1"
      "\<And>now. D = Some now \<Longrightarrow> c \<noteq> [] \<Longrightarrow> f = ready_flags h R W now"
      "\<And>now. D = Some now \<Longrightarrow> c = [] \<Longrightarrow> has_flag EVENT_FLAG_DELETED h \<or> \<not> past_due h now"
  shows "walked D es (x # xs) R W (c @ cs) es'"
proof (rule walkedI)
  note sub = walkedD(1) [OF w]
  have fst: "y \<in> set A" if "(y, k) \<in> set cs" for y k
    using list_emb_set [OF sub, of y] that g(2) by force
  have h1: "\<exists>h1. es_heap es1 y = Some h1 \<and> same_handler h0 h1" if "y \<in> set A" "es_heap es y = Some h0" for y h0
    using g(1) that unfolding grows_def by blast
  have h2: "\<exists>h1. es_heap es1 y = Some h1 \<and> same_handler h0 h1 \<and> eh_tmout h1 = eh_tmout h0"
    if "D = Some now" "y \<in> set A" "es_heap es y = Some h0" for now y h0
    using h1 [OF that(2,3)] D(1) [OF that(1)] that(2,3) by (fastforce simp: kept_times_def)
  show "subseq (map fst (c @ cs)) (x # xs)" using sub c(1) by auto
  fix y k h0 assume y: "es_heap es y = Some h0"
  {
    assume m: "(y, k) \<in> set (c @ cs)"
    then consider "(y, k) \<in> set cs" | "y = x" "k = f" "c \<noteq> []" "h0 = h" using c(1) x y by auto
    then show "call_ok h0 R W k"
    proof cases
      case 1
      then show ?thesis using h1 [OF fst [OF 1] y] walkedD(2) [OF w 1] same_call_ok by blast
    qed (use f(1) in simp)
  }
  {
    assume m: "(y, k) \<in> set (c @ cs)" and t: "has_flag EVENT_FLAG_TIMER h0" "k AND EVENT_TIMER_BITS \<noteq> 0"
    then consider "(y, k) \<in> set cs" | "y = x" "k = f" "c \<noteq> []" "h0 = h" using c(1) x y by auto
    then show "deleted es' y"
    proof cases
      case 1
      obtain h2 where "es_heap es1 y = Some h2" "same_handler h0 h2" using h1 [OF fst [OF 1] y] by blast
      then show ?thesis using walkedD(3) [OF w 1] t same_timer by blast
    qed (use f(2) t later g(2) in simp)
  }
  {
    fix now assume d: "D = Some now" and m: "(y, k) \<in> set (c @ cs)"
    then consider "(y, k) \<in> set cs" | "y = x" "k = f" "c \<noteq> []" "h0 = h" using c(1) x y by auto
    then show "k = ready_flags h0 R W now"
    proof cases
      case 1
      then show ?thesis using h2 [OF d fst [OF 1] y] walkedD(5) [OF w d 1] same_due(2) by metis
    qed (use D(2) [OF d] in simp)
  }
  {
    fix now assume d: "D = Some now" and a: "y \<in> set (x # xs)" "\<not> has_flag EVENT_FLAG_DELETED h0" "past_due h0 now"
    show "y \<in> fst ` set (c @ cs) \<or> deleted es' y"
    proof (cases "y = x")
      case True
      then show ?thesis using D(3) [OF d] c(1) x y a(2,3) by auto
    next
      case False
      then have m: "y \<in> set xs" "y \<in> set A" using a(1) g(2) by auto
      obtain h3 where h3: "es_heap es1 y = Some h3" "same_handler h0 h3" "eh_tmout h3 = eh_tmout h0" using h2 [OF d m(2) y] by blast
      show ?thesis
      proof (cases "has_flag EVENT_FLAG_DELETED h3")
        case True
        then show ?thesis using later m(2) h3(1) by (simp add: deleted_def)
      next
        case False
        then show ?thesis using walkedD(6) [OF w d m(1) h3(1) False] a(3) same_due(1) [OF h3(2,3)] by auto
      qed
    qed
  }
  assume a: "y \<in> set (x # xs)" "\<not> has_flag EVENT_FLAG_DELETED h0" "io_ready h0 R W \<noteq> 0"
  show "y \<in> fst ` set (c @ cs) \<or> deleted es' y"
  proof (cases "y = x")
    case True
    then show ?thesis using none c(1) x y a(2,3) by auto
  next
    case False
    then have m: "y \<in> set xs" "y \<in> set A" using a(1) g(2) by auto
    obtain h2 where h2: "es_heap es1 y = Some h2" "same_handler h0 h2" using h1 [OF m(2) y] by blast
    show ?thesis
    proof (cases "has_flag EVENT_FLAG_DELETED h2")
      case True
      then show ?thesis using later m(2) h2(1) by (simp add: deleted_def)
    next
      case False
      then show ?thesis using walkedD(4) [OF w m(1) h2(1) False] a(3) same_io [OF h2(2)] by auto
    qed
  qed
qed

locale quiet_callbacks = callbacks +
  assumes quiet: "good G es xs \<Longrightarrow> nestLevel es \<noteq> 0 \<Longrightarrow> fn f fd flags d es = Some (Cont es') \<Longrightarrow> es_calls es' = es_calls es"
begin

lemma callback_quiet:
  assumes g: "good G es xs" "nestLevel es \<noteq> 0" "a \<in> set xs" and f: "do_callback fn a f es = Some (Cont es1)"
    and ready: "\<And>h. es_heap es a = Some h \<Longrightarrow>
      f = 0 \<or> (eh_flags h AND NOT EVENT_FLAG_DELETED) AND NOT EVENT_FLAG_READABLE \<noteq> 0 \<or> rdy_at rdy es a"
  shows "es_calls es1 = es_calls es @ (if f = 0 then [] else [(a, f)])" "\<exists>ys. grows es xs ys es1"
proof -
  have "es_calls es1 = es_calls es @ (if f = 0 then [] else [(a, f)]) \<and> (\<exists>ys. grows es xs ys es1)"
  proof (cases "f = 0")
    case True
    then show ?thesis using f g(1) by (auto simp: do_callback_def good_def)
  next
    case False
    obtain h where h: "es_heap es a = Some h" "fn (eh_fn h) (eh_fd h) f (eh_data h) (es\<lparr>es_calls := es_calls es @ [(a, f)]\<rparr>) = Some (Cont es1)"
      using f False by (auto simp: do_callback_def bind_eq_Some_conv)
    let ?es = "es\<lparr>es_calls := es_calls es @ [(a, f)]\<rparr>"
    have gs: "good G ?es xs" using g(1) by (simp add: good_def hinv_def deleted_def)
    have n: "nestLevel ?es \<noteq> 0" using g(2) by simp
    have "ends G T X es xs (Cont es1)" using callback_runs [OF g h(1) ready [OF h(1)]] f by auto
    then obtain ys where "grows es xs ys es1" by (auto simp: ends_def)
    then show ?thesis using quiet [OF gs n h(2)] False by auto
  qed
  then show "es_calls es1 = es_calls es @ (if f = 0 then [] else [(a, f)])" "\<exists>ys. grows es xs ys es1" by blast+
qed

lemma call_quiet:
  assumes g: "good G es xs" "nestLevel es \<noteq> 0" "a \<in> set xs" "es_heap es a = Some h"
    and r: "call_handler fn now R Wr a h es = Some (Cont es1)"
    and ready: "has_flag EVENT_FLAG_READABLE h \<Longrightarrow> eh_fd h \<in> R \<Longrightarrow> rdy_at rdy es a"
  shows "es_calls es1 = es_calls es @ (if ready_flags h R Wr now = 0 then [] else [(a, ready_flags h R Wr now)])"
    "past_due h now \<Longrightarrow> has_flag EVENT_FLAG_TIMER h \<Longrightarrow> deleted es1 a"
proof -
  define f where "f = ready_flags h R Wr now"
  have "es_calls es1 = es_calls es @ (if f = 0 then [] else [(a, f)]) \<and>
    (past_due h now \<and> has_flag EVENT_FLAG_TIMER h \<longrightarrow> deleted es1 a)"
  proof (cases "past_due h now \<and> has_flag EVENT_FLAG_TIMER h")
    case True
    then obtain es2 where es2: "mark_deleted a es = Some es2" "do_callback fn a f es2 = Some (Cont es1)"
      using r by (auto simp: call_handler_def bind_eq_Some_conv f_def)
    obtain es3 h1 where "mark_deleted a es = Some es3" "deleted es3 a" "es_calls es3 = es_calls es" "good G es3 xs" "nestLevel es3 \<noteq> 0" "es_heap es3 a = Some h1"
      and rdy3: "f = 0 \<or> (eh_flags h1 AND NOT EVENT_FLAG_DELETED) AND NOT EVENT_FLAG_READABLE \<noteq> 0 \<or> rdy_at rdy es3 a"
      using mark_ready [OF g ready, of R Wr now] unfolding f_def by blast
    then have m: "deleted es2 a" "es_calls es2 = es_calls es" "good G es2 xs" "nestLevel es2 \<noteq> 0" "es_heap es2 a = Some h1" "es2 = es3"
      using es2(1) by auto
    note q = callback_quiet [OF m(3,4) g(3) es2(2)]
    have rdy2: "f = 0 \<or> (eh_flags k AND NOT EVENT_FLAG_DELETED) AND NOT EVENT_FLAG_READABLE \<noteq> 0 \<or> rdy_at rdy es2 a" if "es_heap es2 a = Some k" for k
      using rdy3 that m(5,6) by simp
    note q = q [OF rdy2]
    obtain ys where "grows es2 xs ys es1" using q(2) by blast
    then have "deleted es1 a" using grows_deleted g(3) m(1) by blast
    then show ?thesis using q(1) m(2) by simp
  next
    case False
    then have "do_callback fn a f es = Some (Cont es1)"
      using r unfolding call_handler_def f_def by (simp only: if_not_P if_False bind.simps)
    moreover have "f = 0 \<or> (eh_flags k AND NOT EVENT_FLAG_DELETED) AND NOT EVENT_FLAG_READABLE \<noteq> 0 \<or> rdy_at rdy es a" if "es_heap es a = Some k" for k
      using only_readable [of h R Wr now] ready that g(4) unfolding f_def by auto
    ultimately show ?thesis using callback_quiet [OF g(1-3)] False by blast
  qed
  then show "es_calls es1 = es_calls es @ (if ready_flags h R Wr now = 0 then [] else [(a, ready_flags h R Wr now)])"
    "past_due h now \<Longrightarrow> has_flag EVENT_FLAG_TIMER h \<Longrightarrow> deleted es1 a"
    by (simp_all only: f_def simp_thms)
qed

text \<open>No callback changes a deadline.\<close>

definition keeps_times :: bool where
  "keeps_times \<longleftrightarrow> (\<forall>es xs f fd flags d es'. good G es xs \<longrightarrow> nestLevel es \<noteq> 0 \<longrightarrow> fn f fd flags d es = Some (Cont es') \<longrightarrow>
     kept_times (set xs) es es')"

lemma call_kept:
  assumes k: keeps_times and g: "good G es xs" "nestLevel es \<noteq> 0" "a \<in> set xs" "es_heap es a = Some h"
    and r: "call_handler fn now R Wr a h es = Some (Cont es1)"
  shows "kept_times (set xs) es es1"
proof -
  have cb: "kept_times (set xs) es2 es1" if c: "do_callback fn a m es2 = Some (Cont es1)" "good G es2 xs" "nestLevel es2 \<noteq> 0" for es2 m
  proof (cases "m = 0")
    case False
    let ?es = "es2\<lparr>es_calls := es_calls es2 @ [(a, m)]\<rparr>"
    have "good G ?es xs" "nestLevel ?es \<noteq> 0" using c(2,3) by (simp_all add: good_def hinv_def deleted_def)
    then have "kept_times (set xs) ?es es1"
      using k c(1) False unfolding keeps_times_def by (auto simp: do_callback_def bind_eq_Some_conv)
    then show ?thesis by (simp add: kept_times_def)
  qed (use c(1) in \<open>simp add: do_callback_def\<close>)
  show ?thesis
  proof (cases "past_due h now \<and> has_flag EVENT_FLAG_TIMER h")
    case True
    then obtain es2 where es2: "mark_deleted a es = Some es2" "do_callback fn a (ready_flags h R Wr now) es2 = Some (Cont es1)"
      using r by (auto simp: call_handler_def bind_eq_Some_conv)
    moreover have "good G es2 xs" "nestLevel es2 \<noteq> 0" using mark_ready [OF g, of "{}" Wr now] es2(1) by auto
    ultimately show ?thesis using cb mark_kept kept_trans by blast
  next
    case False
    then have "do_callback fn a (ready_flags h R Wr now) es = Some (Cont es1)"
      using r unfolding call_handler_def by (simp only: if_not_P if_False bind.simps)
    then show ?thesis using cb g by blast
  qed
qed

lemma dispatch_walks:
  assumes "good G es (zs @ xs)" "nestLevel es \<noteq> 0" "hseg (es_heap es) p xs"
    and "dispatch fn now R Wr p es = Some (Cont es')" "armed R es xs" and D: "\<And>t. D = Some t \<Longrightarrow> t = now \<and> keeps_times"
  shows "\<exists>cs. es_calls es' = es_calls es @ cs \<and> walked D es xs R Wr cs es'"
  using assms(1-5)
proof (induction xs arbitrary: p es zs)
  case Nil
  then show ?case by (simp add: dispatch.simps [of fn now R Wr None es] walked_nil)
next
  case (Cons x xs)
  obtain h where h: "p = Some x" "es_heap es x = Some h" "hseg (es_heap es) (eh_next h) xs" using Cons.prems(3) by auto
  have gz: "good G es ((zs @ [x]) @ xs)" using Cons.prems(1) by simp
  have x: "x \<notin> set xs" "x \<in> set (zs @ x # xs)" using Cons.prems(1) by (auto simp: good_def hinv_def)
  have rest: "deleted es' y" if g: "good G es1 (us @ xs)" "nestLevel es1 \<noteq> 0" "hseg (es_heap es1) q xs"
      and d: "dispatch fn now R Wr q es1 = Some (Cont es')" "deleted es1 y" "y \<in> set (us @ xs)" and a: "armed R es1 xs" for es1 us q y
  proof -
    have "ends G T X es1 (us @ xs) (Cont es')" using dispatch_runs [OF g a, of now Wr] d(1) by auto
    then obtain ys where "grows es1 (us @ xs) ys es'" by (auto simp: ends_def)
    then show ?thesis by (rule grows_deleted [OF _ d(3,2)])
  qed
  have arm: "armed R es xs" using Cons.prems(5) by (simp add: armed_def)
  have rx: "has_flag EVENT_FLAG_READABLE h \<Longrightarrow> eh_fd h \<in> R \<Longrightarrow> rdy_at rdy es x" using armedD [OF Cons.prems(5) _ h(2)] by simp
  show ?case
  proof (cases "has_flag EVENT_FLAG_DELETED h")
    case True
    then have d: "dispatch fn now R Wr (eh_next h) es = Some (Cont es')"
      using Cons.prems(4) [unfolded dispatch.simps [of fn now R Wr p es]] h by simp
    then obtain cs where cs: "es_calls es' = es_calls es @ cs" "walked D es xs R Wr cs es'"
      using Cons.IH [OF gz Cons.prems(2) h(3) _ arm] by blast
    have "hinv es (zs @ x # xs)" using Cons.prems(1) by (simp add: good_def)
    then have "walked D es (x # xs) R Wr ([] @ cs) es'"
      by (intro walked_cons [OF h(2) grows_refl _ cs(2)] x(1))
        (use True rest [OF gz Cons.prems(2) h(3) d _ _ arm] in auto)
    then show ?thesis using cs(1) by auto
  next
    case False
    have "Option.bind (call_handler fn now R Wr x h es) (\<lambda>r. case r of Exit es \<Rightarrow> Some (Exit es)
        | Cont es \<Rightarrow> Option.bind (es_heap es x) (\<lambda>h. dispatch fn now R Wr (eh_next h) es)) = Some (Cont es')"
      using Cons.prems(4) [unfolded dispatch.simps [of fn now R Wr p es]] h False by simp
    then obtain es1 where es1: "call_handler fn now R Wr x h es = Some (Cont es1)"
      "Option.bind (es_heap es1 x) (\<lambda>h. dispatch fn now R Wr (eh_next h) es1) = Some (Cont es')"
      by (cases "call_handler fn now R Wr x h es") (simp_all split: ctl.splits)
    note q = call_quiet [OF Cons.prems(1,2) x(2) h(2) es1(1) rx]
    note c = call_runs [OF Cons.prems(1,2) x(2) h(2) rx, of R now Wr]
    have "\<exists>ys. grows es (zs @ x # xs) ys es1 \<and> good G es1 (ys @ zs @ x # xs)"
      using c es1(1) by (auto simp: ends_def)
    then obtain ys where ys: "grows es (zs @ x # xs) ys es1" "good G es1 (ys @ zs @ x # xs)" by blast
    have keeps: "rdy_at rdy es1 y" if "y \<in> set xs" "rdy_at rdy es y" for y
      using c es1(1) x(1) that by auto
    have arm1: "armed R es1 xs"
      by (rule armed_step [OF arm ys(1)]) (use keeps Cons.prems(1) in \<open>auto simp: good_def hinv_def\<close>)
    have n: "nestLevel es1 \<noteq> 0" using ys(1) Cons.prems(2) by (simp add: grows_def)
    have g1: "good G es1 ((ys @ zs @ [x]) @ xs)" using ys(2) by simp
    have "hseg (es_heap es1) (es_handlers es1) ((ys @ zs) @ x # xs)" using ys(2) by (simp add: good_def hinv_def)
    then obtain h1 where h1: "es_heap es1 x = Some h1" "hseg (es_heap es1) (eh_next h1) xs" using hseg_split by blast
    then have d: "dispatch fn now R Wr (eh_next h1) es1 = Some (Cont es')" using es1(2) by simp
    obtain cs where cs: "es_calls es' = es_calls es1 @ cs" "walked D es1 xs R Wr cs es'"
      using Cons.IH [OF g1 n h1(2) d arm1] by blast
    define f where "f = ready_flags h R Wr now"
    define c where "c = (if f = 0 then [] else [(x, f)])"
    have "walked D es (x # xs) R Wr (c @ cs) es'"
    proof (rule walked_cons [OF h(2) ys(1) _ cs(2)])
      show "deleted es' y" if "deleted es1 y" "y \<in> set (zs @ x # xs)" for y
        using rest [OF g1 n h1(2) d that(1) _ arm1] that(2) by auto
      show "c = [] \<or> c = [(x, f)]" "x \<notin> set xs" using x(1) by (simp_all add: c_def)
      show "call_ok h R Wr f" if "c \<noteq> []"
        using False that ready_io [of h R Wr now] by (auto simp: c_def f_def call_ok_def)
      show "deleted es1 x" if "has_flag EVENT_FLAG_TIMER h" "f AND EVENT_TIMER_BITS \<noteq> 0"
        using that q(2) ready_timer [of h R Wr now] by (simp add: f_def)
      show "has_flag EVENT_FLAG_DELETED h \<or> io_ready h R Wr = 0" if "c = []"
        using that ready_io [of h R Wr now] by (simp add: c_def f_def split: if_splits)
      show "kept_times (set (zs @ x # xs)) es es1" if "D = Some t" for t
        using call_kept [OF _ Cons.prems(1,2) x(2) h(2) es1(1)] D [OF that] by blast
      show "f = ready_flags h R Wr t" if "D = Some t" for t using D [OF that] by (simp add: f_def)
      show "has_flag EVENT_FLAG_DELETED h \<or> \<not> past_due h t" if "D = Some t" "c = []" for t
        using D [OF that(1)] that(2) ready_timer [of h R Wr now] by (auto simp: c_def f_def split: if_splits)
    qed auto
    then show ?thesis using cs(1) q(1) by (auto simp: c_def f_def)
  qed
qed

text \<open>One pass, from outside.\<close>

lemma HandleEvent_calls:
  assumes g: "good G es xs" and n: "nestLevel es = 0"
    and s: "build_sets (es_handlers es) es no_sets = Some s" "wait_select env s = Some (Selected k R Wr)"
    and sub: "R \<subseteq> readfds s" "Wr \<subseteq> writefds s" "\<not> foundReadEvent s \<longrightarrow> readfds s = {}" "\<not> foundWriteEvent s \<longrightarrow> writefds s = {}"
    and run: "Event_HandleEvent fn env es = Some (Cont (r, es'))" and arm: "armed R es xs"
    and D: "\<And>t. D = Some t \<Longrightarrow> t = now_after env \<and> keeps_times"
  shows "\<exists>cs es1 ys. es_calls es' = es_calls es @ cs \<and> walked D (es\<lparr>nestLevel := 1\<rparr>) xs R Wr cs es1 \<and> r = int k \<and>
    (\<forall>x. deleted es1 x \<longrightarrow> es_heap es' x = None) \<and> nestLevel es' = 0 \<and>
    (if destroyPending es1 then es_freed es' \<and> es_heap es' = (\<lambda>_. None)
     else good G es' (filter (\<lambda>x. \<not> deleted es1 x) (ys @ xs)) \<and> \<not> opsPending es')"
proof -
  let ?es = "es\<lparr>nestLevel := 1\<rparr>"
  have g1: "good G ?es ([] @ xs)" using pass_start(1) [OF g] by simp
  have h1: "hseg (es_heap ?es) (es_handlers es) xs" using pass_start(2) [OF g] by simp
  have RW: "(if foundReadEvent s then R else {}) = R" "(if foundWriteEvent s then Wr else {}) = Wr" using sub by auto
  have arm1: "armed R ?es xs" using armed_less [OF arm, of True] by simp
  obtain c where c: "dispatch fn (now_after env) R Wr (es_handlers es) ?es = Some c" "ends G T X ?es ([] @ xs) c"
    using dispatch_runs [OF g1 _ h1 arm1] by fastforce
  have ev: "Event_HandleEvent fn env es = (case c of Exit es \<Rightarrow> Some (Exit es) | Cont es \<Rightarrow> end_pass (int k) es)"
    using c(1) n by (simp add: Event_HandleEvent_def s RW)
  then obtain es1 where es1: "c = Cont es1" "end_pass (int k) es1 = Some (Cont (r, es'))"
    using run by (auto split: ctl.splits)
  obtain cs where cs: "es_calls es1 = es_calls ?es @ cs" "walked D ?es xs R Wr cs es1"
    using dispatch_walks [OF g1 _ h1 c(1) [unfolded es1(1)] arm1 D] by auto
  obtain ys where ys: "grows ?es xs ys es1" "good G es1 (ys @ xs)" "T\<^sup>*\<^sup>* (es_world ?es) (es_world es1)"
    using c(2) es1(1) by (auto simp: ends_def)
  note E = ends_plain [OF ys, of "int k", simplified, unfolded es1(2)]
  have "es_heap es' x = None" if d: "deleted es1 x" for x
  proof (cases "destroyPending es1")
    case False
    then have "hinv es' (filter (\<lambda>x. \<not> deleted es1 x) (ys @ xs))" using E by (simp add: good_def)
    then show ?thesis using hinvD(3) d by fastforce
  qed (use E in simp)
  then show ?thesis using E cs by (intro exI [of _ cs] exI [of _ es1] exI [of _ ys]) (auto split: if_splits)
qed

end

end
