(* ===== verification/Hash_Table.thy ===== *)
theory Hash_Table
  imports Linked_Lists
begin

text \<open>
  The hash tables of the event library (\<open>rg/pkg/pppoe-server/src/libevent/hash.c\<close>): chains of items
  that are linked through a structure inside them. Items are numbers; the hash function and the
  comparison, which is 0 for equal items, are fields of the table as in the source. The links are
  functions from items, so they are part of the table's record here.
\<close>

definition HASHTAB_SIZE :: nat where "HASHTAB_SIZE = 67"

record hash_table =
  buckets :: "nat \<Rightarrow> nat option"
  compute_hash :: "nat \<Rightarrow> u32"
  hash_compare :: "nat \<Rightarrow> nat \<Rightarrow> int"
  num_entries :: u32
  hb_next :: "nat \<Rightarrow> nat option"
  hb_prev :: "nat \<Rightarrow> nat option"
  hb_hashval :: "nat \<Rightarrow> u32"

definition hash_init :: "(nat \<Rightarrow> u32) \<Rightarrow> (nat \<Rightarrow> nat \<Rightarrow> int) \<Rightarrow> hash_table \<Rightarrow> hash_table" where
  "hash_init compute cmp tab =
     tab\<lparr>compute_hash := compute, hash_compare := cmp, buckets := (\<lambda>_. None), num_entries := 0\<rparr>"

definition hash_insert :: "nat \<Rightarrow> hash_table \<Rightarrow> hash_table" where
  "hash_insert item tab =
     (let val = compute_hash tab item;
          b = unat val mod HASHTAB_SIZE;
          tab = tab\<lparr>hb_hashval := (hb_hashval tab)(item := val), hb_prev := (hb_prev tab)(item := None),
                    hb_next := (hb_next tab)(item := buckets tab b)\<rparr>;
          tab = (case hb_next tab item of
                   None \<Rightarrow> tab
                 | Some n \<Rightarrow> tab\<lparr>hb_prev := (hb_prev tab)(n := Some item)\<rparr>)
      in tab\<lparr>buckets := (buckets tab)(b := Some item), num_entries := num_entries tab + 1\<rparr>)"

definition hash_remove :: "nat \<Rightarrow> hash_table \<Rightarrow> hash_table" where
  "hash_remove item tab =
     (let b = unat (hb_hashval tab item) mod HASHTAB_SIZE;
          tab = (case hb_prev tab item of
                   Some p \<Rightarrow> tab\<lparr>hb_next := (hb_next tab)(p := hb_next tab item)\<rparr>
                 | None \<Rightarrow> tab\<lparr>buckets := (buckets tab)(b := hb_next tab item)\<rparr>);
          tab = (case hb_next tab item of
                   None \<Rightarrow> tab
                 | Some n \<Rightarrow> tab\<lparr>hb_prev := (hb_prev tab)(n := hb_prev tab item)\<rparr>)
      in tab\<lparr>num_entries := num_entries tab - 1\<rparr>)"

definition hash_find :: "hash_table \<Rightarrow> nat \<Rightarrow> nat option option" where
  "hash_find tab item =
     chain_find (hb_next tab) (\<lambda>i. hash_compare tab item i = 0) (buckets tab (unat (compute_hash tab item) mod HASHTAB_SIZE))"

definition hash_find_next :: "hash_table \<Rightarrow> nat \<Rightarrow> nat option option" where
  "hash_find_next tab item = chain_find (hb_next tab) (\<lambda>i. hash_compare tab item i = 0) (hb_next tab item)"

text \<open>The first bucket of a list that is not empty.\<close>

fun first_bucket :: "hash_table \<Rightarrow> nat list \<Rightarrow> nat option" where
  "first_bucket tab [] = None"
| "first_bucket tab (b # bs) = (case buckets tab b of None \<Rightarrow> first_bucket tab bs | Some i \<Rightarrow> Some i)"

definition hash_next_cursor :: "hash_table \<Rightarrow> nat option \<Rightarrow> nat option" where
  "hash_next_cursor tab b =
     (case b of
        None \<Rightarrow> None
      | Some i \<Rightarrow>
          (case hb_next tab i of
             Some n \<Rightarrow> Some n
           | None \<Rightarrow> first_bucket tab [unat (hb_hashval tab i) mod HASHTAB_SIZE + 1..<HASHTAB_SIZE]))"

text \<open>The item, and the cursor.\<close>

definition hash_start :: "hash_table \<Rightarrow> nat option \<times> nat option" where
  "hash_start tab =
     (let b = first_bucket tab [0..<HASHTAB_SIZE] in (b, hash_next_cursor tab b))"

definition hash_next :: "hash_table \<Rightarrow> nat option \<Rightarrow> nat option \<times> nat option" where
  "hash_next tab cursor = (case cursor of None \<Rightarrow> (None, None) | Some b \<Rightarrow> (Some b, hash_next_cursor tab (Some b)))"

text \<open>\<open>int\<close> has 32 bits; a \<open>char\<close> is extended with its sign.\<close>

definition ONE_EIGHTH :: nat where "ONE_EIGHTH = 4"
definition THREE_QUARTERS :: nat where "THREE_QUARTERS = 24"
definition HIGH_BITS :: u32 where "HIGH_BITS = NOT (drop_bit ONE_EIGHTH (NOT 0))"

definition pjw_byte :: "u32 \<Rightarrow> u8 \<Rightarrow> u32" where
  "pjw_byte h c =
     (let h = push_bit ONE_EIGHTH h + scast c; i = h AND HIGH_BITS in
      if i \<noteq> 0 then (h XOR drop_bit THREE_QUARTERS i) AND NOT HIGH_BITS else h)"

definition hash_pjw :: "u8 list \<Rightarrow> u32" where
  "hash_pjw str = foldl pjw_byte 0 (takeWhile (\<lambda>c. c \<noteq> 0) str)"

section \<open>What a table holds\<close>

text \<open>\<open>xs b\<close> are the items in bucket \<open>b\<close>.\<close>

definition bucket_holds :: "hash_table \<Rightarrow> nat \<Rightarrow> nat list \<Rightarrow> bool" where
  "bucket_holds tab b xs \<longleftrightarrow> lseg (hb_next tab) (buckets tab b) xs \<and> plinks (hb_prev tab) None xs \<and> distinct xs \<and>
     (\<forall>i \<in> set xs. hb_hashval tab i = compute_hash tab i \<and> unat (hb_hashval tab i) mod HASHTAB_SIZE = b)"

definition hash_holds :: "hash_table \<Rightarrow> (nat \<Rightarrow> nat list) \<Rightarrow> bool" where
  "hash_holds tab xs \<longleftrightarrow> (\<forall>b < HASHTAB_SIZE. bucket_holds tab b (xs b)) \<and>
     num_entries tab = word_of_nat (\<Sum>b < HASHTAB_SIZE. length (xs b))"

definition bucket_of :: "hash_table \<Rightarrow> nat \<Rightarrow> nat" where
  "bucket_of tab i = unat (compute_hash tab i) mod HASHTAB_SIZE"

lemma bucket_of_lt [simp]: "bucket_of tab i < HASHTAB_SIZE"
  by (simp add: bucket_of_def HASHTAB_SIZE_def)

lemma holds_in:
  assumes "hash_holds tab xs" "b < HASHTAB_SIZE"
  shows "lseg (hb_next tab) (buckets tab b) (xs b)" "plinks (hb_prev tab) None (xs b)" "distinct (xs b)"
    "\<forall>i \<in> set (xs b). hb_hashval tab i = compute_hash tab i \<and> unat (hb_hashval tab i) mod HASHTAB_SIZE = b"
  using assms unfolding hash_holds_def bucket_holds_def by blast+

lemma holds_bucket: "hash_holds tab xs \<Longrightarrow> b < HASHTAB_SIZE \<Longrightarrow> i \<in> set (xs b) \<Longrightarrow> b = bucket_of tab i"
  using holds_in(4) [of tab xs b] by (auto simp: bucket_of_def)

lemma init_holds: "hash_holds (hash_init c m tab) (\<lambda>_. [])"
  by (simp add: hash_holds_def bucket_holds_def hash_init_def)

lemma sum_upd:
  assumes "b < (n :: nat)"
  shows "(\<Sum>c < n. length ((xs(b := ys)) c)) + length (xs b) = (\<Sum>c < n. length (xs c)) + length ys"
proof -
  have "(\<Sum>c < n. f c) = f b + (\<Sum>c \<in> {..<n} - {b}. f c)" for f :: "nat \<Rightarrow> nat"
    using assms by (simp add: sum.remove)
  moreover have "(\<Sum>c \<in> {..<n} - {b}. length ((xs(b := ys)) c)) = (\<Sum>c \<in> {..<n} - {b}. length (xs c))"
    by (rule sum.cong) simp_all
  ultimately show ?thesis by (metis (no_types, lifting) add.assoc add.commute fun_upd_same)
qed

lemma insert_fields:
  assumes "b = bucket_of tab item" "lseg (hb_next tab) (buckets tab b) xs"
  shows "hb_next (hash_insert item tab) = (hb_next tab)(item := buckets tab b)"
    "buckets (hash_insert item tab) = (buckets tab)(b := Some item)"
    "hb_hashval (hash_insert item tab) = (hb_hashval tab)(item := compute_hash tab item)"
    "compute_hash (hash_insert item tab) = compute_hash tab"
    "hash_compare (hash_insert item tab) = hash_compare tab"
    "num_entries (hash_insert item tab) = num_entries tab + 1"
    "hb_prev (hash_insert item tab) = (case xs of [] \<Rightarrow> (hb_prev tab)(item := None) | y # _ \<Rightarrow> (hb_prev tab)(item := None, y := Some item))"
  using lseg_head [OF assms(2)] unfolding assms(1)
  by (simp_all add: hash_insert_def Let_def bucket_of_def [symmetric] split: list.split)

lemma insert_holds:
  assumes h: "hash_holds tab xs" and new: "item \<notin> set (xs (bucket_of tab item))"
  shows "hash_holds (hash_insert item tab) (xs(bucket_of tab item := item # xs (bucket_of tab item)))"
proof -
  define b where "b = bucket_of tab item"
  have b: "b < HASHTAB_SIZE" by (simp add: b_def)
  have out: "item \<notin> set (xs c)" if "c < HASHTAB_SIZE" for c using holds_bucket [OF h that] new by blast
  note H = holds_in [OF h]
  note t = insert_fields [OF b_def H(1) [OF b]]
  have ok: "bucket_holds (hash_insert item tab) c ((xs(b := item # xs b)) c)" if c: "c < HASHTAB_SIZE" for c
  proof (cases "c = b")
    case True
    have "plinks (hb_prev (hash_insert item tab)) None (item # xs b)"
      unfolding t(7) by (rule plinks_front [OF H(2) [OF b] out [OF b] H(3) [OF b]])
    then show ?thesis using True H(1,3,4) [OF b] out [OF b]
      by (auto simp: bucket_holds_def t b_def bucket_of_def)
  next
    case False
    have "y \<notin> set (xs c)" if "y \<in> set (xs b)" for y
      using holds_bucket [OF h b that] holds_bucket [OF h c, of y] False by blast
    then show ?thesis using False H(1-4) [OF c] out [OF c]
      by (auto simp: bucket_holds_def t split: list.split)
  qed
  have "(\<Sum>c < HASHTAB_SIZE. length ((xs(b := item # xs b)) c)) = (\<Sum>c < HASHTAB_SIZE. length (xs c)) + 1"
    using sum_upd [OF b, of xs "item # xs b"] by simp
  then show ?thesis using ok h unfolding hash_holds_def b_def [symmetric] by (simp add: t)
qed

lemma remove_fields:
  assumes "unat (hb_hashval tab item) mod HASHTAB_SIZE = b" "hb_next tab item \<noteq> Some item" "hb_prev tab item \<noteq> Some item"
  shows "hb_next (hash_remove item tab) = unlink_next (hb_next tab) (hb_prev tab) item"
    "hb_prev (hash_remove item tab) = unlink_prev (hb_next tab) (hb_prev tab) item"
    "buckets (hash_remove item tab) = (buckets tab)(b := unlink_head (buckets tab b) (hb_next tab) (hb_prev tab) item)"
    "hb_hashval (hash_remove item tab) = hb_hashval tab" "compute_hash (hash_remove item tab) = compute_hash tab"
    "hash_compare (hash_remove item tab) = hash_compare tab"
    "num_entries (hash_remove item tab) = num_entries tab - 1"
  unfolding hash_remove_def Let_def assms(1) using assms(2,3)
  by (auto simp: unlink_next_def unlink_prev_def unlink_head_def split: option.split)

lemma remove_holds:
  assumes h: "hash_holds tab xs" and i: "item \<in> set (xs b)" "b < HASHTAB_SIZE"
  shows "hash_holds (hash_remove item tab) (xs(b := remove1 item (xs b)))"
proof -
  note H = holds_in [OF h]
  note u = unlink_dlist [OF H(1-3) [OF i(2)] i(1)]
  have n: "hb_next tab item \<noteq> Some item" "hb_prev tab item \<noteq> Some item" using u(4,5) by blast+
  have v: "unat (hb_hashval tab item) mod HASHTAB_SIZE = b" using H(4) [OF i(2)] i(1) by blast
  note t = remove_fields [OF v n]
  have ok: "bucket_holds (hash_remove item tab) c ((xs(b := remove1 item (xs b))) c)" if c: "c < HASHTAB_SIZE" for c
  proof (cases "c = b")
    case True
    then show ?thesis using u(1,2) H(3,4) [OF i(2)] by (auto simp: bucket_holds_def t dest: notin_set_remove1)
  next
    case False
    have "y \<notin> set (xs c)" if "y \<in> set (xs b)" for y
      using holds_bucket [OF h i(2) that] holds_bucket [OF h c, of y] False by blast
    then show ?thesis using False H(1-4) [OF c] u(4,5)
      by (auto simp: bucket_holds_def t unlink_next_def unlink_prev_def split: option.splits)
  qed
  have "(\<Sum>c < HASHTAB_SIZE. length ((xs(b := remove1 item (xs b))) c)) + 1 = (\<Sum>c < HASHTAB_SIZE. length (xs c))"
    using sum_upd [OF i(2), of xs "remove1 item (xs b)"] length_pos_if_in_set [OF i(1)] i(1)
    by (simp add: length_remove1 del: fun_upd_apply length_greater_0_conv)
  then have "num_entries tab = word_of_nat ((\<Sum>c < HASHTAB_SIZE. length ((xs(b := remove1 item (xs b))) c)) + 1)"
    using h by (simp add: hash_holds_def)
  then show ?thesis using ok by (simp add: hash_holds_def t)
qed

section \<open>Searches\<close>

lemma find_holds:
  "hash_holds tab xs \<Longrightarrow> hash_find tab item = Some (List.find (\<lambda>i. hash_compare tab item i = 0) (xs (bucket_of tab item)))"
  using chain_find_lseg [OF holds_in(1) [OF _ bucket_of_lt]] by (simp add: hash_find_def bucket_of_def)

lemma find_next_holds:
  assumes "hash_holds tab xs" "b < HASHTAB_SIZE" "xs b = as @ item # bs"
  shows "hash_find_next tab item = Some (List.find (\<lambda>i. hash_compare tab item i = 0) bs)"
proof -
  have "lseg (hb_next tab) (hb_next tab item) bs"
    using holds_in(1,3) [OF assms(1,2)] lseg_split [of "hb_next tab" _ as item bs] unfolding assms(3) by blast
  then show ?thesis by (simp add: hash_find_next_def chain_find_lseg)
qed

lemma find_unique: "i \<in> set xs \<Longrightarrow> (\<And>j. j \<in> set xs \<Longrightarrow> P j \<longleftrightarrow> j = i) \<Longrightarrow> List.find P xs = Some i"
proof (induction xs)
  case (Cons a xs)
  then show ?case by (cases "P a") auto
qed simp

text \<open>Items that are equal are found when equal items have equal hash values.\<close>

lemma find_equal:
  assumes "hash_holds tab xs" "b < HASHTAB_SIZE" "i \<in> set (xs b)" "compute_hash tab item = compute_hash tab i"
    and "\<And>j. j \<in> set (xs b) \<Longrightarrow> hash_compare tab item j = 0 \<longleftrightarrow> j = i"
  shows "hash_find tab item = Some (Some i)"
proof -
  have "b = bucket_of tab item" using holds_bucket [OF assms(1-3)] assms(4) by (simp add: bucket_of_def)
  moreover have "List.find (\<lambda>j. hash_compare tab item j = 0) (xs b) = Some i"
    by (rule find_unique [OF assms(3,5)])
  ultimately show ?thesis using find_holds [OF assms(1)] by simp
qed

section \<open>The iterator\<close>

abbreviation "first_of xs \<equiv> (case xs of [] \<Rightarrow> None | x # _ \<Rightarrow> Some x)"

lemma first_bucket_holds:
  "hash_holds tab xs \<Longrightarrow> \<forall>b \<in> set bs. b < HASHTAB_SIZE \<Longrightarrow> first_bucket tab bs = first_of (concat (map xs bs))"
proof (induction bs)
  case (Cons b bs)
  then have "buckets tab b = first_of (xs b)" using lseg_head [OF holds_in(1)] by simp
  then show ?case using Cons by (cases "xs b") simp_all
qed simp

lemma next_cursor_holds:
  assumes h: "hash_holds tab xs" and b: "b < HASHTAB_SIZE" "xs b = as @ i # bs"
  shows "hash_next_cursor tab (Some i) = first_of (bs @ concat (map xs [b + 1..<HASHTAB_SIZE]))"
proof -
  have "lseg (hb_next tab) (hb_next tab i) bs"
    using holds_in(1,3) [OF h b(1)] lseg_split [of "hb_next tab" _ as i bs] unfolding b(2) by blast
  then have "hb_next tab i = first_of bs" by (rule lseg_head)
  moreover have "unat (hb_hashval tab i) mod HASHTAB_SIZE = b" using holds_in(4) [OF h b(1)] b(2) by (metis in_set_conv_decomp)
  moreover have "first_bucket tab [b + 1..<HASHTAB_SIZE] = first_of (concat (map xs [b + 1..<HASHTAB_SIZE]))"
    by (rule first_bucket_holds [OF h]) simp
  ultimately show ?thesis by (cases bs) (simp_all add: hash_next_cursor_def)
qed

definition hash_items :: "(nat \<Rightarrow> nat list) \<Rightarrow> nat list" where
  "hash_items xs = concat (map xs [0..<HASHTAB_SIZE])"

lemma in_hash_items: "i \<in> set (hash_items xs) \<longleftrightarrow> (\<exists>b < HASHTAB_SIZE. i \<in> set (xs b))"
  by (auto simp: hash_items_def)

lemma hash_items_split:
  assumes "hash_items xs = us @ i # vs"
  obtains b as bs where "b < HASHTAB_SIZE" "xs b = as @ i # bs" "vs = bs @ concat (map xs [b + 1..<HASHTAB_SIZE])"
proof -
  have "concat (map xs [m..<n]) = us @ i # vs \<Longrightarrow> \<exists>b as bs. b < n \<and> xs b = as @ i # bs \<and> vs = bs @ concat (map xs [b + 1..<n])"
    for m n us
  proof (induction "n - m" arbitrary: m us)
    case (Suc k)
    then have "[m..<n] = m # [Suc m..<n]" by (simp add: upt_conv_Cons)
    then have eq: "xs m @ concat (map xs [Suc m..<n]) = us @ i # vs" using Suc.prems by simp
    then consider zs where "xs m = us @ zs" "zs @ concat (map xs [Suc m..<n]) = i # vs"
      | zs where "xs m @ zs = us" "concat (map xs [Suc m..<n]) = zs @ i # vs"
      by (auto simp: append_eq_append_conv2)
    then show ?case
    proof cases
      case 1
      show ?thesis
      proof (cases zs)
        case Nil
        then show ?thesis using Suc.hyps(1) [of "Suc m" "[]"] Suc.hyps(2) 1(2) by simp
      next
        case (Cons z zs')
        then show ?thesis using 1 Suc.hyps(2) by (intro exI [of _ m] exI [of _ us] exI [of _ zs']) auto
      qed
    next
      case 2
      then show ?thesis using Suc.hyps(1) [of "Suc m" zs] Suc.hyps(2) by simp
    qed
  qed simp
  then show thesis using that assms unfolding hash_items_def by blast
qed

lemma hash_start_holds:
  assumes "hash_holds tab xs"
  shows "hash_start tab = (first_of (hash_items xs), first_of (tl (hash_items xs)))"
proof -
  have f: "first_bucket tab [0..<HASHTAB_SIZE] = first_of (hash_items xs)"
    unfolding hash_items_def by (rule first_bucket_holds [OF assms]) simp
  show ?thesis
  proof (cases "hash_items xs")
    case Nil
    then show ?thesis by (simp add: hash_start_def f hash_next_cursor_def)
  next
    case (Cons i vs)
    then have "hash_items xs = [] @ i # vs" by simp
    then obtain b as bs where "b < HASHTAB_SIZE" "xs b = as @ i # bs" "vs = bs @ concat (map xs [b + 1..<HASHTAB_SIZE])"
      by (rule hash_items_split)
    then show ?thesis using next_cursor_holds [OF assms] by (simp add: hash_start_def f Cons)
  qed
qed

lemma hash_next_holds:
  assumes "hash_holds tab xs" "hash_items xs = us @ i # vs"
  shows "hash_next tab (Some i) = (Some i, first_of vs)"
  by (rule hash_items_split [OF assms(2)]) (use next_cursor_holds [OF assms(1)] in \<open>simp add: hash_next_def\<close>)

lemma distinct_items:
  assumes "hash_holds tab xs"
  shows "distinct (hash_items xs)"
proof -
  have "distinct (concat (map xs [0..<n]))" if "n \<le> HASHTAB_SIZE" for n
    using that
  proof (induction n)
    case (Suc n)
    have "x \<notin> set (xs n)" if "c < n" "x \<in> set (xs c)" for c x
      using holds_bucket [OF assms, of n x] holds_bucket [OF assms, of c x] that Suc.prems by fastforce
    then have "(\<Union>a \<in> {0..<n}. set (xs a)) \<inter> set (xs n) = {}" by fastforce
    then show ?case using Suc holds_in(3) [OF assms, of n] by simp
  qed simp
  then show ?thesis by (simp add: hash_items_def)
qed

end
