(* ===== verification/Event_Signals.thy ===== *)
theory Event_Signals
  imports Event_Props Hash_Table
begin

text \<open>
  Signals and child processes in the event loop (\<open>rg/pkg/pppoe-server/src/libevent/event_sig.c\<close>). The
  asynchronous handler marks a signal and writes a byte to a pipe; the selector watches the pipe, and
  its callback \<open>DoPipe\<close> runs the handlers of the marked signals. The state of the file is a record that
  the program may extend; it is the world of the selector. Signals can arrive while \<open>DoPipe\<close> runs: they
  are arguments, for each of its points. \<open>sig_calls\<close> records the calls of signal handlers.
\<close>

section \<open>State\<close>

text \<open>\<open>_NSIG\<close> and \<open>SIGCHLD\<close> as in \<open>bits/signum.h\<close> of the C library.\<close>

definition MAX_SIGNALS :: nat where "MAX_SIGNALS = 64"
definition SIGCHLD :: nat where "SIGCHLD = 17"

record 'c child_entry =
  ce_handler :: "'c option"
  ce_pid :: int
  ce_data :: nat

text \<open>
  \<open>Pipe_bytes\<close> is what the pipe holds. The entries of \<open>child_process_table\<close> are addresses; those that
  are not freed are in \<open>child_live\<close>. \<open>zombies\<close> are the ended processes that \<open>waitpid\<close> has not returned.
\<close>

record ('h, 'c) signals =
  fired :: "nat \<Rightarrow> bool"
  sig_func :: "nat \<Rightarrow> 'h option"
  Pipe :: "int \<times> int"
  Pipe_bytes :: "u8 list"
  PipeHandler :: "nat option"
  PipeFull :: bool
  child_process_table :: hash_table
  child_mem :: "nat \<Rightarrow> 'c child_entry"
  child_live :: "nat set"
  zombies :: "(int \<times> int) list"
  sig_calls :: "nat list"

section \<open>The table of children\<close>

definition child_hash :: "'c child_entry \<Rightarrow> u32" where
  "child_hash e = word_of_int (ce_pid e)"

definition child_compare :: "'c child_entry \<Rightarrow> 'c child_entry \<Rightarrow> int" where
  "child_compare e1 e2 = (if ce_pid e1 \<noteq> ce_pid e2 then 1 else 0)"

text \<open>The table with what its two functions find in the memory.\<close>

definition child_table :: "('h, 'c, 'z) signals_scheme \<Rightarrow> hash_table" where
  "child_table w = (child_process_table w)\<lparr>compute_hash := (\<lambda>i. child_hash (child_mem w i)),
     hash_compare := (\<lambda>i j. child_compare (child_mem w i) (child_mem w j))\<rparr>"

text \<open>The candidate is a local variable; its address is 0 here, which \<open>malloc\<close> does not return.\<close>

definition child_find :: "int \<Rightarrow> ('h, 'c, 'z) signals_scheme \<Rightarrow> nat option option" where
  "child_find pid w =
     (let candidate = \<lparr>ce_handler = None, ce_pid = pid, ce_data = 0\<rparr> in
      hash_find (child_table (w\<lparr>child_mem := (child_mem w)(0 := candidate)\<rparr>)) 0)"

definition child_insert :: "nat \<Rightarrow> 'c child_entry \<Rightarrow> ('h, 'c, 'z) signals_scheme \<Rightarrow> ('h, 'c, 'z) signals_scheme" where
  "child_insert a e w =
     (let w = w\<lparr>child_mem := (child_mem w)(a := e), child_live := insert a (child_live w)\<rparr>
      in w\<lparr>child_process_table := hash_insert a (child_table w)\<rparr>)"

definition child_remove :: "nat \<Rightarrow> ('h, 'c, 'z) signals_scheme \<Rightarrow> ('h, 'c, 'z) signals_scheme" where
  "child_remove a w = w\<lparr>child_process_table := hash_remove a (child_table w), child_live := child_live w - {a}\<rparr>"

section \<open>Arrival of signals\<close>

text \<open>
  The number 64 passes the check, but the array has no such element. The byte that is written is the
  first one of the number, which a big-endian machine stores as 0; nothing looks at it.
\<close>

definition sig_handler :: "nat \<Rightarrow> ('h, 'c, 'z) signals_scheme \<Rightarrow> ('h, 'c, 'z) signals_scheme option" where
  "sig_handler sig w =
     (if sig > MAX_SIGNALS then Some w
      else if sig = MAX_SIGNALS then None
      else
        let w = w\<lparr>fired := (fired w)(sig := True)\<rparr> in
        Some (if \<not> PipeFull w then w\<lparr>Pipe_bytes := Pipe_bytes w @ [word_of_nat sig], PipeFull := True\<rparr> else w))"

datatype arrival = Signal nat | Child_exit int int

fun arrive :: "arrival \<Rightarrow> ('h, 'c, 'z) signals_scheme \<Rightarrow> ('h, 'c, 'z) signals_scheme option" where
  "arrive (Signal sig) w = sig_handler sig w"
| "arrive (Child_exit pid status) w = sig_handler SIGCHLD (w\<lparr>zombies := zombies w @ [(pid, status)]\<rparr>)"

fun arrivals :: "arrival list \<Rightarrow> ('h, 'c, 'z) signals_scheme \<Rightarrow> ('h, 'c, 'z) signals_scheme option" where
  "arrivals [] w = Some w"
| "arrivals (x # xs) w = Option.bind (arrive x w) (arrivals xs)"

section \<open>DoPipe\<close>

type_synonym 'w result = "('w, 'w) ctl"

text \<open>What arrives between the read and \<open>PipeFull = 0\<close>, between the test and the reset of a signal, after its reset.\<close>

record irq =
  irq_read :: "arrival list"
  irq_call :: "nat \<Rightarrow> arrival list"
  irq_gap :: "nat \<Rightarrow> arrival list"

definition call_signal ::
  "('h \<Rightarrow> nat \<Rightarrow> ('h, 'c, 'z) signals_scheme \<Rightarrow> ('h, 'c, 'z) signals_scheme result option) \<Rightarrow> nat \<Rightarrow>
   ('h, 'c, 'z) signals_scheme \<Rightarrow> ('h, 'c, 'z) signals_scheme result option" where
  "call_signal run i w =
     (if fired w i then
        (case sig_func w i of None \<Rightarrow> Some (Cont w) | Some h \<Rightarrow> run h i (w\<lparr>sig_calls := sig_calls w @ [i]\<rparr>))
      else Some (Cont w))"

fun fire ::
  "('h \<Rightarrow> nat \<Rightarrow> ('h, 'c, 'z) signals_scheme \<Rightarrow> ('h, 'c, 'z) signals_scheme result option) \<Rightarrow> irq \<Rightarrow> nat list \<Rightarrow>
   ('h, 'c, 'z) signals_scheme \<Rightarrow> ('h, 'c, 'z) signals_scheme result option" where
  "fire run q [] w = Some (Cont w)"
| "fire run q (i # is) w =
     Option.bind (call_signal run i w) (\<lambda>r.
       case r of
         Exit w \<Rightarrow> Some (Exit w)
       | Cont w \<Rightarrow>
           Option.bind (arrivals (irq_call q i) w) (\<lambda>w.
           Option.bind (arrivals (irq_gap q i) (w\<lparr>fired := (fired w)(i := False)\<rparr>)) (fire run q is)))"

text \<open>The read waits when the pipe is empty.\<close>

definition DoPipe ::
  "('h \<Rightarrow> nat \<Rightarrow> ('h, 'c, 'z) signals_scheme \<Rightarrow> ('h, 'c, 'z) signals_scheme result option) \<Rightarrow> irq \<Rightarrow>
   ('h, 'c, 'z) signals_scheme \<Rightarrow> ('h, 'c, 'z) signals_scheme result option" where
  "DoPipe run q w =
     (if Pipe_bytes w = [] then None
      else
        Option.bind (arrivals (irq_read q) (w\<lparr>Pipe_bytes := drop 64 (Pipe_bytes w)\<rparr>)) (\<lambda>w.
          fire run q [0..<MAX_SIGNALS] (w\<lparr>PipeFull := False\<rparr>)))"

section \<open>Reaping children\<close>

partial_function (option) child_handler ::
  "('c \<Rightarrow> int \<Rightarrow> int \<Rightarrow> nat \<Rightarrow> ('h, 'c, 'z) signals_scheme \<Rightarrow> ('h, 'c, 'z) signals_scheme result option) \<Rightarrow>
   ('h, 'c, 'z) signals_scheme \<Rightarrow> ('h, 'c, 'z) signals_scheme result option" where
  "child_handler run w =
     (case zombies w of
        [] \<Rightarrow> Some (Cont w)
      | (pid, status) # zs \<Rightarrow>
          if pid \<le> 0 then Some (Cont w)
          else
            Option.bind (child_find pid (w\<lparr>zombies := zs\<rparr>)) (\<lambda>ce.
              case ce of
                None \<Rightarrow> child_handler run (w\<lparr>zombies := zs\<rparr>)
              | Some a \<Rightarrow>
                  Option.bind (case ce_handler (child_mem w a) of
                      None \<Rightarrow> Some (Cont (w\<lparr>zombies := zs\<rparr>))
                    | Some h \<Rightarrow> run h pid status (ce_data (child_mem w a)) (w\<lparr>zombies := zs\<rparr>)) (\<lambda>r.
                    case r of
                      Exit w \<Rightarrow> Some (Exit w)
                    | Cont w \<Rightarrow> child_handler run (child_remove a w))))"

declare child_handler.simps [code]

section \<open>Registration\<close>

text \<open>The callback \<open>DoPipe\<close>, its data NULL, and \<open>child_handler\<close>, as values of the program's types.\<close>

record ('f, 'd, 'h) event_lib =
  lib_DoPipe :: 'f
  lib_null :: 'd
  lib_child_handler :: 'h

text \<open>What the system returns: \<open>malloc\<close> for a handler and for an entry, \<open>pipe\<close>, and whether \<open>sigaction\<close> succeeds.\<close>

record system =
  sys_handler :: "nat option"
  sys_entry :: "nat option"
  sys_pipe :: "(int \<times> int) option"
  sys_sigaction :: bool

definition upd_world :: "('w \<Rightarrow> 'w) \<Rightarrow> ('f, 'd, 'w) selector \<Rightarrow> ('f, 'd, 'w) selector" where
  "upd_world g es = es\<lparr>es_world := g (es_world es)\<rparr>"

text \<open>\<open>hash_init\<close> sets the functions too, which \<open>child_table\<close> supplies.\<close>

definition SetupPipes ::
  "('f, 'd, 'h) event_lib \<Rightarrow> system \<Rightarrow> ('f, 'd, ('h, 'c, 'z) signals_scheme) selector \<Rightarrow>
   int \<times> ('f, 'd, ('h, 'c, 'z) signals_scheme) selector" where
  "SetupPipes lib sys es =
     (if PipeHandler (es_world es) \<noteq> None then (0, es)
      else
        let es = upd_world (\<lambda>w. w\<lparr>child_process_table :=
              hash_init (compute_hash (child_table w)) (hash_compare (child_table w)) (child_process_table w)\<rparr>) es in
        case sys_pipe sys of
          None \<Rightarrow> (- 1, es)
        | Some (r, w) \<Rightarrow>
            let es = upd_world (\<lambda>v. v\<lparr>Pipe := (r, w), Pipe_bytes := []\<rparr>) es;
                (h, es) = Event_AddHandler (sys_handler sys) r EVENT_FLAG_READABLE (lib_DoPipe lib) (lib_null lib) es;
                es = upd_world (\<lambda>v. v\<lparr>PipeHandler := h\<rparr>) es
            in if h = None then (- 1, es) else (0, es))"

definition Event_HandleSignal ::
  "('f, 'd, 'h) event_lib \<Rightarrow> system \<Rightarrow> nat \<Rightarrow> 'h \<Rightarrow> ('f, 'd, ('h, 'c, 'z) signals_scheme) selector \<Rightarrow>
   (int \<times> ('f, 'd, ('h, 'c, 'z) signals_scheme) selector) option" where
  "Event_HandleSignal lib sys sig handler es =
     (case SetupPipes lib sys es of (r, es) \<Rightarrow>
        if r < 0 then Some (- 1, es)
        else if \<not> sys_sigaction sys then Some (- 1, es)
        else if sig \<ge> MAX_SIGNALS then None
        else Some (0, upd_world (\<lambda>w. w\<lparr>sig_func := (sig_func w)(sig \<mapsto> handler)\<rparr>) es))"

definition Event_HandleChildExit ::
  "('f, 'd, 'h) event_lib \<Rightarrow> system \<Rightarrow> int \<Rightarrow> 'c option \<Rightarrow> nat \<Rightarrow> ('f, 'd, ('h, 'c, 'z) signals_scheme) selector \<Rightarrow>
   (int \<times> ('f, 'd, ('h, 'c, 'z) signals_scheme) selector) option" where
  "Event_HandleChildExit lib sys pid handler data es =
     Option.bind (Event_HandleSignal lib sys SIGCHLD (lib_child_handler lib) es) (\<lambda>(r, es).
       if r < 0 then Some (- 1, es)
       else
         (case sys_entry sys of
            None \<Rightarrow> Some (- 1, es)
          | Some a \<Rightarrow> Some (0, upd_world (child_insert a \<lparr>ce_handler = handler, ce_pid = pid, ce_data = data\<rparr>) es)))"

end
