(* ===== verification/Event_Sig_Props.thy ===== *)
theory Event_Sig_Props
  imports Event_Signals
begin

text \<open>
  Which signals a call of \<open>DoPipe\<close> handles, which stay marked for the next one, and what
  \<open>child_handler\<close> does with the ended children.
\<close>

section \<open>Arrivals\<close>

fun sig_of :: "arrival \<Rightarrow> nat" where
  "sig_of (Signal s) = s"
| "sig_of (Child_exit p st) = SIGCHLD"

fun exit_of :: "arrival \<Rightarrow> (int \<times> int) list" where
  "exit_of (Signal s) = []"
| "exit_of (Child_exit p st) = [(p, st)]"

abbreviation "sigs xs \<equiv> sig_of ` set xs"
abbreviation "exits xs \<equiv> concat (map exit_of xs)"

text \<open>What handlers and arrivals leave alone.\<close>

definition same_children :: "('h, 'c, 'z) signals_scheme \<Rightarrow> ('h, 'c, 'z) signals_scheme \<Rightarrow> bool" where
  "same_children w w' \<longleftrightarrow> child_process_table w' = child_process_table w \<and> child_mem w' = child_mem w \<and>
     child_live w' = child_live w \<and> sig_func w' = sig_func w \<and> PipeHandler w' = PipeHandler w \<and> Pipe w' = Pipe w \<and>
     signals.more w' = signals.more w"

definition steady :: "('h, 'c, 'z) signals_scheme \<Rightarrow> ('h, 'c, 'z) signals_scheme \<Rightarrow> bool" where
  "steady w w' \<longleftrightarrow> fired w' = fired w \<and> sig_func w' = sig_func w \<and> Pipe_bytes w' = Pipe_bytes w \<and> PipeFull w' = PipeFull w \<and>
     sig_calls w' = sig_calls w"

text \<open>A byte is in the pipe exactly when \<open>PipeFull\<close> says so.\<close>

definition pipe_ok :: "('h, 'c, 'z) signals_scheme \<Rightarrow> bool" where
  "pipe_ok w \<longleftrightarrow> (PipeFull w \<longleftrightarrow> Pipe_bytes w \<noteq> []) \<and> length (Pipe_bytes w) \<le> 1"

lemma arrive_spec:
  assumes "sig_of x < MAX_SIGNALS"
  shows "\<exists>b. arrive x w = Some (w\<lparr>fired := (fired w)(sig_of x := True), Pipe_bytes := (if PipeFull w then Pipe_bytes w else Pipe_bytes w @ [b]),
    PipeFull := True, zombies := zombies w @ exit_of x\<rparr>)"
  using assms by (cases x) (auto simp: sig_handler_def intro!: exI [of _ "word_of_nat (sig_of x)"])

lemma arrivals_spec:
  assumes "\<forall>s \<in> sigs xs. s < MAX_SIGNALS"
  obtains bs where "arrivals xs w = Some (w\<lparr>fired := (\<lambda>i. fired w i \<or> i \<in> sigs xs), Pipe_bytes := Pipe_bytes w @ bs,
      PipeFull := PipeFull w \<or> xs \<noteq> [], zombies := zombies w @ exits xs\<rparr>)"
    "length bs = (if PipeFull w \<or> xs = [] then 0 else 1)"
  using assms
proof (induction xs arbitrary: w thesis)
  case Nil
  then show ?case by (auto intro: Nil(1) [of "[]"])
next
  case (Cons x xs)
  obtain b where b: "arrive x w = Some (w\<lparr>fired := (fired w)(sig_of x := True), Pipe_bytes := (if PipeFull w then Pipe_bytes w else Pipe_bytes w @ [b]),
    PipeFull := True, zombies := zombies w @ exit_of x\<rparr>)" (is "_ = Some ?w")
    using arrive_spec [of x w] Cons.prems(2) by auto
  obtain bs where bs: "arrivals xs ?w = Some (?w\<lparr>fired := (\<lambda>i. fired ?w i \<or> i \<in> sigs xs), Pipe_bytes := Pipe_bytes ?w @ bs,
      PipeFull := PipeFull ?w \<or> xs \<noteq> [], zombies := zombies ?w @ exits xs\<rparr>)" "length bs = (if PipeFull ?w \<or> xs = [] then 0 else 1)"
    using Cons.IH [of ?w] Cons.prems(2) by auto
  have "bs = []" using bs(2) by simp
  moreover have "(\<lambda>i. fired ?w i \<or> i \<in> sigs xs) = (\<lambda>i. fired w i \<or> i \<in> sigs (x # xs))" by auto
  ultimately show ?case using b bs(1) Cons.prems(1) [of "if PipeFull w then [] else [b]"] by (simp split: if_splits)
qed

section \<open>Walks over signals\<close>

lemma upt_at: "k < n \<Longrightarrow> [0..<n] = [0..<k] @ k # [Suc k..<n]"
proof -
  assume k: "k < n"
  then have "[0..<k + (n - k)] = [0..<k] @ [k..<k + (n - k)]" by (intro upt_add_eq_append) simp
  moreover have "[k..<n] = k # [Suc k..<n]" by (rule upt_conv_Cons [OF k])
  ultimately show ?thesis using k by simp
qed

lemma fire_append:
  "fire run q (xs @ ys) w = Option.bind (fire run q xs w) (\<lambda>r. case r of Exit w \<Rightarrow> Some (Exit w) | Cont w \<Rightarrow> fire run q ys w)"
proof (induction xs arbitrary: w)
  case (Cons x xs)
  then show ?case by (simp split: Option.bind_split ctl.split)
qed simp

lemma fire_idle:
  assumes "\<forall>i \<in> set xs. \<not> fired w i \<and> irq_call q i = [] \<and> irq_gap q i = []"
  shows "fire run q xs w = Some (Cont w)"
  using assms
proof (induction xs)
  case (Cons i xs)
  have "(fired w)(i := False) = fired w" using Cons.prems by (auto simp: fun_eq_iff)
  then have "w\<lparr>fired := (fired w)(i := False)\<rparr> = w" by simp
  then show ?case using Cons by (simp add: call_signal_def)
qed simp

section \<open>The handlers of a program\<close>

text \<open>
  A walk of \<open>fire\<close> over the signals from \<open>k\<close> to \<open>n\<close>: \<open>raised q j i\<close> says that the signal \<open>i\<close> arrived in
  the windows of \<open>j\<close>.
\<close>

definition raised :: "irq \<Rightarrow> nat \<Rightarrow> nat \<Rightarrow> bool" where
  "raised q j i \<longleftrightarrow> i \<in> sigs (irq_call q j) \<or> i \<in> sigs (irq_gap q j)"

definition handled :: "irq \<Rightarrow> nat \<Rightarrow> nat \<Rightarrow> ('h, 'c, 'z) signals_scheme \<Rightarrow> nat list" where
  "handled q k n w = filter (\<lambda>i. sig_func w i \<noteq> None \<and> (fired w i \<or> (\<exists>j \<in> {k..<i}. raised q j i))) [k..<n]"

definition marked :: "irq \<Rightarrow> nat \<Rightarrow> nat \<Rightarrow> ('h, 'c, 'z) signals_scheme \<Rightarrow> nat \<Rightarrow> bool" where
  "marked q k n w i \<longleftrightarrow>
     (if i \<in> {k..<n} then i \<in> sigs (irq_gap q i) \<or> (\<exists>j \<in> {i<..<n}. raised q j i)
      else fired w i \<or> (\<exists>j \<in> {k..<n}. raised q j i))"

definition passed :: "irq \<Rightarrow> nat \<Rightarrow> nat \<Rightarrow> ('h, 'c, 'z) signals_scheme \<Rightarrow> ('h, 'c, 'z) signals_scheme \<Rightarrow> bool" where
  "passed q k n w w' \<longleftrightarrow> pipe_ok w' \<and> sig_func w' = sig_func w \<and>
     (PipeFull w' \<longleftrightarrow> PipeFull w \<or> (\<exists>j \<in> {k..<n}. irq_call q j \<noteq> [] \<or> irq_gap q j \<noteq> [])) \<and>
     sig_calls w' = sig_calls w @ handled q k n w \<and> (\<forall>i. fired w' i \<longleftrightarrow> marked q k n w i)"

lemma passed_step:
  assumes k: "k < n" and w: "passed q (Suc k) n w3 w'" "sig_func w3 = sig_func w"
    "PipeFull w3 \<longleftrightarrow> PipeFull w \<or> irq_call q k \<noteq> [] \<or> irq_gap q k \<noteq> []"
    "sig_calls w3 = sig_calls w @ (if fired w k \<and> sig_func w k \<noteq> None then [k] else [])"
    "\<And>i. fired w3 i \<longleftrightarrow> (i \<noteq> k \<and> (fired w i \<or> i \<in> sigs (irq_call q k))) \<or> i \<in> sigs (irq_gap q k)"
  shows "passed q k n w w'"
proof -
  have range: "(\<exists>j \<in> {k..<n}. Q j) \<longleftrightarrow> Q k \<or> (\<exists>j \<in> {Suc k..<n}. Q j)" for Q
  proof -
    have "{k..<n} = insert k {Suc k..<n}" using k by auto
    then show ?thesis by simp
  qed
  have before: "(fired w3 i \<or> (\<exists>j \<in> {Suc k..<i}. raised q j i)) \<longleftrightarrow> (fired w i \<or> (\<exists>j \<in> {k..<i}. raised q j i))" if "k < i" for i
  proof -
    have "{k..<i} = insert k {Suc k..<i}" using that by auto
    then have "(\<exists>j \<in> {k..<i}. raised q j i) \<longleftrightarrow> raised q k i \<or> (\<exists>j \<in> {Suc k..<i}. raised q j i)" by simp
    then show ?thesis using w(5) [of i] that by (auto simp: raised_def)
  qed
  have "handled q k n w = (if fired w k \<and> sig_func w k \<noteq> None then [k] else []) @ handled q (Suc k) n w3"
  proof -
    have "filter (\<lambda>i. sig_func w i \<noteq> None \<and> (fired w i \<or> (\<exists>j \<in> {k..<i}. raised q j i))) [Suc k..<n] = handled q (Suc k) n w3"
      unfolding handled_def w(2) by (rule filter_cong [OF refl]) (use before in auto)
    then show ?thesis using k by (auto simp: handled_def upt_conv_Cons)
  qed
  note calls = this
  have marks: "marked q (Suc k) n w3 i = marked q k n w i" for i
  proof (cases "i \<in> {Suc k..<n}")
    case out: False
    then have m: "marked q (Suc k) n w3 i \<longleftrightarrow> fired w3 i \<or> (\<exists>j \<in> {Suc k..<n}. raised q j i)" by (simp only: marked_def if_False)
    show ?thesis
    proof (cases "i = k")
      case True
      have "{k<..<n} = {Suc k..<n}" by auto
      moreover have "k \<in> {k..<n}" using k by simp
      ultimately have "marked q k n w i \<longleftrightarrow> i \<in> sigs (irq_gap q k) \<or> (\<exists>j \<in> {Suc k..<n}. raised q j i)"
        unfolding True by (simp only: marked_def if_True)
      then show ?thesis using m w(5) [of i] True by blast
    next
      case False
      then have "i \<notin> {k..<n}" using out by auto
      then have "marked q k n w i \<longleftrightarrow> fired w i \<or> raised q k i \<or> (\<exists>j \<in> {Suc k..<n}. raised q j i)"
        by (simp only: marked_def if_False range [of "\<lambda>j. raised q j i"])
      then show ?thesis using m w(5) [of i] False unfolding raised_def by blast
    qed
  qed (simp add: marked_def)
  have p: "pipe_ok w'" "sig_func w' = sig_func w3"
    "PipeFull w' \<longleftrightarrow> PipeFull w3 \<or> (\<exists>j \<in> {Suc k..<n}. irq_call q j \<noteq> [] \<or> irq_gap q j \<noteq> [])"
    "sig_calls w' = sig_calls w3 @ handled q (Suc k) n w3" "\<forall>i. fired w' i \<longleftrightarrow> marked q (Suc k) n w3 i"
    using w(1) unfolding passed_def by blast+
  have "PipeFull w' \<longleftrightarrow> PipeFull w \<or> (\<exists>j \<in> {k..<n}. irq_call q j \<noteq> [] \<or> irq_gap q j \<noteq> [])"
    unfolding range p(3) w(3) by blast
  moreover have "sig_calls w' = sig_calls w @ handled q k n w" unfolding p(4) w(4) calls by simp
  moreover have "sig_func w' = sig_func w" using p(2) w(2) by simp
  moreover have "\<forall>i. fired w' i \<longleftrightarrow> marked q k n w i" using p(5) marks by simp
  ultimately show ?thesis unfolding passed_def using p(1) by blast
qed

text \<open>
  \<open>P\<close> is what the handlers rely on, \<open>T\<close> relates the states before and after one of them, \<open>X\<close> holds when
  the program ends. They do not depend on the marks of the signals.
\<close>

definition remark :: "('h, 'c, 'z) signals_scheme \<Rightarrow> (nat \<Rightarrow> bool) \<Rightarrow> u8 list \<Rightarrow> bool \<Rightarrow> nat list \<Rightarrow> (int \<times> int) list \<Rightarrow> ('h, 'c, 'z) signals_scheme" where
  "remark w f b p c z = w\<lparr>fired := f, Pipe_bytes := b, PipeFull := p, sig_calls := c, zombies := zombies w @ z\<rparr>"

locale signal_handlers =
  fixes run :: "'h \<Rightarrow> nat \<Rightarrow> ('h, 'c, 'z) signals_scheme \<Rightarrow> ('h, 'c, 'z) signals_scheme result option"
    and P :: "('h, 'c, 'z) signals_scheme \<Rightarrow> bool"
    and T :: "('h, 'c, 'z) signals_scheme \<Rightarrow> ('h, 'c, 'z) signals_scheme \<Rightarrow> bool"
    and X :: "('h, 'c, 'z) signals_scheme \<Rightarrow> bool"
    and A :: "arrival \<Rightarrow> bool"
  assumes run_ok: "P w \<Longrightarrow> sig_func w i = Some h \<Longrightarrow> \<exists>r. run h i w = Some r \<and>
      (case r of Cont w' \<Rightarrow> P w' \<and> steady w w' \<and> T\<^sup>*\<^sup>* w w' | Exit w' \<Rightarrow> T\<^sup>*\<^sup>* w w' \<and> X w')"
    and remark_ok: "P w \<Longrightarrow> \<forall>x \<in> set xs. A x \<Longrightarrow> P (remark w f b p c (exits xs)) \<and> T\<^sup>*\<^sup>* w (remark w f b p c (exits xs))"
    and arrival_ok: "A x \<Longrightarrow> sig_of x < MAX_SIGNALS"
begin

lemma arrivals_run:
  assumes "P w" "\<forall>x \<in> set xs. A x"
  obtains w' where "arrivals xs w = Some w'" "P w'" "T\<^sup>*\<^sup>* w w'" "\<And>i. fired w' i \<longleftrightarrow> fired w i \<or> i \<in> sigs xs"
    "PipeFull w' \<longleftrightarrow> PipeFull w \<or> xs \<noteq> []" "pipe_ok w \<Longrightarrow> pipe_ok w'" "sig_calls w' = sig_calls w" "sig_func w' = sig_func w"
proof -
  have "\<forall>s \<in> sigs xs. s < MAX_SIGNALS" using assms(2) arrival_ok by blast
  then obtain bs where bs: "arrivals xs w = Some (w\<lparr>fired := (\<lambda>i. fired w i \<or> i \<in> sigs xs), Pipe_bytes := Pipe_bytes w @ bs,
      PipeFull := PipeFull w \<or> xs \<noteq> [], zombies := zombies w @ exits xs\<rparr>)" (is "_ = Some ?w")
    "length bs = (if PipeFull w \<or> xs = [] then 0 else 1)" by (rule arrivals_spec)
  have w: "?w = remark w (\<lambda>i. fired w i \<or> i \<in> sigs xs) (Pipe_bytes w @ bs) (PipeFull w \<or> xs \<noteq> []) (sig_calls w) (exits xs)"
    by (simp add: remark_def)
  have "P ?w" "T\<^sup>*\<^sup>* w ?w" unfolding w using remark_ok [OF assms] by simp_all
  moreover have "pipe_ok w \<Longrightarrow> pipe_ok ?w" using bs(2) by (auto simp: pipe_ok_def split: if_splits)
  ultimately show thesis using that [OF bs(1)] by simp
qed

lemma call_run:
  assumes "P w"
  obtains w' where "call_signal run i w = Some (Cont w')" "P w'" "T\<^sup>*\<^sup>* w w'" "fired w' = fired w" "Pipe_bytes w' = Pipe_bytes w"
      "PipeFull w' = PipeFull w" "sig_func w' = sig_func w"
      "sig_calls w' = sig_calls w @ (if fired w i \<and> sig_func w i \<noteq> None then [i] else [])"
    | w' where "call_signal run i w = Some (Exit w')" "T\<^sup>*\<^sup>* w w'" "X w'"
proof (cases "fired w i \<and> sig_func w i \<noteq> None")
  case True
  then obtain h where h: "sig_func w i = Some h" by auto
  let ?w = "w\<lparr>sig_calls := sig_calls w @ [i]\<rparr>"
  have w: "?w = remark w (fired w) (Pipe_bytes w) (PipeFull w) (sig_calls w @ [i]) (exits [])" by (simp add: remark_def)
  have "P ?w \<and> T\<^sup>*\<^sup>* w ?w" unfolding w by (rule remark_ok [OF assms]) simp
  then have P: "P ?w" "T\<^sup>*\<^sup>* w ?w" by simp_all
  obtain r where r: "run h i ?w = Some r"
    "case r of Cont w' \<Rightarrow> P w' \<and> steady ?w w' \<and> T\<^sup>*\<^sup>* ?w w' | Exit w' \<Rightarrow> T\<^sup>*\<^sup>* ?w w' \<and> X w'"
    using run_ok [OF P(1), of i h] h by auto
  have c: "call_signal run i w = Some r" using r(1) True h by (simp add: call_signal_def)
  show thesis
  proof (cases r)
    case (Cont w')
    then have "T\<^sup>*\<^sup>* w w'" using r(2) P(2) by (auto intro: rtranclp_trans)
    then show thesis using that(1) [of w'] c r(2) Cont True by (simp add: steady_def)
  next
    case (Exit w')
    then have "T\<^sup>*\<^sup>* w w'" using r(2) P(2) by (auto intro: rtranclp_trans)
    then show thesis using that(2) [of w'] c r(2) Exit by simp
  qed
next
  case False
  then have "call_signal run i w = Some (Cont w)" by (auto simp: call_signal_def split: option.split)
  then show thesis using that(1) [of w] assms False by auto
qed

lemma fire_run:
  assumes "P w" "pipe_ok w" "\<forall>j. \<forall>x \<in> set (irq_call q j) \<union> set (irq_gap q j). A x"
  shows "\<exists>r. fire run q [k..<n] w = Some r \<and> (case r of
      Exit w' \<Rightarrow> T\<^sup>*\<^sup>* w w' \<and> X w' | Cont w' \<Rightarrow> P w' \<and> T\<^sup>*\<^sup>* w w' \<and> passed q k n w w')"
  using assms(1,2)
proof (induction "n - k" arbitrary: k w)
  case 0
  then show ?case by (simp add: passed_def handled_def marked_def)
next
  case (Suc m)
  then have kn: "k < n" "[k..<n] = k # [Suc k..<n]" by (simp_all add: upt_conv_Cons)
  have A: "\<forall>x \<in> set (irq_call q j). A x" "\<forall>x \<in> set (irq_gap q j). A x" for j using assms(3) by auto
  show ?case
  proof (cases rule: call_run [OF Suc.prems(1), of k])
    case (2 w1)
    then show ?thesis by (simp add: kn)
  next
    case (1 w1)
    obtain w2 where w2: "arrivals (irq_call q k) w1 = Some w2" "P w2" "T\<^sup>*\<^sup>* w1 w2" "\<And>i. fired w2 i \<longleftrightarrow> fired w1 i \<or> i \<in> sigs (irq_call q k)"
      "PipeFull w2 \<longleftrightarrow> PipeFull w1 \<or> irq_call q k \<noteq> []" "pipe_ok w1 \<Longrightarrow> pipe_ok w2" "sig_calls w2 = sig_calls w1" "sig_func w2 = sig_func w1"
      by (rule arrivals_run [OF 1(2) A(1)]) blast
    let ?w2 = "w2\<lparr>fired := (fired w2)(k := False)\<rparr>"
    have "?w2 = remark w2 ((fired w2)(k := False)) (Pipe_bytes w2) (PipeFull w2) (sig_calls w2) (exits [])" by (simp add: remark_def)
    then have P2: "P ?w2" "T\<^sup>*\<^sup>* w2 ?w2" using remark_ok [OF w2(2), of "[]"] by simp_all
    obtain w3 where w3: "arrivals (irq_gap q k) ?w2 = Some w3" "P w3" "T\<^sup>*\<^sup>* ?w2 w3" "\<And>i. fired w3 i \<longleftrightarrow> fired ?w2 i \<or> i \<in> sigs (irq_gap q k)"
      "PipeFull w3 \<longleftrightarrow> PipeFull ?w2 \<or> irq_gap q k \<noteq> []" "pipe_ok ?w2 \<Longrightarrow> pipe_ok w3" "sig_calls w3 = sig_calls ?w2" "sig_func w3 = sig_func ?w2"
      by (rule arrivals_run [OF P2(1) A(2)]) blast
    have ok: "pipe_ok w3" using w3(6) w2(6) 1 Suc.prems(2) by (simp add: pipe_ok_def)
    have T3: "T\<^sup>*\<^sup>* w w3" using 1(3) w2(3) P2(2) w3(3) by (meson rtranclp_trans)
    have run: "fire run q [k..<n] w = fire run q [Suc k..<n] w3" using 1(1) w2(1) w3(1) by (simp add: kn)
    have m: "m = n - Suc k" using Suc.hyps(2) by simp
    obtain r where r: "fire run q [Suc k..<n] w3 = Some r" "case r of
      Exit w' \<Rightarrow> T\<^sup>*\<^sup>* w3 w' \<and> X w' | Cont w' \<Rightarrow> P w' \<and> T\<^sup>*\<^sup>* w3 w' \<and> passed q (Suc k) n w3 w'"
      using Suc.hyps(1) [OF m w3(2) ok] by blast
    have step: "passed q k n w w'" if "passed q (Suc k) n w3 w'" for w'
      by (rule passed_step [OF kn(1) that]) (use w3(4,5,7,8) w2(4,5,7,8) 1(4,6-8) in auto)
    show ?thesis
    proof (cases r)
      case (Cont w')
      then show ?thesis using run r T3 step by (auto intro: rtranclp_trans)
    next
      case (Exit w')
      then show ?thesis using run r T3 by (auto intro: rtranclp_trans)
    qed
  qed
qed

lemma DoPipe_start:
  assumes "P w" "pipe_ok w" "PipeFull w" "\<forall>x \<in> set (irq_read q). A x"
  shows "\<exists>w1. P w1 \<and> T\<^sup>*\<^sup>* w w1 \<and> pipe_ok w1 \<and> fired w1 = (\<lambda>i. fired w i \<or> i \<in> sigs (irq_read q)) \<and> sig_func w1 = sig_func w \<and>
    sig_calls w1 = sig_calls w \<and> \<not> PipeFull w1 \<and> DoPipe run q w = fire run q [0..<MAX_SIGNALS] w1"
proof -
  have ne: "Pipe_bytes w \<noteq> []" "drop 64 (Pipe_bytes w) = []" using assms(2,3) by (auto simp: pipe_ok_def)
  let ?w0 = "w\<lparr>Pipe_bytes := []\<rparr>"
  have w0: "?w0 = remark w (fired w) [] (PipeFull w) (sig_calls w) (exits [])" by (simp add: remark_def)
  have "P ?w0 \<and> T\<^sup>*\<^sup>* w ?w0" unfolding w0 by (rule remark_ok [OF assms(1)]) simp
  then have P0: "P ?w0" "T\<^sup>*\<^sup>* w ?w0" by simp_all
  have "\<forall>s \<in> sigs (irq_read q). s < MAX_SIGNALS" using assms(4) arrival_ok by blast
  then obtain bs where bs: "arrivals (irq_read q) ?w0 = Some (?w0\<lparr>fired := (\<lambda>i. fired ?w0 i \<or> i \<in> sigs (irq_read q)), Pipe_bytes := Pipe_bytes ?w0 @ bs,
      PipeFull := PipeFull ?w0 \<or> irq_read q \<noteq> [], zombies := zombies ?w0 @ exits (irq_read q)\<rparr>)"
    "length bs = (if PipeFull ?w0 \<or> irq_read q = [] then 0 else 1)" by (rule arrivals_spec)
  define w1 where "w1 = remark ?w0 (\<lambda>i. fired w i \<or> i \<in> sigs (irq_read q)) [] False (sig_calls w) (exits (irq_read q))"
  have "P w1 \<and> T\<^sup>*\<^sup>* ?w0 w1" unfolding w1_def by (rule remark_ok [OF P0(1) assms(4)])
  then have P1: "P w1" "T\<^sup>*\<^sup>* w w1" using P0(2) by (auto intro: rtranclp_trans)
  have f: "pipe_ok w1" "fired w1 = (\<lambda>i. fired w i \<or> i \<in> sigs (irq_read q))" "sig_func w1 = sig_func w" "sig_calls w1 = sig_calls w" "\<not> PipeFull w1"
    by (simp_all add: pipe_ok_def w1_def remark_def)
  have "arrivals (irq_read q) ?w0 = Some (w1\<lparr>PipeFull := True\<rparr>)"
    unfolding bs(1) using bs(2) assms(3) by (simp add: w1_def remark_def)
  moreover have "w1\<lparr>PipeFull := True, PipeFull := False\<rparr> = w1" by (simp add: w1_def remark_def)
  ultimately have "DoPipe run q w = fire run q [0..<MAX_SIGNALS] w1" using ne by (simp add: DoPipe_def)
  then show ?thesis using P1 f by blast
qed

lemma DoPipe_run:
  assumes "P w" "pipe_ok w" "PipeFull w" "\<forall>x \<in> set (irq_read q). A x" "\<forall>j. \<forall>x \<in> set (irq_call q j) \<union> set (irq_gap q j). A x"
  shows "\<exists>r. DoPipe run q w = Some r \<and> (case r of
      Exit w' \<Rightarrow> T\<^sup>*\<^sup>* w w' \<and> X w'
    | Cont w' \<Rightarrow> P w' \<and> T\<^sup>*\<^sup>* w w' \<and>
        passed q 0 MAX_SIGNALS (w\<lparr>fired := (\<lambda>i. fired w i \<or> i \<in> sigs (irq_read q)), Pipe_bytes := [], PipeFull := False\<rparr>) w')"
proof -
  obtain w1 where w1: "P w1" "T\<^sup>*\<^sup>* w w1" "pipe_ok w1" "fired w1 = (\<lambda>i. fired w i \<or> i \<in> sigs (irq_read q))" "sig_func w1 = sig_func w"
    "sig_calls w1 = sig_calls w" "\<not> PipeFull w1" "DoPipe run q w = fire run q [0..<MAX_SIGNALS] w1"
    using DoPipe_start [OF assms(1-4)] by blast
  obtain r where r: "fire run q [0..<MAX_SIGNALS] w1 = Some r" "case r of
      Exit w' \<Rightarrow> T\<^sup>*\<^sup>* w1 w' \<and> X w' | Cont w' \<Rightarrow> P w' \<and> T\<^sup>*\<^sup>* w1 w' \<and> passed q 0 MAX_SIGNALS w1 w'"
    using fire_run [OF w1(1,3) assms(5), of 0 MAX_SIGNALS] by blast
  have "passed q 0 MAX_SIGNALS w1 w' = passed q 0 MAX_SIGNALS (w\<lparr>fired := (\<lambda>i. fired w i \<or> i \<in> sigs (irq_read q)), Pipe_bytes := [], PipeFull := False\<rparr>) w'" for w'
    using w1(4-7) by (simp add: passed_def handled_def marked_def)
  then show ?thesis using w1(8) r w1(2) by (auto split: ctl.splits intro: rtranclp_trans)
qed

text \<open>The handler of a signal that is marked when \<open>DoPipe\<close> begins is called in between.\<close>

lemma DoPipe_calls:
  assumes "P w" "pipe_ok w" "PipeFull w" "\<forall>x \<in> set (irq_read q). A x" "\<forall>j. \<forall>x \<in> set (irq_call q j) \<union> set (irq_gap q j). A x"
    and k: "k < MAX_SIGNALS" "fired w k" "sig_func w k = Some h" and run: "DoPipe run q w = Some (Cont w')"
  shows "\<exists>u v. P u \<and> T\<^sup>*\<^sup>* w u \<and> run h k u = Some (Cont v) \<and> T\<^sup>*\<^sup>* v w'"
proof -
  obtain w1 where D: "P w1" "T\<^sup>*\<^sup>* w w1" "pipe_ok w1" "fired w1 = (\<lambda>i. fired w i \<or> i \<in> sigs (irq_read q))" "sig_func w1 = sig_func w"
    "sig_calls w1 = sig_calls w" "\<not> PipeFull w1" "DoPipe run q w = fire run q [0..<MAX_SIGNALS] w1"
    using DoPipe_start [OF assms(1-4)] by blast
  have w1: "P w1" "T\<^sup>*\<^sup>* w w1" "pipe_ok w1" "fired w1 k" "sig_func w1 = sig_func w" "DoPipe run q w = fire run q [0..<MAX_SIGNALS] w1"
    using D k(2) by simp_all
  have up: "[0..<MAX_SIGNALS] = [0..<k] @ k # [Suc k..<MAX_SIGNALS]"
    by (rule upt_at [OF k(1)])
  obtain r where r: "fire run q [0..<k] w1 = Some r" "case r of
      Exit w' \<Rightarrow> T\<^sup>*\<^sup>* w1 w' \<and> X w' | Cont w' \<Rightarrow> P w' \<and> T\<^sup>*\<^sup>* w1 w' \<and> passed q 0 k w1 w'"
    using fire_run [OF w1(1,3) assms(5)] by blast
  obtain w2 where w2: "r = Cont w2" "fire run q (k # [Suc k..<MAX_SIGNALS]) w2 = Some (Cont w')"
    using run w1(6) up r(1) by (cases r) (simp_all add: fire_append)
  have 2: "P w2" "T\<^sup>*\<^sup>* w1 w2" "passed q 0 k w1 w2" using r(2) w2(1) by simp_all
  have f2: "fired w2 k" "sig_func w2 k = Some h" "pipe_ok w2" using 2(3) w1(4,5) k(3) by (simp_all add: passed_def marked_def)
  let ?u = "w2\<lparr>sig_calls := sig_calls w2 @ [k]\<rparr>"
  have "?u = remark w2 (fired w2) (Pipe_bytes w2) (PipeFull w2) (sig_calls w2 @ [k]) (exits [])" by (simp add: remark_def)
  then have u: "P ?u" "T\<^sup>*\<^sup>* w2 ?u" using remark_ok [OF 2(1), of "[]"] by simp_all
  obtain c where c: "run h k ?u = Some c" "case c of Cont w' \<Rightarrow> P w' \<and> steady ?u w' \<and> T\<^sup>*\<^sup>* ?u w' | Exit w' \<Rightarrow> T\<^sup>*\<^sup>* ?u w' \<and> X w'"
    using run_ok [OF u(1), of k h] f2(2) by auto
  have call: "call_signal run k w2 = Some c" using c(1) f2 by (simp add: call_signal_def)
  obtain v where v: "c = Cont v" "P v" "steady ?u v"
    using w2(2) call c(2) by (cases c) simp_all
  have A: "\<forall>x \<in> set (irq_call q k). A x" "\<forall>x \<in> set (irq_gap q k). A x" using assms(5) by auto
  obtain w3 where w3: "arrivals (irq_call q k) v = Some w3" "P w3" "T\<^sup>*\<^sup>* v w3" "pipe_ok v \<Longrightarrow> pipe_ok w3"
    by (rule arrivals_run [OF v(2) A(1)]) blast
  let ?w3 = "w3\<lparr>fired := (fired w3)(k := False)\<rparr>"
  have "?w3 = remark w3 ((fired w3)(k := False)) (Pipe_bytes w3) (PipeFull w3) (sig_calls w3) (exits [])" by (simp add: remark_def)
  then have 3: "P ?w3" "T\<^sup>*\<^sup>* w3 ?w3" using remark_ok [OF w3(2), of "[]"] by simp_all
  obtain w4 where w4: "arrivals (irq_gap q k) ?w3 = Some w4" "P w4" "T\<^sup>*\<^sup>* ?w3 w4" "pipe_ok ?w3 \<Longrightarrow> pipe_ok w4"
    by (rule arrivals_run [OF 3(1) A(2)]) blast
  have "pipe_ok v" using f2(3) v(3) by (simp add: pipe_ok_def steady_def)
  then have ok4: "pipe_ok w4" using w3(4) w4(4) by (simp add: pipe_ok_def)
  have "fire run q [Suc k..<MAX_SIGNALS] w4 = Some (Cont w')" using w2(2) call v(1) w3(1) w4(1) by simp
  then have "T\<^sup>*\<^sup>* w4 w'" using fire_run [OF w4(2) ok4 assms(5), of "Suc k" MAX_SIGNALS] by auto
  then have "T\<^sup>*\<^sup>* v w'" using w3(3) 3(2) w4(3) by (meson rtranclp_trans)
  moreover have "T\<^sup>*\<^sup>* w ?u" using w1(2) 2(2) u(2) by (meson rtranclp_trans)
  ultimately show ?thesis using u(1) c(1) v(1) by blast
qed

end

end
