(* ===== verification/Event_Children.thy ===== *)
theory Event_Children
  imports Event_Sig_Props
begin

text \<open>
  The table of the children whose exit is waited for, as a map from process numbers, and
  \<open>child_handler\<close>, which calls the handler of every ended child once.
\<close>

section \<open>The table\<close>

definition child_inv :: "('h, 'c, 'z) signals_scheme \<Rightarrow> bool" where
  "child_inv w \<longleftrightarrow> (\<exists>xs. hash_holds (child_table w) xs \<and> set (hash_items xs) = child_live w) \<and> 0 \<notin> child_live w \<and>
     inj_on (\<lambda>a. ce_pid (child_mem w a)) (child_live w)"

text \<open>The entry of a process.\<close>

definition waited :: "('h, 'c, 'z) signals_scheme \<Rightarrow> int \<Rightarrow> nat \<Rightarrow> bool" where
  "waited w pid a \<longleftrightarrow> a \<in> child_live w \<and> ce_pid (child_mem w a) = pid"

lemma waited_unique: "child_inv w \<Longrightarrow> waited w pid a \<Longrightarrow> waited w pid b \<Longrightarrow> a = b"
  by (auto simp: child_inv_def waited_def dest: inj_onD)

lemma child_inv_cong:
  "child_process_table w' = child_process_table w \<Longrightarrow> child_mem w' = child_mem w \<Longrightarrow> child_live w' = child_live w \<Longrightarrow>
   child_inv w' = child_inv w \<and> waited w' = waited w"
  by (simp add: child_inv_def child_table_def waited_def fun_eq_iff)

lemma holds_cong:
  assumes "hash_holds tab xs" "buckets tab' = buckets tab" "hb_next tab' = hb_next tab" "hb_prev tab' = hb_prev tab"
    "hb_hashval tab' = hb_hashval tab" "num_entries tab' = num_entries tab"
    and "\<And>i. i \<in> set (hash_items xs) \<Longrightarrow> compute_hash tab' i = compute_hash tab i"
  shows "hash_holds tab' xs"
proof -
  have "bucket_holds tab' b (xs b)" if b: "b < HASHTAB_SIZE" for b
  proof -
    have "compute_hash tab' i = compute_hash tab i" if "i \<in> set (xs b)" for i
      using assms(7) that b in_hash_items by blast
    then show ?thesis using holds_in [OF assms(1) b] assms(2-5) by (simp add: bucket_holds_def) metis
  qed
  then show ?thesis using assms(1,6) by (simp add: hash_holds_def)
qed

lemma item_bucket:
  assumes "hash_holds tab xs"
  shows "i \<in> set (hash_items xs) \<longleftrightarrow> i \<in> set (xs (bucket_of tab i))"
  using holds_bucket [OF assms] bucket_of_lt [of tab i] unfolding in_hash_items by metis

lemma empty_children: "child_live w = {} \<Longrightarrow> child_process_table w = hash_init c m tab \<Longrightarrow> child_inv w"
proof -
  assume "child_live w = {}" "child_process_table w = hash_init c m tab"
  moreover from this have "hash_holds (child_table w) (\<lambda>_. [])"
    by (simp add: child_table_def hash_holds_def bucket_holds_def hash_init_def)
  ultimately show ?thesis by (auto simp: child_inv_def hash_items_def)
qed

lemma child_find_inv:
  assumes "child_inv w"
  shows "child_find pid w = Some (if \<exists>a. waited w pid a then Some (THE a. waited w pid a) else None)"
proof -
  obtain xs where xs: "hash_holds (child_table w) xs" "set (hash_items xs) = child_live w" "0 \<notin> child_live w"
    using assms by (auto simp: child_inv_def)
  define c where "c = \<lparr>ce_handler = None :: 'b option, ce_pid = pid, ce_data = 0\<rparr>"
  define tab where "tab = child_table (w\<lparr>child_mem := (child_mem w)(0 := c)\<rparr>)"
  have H: "hash_holds tab xs"
    by (rule holds_cong [OF xs(1)]) (use xs(2,3) in \<open>auto simp: tab_def child_table_def\<close>)
  have cmp: "hash_compare tab 0 a = 0 \<longleftrightarrow> ce_pid (child_mem w a) = pid" if "a \<in> child_live w" for a
    using that xs(3) by (auto simp: tab_def child_table_def child_compare_def c_def)
  have live: "a \<in> child_live w" if "a \<in> set (xs (bucket_of tab 0))" for a
    using that xs(2) bucket_of_lt by (metis in_hash_items)
  have f: "child_find pid w = hash_find tab 0" by (simp add: child_find_def tab_def c_def)
  show ?thesis
  proof (cases "\<exists>a. waited w pid a")
    case True
    then obtain a where a: "waited w pid a" by blast
    have "(THE a. waited w pid a) = a" using the_equality [of "waited w pid" a] a waited_unique [OF assms] by blast
    moreover obtain b where b: "b < HASHTAB_SIZE" "a \<in> set (xs b)" using a xs(2) unfolding waited_def by (metis in_hash_items)
    have "hash_find tab 0 = Some (Some a)"
    proof (rule find_equal [OF H b])
      have "a \<noteq> 0" using a xs(3) unfolding waited_def by metis
      then show "compute_hash tab 0 = compute_hash tab a"
        using a by (simp add: tab_def child_table_def child_hash_def c_def waited_def)
      fix j assume "j \<in> set (xs b)"
      then have "j \<in> child_live w" using xs(2) b(1) in_hash_items by blast
      then show "hash_compare tab 0 j = 0 \<longleftrightarrow> j = a"
        using cmp [of j] a waited_unique [OF assms, of pid j a] by (auto simp: waited_def)
    qed
    ultimately show ?thesis using True f by simp
  next
    case False
    have "List.find (\<lambda>a. hash_compare tab 0 a = 0) (xs (bucket_of tab 0)) = None"
      unfolding find_None_iff using False live cmp by (auto simp: waited_def)
    then show ?thesis using False f find_holds [OF H] by simp
  qed
qed

lemma child_insert_inv:
  assumes "child_inv w" "a \<notin> child_live w" "a \<noteq> 0" "\<And>b. \<not> waited w (ce_pid e) b"
  shows "child_inv (child_insert a e w)"
    "waited (child_insert a e w) pid b \<longleftrightarrow> (if b = a then pid = ce_pid e else waited w pid b)"
proof -
  obtain xs where xs: "hash_holds (child_table w) xs" "set (hash_items xs) = child_live w" "0 \<notin> child_live w"
    "inj_on (\<lambda>a. ce_pid (child_mem w a)) (child_live w)"
    using assms(1) by (auto simp: child_inv_def)
  define w1 where "w1 = w\<lparr>child_mem := (child_mem w)(a := e), child_live := insert a (child_live w)\<rparr>"
  define tab where "tab = child_table w1"
  have H: "hash_holds tab xs"
    by (rule holds_cong [OF xs(1)]) (use xs(2) assms(2) in \<open>auto simp: tab_def child_table_def w1_def\<close>)
  define b where "b = bucket_of tab a"
  have "a \<notin> set (xs b)" using xs(2) assms(2) item_bucket [OF H] by (simp add: b_def)
  then have I: "hash_holds (hash_insert a tab) (xs(b := a # xs b))" using insert_holds [OF H] by (simp add: b_def)
  define w2 where "w2 = child_insert a e w"
  have w2: "w2 = w1\<lparr>child_process_table := hash_insert a tab\<rparr>"
    by (simp only: w2_def child_insert_def w1_def tab_def Let_def)
  have "hash_holds (child_table w2) (xs(b := a # xs b))"
    by (rule holds_cong [OF I]) (simp_all add: w2 child_table_def tab_def hash_insert_def Let_def split: option.split)
  moreover have "set (hash_items (xs(b := a # xs b))) = child_live w2"
  proof -
    have "b < HASHTAB_SIZE" by (simp add: b_def)
    then have "i \<in> set (hash_items (xs(b := a # xs b))) \<longleftrightarrow> i = a \<or> i \<in> set (hash_items xs)" for i
      by (auto simp: in_hash_items)
    then show ?thesis using xs(2) by (auto simp: w2 w1_def)
  qed
  moreover have "inj_on (\<lambda>a. ce_pid (child_mem w2 a)) (child_live w2)"
    using xs(4) assms(2,4) by (auto simp: w2 w1_def inj_on_def waited_def) metis+
  ultimately show "child_inv (child_insert a e w)"
    using xs(3) assms(3) unfolding w2_def [symmetric] child_inv_def by (auto simp: w2 w1_def)
  show "waited (child_insert a e w) pid b \<longleftrightarrow> (if b = a then pid = ce_pid e else waited w pid b)" for b
    unfolding w2_def [symmetric] by (auto simp: w2 w1_def waited_def)
qed

lemma child_remove_inv:
  assumes "child_inv w" "a \<in> child_live w"
  shows "child_inv (child_remove a w)" "waited (child_remove a w) pid b \<longleftrightarrow> b \<noteq> a \<and> waited w pid b"
proof -
  obtain xs where xs: "hash_holds (child_table w) xs" "set (hash_items xs) = child_live w" "0 \<notin> child_live w"
    "inj_on (\<lambda>a. ce_pid (child_mem w a)) (child_live w)"
    using assms(1) by (auto simp: child_inv_def)
  obtain b where b: "b < HASHTAB_SIZE" "a \<in> set (xs b)" using assms(2) xs(2) in_hash_items by blast
  note R = remove_holds [OF xs(1) b(2,1)]
  have ch: "compute_hash (hash_remove a tab) = compute_hash tab" for tab
    by (simp add: hash_remove_def Let_def split: option.split)
  have "hash_holds (child_table (child_remove a w)) (xs(b := remove1 a (xs b)))"
    by (rule holds_cong [OF R]) (simp_all add: child_remove_def child_table_def ch)
  moreover have "set (hash_items (xs(b := remove1 a (xs b)))) = child_live w - {a}"
  proof -
    have "i \<in> set (hash_items (xs(b := remove1 a (xs b)))) \<longleftrightarrow> i \<noteq> a \<and> i \<in> set (hash_items xs)" for i
      using b holds_bucket [OF xs(1)] holds_in(3) [OF xs(1) b(1)] by (auto simp: in_hash_items) metis+
    then show ?thesis using xs(2) by auto
  qed
  ultimately show "child_inv (child_remove a w)"
    using xs(3,4) unfolding child_inv_def by (auto simp: child_remove_def intro: inj_on_subset)
  show "waited (child_remove a w) pid b \<longleftrightarrow> b \<noteq> a \<and> waited w pid b" for b
    by (auto simp: child_remove_def waited_def)
qed

section \<open>Reaping\<close>

text \<open>
  What the handlers of the children promise: a call for an ended child that is waited for, followed by
  the removal of its entry, keeps \<open>P\<close>; so does dropping a process that nobody waits for.
\<close>

locale child_handlers =
  fixes run :: "'c \<Rightarrow> int \<Rightarrow> int \<Rightarrow> nat \<Rightarrow> ('h, 'c, 'z) signals_scheme \<Rightarrow> ('h, 'c, 'z) signals_scheme result option"
    and P :: "('h, 'c, 'z) signals_scheme \<Rightarrow> bool"
    and T :: "('h, 'c, 'z) signals_scheme \<Rightarrow> ('h, 'c, 'z) signals_scheme \<Rightarrow> bool"
    and X :: "('h, 'c, 'z) signals_scheme \<Rightarrow> bool"
  assumes table: "P w \<Longrightarrow> child_inv w"
    and has_handler: "P w \<Longrightarrow> a \<in> child_live w \<Longrightarrow> \<exists>h. ce_handler (child_mem w a) = Some h"
    and positive: "P w \<Longrightarrow> (pid, st) \<in> set (zombies w) \<Longrightarrow> 0 < pid"
    and unknown: "P w \<Longrightarrow> zombies w = (pid, st) # zs \<Longrightarrow> (\<And>a. \<not> waited w pid a) \<Longrightarrow>
      P (w\<lparr>zombies := zs\<rparr>) \<and> T\<^sup>*\<^sup>* w (w\<lparr>zombies := zs\<rparr>)"
    and known: "P w \<Longrightarrow> zombies w = (pid, st) # zs \<Longrightarrow> waited w pid a \<Longrightarrow> ce_handler (child_mem w a) = Some h \<Longrightarrow>
      \<exists>r. run h pid st (ce_data (child_mem w a)) (w\<lparr>zombies := zs\<rparr>) = Some r \<and>
        (case r of
           Cont w' \<Rightarrow> P (child_remove a w') \<and> T\<^sup>*\<^sup>* w (child_remove a w') \<and> zombies w' = zs \<and> steady w w'
         | Exit w' \<Rightarrow> T\<^sup>*\<^sup>* w w' \<and> X w')"
begin

lemma reaps:
  "P w \<Longrightarrow> \<exists>r. child_handler run w = Some r \<and>
     (case r of Cont w' \<Rightarrow> P w' \<and> T\<^sup>*\<^sup>* w w' \<and> zombies w' = [] \<and> steady w w' | Exit w' \<Rightarrow> T\<^sup>*\<^sup>* w w' \<and> X w')"
proof (induction "length (zombies w)" arbitrary: w)
  case 0
  then show ?case by (subst child_handler.simps) (simp add: steady_def)
next
  case (Suc n)
  then obtain pid st zs where z: "zombies w = (pid, st) # zs" by (metis length_Suc_conv prod.exhaust)
  let ?w = "w\<lparr>zombies := zs\<rparr>"
  have pos: "\<not> pid \<le> 0" using positive [OF Suc.prems] z by fastforce
  have "child_inv ?w" "waited ?w = waited w" using table [OF Suc.prems] child_inv_cong [of ?w w] by simp_all
  then have f: "child_find pid ?w = Some (if \<exists>a. waited w pid a then Some (THE a. waited w pid a) else None)"
    using child_find_inv by metis
  show ?case
  proof (cases "\<exists>a. waited w pid a")
    case False
    then have u: "P ?w" "T\<^sup>*\<^sup>* w ?w" using unknown [OF Suc.prems z] by blast+
    have run: "child_handler run w = child_handler run ?w"
      by (subst child_handler.simps) (simp add: z pos f False)
    obtain r where r: "child_handler run ?w = Some r"
      "case r of Cont w' \<Rightarrow> P w' \<and> T\<^sup>*\<^sup>* ?w w' \<and> zombies w' = [] \<and> steady ?w w' | Exit w' \<Rightarrow> T\<^sup>*\<^sup>* ?w w' \<and> X w'"
      using Suc.hyps(1) [of ?w] Suc.hyps(2) u(1) z by auto
    then show ?thesis using u(2) run by (auto simp: steady_def split: ctl.splits intro: rtranclp_trans)
  next
    case True
    then obtain a where a: "waited w pid a" by blast
    have the: "(THE a. waited w pid a) = a"
      using the_equality [of "waited w pid" a] a waited_unique [OF table [OF Suc.prems]] by blast
    obtain h where h: "ce_handler (child_mem w a) = Some h" using has_handler [OF Suc.prems] a by (auto simp: waited_def)
    obtain r where r: "run h pid st (ce_data (child_mem w a)) ?w = Some r"
      "case r of Cont w' \<Rightarrow> P (child_remove a w') \<and> T\<^sup>*\<^sup>* w (child_remove a w') \<and> zombies w' = zs \<and> steady w w' | Exit w' \<Rightarrow> T\<^sup>*\<^sup>* w w' \<and> X w'"
      using known [OF Suc.prems z a h] by blast
    have run: "child_handler run w = (case r of Exit w \<Rightarrow> Some (Exit w) | Cont w \<Rightarrow> child_handler run (child_remove a w))"
      using r(1) h by (subst child_handler.simps) (simp add: z pos f True the)
    show ?thesis
    proof (cases r)
      case (Cont w1)
      then have c: "P (child_remove a w1)" "T\<^sup>*\<^sup>* w (child_remove a w1)" "zombies (child_remove a w1) = zs" "steady w (child_remove a w1)"
        using r(2) by (simp_all add: child_remove_def steady_def)
      obtain r' where "child_handler run (child_remove a w1) = Some r'"
        "case r' of Cont w' \<Rightarrow> P w' \<and> T\<^sup>*\<^sup>* (child_remove a w1) w' \<and> zombies w' = [] \<and> steady (child_remove a w1) w'
         | Exit w' \<Rightarrow> T\<^sup>*\<^sup>* (child_remove a w1) w' \<and> X w'"
        using Suc.hyps(1) [of "child_remove a w1"] Suc.hyps(2) c(1,3) z by auto
      then show ?thesis using run Cont c(2,4) by (auto simp: steady_def split: ctl.splits intro: rtranclp_trans)
    next
      case (Exit w1)
      then show ?thesis using run r(2) by simp
    qed
  qed
qed

end

end
