(* ===== verification/Server_Loop.thy ===== *)
theory Server_Loop
  imports Event_Children Server_Claims
begin

text \<open>
  The main loop of the PPPoE server (\<open>rg/pkg/pppoe-server/src/pppoe-server.c\<close>) on the event library:
  the callbacks that it registers, its handlers of signals and ended children, and the start of the
  loop in \<open>main\<close>. What the system gives to the handlers is part of the state: the frames that are
  received, with the results of \<open>time\<close>, \<open>fork\<close>, \<open>malloc\<close> and \<open>sigaction\<close> for each, and the signals
  that arrive while \<open>DoPipe\<close> runs. A signal that arrives at another moment arrives before the pass.
\<close>

section \<open>State\<close>

datatype srv_fn = DoPipe_cb | InterfaceHandler_cb
datatype srv_sig = Term_handler | Child_handler
datatype srv_child = ChildHandler_fn

record frame_input =
  fi_recv :: recv
  fi_now :: nat
  fi_fork :: int
  fi_entry :: "nat set \<Rightarrow> nat option"
  fi_sigaction :: bool

record server_loop = "(srv_sig, srv_child) signals" +
  srv :: server
  frames_in :: "frame_input list"
  irqs_in :: "irq list"

type_synonym server_selector = "(srv_fn, nat, server_loop) selector"

definition server_lib :: "(srv_fn, nat, srv_sig) event_lib" where
  "server_lib = \<lparr>lib_DoPipe = DoPipe_cb, lib_null = 0, lib_child_handler = Child_handler\<rparr>"

section \<open>Handlers\<close>

text \<open>The list \<open>children\<close> of the server model is what the table of children holds.\<close>

definition run_child :: "srv_child \<Rightarrow> int \<Rightarrow> int \<Rightarrow> nat \<Rightarrow> server_loop \<Rightarrow> server_loop result option" where
  "run_child c pid status ses w =
     map_option (\<lambda>st. Cont (w\<lparr>srv := st\<rparr>))
       (childHandler ses ((srv w)\<lparr>children := filter (\<lambda>(p, s). p \<noteq> nat pid) (children (srv w))\<rparr>))"

definition termHandler :: "server_loop \<Rightarrow> server_loop result option" where
  "termHandler w = map_option (\<lambda>st. Exit (w\<lparr>srv := st\<rparr>)) (killAllSessions (srv w))"

definition run_signal :: "srv_sig \<Rightarrow> nat \<Rightarrow> server_loop \<Rightarrow> server_loop result option" where
  "run_signal h i w = (case h of Term_handler \<Rightarrow> termHandler w | Child_handler \<Rightarrow> child_handler run_child w)"

text \<open>The result of \<open>Event_HandleChildExit\<close> is not looked at.\<close>

fun register_children :: "frame_input \<Rightarrow> (nat \<times> nat) list \<Rightarrow> server_selector \<Rightarrow> server_selector option" where
  "register_children x [] es = Some es"
| "register_children x ((p, s) # cs) es =
     Option.bind (Event_HandleChildExit server_lib
         \<lparr>sys_handler = None, sys_entry = fi_entry x (child_live (es_world es)), sys_pipe = None, sys_sigaction = fi_sigaction x\<rparr>
         (int p) (Some ChildHandler_fn) s es)
       (\<lambda>(r, es). register_children x cs es)"

text \<open>With no frame left, \<open>receivePacket\<close> fails, and the server returns to the loop.\<close>

definition InterfaceHandler :: "server_env \<Rightarrow> nat \<Rightarrow> server_selector \<Rightarrow> server_selector result option" where
  "InterfaceHandler env i es =
     (let w = es_world es in
      case frames_in w of
        [] \<Rightarrow> Some (Cont es)
      | x # xs \<Rightarrow>
          Option.bind (serverProcessPacket env i (fi_recv x) (fi_now x) (fi_fork x) (srv w)) (\<lambda>st.
            map_option Cont (register_children x (drop (length (children (srv w))) (children st))
              (upd_world (\<lambda>w. w\<lparr>srv := st, frames_in := xs\<rparr>) es))))"

definition no_irq :: irq where
  "no_irq = \<lparr>irq_read = [], irq_call = (\<lambda>_. []), irq_gap = (\<lambda>_. [])\<rparr>"

definition next_irq :: "server_loop \<Rightarrow> irq" where
  "next_irq w = (case irqs_in w of [] \<Rightarrow> no_irq | q # _ \<Rightarrow> q)"

definition pipe_callback :: "server_selector \<Rightarrow> server_selector result option" where
  "pipe_callback es =
     (let w = es_world es in
      map_option (case_ctl (\<lambda>w. Cont (es\<lparr>es_world := w\<rparr>)) (\<lambda>w. Exit (es\<lparr>es_world := w\<rparr>)))
        (DoPipe run_signal (next_irq w) (w\<lparr>irqs_in := tl (irqs_in w)\<rparr>)))"

definition server_callback :: "server_env \<Rightarrow> (srv_fn, nat, server_loop) callback" where
  "server_callback env f fd flags d es =
     (case f of DoPipe_cb \<Rightarrow> pipe_callback es | InterfaceHandler_cb \<Rightarrow> InterfaceHandler env d es)"

section \<open>The start of the loop\<close>

definition SIGINT :: nat where "SIGINT = 2"
definition SIGTERM :: nat where "SIGTERM = 15"

text \<open>The static variables of \<open>event_sig.c\<close>, all zero, before the loop.\<close>

definition start_world :: "hash_table \<Rightarrow> (nat \<Rightarrow> srv_child child_entry) \<Rightarrow> server \<Rightarrow> server_loop" where
  "start_world tab mem st = \<lparr>fired = (\<lambda>_. False), sig_func = (\<lambda>_. None), Pipe = (- 1, - 1), Pipe_bytes = [], PipeHandler = None,
     PipeFull = False, child_process_table = tab, child_mem = mem, child_live = {}, zombies = [], sig_calls = [],
     srv = st, frames_in = [], irqs_in = []\<rparr>"

text \<open>One handler for each interface, at the addresses \<open>ms\<close>; \<open>None\<close> when one is not added (\<open>rp_fatal\<close>).\<close>

fun add_interfaces :: "nat list \<Rightarrow> nat \<Rightarrow> Interface list \<Rightarrow> server_selector \<Rightarrow> server_selector option" where
  "add_interfaces ms i [] es = Some es"
| "add_interfaces ms i (e # ifs) es =
     (case Event_AddHandler (case ms of [] \<Rightarrow> None | m # _ \<Rightarrow> Some m) (if_sock e) EVENT_FLAG_READABLE InterfaceHandler_cb i es of
        (None, es) \<Rightarrow> None
      | (Some h, es) \<Rightarrow> add_interfaces (tl ms) (Suc i) ifs es)"

text \<open>\<open>sys\<close> is what the system gives to the two registrations of signals; a failure ends the program.\<close>

definition server_start :: "system \<Rightarrow> nat list \<Rightarrow> server_loop \<Rightarrow> server_selector option" where
  "server_start sys ms w =
     Option.bind (Event_HandleSignal server_lib sys SIGTERM Term_handler (Event_CreateSelector w)) (\<lambda>(r, es).
       if r < 0 then None
       else
         Option.bind (Event_HandleSignal server_lib sys SIGINT Term_handler es) (\<lambda>(r, es).
           if r < 0 then None else add_interfaces ms 0 (interfaces (srv w)) es))"

section \<open>The loop\<close>

text \<open>
  One round: the signals \<open>xs\<close> arrive, then the selector handles its events; an error ends the program
  (\<open>fatalSys\<close>). The answers of the clock and of \<open>select\<close> depend on the state, since the pipe is in it.
\<close>

record round =
  arriving :: "arrival list"
  waiting :: "server_loop \<Rightarrow> event_env"

definition main_round :: "server_env \<Rightarrow> round \<Rightarrow> server_selector \<Rightarrow> server_selector result option" where
  "main_round env p es =
     Option.bind (arrivals (arriving p) (es_world es)) (\<lambda>w.
       map_option (\<lambda>c. case c of Exit es \<Rightarrow> Exit es | Cont (i, es) \<Rightarrow> if i < 0 then Exit es else Cont es)
         (Event_HandleEvent (server_callback env) (waiting p w) (es\<lparr>es_world := w\<rparr>)))"

fun main_loop :: "server_env \<Rightarrow> round list \<Rightarrow> server_selector \<Rightarrow> server_selector result option" where
  "main_loop env [] es = Some (Cont es)"
| "main_loop env (p # ps) es =
     Option.bind (main_round env p es) (\<lambda>c. case c of Exit es \<Rightarrow> Some (Exit es) | Cont es \<Rightarrow> main_loop env ps es)"

end
