(* ===== verification/Server_Loop_Props.thy ===== *)
theory Server_Loop_Props
  imports Server_Loop
begin

text \<open>
  The callbacks of the PPPoE server keep the contracts of the event library, and each of them is a
  sequence of steps of the server.
\<close>

section \<open>Steps of the server\<close>

lemma free_children: "pppoe_free_session s st = Some (r, st') \<Longrightarrow> children st' = children st"
  by (auto simp: pppoe_free_session_def Let_def bind_eq_Some_conv split: if_splits option.splits)

lemma alloc_children: "pppoe_alloc_session now st = (r, st') \<Longrightarrow> children st' = children st"
  by (auto simp: pppoe_alloc_session_def Let_def split: option.splits)

lemma open_children:
  assumes run: "open_session env i ethif packet now fork nm st = Some st'" and fork: "fork \<noteq> 0"
  shows "children st' = children st \<or> (0 < fork \<and> (\<exists>s. children st' = children st @ [(nat fork, s)]))"
proof (cases "pppoe_alloc_session now st")
  case (Pair r st1)
  note a = alloc_children [OF Pair]
  show ?thesis
  proof (cases r)
    case None
    then show ?thesis using run Pair a sendErrorPADS_same by (fastforce simp: open_session_def same_table_def)
  next
    case (Some s)
    define st2 where "st2 = upd_ses s (\<lambda>s. s\<lparr>ses_eth := h_source packet, ses_ethif := Some i, ses_flags := 0,
       startTime := now, ses_serviceName := nm\<rparr>) st1"
    have c2: "children st2 = children st" using a by (simp add: st2_def)
    show ?thesis
    proof (cases "fork < 0")
      case True
      then obtain st3 r' where "sendErrorPADS (if_sock ethif) (if_mac ethif) (h_source packet)
          TAG_AC_SYSTEM_ERROR ''RP-PPPoE: Server: Unable to start session process'' st2 = Some st3"
        "pppoe_free_session s st3 = Some (r', st')"
        using run Pair Some by (auto simp: open_session_def Let_def st2_def bind_eq_Some_conv)
      then show ?thesis using c2 sendErrorPADS_same free_children by (fastforce simp: same_table_def)
    next
      case False
      then obtain st3 where "padr_child env ethif packet s st2 = Some st3"
        "st' = (upd_ses s (\<lambda>s. s\<lparr>ses_pid := nat fork\<rparr>) st3)\<lparr>children := children st3 @ [(nat fork, s)]\<rparr>"
        using run Pair Some by (auto simp: open_session_def Let_def st2_def)
      moreover from this obtain x y where "st3 = st2\<lparr>sent := x, started := y\<rparr>" using padr_child_effect by blast
      ultimately show ?thesis using False fork c2 by auto
    qed
  qed
qed

lemma frame_children:
  assumes run: "serverProcessPacket env i rx now fork st = Some st'" and fork: "fork \<noteq> 0"
  shows "children st' = children st \<or> (0 < fork \<and> (\<exists>s. children st' = children st @ [(nat fork, s)]))"
proof -
  have same: "children st' = children st" if "same_table st st'" using that by (simp add: same_table_def)
  have padr: ?thesis if p: "processPADR env i packet now fork st = Some st'" for packet
  proof -
    obtain ethif where "interface st (Some i) = Some ethif" using p by (auto simp: processPADR_def bind_eq_Some_conv)
    from PADR_cases [OF p this] show ?thesis
    proof cases
      case (2 n r tag msg)
      then show ?thesis using sendErrorPADS_same [OF 2(3)] by (simp add: same_table_def)
    next
      case (3 n r nm)
      then show ?thesis using open_children [OF 3(7) fork] by simp
    qed simp
  qed
  show ?thesis using run same PADI_same PADT_same padr
    by (auto simp: serverProcessPacket_def split: recv.splits if_splits)
qed

lemma free_interfaces: "pppoe_free_session s st = Some (r, st') \<Longrightarrow> interfaces st' = interfaces st"
  by (auto simp: pppoe_free_session_def Let_def bind_eq_Some_conv split: if_splits option.splits)

lemma alloc_interfaces: "pppoe_alloc_session now st = (r, st') \<Longrightarrow> interfaces st' = interfaces st"
  by (auto simp: pppoe_alloc_session_def Let_def split: option.splits)

lemma same_table_interfaces: "same_table st st' \<Longrightarrow> interfaces st' = interfaces st"
  by (simp add: same_table_def same_setup_def)

lemma open_interfaces:
  assumes run: "open_session env i ethif packet now fork nm st = Some st'"
  shows "interfaces st' = interfaces st"
proof (cases "pppoe_alloc_session now st")
  case (Pair r st1)
  note a = alloc_interfaces [OF Pair]
  show ?thesis
  proof (cases r)
    case None
    then show ?thesis using run Pair a sendErrorPADS_same same_table_interfaces by (fastforce simp: open_session_def)
  next
    case (Some s)
    define st2 where "st2 = upd_ses s (\<lambda>s. s\<lparr>ses_eth := h_source packet, ses_ethif := Some i, ses_flags := 0,
       startTime := now, ses_serviceName := nm\<rparr>) st1"
    have c2: "interfaces st2 = interfaces st" using a by (simp add: st2_def)
    show ?thesis
    proof (cases "fork < 0")
      case True
      then obtain st3 r' where 3: "sendErrorPADS (if_sock ethif) (if_mac ethif) (h_source packet)
          TAG_AC_SYSTEM_ERROR ''RP-PPPoE: Server: Unable to start session process'' st2 = Some st3"
        "pppoe_free_session s st3 = Some (r', st')"
        using run Pair Some by (auto simp: open_session_def Let_def st2_def bind_eq_Some_conv)
      show ?thesis using c2 same_table_interfaces [OF sendErrorPADS_same [OF 3(1)]] free_interfaces [OF 3(2)] by simp
    next
      case False
      then obtain st3 where "padr_child env ethif packet s st2 = Some st3"
        "st' = (upd_ses s (\<lambda>s. s\<lparr>ses_pid := nat fork\<rparr>) st3)\<lparr>children := children st3 @ [(nat fork, s)]\<rparr>"
        using run Pair Some by (auto simp: open_session_def Let_def st2_def)
      moreover from this obtain x y where "st3 = st2\<lparr>sent := x, started := y\<rparr>" using padr_child_effect by blast
      ultimately show ?thesis using c2 by simp
    qed
  qed
qed

lemma child_interfaces: "childHandler s st = Some st' \<Longrightarrow> interfaces st' = interfaces st"
  by (auto simp: childHandler_def bind_eq_Some_conv dest!: free_interfaces session_padt_same same_table_interfaces split: if_splits)

lemma step_interfaces:
  assumes run: "server_step env ev st = Some st'"
  shows "interfaces st' = interfaces st"
proof (cases ev)
  case (Interface_readable i rx now fork)
  have padr: ?thesis if p: "processPADR env i packet now fork st = Some st'" for packet
  proof -
    obtain ethif where "interface st (Some i) = Some ethif" using p by (auto simp: processPADR_def bind_eq_Some_conv)
    from PADR_cases [OF p this] show ?thesis
    proof cases
      case (2 n r tag msg)
      then show ?thesis using same_table_interfaces [OF sendErrorPADS_same [OF 2(3)]] by simp
    next
      case (3 n r nm)
      then show ?thesis using open_interfaces [OF 3(7)] by simp
    qed simp
  qed
  show ?thesis using run Interface_readable PADI_same PADT_same padr same_table_interfaces
    by (auto simp: server_step_def serverProcessPacket_def split: recv.splits if_splits)
next
  case (Child_ended p)
  then show ?thesis using run child_interfaces by (fastforce simp: server_step_def split: option.splits)
next
  case Terminate
  then show ?thesis using run kill_loop_same same_table_interfaces by (fastforce simp: server_step_def killAllSessions_def)
qed

text \<open>The end of a child that is waited for.\<close>

lemma childHandler_runs:
  assumes core: "server_core big st fr bu" and s: "s \<in> set bu"
  shows "\<exists>st'. childHandler s st = Some st'"
proof -
  obtain e where e: "interface st (ses_ethif (Sessions st s)) = Some e" using core s by (auto simp: server_core_def)
  have e0: "0 \<le> if_sock e"
  proof -
    have "e \<in> set (interfaces st)" using e by (auto simp: interface_def split: option.splits if_splits)
    then show ?thesis using core by (auto simp: server_core_def)
  qed
  have "s < NumSessionSlots st" using core s by (auto simp: server_core_def)
  then have n: "ses_sess (Sessions st s) \<noteq> 0" using session_number_nonzero [OF core] by blast
  have conn: "session_conn st s \<noteq> None" using e by (simp add: session_conn_def Let_def)
  define msg where "msg = (if ses_flags (Sessions st s) AND FLAG_RECVD_PADT \<noteq> 0
      then ''RP-PPPoE: Received PADT from peer'' else ''RP-PPPoE: Child pppd process terminated'')"
  have "length msg \<le> 511" by (simp add: msg_def)
  then obtain st1 where st1: "session_padt msg st s = Some st1" using session_padt_sends [OF e e0 n] by metis
  have fin: "\<exists>st'. map_option snd (pppoe_free_session s (upd_ses s (\<lambda>s. s\<lparr>ses_serviceName := Empty_name\<rparr>) st0)) = Some st'"
    if "same_table st st0" for st0
  proof -
    have "same_table st0 (upd_ses s (\<lambda>s. s\<lparr>ses_serviceName := Empty_name\<rparr>) st0)" by (rule same_table_upd) simp
    then have "server_core big (upd_ses s (\<lambda>s. s\<lparr>ses_serviceName := Empty_name\<rparr>) st0) fr bu"
      using core core_same_table that same_table_trans by blast
    then have "server_lists (upd_ses s (\<lambda>s. s\<lparr>ses_serviceName := Empty_name\<rparr>) st0) fr bu" by (simp add: server_core_def)
    from free_session [OF this s] show ?thesis by fastforce
  qed
  show ?thesis
  proof (cases "ses_flags (Sessions st s) AND FLAG_SENT_PADT = 0")
    case True
    have "same_table st1 (upd_ses s (\<lambda>s. s\<lparr>ses_flags := ses_flags s OR FLAG_SENT_PADT\<rparr>) st1)" by (rule same_table_upd) simp
    then have "same_table st (upd_ses s (\<lambda>s. s\<lparr>ses_flags := ses_flags s OR FLAG_SENT_PADT\<rparr>) st1)"
      using session_padt_same [OF st1] same_table_trans by blast
    from fin [OF this] show ?thesis using conn True st1 by (auto simp: childHandler_def msg_def)
  next
    case False
    then show ?thesis using fin [of st] conn by (auto simp: childHandler_def)
  qed
qed

lemma child_ended_runs:
  assumes inv: "server_inv (srv_big env) st" and m: "(p, s) \<in> set (children st)"
  shows "\<exists>st'. childHandler s (st\<lparr>children := filter (\<lambda>(q, s). q \<noteq> p) (children st)\<rparr>) = Some st' \<and>
    server_step env (Child_ended p) st = Some st' \<and> children st' = filter (\<lambda>(q, s). q \<noteq> p) (children st) \<and> p \<noteq> 0"
proof -
  obtain fr bu where wf: "server_wf (srv_big env) st fr bu" using inv by (auto simp: server_inv_def)
  then have ch: "distinct (map fst (children st))" "s \<in> set bu" "p \<noteq> 0"
    using m by (force simp: server_wf_def children_ok_def)+
  let ?st = "st\<lparr>children := filter (\<lambda>(q, s). q \<noteq> p) (children st)\<rparr>"
  have "server_lists ?st fr bu = server_lists st fr bu" by (rule server_lists_cong) simp_all
  moreover have "interface ?st q = interface st q" for q by (rule interface_cong) simp
  ultimately have core: "server_core (srv_big env) ?st fr bu" using wf by (simp add: server_wf_def server_core_def)
  obtain st' where st': "childHandler s ?st = Some st'" using childHandler_runs [OF core ch(2)] by blast
  moreover have "map_of (children st) p = Some s" using m ch(1) by (rule map_of_is_SomeI [rotated])
  ultimately show ?thesis using childHandler_core [OF core ch(2) st'] ch(3) by (simp add: server_step_def)
qed

lemma terminate_runs:
  assumes inv: "server_inv (srv_big env) st"
  shows "\<exists>st'. server_step env Terminate st = Some st'"
proof -
  obtain fr bu where wf: "server_wf (srv_big env) st fr bu" using inv by (auto simp: server_inv_def)
  have core: "server_core (srv_big env) st fr bu" and ch: "children_ok st bu" using wf by (simp_all add: server_wf_def)
  have L: "lseg (cn st) (BusySessions st) bu" using core by (simp add: server_core_def server_lists_def)
  have "\<exists>e. interface st (ses_ethif (Sessions st s)) = Some e \<and> 0 \<le> if_sock e" if s: "s \<in> set bu" for s
  proof -
    obtain e where e: "interface st (ses_ethif (Sessions st s)) = Some e" using core s by (auto simp: server_core_def)
    then have "e \<in> set (interfaces st)" by (auto simp: interface_def split: option.splits if_splits)
    then show ?thesis using e core by (auto simp: server_core_def)
  qed
  moreover have "ses_sess (Sessions st s) \<noteq> 0 \<and> ses_pid (Sessions st s) \<noteq> 0" if s: "s \<in> set bu" for s
  proof -
    have "s < NumSessionSlots st" using core s by (auto simp: server_core_def)
    moreover obtain p where "(p, s) \<in> set (children st)" using ch s by (force simp: children_ok_def)
    ultimately show ?thesis using session_number_nonzero [OF core] ch by (auto simp: children_ok_def)
  qed
  ultimately show ?thesis using kill_loop_runs [OF L] by (fastforce simp: server_step_def killAllSessions_def)
qed

section \<open>The invariant of the loop\<close>

definition server_path :: "server_env \<Rightarrow> server \<Rightarrow> server \<Rightarrow> bool" where
  "server_path env = (\<lambda>st st'. \<exists>ev. event_ok ev st \<and> server_step env ev st = Some st')\<^sup>*\<^sup>*"

lemma path_refl [simp, intro]: "server_path env st st"
  by (simp add: server_path_def)

lemma path_trans: "server_path env st st' \<Longrightarrow> server_path env st' st'' \<Longrightarrow> server_path env st st''"
  unfolding server_path_def by (rule rtranclp_trans)

lemma path_step: "event_ok ev st \<Longrightarrow> server_step env ev st = Some st' \<Longrightarrow> server_path env st st'"
  unfolding server_path_def by (rule r_into_rtranclp) blast

lemma path_reach: "server_path env st st' \<Longrightarrow> server_reach env st \<Longrightarrow> server_reach env st'"
  unfolding server_path_def by (induction rule: rtranclp_induct) (auto intro: server_reach.event)

lemma path_interfaces: "server_path env st st' \<Longrightarrow> interfaces st' = interfaces st"
  unfolding server_path_def by (induction rule: rtranclp_induct) (auto dest: step_interfaces)

definition loop_step :: "server_env \<Rightarrow> server_loop \<Rightarrow> server_loop \<Rightarrow> bool" where
  "loop_step env w w' \<longleftrightarrow> server_path env (srv w) (srv w')"

lemma loop_steps: "(loop_step env)\<^sup>*\<^sup>* w w' \<Longrightarrow> server_path env (srv w) (srv w')"
  by (induction rule: rtranclp_induct) (auto simp: loop_step_def intro: path_trans)

lemma loop_stepI: "server_path env (srv w) (srv w') \<Longrightarrow> (loop_step env)\<^sup>*\<^sup>* w w'"
  by (rule r_into_rtranclp) (simp add: loop_step_def)

definition loop_exit :: "server_env \<Rightarrow> server_loop \<Rightarrow> bool" where
  "loop_exit env w \<longleftrightarrow> (\<exists>st. server_reach env st \<and> server_step env Terminate st = Some (srv w))"

text \<open>The table of the event library holds the children of the server.\<close>

definition mirrored :: "server_loop \<Rightarrow> bool" where
  "mirrored w \<longleftrightarrow> (\<forall>p s. (p, s) \<in> set (children (srv w)) \<longleftrightarrow> (\<exists>a. waited w (int p) a \<and> ce_data (child_mem w a) = s)) \<and>
     (\<forall>a \<in> child_live w. 0 < ce_pid (child_mem w a))"

text \<open>The handler returns for these frames, taken in this order from any interface, with ended children between them.\<close>

definition ended :: "server_env \<Rightarrow> server \<Rightarrow> server \<Rightarrow> bool" where
  "ended env = (\<lambda>st st'. \<exists>p. server_step env (Child_ended p) st = Some st')\<^sup>*\<^sup>*"

fun server_handles :: "server_env \<Rightarrow> frame_input list \<Rightarrow> server \<Rightarrow> bool" where
  "server_handles env [] st = True"
| "server_handles env (x # xs) st = (\<forall>u. ended env st u \<longrightarrow> (\<forall>i < length (interfaces u).
     \<exists>v. serverProcessPacket env i (fi_recv x) (fi_now x) (fi_fork x) u = Some v \<and> server_handles env xs v))"

lemma handles_ended: "server_handles env xs st \<Longrightarrow> ended env st u \<Longrightarrow> server_handles env xs u"
  unfolding ended_def by (cases xs) (auto simp: ended_def dest: rtranclp_trans)

lemma handles_step: "server_handles env xs st \<Longrightarrow> server_step env (Child_ended p) st = Some st' \<Longrightarrow> server_handles env xs st'"
  by (rule handles_ended) (auto simp: ended_def)

lemma handles_next:
  assumes "server_handles env (x # xs) st" "i < length (interfaces st)"
  obtains v where "serverProcessPacket env i (fi_recv x) (fi_now x) (fi_fork x) st = Some v" "server_handles env xs v"
proof -
  have "ended env st st" by (simp add: ended_def)
  then show thesis using assms that by fastforce
qed

text \<open>
  What is asked of the inputs: the handler returns for the frames, processes get numbers that are not in
  use, memory for entries and \<open>sigaction\<close> do not fail.
\<close>

definition frames_ok :: "server_env \<Rightarrow> server_loop \<Rightarrow> bool" where
  "frames_ok env w \<longleftrightarrow> (\<forall>x \<in> set (frames_in w). fi_fork x \<noteq> 0 \<and> fi_sigaction x \<and>
       (\<forall>A. finite A \<longrightarrow> (\<exists>a. fi_entry x A = Some a \<and> a \<notin> A \<and> a \<noteq> 0)) \<and>
       (0 < fi_fork x \<longrightarrow> nat (fi_fork x) \<notin> fst ` set (children (srv w)))) \<and>
     distinct (map fi_fork (filter (\<lambda>x. 0 < fi_fork x) (frames_in w))) \<and> server_handles env (frames_in w) (srv w)"

definition arrival_ok :: "arrival \<Rightarrow> bool" where
  "arrival_ok x \<longleftrightarrow> sig_of x < MAX_SIGNALS \<and> (\<forall>z \<in> set (exit_of x). 0 < fst z)"

definition irq_ok :: "irq \<Rightarrow> bool" where
  "irq_ok q \<longleftrightarrow> (\<forall>x \<in> set (irq_read q). arrival_ok x) \<and> (\<forall>j. \<forall>x \<in> set (irq_call q j) \<union> set (irq_gap q j). arrival_ok x)"

definition world_ok :: "server_env \<Rightarrow> nat \<Rightarrow> int \<times> int \<Rightarrow> Interface list \<Rightarrow> server_loop \<Rightarrow> bool" where
  "world_ok env ph pp ifs w \<longleftrightarrow> server_reach env (srv w) \<and> child_inv w \<and> mirrored w \<and>
     (\<forall>a \<in> child_live w. ce_handler (child_mem w a) = Some ChildHandler_fn) \<and> (\<forall>z \<in> set (zombies w). 0 < fst z) \<and>
     frames_ok env w \<and> (\<forall>q \<in> set (irqs_in w). irq_ok q) \<and> PipeHandler w = Some ph \<and> Pipe w = pp \<and> interfaces (srv w) = ifs"

text \<open>The parts of the invariant that the marks of the signals do not touch.\<close>

lemma world_ok_cong:
  assumes "srv w' = srv w" "child_process_table w' = child_process_table w" "child_mem w' = child_mem w" "child_live w' = child_live w"
    "frames_in w' = frames_in w" "irqs_in w' = irqs_in w" "PipeHandler w' = PipeHandler w" "Pipe w' = Pipe w"
    and "world_ok env ph pp ifs w" "\<forall>z \<in> set (zombies w'). 0 < fst z"
  shows "world_ok env ph pp ifs w'"
  using assms child_inv_cong [OF assms(2-4)] by (simp add: world_ok_def mirrored_def frames_ok_def)

lemma frames_ok_path:
  assumes "frames_ok env w" "server_handles env (frames_in w) (srv w')" "frames_in w' = frames_in w"
    and "fst ` set (children (srv w')) \<subseteq> fst ` set (children (srv w))"
  shows "frames_ok env w'"
  unfolding frames_ok_def
proof (intro conjI ballI)
  show "distinct (map fi_fork (filter (\<lambda>x. 0 < fi_fork x) (frames_in w')))" using assms(1,3) by (simp add: frames_ok_def)
  fix x assume "x \<in> set (frames_in w')"
  then have x: "x \<in> set (frames_in w)" using assms(3) by simp
  note X = assms(1) [unfolded frames_ok_def, THEN conjunct1, rule_format, OF x]
  show "fi_fork x \<noteq> 0" "fi_sigaction x" "\<forall>A. finite A \<longrightarrow> (\<exists>a. fi_entry x A = Some a \<and> a \<notin> A \<and> a \<noteq> 0)"
    using X by simp_all
  show "0 < fi_fork x \<longrightarrow> nat (fi_fork x) \<notin> fst ` set (children (srv w'))" using X assms(4) by blast
qed (use assms in simp)

lemma child_ended_world:
  assumes ok: "world_ok env ph pp ifs w" and z: "zombies w = (pid, st) # zs" and a: "waited w pid a"
  shows "\<exists>st'. run_child c pid st (ce_data (child_mem w a)) (w\<lparr>zombies := zs\<rparr>) = Some (Cont (w\<lparr>zombies := zs, srv := st'\<rparr>)) \<and>
    world_ok env ph pp ifs (child_remove a (w\<lparr>zombies := zs, srv := st'\<rparr>)) \<and> server_path env (srv w) st' \<and>
    children st' = filter (\<lambda>(q, s). q \<noteq> nat pid) (children (srv w))"
proof -
  have W: "server_reach env (srv w)" "child_inv w" "mirrored w" "frames_ok env w" "\<forall>z \<in> set (zombies w). 0 < fst z"
    using ok by (simp_all add: world_ok_def)
  define p where "p = nat pid"
  have p: "int p = pid" using W(5) z by (simp add: p_def)
  define s where "s = ce_data (child_mem w a)"
  have "(p, s) \<in> set (children (srv w))" using W(3) a by (auto simp: mirrored_def p s_def)
  then obtain st' where st': "childHandler s ((srv w)\<lparr>children := filter (\<lambda>(q, s). q \<noteq> p) (children (srv w))\<rparr>) = Some st'"
    "server_step env (Child_ended p) (srv w) = Some st'" "children st' = filter (\<lambda>(q, s). q \<noteq> p) (children (srv w))"
    using child_ended_runs [OF server_reach_inv [OF W(1)]] by blast
  have path: "server_path env (srv w) st'" by (rule path_step [OF _ st'(2)]) (simp add: event_ok_def)
  let ?w = "w\<lparr>zombies := zs, srv := st'\<rparr>"
  have i: "child_inv ?w" "waited ?w = waited w" using child_inv_cong [of ?w w] W(2) by simp_all
  have live: "a \<in> child_live ?w" using a by (simp add: waited_def)
  note R = child_remove_inv [OF i(1) live]
  have rw: "waited (child_remove a ?w) q b \<longleftrightarrow> b \<noteq> a \<and> waited w q b" for q b using R(2) i(2) by simp
  have mem: "child_mem (child_remove a ?w) = child_mem w" "child_live (child_remove a ?w) = child_live w - {a}"
    "srv (child_remove a ?w) = st'" "zombies (child_remove a ?w) = zs" "frames_in (child_remove a ?w) = frames_in w"
    by (simp_all add: child_remove_def)
  have "(q, t) \<in> set (children st') \<longleftrightarrow> (\<exists>b. waited (child_remove a ?w) (int q) b \<and> ce_data (child_mem w b) = t)" for q t
  proof -
    have "b = a \<longleftrightarrow> q = p" if "waited w (int q) b" for b
      using that a p waited_unique [OF W(2)] by (auto simp: waited_def)
    then show ?thesis using W(3) unfolding st'(3) rw mirrored_def by auto
  qed
  then have "mirrored (child_remove a ?w)" using W(3) by (simp add: mirrored_def mem)
  moreover have "frames_ok env (child_remove a ?w)"
    by (rule frames_ok_path [OF W(4)]) (use handles_step [OF _ st'(2)] W(4) st'(3) mem in \<open>auto simp: frames_ok_def\<close>)
  ultimately have "world_ok env ph pp ifs (child_remove a ?w)"
    using ok R(1) path_reach [OF path W(1)] path_interfaces [OF path] z
    by (simp add: world_ok_def mem) (simp add: child_remove_def)
  moreover have "run_child c pid st (ce_data (child_mem w a)) (w\<lparr>zombies := zs\<rparr>) = Some (Cont ?w)"
    using st'(1) by (simp add: run_child_def s_def p_def)
  ultimately show ?thesis using st'(3) path by (intro exI [of _ st']) (simp add: p_def)
qed

text \<open>
  Steps of the server that take ended processes from the front of the queue, with the children of these
  numbers, while others end.
\<close>

definition queue_step :: "server_env \<Rightarrow> server_loop \<Rightarrow> server_loop \<Rightarrow> bool" where
  "queue_step env w w' \<longleftrightarrow> loop_step env w w' \<and>
     (\<exists>zs new. zombies w @ new = zs @ zombies w' \<and> children (srv w') = filter (\<lambda>(p, s). int p \<notin> fst ` set zs) (children (srv w)))"

lemma queue_stepI:
  assumes "loop_step env w w'" "zombies w @ new = zs @ zombies w'"
    "children (srv w') = filter (\<lambda>(p, s). int p \<notin> fst ` set zs) (children (srv w))"
  shows "(queue_step env)\<^sup>*\<^sup>* w w'"
  by (rule r_into_rtranclp) (use assms in \<open>unfold queue_step_def, blast\<close>)

lemma queue_same:
  assumes "loop_step env w w'" "children (srv w') = children (srv w)" "zombies w' = zombies w @ new"
  shows "(queue_step env)\<^sup>*\<^sup>* w w'"
  by (rule queue_stepI [OF assms(1), of new "[]"]) (use assms in \<open>simp_all add: filter_True case_prod_beta\<close>)

lemma queue_steps:
  assumes "(queue_step env)\<^sup>*\<^sup>* w w'"
  shows "queue_step env w w'"
  using assms
proof (induction rule: rtranclp_induct)
  case base
  then show ?case by (auto simp: queue_step_def loop_step_def intro!: exI [of _ "[]"])
next
  case (step w1 w2)
  obtain xs m where x: "zombies w @ m = xs @ zombies w1" "children (srv w1) = filter (\<lambda>(p, s). int p \<notin> fst ` set xs) (children (srv w))"
    using step.IH by (auto simp: queue_step_def)
  obtain ys n where y: "zombies w1 @ n = ys @ zombies w2" "children (srv w2) = filter (\<lambda>(p, s). int p \<notin> fst ` set ys) (children (srv w1))"
    using step.hyps(2) by (auto simp: queue_step_def)
  have "loop_step env w w2" using step by (auto simp: queue_step_def loop_step_def intro: path_trans)
  moreover have "children (srv w2) = filter (\<lambda>(p, s). int p \<notin> fst ` set (xs @ ys)) (children (srv w))"
    unfolding x(2) y(2) filter_filter by (rule filter_cong [OF refl]) auto
  moreover have "zombies w @ (m @ n) = (xs @ ys) @ zombies w2" using x(1) y(1) by (metis append.assoc)
  ultimately show ?case unfolding queue_step_def by blast
qed

lemma queue_loop: "(queue_step env)\<^sup>*\<^sup>* w w' \<Longrightarrow> loop_step env w w'"
  by (drule queue_steps) (simp add: queue_step_def)

text \<open>A step of the server that may take ended processes from the front of the queue, with their entries.\<close>

definition reap_step :: "server_env \<Rightarrow> server_loop \<Rightarrow> server_loop \<Rightarrow> bool" where
  "reap_step env w w' \<longleftrightarrow> loop_step env w w' \<and>
     (\<exists>zs. zombies w = zs @ zombies w' \<and> children (srv w') = filter (\<lambda>(p, s). int p \<notin> fst ` set zs) (children (srv w)))"

lemma reap_steps:
  assumes "(reap_step env)\<^sup>*\<^sup>* w w'"
  shows "reap_step env w w'"
  using assms
proof (induction rule: rtranclp_induct)
  case base
  then show ?case by (auto simp: reap_step_def loop_step_def intro!: exI [of _ "[]"])
next
  case (step w1 w2)
  obtain xs where x: "zombies w = xs @ zombies w1" "children (srv w1) = filter (\<lambda>(p, s). int p \<notin> fst ` set xs) (children (srv w))"
    using step.IH by (auto simp: reap_step_def)
  obtain ys where y: "zombies w1 = ys @ zombies w2" "children (srv w2) = filter (\<lambda>(p, s). int p \<notin> fst ` set ys) (children (srv w1))"
    using step.hyps(2) by (auto simp: reap_step_def)
  have "loop_step env w w2" using step by (auto simp: reap_step_def loop_step_def intro: path_trans)
  moreover have "children (srv w2) = filter (\<lambda>(p, s). int p \<notin> fst ` set (xs @ ys)) (children (srv w))"
    unfolding x(2) y(2) filter_filter by (rule filter_cong [OF refl]) auto
  ultimately show ?case using x(1) y(1) by (auto simp: reap_step_def intro!: exI [of _ "xs @ ys"])
qed

lemma reap_stepI: "reap_step env w w' \<Longrightarrow> (reap_step env)\<^sup>*\<^sup>* w w'"
  by (rule r_into_rtranclp)

lemma reap_queue:
  assumes "(reap_step env)\<^sup>*\<^sup>* w w'"
  shows "(queue_step env)\<^sup>*\<^sup>* w w'"
proof -
  obtain zs where "loop_step env w w'" "zombies w = zs @ zombies w'"
    "children (srv w') = filter (\<lambda>(p, s). int p \<notin> fst ` set zs) (children (srv w))"
    using reap_steps [OF assms] by (auto simp: reap_step_def)
  then show ?thesis by (intro queue_stepI [of _ _ _ "[]" zs]) simp_all
qed

interpretation reap: child_handlers run_child "world_ok env ph pp ifs" "reap_step env" "\<lambda>_. False" for env ph pp ifs
proof
  show "child_inv w" if "world_ok env ph pp ifs w" for w using that by (simp add: world_ok_def)
  show "\<exists>h. ce_handler (child_mem w a) = Some h" if "world_ok env ph pp ifs w" "a \<in> child_live w" for w a
    using that by (simp add: world_ok_def)
  show "0 < pid" if "world_ok env ph pp ifs w" "(pid, st) \<in> set (zombies w)" for w pid st
    using that by (force simp: world_ok_def)
  show "world_ok env ph pp ifs (w\<lparr>zombies := zs\<rparr>) \<and> (reap_step env)\<^sup>*\<^sup>* w (w\<lparr>zombies := zs\<rparr>)"
    if ok: "world_ok env ph pp ifs w" and z: "zombies w = (pid, st) # zs" and none: "\<And>a. \<not> waited w pid a" for w pid st zs
  proof
    show "world_ok env ph pp ifs (w\<lparr>zombies := zs\<rparr>)"
      by (rule world_ok_cong [of _ w]) (use ok z in \<open>simp_all add: world_ok_def\<close>)
    have "int p \<noteq> pid" if "(p, s) \<in> set (children (srv w))" for p s
      using ok that none by (auto simp: world_ok_def mirrored_def)
    then have "filter (\<lambda>(p, s). int p \<notin> fst ` set [(pid, st)]) (children (srv w)) = children (srv w)"
      by (auto simp: filter_id_conv)
    then show "(reap_step env)\<^sup>*\<^sup>* w (w\<lparr>zombies := zs\<rparr>)"
      using z by (intro reap_stepI) (auto simp: reap_step_def loop_step_def intro!: exI [of _ "[(pid, st)]"])
  qed
  show "\<exists>r. run_child h pid st (ce_data (child_mem w a)) (w\<lparr>zombies := zs\<rparr>) = Some r \<and>
      (case r of
         Cont w' \<Rightarrow> world_ok env ph pp ifs (child_remove a w') \<and> (reap_step env)\<^sup>*\<^sup>* w (child_remove a w') \<and> zombies w' = zs \<and> steady w w'
       | Exit w' \<Rightarrow> (reap_step env)\<^sup>*\<^sup>* w w' \<and> False)"
    if ok: "world_ok env ph pp ifs w" and z: "zombies w = (pid, st) # zs" and a: "waited w pid a" for w pid st zs a h
  proof -
    obtain st' where st': "run_child h pid st (ce_data (child_mem w a)) (w\<lparr>zombies := zs\<rparr>) = Some (Cont (w\<lparr>zombies := zs, srv := st'\<rparr>))"
      "world_ok env ph pp ifs (child_remove a (w\<lparr>zombies := zs, srv := st'\<rparr>))" "server_path env (srv w) st'"
      "children st' = filter (\<lambda>(q, s). q \<noteq> nat pid) (children (srv w))"
      using child_ended_world [OF ok z a, of h] by blast
    have "0 < pid" using ok z by (simp add: world_ok_def)
    then have "children st' = filter (\<lambda>(p, s). int p \<notin> fst ` set [(pid, st)]) (children (srv w))"
      unfolding st'(4) by (intro filter_cong [OF refl]) auto
    then have "(reap_step env)\<^sup>*\<^sup>* w (child_remove a (w\<lparr>zombies := zs, srv := st'\<rparr>))"
      using st'(3) z by (intro reap_stepI) (auto simp: reap_step_def loop_step_def child_remove_def intro!: exI [of _ "[(pid, st)]"])
    then show ?thesis using st'(1,2) by (auto simp: steady_def)
  qed
qed

lemma remark_world:
  "world_ok env ph pp ifs w \<Longrightarrow> \<forall>x \<in> set xs. arrival_ok x \<Longrightarrow> world_ok env ph pp ifs (remark w f b p c (exits xs))"
  by (rule world_ok_cong [of _ w]) (auto simp: remark_def world_ok_def arrival_ok_def)

lemma terminate_children:
  assumes "server_step env Terminate st = Some st'"
  shows "children st' = children st"
  using assms kill_loop_same by (fastforce simp: server_step_def killAllSessions_def same_table_def)

interpretation sigs: signal_handlers run_signal "world_ok env ph pp ifs" "queue_step env" "loop_exit env" arrival_ok for env ph pp ifs
proof
  show "\<exists>r. run_signal h i w = Some r \<and>
      (case r of
         Cont w' \<Rightarrow> world_ok env ph pp ifs w' \<and> steady w w' \<and> (queue_step env)\<^sup>*\<^sup>* w w'
       | Exit w' \<Rightarrow> (queue_step env)\<^sup>*\<^sup>* w w' \<and> loop_exit env w')"
    if ok: "world_ok env ph pp ifs w" for w h i
  proof (cases h)
    case Term_handler
    have reach: "server_reach env (srv w)" using ok by (simp add: world_ok_def)
    obtain st' where st': "server_step env Terminate (srv w) = Some st'" using terminate_runs [OF server_reach_inv [OF reach]] by blast
    moreover have "event_ok Terminate (srv w)" by (simp add: event_ok_def)
    ultimately have "server_path env (srv w) st'" by (rule path_step [rotated])
    then have "(queue_step env)\<^sup>*\<^sup>* w (w\<lparr>srv := st'\<rparr>)"
      using terminate_children [OF st'] by (intro queue_same [of _ _ _ "[]"]) (simp_all add: loop_step_def)
    then show ?thesis using Term_handler st' reach
      by (auto simp: run_signal_def termHandler_def server_step_def loop_exit_def)
  next
    case Child_handler
    then show ?thesis using reap.reaps [OF ok] reap_queue by (fastforce simp: run_signal_def split: ctl.splits)
  qed
  show "world_ok env ph pp ifs (remark w f b p c (exits xs)) \<and> (queue_step env)\<^sup>*\<^sup>* w (remark w f b p c (exits xs))"
    if "world_ok env ph pp ifs w" "\<forall>x \<in> set xs. arrival_ok x" for w f b p c xs
  proof
    show "(queue_step env)\<^sup>*\<^sup>* w (remark w f b p c (exits xs))" by (rule queue_same) (simp_all add: remark_def loop_step_def)
  qed (rule remark_world [OF that])
  show "sig_of x < MAX_SIGNALS" if "arrival_ok x" for x using that by (simp add: arrival_ok_def)
qed

end
