(* ===== verification/Server_Callbacks.thy ===== *)
theory Server_Callbacks
  imports Server_Loop_Props
begin

text \<open>
  The callbacks of the PPPoE server keep the contract of the event selector: a frame that is taken from
  an interface, with the registration of the child that it may start, and the pipe of the signals.
\<close>

section \<open>The handlers of the selector\<close>

definition reg_ok :: "nat \<Rightarrow> int \<times> int \<Rightarrow> Interface list \<Rightarrow> nat \<Rightarrow> (srv_fn, nat) registered \<Rightarrow> bool" where
  "reg_ok ph pp ifs x c \<longleftrightarrow> (x = ph \<and> c = (DoPipe_cb, fst pp, 0, EVENT_FLAG_READABLE)) \<or>
     (\<exists>i < length ifs. c = (InterfaceHandler_cb, if_sock (ifs ! i), i, EVENT_FLAG_READABLE))"

definition loop_ok ::
  "server_env \<Rightarrow> nat \<Rightarrow> int \<times> int \<Rightarrow> Interface list \<Rightarrow> (nat \<Rightarrow> (srv_fn, nat) registered option) \<Rightarrow> server_loop \<Rightarrow> bool" where
  "loop_ok env ph pp ifs m w \<longleftrightarrow> world_ok env ph pp ifs w \<and> pipe_ok w \<and> (\<forall>x c. m x = Some c \<longrightarrow> reg_ok ph pp ifs x c)"

text \<open>A read of the pipe does not wait.\<close>

definition pipe_rdy :: "(srv_fn, nat) registered \<Rightarrow> server_loop \<Rightarrow> bool" where
  "pipe_rdy c w \<longleftrightarrow> (fst c = DoPipe_cb \<longrightarrow> Pipe_bytes w \<noteq> [])"

lemma child_inv_finite: "child_inv w \<Longrightarrow> finite (child_live w)"
  unfolding child_inv_def by (metis finite_set)

lemma frames_okD:
  assumes "frames_ok env w" "x \<in> set (frames_in w)"
  shows "fi_fork x \<noteq> 0" "fi_sigaction x" "finite A \<Longrightarrow> \<exists>a. fi_entry x A = Some a \<and> a \<notin> A \<and> a \<noteq> 0"
    "0 < fi_fork x \<Longrightarrow> nat (fi_fork x) \<notin> fst ` set (children (srv w))"
  using assms(1) [unfolded frames_ok_def, THEN conjunct1, rule_format, OF assms(2)] by simp_all

text \<open>A frame that is taken from the interface.\<close>

lemma frame_world:
  assumes ok: "world_ok env ph pp ifs w" and x: "frames_in w = x # xs"
    and st: "server_path env (srv w) st'" "server_handles env xs st'" and ch: "children st' = children (srv w)"
  shows "world_ok env ph pp ifs (w\<lparr>srv := st', frames_in := xs\<rparr>)"
proof -
  have W: "server_reach env (srv w)" "child_inv w" "mirrored w" "frames_ok env w" using ok by (simp_all add: world_ok_def)
  let ?w = "w\<lparr>srv := st', frames_in := xs\<rparr>"
  have "frames_ok env ?w" using W(4) x st(2) ch unfolding frames_ok_def by (auto split: if_splits)
  moreover have c: "child_inv ?w = child_inv w" "waited ?w = waited w" using child_inv_cong [of ?w w] by simp_all
  moreover have "mirrored ?w" using W(3) ch c(2) by (simp add: mirrored_def)
  ultimately show ?thesis using ok path_reach [OF st(1) W(1)] path_interfaces [OF st(1)] by (simp add: world_ok_def)
qed

lemma sig_func_world: "world_ok env ph pp ifs w \<Longrightarrow> world_ok env ph pp ifs (w\<lparr>sig_func := f\<rparr>)"
  by (rule world_ok_cong [of _ w]) (simp_all add: world_ok_def)

text \<open>The same frame when it starts a child, whose exit is waited for.\<close>

lemma fork_world:
  assumes ok: "world_ok env ph pp ifs w" and x: "frames_in w = x # xs" and a: "fi_entry x (child_live w) = Some a"
    and st: "server_path env (srv w) st'" "server_handles env xs st'"
    and ch: "children st' = children (srv w) @ [(nat (fi_fork x), s)]" and p: "0 < fi_fork x"
  shows "world_ok env ph pp ifs (child_insert a \<lparr>ce_handler = Some ChildHandler_fn, ce_pid = fi_fork x, ce_data = s\<rparr>
      (w\<lparr>srv := st', frames_in := xs\<rparr>))"
proof -
  have W: "server_reach env (srv w)" "child_inv w" "mirrored w" "frames_ok env w" using ok by (simp_all add: world_ok_def)
  let ?w = "w\<lparr>srv := st', frames_in := xs\<rparr>"
  let ?e = "\<lparr>ce_handler = Some ChildHandler_fn, ce_pid = fi_fork x, ce_data = s\<rparr>"
  define w' where "w' = child_insert a ?e ?w"
  have X: "nat (fi_fork x) \<notin> fst ` set (children (srv w))" "a \<notin> child_live w" "a \<noteq> 0"
    using frames_okD(3,4) [OF W(4), of x] child_inv_finite [OF W(2)] x p a by force+
  have c: "child_inv ?w" "waited ?w = waited w" using W(2) child_inv_cong [of ?w w] by simp_all
  have new: "\<not> waited w (fi_fork x) b" for b
  proof
    assume "waited w (fi_fork x) b"
    then have "(nat (fi_fork x), ce_data (child_mem w b)) \<in> set (children (srv w))" using W(3) p by (auto simp: mirrored_def)
    then show False using X(1) by force
  qed
  note I = child_insert_inv [OF c(1), of a ?e]
  have I1: "child_inv w'" using I(1) X(2,3) new c(2) by (simp add: w'_def)
  have I2: "waited w' q b \<longleftrightarrow> (if b = a then q = fi_fork x else waited w q b)" for q b
    using I(2) X(2,3) new c(2) by (simp add: w'_def)
  have f: "child_mem w' = (child_mem w)(a := ?e)" "child_live w' = insert a (child_live w)" "srv w' = st'" "frames_in w' = xs"
    "zombies w' = zombies w" "irqs_in w' = irqs_in w" "PipeHandler w' = PipeHandler w" "Pipe w' = Pipe w"
    by (simp_all add: w'_def child_insert_def Let_def)
  have "(q, t) \<in> set (children st') \<longleftrightarrow> (\<exists>b. waited w' (int q) b \<and> ce_data (child_mem w' b) = t)" for q t
  proof -
    have "b \<noteq> a" if "waited w (int q) b" for b using that X(2) by (auto simp: waited_def)
    moreover have "(q, t) = (nat (fi_fork x), s) \<longleftrightarrow> int q = fi_fork x \<and> t = s" using p by auto
    ultimately show ?thesis using W(3) unfolding ch I2 f mirrored_def by auto
  qed
  then have m: "mirrored w'" using W(3) p by (simp add: mirrored_def f)
  have "frames_ok env w'"
    unfolding frames_ok_def f
  proof (intro conjI ballI)
    have d: "distinct (map fi_fork (filter (\<lambda>x. 0 < fi_fork x) (x # xs)))" using W(4) x by (simp add: frames_ok_def)
    then show "distinct (map fi_fork (filter (\<lambda>x. 0 < fi_fork x) xs))" using p by simp
    fix y assume y: "y \<in> set xs"
    then have "y \<in> set (frames_in w)" using x by simp
    note Y = frames_okD [OF W(4) this]
    show "fi_fork y \<noteq> 0" "fi_sigaction y" "\<forall>A. finite A \<longrightarrow> (\<exists>a. fi_entry y A = Some a \<and> a \<notin> A \<and> a \<noteq> 0)" using Y(1-3) by simp_all
    show "0 < fi_fork y \<longrightarrow> nat (fi_fork y) \<notin> fst ` set (children st')"
    proof
      assume "0 < fi_fork y"
      then have "fi_fork y \<in> set (map fi_fork (filter (\<lambda>x. 0 < fi_fork x) xs))" using y by simp
      moreover have "fi_fork x \<notin> set (map fi_fork (filter (\<lambda>x. 0 < fi_fork x) xs))" using d p by simp
      ultimately have "fi_fork y \<noteq> fi_fork x" by metis
      then have "nat (fi_fork y) \<noteq> nat (fi_fork x)" using p \<open>0 < fi_fork y\<close> by simp
      then show "nat (fi_fork y) \<notin> fst ` set (children st')" using Y(4) \<open>0 < fi_fork y\<close> ch by simp
    qed
  qed (rule st(2))
  then show ?thesis
    using ok I1 m path_reach [OF st(1) W(1)] path_interfaces [OF st(1)] unfolding w'_def [symmetric] by (auto simp: world_ok_def f)
qed

text \<open>What the callbacks of the server do to the selector: nothing but to its world.\<close>

definition only_world :: "('f, 'd, 'w) selector \<Rightarrow> ('f, 'd, 'w) selector \<Rightarrow> bool" where
  "only_world es es' \<longleftrightarrow> (\<exists>w. es' = es\<lparr>es_world := w\<rparr>)"

lemma world_hinv [simp]: "hinv (es\<lparr>es_world := w\<rparr>) xs = hinv es xs"
  by (simp add: hinv_def deleted_def)

lemma only_world_grows: "only_world es es' \<Longrightarrow> hinv es xs \<Longrightarrow> grows es xs [] es'"
  by (auto simp: only_world_def grows_def)

lemma only_world_good: "only_world es es' \<Longrightarrow> hinv es xs \<Longrightarrow> G (core es) (es_world es') \<Longrightarrow> good G es' xs"
  by (auto simp: only_world_def good_def)

lemma InterfaceHandler_runs:
  assumes ok: "world_ok env ph pp ifs (es_world es)" and i: "i < length ifs"
  shows "\<exists>w'. InterfaceHandler env i es = Some (Cont (es\<lparr>es_world := w'\<rparr>)) \<and> world_ok env ph pp ifs w' \<and>
    loop_step env (es_world es) w' \<and> Pipe_bytes w' = Pipe_bytes (es_world es) \<and> PipeFull w' = PipeFull (es_world es)"
proof (cases "frames_in (es_world es)")
  case Nil
  then show ?thesis using ok by (intro exI [of _ "es_world es"]) (simp add: InterfaceHandler_def loop_step_def)
next
  case (Cons x xs)
  define w where "w = es_world es"
  have ok: "world_ok env ph pp ifs w" "frames_in w = x # xs" using ok Cons by (simp_all add: w_def)
  have F: "frames_ok env w" "x \<in> set (frames_in w)" "i < length (interfaces (srv w))" using ok i by (simp_all add: world_ok_def)
  note X = frames_okD [OF F(1,2)]
  have "server_handles env (x # xs) (srv w)" using F(1) ok(2) by (simp add: frames_ok_def)
  from this F(3) obtain st' where st': "serverProcessPacket env i (fi_recv x) (fi_now x) (fi_fork x) (srv w) = Some st'" "server_handles env xs st'"
    by (rule handles_next)
  have "fork_ok (fi_fork x) (srv w)" unfolding fork_ok_def using X(1,4) linorder_neq_iff [of "fi_fork x" 0] by blast
  then have path: "server_path env (srv w) st'"
    using path_step [of "Interface_readable i (fi_recv x) (fi_now x) (fi_fork x)" "srv w" env st'] st'(1)
    by (simp add: event_ok_def server_step_def)
  let ?w = "w\<lparr>srv := st', frames_in := xs\<rparr>"
  have run: "InterfaceHandler env i es = map_option Cont (register_children x (drop (length (children (srv w))) (children st')) (es\<lparr>es_world := ?w\<rparr>))"
    using ok(2) st'(1) by (simp add: InterfaceHandler_def w_def [symmetric] upd_world_def Let_def)
  from frame_children [OF st'(1) X(1)] show ?thesis
  proof (elim disjE conjE exE)
    assume "children st' = children (srv w)"
    then show ?thesis using run frame_world [OF ok path st'(2)] path
      by (intro exI [of _ ?w]) (simp add: loop_step_def w_def [symmetric])
  next
    fix s assume p: "0 < fi_fork x" and ch: "children st' = children (srv w) @ [(nat (fi_fork x), s)]"
    obtain a where a: "fi_entry x (child_live w) = Some a"
      using X(3) [OF child_inv_finite, of w] ok(1) unfolding world_ok_def by blast
    let ?e = "\<lparr>ce_handler = Some ChildHandler_fn, ce_pid = fi_fork x, ce_data = s\<rparr>"
    let ?f = "(sig_func w)(SIGCHLD \<mapsto> Child_handler)"
    let ?v = "w\<lparr>sig_func := ?f\<rparr>"
    have eq: "?w\<lparr>sig_func := ?f\<rparr> = ?v\<lparr>srv := st', frames_in := xs\<rparr>" by (rule server_loop.equality) simp_all
    have sg: "\<not> MAX_SIGNALS \<le> SIGCHLD" by (simp add: MAX_SIGNALS_def SIGCHLD_def)
    have "PipeHandler w = Some ph" using ok by (simp add: world_ok_def)
    then have "register_children x [(nat (fi_fork x), s)] (es\<lparr>es_world := ?w\<rparr>) =
        Some (es\<lparr>es_world := child_insert a ?e (?v\<lparr>srv := st', frames_in := xs\<rparr>)\<rparr>)"
      using p X(2) a by (simp add: eq Event_HandleChildExit_def Event_HandleSignal_def SetupPipes_def server_lib_def upd_world_def sg)
    moreover have "world_ok env ph pp ifs (child_insert a ?e (?v\<lparr>srv := st', frames_in := xs\<rparr>))"
      by (rule fork_world [OF sig_func_world [OF ok(1)]]) (use ok(2) a path st'(2) ch p in simp_all)
    ultimately show ?thesis using run path ch
      by (intro exI [of _ "child_insert a ?e (?v\<lparr>srv := st', frames_in := xs\<rparr>)"])
        (simp add: loop_step_def w_def [symmetric] child_insert_def Let_def)
  qed
qed

lemma next_irq_ok:
  assumes "\<forall>q \<in> set (irqs_in w). irq_ok q"
  shows "irq_ok (next_irq w)"
  using assms by (cases "irqs_in w") (simp_all add: next_irq_def irq_ok_def no_irq_def)

lemma pipe_callback_runs:
  assumes ok: "world_ok env ph pp ifs (es_world es)" and p: "pipe_ok (es_world es)" "Pipe_bytes (es_world es) \<noteq> []"
  shows "\<exists>r. pipe_callback es = Some r \<and> (case r of
      Cont es' \<Rightarrow> (\<exists>w'. es' = es\<lparr>es_world := w'\<rparr> \<and> world_ok env ph pp ifs w' \<and> pipe_ok w' \<and> loop_step env (es_world es) w')
    | Exit es' \<Rightarrow> loop_step env (es_world es) (es_world es') \<and> loop_exit env (es_world es'))"
proof -
  define w where "w = es_world es"
  let ?w = "w\<lparr>irqs_in := tl (irqs_in w)\<rparr>"
  have w: "world_ok env ph pp ifs w" "pipe_ok w" "PipeFull w" using ok p by (simp_all add: w_def pipe_ok_def)
  have "\<forall>q \<in> set (tl (irqs_in w)). irq_ok q" using w(1) by (cases "irqs_in w") (simp_all add: world_ok_def)
  then have "world_ok env ph pp ifs ?w"
    using w(1) child_inv_cong [of ?w w] by (simp add: world_ok_def mirrored_def frames_ok_def)
  moreover have "pipe_ok ?w" "PipeFull ?w" using w(2,3) by (simp_all add: pipe_ok_def)
  moreover have "irq_ok (next_irq w)" using w(1) by (intro next_irq_ok) (simp add: world_ok_def)
  then have "\<forall>x \<in> set (irq_read (next_irq w)). arrival_ok x"
    "\<forall>j. \<forall>x \<in> set (irq_call (next_irq w) j) \<union> set (irq_gap (next_irq w) j). arrival_ok x"
    unfolding irq_ok_def by blast+
  ultimately obtain r where r: "DoPipe run_signal (next_irq w) ?w = Some r" "case r of
      Exit w' \<Rightarrow> (queue_step env)\<^sup>*\<^sup>* ?w w' \<and> loop_exit env w'
    | Cont w' \<Rightarrow> world_ok env ph pp ifs w' \<and> (queue_step env)\<^sup>*\<^sup>* ?w w' \<and>
        passed (next_irq w) 0 MAX_SIGNALS (?w\<lparr>fired := (\<lambda>i. fired ?w i \<or> i \<in> sigs (irq_read (next_irq w))), Pipe_bytes := [], PipeFull := False\<rparr>) w'"
    using sigs.DoPipe_run [of env ph pp ifs ?w "next_irq w"] by blast
  have step: "(queue_step env)\<^sup>*\<^sup>* ?w w' \<Longrightarrow> loop_step env w w'" for w'
    by (drule queue_loop) (simp add: loop_step_def)
  show ?thesis
  proof (cases r)
    case (Cont w')
    then have "world_ok env ph pp ifs w'" "pipe_ok w'" "loop_step env w w'" using r(2) step by (simp_all add: passed_def)
    moreover have "pipe_callback es = Some (Cont (es\<lparr>es_world := w'\<rparr>))"
      using r(1) Cont by (simp add: pipe_callback_def w_def [symmetric] Let_def)
    ultimately show ?thesis unfolding w_def [symmetric] by auto
  next
    case (Exit w')
    then show ?thesis using r step by (simp add: pipe_callback_def w_def [symmetric] Let_def)
  qed
qed

text \<open>No callback of the server touches the record of the calls, or destroys the selector.\<close>

definition tame :: "('f, 'd, 'w) selector \<Rightarrow> ('f, 'd, 'w) selector \<Rightarrow> bool" where
  "tame es es' \<longleftrightarrow> es_calls es' = es_calls es \<and> destroyPending es' = destroyPending es \<and> es_freed es' = es_freed es"

lemma tame_refl [simp, intro]: "tame es es"
  by (simp add: tame_def)

lemma tame_world [simp, intro]: "tame es es' \<Longrightarrow> tame es (upd_world g es')" "tame es es' \<Longrightarrow> tame es (es'\<lparr>es_world := w\<rparr>)"
  by (simp_all add: tame_def upd_world_def)

lemma tame_trans: "tame es es' \<Longrightarrow> tame es' es'' \<Longrightarrow> tame es es''"
  by (simp add: tame_def)

lemma AddHandler_tame: "tame es (snd (Event_AddHandler m fd flags f d es))"
  by (simp add: Event_AddHandler_def Let_def push_handler_def set_handler_def tame_def split: option.split)

lemma SetupPipes_tame: "tame es (snd (SetupPipes lib sys es))"
proof (cases "PipeHandler (es_world es) = None")
  case True
  show ?thesis
  proof (cases "sys_pipe sys")
    case None
    then show ?thesis using True by (simp add: SetupPipes_def Let_def)
  next
    case (Some rw)
    then show ?thesis using True
      by (cases rw) (auto simp: SetupPipes_def Let_def case_prod_beta intro!: tame_world(1) tame_trans [OF _ AddHandler_tame])
  qed
qed (simp add: SetupPipes_def)

lemma HandleSignal_tame: "Event_HandleSignal lib sys s h es = Some (r, es') \<Longrightarrow> tame es es'"
  using SetupPipes_tame [of es lib sys] by (auto simp: Event_HandleSignal_def split: prod.splits if_splits)

lemma HandleChildExit_tame: "Event_HandleChildExit lib sys p h d es = Some (r, es') \<Longrightarrow> tame es es'"
  by (auto simp: Event_HandleChildExit_def bind_eq_Some_conv split: if_splits option.splits dest!: HandleSignal_tame)

lemma register_tame: "register_children x cs es = Some es' \<Longrightarrow> tame es es'"
proof (induction cs arbitrary: es)
  case (Cons c cs)
  obtain p s where c: "c = (p, s)" by (cases c)
  obtain r es1 where 1: "Event_HandleChildExit server_lib \<lparr>sys_handler = None, sys_entry = fi_entry x (child_live (es_world es)), sys_pipe = None, sys_sigaction = fi_sigaction x\<rparr>
      (int p) (Some ChildHandler_fn) s es = Some (r, es1)" "register_children x cs es1 = Some es'"
    using Cons.prems by (auto simp: c bind_eq_Some_conv)
  then show ?case using HandleChildExit_tame [OF 1(1)] Cons.IH [OF 1(2)] tame_trans by blast
qed simp

lemma callback_tame:
  assumes "server_callback env f fd flags d es = Some (Cont es')"
  shows "tame es es'"
proof (cases f)
  case DoPipe_cb
  then obtain r where "DoPipe run_signal (next_irq (es_world es)) ((es_world es)\<lparr>irqs_in := tl (irqs_in (es_world es))\<rparr>) = Some r"
    "Cont es' = (case r of Cont w \<Rightarrow> Cont (es\<lparr>es_world := w\<rparr>) | Exit w \<Rightarrow> Exit (es\<lparr>es_world := w\<rparr>))"
    using assms by (auto simp: server_callback_def pipe_callback_def Let_def)
  then show ?thesis by (cases r) auto
next
  case InterfaceHandler_cb
  show ?thesis
  proof (cases "frames_in (es_world es)")
    case (Cons x xs)
    then obtain st cs where "register_children x cs (upd_world (\<lambda>w. w\<lparr>srv := st, frames_in := xs\<rparr>) es) = Some es'"
      using assms InterfaceHandler_cb by (auto simp: server_callback_def InterfaceHandler_def Let_def bind_eq_Some_conv)
    then show ?thesis using register_tame tame_trans tame_world(1) tame_refl by blast
  qed (use assms InterfaceHandler_cb in \<open>simp add: server_callback_def InterfaceHandler_def\<close>)
qed

interpretation loop: quiet_callbacks "server_callback env" "loop_ok env ph pp ifs" "loop_step env" "loop_exit env" pipe_rdy for env ph pp ifs
proof
  show "loop_ok env ph pp ifs m' w" if "loop_ok env ph pp ifs m w" "m' \<subseteq>\<^sub>m m" for m m' w
  proof -
    have "m x = Some c" if "m' x = Some c" for x c using that \<open>m' \<subseteq>\<^sub>m m\<close> by (metis map_le_def domI)
    then show ?thesis using \<open>loop_ok env ph pp ifs m w\<close> by (simp add: loop_ok_def)
  qed
  show "es_calls es' = es_calls es"
    if "server_callback env f fd flags d es = Some (Cont es')" for f fd flags d es es'
    using callback_tame [OF that] by (simp add: tame_def)
  fix es :: server_selector and xs x f fd d k flags
  assume g: "good (loop_ok env ph pp ifs) es xs" and c: "core es x = Some (f, fd, d, k)"
    and r: "k AND NOT EVENT_FLAG_READABLE \<noteq> 0 \<or> rdy_at pipe_rdy es x"
  define w where "w = es_world es"
  have W: "world_ok env ph pp ifs w" "pipe_ok w" "\<And>y c. core es y = Some c \<Longrightarrow> reg_ok ph pp ifs y c" and h: "hinv es xs"
    using g unfolding good_def loop_ok_def w_def by blast+
  have fin: "ends (loop_ok env ph pp ifs) (loop_step env) (loop_exit env) es xs (Cont (es\<lparr>es_world := w'\<rparr>))"
    if "world_ok env ph pp ifs w'" "pipe_ok w'" "loop_step env w w'" for w'
  proof -
    have o: "only_world es (es\<lparr>es_world := w'\<rparr>)" by (auto simp: only_world_def)
    have "grows es xs [] (es\<lparr>es_world := w'\<rparr>)" by (rule only_world_grows [OF o h])
    moreover have "good (loop_ok env ph pp ifs) (es\<lparr>es_world := w'\<rparr>) ([] @ xs)"
      using that W(3) h by (simp add: good_def loop_ok_def)
    moreover have "(loop_step env)\<^sup>*\<^sup>* w w'" using that(3) by (rule r_into_rtranclp)
    ultimately show ?thesis by (auto simp: ends_def w_def)
  qed
  show "\<exists>r. server_callback env f fd flags d es = Some r \<and> ends (loop_ok env ph pp ifs) (loop_step env) (loop_exit env) es xs r \<and>
      (\<forall>es' y. r = Cont es' \<longrightarrow> y \<in> set xs \<longrightarrow> y \<noteq> x \<longrightarrow> rdy_at pipe_rdy es y \<longrightarrow> rdy_at pipe_rdy es' y)"
  proof (cases f)
    case InterfaceHandler_cb
    then have d: "d < length ifs" using W(3) [OF c] by (auto simp: reg_ok_def)
    obtain w' where w': "InterfaceHandler env d es = Some (Cont (es\<lparr>es_world := w'\<rparr>))" "world_ok env ph pp ifs w'"
      "loop_step env w w'" "Pipe_bytes w' = Pipe_bytes w" "PipeFull w' = PipeFull w"
      using InterfaceHandler_runs [OF W(1) [unfolded w_def] d] unfolding w_def by blast
    have "pipe_ok w'" using W(2) w'(4,5) by (simp add: pipe_ok_def)
    then show ?thesis using fin [of w'] w' InterfaceHandler_cb
      by (auto simp: server_callback_def rdy_at_def pipe_rdy_def w_def)
  next
    case DoPipe_cb
    then have x: "x = ph" "k = EVENT_FLAG_READABLE" using W(3) [OF c] by (auto simp: reg_ok_def)
    then have "rdy_at pipe_rdy es x" using r by simp
    then have ne: "Pipe_bytes w \<noteq> []" using c DoPipe_cb by (simp add: rdy_at_def pipe_rdy_def w_def)
    obtain r where r: "pipe_callback es = Some r" "case r of
        Cont es' \<Rightarrow> (\<exists>w'. es' = es\<lparr>es_world := w'\<rparr> \<and> world_ok env ph pp ifs w' \<and> pipe_ok w' \<and> loop_step env w w')
      | Exit es' \<Rightarrow> loop_step env w (es_world es') \<and> loop_exit env (es_world es')"
      using pipe_callback_runs [OF W(1,2) [unfolded w_def] ne [unfolded w_def]] unfolding w_def by blast
    have other: "rdy_at pipe_rdy (es\<lparr>es_world := w'\<rparr>) y" if "y \<noteq> x" for w' y
      using W(3) [of y] that x(1) by (auto simp: rdy_at_def pipe_rdy_def reg_ok_def)
    show ?thesis
    proof (cases r)
      case (Cont es')
      then obtain w' where w': "es' = es\<lparr>es_world := w'\<rparr>" "world_ok env ph pp ifs w'" "pipe_ok w'" "loop_step env w w'"
        using r(2) by auto
      show ?thesis using r(1) DoPipe_cb Cont fin [OF w'(2-4)] other w'(1)
        by (simp add: server_callback_def)
    next
      case (Exit es')
      then show ?thesis using r DoPipe_cb by (auto simp: server_callback_def ends_def w_def)
    qed
  qed
qed

section \<open>The selector is not destroyed\<close>

definition lives :: "('f, 'd, 'w) selector \<Rightarrow> ('f, 'd, 'w) selector \<Rightarrow> bool" where
  "lives es es' \<longleftrightarrow> destroyPending es' = destroyPending es \<and> es_freed es' = es_freed es"

lemma lives_trans: "lives es es' \<Longrightarrow> lives es' es'' \<Longrightarrow> lives es es''"
  by (simp add: lives_def)

lemma mark_lives: "mark_deleted a es = Some es' \<Longrightarrow> lives es es'"
  by (auto simp: mark_deleted_def upd_handler_def set_handler_def lives_def)

lemma call_handler_lives:
  assumes fn: "\<And>f fd k d es es'. fn f fd k d es = Some (Cont es') \<Longrightarrow> lives es es'"
    and run: "call_handler fn now R W a h es = Some (Cont es')"
  shows "lives es es'"
proof -
  have cb: "lives es1 es2" if "do_callback fn b k es1 = Some (Cont es2)" for b k es1 es2
    using that fn by (auto simp: do_callback_def bind_eq_Some_conv lives_def split: if_splits)
  obtain es1 where "do_callback fn a (ready_flags h R W now) es1 = Some (Cont es')" "es1 = es \<or> mark_deleted a es = Some es1"
    using run by (auto simp: call_handler_def bind_eq_Some_conv split: if_splits)
  then show ?thesis using cb mark_lives lives_trans by blast
qed

lemma dispatch_lives:
  assumes fn: "\<And>f fd k d es es'. fn f fd k d es = Some (Cont es') \<Longrightarrow> lives es es'"
    and run: "dispatch fn now R W p es = Some r"
  shows "\<forall>es'. r = Cont es' \<longrightarrow> lives es es'"
proof -
  have "g = fn \<longrightarrow> (\<forall>es'. r = Cont es' \<longrightarrow> lives es es')" if "dispatch g now R W p es = Some r" for g
  proof (rule dispatch.raw_induct [OF _ that, where P = "\<lambda>g now R W p es r. g = fn \<longrightarrow> (\<forall>es'. r = Cont es' \<longrightarrow> lives es es')"], intro impI allI)
    fix D g now R W p es r es'
    assume IH: "\<And>g now R W p es r. D g now R W p es = Some r \<Longrightarrow> g = fn \<longrightarrow> (\<forall>es'. r = Cont es' \<longrightarrow> lives es es')"
      and D: "(case p of None \<Rightarrow> Some (Cont es)
          | Some a \<Rightarrow> Option.bind (es_heap es a) (\<lambda>h.
              if has_flag EVENT_FLAG_DELETED h then D g now R W (eh_next h) es
              else Option.bind (call_handler g now R W a h es) (\<lambda>r. case r of
                  Cont es \<Rightarrow> Option.bind (es_heap es a) (\<lambda>h. D g now R W (eh_next h) es)
                | Exit es \<Rightarrow> Some (Exit es)))) = Some r"
      and g: "g = fn" "r = Cont es'"
    show "lives es es'"
    proof (cases p)
      case None
      then show ?thesis using D g(2) by (simp add: lives_def)
    next
      case (Some a)
      then obtain h where h: "es_heap es a = Some h" using D by (cases "es_heap es a") simp_all
      show ?thesis
      proof (cases "has_flag EVENT_FLAG_DELETED h")
        case True
        then show ?thesis using D Some h IH g by simp
      next
        case False
        obtain c where c: "call_handler fn now R W a h es = Some c" "(case c of
                  Cont es \<Rightarrow> Option.bind (es_heap es a) (\<lambda>h. D fn now R W (eh_next h) es)
                | Exit es \<Rightarrow> Some (Exit es)) = Some (Cont es')"
          using D Some h g False by (auto simp: bind_eq_Some_conv)
        then obtain es1 q where 1: "call_handler fn now R W a h es = Some (Cont es1)" "D fn now R W q es1 = Some (Cont es')"
          by (cases c) (auto simp: bind_eq_Some_conv)
        then have "lives es es1" by (intro call_handler_lives [OF _ 1(1)] fn)
        then show ?thesis using IH [OF 1(2)] lives_trans by blast
      qed
    qed
  qed
  then show ?thesis using run by blast
qed

lemma unlink_lives: "unlink_after prev nxt es = Some es' \<Longrightarrow> lives es es'"
  by (auto simp: unlink_after_def upd_handler_def set_handler_def lives_def split: option.splits)

lemma purge_lives:
  assumes "purge_loop cur prev es = Some es'"
  shows "lives es es'"
proof (rule purge_loop.raw_induct [OF _ assms, where P = "\<lambda>cur prev es es'. lives es es'"])
  fix D cur prev es es'
  assume IH: "\<And>cur prev es es'. D cur prev es = Some es' \<Longrightarrow> lives es es'"
    and D: "(case cur of None \<Rightarrow> Some es
        | Some c \<Rightarrow> Option.bind (es_heap es c) (\<lambda>h.
            if \<not> has_flag EVENT_FLAG_DELETED h then D (eh_next h) (Some c) es
            else Option.bind (unlink_after prev (eh_next h) es) (\<lambda>es. D (eh_next h) prev (DestroyHandler c es)))) = Some es'"
  show "lives es es'"
  proof (cases cur)
    case None
    then show ?thesis using D by (simp add: lives_def)
  next
    case (Some c)
    then obtain h where h: "es_heap es c = Some h" using D by (cases "es_heap es c") simp_all
    show ?thesis
    proof (cases "has_flag EVENT_FLAG_DELETED h")
      case True
      then obtain es1 where 1: "unlink_after prev (eh_next h) es = Some es1" "D (eh_next h) prev (DestroyHandler c es1) = Some es'"
        using D Some h by (auto simp: bind_eq_Some_conv)
      have "lives es1 (DestroyHandler c es1)" by (simp add: lives_def DestroyHandler_def)
      then show ?thesis using unlink_lives [OF 1(1)] IH [OF 1(2)] lives_trans by blast
    qed (use D Some h IH in simp)
  qed
qed

lemma end_pass_lives:
  assumes "end_pass k es = Some (Cont (r, es'))" "\<not> destroyPending es"
  shows "r = k \<and> lives es es'"
proof (cases "nestLevel es - 1 = 0 \<and> opsPending es")
  case True
  then have "r = k" "DoPendingChanges (es\<lparr>nestLevel := nestLevel es - 1\<rparr>) = Some es'" using assms(1) by (auto simp: end_pass_def)
  then show ?thesis using assms(2) purge_lives by (fastforce simp: DoPendingChanges_def lives_def)
next
  case False
  then show ?thesis using assms(1) by (auto simp: end_pass_def lives_def)
qed

lemma do_select_not_interrupted: "do_select rs = Some r \<Longrightarrow> r \<noteq> Interrupted"
  by (induction rs rule: do_select.induct) auto

text \<open>A pass that ends keeps the selector; its result is negative only after an error of \<open>select\<close>.\<close>

lemma HandleEvent_lives:
  assumes fn: "\<And>f fd k d es es'. fn f fd k d es = Some (Cont es') \<Longrightarrow> lives es es'"
    and run: "Event_HandleEvent fn env es = Some (Cont (r, es'))" and d: "\<not> destroyPending es"
  shows "lives es es' \<and> (r < 0 \<longrightarrow> (\<exists>s. wait_select env s = Some Select_error))"
proof -
  obtain s sr where s: "build_sets (es_handlers es) es no_sets = Some s" "wait_select env s = Some sr"
    using run by (auto simp: Event_HandleEvent_def bind_eq_Some_conv)
  let ?es = "es\<lparr>nestLevel := nestLevel es + 1\<rparr>"
  have l: "lives es ?es" "\<not> destroyPending ?es" using d by (simp_all add: lives_def)
  show ?thesis
  proof (cases sr)
    case (Selected n R W)
    then obtain c where c: "dispatch fn (now_after env) (if foundReadEvent s then R else {}) (if foundWriteEvent s then W else {}) (es_handlers es) ?es = Some c"
      "(case c of Cont es \<Rightarrow> end_pass (int n) es | Exit es \<Rightarrow> Some (Exit es)) = Some (Cont (r, es'))"
      using run by (auto simp: Event_HandleEvent_def s bind_eq_Some_conv Let_def)
    then obtain es1 where 1: "dispatch fn (now_after env) (if foundReadEvent s then R else {}) (if foundWriteEvent s then W else {}) (es_handlers es) ?es = Some (Cont es1)"
      "end_pass (int n) es1 = Some (Cont (r, es'))"
      by (cases c) auto
    have "lives ?es es1" using dispatch_lives [OF fn 1(1)] by simp
    moreover from this have "\<not> destroyPending es1" using d by (simp add: lives_def)
    ultimately show ?thesis using end_pass_lives [OF 1(2)] l(1) by (auto simp: lives_def)
  next
    case Select_error
    then have "end_pass (- 1) ?es = Some (Cont (r, es'))" using run by (simp add: Event_HandleEvent_def s Let_def)
    then show ?thesis using end_pass_lives [OF _ l(2)] l(1) lives_trans s(2) Select_error by blast
  next
    case Interrupted
    then have "end_pass (- 1) ?es = Some (Cont (r, es'))" using run by (simp add: Event_HandleEvent_def s Let_def)
    moreover have False using s(2) Interrupted do_select_not_interrupted by (auto simp: wait_select_def split: if_splits)
    ultimately show ?thesis by simp
  qed
qed

end
