(* ===== verification/Server_Loop_Claims.thy ===== *)
theory Server_Loop_Claims
  imports Server_Callbacks
begin

text \<open>
  The PPPoE server's main loop: every round of it is a sequence of steps of the server model, and the
  children that ended are reaped, except for an exit that falls into the window in which the event
  library forgets it.
\<close>

section \<open>Rounds of the loop\<close>







section \<open>The start\<close>






section \<open>Ended children\<close>

lemma reaped:
  assumes ok: "world_ok env ph pp ifs w" "pipe_ok w" "PipeFull w" "irq_ok q"
    and f: "fired w SIGCHLD" "sig_func w SIGCHLD = Some Child_handler"
    and run: "DoPipe run_signal q w = Some (Cont w')"
  shows "\<exists>zs. set (zombies w) \<subseteq> set zs \<and> children (srv w') = filter (\<lambda>(p, s). int p \<notin> fst ` set zs) (children (srv w)) \<and>
    server_path env (srv w) (srv w')"
proof -
  have A: "\<forall>x \<in> set (irq_read q). arrival_ok x" "\<forall>j. \<forall>x \<in> set (irq_call q j) \<union> set (irq_gap q j). arrival_ok x"
    using ok(4) unfolding irq_ok_def by blast+
  have k: "SIGCHLD < MAX_SIGNALS" by (simp add: SIGCHLD_def MAX_SIGNALS_def)
  obtain u v where u: "world_ok env ph pp ifs u" "(queue_step env)\<^sup>*\<^sup>* w u" "run_signal Child_handler SIGCHLD u = Some (Cont v)"
    "(queue_step env)\<^sup>*\<^sup>* v w'"
    using sigs.DoPipe_calls [OF ok(1-3) A k f run] by blast
  have "child_handler run_child u = Some (Cont v)" using u(3) by (simp add: run_signal_def)
  then have v: "(queue_step env)\<^sup>*\<^sup>* u v" "zombies v = []" using reap.reaps [OF u(1)] reap_queue by auto
  have "(queue_step env)\<^sup>*\<^sup>* w w'" using u(2,4) v(1) by (meson rtranclp_trans)
  then have path: "server_path env (srv w) (srv w')" using queue_loop by (simp add: loop_step_def)
  have "(queue_step env)\<^sup>*\<^sup>* w v" using u(2) v(1) by (rule rtranclp_trans)
  then obtain xs m where x: "zombies w @ m = xs" "children (srv v) = filter (\<lambda>(p, s). int p \<notin> fst ` set xs) (children (srv w))"
    using queue_steps v(2) by (fastforce simp: queue_step_def)
  obtain ys :: "(int \<times> int) list" where y: "children (srv w') = filter (\<lambda>(p, s). int p \<notin> fst ` set ys) (children (srv v))"
    using queue_steps [OF u(4)] unfolding queue_step_def by blast
  have "children (srv w') = filter (\<lambda>(p, s). int p \<notin> fst ` set (xs @ ys)) (children (srv w))"
    unfolding x(2) y filter_filter by (rule filter_cong [OF refl]) auto
  moreover have "set (zombies w) \<subseteq> set (xs @ ys)" using x(1) by auto
  ultimately show ?thesis using path by blast
qed

text \<open>The window: the handler of SIGCHLD has returned, its mark is not yet reset.\<close>

definition window_exit :: "int \<Rightarrow> int \<Rightarrow> irq" where
  "window_exit p x = no_irq\<lparr>irq_call := (\<lambda>i. if i = SIGCHLD then [Child_exit p x] else [])\<rparr>"

lemma lost:
  assumes ok: "world_ok env ph pp ifs w" "pipe_ok w" "PipeFull w" "0 < p"
    and f: "\<forall>i. fired w i \<longleftrightarrow> i = SIGCHLD" "sig_func w SIGCHLD = Some Child_handler"
  shows "\<exists>w1 w2. DoPipe run_signal (window_exit p x) w = Some (Cont w1) \<and> DoPipe run_signal no_irq w1 = Some (Cont w2) \<and>
    zombies w2 = [(p, x)] \<and> (\<forall>i. \<not> fired w2 i) \<and> Pipe_bytes w2 = [] \<and>
    children (srv w2) = filter (\<lambda>(p, s). int p \<notin> fst ` set (zombies w)) (children (srv w))"
proof -
  let ?q = "window_exit p x"
  have k: "SIGCHLD < MAX_SIGNALS" by (simp add: SIGCHLD_def MAX_SIGNALS_def)
  have q: "irq_read ?q = []" "\<And>i. irq_gap ?q i = []" "\<And>i. i \<noteq> SIGCHLD \<Longrightarrow> irq_call ?q i = []" "irq_call ?q SIGCHLD = [Child_exit p x]"
    by (simp_all add: window_exit_def no_irq_def)
  obtain b where b: "Pipe_bytes w = [b]" using ok(2,3) by (auto simp: pipe_ok_def length_Suc_conv le_Suc_eq)
  let ?w0 = "w\<lparr>Pipe_bytes := [], PipeFull := False\<rparr>"
  have first: "fire run_signal ?q [0..<SIGCHLD] ?w0 = Some (Cont ?w0)" by (rule fire_idle) (use f(1) q in auto)
  let ?u = "?w0\<lparr>sig_calls := sig_calls w @ [SIGCHLD]\<rparr>"
  have "world_ok env ph pp ifs ?u" by (rule world_ok_cong [of _ w]) (use ok(1) in \<open>simp_all add: world_ok_def\<close>)
  from reap.reaps [OF this] obtain r where r: "child_handler run_child ?u = Some r"
    "case r of Cont v \<Rightarrow> world_ok env ph pp ifs v \<and> (reap_step env)\<^sup>*\<^sup>* ?u v \<and> zombies v = [] \<and> steady ?u v | Exit v \<Rightarrow> (reap_step env)\<^sup>*\<^sup>* ?u v \<and> False"
    by blast
  then obtain v where v: "child_handler run_child ?u = Some (Cont v)" "(reap_step env)\<^sup>*\<^sup>* ?u v" "zombies v = []" "steady ?u v"
    by (cases r) simp_all
  have sv: "fired v = fired w" "Pipe_bytes v = []" "\<not> PipeFull v" using v(4) by (simp_all add: steady_def)
  have call: "call_signal run_signal SIGCHLD ?w0 = Some (Cont v)" using f v(1) by (simp add: call_signal_def run_signal_def)
  let ?v = "v\<lparr>fired := (fired v)(SIGCHLD := True), Pipe_bytes := [word_of_nat SIGCHLD], PipeFull := True, zombies := [(p, x)]\<rparr>"
  have arr: "arrivals [Child_exit p x] v = Some ?v"
    using sv v(3) k by (simp add: sig_handler_def Let_def)
  let ?w1 = "?v\<lparr>fired := (\<lambda>_. False)\<rparr>"
  have "(fired ?v)(SIGCHLD := False) = (\<lambda>_. False)" using sv(1) f(1) by (auto simp: fun_eq_iff)
  then have reset: "?v\<lparr>fired := (fired ?v)(SIGCHLD := False)\<rparr> = ?w1" by simp
  have last: "fire run_signal ?q [Suc SIGCHLD..<MAX_SIGNALS] ?w1 = Some (Cont ?w1)" by (rule fire_idle) (use q in auto)
  have fs: "fired ?w0 SIGCHLD" using f(1) by simp
  have "fire run_signal ?q (SIGCHLD # [Suc SIGCHLD..<MAX_SIGNALS]) ?w0 = Some (Cont ?w1)"
    unfolding fire.simps q if_P [OF fs] call using arr last reset arrivals.simps(1) by (simp del: arrivals.simps(2) fire.simps arrive.simps)
  then have "fire run_signal ?q [0..<MAX_SIGNALS] ?w0 = Some (Cont ?w1)"
    unfolding upt_at [OF k] using first by (simp add: fire_append del: arrivals.simps fire.simps arrive.simps)
  then have 1: "DoPipe run_signal ?q w = Some (Cont ?w1)" using b q(1) by (simp add: DoPipe_def)
  let ?w2 = "?w1\<lparr>Pipe_bytes := [], PipeFull := False\<rparr>"
  have "fire run_signal no_irq [0..<MAX_SIGNALS] ?w2 = Some (Cont ?w2)" by (rule fire_idle) (simp add: no_irq_def)
  then have 2: "DoPipe run_signal no_irq ?w1 = Some (Cont ?w2)" by (simp add: DoPipe_def no_irq_def)
  have "children (srv v) = filter (\<lambda>(p, s). int p \<notin> fst ` set (zombies w)) (children (srv w))"
    using reap_steps [OF v(2)] v(3) by (auto simp: reap_step_def)
  then show ?thesis by (intro exI [of _ ?w1] exI [of _ ?w2] conjI 1 2) simp_all
qed

section \<open>The server from its start\<close>


definition loop_frame :: frame_input where
  "loop_frame = \<lparr>fi_recv = Recv demo_padr 1500, fi_now = 99, fi_fork = 1234, fi_entry = (\<lambda>A. Some (Suc (Max (insert 0 A)))), fi_sigaction = True\<rparr>"





definition loop_start :: server_loop where
  "loop_start = (start_world \<lparr>buckets = (\<lambda>_. None), compute_hash = (\<lambda>_. 0), hash_compare = (\<lambda>_ _. 0), num_entries = 0, hb_next = (\<lambda>_. None),
     hb_prev = (\<lambda>_. None), hb_hashval = (\<lambda>_. 0)\<rparr> (\<lambda>_. \<lparr>ce_handler = None, ce_pid = 0, ce_data = 0\<rparr>) demo_srv)
     \<lparr>frames_in := [loop_frame], irqs_in := []\<rparr>"


section \<open>An exit that is lost\<close>

text \<open>
  C40: An exit of a child can be lost. When a child ends after \<open>DoPipe\<close> has run the handler of SIGCHLD and
  before it resets the mark of the signal, the mark is gone and the byte in the pipe only makes
  \<open>DoPipe\<close> run once more, without a call: the child stays in the table and a zombie in the system, its
  session stays busy, and no byte is left that would make the selector look again until another child
  ends.
\<close>

theorem exit_in_window_is_lost:
  assumes "world_ok env ph pp ifs w" "pipe_ok w" "PipeFull w"
    and "\<forall>i. fired w i \<longleftrightarrow> i = SIGCHLD" "sig_func w SIGCHLD = Some Child_handler"
    and "(p, s) \<in> set (children (srv w))" "int p \<notin> fst ` set (zombies w)"
  shows "\<exists>w1 w2. DoPipe run_signal (window_exit (int p) x) w = Some (Cont w1) \<and> DoPipe run_signal no_irq w1 = Some (Cont w2) \<and>
    zombies w2 = [(int p, x)] \<and> (p, s) \<in> set (children (srv w2)) \<and> (\<forall>i. \<not> fired w2 i) \<and> Pipe_bytes w2 = []"
proof -
  have "0 < int p" using assms(1,6) unfolding world_ok_def mirrored_def waited_def by metis
  then show ?thesis using lost [OF assms(1-3) _ assms(4,5), of "int p" x] assms(6,7) by auto
qed

definition demo_window :: server_loop where
  "demo_window = (let e = \<lparr>ce_handler = Some ChildHandler_fn, ce_pid = 1234, ce_data = 0\<rparr> in
     (child_insert 1 e (loop_start\<lparr>srv := demo_busy, frames_in := []\<rparr>))
     \<lparr>PipeHandler := Some 100, Pipe := (5, 6), Pipe_bytes := [17], PipeFull := True, fired := (\<lambda>i. i = 17),
      sig_func := [17 \<mapsto> Child_handler], zombies := [(77, 0)]\<rparr>)"

theorem exit_in_window_is_lost_witness:
  "\<exists>w1 w2. DoPipe run_signal (window_exit 1234 9) demo_window = Some (Cont w1) \<and> DoPipe run_signal no_irq w1 = Some (Cont w2) \<and>
    zombies w2 = [(1234, 9)] \<and> (1234, 0) \<in> set (children (srv w2)) \<and> (\<forall>i. \<not> fired w2 i) \<and> Pipe_bytes w2 = []"
proof -
  let ?e = "\<lparr>ce_handler = Some ChildHandler_fn, ce_pid = 1234, ce_data = 0\<rparr>"
  let ?w = "loop_start\<lparr>srv := demo_busy, frames_in := []\<rparr>"
  have w: "child_live ?w = {}" "\<And>q b. \<not> waited ?w q b" by (simp_all add: loop_start_def start_world_def waited_def)
  have "child_inv ?w"
    by (rule empty_children [OF w(1), of "\<lambda>_. 0" "\<lambda>_ _. 0" "child_process_table ?w"]) (simp add: loop_start_def start_world_def hash_init_def)
  note I = child_insert_inv [OF this, of 1 ?e]
  let ?v = "child_insert 1 ?e ?w"
  have c: "child_inv demo_window" "waited demo_window = waited ?v"
    using child_inv_cong [of demo_window ?v] I(1) w by (simp_all add: demo_window_def Let_def)
  have wt: "waited demo_window q b \<longleftrightarrow> b = 1 \<and> q = 1234" for q b using I(2) w c(2) by auto
  have m: "child_mem demo_window 1 = ?e" "child_live demo_window = {1}" "srv demo_window = demo_busy" "frames_in demo_window = []"
    "irqs_in demo_window = []" "zombies demo_window = [(77, 0)]" "PipeHandler demo_window = Some 100" "Pipe demo_window = (5, 6)"
    using w(1) by (simp_all add: demo_window_def Let_def child_insert_def loop_start_def start_world_def)
  have "mirrored demo_window" using wt m(1) by (auto simp: mirrored_def m(2,3) demo_busy_runs(3))
  then have "world_ok demo_srv_env 100 (5, 6) (interfaces demo_busy) demo_window"
    using c demo_busy_runs(5) m(1) by (simp add: world_ok_def m(2-8) frames_ok_def)
  moreover have "pipe_ok demo_window" "PipeFull demo_window" "\<forall>i. fired demo_window i \<longleftrightarrow> i = SIGCHLD"
    "sig_func demo_window SIGCHLD = Some Child_handler"
    by (simp_all add: demo_window_def Let_def pipe_ok_def SIGCHLD_def)
  ultimately show ?thesis
    using exit_in_window_is_lost [of demo_srv_env 100 "(5, 6)" "interfaces demo_busy" demo_window 1234 0 9] m demo_busy_runs(3) by simp
qed

end
