(* ===== verification/Spec2Isabelle.thy ===== *)
theory Spec2Isabelle
  imports Eapol_Env Relay_Routing Pppoe_System Apd_Claims Event_Client Server_Loop_Claims
begin

text \<open>
  A verification library for the router software of the MI424WR: the programs of the repository that
  were written or adapted for this router and decide who gets a connection.

  \<^bold>\<open>The program.\<close> The repository is the open-source part of a home router: a Linux kernel, a C library
  and tools taken from elsewhere, and a few programs of its own. Two of them carry protocol logic.

  \<^item> PPPoE (\<open>rg/pkg/pppoe-server/src\<close>): a client, a server and a relay. Discovery frames
    (PADI, PADO, PADR, PADS, PADT) with lists of tags open and close a session; session frames then
    carry PPP. The relay lives in the kernel and passes frames between a concentrator and the hosts
    behind it under session numbers of its own.
  \<^item> The 802.1X authenticator of the wireless access point (\<open>rg/vendor/ralink/8021X\<close>): a daemon that
    takes EAPOL frames of stations from the driver, asks a RADIUS server about them, and tells the
    driver the keys of the stations that are accepted.

  \<^bold>\<open>The theories.\<close> Every definition that models code carries the name of the function, type or
  constant of the source, where HOL allows it.

  \<^item> \<open>Prelude\<close>: reading and writing bytes of a buffer, where an access outside of it is \<open>None\<close>;
    16-bit numbers in network byte order; the helpers for binds. \<open>Tlv\<close>: the locale \<open>tlv_codec\<close> of
    lists of elements with a type and a length, interpreted for PPPoE tags in \<open>Pppoe_Packet\<close> and for
    RADIUS attributes in \<open>Radius_Props\<close>. \<open>Linked_Lists\<close>: chains in a store, for the relay and the server.
    \<open>Session_Pool\<close>: the locales \<open>session_pool\<close> and \<open>fifo_pool\<close> of pools of session slots, with their
    interpretation on the session table of the server in \<open>Server_Pool\<close>.
  \<^item> \<open>Pppoe_Packet\<close> (\<open>common.c\<close>, \<open>pppoe.h\<close>): packets, tags, \<open>parsePacket\<close>, \<open>findTag\<close>, \<open>clampMSS\<close>.
    \<open>Pppoe_Send\<close>: the parts of sending that client and server share, and the PADT packet.
  \<^item> \<open>Pppoe_Relay\<close>, \<open>Relay_Sessions\<close>, \<open>Relay_Props\<close>, \<open>Relay_Routing\<close> (\<open>relay.c\<close>): the relay, its
    session table as linked lists in a store, the invariant of the tables, what is routed where.
  \<^item> \<open>Ppp_Frame\<close>, \<open>Pppoe_Client\<close>, \<open>Client_Props\<close>, \<open>Client_Session\<close>, \<open>Client_Async\<close> (\<open>ppp.c\<close>,
    \<open>discovery.c\<close>, \<open>pppoe.c\<close>): the client: discovery with its retries, the session loop, the framing
    of PPP on the side of the PPP daemon.
  \<^item> \<open>Pppoe_Server\<close>, \<open>Server_Pool\<close>, \<open>Server_Props\<close>, \<open>Server_Answers\<close>, \<open>Server_Claims\<close>
    (\<open>pppoe-server.c\<close>): the server: cookies, the session table, the processes of the sessions, the
    pool of addresses. \<open>Pppoe_System\<close>: client and server joined by a network.
  \<^item> \<open>Hash_Table\<close> (\<open>libevent/hash.c\<close>), \<open>Event_Select\<close>, \<open>Event_Props\<close>, \<open>Event_Client\<close>
    (\<open>libevent/event.c\<close>), \<open>Event_Signals\<close>, \<open>Event_Sig_Props\<close>, \<open>Event_Children\<close>
    (\<open>libevent/event_sig.c\<close>): the event library of the server: handlers in a linked list that
    callbacks may change, the pass over \<open>select\<close>, signals through a pipe, ended children. Locales state
    what a callback, a handler of signals and a handler of children must keep.
    \<open>Server_Loop\<close>, \<open>Server_Loop_Props\<close>, \<open>Server_Callbacks\<close>, \<open>Server_Loop_Claims\<close> (\<open>pppoe-server.c\<close>):
    the main loop of the server on that library, with interpretations of these locales for its handlers.
  \<^item> \<open>Md5\<close>, \<open>Rc4\<close> (\<open>md5.c\<close>): the digest, HMAC-MD5 and the stream cipher.
    \<open>Radius_Msg\<close>, \<open>Radius_Props\<close>, \<open>Radius_Claims\<close> (\<open>radius.c\<close>): RADIUS messages.
  \<^item> \<open>Eapol_SM\<close>, \<open>Eapol_Env\<close> (\<open>eapol_sm.c\<close>): the four state machines of a station and the events
    that drive them. \<open>Eloop\<close> (\<open>eloop.c\<close>): timers and sockets. \<open>Apd\<close>, \<open>Apd_Loop\<close> (\<open>ieee802_1x.c\<close>,
    \<open>radius_client.c\<close>, \<open>sta_info.c\<close>, \<open>rt2500apd.c\<close>, \<open>eloop.c\<close>): the daemon around them.
    \<open>Apd_Props\<close>, \<open>Apd_Runs\<close>, \<open>Apd_Claims\<close>: what its handlers, its event loop and its runs do.

  \<^bold>\<open>How state and effects are modelled.\<close> The globals of a program are one record; a function of the
  source is a function from the state to the state or to \<open>option\<close>. \<open>None\<close> is an access outside an
  object, through NULL or to freed memory, and a loop that never ends; where a function of the
  source itself fails, the result says so as a value. What the system gives (results of system
  calls, clock, random bytes, \<open>malloc\<close>) is an argument, by the number of calls made so far where a
  call can be repeated; frames sent, keys given to the driver and calls of machines are traces in
  the state. The relay, the client, the server and the daemon are step functions on events, and the
  theorems about runs quantify over all sequences of events. For the server the steps are also the
  result of its main loop: \<open>Server_Loop_Claims\<close> shows that what it does with frames, signals and
  the exits of children is a sequence of them. A record of the state that a library keeps is extended
  by the program that uses it. Machine integers are words where they
  can wrap around.

  \<^bold>\<open>Bounds.\<close> No fuel is used. Loops over data are structural recursion; the carry loop of a timer has
  a measure; \<open>eapol_sm_step\<close>, the search along chains, the walks over the handlers of the selector, the reaping of
  children and the walk over vendor attributes are partial functions into \<open>option\<close>, and that they
  return is proved for the states that can occur (\<open>Eapol_Env\<close>, \<open>Relay_Routing\<close>, \<open>Event_Client\<close>,
  \<open>Server_Loop_Claims\<close>, \<open>Radius_Claims\<close>) or refuted by an input. A run of the main loop is a finite
  list of rounds.

  \<^bold>\<open>What the lemmas show.\<close> For the machines of a station: that a step ends, that only an accept opens
  a port and when it does, that a logoff closes it. For the daemon: each handler acts on the machines as events of
  that specification (\<open>Apd_Props\<close>), so that in all runs a port needs an answer that a server
  authenticated. For RADIUS and PPPoE packets: round trips, memory safety, checksums. For the
  relay and the server: invariants of the session tables under every event, who may open a session
  and what is sent where; for the relay also that every event is handled, with the one exception of a
  packet that is cut off within a tag header. For the event library: which handlers a pass calls and
  that no freed one is touched, that every ended child is reaped but for a window in \<open>DoPipe\<close>. For the client: which concentrator it accepts, when it gives up, that the
  decoder of PPP frames stays in its buffer. For the three programs: inputs that break them, as
  theorems that a handler then has the result \<open>None\<close> or does what a comment excludes.

  \<^bold>\<open>Assumptions of the daemon's model.\<close> A pass of the event loop reads the clock once. Signals are taken
  between passes. The calls that a machine makes are carried out after the step that makes them:
  none of them writes to the machine. The number of a freed station is not used again. Log messages
  are left out, except where the loop that writes one does not end.

  \<^bold>\<open>Assumptions of the server's main loop.\<close> A signal that arrives outside of \<open>DoPipe\<close> arrives before the
  pass, since the handlers do not look at the marks; SIGCHLD is blocked while a child is started. The
  theorem about the loop takes frames for which the packet handler returns (where it leaves its objects
  is proved of the handler), numbers of processes that are not in use, memory for the entries of
  children, and a \<open>select\<close> that reports the pipe only when it holds a byte.

  \<^bold>\<open>Not modelled.\<close> Sockets and ioctls, the plugin of the PPP daemon, user IDs and syslog; the part of the
  event library for TCP, which this build does not call; the configuration
  file of the 802.1X daemon, which is read and rewritten in place. The OpenRG utilities, the build scripts
  and the host tools make no decision at run time. The Linux kernel, the C library, the shell, the
  tools and the libraries for cryptography and compression are releases of other projects.
\<close>

end
